(* ===== verification/Prelude.thy ===== *)
theory Prelude
  imports Main "HOL-Library.Monad_Syntax" "HOL-Library.Char_ord" "HOL-Library.List_Lexorder"
begin

text \<open>
  What the component theories share: the Go string operations the sources call, 64-bit
  signed arithmetic, and traversals of lists by operations that may panic.

  A Go \<open>string\<close> is a list of \<open>char\<close>, one per byte.  A Go function that may panic (a nil
  dereference, a failed type assertion) returns an \<open>option\<close>; \<open>None\<close> is the panic.
  A function that also updates captured variables takes the variables as a state
  argument and returns the new state beside its result.
\<close>

named_theorems go_strings \<open>unfolding rules of the Go string operations\<close>

section \<open>Strings\<close>

definition has_prefix :: "string \<Rightarrow> string \<Rightarrow> bool" where
  "has_prefix s p \<longleftrightarrow> take (length p) s = p"

definition has_suffix :: "string \<Rightarrow> string \<Rightarrow> bool" where
  "has_suffix s p \<longleftrightarrow> length p \<le> length s \<and> drop (length s - length p) s = p"

definition trim_prefix :: "string \<Rightarrow> string \<Rightarrow> string" where
  "trim_prefix s p = (if has_prefix s p then drop (length p) s else s)"

definition trim_suffix :: "string \<Rightarrow> string \<Rightarrow> string" where
  "trim_suffix s p = (if has_suffix s p then take (length s - length p) s else s)"

text \<open>\<open>strings.Trim(s, c)\<close> for a cutset of one character.\<close>

definition trim_char :: "char \<Rightarrow> string \<Rightarrow> string" where
  "trim_char c s = rev (dropWhile ((=) c) (rev (dropWhile ((=) c) s)))"

fun contains :: "string \<Rightarrow> string \<Rightarrow> bool" where
  "contains [] p = (p = [])"
| "contains (c # s) p = (has_prefix (c # s) p \<or> contains s p)"

definition contains_any :: "string \<Rightarrow> string \<Rightarrow> bool" where
  "contains_any s cs \<longleftrightarrow> list_ex (\<lambda>c. c \<in> set cs) s"

text \<open>\<open>strings.Index\<close>: the least offset at which \<open>p\<close> occurs, \<open>None\<close> for \<open>-1\<close>.\<close>

fun index_of :: "string \<Rightarrow> string \<Rightarrow> nat option" where
  "index_of [] p = (if p = [] then Some 0 else None)"
| "index_of (c # s) p =
     (if has_prefix (c # s) p then Some 0 else map_option Suc (index_of s p))"

text \<open>\<open>strings.ReplaceAll\<close> of a one-byte string.\<close>

definition replace_char :: "char \<Rightarrow> string \<Rightarrow> string \<Rightarrow> string" where
  "replace_char c r s = concat (map (\<lambda>x. if x = c then r else [x]) s)"

text \<open>\<open>strings.Split\<close> by a one-byte separator; the result is never empty.\<close>

fun split_on :: "char \<Rightarrow> string \<Rightarrow> string list" where
  "split_on sep [] = [[]]"
| "split_on sep (c # s) =
     (if c = sep then [] # split_on sep s
      else (case split_on sep s of [] \<Rightarrow> [[c]] | w # ws \<Rightarrow> (c # w) # ws))"

fun join :: "string \<Rightarrow> string list \<Rightarrow> string" where
  "join sep [] = []"
| "join sep [w] = w"
| "join sep (w # ws) = w @ sep @ join sep ws"

text \<open>\<open>strings.ToUpper\<close> and \<open>ToLower\<close> on ASCII letters; other bytes are kept.\<close>

definition upper_char :: "char \<Rightarrow> char" where
  "upper_char c = (let n = (of_char c :: nat) in if 97 \<le> n \<and> n \<le> 122 then char_of (n - 32) else c)"

definition lower_char :: "char \<Rightarrow> char" where
  "lower_char c = (let n = (of_char c :: nat) in if 65 \<le> n \<and> n \<le> 90 then char_of (n + 32) else c)"

definition to_upper :: "string \<Rightarrow> string" where
  "to_upper s = map upper_char s"

definition to_lower :: "string \<Rightarrow> string" where
  "to_lower s = map lower_char s"

text \<open>\<open>%d\<close> of an integer.\<close>

definition digit_char :: "nat \<Rightarrow> char" where
  "digit_char d = char_of (48 + d)"

fun nat_digits :: "nat \<Rightarrow> string" where
  "nat_digits n = (if n < 10 then [digit_char n] else nat_digits (n div 10) @ [digit_char (n mod 10)])"

declare nat_digits.simps [simp del]

definition itoa :: "int \<Rightarrow> string" where
  "itoa i = (if i < 0 then CHR ''-'' # nat_digits (nat (- i)) else nat_digits (nat i))"

text \<open>\<open>util.Distinct\<close>: the distinct elements in increasing order.\<close>

definition distinct_sorted :: "'a::linorder list \<Rightarrow> 'a list" where
  "distinct_sorted xs = sort (remdups xs)"

section \<open>64-bit signed arithmetic\<close>

definition wrap64 :: "int \<Rightarrow> int" where
  "wrap64 x = (x + 2 ^ 63) mod 2 ^ 64 - 2 ^ 63"

definition int64_range :: "int \<Rightarrow> bool" where
  "int64_range x \<longleftrightarrow> - (2 ^ 63) \<le> x \<and> x < 2 ^ 63"

lemma wrap64_range [simp]: "int64_range (wrap64 x)"
  by (simp add: wrap64_def int64_range_def)

lemma wrap64_id: "int64_range x \<Longrightarrow> wrap64 x = x"
  by (simp add: wrap64_def int64_range_def)

section \<open>Traversals that may panic\<close>

fun opt_mapM :: "('a \<Rightarrow> 'b option) \<Rightarrow> 'a list \<Rightarrow> 'b list option" where
  "opt_mapM f [] = Some []"
| "opt_mapM f (x # xs) = do { y \<leftarrow> f x; ys \<leftarrow> opt_mapM f xs; Some (y # ys) }"

fun st_mapM :: "('a \<Rightarrow> 's \<Rightarrow> ('b \<times> 's) option) \<Rightarrow> 'a list \<Rightarrow> 's \<Rightarrow> ('b list \<times> 's) option" where
  "st_mapM f [] s = Some ([], s)"
| "st_mapM f (x # xs) s =
     do { (y, s1) \<leftarrow> f x s; (ys, s2) \<leftarrow> st_mapM f xs s1; Some (y # ys, s2) }"

lemma opt_mapM_cong [fundef_cong]:
  "xs = ys \<Longrightarrow> (\<And>x. x \<in> set ys \<Longrightarrow> f x = g x) \<Longrightarrow> opt_mapM f xs = opt_mapM g ys"
  by (induction ys arbitrary: xs) (auto cong: Option.bind_cong)

lemma st_mapM_cong [fundef_cong]:
  "xs = ys \<Longrightarrow> s = t \<Longrightarrow> (\<And>x s. x \<in> set ys \<Longrightarrow> f x s = g x s) \<Longrightarrow>
   st_mapM f xs s = st_mapM g ys t"
proof (induction ys arbitrary: xs s t)
  case (Cons y ys)
  then have "f y t = g y t" and "\<And>u. st_mapM f ys u = st_mapM g ys u" by auto
  with Cons.prems show ?case by simp
qed simp

lemma opt_mapM_Some:
  "(\<And>x. x \<in> set xs \<Longrightarrow> f x \<noteq> None) \<Longrightarrow> \<exists>ys. opt_mapM f xs = Some ys \<and> length ys = length xs"
proof (induction xs)
  case (Cons x xs)
  then obtain ys where "opt_mapM f xs = Some ys" "length ys = length xs" by force
  moreover obtain y where "f x = Some y" using Cons.prems by force
  ultimately show ?case by simp
qed simp

lemma opt_mapM_map: "(\<And>x. x \<in> set xs \<Longrightarrow> f x = Some (g x)) \<Longrightarrow> opt_mapM f xs = Some (map g xs)"
  by (induction xs) auto

text \<open>A traversal whose steps return a function of the element and keep the state.\<close>

lemma st_mapM_pure:
  "(\<And>x s. x \<in> set xs \<Longrightarrow> f x s = Some (g x, s)) \<Longrightarrow> st_mapM f xs s = Some (map g xs, s)"
  by (induction xs) auto

text \<open>A property of the state that every step keeps is kept by the traversal.\<close>

lemma st_mapM_invariant:
  assumes "st_mapM f xs s = Some (ys, t)" and "P s"
    and "\<And>x s y t. x \<in> set xs \<Longrightarrow> f x s = Some (y, t) \<Longrightarrow> P s \<Longrightarrow> P t"
  shows "P t"
  using assms
proof (induction xs arbitrary: s ys)
  case (Cons x xs)
  from Cons.prems(1) obtain y s1 ys' where
    "f x s = Some (y, s1)" and "st_mapM f xs s1 = Some (ys', t)"
    by (auto simp: bind_eq_Some_conv)
  with Cons show ?case by (metis list.set_intros)
qed simp

section \<open>Facts about the string operations\<close>

lemma split_on_not_Nil [simp]: "split_on sep s \<noteq> []"
  by (induction s) (auto split: list.split)

lemma split_on_free: "sep \<notin> set s \<Longrightarrow> split_on sep s = [s]"
  by (induction s) auto

lemma split_on_length_gt_1: "length (split_on sep s) > 1 \<longleftrightarrow> sep \<in> set s"
proof (induction s)
  case (Cons c s)
  then show ?case
    by (cases "split_on sep s") auto
qed simp

lemma split_on_parts_free: "w \<in> set (split_on sep s) \<Longrightarrow> sep \<notin> set w"
  by (induction s arbitrary: w) (auto split: list.splits if_splits)

lemma join_Cons: "ws \<noteq> [] \<Longrightarrow> join sep (w # ws) = w @ sep @ join sep ws"
  by (cases ws) auto

lemma join_split_on: "join [sep] (split_on sep s) = s"
proof (induction s)
  case (Cons c s)
  show ?case
  proof (cases "c = sep")
    case True
    then show ?thesis using Cons by (simp add: join_Cons)
  next
    case False
    obtain w ws where "split_on sep s = w # ws" by (cases "split_on sep s") auto
    with False Cons show ?thesis by (cases ws) auto
  qed
qed simp

lemma contains_single: "contains s [c] \<longleftrightarrow> c \<in> set s"
  by (induction s) (auto simp: has_prefix_def)

lemma contains_char_iff: "contains_any s cs \<longleftrightarrow> (\<exists>c \<in> set s. c \<in> set cs)"
  by (simp add: contains_any_def list_ex_iff)

lemma replace_char_Nil [simp]: "replace_char c r [] = []"
  by (simp add: replace_char_def)

lemma replace_char_Cons [simp]:
  "replace_char c r (x # s) = (if x = c then r else [x]) @ replace_char c r s"
  by (simp add: replace_char_def)

lemma replace_char_append [simp]:
  "replace_char c r (s @ t) = replace_char c r s @ replace_char c r t"
  by (simp add: replace_char_def)

lemma set_distinct_sorted [simp]: "set (distinct_sorted xs) = set xs"
  by (simp add: distinct_sorted_def)

lemma distinct_sorted_props [simp]:
  "distinct (distinct_sorted xs)" "sorted (distinct_sorted xs)"
  by (simp_all add: distinct_sorted_def)

text \<open>The order and multiplicity of the input do not matter.\<close>

lemma distinct_sorted_cong: "set xs = set ys \<Longrightarrow> distinct_sorted xs = distinct_sorted ys"
  by (rule sorted_distinct_set_unique) auto

lemma distinct_sorted_idem [simp]: "distinct_sorted (distinct_sorted xs) = distinct_sorted xs"
  by (rule distinct_sorted_cong) simp

lemma distinct_sorted_id: "sorted xs \<Longrightarrow> distinct xs \<Longrightarrow> distinct_sorted xs = xs"
  by (rule sorted_distinct_set_unique) auto

end
