(* ===== verification/Config.thy ===== *)
theory Config
  imports Prelude
begin

text \<open>
  The part of the configuration that routing and optimisation read:
  \<open>quesma/config/index_config.go\<close>, the fields of \<open>QuesmaConfiguration\<close>
  (\<open>quesma/config/config.go\<close>) they use, and the index-name predicates of
  \<open>quesma/elasticsearch/index.go\<close> and \<open>quesma/util/index_pattern.go\<close>.

  A Go map the sources iterate over is an association list; its order stands for the order
  of one iteration, which Go leaves open.
\<close>

section \<open>Targets and index configuration\<close>

definition ElasticsearchTarget :: string where "ElasticsearchTarget = ''elasticsearch''"
definition ClickhouseTarget :: string where "ClickhouseTarget = ''clickhouse''"

lemma targets_distinct [simp]:
  "ElasticsearchTarget \<noteq> ClickhouseTarget" "ClickhouseTarget \<noteq> ElasticsearchTarget"
  by (simp_all add: ElasticsearchTarget_def ClickhouseTarget_def)

record optimizer_configuration =
  Disabled :: bool
  Properties :: "string \<rightharpoonup> string"

record index_configuration =
  Optimizers :: "string \<rightharpoonup> optimizer_configuration"
  Override :: string
  UseCommonTable :: bool
  QueryTarget :: "string list"
  IngestTarget :: "string list"

definition TableNameOf :: "index_configuration \<Rightarrow> string \<Rightarrow> string" where
  "TableNameOf c origName = (if length (Override c) > 0 then Override c else origName)"

definition GetOptimizerConfiguration ::
  "index_configuration \<Rightarrow> string \<Rightarrow> (string \<rightharpoonup> string) option \<times> bool" where
  "GetOptimizerConfiguration c optimizerName =
     (case Optimizers c optimizerName of
        Some optimizer \<Rightarrow> (Some (Properties optimizer), Disabled optimizer)
      | None \<Rightarrow> (None, True))"

definition IsElasticQueryEnabled :: "index_configuration \<Rightarrow> bool" where
  "IsElasticQueryEnabled c \<longleftrightarrow> ElasticsearchTarget \<in> set (QueryTarget c)"

definition IsElasticIngestEnabled :: "index_configuration \<Rightarrow> bool" where
  "IsElasticIngestEnabled c \<longleftrightarrow> ElasticsearchTarget \<in> set (IngestTarget c)"

definition IsClickhouseQueryEnabled :: "index_configuration \<Rightarrow> bool" where
  "IsClickhouseQueryEnabled c \<longleftrightarrow> ClickhouseTarget \<in> set (QueryTarget c)"

definition IsClickhouseIngestEnabled :: "index_configuration \<Rightarrow> bool" where
  "IsClickhouseIngestEnabled c \<longleftrightarrow> ClickhouseTarget \<in> set (IngestTarget c)"

definition IsIngestDisabled :: "index_configuration \<Rightarrow> bool" where
  "IsIngestDisabled c \<longleftrightarrow> length (IngestTarget c) = 0"

record quesma_configuration =
  IndexConfig :: "(string \<times> index_configuration) list"
  DefaultIngestTarget :: "string list"
  DefaultQueryTarget :: "string list"
  UseCommonTableForWildcard :: bool
  AutodiscoveryEnabled :: bool

section \<open>Index names and patterns\<close>

definition IsIndexPattern :: "string \<Rightarrow> bool" where
  "IsIndexPattern index \<longleftrightarrow> contains_any index ''*,''"

definition IsInternalIndex :: "string \<Rightarrow> bool" where
  "IsInternalIndex index \<longleftrightarrow> has_prefix index ''.'' \<or> has_prefix index ''_''"

datatype index_name_error = IndexNameTooLong nat nat

definition IsValidIndexName :: "string \<Rightarrow> index_name_error option" where
  "IsValidIndexName name =
     (let maxIndexNameLength = 256
      in if length name > maxIndexNameLength then Some (IndexNameTooLong (length name) maxIndexNameLength)
         else None)"

text \<open>
  \<open>IndexPatternMatches\<close> compiles \<open>^\<close> pattern \<open>$\<close> with every \<open>*\<close> turned into \<open>.*\<close>: a star
  stands for any text, a dot for any byte, both within a line.  The model covers patterns
  whose other bytes mean themselves in a regular expression, as the bytes of index names do.
\<close>

fun IndexPatternMatches :: "string \<Rightarrow> string \<Rightarrow> bool" where
  "IndexPatternMatches [] [] = True"
| "IndexPatternMatches [] (d # n) = False"
| "IndexPatternMatches (c # p) [] = (c = CHR ''*'' \<and> IndexPatternMatches p [])"
| "IndexPatternMatches (c # p) (d # n) =
     (if c = CHR ''*'' then
        IndexPatternMatches p (d # n) \<or> d \<noteq> CHR 0x0A \<and> IndexPatternMatches (c # p) n
      else (c = d \<or> c = CHR ''.'' \<and> d \<noteq> CHR 0x0A) \<and> IndexPatternMatches p n)"

lemma IndexPatternMatches_star: "CHR 0x0A \<notin> set n \<Longrightarrow> IndexPatternMatches ''*'' n"
  by (induction n) auto

lemma IndexPatternMatches_self: "CHR ''*'' \<notin> set n \<Longrightarrow> IndexPatternMatches n n"
  by (induction n) auto

lemma internal_not_pattern_start: "IsInternalIndex n \<Longrightarrow> n \<noteq> []"
  by (auto simp: IsInternalIndex_def has_prefix_def)

end
