(* ===== verification/Expr_Model.thy ===== *)
theory Expr_Model
  imports Prelude
begin

text \<open>
  The SQL expression tree of \<open>quesma/model/expr.go\<close> and \<open>select.go\<close>, its base visitor
  (\<open>base_visitor.go\<close>), the structural equality of \<open>equal.go\<close>, the conjunctions of
  \<open>simple_query.go\<close> and the timestamp search of \<open>where_visitor.go\<close>.

  A Go value of interface type \<open>Expr\<close> is a value of \<open>expr\<close>; the nil interface is
  \<open>NilExpr\<close>.  Pointers to \<open>SelectCommand\<close> and \<open>CTE\<close> are identified with the values
  they point to, and a nil slice with an empty one.
\<close>

section \<open>The expression tree\<close>

record column_ref =
  TableAlias :: string
  ColumnName :: string

record table_ref =
  TableName :: string
  DatabaseName :: string

text \<open>The dynamic type of a Go integer; the value carried beside it lies in its range.\<close>

datatype int_kind = KInt | KInt8 | KInt16 | KInt32 | KInt64 | KUint8 | KUint16 | KUint32 | KUint64

text \<open>
  A literal's \<open>any\<close> value.  \<open>VOther t\<close> is a value of any further dynamic type
  (a float, say) that the sources only print: \<open>t\<close> is what \<open>%v\<close> prints for it.
\<close>

datatype any_value =
    VNil
  | VString string
  | VInt int_kind int
  | VBool bool
  | VOther string

datatype escape_type =
  NormalNotEscaped | NotEscapedLikePrefix | NotEscapedLikeFull | FullyEscaped | UnsetEscapeType

record literal_expr =
  Value :: any_value
  EscapeType :: escape_type

datatype order_by_direction = DefaultOrder | AscOrder | DescOrder

datatype expr =
    NilExpr
  | ColumnRef column_ref
  | PrefixExpr string "expr list"
  | NestedProperty expr literal_expr
  | ArrayAccess column_ref expr
  | FunctionExpr string "expr list"
  | LiteralExpr literal_expr
  | TupleExpr "expr list"
  | InfixExpr expr string expr
  | DistinctExpr expr
  | TableRef table_ref
  | OrderByE order_by_expr
  | AliasedExpr expr string
  | WindowFunction string "expr list" "expr list" "order_by_expr list"
  | ParenExpr "expr list"
  | LambdaExpr "string list" expr
  | JoinExpr expr string expr expr
  | SelectE select_command
  | CTEE cte
and order_by_expr = OrderByExpr (ob_Expr: expr) (ob_Direction: order_by_direction)
and select_command =
  SelectCommand (IsDistinct: bool) (Columns: "expr list") (FromClause: expr) (WhereClause: expr)
    (GroupBy: "expr list") (OrderBy: "order_by_expr list") (LimitBy: "expr list")
    (Limit: int) (SampleLimit: int) (NamedCTEs: "cte list")
and cte = CTE (cte_Name: string) (cte_Select: select_command)

subsection \<open>Constructors\<close>

definition NewColumnRef :: "string \<Rightarrow> column_ref" where
  "NewColumnRef name = \<lparr>TableAlias = [], ColumnName = name\<rparr>"

definition NewColumnRefWithTable :: "string \<Rightarrow> string \<Rightarrow> column_ref" where
  "NewColumnRefWithTable name tableAlias = \<lparr>TableAlias = tableAlias, ColumnName = name\<rparr>"

definition NewLiteral :: "any_value \<Rightarrow> literal_expr" where
  "NewLiteral v = \<lparr>Value = v, EscapeType = NormalNotEscaped\<rparr>"

definition NewLiteralWithEscapeType :: "any_value \<Rightarrow> escape_type \<Rightarrow> literal_expr" where
  "NewLiteralWithEscapeType v t = \<lparr>Value = v, EscapeType = t\<rparr>"

definition SingleQuote :: "string \<Rightarrow> string" where
  "SingleQuote v = [CHR 0x27] @ v @ [CHR 0x27]"

definition NewLiteralSingleQuoteString :: "any_value \<Rightarrow> literal_expr" where
  "NewLiteralSingleQuoteString v =
     (case v of
        VString s \<Rightarrow> \<lparr>Value = VString (SingleQuote s), EscapeType = UnsetEscapeType\<rparr>
      | _ \<Rightarrow> \<lparr>Value = v, EscapeType = UnsetEscapeType\<rparr>)"

definition NewTableRef :: "string \<Rightarrow> table_ref" where
  "NewTableRef name = \<lparr>TableName = name, DatabaseName = []\<rparr>"

definition NewTableRefWithDatabaseName :: "string \<Rightarrow> string \<Rightarrow> table_ref" where
  "NewTableRefWithDatabaseName name databaseName = \<lparr>TableName = name, DatabaseName = databaseName\<rparr>"

definition NewWildcardExpr :: literal_expr where
  "NewWildcardExpr = NewLiteral (VString ''*'')"

definition NewCountFunc :: "expr list \<Rightarrow> expr" where
  "NewCountFunc args =
     (let args = (if args = [] then [LiteralExpr NewWildcardExpr] else args)
      in FunctionExpr ''count'' args)"

definition IsCountDesc :: "order_by_expr \<Rightarrow> bool" where
  "IsCountDesc ob =
     (if ob_Direction ob \<noteq> DescOrder then False
      else (case ob_Expr ob of FunctionExpr name _ \<Rightarrow> name = ''count'' | _ \<Rightarrow> False))"

definition NewSelectCommand ::
  "expr list \<Rightarrow> expr list \<Rightarrow> order_by_expr list \<Rightarrow> expr \<Rightarrow> expr \<Rightarrow> expr list \<Rightarrow> int \<Rightarrow> int \<Rightarrow> bool \<Rightarrow>
   cte list \<Rightarrow> select_command" where
  "NewSelectCommand columns groupBy orderBy from where limitBy limit sampleLimit isDistinct namedCTEs =
     SelectCommand isDistinct columns from where groupBy orderBy limitBy limit sampleLimit namedCTEs"

definition IsWildcard :: "select_command \<Rightarrow> bool" where
  "IsWildcard c \<longleftrightarrow> list_ex (\<lambda>col. col = LiteralExpr NewWildcardExpr) (Columns c)"

section \<open>The base visitor\<close>

text \<open>
  A visitor method takes the visited node and the captured variables \<open>'s\<close> and gives the
  interface value it returns (\<open>NilExpr\<close> for nil) with the new variables, or panics.  An
  override also takes the visitor itself, as the operation that lets it visit children.
\<close>

type_synonym 's walk = "expr \<Rightarrow> 's \<Rightarrow> (expr \<times> 's) option"

record 's base_visitor =
  OverrideVisitFunction :: "('s walk \<Rightarrow> string \<Rightarrow> expr list \<Rightarrow> 's \<Rightarrow> (expr \<times> 's) option) option"
  OverrideVisitLiteral :: "('s walk \<Rightarrow> literal_expr \<Rightarrow> 's \<Rightarrow> (expr \<times> 's) option) option"
  OverrideVisitTuple :: "('s walk \<Rightarrow> expr list \<Rightarrow> 's \<Rightarrow> (expr \<times> 's) option) option"
  OverrideVisitInfix :: "('s walk \<Rightarrow> expr \<Rightarrow> string \<Rightarrow> expr \<Rightarrow> 's \<Rightarrow> (expr \<times> 's) option) option"
  OverrideVisitColumnRef :: "('s walk \<Rightarrow> column_ref \<Rightarrow> 's \<Rightarrow> (expr \<times> 's) option) option"
  OverrideVisitPrefixExpr :: "('s walk \<Rightarrow> string \<Rightarrow> expr list \<Rightarrow> 's \<Rightarrow> (expr \<times> 's) option) option"
  OverrideVisitNestedProperty :: "('s walk \<Rightarrow> expr \<Rightarrow> literal_expr \<Rightarrow> 's \<Rightarrow> (expr \<times> 's) option) option"
  OverrideVisitArrayAccess :: "('s walk \<Rightarrow> column_ref \<Rightarrow> expr \<Rightarrow> 's \<Rightarrow> (expr \<times> 's) option) option"
  OverrideVisitOrderByExpr :: "('s walk \<Rightarrow> order_by_expr \<Rightarrow> 's \<Rightarrow> (expr \<times> 's) option) option"
  OverrideVisitDistinctExpr :: "('s walk \<Rightarrow> expr \<Rightarrow> 's \<Rightarrow> (expr \<times> 's) option) option"
  OverrideVisitTableRef :: "('s walk \<Rightarrow> table_ref \<Rightarrow> 's \<Rightarrow> (expr \<times> 's) option) option"
  OverrideVisitAliasedExpr :: "('s walk \<Rightarrow> expr \<Rightarrow> string \<Rightarrow> 's \<Rightarrow> (expr \<times> 's) option) option"
  OverrideVisitSelectCommand :: "('s walk \<Rightarrow> select_command \<Rightarrow> 's \<Rightarrow> (expr \<times> 's) option) option"
  OverrideVisitWindowFunction ::
    "('s walk \<Rightarrow> string \<Rightarrow> expr list \<Rightarrow> expr list \<Rightarrow> order_by_expr list \<Rightarrow> 's \<Rightarrow> (expr \<times> 's) option) option"
  OverrideVisitParenExpr :: "('s walk \<Rightarrow> expr list \<Rightarrow> 's \<Rightarrow> (expr \<times> 's) option) option"
  OverrideVisitLambdaExpr :: "('s walk \<Rightarrow> string list \<Rightarrow> expr \<Rightarrow> 's \<Rightarrow> (expr \<times> 's) option) option"
  OverrideVisitJoinExpr :: "('s walk \<Rightarrow> expr \<Rightarrow> string \<Rightarrow> expr \<Rightarrow> expr \<Rightarrow> 's \<Rightarrow> (expr \<times> 's) option) option"
  OverrideVisitCTE :: "('s walk \<Rightarrow> cte \<Rightarrow> 's \<Rightarrow> (expr \<times> 's) option) option"

definition NewBaseVisitor :: "'s base_visitor" where
  "NewBaseVisitor =
     \<lparr>OverrideVisitFunction = None, OverrideVisitLiteral = None, OverrideVisitTuple = None,
      OverrideVisitInfix = None, OverrideVisitColumnRef = None, OverrideVisitPrefixExpr = None,
      OverrideVisitNestedProperty = None, OverrideVisitArrayAccess = None,
      OverrideVisitOrderByExpr = None, OverrideVisitDistinctExpr = None,
      OverrideVisitTableRef = None, OverrideVisitAliasedExpr = None,
      OverrideVisitSelectCommand = None, OverrideVisitWindowFunction = None,
      OverrideVisitParenExpr = None, OverrideVisitLambdaExpr = None,
      OverrideVisitJoinExpr = None, OverrideVisitCTE = None\<rparr>"

text \<open>The type assertions applied to what a visit returns; \<open>None\<close> is their panic.\<close>

definition as_Expr :: "expr \<Rightarrow> expr option" where
  "as_Expr e = (if e = NilExpr then None else Some e)"

definition as_LiteralExpr :: "expr \<Rightarrow> literal_expr option" where
  "as_LiteralExpr e = (case e of LiteralExpr l \<Rightarrow> Some l | _ \<Rightarrow> None)"

definition as_ColumnRef :: "expr \<Rightarrow> column_ref option" where
  "as_ColumnRef e = (case e of ColumnRef c \<Rightarrow> Some c | _ \<Rightarrow> None)"

definition as_OrderByExpr :: "expr \<Rightarrow> order_by_expr option" where
  "as_OrderByExpr e = (case e of OrderByE ob \<Rightarrow> Some ob | _ \<Rightarrow> None)"

definition as_SelectCommand :: "expr \<Rightarrow> select_command option" where
  "as_SelectCommand e = (case e of SelectE c \<Rightarrow> Some c | _ \<Rightarrow> None)"

definition as_CTE :: "expr \<Rightarrow> cte option" where
  "as_CTE e = (case e of CTEE c \<Rightarrow> Some c | _ \<Rightarrow> None)"

text \<open>\<open>x.Accept(v)\<close> followed by an assertion, for one child and for a slice of children.\<close>

definition visit_as :: "(expr \<Rightarrow> 'a option) \<Rightarrow> 's walk \<Rightarrow> expr \<Rightarrow> 's \<Rightarrow> ('a \<times> 's) option" where
  "visit_as cast w e s = do { (r, s1) \<leftarrow> w e s; x \<leftarrow> cast r; Some (x, s1) }"

definition VisitChildren :: "'s walk \<Rightarrow> expr list \<Rightarrow> 's \<Rightarrow> (expr list \<times> 's) option" where
  "VisitChildren w args s = st_mapM (visit_as as_Expr w) (filter (\<lambda>a. a \<noteq> NilExpr) args) s"

definition visit_list :: "'s walk \<Rightarrow> expr list \<Rightarrow> 's \<Rightarrow> (expr list \<times> 's) option" where
  "visit_list w es s = st_mapM (visit_as as_Expr w) es s"

definition visit_order_by :: "'s walk \<Rightarrow> order_by_expr list \<Rightarrow> 's \<Rightarrow> (order_by_expr list \<times> 's) option" where
  "visit_order_by w obs s = st_mapM (\<lambda>ob. visit_as as_OrderByExpr w (OrderByE ob)) obs s"

definition visit_ctes :: "'s walk \<Rightarrow> cte list \<Rightarrow> 's \<Rightarrow> (cte list \<times> 's) option" where
  "visit_ctes w cs s = st_mapM (\<lambda>c. visit_as as_CTE w (CTEE c)) cs s"

text \<open>A clause that may be nil is visited only if it is not.\<close>

definition visit_clause :: "'s walk \<Rightarrow> expr \<Rightarrow> 's \<Rightarrow> (expr \<times> 's) option" where
  "visit_clause w e s = (if e = NilExpr then Some (e, s) else visit_as as_Expr w e s)"

text \<open>
  The visitor's default for each kind of node, given the operation \<open>w\<close> that visits a child.
\<close>

fun visit_default :: "'s walk \<Rightarrow> expr \<Rightarrow> 's \<Rightarrow> (expr \<times> 's) option" where
  "visit_default w NilExpr s = None"
| "visit_default w (LiteralExpr l) s = Some (LiteralExpr l, s)"
| "visit_default w (TupleExpr es) s = do { (es', s1) \<leftarrow> VisitChildren w es s; Some (TupleExpr es', s1) }"
| "visit_default w (InfixExpr l op r) s =
     do { (l0, s1) \<leftarrow> w l s; (r0, s2) \<leftarrow> w r s1;
          l' \<leftarrow> as_Expr l0; r' \<leftarrow> as_Expr r0; Some (InfixExpr l' op r', s2) }"
| "visit_default w (PrefixExpr op args) s =
     do { (args', s1) \<leftarrow> VisitChildren w args s; Some (PrefixExpr op args', s1) }"
| "visit_default w (FunctionExpr name args) s =
     do { (args', s1) \<leftarrow> VisitChildren w args s; Some (FunctionExpr name args', s1) }"
| "visit_default w (ColumnRef c) s = Some (ColumnRef c, s)"
| "visit_default w (NestedProperty e p) s =
     do { (e', s1) \<leftarrow> visit_as as_Expr w e s;
          (p', s2) \<leftarrow> visit_as as_LiteralExpr w (LiteralExpr p) s1; Some (NestedProperty e' p', s2) }"
| "visit_default w (ArrayAccess c i) s =
     do { (c', s1) \<leftarrow> visit_as as_ColumnRef w (ColumnRef c) s;
          (i', s2) \<leftarrow> visit_as as_Expr w i s1; Some (ArrayAccess c' i', s2) }"
| "visit_default w (TableRef t) s = Some (TableRef t, s)"
| "visit_default w (OrderByE ob) s =
     do { (e', s1) \<leftarrow> visit_as as_Expr w (ob_Expr ob) s;
          Some (OrderByE (OrderByExpr e' (ob_Direction ob)), s1) }"
| "visit_default w (DistinctExpr e) s =
     do { (e', s1) \<leftarrow> visit_as as_Expr w e s; Some (DistinctExpr e', s1) }"
| "visit_default w (AliasedExpr e a) s =
     do { (e', s1) \<leftarrow> visit_as as_Expr w e s; Some (AliasedExpr e' a, s1) }"
| "visit_default w (WindowFunction name args partitionBy orderBy) s =
     do { (orderBy', s1) \<leftarrow> visit_order_by w orderBy s;
          (args', s2) \<leftarrow> VisitChildren w args s1;
          (partitionBy', s3) \<leftarrow> VisitChildren w partitionBy s2;
          Some (WindowFunction name args' partitionBy' orderBy', s3) }"
| "visit_default w (SelectE q) s =
     do { (columns, s1) \<leftarrow> visit_list w (Columns q) s;
          (groupBy, s2) \<leftarrow> visit_list w (GroupBy q) s1;
          (orderBy, s3) \<leftarrow> visit_order_by w (OrderBy q) s2;
          (from, s4) \<leftarrow> visit_clause w (FromClause q) s3;
          (where, s5) \<leftarrow> visit_clause w (WhereClause q) s4;
          (namedCTEs, s6) \<leftarrow> visit_ctes w (NamedCTEs q) s5;
          (limitBy, s7) \<leftarrow> visit_list w (LimitBy q) s6;
          Some (SelectE (NewSelectCommand columns groupBy orderBy from where limitBy (Limit q)
                  (SampleLimit q) (IsDistinct q) namedCTEs), s7) }"
| "visit_default w (ParenExpr es) s =
     do { (es', s1) \<leftarrow> visit_list w es s; Some (ParenExpr es', s1) }"
| "visit_default w (LambdaExpr args body) s =
     do { (body', s1) \<leftarrow> visit_as as_Expr w body s; Some (LambdaExpr args body', s1) }"
| "visit_default w (JoinExpr lhs t rhs on) s =
     do { (lhs', s1) \<leftarrow> visit_as as_Expr w lhs s;
          (rhs', s2) \<leftarrow> visit_as as_Expr w rhs s1;
          (on', s3) \<leftarrow> visit_as as_Expr w on s2;
          Some (JoinExpr lhs' t rhs' on', s3) }"
| "visit_default w (CTEE c) s =
     do { (q', s1) \<leftarrow> visit_as as_SelectCommand w (SelectE (cte_Select c)) s;
          Some (CTEE (CTE (cte_Name c) q'), s1) }"

text \<open>The override of a node, if the visitor has one for its kind.\<close>

fun override_of :: "'s base_visitor \<Rightarrow> 's walk \<Rightarrow> expr \<Rightarrow> ('s \<Rightarrow> (expr \<times> 's) option) option" where
  "override_of v w NilExpr = None"
| "override_of v w (FunctionExpr n args) = map_option (\<lambda>f. f w n args) (OverrideVisitFunction v)"
| "override_of v w (LiteralExpr l) = map_option (\<lambda>f. f w l) (OverrideVisitLiteral v)"
| "override_of v w (TupleExpr es) = map_option (\<lambda>f. f w es) (OverrideVisitTuple v)"
| "override_of v w (InfixExpr l op r) = map_option (\<lambda>f. f w l op r) (OverrideVisitInfix v)"
| "override_of v w (ColumnRef c) = map_option (\<lambda>f. f w c) (OverrideVisitColumnRef v)"
| "override_of v w (PrefixExpr op args) = map_option (\<lambda>f. f w op args) (OverrideVisitPrefixExpr v)"
| "override_of v w (NestedProperty e p) = map_option (\<lambda>f. f w e p) (OverrideVisitNestedProperty v)"
| "override_of v w (ArrayAccess c i) = map_option (\<lambda>f. f w c i) (OverrideVisitArrayAccess v)"
| "override_of v w (OrderByE ob) = map_option (\<lambda>f. f w ob) (OverrideVisitOrderByExpr v)"
| "override_of v w (DistinctExpr e) = map_option (\<lambda>f. f w e) (OverrideVisitDistinctExpr v)"
| "override_of v w (TableRef t) = map_option (\<lambda>f. f w t) (OverrideVisitTableRef v)"
| "override_of v w (AliasedExpr e a) = map_option (\<lambda>f. f w e a) (OverrideVisitAliasedExpr v)"
| "override_of v w (SelectE q) = map_option (\<lambda>f. f w q) (OverrideVisitSelectCommand v)"
| "override_of v w (WindowFunction n args ps obs) =
     map_option (\<lambda>f. f w n args ps obs) (OverrideVisitWindowFunction v)"
| "override_of v w (ParenExpr es) = map_option (\<lambda>f. f w es) (OverrideVisitParenExpr v)"
| "override_of v w (LambdaExpr args b) = map_option (\<lambda>f. f w args b) (OverrideVisitLambdaExpr v)"
| "override_of v w (JoinExpr l t r on) = map_option (\<lambda>f. f w l t r on) (OverrideVisitJoinExpr v)"
| "override_of v w (CTEE c) = map_option (\<lambda>f. f w c) (OverrideVisitCTE v)"

text \<open>
  \<open>e.Accept(v)\<close>.  The operation handed to the methods visits proper subterms only, which is
  all that the overrides of the sources ask for; a visit of anything else is a panic of the
  model, so every fact about a result covers no such visit.
\<close>

function accept :: "'s base_visitor \<Rightarrow> expr \<Rightarrow> 's \<Rightarrow> (expr \<times> 's) option" where
  "accept v e s =
     (let w = (\<lambda>e' s'. if size e' < size e then accept v e' s' else None)
      in case override_of v w e of Some f \<Rightarrow> f s | None \<Rightarrow> visit_default w e s)"
  by pat_completeness auto
termination
  by (relation "measure (\<lambda>(v, e, s). size e)") auto

declare accept.simps [simp del]

section \<open>Facts about the visitor\<close>

text \<open>The nodes the defaults visit, in their order; a nil clause of a SELECT is not visited.\<close>

fun children :: "expr \<Rightarrow> expr list" where
  "children (TupleExpr es) = es"
| "children (InfixExpr l op r) = [l, r]"
| "children (PrefixExpr op args) = args"
| "children (FunctionExpr name args) = args"
| "children (NestedProperty e p) = [e, LiteralExpr p]"
| "children (ArrayAccess c i) = [ColumnRef c, i]"
| "children (OrderByE ob) = [ob_Expr ob]"
| "children (DistinctExpr e) = [e]"
| "children (AliasedExpr e a) = [e]"
| "children (WindowFunction n args ps obs) = map OrderByE obs @ args @ ps"
| "children (SelectE q) =
     Columns q @ GroupBy q @ map OrderByE (OrderBy q)
     @ (if FromClause q = NilExpr then [] else [FromClause q])
     @ (if WhereClause q = NilExpr then [] else [WhereClause q])
     @ map CTEE (NamedCTEs q) @ LimitBy q"
| "children (ParenExpr es) = es"
| "children (LambdaExpr args b) = [b]"
| "children (JoinExpr l t r on) = [l, r, on]"
| "children (CTEE c) = [SelectE (cte_Select c)]"
| "children _ = []"

lemma size_list_member: "x \<in> set xs \<Longrightarrow> Suc (f x) \<le> size_list f xs"
  by (induction xs) auto

lemma size_children: "c \<in> set (children e) \<Longrightarrow> size c < size e"
proof (cases e)
  case (SelectE q)
  assume "c \<in> set (children e)"
  with SelectE show ?thesis
    by (cases q) (auto dest!: size_list_member[where f = size] split: if_splits)
next
  case (OrderByE ob)
  assume "c \<in> set (children e)"
  with OrderByE show ?thesis by (cases ob) simp
next
  case (CTEE ct)
  assume "c \<in> set (children e)"
  with CTEE show ?thesis by (cases ct) simp
qed (auto dest!: size_list_member[where f = size])

text \<open>No nil where a visit would dereference it.\<close>

function wf_expr :: "expr \<Rightarrow> bool" where
  "wf_expr e \<longleftrightarrow> e \<noteq> NilExpr \<and> list_all wf_expr (children e)"
  by pat_completeness auto
termination
  by (relation "measure size") (auto simp: size_children)

declare wf_expr.simps [simp del]

lemma wf_expr_children: "wf_expr e \<Longrightarrow> c \<in> set (children e) \<Longrightarrow> wf_expr c"
  by (simp add: wf_expr.simps[of e] list_all_iff)

lemma wf_expr_not_nil [simp]: "\<not> wf_expr NilExpr"
  by (simp add: wf_expr.simps)

text \<open>Well-formedness by constructor.\<close>

lemma wf_expr_simps [simp]:
  "wf_expr (ColumnRef col)" "wf_expr (LiteralExpr lit)" "wf_expr (TableRef tab)"
  "wf_expr (PrefixExpr op args) \<longleftrightarrow> list_all wf_expr args"
  "wf_expr (FunctionExpr n args) \<longleftrightarrow> list_all wf_expr args"
  "wf_expr (TupleExpr es) \<longleftrightarrow> list_all wf_expr es"
  "wf_expr (ParenExpr es) \<longleftrightarrow> list_all wf_expr es"
  "wf_expr (InfixExpr l op r) \<longleftrightarrow> wf_expr l \<and> wf_expr r"
  "wf_expr (DistinctExpr e) \<longleftrightarrow> wf_expr e"
  "wf_expr (AliasedExpr e a) \<longleftrightarrow> wf_expr e"
  "wf_expr (LambdaExpr ns e) \<longleftrightarrow> wf_expr e"
  "wf_expr (JoinExpr l t r on) \<longleftrightarrow> wf_expr l \<and> wf_expr r \<and> wf_expr on"
  "wf_expr (OrderByE ob) \<longleftrightarrow> wf_expr (ob_Expr ob)"
  "wf_expr (CTEE ct) \<longleftrightarrow> wf_expr (SelectE (cte_Select ct))"
  by (subst wf_expr.simps; simp)+

lemma wf_expr_nested [simp]:
  "wf_expr (NestedProperty e p) \<longleftrightarrow> wf_expr e" "wf_expr (ArrayAccess c i) \<longleftrightarrow> wf_expr i"
  "wf_expr (WindowFunction n args ps obs) \<longleftrightarrow>
     list_all wf_expr args \<and> list_all wf_expr ps \<and> list_all (\<lambda>ob. wf_expr (ob_Expr ob)) obs"
  by (subst wf_expr.simps; auto simp: list_all_iff ball_Un)+

lemma wf_expr_SelectE:
  "wf_expr (SelectE (SelectCommand d columns frm whr groupBy orderBy limitBy limit sample ctes)) \<longleftrightarrow>
   list_all wf_expr columns \<and> list_all wf_expr groupBy \<and> (frm = NilExpr \<or> wf_expr frm) \<and>
   (whr = NilExpr \<or> wf_expr whr) \<and> list_all (\<lambda>ob. wf_expr (OrderByE ob)) orderBy \<and>
   list_all wf_expr limitBy \<and> list_all (\<lambda>c. wf_expr (CTEE c)) ctes"
  by (subst wf_expr.simps) (auto simp: list_all_iff ball_Un simp del: wf_expr_simps)

lemmas visit_defs = VisitChildren_def visit_list_def visit_order_by_def visit_ctes_def
  visit_clause_def visit_as_def

lemma st_mapM_as_cong:
  assumes "\<And>x t. x \<in> set xs \<Longrightarrow> w (k x) t = w' (k x) t"
  shows "st_mapM (\<lambda>x. visit_as cast w (k x)) xs s = st_mapM (\<lambda>x. visit_as cast w' (k x)) xs s"
  using assms by (intro st_mapM_cong) (auto simp: visit_as_def)

lemma visit_default_cong:
  assumes "\<And>c t. c \<in> set (children e) \<Longrightarrow> w c t = w' c t"
  shows "visit_default w e s = visit_default w' e s"
proof -
  have l: "st_mapM (visit_as cast w) xs t = st_mapM (visit_as cast w') xs t"
    if "\<forall>x\<in>set xs. x \<in> set (children e)" for cast :: "expr \<Rightarrow> expr option" and xs t
    using that assms by (intro st_mapM_cong) (auto simp: visit_as_def)
  have ob: "st_mapM (\<lambda>ob. visit_as as_OrderByExpr w (OrderByE ob)) obs t =
      st_mapM (\<lambda>ob. visit_as as_OrderByExpr w' (OrderByE ob)) obs t"
    if "\<forall>x\<in>set obs. OrderByE x \<in> set (children e)" for obs t
    using that assms by (intro st_mapM_as_cong) auto
  have ct: "st_mapM (\<lambda>c. visit_as as_CTE w (CTEE c)) cs t =
      st_mapM (\<lambda>c. visit_as as_CTE w' (CTEE c)) cs t"
    if "\<forall>x\<in>set cs. CTEE x \<in> set (children e)" for cs t
    using that assms by (intro st_mapM_as_cong) auto
  show ?thesis
    using assms l ob ct
    by (cases e) (auto simp: visit_defs intro!: Option.bind_cong)
qed

lemma accept_eq:
  "accept v e s =
     (case override_of v (\<lambda>e' s'. if size e' < size e then accept v e' s' else None) e of
        Some f \<Rightarrow> f s
      | None \<Rightarrow> visit_default (accept v) e s)"
proof -
  have "visit_default (\<lambda>e' s'. if size e' < size e then accept v e' s' else None) e s =
      visit_default (accept v) e s"
    by (rule visit_default_cong) (simp add: size_children)
  then show ?thesis
    by (subst accept.simps) (simp add: Let_def split: option.split)
qed

lemma accept_no_override:
  "(\<And>w. override_of v w e = None) \<Longrightarrow> accept v e s = visit_default (accept v) e s"
  by (simp add: accept_eq)

lemma accept_nil [simp]: "accept v NilExpr s = None"
  by (simp add: accept_eq)

lemma accept_induct [case_names node]:
  "(\<And>e. (\<And>c. c \<in> set (children e) \<Longrightarrow> P c) \<Longrightarrow> P e) \<Longrightarrow> P (e :: expr)"
  by (induction e rule: measure_induct_rule[where f = size]) (meson size_children)

text \<open>A visitor that returns every child as it is rebuilds the node, and threads the state.\<close>

lemma st_mapM_fold:
  assumes "\<And>x s. x \<in> set xs \<Longrightarrow> f x s = Some (x, h x s)"
  shows "st_mapM f xs s = Some (xs, fold h xs s)"
  using assms by (induction xs arbitrary: s) auto

lemma visit_default_fold:
  assumes w: "\<And>c t. c \<in> set (children e) \<Longrightarrow> w c t = Some (c, h c t)"
    and nil: "NilExpr \<notin> set (children e)" "e \<noteq> NilExpr"
  shows "visit_default w e s = Some (e, fold h (children e) s)"
proof -
  have l: "st_mapM (visit_as as_Expr w) xs t = Some (xs, fold h xs t)"
    if "\<forall>x\<in>set xs. x \<in> set (children e)" for xs t
  proof (rule st_mapM_fold)
    fix x s assume "x \<in> set xs"
    with that have "x \<in> set (children e)" by blast
    with w nil show "visit_as as_Expr w x s = Some (x, h x s)"
      by (auto simp: visit_as_def as_Expr_def)
  qed
  have ob: "st_mapM (\<lambda>ob. visit_as as_OrderByExpr w (OrderByE ob)) obs t =
      Some (obs, fold h (map OrderByE obs) t)"
    if "\<forall>x\<in>set obs. OrderByE x \<in> set (children e)" for obs t
    using that w by (subst st_mapM_fold[where h = "\<lambda>x. h (OrderByE x)"])
      (auto simp: visit_as_def as_OrderByExpr_def fold_map comp_def)
  have ct: "st_mapM (\<lambda>c. visit_as as_CTE w (CTEE c)) cs t = Some (cs, fold h (map CTEE cs) t)"
    if "\<forall>x\<in>set cs. CTEE x \<in> set (children e)" for cs t
    using that w by (subst st_mapM_fold[where h = "\<lambda>x. h (CTEE x)"])
      (auto simp: visit_as_def as_CTE_def fold_map comp_def)
  have nf: "filter (\<lambda>a. a \<noteq> NilExpr) xs = xs" if "\<forall>x\<in>set xs. x \<in> set (children e)" for xs
    using that nil by (auto simp: filter_id_conv)
  show ?thesis
  proof (cases e)
    case (SelectE q)
    then show ?thesis
      using w nil l ob ct
      by (cases q) (auto simp: visit_defs as_Expr_def NewSelectCommand_def)
  next
    case (OrderByE ob)
    with w nil show ?thesis by (cases ob) (auto simp: visit_defs as_Expr_def)
  next
    case (CTEE c)
    with w nil show ?thesis by (cases c) (auto simp: visit_defs as_SelectCommand_def)
  qed (use w nil l ob nf in \<open>auto simp: visit_defs as_Expr_def as_LiteralExpr_def as_ColumnRef_def\<close>)
qed

subsection \<open>A visitor without overrides copies the tree\<close>

lemma override_of_NewBaseVisitor [simp]: "override_of NewBaseVisitor w e = None"
  by (cases e) (simp_all add: NewBaseVisitor_def)

lemma fold_keep [simp]: "fold (\<lambda>_ s. s) xs s = s"
  by (induction xs) auto

lemma accept_base:
  "wf_expr e \<Longrightarrow> accept NewBaseVisitor e s = Some (e, s)"
proof (induction e arbitrary: s rule: accept_induct)
  case (node e)
  then have "visit_default (accept NewBaseVisitor) e s = Some (e, fold (\<lambda>_ s. s) (children e) s)"
    by (intro visit_default_fold) (auto simp: wf_expr.simps[of e] list_all_iff)
  then show ?case by (simp add: accept_no_override)
qed

section \<open>Used columns\<close>

text \<open>\<open>used_columns.go\<close>: the visitor appends every column it meets.\<close>

definition used_columns_visitor :: "column_ref list base_visitor" where
  "used_columns_visitor =
     NewBaseVisitor\<lparr>OverrideVisitColumnRef :=
       Some (\<lambda>w c usedColumns. Some (ColumnRef c, usedColumns @ [c]))\<rparr>"

definition GetUsedColumns :: "expr \<Rightarrow> column_ref list option" where
  "GetUsedColumns e = map_option snd (accept used_columns_visitor e [])"

text \<open>\<open>OrderByFieldNames\<close> of \<open>select.go\<close>.\<close>

definition OrderByFieldNames :: "select_command \<Rightarrow> string list option" where
  "OrderByFieldNames c =
     map_option (\<lambda>colRefs. map ColumnName (concat colRefs))
       (opt_mapM (\<lambda>ob. GetUsedColumns (OrderByE ob)) (OrderBy c))"

text \<open>The columns of a tree from left to right, in the order the nodes are visited.\<close>

fun own_column :: "expr \<Rightarrow> column_ref list" where
  "own_column (ColumnRef c) = [c]"
| "own_column e = []"

function columns_in :: "expr \<Rightarrow> column_ref list" where
  "columns_in e = own_column e @ concat (map columns_in (children e))"
  by pat_completeness auto
termination
  by (relation "measure size") (auto simp: size_children)

declare columns_in.simps [simp del]

lemma override_used_columns:
  "override_of used_columns_visitor w e =
     (case e of ColumnRef c \<Rightarrow> Some (\<lambda>s. Some (ColumnRef c, s @ [c])) | _ \<Rightarrow> None)"
  by (cases e) (simp_all add: NewBaseVisitor_def used_columns_visitor_def)

lemma fold_append: "fold (\<lambda>c s. s @ f c) cs s = s @ concat (map f cs)"
  by (induction cs arbitrary: s) auto

lemma accept_used_columns:
  "wf_expr e \<Longrightarrow> accept used_columns_visitor e s = Some (e, s @ columns_in e)"
proof (induction e arbitrary: s rule: accept_induct)
  case (node e)
  show ?case
  proof (cases "\<exists>c. e = ColumnRef c")
    case True
    then show ?thesis by (auto simp: accept_eq override_used_columns columns_in.simps)
  next
    case False
    with node have "visit_default (accept used_columns_visitor) e s =
        Some (e, fold (\<lambda>c s. s @ columns_in c) (children e) s)"
      by (intro visit_default_fold) (auto simp: wf_expr.simps[of e] list_all_iff)
    moreover have "override_of used_columns_visitor w e = None" for w
      using False by (simp add: override_used_columns split: expr.split)
    moreover have "own_column e = []"
      using False by (cases e) auto
    ultimately show ?thesis
      by (simp add: accept_no_override fold_append columns_in.simps[of e])
  qed
qed

section \<open>Equality up to aliases\<close>

text \<open>The aliases around an expression removed.\<close>

fun strip_alias :: "expr \<Rightarrow> expr" where
  "strip_alias (AliasedExpr e a) = strip_alias e"
| "strip_alias e = e"

text \<open>\<open>PartlyImplementedIsEqual\<close> of \<open>equal.go\<close>.\<close>

fun partly_equal :: "expr \<Rightarrow> expr \<Rightarrow> bool" where
  "partly_equal NilExpr b = (b = NilExpr)"
| "partly_equal (AliasedExpr e _) b = (if b = NilExpr then False else partly_equal e b)"
| "partly_equal (ColumnRef c) b =
     (case strip_alias b of ColumnRef d \<Rightarrow> ColumnName c = ColumnName d | _ \<Rightarrow> False)"
| "partly_equal (LiteralExpr l) b =
     (case strip_alias b of LiteralExpr m \<Rightarrow> Value l = Value m | _ \<Rightarrow> False)"
| "partly_equal (InfixExpr l op r) b =
     (case strip_alias b of
        InfixExpr l' op' r' \<Rightarrow> op = op' \<and> partly_equal l l' \<and> partly_equal r r'
      | _ \<Rightarrow> False)"
| "partly_equal (FunctionExpr n args) b =
     (case strip_alias b of
        FunctionExpr n' args' \<Rightarrow>
          if n \<noteq> n' \<or> length args \<noteq> length args' then False
          else list_all2 partly_equal args args'
      | _ \<Rightarrow> False)"
| "partly_equal (ParenExpr es) b =
     (case strip_alias b of
        ParenExpr es' \<Rightarrow>
          if length es \<noteq> length es' then False else list_all2 partly_equal es es'
      | _ \<Rightarrow> False)"
| "partly_equal a b = False"

subsection \<open>What the comparison decides\<close>

text \<open>
  The reference: the comparison knows five kinds of nodes, and reads a column by its name
  and a literal by its value.
\<close>

fun comparable :: "expr \<Rightarrow> bool" where
  "comparable (AliasedExpr e a) = comparable e"
| "comparable (ColumnRef c) = True"
| "comparable (LiteralExpr l) = True"
| "comparable (InfixExpr l op r) = (comparable l \<and> comparable r)"
| "comparable (FunctionExpr n args) = list_all comparable args"
| "comparable (ParenExpr es) = list_all comparable es"
| "comparable e = False"

fun canonical :: "expr \<Rightarrow> expr" where
  "canonical (AliasedExpr e a) = canonical e"
| "canonical (ColumnRef c) = ColumnRef (NewColumnRef (ColumnName c))"
| "canonical (LiteralExpr l) = LiteralExpr (NewLiteral (Value l))"
| "canonical (InfixExpr l op r) = InfixExpr (canonical l) op (canonical r)"
| "canonical (FunctionExpr n args) = FunctionExpr n (map canonical args)"
| "canonical (ParenExpr es) = ParenExpr (map canonical es)"
| "canonical e = e"

lemma strip_alias_props:
  "comparable (strip_alias e) = comparable e" "canonical (strip_alias e) = canonical e"
  "strip_alias e \<noteq> AliasedExpr x n"
  by (induction e rule: strip_alias.induct) auto

lemma wf_expr_strip_alias: "wf_expr e \<Longrightarrow> wf_expr (strip_alias e)"
  by (induction e rule: strip_alias.induct) auto

lemma list_all2_comparable:
  assumes "\<And>x y. x \<in> set xs \<Longrightarrow> y \<in> set ys \<Longrightarrow>
    p x y \<longleftrightarrow> comparable x \<and> comparable y \<and> canonical x = canonical y"
  shows "list_all2 p xs ys \<longleftrightarrow>
    list_all comparable xs \<and> list_all comparable ys \<and> map canonical xs = map canonical ys"
  using assms
proof (induction xs arbitrary: ys)
  case (Cons x xs)
  then show ?case by (cases ys) auto
qed (auto simp: list_all2_Nil)

lemma partly_equal_iff:
  "wf_expr a \<Longrightarrow> wf_expr b \<Longrightarrow>
   partly_equal a b \<longleftrightarrow> comparable a \<and> comparable b \<and> canonical a = canonical b"
proof (induction a b rule: partly_equal.induct)
  case (2 e u b)
  then show ?case by (auto)
next
  case (5 l op r b)
  from "5.prems" have wb: "wf_expr (strip_alias b)" by (simp add: wf_expr_strip_alias)
  show ?case
  proof (cases "strip_alias b")
    case (InfixExpr l' op' r')
    with wb 5 show ?thesis
      using strip_alias_props(1,2)[of b, symmetric]
      by (auto)
  qed (use wb strip_alias_props(1,2)[of b, symmetric] strip_alias_props(3)[of b] in auto)
next
  case (6 n args b)
  from "6.prems" have wb: "wf_expr (strip_alias b)" by (simp add: wf_expr_strip_alias)
  show ?case
  proof (cases "strip_alias b")
    case (FunctionExpr n' args')
    have "list_all2 partly_equal args args' \<longleftrightarrow>
        list_all comparable args \<and> list_all comparable args' \<and> map canonical args = map canonical args'"
      if "n = n'" "length args = length args'"
      using that 6 wb FunctionExpr
      by (intro list_all2_comparable)
        (auto simp: list_all_iff)
    then show ?thesis
      using FunctionExpr strip_alias_props(1,2)[of b, symmetric] by (auto dest: map_eq_imp_length_eq)
  qed (use wb strip_alias_props(1,2)[of b, symmetric] strip_alias_props(3)[of b] in auto)
next
  case (7 es b)
  from "7.prems" have wb: "wf_expr (strip_alias b)" by (simp add: wf_expr_strip_alias)
  show ?case
  proof (cases "strip_alias b")
    case (ParenExpr es')
    have "list_all2 partly_equal es es' \<longleftrightarrow>
        list_all comparable es \<and> list_all comparable es' \<and> map canonical es = map canonical es'"
      if "length es = length es'"
      using that 7 wb ParenExpr
      by (intro list_all2_comparable)
        (auto simp: list_all_iff)
    then show ?thesis
      using ParenExpr strip_alias_props(1,2)[of b, symmetric] by (auto dest: map_eq_imp_length_eq)
  qed (use wb strip_alias_props(1,2)[of b, symmetric] strip_alias_props(3)[of b] in auto)
next
  case (3 c b)
  then show ?case
    using strip_alias_props(1,2)[of b, symmetric] strip_alias_props(3)[of b] by (cases "strip_alias b") (auto simp: NewColumnRef_def)
next
  case (4 l b)
  then show ?case
    using strip_alias_props(1,2)[of b, symmetric] strip_alias_props(3)[of b] by (cases "strip_alias b") (auto simp: NewLiteral_def)
qed simp_all

section \<open>Conjunctions\<close>

text \<open>\<open>simple_query.go\<close>.\<close>

definition FilterOutEmptyStatements :: "expr list \<Rightarrow> expr list" where
  "FilterOutEmptyStatements stmts = filter (\<lambda>s. s \<noteq> NilExpr) stmts"

definition combineStatements :: "expr list \<Rightarrow> string \<Rightarrow> expr" where
  "combineStatements stmtsToCombine operator =
     (let stmts = FilterOutEmptyStatements stmtsToCombine
      in if length stmts > 1
         then foldl (\<lambda>acc stmt. InfixExpr acc operator stmt) (hd stmts) (tl stmts)
         else if length stmts = 1 then hd stmts else NilExpr)"

definition And :: "expr list \<Rightarrow> expr" where
  "And stmts = combineStatements stmts ''AND''"

definition Or :: "expr list \<Rightarrow> expr" where
  "Or stmts = combineStatements stmts ''OR''"

definition WeNeedUnlimitedCount :: int where "WeNeedUnlimitedCount = -1"
definition WeDontNeedCount :: int where "WeDontNeedCount = 0"

record simple_query =
  sq_WhereClause :: expr
  sq_OrderBy :: "order_by_expr list"
  CanParse :: bool
  NeedCountWithLimit :: int

definition NewSimpleQuery :: "expr \<Rightarrow> bool \<Rightarrow> simple_query" where
  "NewSimpleQuery whereClause canParse =
     \<lparr>sq_WhereClause = whereClause, sq_OrderBy = [], CanParse = canParse, NeedCountWithLimit = 0\<rparr>"

definition NewSimpleQueryInvalid :: simple_query where
  "NewSimpleQueryInvalid =
     \<lparr>sq_WhereClause = NilExpr, sq_OrderBy = [], CanParse = False, NeedCountWithLimit = 0\<rparr>"

definition LimitForCount :: "simple_query \<Rightarrow> int \<times> bool" where
  "LimitForCount s =
     (NeedCountWithLimit s,
      NeedCountWithLimit s \<noteq> WeDontNeedCount \<and> NeedCountWithLimit s \<noteq> WeNeedUnlimitedCount)"

text \<open>
  Truth of a WHERE clause in a row: the connectives are read as SQL does, any other
  expression by the valuation \<open>\<rho>\<close>.
\<close>

fun holds :: "(expr \<Rightarrow> bool) \<Rightarrow> expr \<Rightarrow> bool" where
  "holds \<rho> (InfixExpr l op r) =
     (if op = ''AND'' then holds \<rho> l \<and> holds \<rho> r
      else if op = ''OR'' then holds \<rho> l \<or> holds \<rho> r
      else \<rho> (InfixExpr l op r))"
| "holds \<rho> (LiteralExpr l) = (Value l = VString ''TRUE'' \<or> \<rho> (LiteralExpr l))"
| "holds \<rho> e = \<rho> e"

lemma holds_foldl_And:
  "holds \<rho> (foldl (\<lambda>acc stmt. InfixExpr acc ''AND'' stmt) e es) \<longleftrightarrow>
   holds \<rho> e \<and> (\<forall>x \<in> set es. holds \<rho> x)"
  by (induction es arbitrary: e) auto

lemma holds_foldl_Or:
  "holds \<rho> (foldl (\<lambda>acc stmt. InfixExpr acc ''OR'' stmt) e es) \<longleftrightarrow>
   holds \<rho> e \<or> (\<exists>x \<in> set es. holds \<rho> x)"
  by (induction es arbitrary: e) auto

lemma combineStatements_cases:
  "combineStatements stmts op =
     (case filter (\<lambda>s. s \<noteq> NilExpr) stmts of
        [] \<Rightarrow> NilExpr
      | e # es \<Rightarrow> foldl (\<lambda>acc stmt. InfixExpr acc op stmt) e es)"
  by (auto simp: combineStatements_def FilterOutEmptyStatements_def Let_def split: list.split)

lemma foldl_Infix_not_Nil: "e \<noteq> NilExpr \<Longrightarrow> foldl (\<lambda>acc stmt. InfixExpr acc op stmt) e es \<noteq> NilExpr"
  by (induction es arbitrary: e) auto

lemma And_Nil_iff: "And stmts = NilExpr \<longleftrightarrow> (\<forall>s \<in> set stmts. s = NilExpr)"
proof (cases "filter (\<lambda>s. s \<noteq> NilExpr) stmts")
  case Nil
  then show ?thesis by (auto simp: And_def combineStatements_cases filter_empty_conv)
next
  case (Cons e es)
  then have "e \<in> set stmts" "e \<noteq> NilExpr"
    using filter_eq_Cons_iff by (force dest: arg_cong[where f = set])+
  then show ?thesis
    using Cons foldl_Infix_not_Nil[of e "''AND''" es]
    by (auto simp: And_def combineStatements_cases)
qed

lemma nonempty_statements:
  assumes "\<exists>s \<in> set stmts. s \<noteq> NilExpr"
  obtains e es where "filter (\<lambda>s. s \<noteq> NilExpr) stmts = e # es"
    and "\<And>x. x = e \<or> x \<in> set es \<longleftrightarrow> x \<in> set stmts \<and> x \<noteq> NilExpr"
proof (cases "filter (\<lambda>s. s \<noteq> NilExpr) stmts")
  case Nil
  with assms show ?thesis by (auto simp: filter_empty_conv)
next
  case (Cons e es)
  have "x \<in> set (e # es) \<longleftrightarrow> x \<in> set stmts \<and> x \<noteq> NilExpr" for x
    unfolding Cons[symmetric] by auto
  with Cons show ?thesis by (intro that) auto
qed

lemma holds_And:
  assumes "\<exists>s \<in> set stmts. s \<noteq> NilExpr"
  shows "holds \<rho> (And stmts) \<longleftrightarrow> (\<forall>s \<in> set stmts. s \<noteq> NilExpr \<longrightarrow> holds \<rho> s)"
proof -
  obtain e es where f: "filter (\<lambda>s. s \<noteq> NilExpr) stmts = e # es"
    and m: "\<And>x. x = e \<or> x \<in> set es \<longleftrightarrow> x \<in> set stmts \<and> x \<noteq> NilExpr"
    using nonempty_statements[OF assms] by blast
  have "holds \<rho> (And stmts) \<longleftrightarrow> (\<forall>x. x = e \<or> x \<in> set es \<longrightarrow> holds \<rho> x)"
    by (auto simp: And_def combineStatements_cases f holds_foldl_And)
  then show ?thesis unfolding m by blast
qed

lemma holds_Or:
  assumes "\<exists>s \<in> set stmts. s \<noteq> NilExpr"
  shows "holds \<rho> (Or stmts) \<longleftrightarrow> (\<exists>s \<in> set stmts. s \<noteq> NilExpr \<and> holds \<rho> s)"
proof -
  obtain e es where f: "filter (\<lambda>s. s \<noteq> NilExpr) stmts = e # es"
    and m: "\<And>x. x = e \<or> x \<in> set es \<longleftrightarrow> x \<in> set stmts \<and> x \<noteq> NilExpr"
    using nonempty_statements[OF assms] by blast
  have "holds \<rho> (Or stmts) \<longleftrightarrow> (\<exists>x. (x = e \<or> x \<in> set es) \<and> holds \<rho> x)"
    by (auto simp: Or_def combineStatements_cases f holds_foldl_Or)
  then show ?thesis unfolding m by blast
qed

lemma accept_infix:
  assumes "OverrideVisitInfix v = Some f"
  shows "accept v (InfixExpr l op r) s =
    f (\<lambda>e' s'. if size e' < Suc (size l + size r) then accept v e' s' else None) l op r s"
  by (subst accept.simps) (simp add: assms)

section \<open>The timestamp lower bound\<close>

text \<open>\<open>util.ExtractInt64Maybe\<close>; only a \<open>uint64\<close> can leave the signed range.\<close>

definition ExtractInt64Maybe :: "any_value \<Rightarrow> int option" where
  "ExtractInt64Maybe v = (case v of VInt k n \<Rightarrow> Some (wrap64 n) | _ \<Rightarrow> None)"

text \<open>
  \<open>FindTimestampLowerBound\<close> of \<open>where_visitor.go\<close>.  The captured variables are the least
  timestamp and whether one was found; the override returns nil.
\<close>

definition max_int64 :: int where "max_int64 = 2 ^ 63 - 1"

text \<open>What the right-hand side of a comparison contributes, in milliseconds.\<close>

definition timestamp_of :: "expr \<Rightarrow> int option" where
  "timestamp_of e =
     (case e of
        FunctionExpr name args \<Rightarrow>
          if name = ''fromUnixTimestamp64Milli'' \<and> length args = 1 then
            (case hd args of LiteralExpr rhs \<Rightarrow> ExtractInt64Maybe (Value rhs) | _ \<Rightarrow> None)
          else if name = ''fromUnixTimestamp'' \<and> length args = 1 then
            (case hd args of
               LiteralExpr rhs \<Rightarrow> map_option (\<lambda>n. wrap64 (n * 1000)) (ExtractInt64Maybe (Value rhs))
             | _ \<Rightarrow> None)
          else None
      | _ \<Rightarrow> None)"

text \<open>
  The guard is \<open>ok && columnRef == field && e.Op == ">=" || e.Op == ">"\<close>: as \<open>&&\<close> binds
  tighter, an operator \<open>>\<close> alone passes it.
\<close>

definition lower_bound_guard :: "column_ref \<Rightarrow> expr \<Rightarrow> string \<Rightarrow> bool" where
  "lower_bound_guard field l op \<longleftrightarrow> l = ColumnRef field \<and> op = ''>='' \<or> op = ''>''"

definition lower_bound_infix ::
  "column_ref \<Rightarrow> (int \<times> bool) walk \<Rightarrow> expr \<Rightarrow> string \<Rightarrow> expr \<Rightarrow> int \<times> bool \<Rightarrow> (expr \<times> (int \<times> bool)) option" where
  "lower_bound_infix field w l op r st =
     (if lower_bound_guard field l op then
        (case timestamp_of r of
           Some n \<Rightarrow> Some (NilExpr, (min (fst st) n, True))
         | None \<Rightarrow> Some (NilExpr, st))
      else if op = ''AND'' then
        do { (_, s1) \<leftarrow> w l st; (_, s2) \<leftarrow> w r s1; Some (NilExpr, s2) }
      else Some (NilExpr, st))"

definition lower_bound_visitor :: "column_ref \<Rightarrow> (int \<times> bool) base_visitor" where
  "lower_bound_visitor field =
     NewBaseVisitor\<lparr>OverrideVisitInfix := Some (lower_bound_infix field)\<rparr>"

definition FindTimestampLowerBound :: "column_ref \<Rightarrow> expr \<Rightarrow> (int \<times> bool) option" where
  "FindTimestampLowerBound field whereClause =
     map_option snd (accept (lower_bound_visitor field) whereClause (max_int64, False))"

subsection \<open>What the search finds\<close>

text \<open>The conjuncts of a clause, and the bound one of them gives.\<close>

fun conjuncts :: "expr \<Rightarrow> expr list" where
  "conjuncts (InfixExpr l op r) =
     (if op = ''AND'' then conjuncts l @ conjuncts r else [InfixExpr l op r])"
| "conjuncts e = [e]"

definition bound_of :: "column_ref \<Rightarrow> expr \<Rightarrow> int option" where
  "bound_of field e =
     (case e of
        InfixExpr l op r \<Rightarrow> if lower_bound_guard field l op then timestamp_of r else None
      | _ \<Rightarrow> None)"

text \<open>A tree without any infix node below a node of another kind can be searched.\<close>

function infix_free :: "expr \<Rightarrow> bool" where
  "infix_free e \<longleftrightarrow> (\<forall>l op r. e \<noteq> InfixExpr l op r) \<and> list_all infix_free (children e)"
  by pat_completeness auto
termination
  by (relation "measure size") (auto simp: size_children)

declare infix_free.simps [simp del]

definition searchable :: "expr \<Rightarrow> bool" where
  "searchable e \<longleftrightarrow> (\<exists>l op r. e = InfixExpr l op r) \<or> wf_expr e \<and> infix_free e"

lemma override_lower_bound:
  "override_of (lower_bound_visitor field) w e =
     (case e of InfixExpr l op r \<Rightarrow> Some (lower_bound_infix field w l op r) | _ \<Rightarrow> None)"
  by (cases e) (simp_all add: NewBaseVisitor_def lower_bound_visitor_def)

lemma accept_infix_free:
  "wf_expr e \<Longrightarrow> infix_free e \<Longrightarrow> accept (lower_bound_visitor field) e s = Some (e, s)"
proof (induction e arbitrary: s rule: accept_induct)
  case (node e)
  then have "visit_default (accept (lower_bound_visitor field)) e s =
      Some (e, fold (\<lambda>_ s. s) (children e) s)"
    by (intro visit_default_fold)
      (auto simp: wf_expr.simps[of e] infix_free.simps[of e] list_all_iff)
  moreover have "override_of (lower_bound_visitor field) w e = None" for w
    using node.prems(2) by (auto simp: override_lower_bound infix_free.simps[of e] split: expr.split)
  ultimately show ?case by (simp add: accept_no_override)
qed

lemma accept_lower_bound_infix:
  "accept (lower_bound_visitor field) (InfixExpr l op r) st =
   lower_bound_infix field (accept (lower_bound_visitor field)) l op r st"
  by (subst accept_infix[where f = "lower_bound_infix field"])
    (simp_all add: lower_bound_visitor_def lower_bound_infix_def)

text \<open>The state after the conjuncts from left to right.\<close>

definition note_bound :: "column_ref \<Rightarrow> expr \<Rightarrow> int \<times> bool \<Rightarrow> int \<times> bool" where
  "note_bound field e st =
     (case bound_of field e of Some n \<Rightarrow> (min (fst st) n, True) | None \<Rightarrow> st)"

lemma accept_lower_bound:
  "list_all searchable (conjuncts e) \<Longrightarrow>
   map_option snd (accept (lower_bound_visitor field) e st) =
     Some (fold (note_bound field) (conjuncts e) st)"
proof (induction e arbitrary: st rule: conjuncts.induct)
  case (1 l op r)
  show ?case
  proof (cases "op = ''AND''")
    case True
    then have g: "\<not> lower_bound_guard field l op" by (simp add: lower_bound_guard_def)
    from True "1.prems" have p: "list_all searchable (conjuncts l)" "list_all searchable (conjuncts r)"
      by simp_all
    let ?s1 = "fold (note_bound field) (conjuncts l) st"
    obtain x where "accept (lower_bound_visitor field) l st = Some (x, ?s1)"
      using "1.IH"(1)[OF True p(1), of st] by (auto simp: prod_eq_iff)
    moreover obtain y where "accept (lower_bound_visitor field) r ?s1 =
        Some (y, fold (note_bound field) (conjuncts r) ?s1)"
      using "1.IH"(2)[OF True p(2), of ?s1] by (auto simp: prod_eq_iff)
    ultimately show ?thesis
      using g True by (simp add: accept_lower_bound_infix lower_bound_infix_def)
  next
    case False
    then show ?thesis
      by (cases st)
        (auto simp: accept_lower_bound_infix lower_bound_infix_def note_bound_def bound_of_def
          split: option.split)
  qed
qed (auto simp: searchable_def accept_infix_free note_bound_def bound_of_def)

lemma fold_note_bound:
  "fold (note_bound field) cs (ts, found) =
     (let bs = List.map_filter (bound_of field) cs in (fold min bs ts, found \<or> bs \<noteq> []))"
  by (induction cs arbitrary: ts found)
    (auto simp: note_bound_def Let_def List.map_filter_def min.commute split: option.splits)

lemma fold_min: "fold min bs (ts :: int) = Min (insert ts (set bs))"
proof -
  have "Min (set (ts # bs)) = fold min bs ts" by (rule Min.set_eq_fold)
  then show ?thesis by simp
qed

lemma FindTimestampLowerBound_conjuncts:
  assumes "list_all searchable (conjuncts e)"
  shows "FindTimestampLowerBound field e =
    (let bs = List.map_filter (bound_of field) (conjuncts e)
     in Some (Min (insert max_int64 (set bs)), bs \<noteq> []))"
  using accept_lower_bound[OF assms, of field "(max_int64, False)"]
  by (simp add: FindTimestampLowerBound_def fold_note_bound Let_def fold_min)

text \<open>An infix node under any other kind of node makes the visit of its parent panic.\<close>

lemma FindTimestampLowerBound_panics:
  "op \<noteq> ''AND'' \<Longrightarrow> FindTimestampLowerBound field (PrefixExpr f [InfixExpr l op r]) = None"
proof -
  assume "op \<noteq> ''AND''"
  then have "\<exists>s. accept (lower_bound_visitor field) (InfixExpr l op r) st = Some (NilExpr, s)" for st
    by (auto simp: accept_lower_bound_infix lower_bound_infix_def split: option.split)
  then obtain s where "accept (lower_bound_visitor field) (InfixExpr l op r) (max_int64, False) =
      Some (NilExpr, s)"
    by blast
  then show ?thesis
    unfolding FindTimestampLowerBound_def
    by (subst accept_no_override) (simp_all add: override_lower_bound visit_defs as_Expr_def del: override_of.simps)
qed

section \<open>Properties\<close>

text \<open>
  An example tree: a SELECT over a table with a conjunction, a call, a window function and
  a common table expression.
\<close>

definition sample_where :: expr where
  "sample_where =
     InfixExpr (InfixExpr (ColumnRef (NewColumnRef ''ts'')) ''>=''
         (FunctionExpr ''fromUnixTimestamp64Milli'' [LiteralExpr (NewLiteral (VInt KInt64 70))]))
       ''AND''
       (InfixExpr (ColumnRef (NewColumnRef ''ts'')) ''>''
         (FunctionExpr ''fromUnixTimestamp'' [LiteralExpr (NewLiteral (VInt KInt64 3))]))"

definition sample_select :: select_command where
  "sample_select =
     NewSelectCommand
       [AliasedExpr (FunctionExpr ''max'' [ColumnRef (NewColumnRef ''size'')]) ''m'',
        WindowFunction ''sum'' [ColumnRef (NewColumnRef ''size'')] [ColumnRef (NewColumnRef ''host'')]
          [OrderByExpr (ColumnRef (NewColumnRef ''ts'')) DescOrder]]
       [ColumnRef (NewColumnRef ''host'')] [] (TableRef (NewTableRef ''logs'')) sample_where [] 10 0 False
       [CTE ''c'' (NewSelectCommand [LiteralExpr NewWildcardExpr] [] [] (TableRef (NewTableRef ''t'')) NilExpr [] 0 0 False [])]"

lemma wf_sample_where: "wf_expr sample_where"
  by (simp add: sample_where_def)

lemma wf_sample_select: "wf_expr (SelectE sample_select)"
  by (simp add: sample_select_def NewSelectCommand_def wf_expr_SelectE wf_sample_where)

text \<open>
  A visitor without overrides copies a tree that has no nil where a method would
  dereference it: it returns the very same tree, does not panic and leaves the captured
  variables alone.
\<close>

lemma base_visitor_copies:
  "wf_expr e \<Longrightarrow> accept NewBaseVisitor e s = Some (e, s)"
  by (rule accept_base)

lemma base_visitor_copies_example:
  "wf_expr (SelectE sample_select) \<and>
   accept NewBaseVisitor (SelectE sample_select) (0 :: nat) = Some (SelectE sample_select, 0)"
  using wf_sample_select base_visitor_copies[OF wf_sample_select, of "0 :: nat"] by blast

text \<open>
  \<open>GetUsedColumns\<close> returns every column reference of the tree, in the order the nodes are
  visited and with repetitions, and nothing else.
\<close>

lemma used_columns_complete:
  "wf_expr e \<Longrightarrow> GetUsedColumns e = Some (columns_in e)"
  by (simp add: GetUsedColumns_def accept_used_columns)

lemma used_columns_complete_example:
  "GetUsedColumns sample_where = Some [NewColumnRef ''ts'', NewColumnRef ''ts'']"
  using used_columns_complete[OF wf_sample_where]
  by (simp add: sample_where_def columns_in.simps)

text \<open>
  \<open>PartlyImplementedIsEqual\<close> decides equality of canonical forms on the five kinds of
  nodes it knows: aliases dropped, a column read by its name alone, a literal by its value.
  In particular it is symmetric and transitive there, and false on every other kind of node.
\<close>

lemma partly_equal_canonical:
  "wf_expr a \<Longrightarrow> wf_expr b \<Longrightarrow>
   partly_equal a b \<longleftrightarrow> comparable a \<and> comparable b \<and> canonical a = canonical b"
  by (rule partly_equal_iff)

lemma partly_equal_canonical_example:
  "partly_equal (AliasedExpr (ColumnRef (NewColumnRefWithTable ''a'' ''t'')) ''x'') (ColumnRef (NewColumnRef ''a''))"
  using partly_equal_canonical[of "AliasedExpr (ColumnRef (NewColumnRefWithTable ''a'' ''t'')) ''x''"
      "ColumnRef (NewColumnRef ''a'')"]
  by (simp add: NewColumnRef_def NewColumnRefWithTable_def)

text \<open>
  C19: The combination of statements ignores nil entries: with at least one statement left,
  \<open>And\<close> holds in a row iff all of them do and \<open>Or\<close> iff one does; with none left both are nil.
\<close>

theorem combined_statements_hold:
  "(if list_all (\<lambda>s. s = NilExpr) stmts then And stmts = NilExpr \<and> Or stmts = NilExpr
    else (holds \<rho> (And stmts) = list_all (\<lambda>s. s = NilExpr \<or> holds \<rho> s) stmts \<and>
          holds \<rho> (Or stmts) = list_ex (\<lambda>s. s \<noteq> NilExpr \<and> holds \<rho> s) stmts))"
proof (cases "\<forall>s \<in> set stmts. s = NilExpr")
  case True
  then have "filter (\<lambda>s. s \<noteq> NilExpr) stmts = []" by (simp add: filter_empty_conv)
  with True show ?thesis by (simp add: And_def Or_def combineStatements_cases list_all_iff)
next
  case False
  then have "\<exists>s \<in> set stmts. s \<noteq> NilExpr" by blast
  from holds_And[OF this] holds_Or[OF this] False show ?thesis
    by (auto simp: list_all_iff list_ex_iff)
qed

text \<open>
  On a conjunction whose parts are comparisons (or contain no infix operator), the
  timestamp search returns the least bound among the conjuncts that pass its guard, in
  milliseconds, and \<open>found\<close> tells whether there is one.
\<close>

lemma lower_bound_of_conjuncts:
  assumes "list_all searchable (conjuncts e)"
  shows "FindTimestampLowerBound field e =
    (let bs = List.map_filter (bound_of field) (conjuncts e)
     in Some (Min (insert max_int64 (set bs)), bs \<noteq> []))"
  using assms by (rule FindTimestampLowerBound_conjuncts)

lemma lower_bound_of_conjuncts_example:
  "FindTimestampLowerBound (NewColumnRef ''ts'') sample_where = Some (70, True)"
proof -
  have "list_all searchable (conjuncts sample_where)"
    by (simp add: sample_where_def searchable_def)
  from lower_bound_of_conjuncts[OF this, of "NewColumnRef ''ts''"] show ?thesis
    by (simp add: sample_where_def bound_of_def lower_bound_guard_def timestamp_of_def
        ExtractInt64Maybe_def NewLiteral_def List.map_filter_def wrap64_def max_int64_def)
qed

text \<open>
  The guard of the search does not look at the column of a \<open>>\<close> comparison: a bound on any
  other column, or on any expression at all, is returned as the bound of \<open>field\<close>.
\<close>

lemma lower_bound_of_other_column:
  assumes "int64_range n"
  shows "FindTimestampLowerBound field
      (InfixExpr other ''>'' (FunctionExpr ''fromUnixTimestamp64Milli'' [LiteralExpr (NewLiteral (VInt KInt64 n))]))
    = Some (n, True)"
proof -
  have "list_all searchable (conjuncts (InfixExpr other ''>''
      (FunctionExpr ''fromUnixTimestamp64Milli'' [LiteralExpr (NewLiteral (VInt KInt64 n))])))"
    by (simp add: searchable_def)
  moreover have "min max_int64 n = n"
    using assms by (simp add: int64_range_def max_int64_def)
  ultimately show ?thesis
    using assms
    by (simp add: FindTimestampLowerBound_conjuncts bound_of_def lower_bound_guard_def timestamp_of_def
        ExtractInt64Maybe_def NewLiteral_def List.map_filter_def wrap64_id min.commute)
qed

lemma lower_bound_of_other_column_example:
  "FindTimestampLowerBound (NewColumnRef ''@timestamp'')
     (InfixExpr (ColumnRef (NewColumnRef ''expires'')) ''>''
        (FunctionExpr ''fromUnixTimestamp64Milli'' [LiteralExpr (NewLiteral (VInt KInt64 5))])) = Some (5, True)"
  by (rule lower_bound_of_other_column) (simp add: int64_range_def)

text \<open>
  A comparison under a prefix operator, as in \<open>NOT (a = b)\<close>, makes the search panic: the
  override returns nil and the visit of the operator's arguments asserts an expression.
\<close>

lemma lower_bound_panics_under_prefix:
  "op \<noteq> ''AND'' \<Longrightarrow> FindTimestampLowerBound field (PrefixExpr ''NOT'' [InfixExpr l op r]) = None"
  by (rule FindTimestampLowerBound_panics)

lemma lower_bound_panics_under_prefix_example:
  "FindTimestampLowerBound (NewColumnRef ''ts'')
     (PrefixExpr ''NOT'' [InfixExpr (ColumnRef (NewColumnRef ''a'')) ''='' (LiteralExpr (NewLiteral (VInt KInt 1)))]) = None"
  by (rule lower_bound_panics_under_prefix) simp

end
