(* ===== verification/Expr_Render.thy ===== *)
theory Expr_Render
  imports Expr_Model
begin

text \<open>
  \<open>quesma/model/expr_string_renderer.go\<close>: the text of an expression as it is sent to
  ClickHouse.  The reference it is proved against is a reader of ClickHouse string literals
  and quoted identifiers.

  The text of \<open>strconv.Quote\<close> is modelled byte by byte for ASCII; a byte above 127 is kept,
  which is what Go does for the bytes of printable characters.
\<close>

section \<open>Quoting and escaping\<close>

definition hex_digit :: "nat \<Rightarrow> char" where
  "hex_digit n = (if n < 10 then char_of (48 + n) else char_of (87 + n))"

definition quote_char :: "char \<Rightarrow> string" where
  "quote_char c =
     (let n = (of_char c :: nat) in
      if c = CHR 0x22 \<or> c = CHR 0x5C then [CHR 0x5C, c]
      else if n = 7 then [CHR 0x5C, CHR ''a'']
      else if n = 8 then [CHR 0x5C, CHR ''b'']
      else if n = 12 then [CHR 0x5C, CHR ''f'']
      else if n = 10 then [CHR 0x5C, CHR ''n'']
      else if n = 13 then [CHR 0x5C, CHR ''r'']
      else if n = 9 then [CHR 0x5C, CHR ''t'']
      else if n = 11 then [CHR 0x5C, CHR ''v'']
      else if n < 32 \<or> n = 127 then [CHR 0x5C, CHR ''x'', hex_digit (n div 16), hex_digit (n mod 16)]
      else [c])"

definition quote :: "string \<Rightarrow> string" where
  "quote s = [CHR 0x22] @ concat (map quote_char s) @ [CHR 0x22]"

definition escapeStringNormal :: "string \<Rightarrow> string" where
  "escapeStringNormal s0 =
     (let s = replace_char (CHR 0x5C) [CHR 0x5C, CHR 0x5C] s0 in
      if length s \<ge> 2 \<and> s ! 0 = CHR 0x27 \<and> s ! (length s - 1) = CHR 0x27
      then SingleQuote (replace_char (CHR 0x27) [CHR 0x5C, CHR 0x27] (take (length s - 2) (drop 1 s)))
      else replace_char (CHR 0x27) [CHR 0x5C, CHR 0x27] s)"

definition escapeStringLike :: "string \<Rightarrow> string" where
  "escapeStringLike s0 =
     (let s = replace_char (CHR ''%'') [CHR 0x5C, CHR ''%''] s0
      in replace_char (CHR ''_'') [CHR 0x5C, CHR ''_''] s)"

text \<open>The regular expression \<open>^([a-zA-Z_][a-zA-Z0-9_]*|".*")$\<close>.\<close>

definition letter_or_underscore :: "char \<Rightarrow> bool" where
  "letter_or_underscore c =
     (let n = (of_char c :: nat)
      in 97 \<le> n \<and> n \<le> 122 \<or> 65 \<le> n \<and> n \<le> 90 \<or> c = CHR ''_'')"

definition digit :: "char \<Rightarrow> bool" where
  "digit c = (let n = (of_char c :: nat) in 48 \<le> n \<and> n \<le> 57)"

definition identifierRegexp :: "string \<Rightarrow> bool" where
  "identifierRegexp s =
     ((s \<noteq> [] \<and> letter_or_underscore (hd s) \<and>
       list_all (\<lambda>c. letter_or_underscore c \<or> digit c) (tl s)) \<or>
      (length s \<ge> 2 \<and> hd s = CHR 0x22 \<and> last s = CHR 0x22 \<and>
       CHR 0x0A \<notin> set s))"

section \<open>The renderer\<close>

text \<open>What \<open>%v\<close> prints.\<close>

definition print_any :: "any_value \<Rightarrow> string" where
  "print_any v =
     (case v of
        VNil \<Rightarrow> ''<nil>''
      | VString s \<Rightarrow> s
      | VInt k n \<Rightarrow> itoa n
      | VBool b \<Rightarrow> (if b then ''true'' else ''false'')
      | VOther t \<Rightarrow> t)"

definition render_column :: "column_ref \<Rightarrow> string" where
  "render_column e =
     (let name = trim_suffix (ColumnName e) ''.keyword'';
          name = trim_suffix name ''::keyword'';
          name = trim_suffix name ''.keys'';
          name = trim_suffix name ''.values''
      in if length (TableAlias e) > 0 then quote (TableAlias e) @ ''.'' @ quote name
         else quote name)"

definition render_literal :: "literal_expr \<Rightarrow> string" where
  "render_literal l =
     (case Value l of
        VString val \<Rightarrow>
          (case EscapeType l of
             NormalNotEscaped \<Rightarrow> escapeStringNormal val
           | NotEscapedLikePrefix \<Rightarrow>
               SingleQuote (escapeStringLike (escapeStringNormal val) @ ''%'')
           | NotEscapedLikeFull \<Rightarrow>
               SingleQuote (''%'' @ escapeStringLike (escapeStringNormal val) @ ''%'')
           | FullyEscaped \<Rightarrow> SingleQuote val
           | UnsetEscapeType \<Rightarrow> escapeStringNormal val)
      | val \<Rightarrow> print_any val)"

definition render_table :: "table_ref \<Rightarrow> string" where
  "render_table e =
     (let ident = (\<lambda>n. if identifierRegexp n then n else quote n);
          result = (if DatabaseName e \<noteq> [] then [ident (DatabaseName e)] else []);
          result = result @ [ident (TableName e)]
      in join ''.'' result)"

definition render_infix :: "string \<Rightarrow> string \<Rightarrow> string \<Rightarrow> string" where
  "render_infix lhs op rhs =
     (if has_prefix op ''_'' \<or> op = ''AND'' \<or> op = ''OR''
      then ''('' @ lhs @ '' '' @ op @ '' '' @ rhs @ '')''
      else if contains op ''LIKE'' \<or> op = ''IS'' \<or> op = ''IN'' \<or> op = ''NOT IN''
              \<or> op = ''REGEXP'' \<or> contains op ''UNION''
      then lhs @ '' '' @ op @ '' '' @ rhs
      else lhs @ op @ rhs)"

definition render_tuple :: "string list \<Rightarrow> string" where
  "render_tuple exprs =
     (case exprs of
        [] \<Rightarrow> ''tuple()''
      | [e] \<Rightarrow> e
      | _ \<Rightarrow> ''tuple('' @ join '', '' exprs @ '')'')"

definition render_direction :: "string \<Rightarrow> order_by_direction \<Rightarrow> string" where
  "render_direction allExprs d =
     (case d of DescOrder \<Rightarrow> allExprs @ '' DESC'' | AscOrder \<Rightarrow> allExprs @ '' ASC''
      | DefaultOrder \<Rightarrow> allExprs)"

text \<open>
  The pieces of a SELECT, each rendered already; \<open>used\<close> are the columns the sampled inner
  query needs.
\<close>

definition render_select ::
  "select_command \<Rightarrow> string list \<Rightarrow> string list \<Rightarrow> column_ref list \<Rightarrow> string \<Rightarrow> string \<Rightarrow>
   string list \<Rightarrow> string list \<Rightarrow> string list \<Rightarrow> string" where
  "render_select c ctes columns used from where groupBy orderBy limitBy =
     (if NamedCTEs c \<noteq> [] then ''WITH '' else []) @ join '', '' ctes @
     ''SELECT '' @ (if IsDistinct c then ''DISTINCT '' else []) @
     join '', '' columns @
     '' FROM '' @
     (if SampleLimit c > 0 then
        ''(SELECT '' @
        (let usedKeys = distinct_sorted (map render_column used)
         in if usedKeys = [] then ''1'' else join '', '' usedKeys) @
        '' FROM ''
      else []) @
     (case FromClause c of
        NilExpr \<Rightarrow> []
      | TableRef _ \<Rightarrow> from
      | LiteralExpr _ \<Rightarrow> from
      | JoinExpr _ _ _ _ \<Rightarrow> from
      | _ \<Rightarrow> ''('' @ from @ '')'') @
     (if WhereClause c \<noteq> NilExpr then '' WHERE '' @ where else []) @
     (if SampleLimit c > 0 then '' LIMIT '' @ itoa (SampleLimit c) @ '')'' else []) @
     (if groupBy \<noteq> [] then '' GROUP BY '' @ join '', '' groupBy else []) @
     (if orderBy \<noteq> [] then '' ORDER BY '' @ join '', '' orderBy else []) @
     (if Limit c \<noteq> 0 then
        (if length (LimitBy c) \<le> 1 then '' LIMIT '' @ itoa (Limit c)
         else '' LIMIT '' @ itoa (Limit c) @ '' BY '' @ join '', '' limitBy)
      else [])"

lemma size_list_butlast: "size_list f (butlast xs) \<le> size_list f xs"
  by (induction xs) auto

text \<open>
  \<open>AsString\<close> maps nil to the empty text, where \<open>e.Accept(renderer)\<close> of a nil panics.
  \<open>render_join\<close> is the loop of \<open>VisitJoinExpr\<close> after the leftmost table.
\<close>

function render :: "expr \<Rightarrow> string option"
  and as_string :: "expr \<Rightarrow> string option"
  and render_join :: "string \<Rightarrow> expr \<Rightarrow> expr \<Rightarrow> string option" where
  "as_string e = (if e = NilExpr then Some [] else render e)"
| "render NilExpr = None"
| "render (ColumnRef c) = Some (render_column c)"
| "render (PrefixExpr op args) =
     do { argsAsString \<leftarrow> opt_mapM (\<lambda>a. if a = NilExpr then Some [] else render a) args;
          Some (op @ '' ('' @ join '', '' argsAsString @ '')'') }"
| "render (NestedProperty e p) = do { a \<leftarrow> render e; Some (a @ ''.'' @ render_literal p) }"
| "render (ArrayAccess c i) = do { a \<leftarrow> render i; Some (render_column c @ ''['' @ a @ '']'') }"
| "render (FunctionExpr name args) =
     do { as \<leftarrow> opt_mapM render args; Some (name @ ''('' @ join '','' as @ '')'') }"
| "render (LiteralExpr l) = Some (render_literal l)"
| "render (TupleExpr es) = do { exprs \<leftarrow> opt_mapM render es; Some (render_tuple exprs) }"
| "render (InfixExpr l op r) =
     do { lhs \<leftarrow> (if l \<noteq> NilExpr then render l else Some ''< LHS NIL >'');
          rhs \<leftarrow> (if r \<noteq> NilExpr then render r else Some ''< RHS NIL >'');
          Some (render_infix lhs op rhs) }"
| "render (OrderByE (OrderByExpr e d)) =
     do { allExprs \<leftarrow> render e; Some (render_direction allExprs d) }"
| "render (DistinctExpr e) = do { a \<leftarrow> render e; Some (''DISTINCT '' @ a) }"
| "render (TableRef t) = Some (render_table t)"
| "render (AliasedExpr e a) = do { b \<leftarrow> render e; Some (b @ '' AS '' @ quote a) }"
| "render (SelectE (SelectCommand d columns from where groupBy orderBy limitBy limit sample ctes)) =
     do { namedCTEs \<leftarrow> opt_mapM (\<lambda>c. render (CTEE c)) ctes;
          columnsS \<leftarrow> opt_mapM as_string columns;
          used \<leftarrow> (if sample > 0 then opt_mapM GetUsedColumns (columns @ groupBy) else Some []);
          fromS \<leftarrow> as_string from;
          whereS \<leftarrow> as_string where;
          groupByS \<leftarrow> opt_mapM as_string groupBy;
          orderByS \<leftarrow> opt_mapM (\<lambda>ob. render (OrderByE ob)) orderBy;
          limitByS \<leftarrow> (if limit \<noteq> 0 \<and> length limitBy > 1 then opt_mapM as_string (butlast limitBy)
                      else Some []);
          Some (render_select
            (SelectCommand d columns from where groupBy orderBy limitBy limit sample ctes)
            namedCTEs columnsS (concat used) fromS whereS groupByS orderByS limitByS) }"
| "render (WindowFunction name args partitionBy orderBy) =
     do { as \<leftarrow> opt_mapM as_string args;
          ps \<leftarrow> opt_mapM as_string partitionBy;
          obs \<leftarrow> opt_mapM (\<lambda>ob. render (OrderByE ob)) orderBy;
          Some (name @ ''('' @ join '', '' as @ '') OVER ('' @
            (if partitionBy \<noteq> [] then ''PARTITION BY '' @ join '', '' ps else []) @
            (if orderBy \<noteq> [] then
               (if partitionBy \<noteq> [] then '' '' else []) @ ''ORDER BY '' @ join '', '' obs
             else []) @ '')'') }"
| "render (ParenExpr es) = do { exprs \<leftarrow> opt_mapM render es; Some (''('' @ join '' '' exprs @ '')'') }"
| "render (LambdaExpr args body) =
     do { b \<leftarrow> as_string body; Some (''('' @ join '', '' args @ '') -> '' @ b) }"
| "render (JoinExpr lhs t rhs on) =
     do { a \<leftarrow> render lhs; b \<leftarrow> render_join t rhs on; Some (a @ b) }"
| "render (CTEE (CTE name q)) = do { a \<leftarrow> render (SelectE q); Some (name @ '' AS ('' @ a @ '') '') }"
| "render_join t rhs on =
     do { table \<leftarrow> (case rhs of JoinExpr lhs' _ _ _ \<Rightarrow> render lhs' | _ \<Rightarrow> render rhs);
          cond \<leftarrow> render on;
          rest \<leftarrow> (case rhs of JoinExpr _ t' rhs' on' \<Rightarrow> render_join t' rhs' on' | _ \<Rightarrow> Some []);
          Some ('' '' @ t @ '' JOIN '' @ table @ '' ON ('' @ cond @ '')'' @ rest) }"
  by pat_completeness auto
termination
  by (relation "measure (\<lambda>x. case x of Inl e \<Rightarrow> 2 * size e | Inr (Inl e) \<Rightarrow> 2 * size e + 1
        | Inr (Inr (t, r, on)) \<Rightarrow> 2 * size r + 2 * size on + 1)")
    (auto dest!: size_list_member[where f = size] dest: order_trans[OF _ size_list_butlast])

declare render_join.simps [simp del] as_string.simps [simp del]

section \<open>Rendering does not panic\<close>

lemma opt_mapM_None_iff: "opt_mapM f xs = None \<longleftrightarrow> (\<exists>x \<in> set xs. f x = None)"
  by (induction xs) (auto simp: bind_eq_None_conv)

lemma GetUsedColumns_wf: "wf_expr e \<Longrightarrow> GetUsedColumns e = Some (columns_in e)"
  by (simp add: GetUsedColumns_def accept_used_columns)

lemma render_join_total:
  assumes "\<And>x. size x < n \<Longrightarrow> wf_expr x \<Longrightarrow> render x \<noteq> None"
  shows "size r < n \<Longrightarrow> size on < n \<Longrightarrow> wf_expr r \<Longrightarrow> wf_expr on \<Longrightarrow> render_join t r on \<noteq> None"
proof (induction r arbitrary: t on rule: measure_induct_rule[where f = size])
  case (less r)
  have c: "render on \<noteq> None" "render r \<noteq> None" using assms less.prems by blast+
  show ?case
  proof (cases "\<exists>l' t' r' on'. r = JoinExpr l' t' r' on'")
    case True
    then obtain l' t' r' on' where r: "r = JoinExpr l' t' r' on'" by blast
    with less.prems have "render l' \<noteq> None" using assms[of l'] by auto
    moreover have "render_join t' r' on' \<noteq> None"
      using less.IH[of r' on' t'] less.prems r by auto
    ultimately show ?thesis using c r by (simp add: render_join.simps[of t] bind_eq_None_conv)
  next
    case False
    then show ?thesis using c by (cases r) (auto simp: render_join.simps[of t] bind_eq_None_conv)
  qed
qed

lemma render_not_None: "wf_expr e \<Longrightarrow> render e \<noteq> None"
proof (induction e rule: measure_induct_rule[where f = size])
  case (less e)
  have IH: "render c \<noteq> None" if "c \<in> set (children e)" for c
    using less size_children[OF that] wf_expr_children[OF _ that] by blast
  have AS: "as_string c \<noteq> None" if "c = NilExpr \<or> c \<in> set (children e)" for c
    using that IH by (auto simp: as_string.simps)
  note simps = bind_eq_None_conv opt_mapM_None_iff
  show ?case
  proof (cases e)
    case (JoinExpr l t r on)
    then have "render_join t r on \<noteq> None"
      using less by (intro render_join_total[where n = "size e"]) auto
    with JoinExpr IH show ?thesis by (auto simp: simps)
  next
    case (OrderByE ob)
    with IH show ?thesis by (cases ob) (auto simp: simps)
  next
    case (CTEE c)
    with IH show ?thesis by (cases c) (auto simp: simps)
  next
    case (SelectE q)
    obtain d columns frm whr groupBy orderBy limitBy limit sample ctes where
      q: "q = SelectCommand d columns frm whr groupBy orderBy limitBy limit sample ctes"
      by (cases q)
    have "opt_mapM (\<lambda>c. render (CTEE c)) ctes \<noteq> None"
      "opt_mapM as_string columns \<noteq> None" "as_string frm \<noteq> None"
      "as_string whr \<noteq> None" "opt_mapM as_string groupBy \<noteq> None"
      "opt_mapM (\<lambda>ob. render (OrderByE ob)) orderBy \<noteq> None"
      "opt_mapM as_string (butlast limitBy) \<noteq> None"
      using IH AS SelectE q by (auto simp: opt_mapM_None_iff dest!: in_set_butlastD)
    moreover have "opt_mapM GetUsedColumns (columns @ groupBy) \<noteq> None"
      using less.prems SelectE q
      by (auto simp: wf_expr_SelectE list_all_iff GetUsedColumns_wf opt_mapM_None_iff)
    ultimately show ?thesis using SelectE q by (simp add: bind_eq_None_conv)
  qed (use less.prems IH AS in \<open>auto simp: simps\<close>)
qed

section \<open>Reading string literals\<close>

text \<open>
  How ClickHouse reads a string literal after its opening quote: a backslash protects the
  next byte, a doubled quote is a quote, a single quote ends the literal.  The result is the
  content and the text after the literal.  An escape other than of a backslash or a quote is
  left in the content as it stands.
\<close>

fun read_literal :: "string \<Rightarrow> (string \<times> string) option" where
  "read_literal [] = None"
| "read_literal [c] = (if c = CHR 0x27 then Some ([], []) else None)"
| "read_literal (c # d # s) =
     (if c = CHR 0x5C then
        map_option (\<lambda>(a, b). ((if d = CHR 0x5C \<or> d = CHR 0x27 then [d] else [c, d]) @ a, b)) (read_literal s)
      else if c = CHR 0x27 then
        (if d = CHR 0x27 then map_option (\<lambda>(a, b). (CHR 0x27 # a, b)) (read_literal s)
         else Some ([], d # s))
      else map_option (\<lambda>(a, b). (c # a, b)) (read_literal (d # s)))"

definition sql_string :: "string \<Rightarrow> (string \<times> string) option" where
  "sql_string s = (case s of c # t \<Rightarrow> if c = CHR 0x27 then read_literal t else None | [] \<Rightarrow> None)"

definition literal_end :: "string \<Rightarrow> bool" where
  "literal_end rest \<longleftrightarrow> (rest = [] \<or> hd rest \<noteq> CHR 0x27)"

text \<open>Both replacements of \<open>escapeStringNormal\<close>, byte by byte.\<close>

definition escape_body :: "string \<Rightarrow> string" where
  "escape_body t = replace_char (CHR 0x27) [CHR 0x5C, CHR 0x27] (replace_char (CHR 0x5C) [CHR 0x5C, CHR 0x5C] t)"

lemma escape_body_simps [simp]:
  "escape_body [] = []"
  "escape_body (c # t) =
     (if c = CHR 0x5C \<or> c = CHR 0x27 then [CHR 0x5C, c] else [c]) @ escape_body t"
  by (simp_all add: escape_body_def)

lemma escapeStringLike_append [simp]:
  "escapeStringLike (s @ t) = escapeStringLike s @ escapeStringLike t"
  by (simp add: escapeStringLike_def)

lemma escapeStringLike_Nil [simp]: "escapeStringLike [] = []"
  by (simp add: escapeStringLike_def)

lemma escapeStringLike_Cons:
  "escapeStringLike (c # s) =
     (if c = CHR ''%'' \<or> c = CHR ''_'' then [CHR 0x5C, c] else [c]) @ escapeStringLike s"
  by (auto simp: escapeStringLike_def)

lemma escapeStringNormal_quoted: "escapeStringNormal (SingleQuote t) = SingleQuote (escape_body t)"
  by (simp add: escapeStringNormal_def SingleQuote_def escape_body_def nth_append Let_def)

lemma replace_backslash_ends:
  "s \<noteq> [] \<Longrightarrow> (hd (replace_char (CHR 0x5C) [CHR 0x5C, CHR 0x5C] s) = CHR 0x27) = (hd s = CHR 0x27)"
  "s \<noteq> [] \<Longrightarrow> (last (replace_char (CHR 0x5C) [CHR 0x5C, CHR 0x5C] s) = CHR 0x27) = (last s = CHR 0x27)"
  "s \<noteq> [] \<Longrightarrow> replace_char (CHR 0x5C) [CHR 0x5C, CHR 0x5C] s \<noteq> []"
  by (cases s; simp) (cases s rule: rev_cases; simp; simp)+

lemma SingleQuote_iff:
  "(\<exists>t. s = SingleQuote t) \<longleftrightarrow> length s \<ge> 2 \<and> hd s = CHR 0x27 \<and> last s = CHR 0x27"
proof
  assume "length s \<ge> 2 \<and> hd s = CHR 0x27 \<and> last s = CHR 0x27"
  then obtain c u where s: "s = c # u" by (cases s) auto
  with \<open>length s \<ge> 2 \<and> _\<close> have u: "u \<noteq> []" by auto
  then obtain t d where "u = t @ [d]" by (cases u rule: rev_cases) auto
  with s \<open>length s \<ge> 2 \<and> _\<close> show "\<exists>t. s = SingleQuote t" by (auto simp: SingleQuote_def)
qed (auto simp: SingleQuote_def)

lemma escapeStringNormal_unquoted:
  assumes "\<nexists>t. s = SingleQuote t"
  shows "escapeStringNormal s = escape_body s"
proof (cases "length s \<ge> 2")
  case True
  then have ne: "s \<noteq> []" by auto
  let ?r = "replace_char (CHR 0x5C) [CHR 0x5C, CHR 0x5C] s"
  have "?r ! 0 = hd ?r" "?r ! (length ?r - 1) = last ?r"
    using replace_backslash_ends(3)[OF ne] by (simp_all add: hd_conv_nth last_conv_nth)
  with True assms show ?thesis
    using replace_backslash_ends[OF ne]
    by (auto simp: escapeStringNormal_def escape_body_def Let_def SingleQuote_iff)
next
  case False
  then have "s = [] \<or> (\<exists>c. s = [c])" by (cases s) (auto simp: Suc_le_eq)
  then show ?thesis by (auto simp: escapeStringNormal_def)
qed

lemma read_literal_body:
  "literal_end rest \<Longrightarrow> read_literal (escape_body t @ CHR 0x27 # rest) = Some (t, rest)"
proof (induction t)
  case Nil
  then show ?case by (cases rest) (auto simp: literal_end_def)
next
  case (Cons c t)
  show ?case
  proof (cases "escape_body t @ CHR 0x27 # rest")
    case (Cons d u)
    with Cons.IH Cons.prems show ?thesis by auto
  qed simp
qed

lemma read_literal_like:
  "literal_end rest \<Longrightarrow>
   read_literal (escapeStringLike (escape_body t) @ CHR ''%'' # CHR 0x27 # rest) =
     Some (escapeStringLike t @ ''%'', rest)"
proof (induction t)
  case Nil
  then show ?case by (cases rest) (auto simp: literal_end_def)
next
  case (Cons c t)
  show ?case
  proof (cases "escapeStringLike (escape_body t) @ CHR ''%'' # CHR 0x27 # rest")
    case (Cons d u)
    with Cons.IH Cons.prems show ?thesis by (auto simp: escapeStringLike_Cons)
  qed simp
qed

lemma hd_escaped: "t \<noteq> [] \<Longrightarrow> \<exists>c u. escapeStringLike (escape_body t) = c # u \<and> c \<noteq> CHR 0x27"
  by (cases t) (auto simp: escapeStringLike_Cons)

section \<open>Reading quoted identifiers\<close>

fun read_ident :: "string \<Rightarrow> (string \<times> string) option" where
  "read_ident [] = None"
| "read_ident [c] = (if c = CHR 0x22 then Some ([], []) else None)"
| "read_ident (c # d # s) =
     (if c = CHR 0x5C then map_option (\<lambda>(a, b). (d # a, b)) (read_ident s)
      else if c = CHR 0x22 then Some ([], d # s)
      else map_option (\<lambda>(a, b). (c # a, b)) (read_ident (d # s)))"

definition sql_ident :: "string \<Rightarrow> (string \<times> string) option" where
  "sql_ident s = (case s of c # t \<Rightarrow> if c = CHR 0x22 then read_ident t else None | [] \<Rightarrow> None)"

definition printable :: "char \<Rightarrow> bool" where
  "printable c \<longleftrightarrow> 32 \<le> (of_char c :: nat) \<and> (of_char c :: nat) \<noteq> 127"

lemma quote_char_printable:
  "printable c \<Longrightarrow> quote_char c = (if c = CHR 0x22 \<or> c = CHR 0x5C then [CHR 0x5C, c] else [c])"
  by (auto simp: printable_def quote_char_def Let_def)

lemma read_ident_body:
  "list_all printable s \<Longrightarrow>
   read_ident (concat (map quote_char s) @ CHR 0x22 # rest) = Some (s, rest)"
proof (induction s)
  case Nil
  then show ?case by (cases rest) auto
next
  case (Cons c s)
  show ?case
  proof (cases "concat (map quote_char s) @ CHR 0x22 # rest")
    case (Cons d u)
    with Cons.IH Cons.prems show ?thesis by (auto simp: quote_char_printable)
  qed simp
qed

lemma sql_ident_quote: "list_all printable s \<Longrightarrow> sql_ident (quote s @ rest) = Some (s, rest)"
  by (simp add: sql_ident_def quote_def read_ident_body)

section \<open>Properties\<close>

text \<open>
  C20: A tree without nil where a method would dereference it has a text: rendering it does
  not panic, whatever its nesting of subqueries, joins and common table expressions.
\<close>

theorem render_defined: "wf_expr e \<Longrightarrow> \<exists>s. render e = Some s"
  using render_not_None by auto

theorem render_defined_witness: "\<exists>s. render (SelectE sample_select) = Some s"
  by (rule render_defined) (rule wf_sample_select)

text \<open>
  C21: A string literal whose value is given in single quotes is escaped so that ClickHouse
  reads back exactly the text between them, and the SQL that follows it is not touched.
\<close>

theorem quoted_literal_roundtrip:
  assumes "literal_end rest"
  shows "sql_string (render_literal (NewLiteral (VString (SingleQuote t))) @ rest) = Some (t, rest)"
proof -
  have "render_literal (NewLiteral (VString (SingleQuote t))) @ rest =
      CHR 0x27 # escape_body t @ CHR 0x27 # rest"
    by (simp add: render_literal_def NewLiteral_def escapeStringNormal_quoted) (simp add: SingleQuote_def)
  then show ?thesis by (simp add: sql_string_def read_literal_body[OF assms])
qed

theorem quoted_literal_roundtrip_witness:
  "sql_string (render_literal (NewLiteral (VString (SingleQuote [CHR ''a'', CHR 0x27, CHR 0x5C]))) @ '' AND 1'')
     = Some ([CHR ''a'', CHR 0x27, CHR 0x5C], '' AND 1'')"
  by (rule quoted_literal_roundtrip) (simp add: literal_end_def)

text \<open>
  What a \<open>LIKE\<close> pattern matches in ClickHouse: \<open>%\<close> any text, \<open>_\<close> one character, a backslash the
  wildcard or the backslash behind it, and any other character, also a backslash, itself.
\<close>

fun pattern_matches :: "string \<Rightarrow> string \<Rightarrow> bool" where
  "pattern_matches [] s \<longleftrightarrow> s = []"
| "pattern_matches (c # p) s \<longleftrightarrow>
     (if c = CHR ''%'' then pattern_matches p s \<or> (case s of [] \<Rightarrow> False | _ # s' \<Rightarrow> pattern_matches (c # p) s')
      else case s of
             [] \<Rightarrow> False
           | d # s' \<Rightarrow>
               if c = CHR ''_'' then pattern_matches p s'
               else if c = CHR 0x5C \<and> p \<noteq> [] \<and> hd p \<in> {CHR ''%'', CHR ''_'', CHR 0x5C}
                    then d = hd p \<and> pattern_matches (tl p) s'
               else d = c \<and> pattern_matches p s')"

lemma pattern_matches_any: "pattern_matches (CHR ''%'' # p) s \<longleftrightarrow> (\<exists>u v. s = u @ v \<and> pattern_matches p v)"
proof (induction s)
  case (Cons d s)
  have "(\<exists>u v. d # s = u @ v \<and> pattern_matches p v) \<longleftrightarrow> pattern_matches p (d # s) \<or> (\<exists>u v. s = u @ v \<and> pattern_matches p v)"
    by (metis append_Cons append_Nil append_eq_Cons_conv)
  with Cons show ?case by simp
qed simp

lemma pattern_matches_escaped:
  "CHR 0x5C \<notin> set t \<Longrightarrow> pattern_matches (escapeStringLike t @ p) s \<longleftrightarrow> (\<exists>v. s = t @ v \<and> pattern_matches p v)"
proof (induction t arbitrary: s)
  case (Cons c t)
  then show ?case by (cases s) (auto simp: escapeStringLike_Cons)
qed simp

lemma pattern_matches_all [simp]: "pattern_matches ''%'' s"
  by (simp only: pattern_matches_any) auto

text \<open>
  C22: A \<open>LIKE\<close> pattern made from a text that is not itself in single quotes stays inside its
  literal, and for a text without backslashes the pattern read back matches exactly the values that
  begin with the text, or for the pattern on both sides those that contain it: no character of
  the text is a wildcard.
\<close>

theorem like_literal_contained:
  assumes "literal_end rest" and "\<nexists>u. t = SingleQuote u"
  shows "\<exists>p p'. sql_string (render_literal (NewLiteralWithEscapeType (VString t) NotEscapedLikePrefix) @ rest) = Some (p, rest)
    \<and> sql_string (render_literal (NewLiteralWithEscapeType (VString t) NotEscapedLikeFull) @ rest) = Some (p', rest)
    \<and> (CHR 0x5C \<notin> set t \<longrightarrow>
         (\<forall>s. (pattern_matches p s \<longleftrightarrow> (\<exists>v. s = t @ v)) \<and> (pattern_matches p' s \<longleftrightarrow> (\<exists>u v. s = u @ t @ v))))"
proof -
  let ?b = "escapeStringLike (escape_body t) @ CHR ''%'' # CHR 0x27 # rest"
  have r: "render_literal (NewLiteralWithEscapeType (VString t) NotEscapedLikePrefix) @ rest = CHR 0x27 # ?b"
    "render_literal (NewLiteralWithEscapeType (VString t) NotEscapedLikeFull) @ rest = CHR 0x27 # CHR ''%'' # ?b"
    using assms(2)
    by (simp_all add: render_literal_def NewLiteralWithEscapeType_def escapeStringNormal_unquoted SingleQuote_def)
  have b: "read_literal ?b = Some (escapeStringLike t @ ''%'', rest)"
    by (rule read_literal_like[OF assms(1)])
  then have "read_literal (CHR ''%'' # ?b) = Some (CHR ''%'' # escapeStringLike t @ ''%'', rest)"
    by (cases ?b) simp_all
  with r b have "sql_string (render_literal (NewLiteralWithEscapeType (VString t) NotEscapedLikePrefix) @ rest)
      = Some (escapeStringLike t @ ''%'', rest)"
    and "sql_string (render_literal (NewLiteralWithEscapeType (VString t) NotEscapedLikeFull) @ rest)
      = Some (CHR ''%'' # escapeStringLike t @ ''%'', rest)"
    by (simp_all add: sql_string_def)
  moreover have m: "pattern_matches (escapeStringLike t @ ''%'') s \<longleftrightarrow> (\<exists>v. s = t @ v)" if "CHR 0x5C \<notin> set t" for s
    by (simp add: pattern_matches_escaped [OF that] del: pattern_matches.simps)
  have "pattern_matches (CHR ''%'' # escapeStringLike t @ ''%'') s \<longleftrightarrow> (\<exists>u v. s = u @ t @ v)" if "CHR 0x5C \<notin> set t" for s
    unfolding pattern_matches_any m [OF that] by blast
  with m have "CHR 0x5C \<notin> set t \<longrightarrow> (\<forall>s. (pattern_matches (escapeStringLike t @ ''%'') s \<longleftrightarrow> (\<exists>v. s = t @ v))
      \<and> (pattern_matches (CHR ''%'' # escapeStringLike t @ ''%'') s \<longleftrightarrow> (\<exists>u v. s = u @ t @ v)))"
    by blast
  ultimately show ?thesis by blast
qed

theorem like_literal_contained_witness:
  "\<exists>p. sql_string (render_literal (NewLiteralWithEscapeType (VString [CHR 0x27, CHR ''_'']) NotEscapedLikePrefix) @ '' OR b'')
       = Some (p, '' OR b'')
     \<and> pattern_matches p [CHR 0x27, CHR ''_'', CHR ''z''] \<and> \<not> pattern_matches p [CHR 0x27, CHR ''y'', CHR ''z'']"
proof -
  let ?t = "[CHR 0x27, CHR ''_'']"
  have "literal_end '' OR b''" "\<nexists>u. ?t = SingleQuote u" "CHR 0x5C \<notin> set ?t"
    by (simp_all add: literal_end_def SingleQuote_def)
  from like_literal_contained [OF this(1,2)] this(3) obtain p
    where "sql_string (render_literal (NewLiteralWithEscapeType (VString ?t) NotEscapedLikePrefix) @ '' OR b'') = Some (p, '' OR b'')"
      and "\<And>s. pattern_matches p s \<longleftrightarrow> (\<exists>v. s = ?t @ v)" by blast
  then show ?thesis by (intro exI [of _ p] conjI) simp_all
qed

text \<open>A backslash in front of a wildcard takes away the wildcard's own: the text \<open>\%\<close> matches what begins with a backslash.\<close>

lemma like_backslash_leaves_a_wildcard:
  "pattern_matches (escapeStringLike [CHR 0x5C, CHR ''%''] @ ''%'') [CHR 0x5C, CHR ''x'']"
  by code_simp

text \<open>
  A text that begins and ends with a single quote breaks out of its \<open>LIKE\<close> literal: the
  rendered literal is the empty string, and the text (of a \<open>prefix\<close> query, say) is read as SQL.
\<close>

lemma like_literal_breakout:
  assumes "t \<noteq> []"
  shows "sql_string (render_literal (NewLiteralWithEscapeType (VString (SingleQuote t)) NotEscapedLikePrefix))
      = Some ([], escapeStringLike (escape_body t) @ [CHR 0x27, CHR ''%'', CHR 0x27])"
proof -
  obtain c u where "escapeStringLike (escape_body t) = c # u" "c \<noteq> CHR 0x27"
    using hd_escaped[OF assms] by blast
  then show ?thesis
    by (simp add: render_literal_def NewLiteralWithEscapeType_def escapeStringNormal_quoted sql_string_def)
      (simp add: SingleQuote_def escapeStringLike_Cons)
qed

lemma like_literal_breakout_example:
  "sql_string (render_literal (NewLiteralWithEscapeType (VString (SingleQuote '' OR 1=1 OR f='')) NotEscapedLikePrefix))
     = Some ([], '' OR 1=1 OR f='' @ [CHR 0x27, CHR ''%'', CHR 0x27])"
  using like_literal_breakout[of "'' OR 1=1 OR f=''"] by (simp add: escapeStringLike_Cons)

text \<open>
  A column without a table alias is rendered as one quoted identifier: whatever printable
  bytes its name has, the reader gets the name back, less the multi-field suffix, and the SQL
  after it is not touched.
\<close>

lemma column_identifier_roundtrip:
  assumes "list_all printable name" and "\<forall>suffix \<in> {''.keyword'', ''::keyword'', ''.keys'', ''.values''}. \<not> has_suffix name suffix"
  shows "sql_ident (render_column (NewColumnRef name) @ rest) = Some (name, rest)"
proof -
  have "render_column (NewColumnRef name) = quote name"
    using assms(2) by (simp add: render_column_def NewColumnRef_def trim_suffix_def Let_def)
  then show ?thesis by (simp add: sql_ident_quote[OF assms(1)])
qed

lemma column_identifier_roundtrip_example:
  "sql_ident (render_column (NewColumnRef [CHR ''a'', CHR 0x22, CHR ''b'']) @ ''>1'') = Some ([CHR ''a'', CHR 0x22, CHR ''b''], ''>1'')"
  by (rule column_identifier_roundtrip) (simp_all add: printable_def has_suffix_def)

end
