(* ===== verification/Optimize_Rules.thy ===== *)
theory Optimize_Rules
  imports Config Expr_Render "HOL-Library.Sublist"
begin

text \<open>
  The optimizer pipeline of \<open>quesma/optimize/pipeline.go\<close> and two of its transformers: the
  query cache hints of \<open>cache_queries.go\<close> and the materialized view replacement of
  \<open>materialized_view_replace.go\<close>.

  A \<open>*model.Query\<close> is the record of the fields the transformers read and write; the queries
  of one plan and their hints are distinct objects, so updating them in place is updating the
  list.  A transformer returns \<open>None\<close> if it panics, otherwise Go's \<open>(queries, error)\<close> as a sum.
\<close>

section \<open>Queries and hints\<close>

record optimize_hints =
  ClickhouseQuerySettings :: "string \<rightharpoonup> any_value"
  OptimizationsPerformed :: "string list"

definition NewQueryExecutionHints :: optimize_hints where
  "NewQueryExecutionHints = \<lparr>ClickhouseQuerySettings = Map.empty, OptimizationsPerformed = []\<rparr>"

record query =
  q_SelectCommand :: select_command
  q_OptimizeHints :: "optimize_hints option"
  q_TableName :: string

datatype optimize_error = OptimizeError string

record optimize_transformer =
  TransformerName :: string
  IsEnabledByDefault :: bool
  TransformQueries :: "query list \<Rightarrow> (string \<rightharpoonup> string) \<Rightarrow> (optimize_error + query list) option"

text \<open>The hints of a query are dereferenced; a query without them is a panic.\<close>

definition add_performed :: "string \<Rightarrow> optimize_hints \<Rightarrow> optimize_hints" where
  "add_performed name h = h\<lparr>OptimizationsPerformed := OptimizationsPerformed h @ [name]\<rparr>"

section \<open>The pipeline\<close>

definition last_name_part :: "string \<Rightarrow> string" where
  "last_name_part tableName =
     (let res = replace_char (CHR 0x22) [] tableName
      in if CHR ''.'' \<in> set res
         then (case split_on (CHR ''.'') res of [_, part] \<Rightarrow> part | _ \<Rightarrow> res)
         else res)"

definition getIndexName :: "query list \<Rightarrow> string option" where
  "getIndexName queries =
     (case queries of [] \<Rightarrow> None | q # _ \<Rightarrow> Some (last_name_part (q_TableName q)))"

definition findConfig ::
  "quesma_configuration \<Rightarrow> optimize_transformer \<Rightarrow> query list \<Rightarrow> (bool \<times> (string \<rightharpoonup> string)) option" where
  "findConfig conf transformer queries =
     do { indexName \<leftarrow> getIndexName queries;
          Some (case map_of (IndexConfig conf) indexName of
              Some indexCfg \<Rightarrow>
                (case Optimizers indexCfg (TransformerName transformer) of
                   Some cfg \<Rightarrow> (Disabled cfg, Properties cfg)
                 | None \<Rightarrow> (\<not> IsEnabledByDefault transformer, Map.empty))
            | None \<Rightarrow> (\<not> IsEnabledByDefault transformer, Map.empty)) }"

definition add_hints :: "query \<Rightarrow> query" where
  "add_hints q =
     (case q_OptimizeHints q of
        None \<Rightarrow> q\<lparr>q_OptimizeHints := Some NewQueryExecutionHints\<rparr>
      | Some _ \<Rightarrow> q)"

fun run_optimizations ::
  "quesma_configuration \<Rightarrow> optimize_transformer list \<Rightarrow> query list \<Rightarrow> (optimize_error + query list) option" where
  "run_optimizations conf [] queries = Some (Inr queries)"
| "run_optimizations conf (optimization # optimizations) queries =
     do { (disabled, properties) \<leftarrow> findConfig conf optimization queries;
          if disabled then run_optimizations conf optimizations queries
          else do { result \<leftarrow> TransformQueries optimization queries properties;
                    (case result of
                       Inl err \<Rightarrow> Some (Inl err)
                     | Inr queries' \<Rightarrow> run_optimizations conf optimizations queries') } }"

definition pipeline_Transform ::
  "quesma_configuration \<Rightarrow> optimize_transformer list \<Rightarrow> query list \<Rightarrow> (optimize_error + query list) option" where
  "pipeline_Transform conf optimizations queries =
     (if length queries = 0 then Some (Inr queries)
      else run_optimizations conf optimizations (map add_hints queries))"

section \<open>Query cache\<close>

text \<open>The captured flags: has GROUP BY, has a window function, has a \<open>count\<close>.\<close>

type_synonym cache_flags = "bool \<times> bool \<times> bool"

definition cache_select :: "cache_flags walk \<Rightarrow> select_command \<Rightarrow> cache_flags \<Rightarrow> (expr \<times> cache_flags) option" where
  "cache_select v q s =
     do { let s = (if length (GroupBy q) > 0 then (True, snd s) else s);
          (_, s) \<leftarrow> st_mapM v (Columns q) s;
          (_, s) \<leftarrow> (if FromClause q \<noteq> NilExpr then v (FromClause q) s else Some (NilExpr, s));
          (_, s) \<leftarrow> (if WhereClause q \<noteq> NilExpr then v (WhereClause q) s else Some (NilExpr, s));
          Some (SelectE q, s) }"

definition cache_visitor :: "cache_flags base_visitor" where
  "cache_visitor = NewBaseVisitor\<lparr>
     OverrideVisitFunction := Some (\<lambda>v name args (g, w, c). Some (FunctionExpr name args, (g, w, c \<or> name = ''count''))),
     OverrideVisitSelectCommand := Some cache_select,
     OverrideVisitWindowFunction := Some (\<lambda>v name args ps obs (g, w, c).
        Some (WindowFunction name args ps obs, (g, True, c)))\<rparr>"

definition cache_query :: "query \<Rightarrow> query option" where
  "cache_query q =
     do { (_, (hasGroupBy, hasWindowFunction, hasCount)) \<leftarrow>
            accept cache_visitor (SelectE (q_SelectCommand q)) (False, False, False);
          if hasGroupBy \<or> hasWindowFunction \<or> hasCount then
            do { h \<leftarrow> q_OptimizeHints q;
                 Some (q\<lparr>q_OptimizeHints := Some (add_performed ''cache_queries''
                   (h\<lparr>ClickhouseQuerySettings := (ClickhouseQuerySettings h)(''use_query_cache'' \<mapsto> VBool True)\<rparr>))\<rparr>) }
          else Some q }"

definition cacheQueries :: optimize_transformer where
  "cacheQueries =
     \<lparr>TransformerName = ''cache_queries'', IsEnabledByDefault = False,
      TransformQueries = (\<lambda>queries properties. map_option Inr (opt_mapM cache_query queries))\<rparr>"

section \<open>Materialized view replacement\<close>

record view_rule =
  rule_tableName :: string
  rule_condition :: string
  rule_materializedView :: string

text \<open>\<open>validateWhere\<close>: the captured flags are found OR and found NOT.\<close>

definition validate_prefix ::
  "(bool \<times> bool) walk \<Rightarrow> string \<Rightarrow> expr list \<Rightarrow> bool \<times> bool \<Rightarrow> (expr \<times> (bool \<times> bool)) option" where
  "validate_prefix b op args s =
     (if to_upper op = ''NOT'' then Some (PrefixExpr op args, (fst s, True))
      else do { (_, s) \<leftarrow> VisitChildren b args s; Some (PrefixExpr op args, s) })"

definition validate_infix ::
  "(bool \<times> bool) walk \<Rightarrow> expr \<Rightarrow> string \<Rightarrow> expr \<Rightarrow> bool \<times> bool \<Rightarrow> (expr \<times> (bool \<times> bool)) option" where
  "validate_infix b l op r s =
     (if to_upper op = ''OR'' then Some (InfixExpr l op r, (True, snd s))
      else do { (_, s) \<leftarrow> b l s; (_, s) \<leftarrow> b r s; Some (InfixExpr l op r, s) })"

definition validate_visitor :: "(bool \<times> bool) base_visitor" where
  "validate_visitor = NewBaseVisitor\<lparr>OverrideVisitPrefixExpr := Some validate_prefix,
     OverrideVisitInfix := Some validate_infix\<rparr>"

definition validateWhere :: "expr \<Rightarrow> bool option" where
  "validateWhere e =
     do { (_, (foundOR, foundNOT)) \<leftarrow> accept validate_visitor e (False, False);
          Some (\<not> foundNOT \<and> \<not> foundOR) }"

definition matches :: "view_rule \<Rightarrow> expr \<Rightarrow> bool option" where
  "matches rule e = do { current \<leftarrow> as_string e; Some (rule_condition rule = current) }"

definition applyRule :: "view_rule \<Rightarrow> expr \<Rightarrow> (expr \<times> bool) option" where
  "applyRule rule e =
     do { m \<leftarrow> matches rule e;
          Some (if m then (LiteralExpr (NewLiteral (VString ''TRUE'')), True) else (e, False)) }"

text \<open>
  The comma-ok assertion \<open>left, leftReplaced = e.Left.Accept(b).(model.Expr)\<close> sets the flag
  to whether the visit returned an expression.
\<close>

definition visit_ok :: "bool walk \<Rightarrow> expr \<Rightarrow> bool \<Rightarrow> (expr \<times> bool \<times> bool) option" where
  "visit_ok b e s = do { (x, s) \<leftarrow> b e s; Some (x, x \<noteq> NilExpr, s) }"

definition traverse_infix ::
  "view_rule \<Rightarrow> bool walk \<Rightarrow> expr \<Rightarrow> string \<Rightarrow> expr \<Rightarrow> bool \<Rightarrow> (expr \<times> bool) option" where
  "traverse_infix rule b l op r s =
     (if to_upper op = ''AND'' then
        do { (left, leftReplaced) \<leftarrow> applyRule rule l;
             (right, rightReplaced) \<leftarrow> applyRule rule r;
             (left, leftReplaced, s) \<leftarrow> (if leftReplaced then Some (left, leftReplaced, s) else visit_ok b l s);
             (right, rightReplaced, s) \<leftarrow> (if rightReplaced then Some (right, rightReplaced, s) else visit_ok b r s);
             Some (InfixExpr left op right, s \<or> leftReplaced \<or> rightReplaced) }
      else
        do { (l', s) \<leftarrow> visit_as as_Expr b l s; (r', s) \<leftarrow> visit_as as_Expr b r s;
             Some (InfixExpr l' op r', s) })"

definition traverse_visitor :: "view_rule \<Rightarrow> bool base_visitor" where
  "traverse_visitor rule = NewBaseVisitor\<lparr>OverrideVisitInfix := Some (traverse_infix rule)\<rparr>"

definition traverse :: "view_rule \<Rightarrow> expr \<Rightarrow> (expr \<times> bool) option" where
  "traverse rule e = visit_as as_Expr (accept (traverse_visitor rule)) e False"

text \<open>\<open>applyRule\<close> on the whole clause, then the traversal of an AND tree.\<close>

definition rewrite_where :: "view_rule \<Rightarrow> expr \<Rightarrow> (expr \<times> bool) option" where
  "rewrite_where rule whereClause =
     do { (newWhere, whereReplaced) \<leftarrow> applyRule rule whereClause;
          if whereReplaced then Some (newWhere, whereReplaced)
          else do { valid \<leftarrow> validateWhere whereClause;
                    if valid then traverse rule whereClause else Some (newWhere, whereReplaced) } }"

definition replace_select ::
  "view_rule \<Rightarrow> bool walk \<Rightarrow> select_command \<Rightarrow> bool \<Rightarrow> (expr \<times> bool) option" where
  "replace_select rule v q s =
     do { (namedCTEs, s) \<leftarrow> visit_ctes v (NamedCTEs q) s;
          let rest = (\<lambda>from s.
                do { (where, s) \<leftarrow> visit_clause v (WhereClause q) s;
                     Some (SelectE (NewSelectCommand (Columns q) (GroupBy q) (OrderBy q) from where (LimitBy q)
                       (Limit q) (SampleLimit q) (IsDistinct q) namedCTEs), s) });
          case FromClause q of
            NilExpr \<Rightarrow> rest NilExpr s
          | TableRef t \<Rightarrow>
              if rule_tableName rule = last_name_part (TableName t) then
                do { (newWhere, whereReplaced) \<leftarrow> rewrite_where rule (WhereClause q);
                     if whereReplaced then
                       Some (SelectE (NewSelectCommand (Columns q) (GroupBy q) (OrderBy q)
                         (TableRef (NewTableRef (rule_materializedView rule))) newWhere (LimitBy q)
                         (Limit q) (SampleLimit q) (IsDistinct q) namedCTEs), True)
                     else rest (TableRef t) s }
              else rest (TableRef t) s
          | _ \<Rightarrow> do { (from, s) \<leftarrow> visit_as as_Expr v (FromClause q) s; rest from s } }"

definition replace_visitor :: "view_rule \<Rightarrow> bool base_visitor" where
  "replace_visitor rule = NewBaseVisitor\<lparr>OverrideVisitSelectCommand := Some (replace_select rule)\<rparr>"

definition replace_view :: "view_rule \<Rightarrow> select_command \<Rightarrow> (select_command \<times> bool) option" where
  "replace_view rule q = visit_as as_SelectCommand (accept (replace_visitor rule)) (SelectE q) False"

definition readRule :: "(string \<rightharpoonup> string) \<Rightarrow> view_rule" where
  "readRule properties =
     (let get = (\<lambda>k. case properties k of Some v \<Rightarrow> v | None \<Rightarrow> [])
      in \<lparr>rule_tableName = get ''table'', rule_condition = get ''condition'',
          rule_materializedView = get ''view''\<rparr>)"

text \<open>What the transformers do with the result of their visit.\<close>

definition keep_or_replace :: "string \<Rightarrow> query \<Rightarrow> select_command \<times> bool \<Rightarrow> query option" where
  "keep_or_replace name q res =
     (if snd res then
        do { h \<leftarrow> q_OptimizeHints q;
             Some (q\<lparr>q_SelectCommand := fst res, q_OptimizeHints := Some (add_performed name h)\<rparr>) }
      else Some q)"

definition view_query :: "view_rule \<Rightarrow> query \<Rightarrow> query option" where
  "view_query rule q =
     do { res \<leftarrow> replace_view rule (q_SelectCommand q);
          keep_or_replace ''materialized_view_replace'' q res }"

definition materializedViewReplace :: optimize_transformer where
  "materializedViewReplace =
     \<lparr>TransformerName = ''materialized_view_replace'', IsEnabledByDefault = False,
      TransformQueries = (\<lambda>queries properties.
        map_option Inr (opt_mapM (view_query (readRule properties)) queries))\<rparr>"

section \<open>The contract of a transformer\<close>

text \<open>
  What the pipeline relies on: a transformer keeps the number and order of the queries, their
  tables and their hints, reports no error, and enters at most its own name in the list of
  performed optimizations.  A traced transformer enters it whenever it changes a query.
\<close>

definition performed :: "query \<Rightarrow> string list" where
  "performed q = (case q_OptimizeHints q of Some h \<Rightarrow> OptimizationsPerformed h | None \<Rightarrow> [])"

definition evolves :: "string list \<Rightarrow> query \<Rightarrow> query \<Rightarrow> bool" where
  "evolves names q q' \<longleftrightarrow>
     q_TableName q' = q_TableName q \<and> q_OptimizeHints q' \<noteq> None \<and>
     (\<exists>ns. subseq ns names \<and> performed q' = performed q @ ns)"

definition has_hints :: "query \<Rightarrow> bool" where
  "has_hints q \<longleftrightarrow> q_OptimizeHints q \<noteq> None"

locale optimizer =
  fixes T :: optimize_transformer
  assumes transform_evolves:
    "TransformQueries T queries properties = Some result \<Longrightarrow> list_all has_hints queries \<Longrightarrow>
     \<exists>queries'. result = Inr queries' \<and> list_all2 (evolves [TransformerName T]) queries queries'"

locale traced_optimizer = optimizer +
  assumes transform_traced:
    "TransformQueries T queries properties = Some (Inr queries') \<Longrightarrow>
     list_all2 (\<lambda>q q'. performed q' = performed q \<longrightarrow> q' = q) queries queries'"

context optimizer begin

lemma transform_no_error: "list_all has_hints queries \<Longrightarrow> TransformQueries T queries properties \<noteq> Some (Inl e)"
  using transform_evolves by blast

lemma transform_keeps_tables:
  assumes "TransformQueries T queries properties = Some (Inr queries')" and "list_all has_hints queries"
  shows "map q_TableName queries' = map q_TableName queries \<and> list_all has_hints queries'"
proof -
  have "list_all2 (evolves [TransformerName T]) queries queries'"
    using transform_evolves [OF assms] by blast
  then show ?thesis by (induction rule: list_all2_induct) (auto simp: evolves_def has_hints_def)
qed

end

context traced_optimizer begin

lemma unperformed_unchanged:
  assumes "TransformQueries T queries properties = Some (Inr queries')"
    and "map performed queries' = map performed queries"
  shows "queries' = queries"
proof -
  have "list_all2 (\<lambda>q q'. performed q' = performed q \<longrightarrow> q' = q) queries queries'"
    by (rule transform_traced [OF assms(1)])
  then show ?thesis using assms(2) by (induction rule: list_all2_induct) auto
qed

end

text \<open>Two transformers of one query at a time.\<close>

lemma opt_mapM_list_all2:
  "opt_mapM f xs = Some ys \<Longrightarrow> (\<And>x y. x \<in> set xs \<Longrightarrow> f x = Some y \<Longrightarrow> P x y) \<Longrightarrow> list_all2 P xs ys"
  by (induction xs arbitrary: ys) (auto simp: bind_eq_Some_conv)

lemma evolves_refl: "has_hints q \<Longrightarrow> evolves names q q"
  by (auto simp: evolves_def has_hints_def)

lemma evolves_add:
  assumes "q_OptimizeHints q = Some h" and "OptimizationsPerformed h' = OptimizationsPerformed h"
    and "q_OptimizeHints q' = Some (add_performed name h')" and "q_TableName q' = q_TableName q"
  shows "evolves [name] q q'"
  using assms by (auto simp: evolves_def performed_def add_performed_def intro!: exI [of _ "[name]"])

lemma optimizer_per_query:
  assumes T: "TransformQueries T = (\<lambda>queries properties. map_option Inr (opt_mapM (f properties) queries))"
    and f: "\<And>p q q'. f p q = Some q' \<Longrightarrow> has_hints q \<Longrightarrow> evolves [TransformerName T] q q'"
  shows "optimizer T"
proof
  fix queries properties result
  assume "TransformQueries T queries properties = Some result" "list_all has_hints queries"
  then obtain qs where "opt_mapM (f properties) queries = Some qs" "result = Inr qs" by (auto simp: T)
  moreover from this(1) have "list_all2 (evolves [TransformerName T]) queries qs"
    by (rule opt_mapM_list_all2) (use f \<open>list_all has_hints queries\<close> in \<open>auto simp: list_all_iff\<close>)
  ultimately show "\<exists>queries'. result = Inr queries' \<and> list_all2 (evolves [TransformerName T]) queries queries'"
    by blast
qed

lemma traced_per_query:
  assumes T: "TransformQueries T = (\<lambda>queries properties. map_option Inr (opt_mapM (f properties) queries))"
    and f: "\<And>p q q'. f p q = Some q' \<Longrightarrow> has_hints q \<Longrightarrow> evolves [TransformerName T] q q'"
    and u: "\<And>p q q'. f p q = Some q' \<Longrightarrow> performed q' = performed q \<Longrightarrow> q' = q"
  shows "traced_optimizer T"
proof -
  have "optimizer T" by (rule optimizer_per_query [OF T f])
  moreover have "traced_optimizer_axioms T"
    by unfold_locales (auto simp: T intro!: opt_mapM_list_all2 u)
  ultimately show ?thesis by (rule traced_optimizer.intro)
qed

lemma cache_query_evolves:
  assumes c: "cache_query q = Some q'" and h: "has_hints q"
  shows "evolves [''cache_queries''] q q'"
proof -
  obtain hh where hh: "q_OptimizeHints q = Some hh" using h by (auto simp: has_hints_def)
  let ?h = "hh\<lparr>ClickhouseQuerySettings := (ClickhouseQuerySettings hh)(''use_query_cache'' \<mapsto> VBool True)\<rparr>"
  have "q' = q \<or> q_OptimizeHints q' = Some (add_performed ''cache_queries'' ?h) \<and> q_TableName q' = q_TableName q"
    using c hh by (auto simp: cache_query_def bind_eq_Some_conv split: if_splits)
  then show ?thesis using evolves_refl [OF h] evolves_add [OF hh, of ?h q'] by auto
qed

lemma keep_or_replace_evolves: "keep_or_replace name q res = Some q' \<Longrightarrow> has_hints q \<Longrightarrow> evolves [name] q q'"
  by (auto simp: keep_or_replace_def bind_eq_Some_conv intro: evolves_refl evolves_add split: if_splits)

lemma keep_or_replace_traced:
  "keep_or_replace name q res = Some q' \<Longrightarrow> performed q' = performed q \<Longrightarrow> q' = q"
  by (auto simp: keep_or_replace_def bind_eq_Some_conv performed_def add_performed_def split: if_splits)

lemma cache_query_traced: "cache_query q = Some q' \<Longrightarrow> performed q' = performed q \<Longrightarrow> q' = q"
  by (auto simp: cache_query_def bind_eq_Some_conv performed_def add_performed_def split: if_splits)

interpretation cache: traced_optimizer cacheQueries
  by (rule traced_per_query [where f = "\<lambda>_. cache_query"])
    (auto simp: cacheQueries_def cache_query_evolves cache_query_traced)

interpretation view: traced_optimizer materializedViewReplace
  by (rule traced_per_query [where f = "\<lambda>p. view_query (readRule p)"])
    (auto simp: materializedViewReplace_def view_query_def bind_eq_Some_conv
      keep_or_replace_evolves keep_or_replace_traced)

text \<open>The pipeline over transformers that keep the contract.\<close>

definition enabled_in :: "quesma_configuration \<Rightarrow> string \<Rightarrow> optimize_transformer \<Rightarrow> bool" where
  "enabled_in conf indexName T =
     (\<not> (case map_of (IndexConfig conf) indexName of
           Some cfg \<Rightarrow> (case Optimizers cfg (TransformerName T) of
                Some c \<Rightarrow> Disabled c | None \<Rightarrow> \<not> IsEnabledByDefault T)
         | None \<Rightarrow> \<not> IsEnabledByDefault T))"

lemma findConfig_enabled:
  "getIndexName qs = Some n \<Longrightarrow> \<exists>props. findConfig conf T qs = Some (\<not> enabled_in conf n T, props)"
  by (auto simp: findConfig_def enabled_in_def split: option.splits)

lemma evolves_trans:
  assumes "evolves ns q1 q2" and "evolves ms q2 q3"
  shows "evolves (ns @ ms) q1 q3"
proof -
  obtain a b where "subseq a ns" "performed q2 = performed q1 @ a" "subseq b ms" "performed q3 = performed q2 @ b"
    using assms by (auto simp: evolves_def)
  then show ?thesis using assms by (auto simp: evolves_def list_emb_append_mono intro!: exI [of _ "a @ b"])
qed

lemma run_optimizations_evolves:
  assumes "list_all optimizer ts" and "run_optimizations conf ts qs = Some result"
    and "list_all has_hints qs" and "getIndexName qs = Some n"
  shows "\<exists>qs'. result = Inr qs' \<and>
           list_all2 (evolves (map TransformerName (filter (enabled_in conf n) ts))) qs qs'"
  using assms
proof (induction ts arbitrary: qs)
  case Nil
  have "list_all2 (evolves []) qs qs"
    using Nil.prems(3) by (auto simp: list_all2_same list_all_iff evolves_refl)
  then show ?case using Nil by auto
next
  case (Cons T ts)
  obtain props where fc: "findConfig conf T qs = Some (\<not> enabled_in conf n T, props)"
    using findConfig_enabled [OF Cons.prems(4)] by blast
  show ?case
  proof (cases "enabled_in conf n T")
    case False
    then show ?thesis using Cons.IH [of qs] Cons.prems fc by auto
  next
    case True
    then obtain r where r: "TransformQueries T qs props = Some r"
      and more: "(case r of Inl err \<Rightarrow> Some (Inl err) | Inr qs' \<Rightarrow> run_optimizations conf ts qs') = Some result"
      using Cons.prems(2) fc by (auto simp: bind_eq_Some_conv)
    have T: "optimizer T" using Cons.prems(1) by simp
    from optimizer.transform_evolves [OF T r Cons.prems(3)] obtain qs1 where
      qs1: "r = Inr qs1" "list_all2 (evolves [TransformerName T]) qs qs1" by blast
    have keep: "map q_TableName qs1 = map q_TableName qs" "list_all has_hints qs1"
      using optimizer.transform_keeps_tables [OF T _ Cons.prems(3)] r qs1(1) by auto
    then have "getIndexName qs1 = Some n"
      using Cons.prems(4) by (cases qs; cases qs1) (auto simp: getIndexName_def)
    with Cons.IH [of qs1] Cons.prems(1) more qs1(1) keep(2) obtain qs' where
      "result = Inr qs'" "list_all2 (evolves (map TransformerName (filter (enabled_in conf n) ts))) qs1 qs'"
      by auto
    moreover have "list_all2 (evolves ([TransformerName T] @ map TransformerName (filter (enabled_in conf n) ts))) qs qs'"
      by (rule list_all2_trans [OF _ qs1(2) \<open>list_all2 _ qs1 qs'\<close>]) (rule evolves_trans)
    ultimately show ?thesis using True by auto
  qed
qed

section \<open>What the cache visitor looks at\<close>

text \<open>
  The nodes it visits: it does not descend into calls, window functions and common table
  expressions, nor into the GROUP BY, ORDER BY and LIMIT BY lists of a SELECT.
\<close>

definition select_scan :: "select_command \<Rightarrow> expr list" where
  "select_scan q = Columns q @ (if FromClause q = NilExpr then [] else [FromClause q])
     @ (if WhereClause q = NilExpr then [] else [WhereClause q])"

fun cache_children :: "expr \<Rightarrow> expr list" where
  "cache_children (FunctionExpr name args) = []"
| "cache_children (WindowFunction name args ps obs) = []"
| "cache_children (SelectE q) = select_scan q"
| "cache_children e = children e"

lemma cache_children_sub: "c \<in> set (cache_children e) \<Longrightarrow> c \<in> set (children e)"
  by (cases e) (auto simp: select_scan_def)

function cache_nodes :: "expr \<Rightarrow> expr list" where
  "cache_nodes e = e # concat (map cache_nodes (cache_children e))"
  by pat_completeness auto
termination
  by (relation "measure size") (auto intro: size_children cache_children_sub)

declare cache_nodes.simps [simp del]

fun groups :: "expr \<Rightarrow> bool" where
  "groups (SelectE q) = (GroupBy q \<noteq> [])"
| "groups e = False"

fun is_window :: "expr \<Rightarrow> bool" where
  "is_window (WindowFunction name args ps obs) = True"
| "is_window e = False"

fun is_count :: "expr \<Rightarrow> bool" where
  "is_count (FunctionExpr name args) = (name = ''count'')"
| "is_count e = False"

definition mark :: "expr \<Rightarrow> cache_flags \<Rightarrow> cache_flags" where
  "mark e s = (fst s \<or> groups e, fst (snd s) \<or> is_window e, snd (snd s) \<or> is_count e)"

lemma fold_mark:
  "fold mark es (g, w, c) = (g \<or> list_ex groups es, w \<or> list_ex is_window es, c \<or> list_ex is_count es)"
  by (induction es arbitrary: g w c) (auto simp: mark_def)

lemma fold_concat_map: "fold (\<lambda>x. fold f (g x)) xs s = fold f (concat (map g xs)) s"
  by (induction xs arbitrary: s) auto

definition cache_walked :: "expr \<Rightarrow> bool" where
  "cache_walked e \<longleftrightarrow> (\<forall>s. accept cache_visitor e s = Some (e, fold mark (cache_nodes e) s))"

lemma cache_select_walk:
  assumes "\<And>c t. c \<in> set (select_scan q) \<Longrightarrow> v c t = Some (c, fold mark (cache_nodes c) t)"
  shows "cache_select v q s = Some (SelectE q, fold mark (cache_nodes (SelectE q)) s)"
proof -
  have cols: "st_mapM v (Columns q) t = Some (Columns q, fold (\<lambda>c. fold mark (cache_nodes c)) (Columns q) t)" for t
    by (rule st_mapM_fold) (simp add: assms select_scan_def)
  have "FromClause q \<noteq> NilExpr \<Longrightarrow> v (FromClause q) t = Some (FromClause q, fold mark (cache_nodes (FromClause q)) t)"
    and "WhereClause q \<noteq> NilExpr \<Longrightarrow> v (WhereClause q) t = Some (WhereClause q, fold mark (cache_nodes (WhereClause q)) t)"
    for t by (simp_all add: assms select_scan_def)
  moreover have "(if length (GroupBy q) > 0 then (True, snd s) else s) = mark (SelectE q) s"
    by (cases s) (auto simp: mark_def)
  ultimately show ?thesis
    unfolding cache_select_def Let_def
    by (simp add: cols cache_nodes.simps [of "SelectE q"] select_scan_def fold_concat_map)
qed

lemma cache_visitor_walk: "wf_expr e \<Longrightarrow> cache_walked e"
proof (induction e rule: accept_induct)
  case (node e)
  have IH: "accept cache_visitor c t = Some (c, fold mark (cache_nodes c) t)" if "c \<in> set (children e)" for c t
    using node.IH [OF that] wf_expr_children [OF node.prems that] unfolding cache_walked_def by blast
  have other: "cache_walked e"
    if "cache_children e = children e" "\<And>w. override_of cache_visitor w e = None" "\<And>s. mark e s = s"
  proof -
    have "visit_default (accept cache_visitor) e s =
        Some (e, fold (\<lambda>c. fold mark (cache_nodes c)) (children e) s)" for s
      using node.prems IH by (intro visit_default_fold) (auto simp: wf_expr.simps [of e] list_all_iff)
    then show ?thesis
      unfolding cache_walked_def
      by (simp add: accept_no_override [OF that(2)] cache_nodes.simps [of e] that(1,3) fold_concat_map)
  qed
  show ?case
  proof (cases "\<exists>q. e = SelectE q")
    case True
    then obtain q where q: "e = SelectE q" by blast
    have "cache_select (\<lambda>e' s'. if size e' < size e then accept cache_visitor e' s' else None) q s =
        Some (SelectE q, fold mark (cache_nodes (SelectE q)) s)" for s
    proof (rule cache_select_walk)
      fix c t assume "c \<in> set (select_scan q)"
      then have "c \<in> set (children e)" using q by (auto simp: select_scan_def)
      with IH size_children show
        "(if size c < size e then accept cache_visitor c t else None) = Some (c, fold mark (cache_nodes c) t)"
        by simp
    qed
    then show ?thesis
      unfolding cache_walked_def by (subst accept_eq) (simp add: q cache_visitor_def)
  next
    case sel: False
    show ?thesis
    proof (cases e)
      case (FunctionExpr name args)
      then show ?thesis
        unfolding cache_walked_def
        by (subst accept_eq) (auto simp: cache_visitor_def cache_nodes.simps [of "FunctionExpr name args"] mark_def)
    next
      case (WindowFunction name args ps obs)
      then show ?thesis
        unfolding cache_walked_def
        by (subst accept_eq) (auto simp: cache_visitor_def cache_nodes.simps [of "WindowFunction name args ps obs"] mark_def)
    qed (use sel other in \<open>auto simp: cache_visitor_def NewBaseVisitor_def mark_def\<close>)
  qed
qed

definition uses_cache :: "select_command \<Rightarrow> bool" where
  "uses_cache q \<longleftrightarrow> list_ex (\<lambda>n. groups n \<or> is_window n \<or> is_count n) (cache_nodes (SelectE q))"

lemma cache_query_result:
  assumes "wf_expr (SelectE (q_SelectCommand q))" and "q_OptimizeHints q = Some h"
  shows "cache_query q = Some (if uses_cache (q_SelectCommand q)
     then q\<lparr>q_OptimizeHints := Some (add_performed ''cache_queries''
            (h\<lparr>ClickhouseQuerySettings := (ClickhouseQuerySettings h)(''use_query_cache'' \<mapsto> VBool True)\<rparr>))\<rparr>
     else q)"
proof -
  have "accept cache_visitor (SelectE (q_SelectCommand q)) s =
      Some (SelectE (q_SelectCommand q), fold mark (cache_nodes (SelectE (q_SelectCommand q))) s)" for s
    using cache_visitor_walk [OF assms(1)] unfolding cache_walked_def by blast
  moreover have "uses_cache c \<longleftrightarrow> list_ex groups (cache_nodes (SelectE c)) \<or>
      list_ex is_window (cache_nodes (SelectE c)) \<or> list_ex is_count (cache_nodes (SelectE c))" for c
    unfolding uses_cache_def list_ex_iff by blast
  ultimately show ?thesis by (simp add: cache_query_def fold_mark assms(2))
qed

section \<open>What the view replacement does to a conjunction\<close>

text \<open>
  Trees without a conjunction, and trees without a negation or a disjunction; \<open>and_tree\<close>: a
  conjunction of trees without one.
\<close>

fun is_and :: "expr \<Rightarrow> bool" where
  "is_and (InfixExpr l op r) = (to_upper op = ''AND'')"
| "is_and e = False"

fun is_or_not :: "expr \<Rightarrow> bool" where
  "is_or_not (InfixExpr l op r) = (to_upper op = ''OR'')"
| "is_or_not (PrefixExpr op args) = (to_upper op = ''NOT'')"
| "is_or_not e = False"

function node_free :: "(expr \<Rightarrow> bool) \<Rightarrow> expr \<Rightarrow> bool" where
  "node_free p e \<longleftrightarrow> \<not> p e \<and> list_all (node_free p) (children e)"
  by pat_completeness auto
termination
  by (relation "measure (\<lambda>(p, e). size e)") (auto simp: size_children)

declare node_free.simps [simp del]

lemma node_free_children: "node_free p e \<Longrightarrow> c \<in> set (children e) \<Longrightarrow> node_free p c"
  by (simp add: node_free.simps [of p e] list_all_iff)

fun and_tree :: "expr \<Rightarrow> bool" where
  "and_tree (InfixExpr l op r) =
     (if to_upper op = ''AND'' then op = ''AND'' \<and> and_tree l \<and> and_tree r
      else wf_expr (InfixExpr l op r) \<and> node_free is_and (InfixExpr l op r))"
| "and_tree e = (wf_expr e \<and> node_free is_and e)"

text \<open>A visitor that rebuilds every node on the way leaves the tree and the flag alone.\<close>

lemma accept_copies:
  assumes v: "\<And>e s. \<lbrakk>wf_expr e; node_free p e; \<And>c t. c \<in> set (children e) \<Longrightarrow> accept v c t = Some (c, t)\<rbrakk> \<Longrightarrow>
      (\<forall>w. override_of v w e = None) \<or> accept v e s = Some (e, s)"
  shows "wf_expr e \<Longrightarrow> node_free p e \<Longrightarrow> accept v e s = Some (e, s)"
proof (induction e arbitrary: s rule: accept_induct)
  case (node e)
  have IH: "accept v c t = Some (c, t)" if "c \<in> set (children e)" for c t
    using node.IH [OF that] wf_expr_children [OF node.prems(1) that] node_free_children [OF node.prems(2) that]
    by blast
  show ?case
  proof (cases "\<forall>w. override_of v w e = None")
    case True
    have "visit_default (accept v) e s = Some (e, fold (\<lambda>_ s. s) (children e) s)"
      using node.prems IH by (intro visit_default_fold) (auto simp: wf_expr.simps [of e] list_all_iff)
    then show ?thesis using True by (simp add: accept_no_override)
  next
    case False
    then show ?thesis using v [OF node.prems IH] by blast
  qed
qed

lemma accept_traverse_infix:
  "accept (traverse_visitor rule) (InfixExpr l op r) s =
   traverse_infix rule (accept (traverse_visitor rule)) l op r s"
  by (subst accept_infix [where f = "traverse_infix rule"])
    (simp_all add: traverse_visitor_def traverse_infix_def visit_ok_def visit_as_def cong: if_cong)

lemma accept_traverse_free:
  "wf_expr e \<Longrightarrow> node_free is_and e \<Longrightarrow> accept (traverse_visitor rule) e s = Some (e, s)"
proof (rule accept_copies [where p = is_and])
  fix e s
  assume e: "wf_expr e" "node_free is_and e"
    and IH: "\<And>c t. c \<in> set (children e) \<Longrightarrow> accept (traverse_visitor rule) c t = Some (c, t)"
  show "(\<forall>w. override_of (traverse_visitor rule) w e = None) \<or> accept (traverse_visitor rule) e s = Some (e, s)"
  proof (cases "\<exists>l op r. e = InfixExpr l op r")
    case True
    then obtain l op r where i: "e = InfixExpr l op r" by blast
    then have "to_upper op \<noteq> ''AND''" using e(2) by (simp add: node_free.simps [of is_and "InfixExpr l op r"])
    then show ?thesis
      using IH e(1) i by (auto simp: accept_traverse_infix traverse_infix_def visit_as_def as_Expr_def)
  next
    case False
    then show ?thesis by (cases e) (auto simp: traverse_visitor_def NewBaseVisitor_def)
  qed
qed

lemma accept_validate_infix:
  "accept validate_visitor (InfixExpr l op r) s = validate_infix (accept validate_visitor) l op r s"
  by (subst accept_infix [where f = validate_infix])
    (simp_all add: validate_visitor_def validate_infix_def)

lemma accept_validate_free:
  "wf_expr e \<Longrightarrow> node_free is_or_not e \<Longrightarrow> accept validate_visitor e s = Some (e, s)"
proof (rule accept_copies [where p = is_or_not])
  fix e s
  assume e: "wf_expr e" "node_free is_or_not e"
    and IH: "\<And>c t. c \<in> set (children e) \<Longrightarrow> accept validate_visitor c t = Some (c, t)"
  have top: "\<not> is_or_not e" using e(2) by (simp add: node_free.simps [of is_or_not e])
  show "(\<forall>w. override_of validate_visitor w e = None) \<or> accept validate_visitor e s = Some (e, s)"
  proof (cases e)
    case (InfixExpr l op r)
    then show ?thesis using IH top by (simp add: accept_validate_infix validate_infix_def)
  next
    case (PrefixExpr op args)
    have "VisitChildren (\<lambda>e' s'. if size e' < size e then accept validate_visitor e' s' else None) args t = Some (args, t)" for t
    proof -
      have "filter (\<lambda>a. a \<noteq> NilExpr) args = args"
        using e(1) PrefixExpr by (auto simp: filter_id_conv list_all_iff)
      moreover have "st_mapM (visit_as as_Expr (\<lambda>e' s'. if size e' < size e then accept validate_visitor e' s' else None)) args t =
          Some (args, fold (\<lambda>_ s. s) args t)"
      proof (rule st_mapM_fold)
        fix x s assume "x \<in> set args"
        then have x: "x \<in> set (children e)" "wf_expr x" using e(1) PrefixExpr by (auto simp: list_all_iff)
        then show "visit_as as_Expr (\<lambda>e' s'. if size e' < size e then accept validate_visitor e' s' else None) x s = Some (x, s)"
          using IH [OF x(1)] size_children [OF x(1)] by (auto simp: visit_as_def as_Expr_def)
      qed
      ultimately show ?thesis by (simp add: VisitChildren_def)
    qed
    then show ?thesis
      using top PrefixExpr by (subst accept_eq) (simp add: validate_visitor_def validate_prefix_def)
  qed (auto simp: validate_visitor_def NewBaseVisitor_def)
qed

lemma validateWhere_free: "wf_expr e \<Longrightarrow> node_free is_or_not e \<Longrightarrow> validateWhere e = Some True"
  by (simp add: validateWhere_def accept_validate_free)

text \<open>A rule matches an expression that is rendered as its condition.\<close>

definition matched :: "view_rule \<Rightarrow> expr \<Rightarrow> bool" where
  "matched rule e \<longleftrightarrow> as_string e = Some (rule_condition rule)"

definition TRUE_literal :: expr where
  "TRUE_literal = LiteralExpr (NewLiteral (VString ''TRUE''))"

lemma applyRule_wf: "wf_expr e \<Longrightarrow> applyRule rule e = Some (if matched rule e then (TRUE_literal, True) else (e, False))"
  using render_not_None [of e]
  by (auto simp: applyRule_def matches_def matched_def TRUE_literal_def as_string.simps [of e])

fun subst_view :: "view_rule \<Rightarrow> expr \<Rightarrow> expr" where
  "subst_view rule (InfixExpr l op r) =
     (if to_upper op = ''AND'' then
        InfixExpr (if matched rule l then TRUE_literal else subst_view rule l) op
          (if matched rule r then TRUE_literal else subst_view rule r)
      else InfixExpr l op r)"
| "subst_view rule e = e"

fun and_parts :: "expr \<Rightarrow> expr list" where
  "and_parts (InfixExpr l op r) =
     (if to_upper op = ''AND'' then l # r # and_parts l @ and_parts r else [])"
| "and_parts e = []"

lemma and_tree_wf: "and_tree e \<Longrightarrow> wf_expr e"
  by (induction e rule: and_tree.induct) (auto split: if_splits)

lemma subst_view_not_nil: "wf_expr e \<Longrightarrow> subst_view rule e \<noteq> NilExpr"
  by (cases e) auto

text \<open>The flag becomes true at every conjunction, whether or not a conjunct matched.\<close>

lemma accept_traverse:
  "and_tree e \<Longrightarrow> accept (traverse_visitor rule) e s = Some (subst_view rule e, s \<or> is_and e)"
proof (induction e arbitrary: s rule: and_tree.induct)
  case (1 l op r)
  show ?case
  proof (cases "to_upper op = ''AND''")
    case True
    then have lr: "and_tree l" "and_tree r" "wf_expr l" "wf_expr r" using "1.prems" by (auto dest: and_tree_wf)
    show ?thesis
      using "1.IH"(1) [OF True lr(1)] "1.IH"(2) [OF True lr(2)] lr True
      by (auto simp: accept_traverse_infix traverse_infix_def applyRule_wf visit_ok_def subst_view_not_nil)
  next
    case False
    then have "wf_expr (InfixExpr l op r)" "node_free is_and (InfixExpr l op r)" using "1.prems" by auto
    from accept_traverse_free [OF this] False show ?thesis by simp
  qed
qed (simp_all add: accept_traverse_free)

lemma rewrite_where_and_tree:
  assumes "and_tree e" and "node_free is_or_not e"
  shows "rewrite_where rule e =
     Some (if matched rule e then (TRUE_literal, True) else (subst_view rule e, is_and e))"
proof -
  have wf: "wf_expr e" using and_tree_wf [OF assms(1)] .
  have "traverse rule e = Some (subst_view rule e, is_and e)"
    using accept_traverse [OF assms(1)] subst_view_not_nil [OF wf]
    by (simp add: traverse_def visit_as_def as_Expr_def)
  then show ?thesis
    using wf by (simp add: rewrite_where_def applyRule_wf validateWhere_free assms(2))
qed

text \<open>Putting TRUE for what holds changes no truth value.\<close>

lemma holds_TRUE [simp]: "holds \<rho> TRUE_literal"
  by (simp add: TRUE_literal_def NewLiteral_def)

lemma holds_subst_view:
  assumes "\<And>c. matched rule c \<Longrightarrow> holds \<rho> c"
  shows "and_tree e \<Longrightarrow> holds \<rho> (subst_view rule e) = holds \<rho> e"
  by (induction e rule: and_tree.induct) (auto dest: assms split: if_splits)

text \<open>The clause and the conjuncts the traversal compares with the condition, at any depth.\<close>

definition conjuncts :: "expr \<Rightarrow> expr list" where
  "conjuncts e = e # and_parts e"

lemma holds_and_parts: "and_tree e \<Longrightarrow> holds \<rho> e \<Longrightarrow> c \<in> set (and_parts e) \<Longrightarrow> holds \<rho> c"
  by (induction e rule: and_tree.induct) (auto split: if_splits)

lemma and_parts_is_and: "c \<in> set (and_parts e) \<Longrightarrow> is_and e"
  by (cases e) (auto split: if_splits)

lemma subst_view_unmatched: "list_all (\<lambda>c. \<not> matched rule c) (and_parts e) \<Longrightarrow> subst_view rule e = e"
  by (induction e rule: and_parts.induct) (auto split: if_splits)

text \<open>A SELECT from one table without common table expressions.\<close>

lemma replace_view_table:
  assumes "FromClause q = TableRef t" and "NamedCTEs q = []"
    and "rule_tableName rule = last_name_part (TableName t)"
    and "rewrite_where rule (WhereClause q) = Some (w, True)"
  shows "replace_view rule q = Some (NewSelectCommand (Columns q) (GroupBy q) (OrderBy q)
     (TableRef (NewTableRef (rule_materializedView rule))) w (LimitBy q) (Limit q) (SampleLimit q)
     (IsDistinct q) [], True)"
proof -
  have "replace_select rule v q False = Some (SelectE (NewSelectCommand (Columns q) (GroupBy q) (OrderBy q)
     (TableRef (NewTableRef (rule_materializedView rule))) w (LimitBy q) (Limit q) (SampleLimit q)
     (IsDistinct q) []), True)" for v
    by (simp add: replace_select_def assms visit_ctes_def Let_def)
  then show ?thesis
    unfolding replace_view_def visit_as_def
    by (subst accept_eq) (simp add: replace_visitor_def as_SelectCommand_def)
qed

section \<open>Properties\<close>

definition sample_rule :: view_rule where
  "sample_rule = \<lparr>rule_tableName = ''logs'', rule_condition = ''status=1'', rule_materializedView = ''logs_view''\<rparr>"

definition col_eq :: "string \<Rightarrow> int \<Rightarrow> expr" where
  "col_eq c n = InfixExpr (ColumnRef (NewColumnRef c)) ''='' (LiteralExpr (NewLiteral (VInt KInt64 n)))"

definition select_where :: "expr \<Rightarrow> select_command" where
  "select_where w = SelectCommand False [LiteralExpr NewWildcardExpr] (TableRef (NewTableRef ''logs'')) w
     [] [] [] 0 0 []"

lemma sample_and_trees [simp]:
  "wf_expr (col_eq c n)" "node_free is_and (col_eq c n)" "node_free is_or_not (col_eq c n)"
  "and_tree (col_eq c n)" "and_parts (col_eq c n) = []"
  "and_tree (InfixExpr (col_eq c n) ''AND'' (col_eq d m))"
  "node_free is_or_not (InfixExpr (col_eq c n) ''AND'' (col_eq d m))"
  by (simp_all add: col_eq_def node_free.simps to_upper_def upper_char_def)

text \<open>
  The query cache is asked for exactly when the SELECT, or one reached from it through its
  columns, FROM and WHERE, has a GROUP BY, a window function or a \<open>count\<close>: then the setting
  \<open>use_query_cache\<close> is added to the hints and the optimization recorded, otherwise the query is
  left as it is.
\<close>
lemma cache_hint_exact:
  assumes "wf_expr (SelectE (q_SelectCommand q))" and "q_OptimizeHints q = Some h"
  shows "cache_query q = Some (if uses_cache (q_SelectCommand q)
     then q\<lparr>q_OptimizeHints := Some (add_performed ''cache_queries''
            (h\<lparr>ClickhouseQuerySettings := (ClickhouseQuerySettings h)(''use_query_cache'' \<mapsto> VBool True)\<rparr>))\<rparr>
     else q)"
  using assms by (rule cache_query_result)

lemma cache_hint_exact_example:
  "cache_query \<lparr>q_SelectCommand = select_where (col_eq ''status'' 1),
     q_OptimizeHints = Some NewQueryExecutionHints, q_TableName = ''logs''\<rparr> =
   Some \<lparr>q_SelectCommand = select_where (col_eq ''status'' 1),
     q_OptimizeHints = Some NewQueryExecutionHints, q_TableName = ''logs''\<rparr>"
  by (subst cache_hint_exact)
    (simp_all add: select_where_def wf_expr_SelectE uses_cache_def cache_nodes.simps select_scan_def col_eq_def)

text \<open>
  C26: Where the rule's condition is asked for, reading from the materialized view finds the same
  rows.  If the WHERE clause is a conjunction without OR and NOT, and the clause or one of its
  conjuncts, at any depth, is the rule's condition, then the table is replaced by the view, the other
  clauses of the SELECT are kept, and a row satisfies the old clause exactly if it is in the view,
  that is, satisfies the condition, and satisfies the new clause.
\<close>
theorem view_rewrite_sound:
  assumes "FromClause q = TableRef t" and "NamedCTEs q = []"
    and "rule_tableName rule = last_name_part (TableName t)"
    and "and_tree (WhereClause q)" and "node_free is_or_not (WhereClause q)"
    and "list_ex (matched rule) (conjuncts (WhereClause q))"
  shows "\<exists>w. replace_view rule q = Some (NewSelectCommand (Columns q) (GroupBy q) (OrderBy q)
           (TableRef (NewTableRef (rule_materializedView rule))) w (LimitBy q) (Limit q) (SampleLimit q)
           (IsDistinct q) [], True)
     \<and> (\<forall>\<rho> in_view. (\<forall>c. matched rule c \<longrightarrow> holds \<rho> c = in_view) \<longrightarrow>
          (holds \<rho> (WhereClause q) \<longleftrightarrow> in_view \<and> holds \<rho> w))"
proof (cases "matched rule (WhereClause q)")
  case True
  then show ?thesis
    using replace_view_table [OF assms(1-3)] rewrite_where_and_tree [OF assms(4,5)]
    by (intro exI [of _ TRUE_literal]) simp
next
  case False
  with assms(6) obtain c where c: "c \<in> set (and_parts (WhereClause q))" "matched rule c"
    by (auto simp: conjuncts_def list_ex_iff)
  have "holds \<rho> (WhereClause q) \<longleftrightarrow> in_view \<and> holds \<rho> (subst_view rule (WhereClause q))"
    if same: "\<forall>c. matched rule c \<longrightarrow> holds \<rho> c = in_view" for \<rho> in_view
  proof (cases in_view)
    case True
    with same holds_subst_view [OF _ assms(4), of rule \<rho>] show ?thesis by simp
  next
    case False
    with same c holds_and_parts [OF assms(4)] show ?thesis by blast
  qed
  with False c show ?thesis
    using replace_view_table [OF assms(1-3)] rewrite_where_and_tree [OF assms(4,5)] and_parts_is_and
    by (intro exI [of _ "subst_view rule (WhereClause q)"]) simp
qed

text \<open>A rule for the status, and rows by whether they have the status and the day.\<close>

definition status_condition :: string where
  "status_condition = [CHR 0x22] @ ''status'' @ [CHR 0x22] @ ''=1''"

definition day_condition :: string where
  "day_condition = [CHR 0x22] @ ''day'' @ [CHR 0x22] @ ''=2''"

definition status_rule :: view_rule where
  "status_rule = sample_rule\<lparr>rule_condition := status_condition\<rparr>"

definition status_row :: "bool \<Rightarrow> bool \<Rightarrow> expr \<Rightarrow> bool" where
  "status_row status day e \<longleftrightarrow>
     as_string e = Some status_condition \<and> status \<or> as_string e = Some day_condition \<and> day"

text \<open>What is rendered as the condition is no conjunction or disjunction: these are in brackets.\<close>

lemma matched_status_row:
  assumes "matched status_rule e"
  shows "holds (status_row status day) e = status"
proof -
  have e: "as_string e = Some status_condition" using assms by (simp add: matched_def status_rule_def)
  have row: "status_row status day e = status"
    using e by (simp add: status_row_def status_condition_def day_condition_def)
  have plain: "\<not> (\<exists>l r. e = InfixExpr l ''AND'' r \<or> e = InfixExpr l ''OR'' r)"
    using e by (auto simp: as_string.simps render.simps render_infix_def status_condition_def has_prefix_def
        split: Option.bind_split_asm)
  have "e \<noteq> LiteralExpr l" if "Value l = VString ''TRUE''" for l
    using e that by (auto simp: as_string.simps render.simps render_literal_def status_condition_def SingleQuote_def
        escapeStringNormal_def replace_char_def split: if_splits escape_type.splits)
  then show ?thesis using row plain by (cases e) auto
qed

theorem view_rewrite_sound_witness:
  "\<exists>w. replace_view status_rule (select_where (InfixExpr (col_eq ''status'' 1) ''AND'' (col_eq ''day'' 2))) =
     Some (NewSelectCommand [LiteralExpr NewWildcardExpr] [] []
       (TableRef (NewTableRef ''logs_view'')) w [] 0 0 False [], True)
     \<and> (\<forall>status day. (status \<and> day) = (status \<and> holds (status_row status day) w))"
proof -
  let ?w = "InfixExpr (col_eq ''status'' 1) ''AND'' (col_eq ''day'' 2)"
  let ?q = "select_where ?w"
  have s: "as_string (col_eq ''status'' 1) = Some status_condition"
    and d: "as_string (col_eq ''day'' 2) = Some day_condition" by code_simp+
  then have "list_ex (matched status_rule) (conjuncts (WhereClause ?q))"
    by (simp add: conjuncts_def select_where_def matched_def status_rule_def to_upper_def upper_char_def)
  then have "\<exists>w. replace_view status_rule ?q = Some (NewSelectCommand (Columns ?q) (GroupBy ?q) (OrderBy ?q)
      (TableRef (NewTableRef (rule_materializedView status_rule))) w (LimitBy ?q) (Limit ?q) (SampleLimit ?q)
      (IsDistinct ?q) [], True)
    \<and> (\<forall>\<rho> in_view. (\<forall>c. matched status_rule c \<longrightarrow> holds \<rho> c = in_view) \<longrightarrow>
          (holds \<rho> (WhereClause ?q) \<longleftrightarrow> in_view \<and> holds \<rho> w))"
    by (intro view_rewrite_sound [where t = "NewTableRef ''logs''"])
      (simp_all add: select_where_def sample_rule_def status_rule_def NewTableRef_def last_name_part_def to_upper_def upper_char_def)
  then obtain w where w: "replace_view status_rule ?q = Some (NewSelectCommand (Columns ?q) (GroupBy ?q) (OrderBy ?q)
      (TableRef (NewTableRef (rule_materializedView status_rule))) w (LimitBy ?q) (Limit ?q) (SampleLimit ?q)
      (IsDistinct ?q) [], True)"
    and same: "\<And>\<rho> in_view. (\<forall>c. matched status_rule c \<longrightarrow> holds \<rho> c = in_view) \<Longrightarrow>
          holds \<rho> (WhereClause ?q) \<longleftrightarrow> in_view \<and> holds \<rho> w" by blast
  have "holds (status_row status day) (WhereClause ?q) = (status \<and> day)" for status day
    using s d by (simp add: select_where_def status_row_def col_eq_def status_condition_def day_condition_def)
  with same [of "status_row status day" status for status day] matched_status_row w show ?thesis
    by (intro exI [of _ w]) (simp add: select_where_def sample_rule_def status_rule_def)
qed

text \<open>
  The view is taken even where its condition is absent.  Whenever the WHERE clause is a
  conjunction without OR and NOT, none of whose conjuncts is the rule's condition, the table is
  replaced by the view and the clause is left as it is, so the rows outside the view are lost:
  the flag of the traversal is set at every AND, since it is whether a visit returned anything.
\<close>
lemma view_taken_without_condition:
  assumes "FromClause q = TableRef t" and "NamedCTEs q = []"
    and "rule_tableName rule = last_name_part (TableName t)"
    and "and_tree (WhereClause q)" and "node_free is_or_not (WhereClause q)"
    and "is_and (WhereClause q)" and "\<not> matched rule (WhereClause q)"
    and "list_all (\<lambda>c. \<not> matched rule c) (and_parts (WhereClause q))"
  shows "replace_view rule q = Some (NewSelectCommand (Columns q) (GroupBy q) (OrderBy q)
           (TableRef (NewTableRef (rule_materializedView rule))) (WhereClause q) (LimitBy q) (Limit q)
           (SampleLimit q) (IsDistinct q) [], True)"
  using assms rewrite_where_and_tree [OF assms(4,5), of rule] subst_view_unmatched [OF assms(8)]
  by (intro replace_view_table [OF assms(1-3)]) simp

lemma view_taken_without_condition_example:
  "replace_view sample_rule (select_where (InfixExpr (col_eq ''day'' 1) ''AND'' (col_eq ''day'' 2))) =
     Some (NewSelectCommand [LiteralExpr NewWildcardExpr] [] [] (TableRef (NewTableRef ''logs_view''))
       (InfixExpr (col_eq ''day'' 1) ''AND'' (col_eq ''day'' 2)) [] 0 0 False [], True)"
proof -
  let ?w = "InfixExpr (col_eq ''day'' 1) ''AND'' (col_eq ''day'' 2)"
  have r: "rule_condition sample_rule = ''status=1''" by (simp add: sample_rule_def)
  have "\<not> matched sample_rule ?w" "\<not> matched sample_rule (col_eq ''day'' 1)" "\<not> matched sample_rule (col_eq ''day'' 2)"
    unfolding matched_def r by code_simp+
  then have "replace_view sample_rule (select_where ?w) = Some (NewSelectCommand (Columns (select_where ?w))
      (GroupBy (select_where ?w)) (OrderBy (select_where ?w))
      (TableRef (NewTableRef (rule_materializedView sample_rule))) (WhereClause (select_where ?w))
      (LimitBy (select_where ?w)) (Limit (select_where ?w)) (SampleLimit (select_where ?w))
      (IsDistinct (select_where ?w)) [], True)"
    by (intro view_taken_without_condition [where t = "NewTableRef ''logs''"])
      (simp_all add: select_where_def sample_rule_def NewTableRef_def last_name_part_def to_upper_def
        upper_char_def)
  then show ?thesis by (simp add: select_where_def sample_rule_def)
qed

text \<open>
  A SELECT without a WHERE clause makes the transformer panic as soon as its table is the
  rule's and the rule has a condition: the missing clause is visited.
\<close>
lemma view_rewrite_panics_without_where:
  assumes "FromClause q = TableRef t" and "NamedCTEs q = []" and "WhereClause q = NilExpr"
    and "rule_tableName rule = last_name_part (TableName t)" and "rule_condition rule \<noteq> []"
  shows "replace_view rule q = None"
proof -
  have "rewrite_where rule NilExpr = None"
    using assms(5) by (simp add: rewrite_where_def applyRule_def matches_def as_string.simps validateWhere_def)
  then have "replace_select rule v q False = None" for v
    by (simp add: replace_select_def assms visit_ctes_def Let_def)
  then show ?thesis
    unfolding replace_view_def visit_as_def by (subst accept_eq) (simp add: replace_visitor_def)
qed

lemma view_rewrite_panics_without_where_example:
  "replace_view sample_rule (select_where NilExpr) = None"
  by (rule view_rewrite_panics_without_where [where t = "NewTableRef ''logs''"])
    (simp_all add: select_where_def sample_rule_def NewTableRef_def last_name_part_def)

end
