(* ===== verification/Go_Time.thy ===== *)
theory Go_Time
  imports Expr_Render
begin

text \<open>
  What the sources use of Go's \<open>strconv\<close> and \<open>time\<close> packages: reading decimal numbers, and
  points in time with parsing and printing in the \<open>RFC3339\<close> layout.

  A time is its distance from the Unix epoch in nanoseconds and the offset from UTC, in seconds,
  in which it is printed.  The calendar is the proleptic Gregorian one; days are counted from
  the first day of the year 0.
\<close>

section \<open>Numbers\<close>

definition digit_value :: "char \<Rightarrow> nat" where
  "digit_value c = of_char c - 48"

definition all_digits :: "string \<Rightarrow> bool" where
  "all_digits s \<longleftrightarrow> s \<noteq> [] \<and> list_all digit s"

definition digits_value :: "string \<Rightarrow> nat" where
  "digits_value s = foldl (\<lambda>n c. 10 * n + digit_value c) 0 s"

definition clamp64 :: "int \<Rightarrow> int" where
  "clamp64 x = max (- (2 ^ 63)) (min (2 ^ 63 - 1) x)"

text \<open>
  \<open>strconv.Atoi\<close>, as its first result: 0 for what is no number, the nearest bound for what is
  out of range.
\<close>

definition Atoi :: "string \<Rightarrow> int" where
  "Atoi s =
     (case s of
        [] \<Rightarrow> 0
      | c # ds \<Rightarrow>
          if c = CHR ''-'' then (if all_digits ds then clamp64 (- int (digits_value ds)) else 0)
          else if c = CHR ''+'' then (if all_digits ds then clamp64 (int (digits_value ds)) else 0)
          else if all_digits s then clamp64 (int (digits_value s)) else 0)"

lemma digit_char_props: "d < 10 \<Longrightarrow> digit (digit_char d) \<and> digit_value (digit_char d) = d"
proof -
  assume "d < 10"
  then have "d = 0 \<or> d = 1 \<or> d = 2 \<or> d = 3 \<or> d = 4 \<or> d = 5 \<or> d = 6 \<or> d = 7 \<or> d = 8 \<or> d = 9" by arith
  then show ?thesis by (elim disjE) (simp_all add: digit_char_def digit_def digit_value_def)
qed

section \<open>The calendar\<close>

definition leap :: "int \<Rightarrow> bool" where
  "leap y \<longleftrightarrow> y mod 4 = 0 \<and> (y mod 100 \<noteq> 0 \<or> y mod 400 = 0)"

definition year_start :: "int \<Rightarrow> int" where
  "year_start y = 365 * y + (y + 3) div 4 - (y + 99) div 100 + (y + 399) div 400"

definition month_lengths :: "int \<Rightarrow> int list" where
  "month_lengths y = [31, if leap y then 29 else 28, 31, 30, 31, 30, 31, 31, 30, 31, 30, 31]"

definition days_of_date :: "int \<Rightarrow> nat \<Rightarrow> int \<Rightarrow> int" where
  "days_of_date y m d = year_start y + sum_list (take (m - 1) (month_lengths y)) + (d - 1)"

definition epoch_days :: int where "epoch_days = 719528"

text \<open>The year of a day: an estimate from the mean length, put right.\<close>

definition year_of_days :: "int \<Rightarrow> int" where
  "year_of_days n =
     (let y = (400 * n) div 146097
      in if n < year_start y then y - 1 else if year_start (y + 1) \<le> n then y + 1 else y)"

fun split_months :: "int list \<Rightarrow> int \<Rightarrow> nat \<times> int" where
  "split_months [] n = (0, n)"
| "split_months (l # ls) n = (if n < l then (0, n) else (let (m, d) = split_months ls (n - l) in (Suc m, d)))"

definition date_of_days :: "int \<Rightarrow> int \<times> nat \<times> int" where
  "date_of_days n =
     (let y = year_of_days n; (m, d) = split_months (month_lengths y) (n - year_start y)
      in (y, Suc m, d + 1))"

lemma div_round_up:
  fixes y k :: int
  assumes "0 < k" and "j = k - 1"
  shows "(y + j) div k = y div k + (if y mod k = 0 then 0 else 1)"
proof -
  have "y + (k - 1) = (y mod k + (k - 1)) + k * (y div k)" by simp
  then have "(y + (k - 1)) div k = ((y mod k + (k - 1)) + k * (y div k)) div k" by (rule arg_cong)
  also have "\<dots> = y div k + (y mod k + (k - 1)) div k" using assms by (intro div_mult_self2) simp
  also have "(y mod k + (k - 1)) div k = (if y mod k = 0 then 0 else 1)"
  proof (cases "y mod k = 0")
    case True
    then show ?thesis using assms by (simp add: div_pos_pos_trivial)
  next
    case False
    have b: "0 \<le> y mod k" "y mod k < k" using assms by simp_all
    with False have "y mod k + (k - 1) = k + (y mod k - 1)" "0 \<le> y mod k - 1" "y mod k - 1 < k" by linarith+
    then have "(y mod k + (k - 1)) div k = (k + (y mod k - 1)) div k"
      by (intro arg_cong [where f = "\<lambda>z. z div k"]) simp
    also have "\<dots> = (y mod k - 1) div k + 1" using assms(1) by (intro div_add_self1) simp
    also have "(y mod k - 1) div k = 0"
      using \<open>0 \<le> y mod k - 1\<close> \<open>y mod k - 1 < k\<close> by (rule div_pos_pos_trivial)
    finally show ?thesis using False by simp
  qed
  finally show ?thesis by (simp only: assms(2))
qed

lemma year_start_alt:
  "year_start y = 365 * y + (y div 4 - y div 100 + y div 400)
     + ((if y mod 4 = 0 then 0 else 1) - (if y mod 100 = 0 then 0 else 1) + (if y mod 400 = 0 then 0 else 1))"
proof -
  have r: "(y + 3) div 4 = y div 4 + (if y mod 4 = 0 then 0 else 1)"
    "(y + 99) div 100 = y div 100 + (if y mod 100 = 0 then 0 else 1)"
    "(y + 399) div 400 = y div 400 + (if y mod 400 = 0 then 0 else 1)"
    by (rule div_round_up; simp)+
  show ?thesis unfolding year_start_def r by (simp only: algebra_simps)
qed

lemma year_start_Suc: "year_start (y + 1) = year_start y + (if leap y then 366 else 365)"
proof -
  have n: "(y + 1 + 3) div 4 = y div 4 + 1" "(y + 1 + 99) div 100 = y div 100 + 1" "(y + 1 + 399) div 400 = y div 400 + 1"
    using div_add_self2 [of 4 y] div_add_self2 [of 100 y] div_add_self2 [of 400 y] by (simp_all add: add.assoc)
  have m: "y mod 100 = 0 \<Longrightarrow> y mod 4 = 0" "y mod 400 = 0 \<Longrightarrow> y mod 100 = 0"
    using dvd_trans [of 4 100 y] dvd_trans [of 100 400 y] by (simp_all add: dvd_eq_mod_eq_0 [symmetric])
  define a b c where abc: "a = y div 4" "b = y div 100" "c = y div 400"
  define ra rb rc where r: "ra = y mod 4" "rb = y mod 100" "rc = y mod 400"
  show ?thesis
    using m unfolding year_start_alt [of y] leap_def unfolding year_start_def n
    unfolding abc [symmetric] r [symmetric] by auto
qed

lemma year_start_bounds:
  "400 * year_start y \<le> 146097 * y + 1200" "146097 * y - 1200 \<le> 400 * year_start y"
proof -
  define a b c where abc: "a = y div 4" "b = y div 100" "c = y div 400"
  define ra rb rc where r: "ra = y mod 4" "rb = y mod 100" "rc = y mod 400"
  have y: "4 * a + ra = y" "100 * b + rb = y" "400 * c + rc = y" by (simp_all add: abc r)
  have bounds: "0 \<le> ra" "ra < 4" "0 \<le> rb" "rb < 100" "0 \<le> rc" "rc < 400" by (simp_all add: r)
  define e where "e = (if ra = 0 then 0 else 1 :: int) - (if rb = 0 then 0 else 1) + (if rc = 0 then 0 else 1)"
  have e: "- 1 \<le> e" "e \<le> 2" by (auto simp: e_def)
  have "year_start y = 365 * y + (a - b + c) + e"
    by (simp add: year_start_alt e_def abc r)
  then show "400 * year_start y \<le> 146097 * y + 1200" "146097 * y - 1200 \<le> 400 * year_start y"
    using y bounds e by linarith+
qed

lemma year_of_days_correct:
  "year_start (year_of_days n) \<le> n \<and> n < year_start (year_of_days n + 1)"
proof -
  define y r where yr: "y = (400 * n) div 146097" "r = (400 * n) mod 146097"
  have e: "146097 * y + r = 400 * n" "0 \<le> r" "r < 146097"
    unfolding yr by simp_all
  have lo: "year_start (y - 1) \<le> n"
    using year_start_bounds(1) [of "y - 1"] e by (simp add: algebra_simps)
  have hi: "n < year_start (y + 2)"
    using year_start_bounds(2) [of "y + 2"] e by (simp add: algebra_simps)
  have "y + 1 + 1 = y + 2" by simp
  then show ?thesis
    using lo hi unfolding year_of_days_def Let_def yr(1) [symmetric] by (auto simp: algebra_simps)
qed

lemma year_start_mono: "a \<le> b \<Longrightarrow> year_start a \<le> year_start b"
proof -
  have "year_start a \<le> year_start (a + int k)" for k
  proof (induction k)
    case (Suc k)
    have eq: "a + int (Suc k) = a + int k + 1" by simp
    show ?case unfolding eq year_start_Suc using Suc by simp
  qed simp
  from this [of "nat (b - a)"] show "a \<le> b \<Longrightarrow> year_start a \<le> year_start b" by simp
qed

lemma year_unique:
  assumes "year_start y \<le> n" and "n < year_start (y + 1)"
  shows "year_of_days n = y"
proof -
  show ?thesis
    using assms year_of_days_correct [of n] year_start_mono [of "y + 1" "year_of_days n"]
      year_start_mono [of "year_of_days n + 1" y]
    by linarith
qed

lemma month_lengths_props:
  "length (month_lengths y) = 12" "sum_list (month_lengths y) = (if leap y then 366 else 365)"
  "list_all (\<lambda>l. 28 \<le> l \<and> l \<le> 31) (month_lengths y)"
  by (simp_all add: month_lengths_def)

lemma split_months_props:
  "0 \<le> n \<Longrightarrow> n < sum_list ls \<Longrightarrow> split_months ls n = (m, d) \<Longrightarrow>
   m < length ls \<and> 0 \<le> d \<and> d < ls ! m \<and> sum_list (take m ls) + d = n"
proof (induction ls arbitrary: n m d)
  case (Cons l ls)
  show ?case
  proof (cases "n < l")
    case False
    then obtain m' where "split_months ls (n - l) = (m', d)" "m = Suc m'"
      using Cons.prems(3) by (auto split: prod.splits)
    with Cons.IH [of "n - l" m' d] Cons.prems False show ?thesis by auto
  qed (use Cons.prems in auto)
qed simp

lemma split_months_inverse:
  "m < length ls \<Longrightarrow> 0 \<le> d \<Longrightarrow> d < ls ! m \<Longrightarrow> list_all ((\<le>) 0) ls \<Longrightarrow>
   split_months ls (sum_list (take m ls) + d) = (m, d)"
proof (induction ls arbitrary: m)
  case (Cons l ls)
  have nonneg: "0 \<le> sum_list (take k ls)" for k
    using Cons.prems(4) by (intro sum_list_nonneg) (auto simp: list_all_iff dest: in_set_takeD)
  show ?case
  proof (cases m)
    case (Suc k)
    have "\<not> l + sum_list (take k ls) + d < l" using nonneg [of k] Cons.prems(2) by simp
    then show ?thesis using Cons.IH [of k] Cons.prems Suc by (simp add: add.assoc)
  qed (use Cons.prems in simp)
qed simp

text \<open>A day is the day of its date, and a date is the date of its day.\<close>

lemma date_roundtrip:
  assumes "date_of_days n = (y, m, d)"
  shows "days_of_date y m d = n \<and> 1 \<le> m \<and> m \<le> 12 \<and> 1 \<le> d \<and> d \<le> month_lengths y ! (m - 1) \<and> y = year_of_days n"
proof -
  obtain m' d' where s: "split_months (month_lengths (year_of_days n)) (n - year_start (year_of_days n)) = (m', d')"
    by (cases "split_months (month_lengths (year_of_days n)) (n - year_start (year_of_days n))") auto
  then have ymd: "y = year_of_days n" "m = Suc m'" "d = d' + 1"
    using assms by (auto simp: date_of_days_def Let_def)
  have "n - year_start (year_of_days n) < sum_list (month_lengths (year_of_days n))"
    using year_of_days_correct [of n] year_start_Suc by (simp add: month_lengths_props)
  from split_months_props [OF _ this s] year_of_days_correct [of n] ymd show ?thesis
    by (auto simp: days_of_date_def month_lengths_props)
qed

section \<open>Times\<close>

record gotime =
  unix_nano :: int
  zone :: int

definition second :: int where "second = 10 ^ 9"

text \<open>\<open>Sub\<close> saturates, and so does \<open>Abs\<close>.\<close>

definition time_Sub :: "gotime \<Rightarrow> gotime \<Rightarrow> int" where
  "time_Sub t u = clamp64 (unix_nano t - unix_nano u)"

definition duration_Abs :: "int \<Rightarrow> int" where
  "duration_Abs d = (if d = - (2 ^ 63) then 2 ^ 63 - 1 else \<bar>d\<bar>)"

definition time_Add :: "gotime \<Rightarrow> int \<Rightarrow> gotime" where
  "time_Add t d = t\<lparr>unix_nano := unix_nano t + d\<rparr>"

text \<open>\<open>Truncate\<close> counts from the zero time, the first instant of the year 1.\<close>

definition zero_time_offset :: int where "zero_time_offset = 62135596800 * 10 ^ 9"

definition time_Truncate :: "gotime \<Rightarrow> int \<Rightarrow> gotime" where
  "time_Truncate t d =
     (if d \<le> 0 then t else t\<lparr>unix_nano := unix_nano t - (unix_nano t + zero_time_offset) mod d\<rparr>)"

lemma time_Truncate_bounds:
  assumes "0 < d"
  shows "unix_nano (time_Truncate t d) \<le> unix_nano t" "unix_nano t < unix_nano (time_Truncate t d) + d"
    "zone (time_Truncate t d) = zone t"
  using assms by (simp_all add: time_Truncate_def)

section \<open>The layout\<close>

text \<open>A parser takes a prefix off a string; \<open>None\<close> is an error.\<close>

type_synonym 'a parser = "string \<Rightarrow> ('a \<times> string) option"

definition skip :: "char \<Rightarrow> unit parser" where
  "skip c s = (case s of d # r \<Rightarrow> if d = c then Some ((), r) else None | [] \<Rightarrow> None)"

definition getnum :: "bool \<Rightarrow> nat parser" where
  "getnum fixed s =
     (case s of
        [] \<Rightarrow> None
      | a # r \<Rightarrow>
          if \<not> digit a then None
          else (case r of
              b # r' \<Rightarrow> if digit b then Some (10 * digit_value a + digit_value b, r')
                       else if fixed then None else Some (digit_value a, r)
            | [] \<Rightarrow> if fixed then None else Some (digit_value a, [])))"

definition ranged :: "nat \<Rightarrow> nat \<Rightarrow> nat parser \<Rightarrow> nat parser" where
  "ranged lo hi p s = do { (n, r) \<leftarrow> p s; if lo \<le> n \<and> n \<le> hi then Some (n, r) else None }"

definition get_year :: "nat parser" where
  "get_year s =
     (if length s < 4 \<or> \<not> list_all digit (take 4 s) then None
      else Some (digits_value (take 4 s), drop 4 s))"

text \<open>A fraction of a second may follow though the layout has none; at most nine digits count.\<close>

definition get_fraction :: "nat parser" where
  "get_fraction s =
     (case s of
        p # c # r \<Rightarrow>
          if (p = CHR ''.'' \<or> p = CHR '','') \<and> digit c then
            (let ds = takeWhile digit (c # r); nine = take 9 ds
             in Some (digits_value nine * 10 ^ (9 - length nine), dropWhile digit (c # r)))
          else Some (0, s)
      | _ \<Rightarrow> Some (0, s))"

definition get_zone :: "int parser" where
  "get_zone s =
     (case s of
        [] \<Rightarrow> None
      | sign # r \<Rightarrow>
          if sign = CHR ''Z'' then Some (0, r)
          else if sign \<noteq> CHR ''+'' \<and> sign \<noteq> CHR ''-'' then None
          else do { (hr, r) \<leftarrow> ranged 0 24 (getnum True) r; (_, r) \<leftarrow> skip (CHR '':'') r;
                    (mm, r) \<leftarrow> ranged 0 60 (getnum True) r;
                    let off = int (hr * 60 + mm) * 60;
                    Some (if sign = CHR ''-'' then - off else off, r) })"

definition parse_RFC3339 :: "string \<Rightarrow> gotime option" where
  "parse_RFC3339 s =
     do { (year, s) \<leftarrow> get_year s; (_, s) \<leftarrow> skip (CHR ''-'') s;
          (month, s) \<leftarrow> ranged 1 12 (getnum True) s; (_, s) \<leftarrow> skip (CHR ''-'') s;
          (day, s) \<leftarrow> getnum True s; (_, s) \<leftarrow> skip (CHR ''T'') s;
          (hour, s) \<leftarrow> ranged 0 23 (getnum False) s; (_, s) \<leftarrow> skip (CHR '':'') s;
          (minute, s) \<leftarrow> ranged 0 59 (getnum True) s; (_, s) \<leftarrow> skip (CHR '':'') s;
          (sec, s) \<leftarrow> ranged 0 59 (getnum True) s;
          (nsec, s) \<leftarrow> get_fraction s;
          (off, s) \<leftarrow> get_zone s;
          if s \<noteq> [] \<or> day < 1 \<or> int day > month_lengths (int year) ! (month - 1) then None
          else Some \<lparr>unix_nano =
              ((days_of_date (int year) month (int day) - epoch_days) * 86400
               + int (hour * 3600 + minute * 60 + sec) - off) * second + int nsec,
            zone = off\<rparr> }"

definition two_digits :: "nat \<Rightarrow> string" where
  "two_digits n = [digit_char (n div 10), digit_char (n mod 10)]"

definition four_digits :: "nat \<Rightarrow> string" where
  "four_digits n =
     (if n < 10000 then [digit_char (n div 1000), digit_char (n div 100 mod 10), digit_char (n div 10 mod 10),
        digit_char (n mod 10)]
      else nat_digits n)"

definition print_zone :: "int \<Rightarrow> string" where
  "print_zone off =
     (if off = 0 then ''Z''
      else (let m = nat \<bar>off\<bar> div 60
            in (if off < 0 then CHR ''-'' else CHR ''+'') # two_digits (m div 60) @ '':'' @ two_digits (m mod 60)))"

definition format_RFC3339 :: "gotime \<Rightarrow> string" where
  "format_RFC3339 t =
     (let local = unix_nano t div second + zone t;
          (year, month, day) = date_of_days (local div 86400 + epoch_days);
          sec = nat (local mod 86400)
      in (if year < 0 then ''-'' @ four_digits (nat (- year)) else four_digits (nat year))
         @ ''-'' @ two_digits month @ ''-'' @ two_digits (nat day)
         @ ''T'' @ two_digits (sec div 3600) @ '':'' @ two_digits (sec div 60 mod 60) @ '':'' @ two_digits (sec mod 60)
         @ print_zone (zone t))"

section \<open>Printing and parsing\<close>

lemma skip_char [simp]: "skip c (c # r) = Some ((), r)"
  by (simp add: skip_def)

lemma getnum_two_digits: "n < 100 \<Longrightarrow> getnum fixed (two_digits n @ r) = Some (n, r)"
  using digit_char_props [of "n div 10"] digit_char_props [of "n mod 10"]
  by (simp add: getnum_def two_digits_def)

lemma ranged_two_digits: "lo \<le> n \<Longrightarrow> n \<le> hi \<Longrightarrow> n < 100 \<Longrightarrow> ranged lo hi (getnum fixed) (two_digits n @ r) = Some (n, r)"
  by (simp add: ranged_def getnum_two_digits)

lemma get_year_four_digits: "n < 10000 \<Longrightarrow> get_year (four_digits n @ r) = Some (n, r)"
proof -
  assume n: "n < 10000"
  have d: "n div 1000 < 10" using n by linarith
  define a b where ab: "a = n div 10" "b = n div 100"
  have "10 * a + n mod 10 = n" "10 * b + a mod 10 = a" "10 * (n div 1000) + b mod 10 = b"
    using div_mult2_eq [of n 10 10] div_mult2_eq [of n 100 10] unfolding ab by simp_all
  then have "1000 * (n div 1000) + 100 * (b mod 10) + 10 * (a mod 10) + n mod 10 = n" by linarith
  then have "1000 * (n div 1000) + 100 * (n div 100 mod 10) + 10 * (n div 10 mod 10) + n mod 10 = n"
    unfolding ab .
  then show ?thesis
    using n digit_char_props [OF d] digit_char_props [of "n div 100 mod 10"] digit_char_props [of "n div 10 mod 10"]
      digit_char_props [of "n mod 10"]
    by (simp add: get_year_def four_digits_def digits_value_def algebra_simps)
qed

definition zone_ok :: "int \<Rightarrow> bool" where
  "zone_ok off \<longleftrightarrow> off mod 60 = 0 \<and> \<bar>off\<bar> < 25 * 3600"

lemma get_zone_print: "zone_ok off \<Longrightarrow> get_zone (print_zone off) = Some (off, [])"
proof (cases "off = 0")
  case False
  assume ok: "zone_ok off"
  let ?m = "nat \<bar>off\<bar> div 60"
  have m: "int ?m * 60 = \<bar>off\<bar>" using ok by (simp add: zone_ok_def zdiv_int dvd_imp_mod_0)
    (metis abs_ge_zero dvd_abs_iff dvd_div_mult_self mod_0_imp_dvd)
  then have "?m < 1500" using ok by (simp add: zone_ok_def)
  then have "?m div 60 < 25" by (intro less_mult_imp_div_less) simp
  then have h: "?m div 60 \<le> 24" "?m mod 60 \<le> 60" by (simp_all add: less_imp_le)
  define hh mm where hm: "hh = ?m div 60" "mm = ?m mod 60"
  have tot: "int (hh * 60 + mm) * 60 = \<bar>off\<bar>" using m by (simp add: hm)
  have "print_zone off = (if off < 0 then CHR ''-'' else CHR ''+'') # two_digits hh @ '':'' @ two_digits mm"
    using False by (simp add: print_zone_def hm Let_def)
  then have "get_zone (print_zone off) =
      Some (if off < 0 then - (int (hh * 60 + mm) * 60) else int (hh * 60 + mm) * 60, [])"
    using h ranged_two_digits [of 0 hh 24 True "'':'' @ two_digits mm"] ranged_two_digits [of 0 mm 60 True "[]"]
    by (simp add: get_zone_def Let_def hm [symmetric] del: of_nat_add of_nat_mult)
  then show ?thesis unfolding tot by auto
qed (simp add: print_zone_def get_zone_def)

text \<open>A printed year has four digits, a second no fraction and an offset whole minutes.\<close>

definition printable_time :: "gotime \<Rightarrow> bool" where
  "printable_time t \<longleftrightarrow>
     unix_nano t mod second = 0 \<and> zone_ok (zone t) \<and>
     year_start 0 \<le> (unix_nano t div second + zone t) div 86400 + epoch_days \<and>
     (unix_nano t div second + zone t) div 86400 + epoch_days < year_start 10000"


lemma day_bound: "month_lengths y ! (m - 1) \<le> 31" if "1 \<le> m" "m \<le> 12"
  using month_lengths_props(3) [of y] that
  by (simp add: list_all_length month_lengths_props(1))

lemma parse_format:
  assumes "printable_time t"
  shows "parse_RFC3339 (format_RFC3339 t) = Some t"
proof -
  define local where "local = unix_nano t div second + zone t"
  define days where "days = local div 86400 + epoch_days"
  define sec where "sec = nat (local mod 86400)"
  obtain y m d where date: "date_of_days days = (y, m, d)" by (cases "date_of_days days") auto
  note rt = date_roundtrip [OF date]
  have sec: "int sec = local mod 86400" "sec < 86400" by (simp_all add: sec_def nat_less_iff)
  have days: "year_start 0 \<le> days" "days < year_start 10000"
    using assms by (simp_all add: printable_time_def days_def local_def)
  have y: "0 \<le> y" "y < 10000"
  proof -
    have y': "y = year_of_days days" using rt by simp
    note yc = year_of_days_correct [of days, folded y']
    show "0 \<le> y" using yc days year_start_mono [of "y + 1" 0] by (cases "0 \<le> y") auto
    show "y < 10000" using yc days year_start_mono [of 10000 y] by (cases "y < 10000") auto
  qed
  have md: "1 \<le> m" "m \<le> 12" "1 \<le> d" "d \<le> month_lengths y ! (m - 1)" "d \<le> 31"
    using rt day_bound [of m y] by auto
  have zone: "zone_ok (zone t)" using assms by (simp add: printable_time_def)
  let ?h = "sec div 3600" and ?mi = "sec div 60 mod 60" and ?s = "sec mod 60"
  have hms: "?h < 24" "?mi < 60" "?s < 60" "?h * 3600 + ?mi * 60 + ?s = sec"
  proof -
    show "?h < 24" using sec(2) by (simp add: less_mult_imp_div_less)
    define a where "a = sec div 60"
    have "60 * a + sec mod 60 = sec" "60 * (sec div 3600) + a mod 60 = a"
      using div_mult2_eq [of sec 60 60] unfolding a_def by simp_all
    then show "?h * 3600 + ?mi * 60 + ?s = sec" unfolding a_def [symmetric] by simp
  qed simp_all
  have fmt: "format_RFC3339 t = four_digits (nat y) @ ''-'' @ two_digits m @ ''-'' @ two_digits (nat d)
     @ ''T'' @ two_digits ?h @ '':'' @ two_digits ?mi @ '':'' @ two_digits ?s @ print_zone (zone t)"
    using y date by (simp add: format_RFC3339_def local_def [symmetric] days_def [symmetric] sec_def [symmetric] Let_def)
  have frac: "get_fraction (print_zone (zone t)) = Some (0, print_zone (zone t))"
    by (auto simp: get_fraction_def print_zone_def Let_def split: list.splits)
  have total: "((days_of_date y m d - epoch_days) * 86400 + int (?h * 3600 + ?mi * 60 + ?s) - zone t) * second = unix_nano t"
  proof -
    have "days_of_date y m d = days" by (rule rt [THEN conjunct1])
    then have "(days_of_date y m d - epoch_days) * 86400 + int (?h * 3600 + ?mi * 60 + ?s) = local"
      unfolding hms(4) sec(1) by (simp add: days_def)
    moreover have "unix_nano t div second * second = unix_nano t"
      using assms by (simp add: printable_time_def) (metis dvd_div_mult_self mod_0_imp_dvd)
    ultimately show ?thesis by (simp add: local_def)
  qed
  have nat_d: "nat d < 100" using md by simp
  show ?thesis
    unfolding fmt parse_RFC3339_def
    using y md hms nat_d total
    by (simp add: get_year_four_digits ranged_two_digits getnum_two_digits frac get_zone_print [OF zone] Let_def
        nat_less_iff del: of_nat_add of_nat_mult)
qed
end
