(* ===== verification/Optimize_Split.thy ===== *)
theory Optimize_Split
  imports Optimize_Rules Go_Time
begin

text \<open>
  The transformer of \<open>quesma/optimize/split_time_range.go\<close>: a query for the latest rows of a
  time range becomes a union of queries for parts of the range, latest part first.

  The Go code sorts the split points by \<open>sort.Slice\<close> with \<open>>=\<close>, which is no strict order; up
  to twelve points Go runs an insertion sort, which is what \<open>sort_slice\<close> is.
\<close>

section \<open>Eligible queries\<close>

record time_range_limit =
  tl_value :: int
  tl_funcName :: string

record time_range =
  columnName :: string
  lowerLimit :: time_range_limit
  upperLimit :: time_range_limit

definition defaultShorterTimeRangesMinutes :: "int list" where
  "defaultShorterTimeRangesMinutes = [15]"

fun validate_column :: "expr \<Rightarrow> bool" where
  "validate_column (ColumnRef c) = True"
| "validate_column (LiteralExpr l) = True"
| "validate_column (AliasedExpr e a) = validate_column e"
| "validate_column (FunctionExpr name args) = list_all validate_column args"
| "validate_column e = False"

definition validateSelectedColumns :: "expr list \<Rightarrow> bool" where
  "validateSelectedColumns columns \<longleftrightarrow> list_all validate_column columns"

definition findOrderByColumn :: "select_command \<Rightarrow> (string \<times> order_by_direction) option" where
  "findOrderByColumn q =
     (case OrderBy q of
        [ob] \<Rightarrow> (case ob_Expr ob of ColumnRef c \<Rightarrow> Some (ColumnName c, ob_Direction ob) | _ \<Rightarrow> None)
      | _ \<Rightarrow> None)"

definition milli_func :: string where "milli_func = ''fromUnixTimestamp64Milli''"
definition second_func :: string where "second_func = ''fromUnixTimestamp''"

text \<open>A bound on the right of a comparison: \<open>None\<close> is a failed assertion, \<open>Some None\<close> no bound.\<close>

definition limit_of :: "expr \<Rightarrow> time_range_limit option option" where
  "limit_of r =
     (case r of
        FunctionExpr name args \<Rightarrow>
          if name = milli_func \<or> name = second_func then
            (case args of
               LiteralExpr l # _ \<Rightarrow>
                 (case Value l of
                    VInt KInt64 v \<Rightarrow> Some (Some \<lparr>tl_value = v, tl_funcName = name\<rparr>)
                  | _ \<Rightarrow> None)
             | _ \<Rightarrow> None)
          else Some None
      | _ \<Rightarrow> Some None)"

definition is_column_named :: "string \<Rightarrow> expr \<Rightarrow> bool" where
  "is_column_named name e = (case e of ColumnRef c \<Rightarrow> ColumnName c = name | _ \<Rightarrow> False)"

type_synonym limits = "time_range_limit option \<times> time_range_limit option"

definition limits_infix ::
  "string \<Rightarrow> limits walk \<Rightarrow> expr \<Rightarrow> string \<Rightarrow> expr \<Rightarrow> limits \<Rightarrow> (expr \<times> limits) option" where
  "limits_infix column b l op r s =
     (if is_column_named column l then
        if op = ''<'' \<or> op = ''<='' then
          do { bound \<leftarrow> limit_of r;
               Some (InfixExpr l op r, case bound of Some t \<Rightarrow> (fst s, Some t) | None \<Rightarrow> s) }
        else if op = ''>'' \<or> op = ''>='' then
          do { bound \<leftarrow> limit_of r;
               Some (InfixExpr l op r, case bound of Some t \<Rightarrow> (Some t, snd s) | None \<Rightarrow> s) }
        else Some (InfixExpr l op r, s)
      else if op = ''AND'' then
        do { (_, s) \<leftarrow> b l s; (_, s) \<leftarrow> b r s; Some (InfixExpr l op r, s) }
      else Some (InfixExpr l op r, s))"

definition limits_visitor :: "string \<Rightarrow> limits base_visitor" where
  "limits_visitor column = NewBaseVisitor\<lparr>OverrideVisitInfix := Some (limits_infix column)\<rparr>"

definition checkAndFindTimeLimits :: "select_command \<Rightarrow> string \<Rightarrow> limits option" where
  "checkAndFindTimeLimits q column =
     map_option snd (accept (limits_visitor column) (SelectE q) (None, None))"

definition plain_select :: "select_command \<Rightarrow> bool" where
  "plain_select q \<longleftrightarrow>
     Limit q \<noteq> 0 \<and> length (LimitBy q) = 0 \<and> SampleLimit q = 0 \<and> \<not> IsDistinct q \<and>
     GroupBy q = [] \<and> length (NamedCTEs q) = 0 \<and> validateSelectedColumns (Columns q)"

text \<open>\<open>Some None\<close>: the query is not eligible.\<close>

definition findTimeRange :: "select_command \<Rightarrow> time_range option option" where
  "findTimeRange q =
     (if \<not> plain_select q then Some None
      else case findOrderByColumn q of
        None \<Rightarrow> Some None
      | Some (column, direction) \<Rightarrow>
          if direction \<noteq> DescOrder then Some None
          else
            do { (lower, upper) \<leftarrow> checkAndFindTimeLimits q column;
                 (case (lower, upper) of
                    (Some l, Some u) \<Rightarrow> Some (Some \<lparr>columnName = column, lowerLimit = l, upperLimit = u\<rparr>)
                  | _ \<Rightarrow> Some None) })"

section \<open>Split points\<close>

fun insert_back :: "('a \<Rightarrow> 'a \<Rightarrow> bool) \<Rightarrow> 'a \<Rightarrow> 'a list \<Rightarrow> 'a list" where
  "insert_back lt x [] = [x]"
| "insert_back lt x (y # ys) = (if lt x y then y # insert_back lt x ys else x # y # ys)"

text \<open>The sorted prefix is kept in reverse: its last element comes first.\<close>

definition sort_slice :: "('a \<Rightarrow> 'a \<Rightarrow> bool) \<Rightarrow> 'a list \<Rightarrow> 'a list" where
  "sort_slice lt xs = rev (foldl (\<lambda>prefix x. insert_back lt x prefix) [] xs)"

definition later :: "time_range_limit \<Rightarrow> time_range_limit \<Rightarrow> bool" where
  "later a b \<longleftrightarrow> tl_value a \<ge> tl_value b"

definition shorter_ranges :: "(string \<rightharpoonup> string) \<Rightarrow> int list" where
  "shorter_ranges properties =
     (case properties ''ranges'' of
        Some s \<Rightarrow> map Atoi (split_on (CHR '','') s)
      | None \<Rightarrow> defaultShorterTimeRangesMinutes)"

definition split_point :: "time_range \<Rightarrow> int \<Rightarrow> time_range_limit" where
  "split_point tr minutes =
     (let up = upperLimit tr
      in if tl_funcName up = milli_func
         then \<lparr>tl_value = wrap64 (tl_value up - wrap64 (minutes * 60000)), tl_funcName = tl_funcName up\<rparr>
         else \<lparr>tl_value = wrap64 (tl_value up - wrap64 (minutes * 60)), tl_funcName = tl_funcName up\<rparr>)"

definition inner_points :: "time_range \<Rightarrow> (string \<rightharpoonup> string) \<Rightarrow> time_range_limit list" where
  "inner_points tr properties =
     filter (\<lambda>p. tl_value p \<ge> tl_value (lowerLimit tr) \<and> tl_value p \<le> tl_value (upperLimit tr))
       (map (split_point tr) (shorter_ranges properties))"

definition getSplitPoints :: "time_range \<Rightarrow> (string \<rightharpoonup> string) \<Rightarrow> time_range_limit list" where
  "getSplitPoints tr properties =
     sort_slice later ([lowerLimit tr] @ inner_points tr properties @ [upperLimit tr])"

section \<open>The union of the parts\<close>

definition time_compare :: "string \<Rightarrow> string \<Rightarrow> time_range_limit \<Rightarrow> expr" where
  "time_compare column op p =
     InfixExpr (ColumnRef (NewColumnRef column)) op
       (FunctionExpr (tl_funcName p) [LiteralExpr (NewLiteral (VInt KInt64 (tl_value p)))])"

definition part_condition :: "string \<Rightarrow> time_range_limit list \<Rightarrow> nat \<Rightarrow> expr" where
  "part_condition column splitPoints i =
     (if i = 0 then time_compare column ''>'' (splitPoints ! (i + 1))
      else if i = length splitPoints - 2 then time_compare column ''<='' (splitPoints ! i)
      else InfixExpr (time_compare column ''<='' (splitPoints ! i)) ''AND''
             (time_compare column ''>'' (splitPoints ! (i + 1))))"

definition set_where :: "expr \<Rightarrow> select_command \<Rightarrow> select_command" where
  "set_where w q = SelectCommand (IsDistinct q) (Columns q) (FromClause q) w (GroupBy q) (OrderBy q)
     (LimitBy q) (Limit q) (SampleLimit q) (NamedCTEs q)"

definition part_name :: "nat \<Rightarrow> string" where
  "part_name i = ''split_time_range_subquery_'' @ itoa (int i)"

definition part_query :: "string \<Rightarrow> time_range_limit list \<Rightarrow> select_command \<Rightarrow> nat \<Rightarrow> select_command" where
  "part_query column splitPoints q i =
     set_where (InfixExpr (part_condition column splitPoints i) ''AND'' (WhereClause q)) q"

definition part_reference :: "nat \<Rightarrow> select_command" where
  "part_reference i = SelectCommand False [LiteralExpr (NewLiteral (VString ''*''))]
     (LiteralExpr (NewLiteral (VString (part_name i)))) NilExpr [] [] [] 0 0 []"

definition union_all :: "select_command list \<Rightarrow> expr" where
  "union_all qs =
     foldl (\<lambda>u q. InfixExpr u ''UNION ALL'' (SelectE q)) (SelectE (hd qs)) (tl qs)"

text \<open>A column without a case in the switch stays nil.\<close>

definition selected_column :: "expr \<Rightarrow> expr option" where
  "selected_column column =
     (case column of
        ColumnRef c \<Rightarrow> Some (ColumnRef c)
      | LiteralExpr l \<Rightarrow>
          (case Value l of VString s \<Rightarrow> Some (ColumnRef (NewColumnRef s)) | _ \<Rightarrow> None)
      | AliasedExpr e a \<Rightarrow> Some (ColumnRef (NewColumnRef a))
      | _ \<Rightarrow> Some NilExpr)"

definition split_select ::
  "time_range \<Rightarrow> time_range_limit list \<Rightarrow> select_command \<Rightarrow> select_command option" where
  "split_select tr splitPoints q =
     (let parts = [0..<length splitPoints - 1];
          subqueries = map (part_query (columnName tr) splitPoints q) parts
      in do { selectedColumns \<leftarrow> opt_mapM selected_column (Columns (hd subqueries));
              Some (SelectCommand False selectedColumns (union_all (map part_reference parts)) NilExpr [] [] []
                (Limit (hd subqueries)) 0 (map (\<lambda>i. CTE (part_name i) (part_query (columnName tr) splitPoints q i)) parts)) })"

definition transformQuery :: "(string \<rightharpoonup> string) \<Rightarrow> query \<Rightarrow> query option" where
  "transformQuery properties q =
     do { foundTimeRange \<leftarrow> findTimeRange (q_SelectCommand q);
          (case foundTimeRange of
             None \<Rightarrow> Some q
           | Some tr \<Rightarrow>
               (let splitPoints = getSplitPoints tr properties
                in if length splitPoints \<le> 2 then Some q
                   else do { c \<leftarrow> split_select tr splitPoints (q_SelectCommand q);
                             Some (q\<lparr>q_SelectCommand := c\<rparr>) })) }"

definition splitTimeRange :: optimize_transformer where
  "splitTimeRange =
     \<lparr>TransformerName = ''split_time_range'', IsEnabledByDefault = True,
      TransformQueries = (\<lambda>queries properties. map_option Inr (opt_mapM (transformQuery properties) queries))\<rparr>"

lemma transformQuery_evolves: "transformQuery p q = Some q' \<Longrightarrow> has_hints q \<Longrightarrow> evolves [''split_time_range''] q q'"
  by (auto simp: transformQuery_def bind_eq_Some_conv Let_def evolves_def has_hints_def performed_def
      split: option.splits if_splits)

interpretation split: optimizer splitTimeRange
  by (rule optimizer_per_query [where f = transformQuery])
    (auto simp: splitTimeRange_def transformQuery_evolves)

section \<open>The split points in order\<close>

lemma insert_back_set [simp]: "set (insert_back lt x xs) = insert x (set xs)"
  by (induction xs) auto

lemma insert_back_sorted:
  "sorted_wrt (\<lambda>a b. later b a) xs \<Longrightarrow> sorted_wrt (\<lambda>a b. later b a) (insert_back later x xs)"
  by (induction xs) (auto simp: later_def)

lemma foldl_insert_back_set: "set (foldl (\<lambda>pre x. insert_back lt x pre) acc xs) = set acc \<union> set xs"
  by (induction xs arbitrary: acc) auto

lemma foldl_insert_back_sorted:
  "sorted_wrt (\<lambda>a b. later b a) acc \<Longrightarrow>
   sorted_wrt (\<lambda>a b. later b a) (foldl (\<lambda>pre x. insert_back later x pre) acc xs)"
  by (induction xs arbitrary: acc) (auto simp: insert_back_sorted)

lemma sort_slice_sorted: "sorted_wrt later (sort_slice later xs)"
  unfolding sort_slice_def sorted_wrt_rev using foldl_insert_back_sorted [of "[]"] by simp

lemma set_sort_slice [simp]: "set (sort_slice lt xs) = set xs"
  by (simp add: sort_slice_def foldl_insert_back_set)

lemma foldl_insert_back_least:
  "list_all (\<lambda>x. later x l) xs \<Longrightarrow>
   foldl (\<lambda>pre x. insert_back later x pre) (l # acc) xs = l # foldl (\<lambda>pre x. insert_back later x pre) acc xs"
  by (induction xs arbitrary: acc) auto

lemma insert_back_greatest: "list_all (later x) xs \<Longrightarrow> insert_back later x xs = xs @ [x]"
  by (induction xs) auto

text \<open>The upper limit, the points between in decreasing order, the lower limit.\<close>

lemma getSplitPoints_shape:
  assumes "tl_value (lowerLimit tr) \<le> tl_value (upperLimit tr)"
  shows "getSplitPoints tr props =
    [upperLimit tr] @ sort_slice later (inner_points tr props) @ [lowerLimit tr]"
proof -
  let ?ps = "inner_points tr props"
  have "list_all (\<lambda>x. later x (lowerLimit tr)) (?ps @ [upperLimit tr])"
    using assms by (auto simp: inner_points_def later_def list_all_iff)
  moreover have "list_all (later (upperLimit tr)) (foldl (\<lambda>pre x. insert_back later x pre) [] ?ps)"
    by (auto simp: list_all_iff foldl_insert_back_set inner_points_def later_def)
  ultimately show ?thesis
    by (simp add: getSplitPoints_def sort_slice_def foldl_insert_back_least insert_back_greatest)
qed

lemma getSplitPoints_crossed:
  assumes "\<not> tl_value (lowerLimit tr) \<le> tl_value (upperLimit tr)"
  shows "length (getSplitPoints tr props) \<le> 2"
proof -
  have "inner_points tr props = []"
    using assms by (auto simp: inner_points_def filter_empty_conv)
  then show ?thesis by (simp add: getSplitPoints_def sort_slice_def)
qed

lemma inner_points_func: "p \<in> set (inner_points tr props) \<Longrightarrow> tl_funcName p = tl_funcName (upperLimit tr)"
  by (auto simp: inner_points_def split_point_def Let_def)

section \<open>Every time falls into one part\<close>

text \<open>
  The rows of a table have a time in the column, in nanoseconds; a valuation is right about a
  time if the comparisons with a point in time say which is later.
\<close>

definition instant :: "time_range_limit \<Rightarrow> int" where
  "instant p = (if tl_funcName p = milli_func then tl_value p * 10 ^ 6 else tl_value p * 10 ^ 9)"

definition reads_time :: "(expr \<Rightarrow> bool) \<Rightarrow> string \<Rightarrow> int \<Rightarrow> bool" where
  "reads_time \<rho> column t \<longleftrightarrow>
     (\<forall>p. \<rho> (time_compare column ''>'' p) = (instant p < t) \<and> \<rho> (time_compare column ''<='' p) = (t \<le> instant p))"

lemma holds_compare:
  assumes "reads_time \<rho> column t"
  shows "holds \<rho> (time_compare column ''>'' p) \<longleftrightarrow> instant p < t"
    and "holds \<rho> (time_compare column ''<='' p) \<longleftrightarrow> t \<le> instant p"
  using assms by (simp_all add: reads_time_def time_compare_def)

text \<open>The part of a time: how many of the decreasing points are not before it.\<close>

definition part_of :: "int list \<Rightarrow> int \<Rightarrow> nat" where
  "part_of points t = length (filter (\<lambda>p. t \<le> p) points)"

lemma part_of_bound: "part_of points t \<le> length points"
  by (simp add: part_of_def)

lemma part_of_iff:
  "sorted_wrt (\<ge>) points \<Longrightarrow> i \<le> length points \<Longrightarrow>
   part_of points t = i \<longleftrightarrow>
     (i > 0 \<longrightarrow> t \<le> points ! (i - 1)) \<and> (i < length points \<longrightarrow> points ! i < t)"
proof (induction points arbitrary: i)
  case (Cons p ps)
  show ?case
  proof (cases "t \<le> p")
    case False
    then have "filter (\<lambda>q. t \<le> q) ps = []" using Cons.prems(1) by (auto simp: filter_empty_conv)
    then have none: "part_of (p # ps) t = 0" using False by (simp add: part_of_def)
    show ?thesis
    proof (cases i)
      case 0
      then show ?thesis using none False by simp
    next
      case (Suc j)
      then have "(p # ps) ! j \<le> p" using Cons.prems by (cases j) auto
      then show ?thesis using none False Suc by simp
    qed
  next
    case True
    then show ?thesis
      using Cons.IH [of "i - 1"] Cons.prems by (cases i) (auto simp: part_of_def nth_Cons' split: if_splits)
  qed
qed (simp add: part_of_def)

lemma part_of_antimono: "t \<le> u \<Longrightarrow> part_of points u \<le> part_of points t"
  unfolding part_of_def by (induction points) auto

text \<open>The conditions of the parts, for points that end with the two limits.\<close>

lemma part_condition_holds:
  assumes rt: "reads_time \<rho> column t" and ms: "ms \<noteq> []" and i: "i \<le> length ms"
    and sorted: "sorted_wrt (\<ge>) (map instant ms)"
  shows "holds \<rho> (part_condition column ([u] @ ms @ [l]) i) \<longleftrightarrow> part_of (map instant ms) t = i"
proof -
  have nth: "([u] @ ms @ [l]) ! j = ms ! (j - 1)" if "0 < j" "j \<le> length ms" for j
    using that by (auto simp: nth_Cons' nth_append)
  have "part_of (map instant ms) t = i \<longleftrightarrow>
      (i > 0 \<longrightarrow> t \<le> instant (ms ! (i - 1))) \<and> (i < length ms \<longrightarrow> instant (ms ! i) < t)"
    using part_of_iff [OF sorted, of i t] i by auto
  then show ?thesis
    using i ms by (auto simp: part_condition_def holds_compare [OF rt] nth simp del: append.simps)
qed

section \<open>The union returns what the query returned\<close>

text \<open>The latest rows among those a condition keeps: ORDER BY time DESC LIMIT n.\<close>

definition latest_rows :: "('r \<Rightarrow> int) \<Rightarrow> ('r \<Rightarrow> bool) \<Rightarrow> nat \<Rightarrow> 'r list \<Rightarrow> 'r list" where
  "latest_rows time keep n rows = take n (sort_key (\<lambda>r. - time r) (filter keep rows))"

lemma take_concat_take: "take n (concat (map (take n) xss)) = take n (concat xss)"
proof (induction xss arbitrary: n)
  case (Cons xs xss)
  have "take k (concat (map (take n) xss)) = take k (concat xss)" if "k \<le> n" for k
  proof -
    have "take k (concat (map (take n) xss)) = take k (take n (concat (map (take n) xss)))"
      using that by (simp add: min_def)
    also have "\<dots> = take k (concat xss)" using that by (simp add: Cons.IH min_def)
    finally show ?thesis .
  qed
  then show ?case by (simp add: min_def)
qed simp

lemma concat_classes:
  "sorted (map k xs) \<Longrightarrow> list_all (\<lambda>x. k x < n) xs \<Longrightarrow>
   concat (map (\<lambda>i. filter (\<lambda>x. k x = i) xs) [0..<n]) = xs"
proof (induction n arbitrary: xs)
  case (Suc n)
  let ?a = "filter (\<lambda>x. k x < n) xs" and ?b = "filter (\<lambda>x. k x = n) xs"
  have "xs = ?a @ ?b"
    using Suc.prems
  proof (induction xs)
    case (Cons x xs)
    show ?case
    proof (cases "k x < n")
      case False
      with Cons.prems have "k x = n" "filter (\<lambda>x. k x < n) xs = []"
        by (auto simp: filter_empty_conv list_all_iff)
      then show ?thesis using Cons by auto
    qed (use Cons in auto)
  qed simp
  have "sorted (map k ?a)" using Suc.prems(1) by (rule sorted_filter)
  moreover have "list_all (\<lambda>x. k x < n) ?a" by (simp add: list_all_iff)
  ultimately have "concat (map (\<lambda>i. filter (\<lambda>x. k x = i) ?a) [0..<n]) = ?a" by (rule Suc.IH)
  moreover have cls: "map (\<lambda>i. filter (\<lambda>x. k x = i) ?a) [0..<n] = map (\<lambda>i. filter (\<lambda>x. k x = i) xs) [0..<n]"
    by (rule map_cong) (auto intro: filter_cong)
  ultimately have "concat (map (\<lambda>i. filter (\<lambda>x. k x = i) xs) [0..<n]) @ ?b = ?a @ ?b"
    by (simp only: cls)
  then show ?case using \<open>xs = ?a @ ?b\<close> by simp
next
  case 0
  then show ?case by (cases xs) auto
qed

lemma union_of_parts:
  assumes "\<And>r i. i \<le> length ps \<Longrightarrow> keep i r \<longleftrightarrow> part_of ps (time r) = i \<and> orig r"
  shows "take n (concat (map (\<lambda>i. latest_rows time (keep i) n rows) [0..<Suc (length ps)])) =
         latest_rows time orig n rows"
proof -
  let ?S = "sort_key (\<lambda>r. - time r) (filter orig rows)"
  let ?k = "\<lambda>r. part_of ps (time r)"
  have part: "latest_rows time (keep i) n rows = take n (filter (\<lambda>r. ?k r = i) ?S)" if "i \<le> length ps" for i
  proof -
    have "filter (keep i) rows = filter (\<lambda>r. ?k r = i) (filter orig rows)"
      using assms [OF that] by (simp add: conj_commute cong: filter_cong)
    then show ?thesis by (simp add: latest_rows_def filter_sort)
  qed
  have "map (\<lambda>i. latest_rows time (keep i) n rows) [0..<Suc (length ps)] =
      map (take n) (map (\<lambda>i. filter (\<lambda>r. ?k r = i) ?S) [0..<Suc (length ps)])"
    by (auto simp: part simp del: upt_Suc)
  then have "take n (concat (map (\<lambda>i. latest_rows time (keep i) n rows) [0..<Suc (length ps)])) =
      take n (concat (map (\<lambda>i. filter (\<lambda>r. ?k r = i) ?S) [0..<Suc (length ps)]))"
    by (simp only: take_concat_take)
  moreover have "sorted (map ?k ?S)"
  proof -
    have "sorted_wrt (\<lambda>a b. - time a \<le> - time b) ?S"
      using sorted_sort_key [of "\<lambda>r. - time r" "filter orig rows"] by (simp add: sorted_map)
    then show ?thesis
      by (auto simp: sorted_map intro: sorted_wrt_mono_rel [rotated] part_of_antimono)
  qed
  ultimately show ?thesis
    by (simp add: concat_classes list_all_iff part_of_bound less_Suc_eq_le latest_rows_def del: upt_Suc)
qed

text \<open>A query that was split.\<close>

lemma split_select_eq:
  assumes "split_select tr pts q = Some c" and "length pts > 1"
  obtains cols where "opt_mapM selected_column (Columns q) = Some cols"
    "c = SelectCommand False cols (union_all (map part_reference [0..<length pts - 1])) NilExpr [] [] []
      (Limit q) 0 (map (\<lambda>i. CTE (part_name i) (part_query (columnName tr) pts q i)) [0..<length pts - 1])"
proof -
  have hd: "hd (map (part_query (columnName tr) pts q) [0..<length pts - 1]) = part_query (columnName tr) pts q 0"
    using assms(2) by (simp add: hd_map)
  have cols: "Columns (part_query (columnName tr) pts q 0) = Columns q" "Limit (part_query (columnName tr) pts q 0) = Limit q"
    by (simp_all add: part_query_def set_where_def)
  show ?thesis
    using assms(1) that unfolding split_select_def Let_def hd cols by (auto simp: bind_eq_Some_conv)
qed

lemma findTimeRange_column:
  "findTimeRange q = Some (Some tr) \<Longrightarrow> \<exists>d. findOrderByColumn q = Some (columnName tr, d)"
proof -
  assume tr: "findTimeRange q = Some (Some tr)"
  then obtain column d where fo: "findOrderByColumn q = Some (column, d)"
    by (auto simp: findTimeRange_def split: if_splits option.splits)
  from tr fo obtain lower upper where "checkAndFindTimeLimits q column = Some (lower, upper)"
    "(case (lower, upper) of
        (Some l, Some u) \<Rightarrow> Some (Some \<lparr>columnName = column, lowerLimit = l, upperLimit = u\<rparr>)
      | _ \<Rightarrow> Some None) = Some (Some tr)"
    by (auto simp: findTimeRange_def bind_eq_Some_conv split: if_splits)
  then have "columnName tr = column" by (cases lower; cases upper) auto
  with fo show ?thesis by blast
qed

lemma transformQuery_changed:
  assumes "transformQuery props q = Some q'" and "q_SelectCommand q' \<noteq> q_SelectCommand q"
  obtains tr ms where "findTimeRange (q_SelectCommand q) = Some (Some tr)" "ms \<noteq> []"
    "sorted_wrt (\<ge>) (map instant ms)"
    "split_select tr ([upperLimit tr] @ ms @ [lowerLimit tr]) (q_SelectCommand q) = Some (q_SelectCommand q')"
proof -
  obtain tr where tr: "findTimeRange (q_SelectCommand q) = Some (Some tr)"
    and long: "\<not> length (getSplitPoints tr props) \<le> 2"
    and c: "split_select tr (getSplitPoints tr props) (q_SelectCommand q) = Some (q_SelectCommand q')"
    using assms by (auto simp: transformQuery_def bind_eq_Some_conv Let_def split: option.splits if_splits)
  let ?ms = "sort_slice later (inner_points tr props)"
  have le: "tl_value (lowerLimit tr) \<le> tl_value (upperLimit tr)"
    using getSplitPoints_crossed long by blast
  note shape = getSplitPoints_shape [OF le, of props]
  have func: "tl_funcName p = tl_funcName (upperLimit tr)" if "p \<in> set ?ms" for p
    using that inner_points_func by simp
  have "sorted_wrt (\<lambda>a b. instant b \<le> instant a) ?ms"
    by (rule sorted_wrt_mono_rel [OF _ sort_slice_sorted]) (auto simp: later_def instant_def func)
  then have "sorted_wrt (\<ge>) (map instant ?ms)" by (simp add: sorted_wrt_map)
  moreover have "?ms \<noteq> []" using long unfolding shape by auto
  ultimately show ?thesis using that [OF tr] c shape by simp
qed

section \<open>Properties\<close>

text \<open>
  C4: Splitting a query does not change its result.  Whenever the transformer changes a query,
  its common table expressions are the query itself with a stronger WHERE clause each, in the
  order of the union; and for any table whose comparisons read its time column right, the union
  of their latest rows, cut at the limit, is the list of latest rows of the query.
\<close>
theorem split_returns_same_rows:
  assumes "transformQuery properties q = Some q'" and "q_SelectCommand q' \<noteq> q_SelectCommand q"
    and "findOrderByColumn (q_SelectCommand q) = Some (column, direction)"
    and "\<And>r. reads_time (\<rho> r) column (time r)"
  shows "take n (concat (map (\<lambda>cte. latest_rows time (\<lambda>r. holds (\<rho> r) (WhereClause (cte_Select cte))) n rows)
             (NamedCTEs (q_SelectCommand q')))) =
           latest_rows time (\<lambda>r. holds (\<rho> r) (WhereClause (q_SelectCommand q))) n rows \<and>
         list_all (\<lambda>cte. cte_Select cte = set_where (WhereClause (cte_Select cte)) (q_SelectCommand q))
           (NamedCTEs (q_SelectCommand q')) \<and>
         FromClause (q_SelectCommand q') = union_all (map part_reference [0..<length (NamedCTEs (q_SelectCommand q'))]) \<and>
         map cte_Name (NamedCTEs (q_SelectCommand q')) = map part_name [0..<length (NamedCTEs (q_SelectCommand q'))] \<and>
         Limit (q_SelectCommand q') = Limit (q_SelectCommand q)"
proof -
  obtain tr ms where tr: "findTimeRange (q_SelectCommand q) = Some (Some tr)" and ms: "ms \<noteq> []"
    and sorted: "sorted_wrt (\<ge>) (map instant ms)"
    and c: "split_select tr ([upperLimit tr] @ ms @ [lowerLimit tr]) (q_SelectCommand q) = Some (q_SelectCommand q')"
    using transformQuery_changed [OF assms(1,2)] by blast
  have column: "columnName tr = column" using findTimeRange_column [OF tr] assms(3) by auto
  let ?pts = "[upperLimit tr] @ ms @ [lowerLimit tr]"
  let ?is = "[0..<Suc (length ms)]"
  from c obtain cols where c': "q_SelectCommand q' =
      SelectCommand False cols (union_all (map part_reference [0..<length ?pts - 1])) NilExpr [] [] []
        (Limit (q_SelectCommand q)) 0
        (map (\<lambda>i. CTE (part_name i) (part_query (columnName tr) ?pts (q_SelectCommand q) i)) [0..<length ?pts - 1])"
    by (rule split_select_eq) auto
  have ctes: "NamedCTEs (q_SelectCommand q') =
      map (\<lambda>i. CTE (part_name i) (part_query column ?pts (q_SelectCommand q) i)) ?is"
    and rest: "FromClause (q_SelectCommand q') = union_all (map part_reference ?is)"
      "Limit (q_SelectCommand q') = Limit (q_SelectCommand q)"
    by (simp_all add: c' column del: upt_Suc)
  have "take n (concat (map (\<lambda>i. latest_rows time (\<lambda>r. holds (\<rho> r) (WhereClause
          (part_query column ?pts (q_SelectCommand q) i))) n rows) [0..<Suc (length (map instant ms))])) =
        latest_rows time (\<lambda>r. holds (\<rho> r) (WhereClause (q_SelectCommand q))) n rows"
  proof (rule union_of_parts)
    fix r i assume "i \<le> length (map instant ms)"
    then have "holds (\<rho> r) (part_condition column ?pts i) \<longleftrightarrow> part_of (map instant ms) (time r) = i"
      by (intro part_condition_holds assms(4) ms sorted) simp
    then show "holds (\<rho> r) (WhereClause (part_query column ?pts (q_SelectCommand q) i)) =
        (part_of (map instant ms) (time r) = i \<and> holds (\<rho> r) (WhereClause (q_SelectCommand q)))"
      by (simp add: part_query_def set_where_def)
  qed
  then show ?thesis
    unfolding ctes rest
    by (simp add: part_query_def set_where_def list_all_iff o_def del: upt_Suc)
qed

text \<open>A query over the last hour of a table, in milliseconds.\<close>

definition sample_range_query :: "expr list \<Rightarrow> query" where
  "sample_range_query columns =
     \<lparr>q_SelectCommand = SelectCommand False columns (TableRef (NewTableRef ''logs''))
        (InfixExpr (time_compare ''ts'' ''>='' \<lparr>tl_value = 0, tl_funcName = milli_func\<rparr>) ''AND''
                   (time_compare ''ts'' ''<='' \<lparr>tl_value = 3600000, tl_funcName = milli_func\<rparr>))
        [] [OrderByExpr (ColumnRef (NewColumnRef ''ts'')) DescOrder] [] 10 0 [],
      q_OptimizeHints = Some NewQueryExecutionHints, q_TableName = ''logs''\<rparr>"

text \<open>Comparisons read by a clock.\<close>

fun clock :: "int \<Rightarrow> expr \<Rightarrow> bool" where
  "clock t (InfixExpr c op (FunctionExpr f [LiteralExpr l])) =
     (case Value l of
        VInt k v \<Rightarrow>
          (let p = instant \<lparr>tl_value = v, tl_funcName = f\<rparr>
           in if op = ''>'' then p < t else if op = ''>='' then p \<le> t
              else if op = ''<'' then t < p else op = ''<='' \<and> t \<le> p)
      | _ \<Rightarrow> False)"
| "clock t e = False"

lemma clock_reads_time: "reads_time (clock t) column t"
  by (simp add: reads_time_def time_compare_def NewLiteral_def instant_def)

lemma sample_split:
  "\<exists>q'. transformQuery Map.empty (sample_range_query columns) = Some q' \<and>
        q_SelectCommand q' \<noteq> q_SelectCommand (sample_range_query columns)"
  if "columns = [ColumnRef (NewColumnRef ''msg'')] \<or> columns = [FunctionExpr ''lower'' [ColumnRef (NewColumnRef ''msg'')]]"
proof -
  have "map_option (\<lambda>q. length (NamedCTEs (q_SelectCommand q)))
      (transformQuery Map.empty (sample_range_query columns)) = Some 2"
    using that by (elim disjE; simp only:) code_simp+
  then obtain q' where "transformQuery Map.empty (sample_range_query columns) = Some q'"
    "length (NamedCTEs (q_SelectCommand q')) = 2" by auto
  moreover have "NamedCTEs (q_SelectCommand (sample_range_query columns)) = []"
    by (simp add: sample_range_query_def)
  ultimately show ?thesis by force
qed

theorem split_returns_same_rows_witness:
  "\<exists>q'. transformQuery Map.empty (sample_range_query [ColumnRef (NewColumnRef ''msg'')]) = Some q' \<and>
     take 10 (concat (map (\<lambda>cte. latest_rows id (\<lambda>r. holds (clock r) (WhereClause (cte_Select cte))) 10 [5, 7, 6])
             (NamedCTEs (q_SelectCommand q')))) =
     latest_rows id (\<lambda>r. holds (clock r)
       (WhereClause (q_SelectCommand (sample_range_query [ColumnRef (NewColumnRef ''msg'')])))) 10 [5, 7, 6]"
proof -
  obtain q' where q': "transformQuery Map.empty (sample_range_query [ColumnRef (NewColumnRef ''msg'')]) = Some q'"
    "q_SelectCommand q' \<noteq> q_SelectCommand (sample_range_query [ColumnRef (NewColumnRef ''msg'')])"
    using sample_split by blast
  have "findOrderByColumn (q_SelectCommand (sample_range_query [ColumnRef (NewColumnRef ''msg'')])) = Some (''ts'', DescOrder)"
    by (simp add: findOrderByColumn_def sample_range_query_def NewColumnRef_def)
  from split_returns_same_rows [OF q' this, of clock id 10 "[5, 7, 6]"] show ?thesis
    using q'(1) clock_reads_time by auto
qed

text \<open>
  A selected call is lost by the split: the transformer accepts calls among the selected
  columns, but the outer SELECT it builds has the nil expression in their place.
\<close>
lemma split_loses_function_columns:
  assumes "transformQuery properties q = Some q'" and "q_SelectCommand q' \<noteq> q_SelectCommand q"
    and "i < length (Columns (q_SelectCommand q))" and "Columns (q_SelectCommand q) ! i = FunctionExpr name args"
  shows "i < length (Columns (q_SelectCommand q')) \<and> Columns (q_SelectCommand q') ! i = NilExpr"
proof -
  obtain tr ms where c: "split_select tr ([upperLimit tr] @ ms @ [lowerLimit tr]) (q_SelectCommand q) = Some (q_SelectCommand q')"
    using transformQuery_changed [OF assms(1,2)] by blast
  from c obtain cols where "opt_mapM selected_column (Columns (q_SelectCommand q)) = Some cols"
    "Columns (q_SelectCommand q') = cols"
    by (rule split_select_eq) auto
  moreover from this(1) have "list_all2 (\<lambda>a b. selected_column a = Some b) (Columns (q_SelectCommand q)) cols"
    by (rule opt_mapM_list_all2)
  ultimately show ?thesis
    using assms(3,4) by (auto simp: list_all2_conv_all_nth selected_column_def)
qed

lemma split_loses_function_columns_example:
  "\<exists>q'. transformQuery Map.empty (sample_range_query [FunctionExpr ''lower'' [ColumnRef (NewColumnRef ''msg'')]]) = Some q' \<and>
     Columns (q_SelectCommand q') ! 0 = NilExpr"
proof -
  let ?q = "sample_range_query [FunctionExpr ''lower'' [ColumnRef (NewColumnRef ''msg'')]]"
  obtain q' where q': "transformQuery Map.empty ?q = Some q'" "q_SelectCommand q' \<noteq> q_SelectCommand ?q"
    using sample_split by blast
  with split_loses_function_columns [OF q', of 0] show ?thesis
    by (simp add: sample_range_query_def)
qed

end
