(* ===== verification/Optimize_Trunc.thy ===== *)
theory Optimize_Trunc
  imports Optimize_Split
begin

text \<open>
  The transformer of \<open>quesma/optimize/trunc_date.go\<close>, which widens the bounds of long time
  ranges to multiples of a duration, and the pipeline of all four transformers
  (\<open>NewOptimizePipeline\<close>).
\<close>

section \<open>Truncated comparisons\<close>

definition best_effort :: string where "best_effort = ''parseDateTime64BestEffort''"

text \<open>The function and the unquoted date of a date node.\<close>

definition processDateNode :: "expr \<Rightarrow> (string \<times> string) option" where
  "processDateNode e =
     (case e of
        FunctionExpr name args \<Rightarrow>
          if name = best_effort then
            (case args of
               [LiteralExpr l] \<Rightarrow>
                 (case Value l of VString s \<Rightarrow> Some (name, trim_char (CHR 0x27) s) | _ \<Rightarrow> None)
             | _ \<Rightarrow> None)
          else None
      | _ \<Rightarrow> None)"

record date_comparison =
  dc_column :: string
  dc_op :: string
  dc_fn :: string
  dc_date :: string

definition comparison_ops :: "string list" where
  "comparison_ops = [''>'', ''<'', ''>='', ''<='']"

definition processDateComparisonNode :: "expr \<Rightarrow> date_comparison option" where
  "processDateComparisonNode e =
     (case e of
        InfixExpr l op r \<Rightarrow>
          if op \<in> set comparison_ops then
            (case l of
               ColumnRef column \<Rightarrow>
                 (case processDateNode r of
                    Some (fn, date) \<Rightarrow>
                      Some \<lparr>dc_column = ColumnName column, dc_op = op, dc_fn = fn, dc_date = date\<rparr>
                  | None \<Rightarrow> None)
             | _ \<Rightarrow> None)
          else None
      | _ \<Rightarrow> None)"

definition date_expr :: "string \<Rightarrow> string \<Rightarrow> expr" where
  "date_expr fn str = FunctionExpr fn [LiteralExpr (NewLiteral (VString (SingleQuote str)))]"

definition compare_expr :: "string \<Rightarrow> string \<Rightarrow> expr \<Rightarrow> expr" where
  "compare_expr column op right = InfixExpr (ColumnRef (NewColumnRef column)) op right"

definition truncated_time :: "int \<Rightarrow> string \<Rightarrow> gotime \<Rightarrow> gotime" where
  "truncated_time truncateTo op t =
     (let truncatedDate = time_Truncate t truncateTo
      in if op = ''<'' \<or> op = ''<='' then time_Add truncatedDate truncateTo else truncatedDate)"

definition truncate_date :: "int \<Rightarrow> string \<Rightarrow> gotime \<Rightarrow> string" where
  "truncate_date truncateTo op t = format_RFC3339 (truncated_time truncateTo op t)"

definition hours24 :: int where "hours24 = 24 * 3600 * 10 ^ 9"

definition truncate :: "int \<Rightarrow> expr \<Rightarrow> string \<Rightarrow> expr \<Rightarrow> expr option" where
  "truncate truncateTo l op r =
     do { left \<leftarrow> processDateComparisonNode l;
          right \<leftarrow> processDateComparisonNode r;
          if dc_column left \<noteq> dc_column right then None
          else do { leftTime \<leftarrow> parse_RFC3339 (dc_date left);
                    rightTime \<leftarrow> parse_RFC3339 (dc_date right);
                    if duration_Abs (time_Sub rightTime leftTime) > hours24 then
                      Some (InfixExpr
                        (compare_expr (dc_column left) (dc_op left)
                           (date_expr (dc_fn left) (truncate_date truncateTo (dc_op left) leftTime)))
                        op
                        (compare_expr (dc_column right) (dc_op right)
                           (date_expr (dc_fn right) (truncate_date truncateTo (dc_op right) rightTime))))
                    else None } }"

text \<open>The captured variable: whether anything was truncated.\<close>

definition trunc_infix ::
  "int \<Rightarrow> bool walk \<Rightarrow> expr \<Rightarrow> string \<Rightarrow> expr \<Rightarrow> bool \<Rightarrow> (expr \<times> bool) option" where
  "trunc_infix truncateTo b l op r s =
     (case (if to_lower op = ''and'' then truncate truncateTo l op r else None) of
        Some e \<Rightarrow> Some (e, True)
      | None \<Rightarrow>
          do { (l', s) \<leftarrow> visit_as as_Expr b l s; (r', s) \<leftarrow> visit_as as_Expr b r s;
               Some (InfixExpr l' op r', s) })"

definition newTruncDate :: "int \<Rightarrow> bool base_visitor" where
  "newTruncDate truncateTo = NewBaseVisitor\<lparr>OverrideVisitInfix := Some (trunc_infix truncateTo)\<rparr>"

definition trunc_query :: "int \<Rightarrow> query \<Rightarrow> query option" where
  "trunc_query truncateTo q =
     do { res \<leftarrow> visit_as as_SelectCommand (accept (newTruncDate truncateTo)) (SelectE (q_SelectCommand q)) False;
          keep_or_replace ''truncate_date'' q res }"

definition truncateDate :: "int \<Rightarrow> optimize_transformer" where
  "truncateDate truncateTo =
     \<lparr>TransformerName = ''truncate_date'', IsEnabledByDefault = False,
      TransformQueries = (\<lambda>queries properties. map_option Inr (opt_mapM (trunc_query truncateTo) queries))\<rparr>"

interpretation trunc: traced_optimizer "truncateDate d" for d
  by (rule traced_per_query [where f = "\<lambda>_. trunc_query d"])
    (auto simp: truncateDate_def trunc_query_def bind_eq_Some_conv keep_or_replace_evolves keep_or_replace_traced)

section \<open>The pipeline of all transformers\<close>

definition five_minutes :: int where "five_minutes = 5 * 60 * 10 ^ 9"

definition NewOptimizePipeline :: "optimize_transformer list" where
  "NewOptimizePipeline = [truncateDate five_minutes, cacheQueries, materializedViewReplace, splitTimeRange]"

lemma pipeline_optimizers: "list_all optimizer NewOptimizePipeline"
  by (simp add: NewOptimizePipeline_def trunc.optimizer_axioms cache.optimizer_axioms view.optimizer_axioms
      split.optimizer_axioms)

lemma add_hints_props:
  "list_all has_hints (map add_hints qs)" "getIndexName (map add_hints qs) = getIndexName qs"
  by (auto simp: list_all_iff has_hints_def add_hints_def getIndexName_def split: option.splits list.splits)

section \<open>What truncation does to a bound\<close>

definition upper_op :: "string \<Rightarrow> bool" where
  "upper_op op \<longleftrightarrow> op = ''<'' \<or> op = ''<=''"

lemma truncated_time_bounds:
  assumes "0 < d"
  shows "upper_op op \<Longrightarrow> unix_nano t < unix_nano (truncated_time d op t) \<and> unix_nano (truncated_time d op t) \<le> unix_nano t + d"
    and "\<not> upper_op op \<Longrightarrow> unix_nano (truncated_time d op t) \<le> unix_nano t \<and> unix_nano t < unix_nano (truncated_time d op t) + d"
  using time_Truncate_bounds [OF assms, of t]
  by (auto simp: truncated_time_def upper_op_def Let_def time_Add_def)

lemma digit_not_quote: "d < 10 \<Longrightarrow> digit_char d \<noteq> CHR 0x27"
proof
  assume "d < 10" "digit_char d = CHR 0x27"
  then have "digit (CHR 0x27)" using digit_char_props [of d] by simp
  then show False by (simp add: digit_def)
qed

lemma trim_char_quoted:
  assumes "s \<noteq> []" "hd s \<noteq> c" "last s \<noteq> c"
  shows "trim_char c ([c] @ s @ [c]) = s"
proof -
  have a: "dropWhile ((=) c) (s @ [c]) = s @ [c]"
    using assms by (cases s) auto
  have "dropWhile ((=) c) (rev s) = rev s"
    using assms by (cases s rule: rev_cases) auto
  then show ?thesis using a by (simp add: trim_char_def)
qed

lemma four_digits_shape: "n < 10000 \<Longrightarrow> four_digits n \<noteq> [] \<and> hd (four_digits n) \<noteq> CHR 0x27"
  using digit_not_quote [of "n div 1000"] by (simp add: four_digits_def less_mult_imp_div_less)

lemma print_zone_shape: "print_zone off \<noteq> [] \<and> last (print_zone off) \<noteq> CHR 0x27"
proof (cases "off = 0")
  case False
  have "print_zone off = (print_zone off :: string)" ..
  let ?m = "nat \<bar>off\<bar> div 60"
  have "print_zone off = ((if off < 0 then CHR ''-'' else CHR ''+'') # two_digits (?m div 60) @ '':''
      @ [digit_char (?m mod 60 div 10)]) @ [digit_char (?m mod 60 mod 10)]"
    using False by (simp add: print_zone_def Let_def two_digits_def)
  then show ?thesis using digit_not_quote [of "?m mod 60 mod 10"] by (metis append_is_Nil_conv last_snoc
      list.distinct(1) mod_less_divisor zero_less_numeral)
qed (simp add: print_zone_def)

text \<open>The time of a date node, and a printed date read back through its quotes.\<close>

definition date_time :: "expr \<Rightarrow> gotime option" where
  "date_time e = (case processDateNode e of Some (fn, s) \<Rightarrow> parse_RFC3339 s | None \<Rightarrow> None)"

lemma date_expr_time:
  assumes "printable_time t"
  shows "date_time (date_expr best_effort (format_RFC3339 t)) = Some t"
proof -
  have shape: "format_RFC3339 t \<noteq> [] \<and> hd (format_RFC3339 t) \<noteq> CHR 0x27 \<and> last (format_RFC3339 t) \<noteq> CHR 0x27"
  proof -
    define days where "days = (unix_nano t div second + zone t) div 86400 + epoch_days"
    obtain y m d where date: "date_of_days days = (y, m, d)" by (cases "date_of_days days") auto
    have y: "y = year_of_days days" using date_roundtrip [OF date] by blast
    have "year_start 0 \<le> days" "days < year_start 10000"
      using assms by (simp_all add: printable_time_def days_def)
    then have "0 \<le> y" "y < 10000"
      using year_of_days_correct [of days] year_start_mono [of "y + 1" 0] year_start_mono [of 10000 y]
      unfolding y by linarith+
    then have "four_digits (nat y) \<noteq> [] \<and> hd (four_digits (nat y)) \<noteq> CHR 0x27"
      by (intro four_digits_shape) simp
    then show ?thesis
      using \<open>0 \<le> y\<close> print_zone_shape [of "zone t"] date
      by (simp add: format_RFC3339_def Let_def days_def [symmetric])
  qed
  then show ?thesis
    using parse_format [OF assms] trim_char_quoted [of "format_RFC3339 t" "CHR 0x27"]
    by (simp add: date_time_def processDateNode_def date_expr_def NewLiteral_def SingleQuote_def)
qed

text \<open>
  A comparison loosened by at most \<open>d\<close>: the same column, operator and function, with an upper
  bound that is later and a lower bound that is not later.
\<close>

definition loosened :: "int \<Rightarrow> expr \<Rightarrow> expr \<Rightarrow> bool" where
  "loosened d e e' \<longleftrightarrow>
     (\<exists>c op b b' t t'. e = InfixExpr (ColumnRef c) op b \<and> op \<in> set comparison_ops \<and>
        e' = InfixExpr (ColumnRef (NewColumnRef (ColumnName c))) op b' \<and>
        date_time b = Some t \<and> date_time b' = Some t' \<and>
        (if upper_op op then unix_nano t < unix_nano t' \<and> unix_nano t' \<le> unix_nano t + d
         else unix_nano t' \<le> unix_nano t \<and> unix_nano t < unix_nano t' + d))"

definition time_holds :: "string \<Rightarrow> int \<Rightarrow> int \<Rightarrow> bool" where
  "time_holds op x bound \<longleftrightarrow>
     (if op = ''>'' then bound < x else if op = ''>='' then bound \<le> x
      else if op = ''<'' then x < bound else x \<le> bound)"

text \<open>A valuation that reads the time \<open>x\<close> of a row in the column rightly.\<close>

definition reads_dates :: "(expr \<Rightarrow> bool) \<Rightarrow> string \<Rightarrow> int \<Rightarrow> bool" where
  "reads_dates \<rho> column x \<longleftrightarrow>
     (\<forall>c op b t. ColumnName c = column \<longrightarrow> op \<in> set comparison_ops \<longrightarrow> date_time b = Some t \<longrightarrow>
        \<rho> (InfixExpr (ColumnRef c) op b) = time_holds op x (unix_nano t))"

lemmas time_eval = parse_RFC3339_def get_year_def skip_def getnum_def ranged_def get_fraction_def get_zone_def
  digit_def digit_value_def digits_value_def days_of_date_def year_start_def month_lengths_def leap_def
  epoch_days_def second_def Let_def

lemmas bound_eval = printable_time_def truncated_time_def time_Truncate_def time_Add_def five_minutes_def
  zero_time_offset_def second_def zone_ok_def year_start_def epoch_days_def duration_Abs_def time_Sub_def
  clamp64_def hours24_def

lemma loosened_holds:
  assumes "loosened d e e'" and "reads_dates \<rho> column x" and "\<exists>c op b. e = InfixExpr (ColumnRef c) op b \<and> ColumnName c = column"
  shows "holds \<rho> e \<longrightarrow> holds \<rho> e'"
proof -
  obtain c op b b' t t' where e: "e = InfixExpr (ColumnRef c) op b" "op \<in> set comparison_ops"
    "e' = InfixExpr (ColumnRef (NewColumnRef (ColumnName c))) op b'"
    "date_time b = Some t" "date_time b' = Some t'"
    "if upper_op op then unix_nano t < unix_nano t' \<and> unix_nano t' \<le> unix_nano t + d
     else unix_nano t' \<le> unix_nano t \<and> unix_nano t < unix_nano t' + d"
    using assms(1) unfolding loosened_def by blast
  have "ColumnName c = column" using assms(3) e(1) by auto
  then have "\<rho> e = time_holds op x (unix_nano t)" "\<rho> e' = time_holds op x (unix_nano t')"
    using assms(2) e unfolding reads_dates_def by (auto simp: NewColumnRef_def)
  moreover have "holds \<rho> e = \<rho> e" "holds \<rho> e' = \<rho> e'"
    using e(1-3) by (auto simp: comparison_ops_def)
  ultimately show ?thesis using e(2,6) by (auto simp: time_holds_def upper_op_def comparison_ops_def split: if_splits)
qed

lemma comparison_node:
  assumes "processDateComparisonNode e = Some a"
  shows "\<exists>c b. e = InfixExpr (ColumnRef c) (dc_op a) b \<and> dc_op a \<in> set comparison_ops \<and> ColumnName c = dc_column a \<and>
     processDateNode b = Some (dc_fn a, dc_date a) \<and> dc_fn a = best_effort"
proof -
  have fn: "processDateNode b = Some (f, s) \<Longrightarrow> f = best_effort" for b f s
    by (cases b) (auto simp: processDateNode_def split: list.splits expr.splits any_value.splits if_splits)
  obtain l op r where e: "e = InfixExpr l op r" "op \<in> set comparison_ops"
    using assms by (cases e) (auto simp: processDateComparisonNode_def split: if_splits)
  moreover obtain c where "l = ColumnRef c"
    using assms e by (cases l) (auto simp: processDateComparisonNode_def)
  moreover from assms e this obtain f s where "processDateNode r = Some (f, s)"
    "a = \<lparr>dc_column = ColumnName c, dc_op = op, dc_fn = f, dc_date = s\<rparr>"
    by (auto simp: processDateComparisonNode_def split: option.splits)
  ultimately show ?thesis using fn by auto
qed

lemma truncated_side:
  assumes "processDateComparisonNode e = Some a" and "parse_RFC3339 (dc_date a) = Some t"
    and "printable_time (truncated_time d (dc_op a) t)" and "0 < d"
  shows "loosened d e (compare_expr (dc_column a) (dc_op a)
           (date_expr (dc_fn a) (truncate_date d (dc_op a) t)))"
proof -
  obtain c b where e: "e = InfixExpr (ColumnRef c) (dc_op a) b" "dc_op a \<in> set comparison_ops"
    "ColumnName c = dc_column a" "processDateNode b = Some (dc_fn a, dc_date a)" "dc_fn a = best_effort"
    using comparison_node [OF assms(1)] by blast
  have "date_time b = Some t" using e(4) assms(2) by (simp add: date_time_def)
  moreover have "date_time (date_expr (dc_fn a) (truncate_date d (dc_op a) t)) = Some (truncated_time d (dc_op a) t)"
    using date_expr_time [OF assms(3)] e(5) by (simp add: truncate_date_def)
  ultimately show ?thesis
    unfolding loosened_def compare_expr_def
    using e(1-3) truncated_time_bounds [OF assms(4), of "dc_op a" t]
    by (intro exI [of _ c] exI [of _ "dc_op a"] exI [of _ b] exI [of _ t]
        exI [of _ "truncated_time d (dc_op a) t"]
        exI [of _ "date_expr (dc_fn a) (truncate_date d (dc_op a) t)"]) auto
qed

lemma unconfigured_pipeline:
  assumes "\<And>cfg. map_of (IndexConfig conf) (last_name_part (q_TableName q)) = Some cfg \<Longrightarrow> Optimizers cfg = Map.empty"
  shows "pipeline_Transform conf NewOptimizePipeline (q # qs) =
           TransformQueries splitTimeRange (map add_hints (q # qs)) Map.empty"
proof -
  let ?qs = "map add_hints (q # qs)"
  have idx: "getIndexName ?qs = Some (last_name_part (q_TableName q))"
    unfolding add_hints_props(2) by (simp add: getIndexName_def)
  have cfg: "findConfig conf T ?qs = Some (\<not> IsEnabledByDefault T, Map.empty)" for T
    using assms unfolding findConfig_def idx by (auto split: option.splits)
  have id: "(x \<bind> case_sum (\<lambda>err. Some (Inl err)) (run_optimizations conf [])) = x" for x
    by (cases x) (auto split: sum.split)
  show ?thesis
    unfolding pipeline_Transform_def NewOptimizePipeline_def
    by (simp add: cfg del: list.map(2)) (simp add: truncateDate_def cacheQueries_def materializedViewReplace_def splitTimeRange_def id)
qed

section \<open>Properties\<close>

definition plain_conf :: quesma_configuration where
  "plain_conf =
     \<lparr>IndexConfig = [], DefaultIngestTarget = [ElasticsearchTarget], DefaultQueryTarget = [ElasticsearchTarget],
      UseCommonTableForWildcard = False, AutodiscoveryEnabled = False\<rparr>"

text \<open>
  C15: Truncating dates only widens a range, by at most one step on each side.  When a pair of
  comparisons is truncated and the new bounds have four-digit years, both sides keep their
  column, operator and function; the new dates are read back as bounds that are loosened by at
  most the step; so every row the old conjunction kept is kept by the new one.
\<close>
theorem truncation_widens:
  assumes "truncate d l op r = Some e'" and "0 < d"
    and "processDateComparisonNode l = Some a" and "parse_RFC3339 (dc_date a) = Some t"
    and "processDateComparisonNode r = Some b" and "parse_RFC3339 (dc_date b) = Some u"
    and "printable_time (truncated_time d (dc_op a) t)" and "printable_time (truncated_time d (dc_op b) u)"
  shows "\<exists>l' r'. e' = InfixExpr l' op r' \<and> loosened d l l' \<and> loosened d r r' \<and>
           (\<forall>\<rho> x. op = ''AND'' \<and> reads_dates \<rho> (dc_column a) x \<and> holds \<rho> (InfixExpr l op r) \<longrightarrow> holds \<rho> e')"
proof -
  let ?l = "compare_expr (dc_column a) (dc_op a) (date_expr (dc_fn a) (truncate_date d (dc_op a) t))"
  let ?r = "compare_expr (dc_column b) (dc_op b) (date_expr (dc_fn b) (truncate_date d (dc_op b) u))"
  have e': "e' = InfixExpr ?l op ?r" and col: "dc_column a = dc_column b"
    using assms(1) by (auto simp: truncate_def assms(3-6) split: if_splits)
  have l: "loosened d l ?l" by (rule truncated_side [OF assms(3,4,7,2)])
  have r: "loosened d r ?r" by (rule truncated_side [OF assms(5,6,8,2)])
  have cl: "\<exists>c op b. l = InfixExpr (ColumnRef c) op b \<and> ColumnName c = dc_column a"
    and cr: "\<exists>c op b. r = InfixExpr (ColumnRef c) op b \<and> ColumnName c = dc_column a"
    using comparison_node [OF assms(3)] comparison_node [OF assms(5)] col by auto
  have "op = ''AND'' \<and> reads_dates \<rho> (dc_column a) x \<and> holds \<rho> (InfixExpr l op r) \<longrightarrow> holds \<rho> e'" for \<rho> x
    using loosened_holds [OF l _ cl, of \<rho> x] loosened_holds [OF r _ cr, of \<rho> x] by (auto simp: e')
  with e' l r show ?thesis by blast
qed

definition date_bound :: "string \<Rightarrow> string \<Rightarrow> expr" where
  "date_bound op s = compare_expr ''ts'' op (date_expr best_effort s)"

theorem truncation_widens_witness:
  "\<exists>l' r'. truncate five_minutes (date_bound ''>='' ''2024-06-04T13:08:53.675Z'') ''AND''
       (date_bound ''<='' ''2024-06-06T13:10:53Z'') = Some (InfixExpr l' ''AND'' r') \<and>
     loosened five_minutes (date_bound ''>='' ''2024-06-04T13:08:53.675Z'') l' \<and>
     loosened five_minutes (date_bound ''<='' ''2024-06-06T13:10:53Z'') r'"
proof -
  let ?l = "date_bound ''>='' ''2024-06-04T13:08:53.675Z''" and ?r = "date_bound ''<='' ''2024-06-06T13:10:53Z''"
  let ?a = "\<lparr>dc_column = ''ts'', dc_op = ''>='', dc_fn = best_effort, dc_date = ''2024-06-04T13:08:53.675Z''\<rparr>"
  let ?b = "\<lparr>dc_column = ''ts'', dc_op = ''<='', dc_fn = best_effort, dc_date = ''2024-06-06T13:10:53Z''\<rparr>"
  let ?t = "\<lparr>unix_nano = 1717506533675000000, zone = 0\<rparr>" and ?u = "\<lparr>unix_nano = 1717679453000000000, zone = 0\<rparr>"
  have a: "processDateComparisonNode ?l = Some ?a" and b: "processDateComparisonNode ?r = Some ?b" by code_simp+
  have t: "parse_RFC3339 (dc_date ?a) = Some ?t" and u: "parse_RFC3339 (dc_date ?b) = Some ?u"
    by (simp_all add: time_eval)
  have p: "printable_time (truncated_time five_minutes (dc_op ?a) ?t)"
    "printable_time (truncated_time five_minutes (dc_op ?b) ?u)"
    by (simp_all add: bound_eval)
  have "duration_Abs (time_Sub ?u ?t) > hours24" by (simp add: bound_eval)
  then have "truncate five_minutes ?l ''AND'' ?r \<noteq> None"
    using t u by (simp add: truncate_def a b)
  then obtain e' where e': "truncate five_minutes ?l ''AND'' ?r = Some e'" by auto
  have "0 < five_minutes" by (simp add: five_minutes_def)
  from truncation_widens [OF e' this a t b u p] e' show ?thesis by auto
qed

text \<open>
  The pipeline keeps the plan: whatever it returns is no error but the same queries in the
  same order with their tables, every one has hints, and the list of performed optimizations of
  each has grown by names of enabled transformers only, in the order of the pipeline.
\<close>
lemma pipeline_keeps_plan:
  assumes "pipeline_Transform conf NewOptimizePipeline (q # qs) = Some result"
  shows "\<exists>queries'. result = Inr queries' \<and>
           list_all2 (evolves (map TransformerName
               (filter (enabled_in conf (last_name_part (q_TableName q))) NewOptimizePipeline)))
             (map add_hints (q # qs)) queries'"
proof -
  have "getIndexName (map add_hints (q # qs)) = Some (last_name_part (q_TableName q))"
    unfolding add_hints_props(2) by (simp add: getIndexName_def)
  moreover have "run_optimizations conf NewOptimizePipeline (map add_hints (q # qs)) = Some result"
    using assms by (simp add: pipeline_Transform_def)
  ultimately show ?thesis
    using run_optimizations_evolves [OF pipeline_optimizers _ add_hints_props(1)] by blast
qed

text \<open>
  Transformers that change results or cost memory have to be asked for: for an index without
  an optimizer configuration, the pipeline is the time range split alone, without properties.
\<close>
lemma unconfigured_index_only_splits:
  assumes "\<And>cfg. map_of (IndexConfig conf) (last_name_part (q_TableName q)) = Some cfg \<Longrightarrow> Optimizers cfg = Map.empty"
  shows "pipeline_Transform conf NewOptimizePipeline (q # qs) =
           TransformQueries splitTimeRange (map add_hints (q # qs)) Map.empty"
  using assms by (rule unconfigured_pipeline)

lemma unconfigured_index_only_splits_example:
  "pipeline_Transform plain_conf NewOptimizePipeline [sample_range_query []] =
     TransformQueries splitTimeRange [add_hints (sample_range_query [])] Map.empty"
  by (subst unconfigured_index_only_splits) (simp_all add: plain_conf_def)

lemma pipeline_keeps_plan_example:
  "\<exists>queries'. pipeline_Transform plain_conf NewOptimizePipeline
       [sample_range_query [ColumnRef (NewColumnRef ''msg'')]] = Some (Inr queries') \<and> length queries' = 1"
proof -
  let ?q = "sample_range_query [ColumnRef (NewColumnRef ''msg'')]"
  obtain q' where "transformQuery Map.empty ?q = Some q'" using sample_split by blast
  moreover have "add_hints ?q = ?q" by (simp add: add_hints_def sample_range_query_def)
  ultimately have r: "pipeline_Transform plain_conf NewOptimizePipeline [?q] = Some (Inr [q'])"
    using unconfigured_pipeline [of plain_conf ?q "[]"] by (simp add: plain_conf_def splitTimeRange_def)
  from pipeline_keeps_plan [OF r] show ?thesis using r by auto
qed

end
