(* ===== verification/Table_Resolver.thy ===== *)
theory Table_Resolver
  imports Config
begin

text \<open>
  \<open>quesma/table_resolver\<close>: from an index name or pattern to the decision which connectors
  answer.  A splitter turns the pattern into index names, a ladder of rules decides on each
  name, a merger makes one decision of them.  Decisions are those of
  \<open>quesma/v2/core/decision.go\<close>; an \<open>error\<close> value is a constructor of \<open>resolver_error\<close> with the
  arguments of its message.
\<close>

section \<open>Decisions\<close>

record connector_clickhouse =
  ClickhouseTableName :: string
  ClickhouseIndexes :: "string list"
  IsCommonTable :: bool

datatype connector_decision =
    ConnectorDecisionElastic bool
  | ConnectorDecisionClickhouse connector_clickhouse

datatype resolver_error =
    PatternNotAllowed
  | PipelineNotFound string
  | UnsupportedPipeline string
  | UnsupportedTarget string
  | UnsupportedConfigurationFor string "string list"
  | TooManyBackendConnectors
  | CommonTableNotAllowed
  | DifferentTables connector_clickhouse connector_clickhouse
  | DifferentCommonTableUsage connector_clickhouse connector_clickhouse
  | DifferentClickhouseUsage connector_clickhouse connector_clickhouse
  | DifferentConnectors connector_decision string "connector_decision list"
  | CouldNotResolveIndex
  | CouldNotResolveEmptyIndex string
  | InconsistentABTesting string bool string bool
  | InconsistentConnectorCount string nat string nat

record decision =
  IndexPattern :: string
  IsClosed :: bool
  Err :: "resolver_error option"
  IsEmpty :: bool
  EnableABTesting :: bool
  UseConnectors :: "connector_decision list"
  Reason :: string
  ResolverName :: string

definition no_decision :: decision where
  "no_decision =
     \<lparr>IndexPattern = [], IsClosed = False, Err = None, IsEmpty = False, EnableABTesting = False,
      UseConnectors = [], Reason = [], ResolverName = []\<rparr>"

definition QueryPipeline :: string where "QueryPipeline = ''Query''"
definition IngestPipeline :: string where "IngestPipeline = ''Ingest''"
definition CommonTableName :: string where "CommonTableName = ''quesma_common_table''"
definition DefaultWildcardIndexName :: string where "DefaultWildcardIndexName = ''*''"

lemma pipelines_distinct [simp]: "QueryPipeline \<noteq> IngestPipeline" "IngestPipeline \<noteq> QueryPipeline"
  by (simp_all add: QueryPipeline_def IngestPipeline_def)

text \<open>\<open>Message\<close> of the connector decisions.\<close>

definition connector_message :: "connector_decision \<Rightarrow> string" where
  "connector_message d =
     (case d of
        ConnectorDecisionElastic managementCall \<Rightarrow>
          join '' '' ([''Pass to Elasticsearch.''] @ (if managementCall then [''Management call.''] else []))
      | ConnectorDecisionClickhouse c \<Rightarrow>
          join '' '' ([''Pass to clickhouse.''] @
            (if length (ClickhouseTableName c) > 0
             then [''Table: '' @ [CHR 0x27] @ ClickhouseTableName c @ [CHR 0x27] @ '' .''] else []) @
            (if IsCommonTable c then [''Common table.''] else []) @
            (if length (ClickhouseIndexes c) > 0
             then [''Indexes: ['' @ join '' '' (ClickhouseIndexes c) @ ''].''] else [])))"

section \<open>Splitting a pattern\<close>

text \<open>What was discovered in the backends; a table is virtual or not.\<close>

record index_state =
  elasticIndexes :: "string list"
  clickhouseIndexes :: "(string \<times> bool) list"

record parsed_pattern =
  pp_source :: string
  pp_isPattern :: bool
  pp_parts :: "string list"

definition matching_names :: "quesma_configuration \<Rightarrow> index_state \<Rightarrow> string \<Rightarrow> string list" where
  "matching_names conf r pattern =
     (if \<not> IsIndexPattern pattern \<or> IsInternalIndex pattern then [pattern]
      else
        filter (IndexPatternMatches pattern) (map fst (IndexConfig conf)) @
        filter (IndexPatternMatches pattern) (elasticIndexes r) @
        (if AutodiscoveryEnabled conf
         then filter (IndexPatternMatches pattern) (map fst (clickhouseIndexes r)) else []))"

definition wildcardPatternSplitter ::
  "quesma_configuration \<Rightarrow> index_state \<Rightarrow> string \<Rightarrow> parsed_pattern \<times> decision option" where
  "wildcardPatternSplitter conf r pattern =
     (let patterns = split_on (CHR '','') pattern;
          matchingSingleNames = concat (map (matching_names conf r) patterns);
          matchingSingleNames = distinct_sorted matchingSingleNames
      in (\<lparr>pp_source = pattern, pp_isPattern = (length patterns > 1 \<or> contains pattern ''*''),
           pp_parts = matchingSingleNames\<rparr>, None))"

definition singleIndexSplitter :: "string \<Rightarrow> parsed_pattern \<times> decision option" where
  "singleIndexSplitter pattern =
     (let patterns = split_on (CHR '','') pattern
      in if length patterns > 1 \<or> contains pattern ''*''
         then (\<lparr>pp_source = [], pp_isPattern = False, pp_parts = []\<rparr>,
               Some (no_decision\<lparr>Reason := ''Pattern is not allowed.'', Err := Some PatternNotAllowed\<rparr>))
         else (\<lparr>pp_source = pattern, pp_isPattern = False, pp_parts = patterns\<rparr>, None))"

section \<open>The rules of the ladder\<close>

definition getTargets :: "index_configuration \<Rightarrow> string \<Rightarrow> string list" where
  "getTargets indexConf pipeline =
     (if pipeline = IngestPipeline then IngestTarget indexConf
      else if pipeline = QueryPipeline then QueryTarget indexConf
      else [])"

definition makeIsDisabledInConfig ::
  "(string \<times> index_configuration) list \<Rightarrow> string \<Rightarrow> string \<Rightarrow> decision option" where
  "makeIsDisabledInConfig cfg pipeline part =
     (case map_of cfg part of
        Some idx \<Rightarrow>
          if length (getTargets idx pipeline) = 0
          then Some (no_decision\<lparr>IsClosed := True, Reason := ''Index is disabled in config.''\<rparr>)
          else None
      | None \<Rightarrow> None)"

definition resolveInternalElasticName :: "string \<Rightarrow> decision option" where
  "resolveInternalElasticName part =
     (if IsInternalIndex part
      then Some (no_decision\<lparr>UseConnectors := [ConnectorDecisionElastic True],
                  Reason := [CHR ''I'', CHR ''t'', CHR 0x27, CHR ''s''] @ '' kibana internals''\<rparr>)
      else None)"

definition resolveTableName :: "quesma_configuration \<Rightarrow> string \<Rightarrow> string" where
  "resolveTableName quesmaConf originalName =
     (case map_of (IndexConfig quesmaConf) originalName of
        Some indexCfg \<Rightarrow> TableNameOf indexCfg originalName
      | None \<Rightarrow> originalName)"

definition clickhouse_connector :: "string \<Rightarrow> bool \<Rightarrow> string \<Rightarrow> connector_decision" where
  "clickhouse_connector tableName isCommon part =
     ConnectorDecisionClickhouse
       \<lparr>ClickhouseTableName = tableName, ClickhouseIndexes = [part], IsCommonTable = isCommon\<rparr>"

text \<open>The loop over the default targets; \<open>Inl\<close> is its early return.\<close>

fun default_connectors ::
  "quesma_configuration \<Rightarrow> string \<Rightarrow> string list \<Rightarrow> connector_decision list \<Rightarrow>
   decision + connector_decision list" where
  "default_connectors quesmaConf part [] useConnectors = Inr useConnectors"
| "default_connectors quesmaConf part (target # targets) useConnectors =
     (if target = ClickhouseTarget then
        (let tableName = (if UseCommonTableForWildcard quesmaConf then CommonTableName
                          else resolveTableName quesmaConf part)
         in default_connectors quesmaConf part targets
              (useConnectors @ [clickhouse_connector tableName (UseCommonTableForWildcard quesmaConf) part]))
      else if target = ElasticsearchTarget then
        default_connectors quesmaConf part targets (useConnectors @ [ConnectorDecisionElastic False])
      else Inl (no_decision\<lparr>Reason := ''Unsupported configuration'', Err := Some (UnsupportedTarget target)\<rparr>))"

definition makeDefaultWildcard ::
  "quesma_configuration \<Rightarrow> string \<Rightarrow> string \<Rightarrow> decision option" where
  "makeDefaultWildcard quesmaConf pipeline part =
     (if pipeline \<noteq> IngestPipeline \<and> pipeline \<noteq> QueryPipeline then
        Some (no_decision\<lparr>Reason := ''Unsupported configuration'', Err := Some (UnsupportedPipeline pipeline)\<rparr>)
      else
        (let targets = (if pipeline = IngestPipeline then DefaultIngestTarget quesmaConf
                        else DefaultQueryTarget quesmaConf)
         in case default_connectors quesmaConf part targets [] of
              Inl d \<Rightarrow> Some d
            | Inr useConnectors \<Rightarrow>
                Some (no_decision\<lparr>UseConnectors := useConnectors, IsClosed := (length useConnectors = 0),
                  Reason := ''Using default wildcard ('' @ [CHR 0x27] @ DefaultWildcardIndexName @ [CHR 0x27]
                    @ '') configuration for '' @ pipeline @ '' processor''\<rparr>)))"

definition unsupported :: "resolver_error \<Rightarrow> decision" where
  "unsupported e = no_decision\<lparr>Reason := ''Unsupported configuration'', Err := Some e\<rparr>"

definition singleIndex ::
  "(string \<times> index_configuration) list \<Rightarrow> string \<Rightarrow> string \<Rightarrow> decision option" where
  "singleIndex indexConfig pipeline part =
     (case map_of indexConfig part of
        None \<Rightarrow> None
      | Some cfg \<Rightarrow>
          if UseCommonTable cfg then None
          else
            (let targets = getTargets cfg pipeline;
                 clickhouse = clickhouse_connector (TableNameOf cfg part) False part;
                 elastic = ConnectorDecisionElastic False
             in case targets of
                  [target] \<Rightarrow>
                    (if target = ElasticsearchTarget then
                       Some (no_decision\<lparr>Reason := ''Enabled in the config. '', UseConnectors := [elastic]\<rparr>)
                     else if target = ClickhouseTarget then
                       Some (no_decision\<lparr>Reason := ''Enabled in the config. '', UseConnectors := [clickhouse]\<rparr>)
                     else Some (unsupported (UnsupportedTarget target)))
                | [t0, t1] \<Rightarrow>
                    (if pipeline = IngestPipeline then
                       Some (no_decision\<lparr>Reason := ''Enabled in the config. Dual write is enabled.'',
                         UseConnectors := [clickhouse, elastic]\<rparr>)
                     else if pipeline = QueryPipeline then
                       (if t0 = ClickhouseTarget \<and> t1 = ElasticsearchTarget then
                          Some (no_decision\<lparr>Reason := ''Enabled in the config. A/B testing.'',
                            EnableABTesting := True, UseConnectors := [clickhouse, elastic]\<rparr>)
                        else if t0 = ElasticsearchTarget \<and> t1 = ClickhouseTarget then
                          Some (no_decision\<lparr>Reason := ''Enabled in the config. A/B testing.'',
                            EnableABTesting := True, UseConnectors := [elastic, clickhouse]\<rparr>)
                        else Some (unsupported (UnsupportedConfigurationFor pipeline targets)))
                     else Some (unsupported (UnsupportedPipeline pipeline)))
                | _ \<Rightarrow> Some (unsupported TooManyBackendConnectors)))"

definition virtual_table_exists :: "quesma_configuration \<Rightarrow> index_state \<Rightarrow> string \<Rightarrow> bool" where
  "virtual_table_exists conf r part \<longleftrightarrow>
     AutodiscoveryEnabled conf \<and>
     list_ex (\<lambda>(indexName, isVirtual). isVirtual \<and> indexName = part) (clickhouseIndexes r)"

definition makeCommonTableResolver ::
  "quesma_configuration \<Rightarrow> (string \<times> index_configuration) list \<Rightarrow> string \<Rightarrow> index_state \<Rightarrow>
   string \<Rightarrow> decision option" where
  "makeCommonTableResolver conf cfg pipeline r part =
     (if part = CommonTableName then
        Some (no_decision\<lparr>Err := Some CommonTableNotAllowed,
          Reason := [CHR ''I'', CHR ''t'', CHR 0x27, CHR ''s''] @
            '' internal table. Not allowed to be queried directly.''\<rparr>)
      else if (case map_of cfg part of Some idxConfig \<Rightarrow> UseCommonTable idxConfig | None \<Rightarrow> False)
              \<or> virtual_table_exists conf r part then
        Some (no_decision\<lparr>UseConnectors := [clickhouse_connector CommonTableName True part],
          Reason := ''Common table will be used.''\<rparr>)
      else None)"

section \<open>Merging decisions\<close>

definition incompatible :: "string \<Rightarrow> resolver_error \<Rightarrow> decision" where
  "incompatible reason e = no_decision\<lparr>Reason := reason, Err := Some e\<rparr>"

text \<open>
  One connector of the right-hand side against one of the left: \<open>Inl\<close> is an incompatibility,
  otherwise the left connector, with the indexes of a common table joined, and whether the two
  match.
\<close>

definition merge_one ::
  "connector_decision \<Rightarrow> connector_decision \<Rightarrow> decision + connector_decision \<times> bool" where
  "merge_one rhs lhs =
     (case (rhs, lhs) of
        (ConnectorDecisionElastic _, ConnectorDecisionElastic _) \<Rightarrow> Inr (lhs, True)
      | (ConnectorDecisionClickhouse r, ConnectorDecisionClickhouse l) \<Rightarrow>
          if ClickhouseTableName l \<noteq> ClickhouseTableName r then
            Inl (incompatible ''Incompatible decisions for two indexes - they use a different ClickHouse table''
                  (DifferentTables r l))
          else if IsCommonTable l then
            (if \<not> IsCommonTable r then
               Inl (incompatible ''Incompatible decisions for two indexes - one uses the common table, the other does not''
                     (DifferentCommonTableUsage r l))
             else Inr (ConnectorDecisionClickhouse
                    (l\<lparr>ClickhouseIndexes := distinct_sorted (ClickhouseIndexes l @ ClickhouseIndexes r)\<rparr>), True))
          else if l \<noteq> r then
            Inl (incompatible ''Incompatible decisions for two indexes - they use ClickHouse tables differently''
                  (DifferentClickhouseUsage r l))
          else Inr (lhs, True)
      | _ \<Rightarrow> Inr (lhs, False))"

text \<open>The inner loop: one connector of the right-hand side against all of the left.\<close>

fun merge_connector ::
  "connector_decision \<Rightarrow> connector_decision list \<Rightarrow> decision + connector_decision list \<times> bool" where
  "merge_connector rhs [] = Inr ([], False)"
| "merge_connector rhs (lhs # rest) =
     (case merge_one rhs lhs of
        Inl d \<Rightarrow> Inl d
      | Inr (lhs', found) \<Rightarrow>
          (case merge_connector rhs rest of
             Inl d \<Rightarrow> Inl d
           | Inr (rest', found') \<Rightarrow> Inr (lhs' # rest', found \<or> found')))"

fun mergeUseConnectors ::
  "connector_decision list \<Rightarrow> connector_decision list \<Rightarrow> string \<Rightarrow> decision + connector_decision list" where
  "mergeUseConnectors lhs [] rhsIndexName = Inr lhs"
| "mergeUseConnectors lhs (connDecisionRhs # rhs) rhsIndexName =
     (case merge_connector connDecisionRhs lhs of
        Inl d \<Rightarrow> Inl d
      | Inr (lhs', foundMatching) \<Rightarrow>
          if \<not> foundMatching then
            Inl (incompatible ''Incompatible decisions for two indexes - they use different connectors''
                  (DifferentConnectors connDecisionRhs rhsIndexName lhs'))
          else mergeUseConnectors lhs' rhs rhsIndexName)"

text \<open>The first loop of \<open>basicDecisionMerger\<close>: the first decision that cannot be merged.\<close>

fun first_unmergeable :: "decision option \<Rightarrow> decision option list \<Rightarrow> decision option" where
  "first_unmergeable d0 [] = None"
| "first_unmergeable d0 (None # ds) =
     Some (incompatible ''Got a nil decision. This is a bug.'' CouldNotResolveIndex)"
| "first_unmergeable d0 (Some d # ds) =
     (if Err d \<noteq> None then Some d
      else if IsEmpty d then
        Some (incompatible ''Got an empty decision. This is a bug.'' (CouldNotResolveEmptyIndex (IndexPattern d)))
      else case d0 of
        None \<Rightarrow> None
      | Some f \<Rightarrow>
          if EnableABTesting d \<noteq> EnableABTesting f then
            Some (incompatible
              ''One of the indexes matching the pattern does A/B testing, while another index does not - inconsistency.''
              (InconsistentABTesting (IndexPattern d) (EnableABTesting d) (IndexPattern f) (EnableABTesting f)))
          else first_unmergeable d0 ds)"

fun merge_rest ::
  "decision \<Rightarrow> connector_decision list \<Rightarrow> decision list \<Rightarrow> decision + connector_decision list" where
  "merge_rest d0 useConnectors [] = Inr useConnectors"
| "merge_rest d0 useConnectors (d # ds) =
     (if length (UseConnectors d) \<noteq> length (UseConnectors d0) then
        Inl (incompatible ''Inconsistent number of connectors''
              (InconsistentConnectorCount (IndexPattern d) (length (UseConnectors d))
                 (IndexPattern d0) (length (UseConnectors d0))))
      else case mergeUseConnectors useConnectors (UseConnectors d) (IndexPattern d) of
             Inl e \<Rightarrow> Inl e
           | Inr useConnectors' \<Rightarrow> merge_rest d0 useConnectors' ds)"

definition basicDecisionMerger :: "decision option list \<Rightarrow> decision option" where
  "basicDecisionMerger decisions =
     (case decisions of
        [] \<Rightarrow> Some (no_decision\<lparr>IsEmpty := True, Reason := ''No indexes matched, no decisions made.''\<rparr>)
      | [d] \<Rightarrow> d
      | first # _ \<Rightarrow>
          (case first_unmergeable first decisions of
             Some d \<Rightarrow> Some d
           | None \<Rightarrow>
               (case filter (\<lambda>d. \<not> IsClosed d) (map the decisions) of
                  [] \<Rightarrow> Some (no_decision\<lparr>IsClosed := True,
                          Reason := ''All indexes matching the pattern are closed.''\<rparr>)
                | d0 # ds \<Rightarrow>
                    (case merge_rest d0 (UseConnectors d0) ds of
                       Inl d \<Rightarrow> Some d
                     | Inr useConnectors \<Rightarrow>
                         Some (no_decision\<lparr>UseConnectors := useConnectors,
                           EnableABTesting := EnableABTesting d0, Reason := ''Merged decisions''\<rparr>)))))"

section \<open>The compound resolver\<close>

record compound_resolver =
  cr_splitterName :: string
  cr_splitter :: "index_state \<Rightarrow> string \<Rightarrow> parsed_pattern \<times> decision option"
  cr_ladder :: "(string \<times> (index_state \<Rightarrow> string \<Rightarrow> decision option)) list"
  cr_merger :: "decision option list \<Rightarrow> decision option"

text \<open>The first rule of the ladder that decides on a name.\<close>

fun climb ::
  "(string \<times> (index_state \<Rightarrow> string \<Rightarrow> decision option)) list \<Rightarrow> index_state \<Rightarrow> string \<Rightarrow> decision option" where
  "climb [] r part = None"
| "climb ((name, rule) # ladder) r part =
     (case rule r part of
        Some d \<Rightarrow> Some (d\<lparr>ResolverName := name\<rparr>)
      | None \<Rightarrow> climb ladder r part)"

definition compound_resolve :: "compound_resolver \<Rightarrow> index_state \<Rightarrow> string \<Rightarrow> decision option" where
  "compound_resolve ir r indexName =
     (case cr_splitter ir r indexName of
        (input, Some d) \<Rightarrow> Some (d\<lparr>ResolverName := cr_splitterName ir\<rparr>)
      | (input, None) \<Rightarrow>
          cr_merger ir (map Some (List.map_filter (climb (cr_ladder ir) r) (pp_parts input))))"

text \<open>The two resolvers built by \<open>NewTableResolver\<close>; their ladders are the same rules.\<close>

definition decision_ladder ::
  "quesma_configuration \<Rightarrow> string \<Rightarrow> (string \<times> (index_state \<Rightarrow> string \<Rightarrow> decision option)) list" where
  "decision_ladder conf pipeline =
     [(''kibanaInternal'', \<lambda>r. resolveInternalElasticName),
      (''disabled'', \<lambda>r. makeIsDisabledInConfig (IndexConfig conf) pipeline),
      (''singleIndex'', \<lambda>r. singleIndex (IndexConfig conf) pipeline),
      (''commonTable'', makeCommonTableResolver conf (IndexConfig conf) pipeline),
      (''defaultWildcard'', \<lambda>r. makeDefaultWildcard conf pipeline)]"

definition ingest_resolver :: "quesma_configuration \<Rightarrow> compound_resolver" where
  "ingest_resolver conf =
     \<lparr>cr_splitterName = ''singleIndexSplitter'', cr_splitter = (\<lambda>r. singleIndexSplitter),
      cr_ladder = decision_ladder conf IngestPipeline, cr_merger = basicDecisionMerger\<rparr>"

definition query_resolver :: "quesma_configuration \<Rightarrow> compound_resolver" where
  "query_resolver conf =
     \<lparr>cr_splitterName = ''wildcardPatternSplitter'', cr_splitter = wildcardPatternSplitter conf,
      cr_ladder = decision_ladder conf QueryPipeline, cr_merger = basicDecisionMerger\<rparr>"

section \<open>What a decision promises\<close>

text \<open>
  Two connectors with the same target differ at most in the indexes they read from it;
  \<open>covers ds c\<close>: some connector of \<open>ds\<close> reads the target of \<open>c\<close> and at least its indexes.
\<close>

fun same_target :: "connector_decision \<Rightarrow> connector_decision \<Rightarrow> bool" where
  "same_target (ConnectorDecisionElastic _) (ConnectorDecisionElastic _) = True"
| "same_target (ConnectorDecisionClickhouse a) (ConnectorDecisionClickhouse b) =
     (ClickhouseTableName a = ClickhouseTableName b \<and> IsCommonTable a = IsCommonTable b)"
| "same_target _ _ = False"

fun connector_indexes :: "connector_decision \<Rightarrow> string list" where
  "connector_indexes (ConnectorDecisionElastic _) = []"
| "connector_indexes (ConnectorDecisionClickhouse c) = ClickhouseIndexes c"

definition all_indexes :: "connector_decision list \<Rightarrow> string set" where
  "all_indexes cs = (\<Union>c \<in> set cs. set (connector_indexes c))"

definition covers :: "connector_decision list \<Rightarrow> connector_decision \<Rightarrow> bool" where
  "covers ds c = list_ex (\<lambda>d. same_target c d \<and> set (connector_indexes c) \<subseteq> set (connector_indexes d)) ds"

lemma same_target_refl [simp]: "same_target c c"
  by (cases c) auto

lemma same_target_trans: "same_target a b \<Longrightarrow> same_target b c \<Longrightarrow> same_target a c"
  by (cases a; cases b; cases c) auto

lemma same_target_sym: "same_target a b \<Longrightarrow> same_target b a"
  by (cases a; cases b) auto

lemma all_indexes_simps [simp]:
  "all_indexes [] = {}" "all_indexes (c # cs) = set (connector_indexes c) \<union> all_indexes cs"
  "all_indexes (cs @ ds) = all_indexes cs \<union> all_indexes ds"
  by (auto simp: all_indexes_def)

lemma covers_Cons [simp]:
  "covers (d # ds) c \<longleftrightarrow>
     same_target c d \<and> set (connector_indexes c) \<subseteq> set (connector_indexes d) \<or> covers ds c"
  by (simp add: covers_def)

lemma covers_Nil [simp]: "\<not> covers [] c"
  by (simp add: covers_def)

text \<open>\<open>widened ls ls'\<close>: pointwise the same targets, with no index lost.\<close>

definition widened :: "connector_decision list \<Rightarrow> connector_decision list \<Rightarrow> bool" where
  "widened = list_all2 (\<lambda>l l'. same_target l l' \<and> set (connector_indexes l) \<subseteq> set (connector_indexes l'))"

lemma widened_refl [simp]: "widened ls ls"
  by (simp add: widened_def list_all2_same)

lemma widened_Cons [simp]:
  "widened (l # ls) (m # ms) \<longleftrightarrow>
     same_target l m \<and> set (connector_indexes l) \<subseteq> set (connector_indexes m) \<and> widened ls ms"
  by (auto simp: widened_def)

lemma widened_trans: "widened a b \<Longrightarrow> widened b c \<Longrightarrow> widened a c"
  unfolding widened_def by (rule list_all2_trans) (auto intro: same_target_trans)

lemma widened_length: "widened a b \<Longrightarrow> length b = length a"
  unfolding widened_def by (simp add: list_all2_lengthD)

lemma widened_covers: "widened a b \<Longrightarrow> covers a c \<Longrightarrow> covers b c"
  unfolding widened_def
  by (induction rule: list_all2_induct) (auto intro: same_target_trans)

lemma covers_member: "c \<in> set ds \<Longrightarrow> covers ds c"
  by (induction ds) auto

lemma merge_one_cases:
  assumes "merge_one rhs l = Inr (m, f)"
  shows "same_target l m"
    and "f \<Longrightarrow> same_target rhs m \<and> set (connector_indexes m) = set (connector_indexes l) \<union> set (connector_indexes rhs)"
    and "\<not> f \<Longrightarrow> m = l"
  using assms
  by (auto simp: merge_one_def split: connector_decision.splits if_splits)

lemma merge_connector_widens:
  "merge_connector rhs lhs = Inr (lhs', found) \<Longrightarrow>
   widened lhs lhs' \<and> (found \<longrightarrow> covers lhs' rhs \<and> all_indexes lhs' = all_indexes lhs \<union> set (connector_indexes rhs)) \<and>
   (\<not> found \<longrightarrow> lhs' = lhs)"
proof (induction lhs arbitrary: lhs' found)
  case (Cons l rest)
  from Cons.prems obtain m f rest' f' where one: "merge_one rhs l = Inr (m, f)"
    and rec: "merge_connector rhs rest = Inr (rest', f')" and res: "lhs' = m # rest'" "found = (f \<or> f')"
    by (auto split: sum.splits prod.splits)
  show ?case
    using Cons.IH [OF rec] res merge_one_cases [OF one] by (cases f; cases f') auto
qed simp

lemma mergeUseConnectors_widens:
  "mergeUseConnectors lhs rhs n = Inr res \<Longrightarrow>
   widened lhs res \<and> list_all (covers res) rhs \<and> all_indexes res = all_indexes lhs \<union> all_indexes rhs"
proof (induction lhs rhs n arbitrary: res rule: mergeUseConnectors.induct)
  case (2 lhs c rhs n)
  from "2.prems" obtain lhs' where one: "merge_connector c lhs = Inr (lhs', True)"
    and more: "mergeUseConnectors lhs' rhs n = Inr res"
    by (auto split: sum.splits if_splits prod.splits)
  from "2.IH" [OF one _ _ more] have
    IH: "widened lhs' res" "list_all (covers res) rhs" "all_indexes res = all_indexes lhs' \<union> all_indexes rhs"
    by auto
  from merge_connector_widens [OF one] show ?case
    using IH by (auto intro: widened_trans widened_covers)
qed simp

lemma merge_rest_widens:
  "merge_rest d0 cs ds = Inr res \<Longrightarrow>
   widened cs res \<and>
   list_all (\<lambda>d. list_all (covers res) (UseConnectors d) \<and> length (UseConnectors d) = length (UseConnectors d0)) ds \<and>
   all_indexes res = all_indexes cs \<union> (\<Union>d \<in> set ds. all_indexes (UseConnectors d))"
proof (induction d0 cs ds arbitrary: res rule: merge_rest.induct)
  case (2 d0 cs d ds)
  from "2.prems" obtain cs' where
    len: "length (UseConnectors d) = length (UseConnectors d0)"
    and one: "mergeUseConnectors cs (UseConnectors d) (IndexPattern d) = Inr cs'"
    and more: "merge_rest d0 cs' ds = Inr res"
    by (auto split: sum.splits if_splits)
  from mergeUseConnectors_widens [OF one] "2.IH" [OF _ one more] len show ?case
    by (auto simp: list_all_iff intro: widened_trans widened_covers)
qed simp

text \<open>When the first loop of the merger finds nothing, every decision can be merged.\<close>

lemma first_unmergeable_None:
  "first_unmergeable (Some f) (map Some ds) = None \<Longrightarrow>
   list_all (\<lambda>d. Err d = None \<and> \<not> IsEmpty d \<and> EnableABTesting d = EnableABTesting f) ds"
  by (induction ds) (auto split: if_splits)

lemma first_unmergeable_Err:
  "first_unmergeable (Some f) (map Some ds) = Some d \<Longrightarrow> Err d \<noteq> None"
  by (induction ds) (auto simp: incompatible_def split: if_splits)

lemma merge_one_Err: "merge_one rhs l = Inl d \<Longrightarrow> Err d \<noteq> None"
  by (auto simp: merge_one_def incompatible_def split: connector_decision.splits if_splits)

lemma merge_connector_Err: "merge_connector rhs lhs = Inl d \<Longrightarrow> Err d \<noteq> None"
  by (induction lhs) (auto split: sum.splits dest: merge_one_Err)

lemma mergeUseConnectors_Err: "mergeUseConnectors lhs rhs n = Inl d \<Longrightarrow> Err d \<noteq> None"
  by (induction lhs rhs n rule: mergeUseConnectors.induct)
    (auto simp: incompatible_def split: sum.splits if_splits dest: merge_connector_Err)

lemma merge_rest_Err: "merge_rest d0 cs ds = Inl d \<Longrightarrow> Err d \<noteq> None"
  by (induction d0 cs ds rule: merge_rest.induct)
    (auto simp: incompatible_def split: sum.splits if_splits dest: mergeUseConnectors_Err)

lemmas merger_errors = first_unmergeable_Err merge_connector_Err mergeUseConnectors_Err merge_rest_Err

lemma merger_total: "basicDecisionMerger (map Some ds) \<noteq> None"
  by (auto simp: basicDecisionMerger_def split: list.splits option.splits sum.splits)

text \<open>The merger on two decisions or more, when it reports no error.\<close>

lemma merger_ok:
  assumes "basicDecisionMerger (map Some (e1 # e2 # es)) = Some d" and "Err d = None"
  shows "list_all (\<lambda>e. Err e = None \<and> \<not> IsEmpty e \<and> EnableABTesting e = EnableABTesting e1) (e1 # e2 # es)"
    (is "list_all ?ok ?ds")
    and "(\<forall>e \<in> set (e1 # e2 # es). \<not> IsClosed e \<longrightarrow> list_all (covers (UseConnectors d)) (UseConnectors e) \<and>
            length (UseConnectors e) = length (UseConnectors d))"
    and "all_indexes (UseConnectors d) =
           (\<Union>e \<in> {e \<in> set (e1 # e2 # es). \<not> IsClosed e}. all_indexes (UseConnectors e))"
    and "IsClosed d \<longleftrightarrow> list_all IsClosed (e1 # e2 # es)"
    and "\<not> IsClosed d \<Longrightarrow> EnableABTesting d = EnableABTesting e1"
proof -
  let ?open = "filter (\<lambda>d. \<not> IsClosed d) (e1 # e2 # es)"
  have none: "first_unmergeable (Some e1) (map Some (e1 # e2 # es)) = None"
    using assms merger_errors(1) [of e1 "e1 # e2 # es"]
    by (cases "first_unmergeable (Some e1) (map Some (e1 # e2 # es))")
      (auto simp: basicDecisionMerger_def simp del: first_unmergeable.simps)
  show ok: "list_all ?ok ?ds" by (rule first_unmergeable_None [OF none])
  have d: "Some d = (case ?open of
                  [] \<Rightarrow> Some (no_decision\<lparr>IsClosed := True,
                          Reason := ''All indexes matching the pattern are closed.''\<rparr>)
                | d0 # ds \<Rightarrow>
                    (case merge_rest d0 (UseConnectors d0) ds of
                       Inl d \<Rightarrow> Some d
                     | Inr useConnectors \<Rightarrow>
                         Some (no_decision\<lparr>UseConnectors := useConnectors,
                           EnableABTesting := EnableABTesting d0, Reason := ''Merged decisions''\<rparr>)))"
    using assms(1) none by (simp add: basicDecisionMerger_def o_def del: first_unmergeable.simps)
  have set_open: "set ?open = {e \<in> set ?ds. \<not> IsClosed e}" by auto
  have "(\<forall>e \<in> set ?open. list_all (covers (UseConnectors d)) (UseConnectors e) \<and>
            length (UseConnectors e) = length (UseConnectors d)) \<and>
        all_indexes (UseConnectors d) = (\<Union>e \<in> set ?open. all_indexes (UseConnectors e)) \<and>
        (IsClosed d \<longleftrightarrow> ?open = []) \<and> (\<not> IsClosed d \<longrightarrow> EnableABTesting d = EnableABTesting e1)"
  proof (cases ?open)
    case Nil
    then show ?thesis using d by (simp add: no_decision_def)
  next
    case (Cons d0 ds)
    then have "d0 \<in> set ?ds" using set_open by force
    with ok have ab: "EnableABTesting d0 = EnableABTesting e1" by (auto simp: list_all_iff)
    obtain cs where mr: "merge_rest d0 (UseConnectors d0) ds = Inr cs"
      and dd: "d = no_decision\<lparr>UseConnectors := cs, EnableABTesting := EnableABTesting d0,
                    Reason := ''Merged decisions''\<rparr>"
      using d Cons assms(2) merge_rest_Err [of d0 "UseConnectors d0" ds d]
      by (cases "merge_rest d0 (UseConnectors d0) ds") (auto simp del: filter.simps)
    from merge_rest_widens [OF mr] show ?thesis
      using dd Cons ab widened_length
      by (auto simp: no_decision_def list_all_iff intro: widened_covers covers_member)
  qed
  then show "\<forall>e \<in> set ?ds. \<not> IsClosed e \<longrightarrow> list_all (covers (UseConnectors d)) (UseConnectors e) \<and>
            length (UseConnectors e) = length (UseConnectors d)"
    and "all_indexes (UseConnectors d) = (\<Union>e \<in> {e \<in> set ?ds. \<not> IsClosed e}. all_indexes (UseConnectors e))"
    and "IsClosed d \<longleftrightarrow> list_all IsClosed ?ds"
    and "\<not> IsClosed d \<Longrightarrow> EnableABTesting d = EnableABTesting e1"
    unfolding set_open by (auto simp: filter_empty_conv list_all_iff)
qed

section \<open>The ladder\<close>

text \<open>What the configuration says of a name; the targets of two connectors must differ.\<close>

definition configured_targets :: "quesma_configuration \<Rightarrow> string \<Rightarrow> string \<Rightarrow> string list" where
  "configured_targets conf pipeline name =
     (case map_of (IndexConfig conf) name of
        Some cfg \<Rightarrow> getTargets cfg pipeline
      | None \<Rightarrow> if pipeline = IngestPipeline then DefaultIngestTarget conf else DefaultQueryTarget conf)"

definition known_pipeline :: "string \<Rightarrow> bool" where
  "known_pipeline p \<longleftrightarrow> p = IngestPipeline \<or> p = QueryPipeline"

definition valid_targets :: "string list \<Rightarrow> bool" where
  "valid_targets ts \<longleftrightarrow> distinct ts \<and> set ts \<subseteq> {ElasticsearchTarget, ClickhouseTarget}"

text \<open>
  An index lives in the common table when its configuration says so, or, without a configuration,
  when it was discovered as a virtual table or the wildcard's targets have ClickHouse with the
  common table.
\<close>

definition common_table_configured :: "quesma_configuration \<Rightarrow> index_state \<Rightarrow> string \<Rightarrow> string \<Rightarrow> bool" where
  "common_table_configured conf r p name \<longleftrightarrow>
     (case map_of (IndexConfig conf) name of
        Some cfg \<Rightarrow> UseCommonTable cfg
      | None \<Rightarrow> AutodiscoveryEnabled conf \<and> (name, True) \<in> set (clickhouseIndexes r)
                \<or> UseCommonTableForWildcard conf \<and> ClickhouseTarget \<in> set (configured_targets conf p name))"

fun connector_allowed :: "quesma_configuration \<Rightarrow> index_state \<Rightarrow> string \<Rightarrow> string \<Rightarrow> connector_decision \<Rightarrow> bool" where
  "connector_allowed conf r p name (ConnectorDecisionElastic m) =
     (if m then IsInternalIndex name else ElasticsearchTarget \<in> set (configured_targets conf p name))"
| "connector_allowed conf r p name (ConnectorDecisionClickhouse c) =
     (\<not> IsInternalIndex name \<and> ClickhouseIndexes c = [name] \<and>
      (if IsCommonTable c
       then common_table_configured conf r p name \<and> ClickhouseTableName c = CommonTableName
       else ClickhouseTarget \<in> set (configured_targets conf p name)
         \<and> \<not> (case map_of (IndexConfig conf) name of
                Some cfg \<Rightarrow> UseCommonTable cfg | None \<Rightarrow> UseCommonTableForWildcard conf)
         \<and> ClickhouseTableName c = resolveTableName conf name))"

lemma no_decision_simps [simp]:
  "IndexPattern no_decision = []" "IsClosed no_decision = False" "Err no_decision = None"
  "IsEmpty no_decision = False" "EnableABTesting no_decision = False" "UseConnectors no_decision = []"
  "Reason no_decision = []" "ResolverName no_decision = []"
  by (simp_all add: no_decision_def)

fun default_allowed :: "quesma_configuration \<Rightarrow> string \<Rightarrow> string list \<Rightarrow> connector_decision \<Rightarrow> bool" where
  "default_allowed conf name ts (ConnectorDecisionElastic m) = (\<not> m \<and> ElasticsearchTarget \<in> set ts)"
| "default_allowed conf name ts (ConnectorDecisionClickhouse c) =
     (ClickhouseIndexes c = [name] \<and> ClickhouseTarget \<in> set ts \<and> IsCommonTable c = UseCommonTableForWildcard conf \<and>
      ClickhouseTableName c = (if IsCommonTable c then CommonTableName else resolveTableName conf name))"

lemma default_connectors_ok:
  "default_connectors conf name us acc = Inr cs \<Longrightarrow> set us \<subseteq> set ts \<Longrightarrow>
   list_all (default_allowed conf name ts) acc \<Longrightarrow>
   list_all (default_allowed conf name ts) cs \<and> length cs = length acc + length us"
proof (induction us arbitrary: acc)
  case (Cons t us)
  from Cons.prems obtain c where step: "default_connectors conf name us (acc @ [c]) = Inr cs"
    and c: "default_allowed conf name ts c"
    by (auto simp: Let_def clickhouse_connector_def split: if_splits)
  show ?case using Cons.IH [OF step] Cons.prems c by simp
qed simp

lemma ladder_decides: "climb (decision_ladder conf p) r name \<noteq> None"
  by (auto simp: decision_ladder_def makeDefaultWildcard_def Let_def split: option.splits sum.splits)

text \<open>\<open>rung\<close> is the decision of the ladder on one name.\<close>

definition rung :: "quesma_configuration \<Rightarrow> string \<Rightarrow> index_state \<Rightarrow> string \<Rightarrow> decision" where
  "rung conf p r name = the (climb (decision_ladder conf p) r name)"

lemma climb_rung: "climb (decision_ladder conf p) r name = Some (rung conf p r name)"
  using ladder_decides by (simp add: rung_def)

lemma map_filter_rung:
  "List.map_filter (climb (decision_ladder conf p) r) names = map (rung conf p r) names"
  by (induction names) (simp_all add: climb_rung List.map_filter_def)

text \<open>The rules one by one.\<close>

lemma rule_internal:
  "resolveInternalElasticName name = Some d \<Longrightarrow>
     IsInternalIndex name \<and> \<not> IsClosed d \<and> Err d = None \<and> \<not> IsEmpty d \<and>
     UseConnectors d = [ConnectorDecisionElastic True]"
  by (auto simp: resolveInternalElasticName_def split: if_splits)

lemma rule_disabled:
  "makeIsDisabledInConfig (IndexConfig conf) p name = Some d \<Longrightarrow>
     IsClosed d \<and> Err d = None \<and> \<not> IsEmpty d \<and> UseConnectors d = [] \<and>
     map_of (IndexConfig conf) name \<noteq> None \<and> configured_targets conf p name = []"
  by (auto simp: makeIsDisabledInConfig_def configured_targets_def split: option.splits if_splits)

lemma valid_two: "valid_targets [t0, t1] \<Longrightarrow> {t0, t1} = {ElasticsearchTarget, ClickhouseTarget}"
  by (auto simp: valid_targets_def)

lemma rule_singleIndex:
  assumes "singleIndex (IndexConfig conf) p name = Some d"
    and "\<not> IsInternalIndex name" and "valid_targets (configured_targets conf p name)"
  shows "\<not> IsClosed d \<and> \<not> IsEmpty d \<and> list_all (connector_allowed conf r p name) (UseConnectors d) \<and>
         map_of (IndexConfig conf) name \<noteq> None"
proof -
  obtain cfg where cfg: "map_of (IndexConfig conf) name = Some cfg" and uc: "\<not> UseCommonTable cfg"
    using assms(1) by (auto simp: singleIndex_def split: option.splits if_splits)
  have ts: "configured_targets conf p name = getTargets cfg p"
    by (simp add: configured_targets_def cfg)
  have tn: "resolveTableName conf name = TableNameOf cfg name"
    by (simp add: resolveTableName_def cfg)
  consider (one) t where "getTargets cfg p = [t]" | (two) t0 t1 where "getTargets cfg p = [t0, t1]"
    | (other) "\<And>t. getTargets cfg p \<noteq> [t]" "\<And>t0 t1. getTargets cfg p \<noteq> [t0, t1]"
    by blast
  then show ?thesis
  proof cases
    case one
    consider "t = ElasticsearchTarget" | "t = ClickhouseTarget"
      using assms(3) one ts by (auto simp: valid_targets_def)
    then show ?thesis
      by cases (use assms(1,2) cfg uc ts tn one in \<open>auto simp: singleIndex_def clickhouse_connector_def\<close>)
  next
    case two
    let ?k = "clickhouse_connector (TableNameOf cfg name) False name"
    let ?e = "ConnectorDecisionElastic False"
    have both: "{t0, t1} = {ElasticsearchTarget, ClickhouseTarget}" using assms(3) ts two valid_two by simp
    have "set (UseConnectors d) \<subseteq> {?k, ?e} \<and> \<not> IsClosed d \<and> \<not> IsEmpty d"
      using assms(1) cfg uc two by (auto simp: singleIndex_def unsupported_def Let_def split: if_splits)
    moreover have "connector_allowed conf r p name ?k" "connector_allowed conf r p name ?e"
      using both assms(2) ts tn two cfg uc by (auto simp: clickhouse_connector_def doubleton_eq_iff)
    ultimately show ?thesis using cfg by (auto simp: list_all_iff)
  next
    case other
    then have "d = unsupported TooManyBackendConnectors"
      using assms(1) cfg uc by (auto simp: singleIndex_def Let_def split: list.splits)
    then show ?thesis using cfg by (simp add: unsupported_def)
  qed
qed

lemma rule_commonTable:
  "makeCommonTableResolver conf (IndexConfig conf) p r name = Some d \<Longrightarrow> \<not> IsInternalIndex name \<Longrightarrow>
   map_of (IndexConfig conf) name = None \<or> (\<exists>cfg. map_of (IndexConfig conf) name = Some cfg \<and> UseCommonTable cfg) \<Longrightarrow>
     \<not> IsClosed d \<and> \<not> IsEmpty d \<and> list_all (connector_allowed conf r p name) (UseConnectors d)"
  by (auto simp: makeCommonTableResolver_def clickhouse_connector_def common_table_configured_def
      virtual_table_exists_def list_ex_iff split: if_splits)

lemma rule_defaultWildcard:
  assumes "makeDefaultWildcard conf p name = Some d" and "\<not> IsInternalIndex name"
    and "map_of (IndexConfig conf) name = None"
  shows "\<not> IsEmpty d \<and> list_all (connector_allowed conf r p name) (UseConnectors d) \<and>
         (IsClosed d \<longrightarrow> UseConnectors d = [] \<and> configured_targets conf p name = [])"
proof (cases "known_pipeline p")
  case True
  let ?ts = "configured_targets conf p name"
  have ts: "?ts = (if p = IngestPipeline then DefaultIngestTarget conf else DefaultQueryTarget conf)"
    by (simp add: configured_targets_def assms(3))
  show ?thesis
  proof (cases "default_connectors conf name ?ts []")
    case (Inl e)
    then have "d = e" using assms(1) True by (auto simp: makeDefaultWildcard_def known_pipeline_def ts)
    moreover have "default_connectors conf name us acc = Inl e \<Longrightarrow>
        \<not> IsEmpty e \<and> \<not> IsClosed e \<and> UseConnectors e = []" for us acc
      by (induction us arbitrary: acc) (auto simp: Let_def split: if_splits)
    ultimately show ?thesis using Inl by auto
  next
    case (Inr cs)
    then have d: "UseConnectors d = cs" "IsClosed d = (cs = [])" "\<not> IsEmpty d"
      using assms(1) True by (auto simp: makeDefaultWildcard_def known_pipeline_def ts)
    have "list_all (default_allowed conf name ?ts) cs \<and> length cs = length ?ts"
      using default_connectors_ok [OF Inr, of ?ts] by simp
    moreover have "default_allowed conf name ?ts c \<Longrightarrow> connector_allowed conf r p name c" for c
      using assms(2,3) by (cases c) (auto simp: common_table_configured_def)
    ultimately have "list_all (connector_allowed conf r p name) cs \<and> length cs = length ?ts"
      by (auto simp: list_all_iff)
    then show ?thesis using d by auto
  qed
next
  case False
  then show ?thesis using assms(1) by (auto simp: makeDefaultWildcard_def known_pipeline_def)
qed

lemma rule_errors:
  "makeCommonTableResolver conf cfg p r CommonTableName = Some d \<Longrightarrow> Err d = Some CommonTableNotAllowed"
  by (auto simp: makeCommonTableResolver_def)

text \<open>A name is \<open>sanely configured\<close> when a rule for it lists distinct known targets.\<close>

definition sane_name :: "quesma_configuration \<Rightarrow> string \<Rightarrow> string \<Rightarrow> bool" where
  "sane_name conf p name \<longleftrightarrow>
     (case map_of (IndexConfig conf) name of
        Some cfg \<Rightarrow> valid_targets (getTargets cfg p)
      | None \<Rightarrow> True)"

lemma rung_allowed:
  assumes "sane_name conf p name"
  shows "list_all (connector_allowed conf r p name) (UseConnectors (rung conf p r name)) \<and>
         \<not> IsEmpty (rung conf p r name) \<and>
         (IsClosed (rung conf p r name) \<longrightarrow>
            UseConnectors (rung conf p r name) = [] \<and> configured_targets conf p name = [])"
proof (cases "resolveInternalElasticName name")
  case (Some d)
  then show ?thesis
    using rule_internal [OF Some] by (simp add: rung_def decision_ladder_def Some)
next
  case None
  then have int: "\<not> IsInternalIndex name" by (auto simp: resolveInternalElasticName_def split: if_splits)
  have rung: "rung conf p r name = the (climb (tl (decision_ladder conf p)) r name)"
    by (simp add: rung_def decision_ladder_def None)
  note rung = rung [unfolded decision_ladder_def, simplified]
  show ?thesis
  proof (cases "makeIsDisabledInConfig (IndexConfig conf) p name")
    case (Some d)
    then show ?thesis using rule_disabled [OF Some] rung by simp
  next
    case dis: None
    show ?thesis
    proof (cases "singleIndex (IndexConfig conf) p name")
      case (Some d)
      then obtain cfg where "map_of (IndexConfig conf) name = Some cfg"
        by (auto simp: singleIndex_def split: option.splits)
      then have "valid_targets (configured_targets conf p name)"
        using assms by (simp add: sane_name_def configured_targets_def)
      from rule_singleIndex [OF Some int this] show ?thesis using rung dis Some by simp
    next
      case sgl: None
      then have common: "map_of (IndexConfig conf) name = None
          \<or> (\<exists>cfg. map_of (IndexConfig conf) name = Some cfg \<and> UseCommonTable cfg)"
        by (auto simp: singleIndex_def Let_def split: option.splits list.splits if_splits)
      show ?thesis
      proof (cases "makeCommonTableResolver conf (IndexConfig conf) p r name")
        case (Some d)
        then show ?thesis using rule_commonTable [OF Some int common] rung dis sgl by simp
      next
        case None
        then have "\<not> (case map_of (IndexConfig conf) name of Some c \<Rightarrow> UseCommonTable c | None \<Rightarrow> False)"
          by (auto simp: makeCommonTableResolver_def split: if_splits)
        with sgl have cfg: "map_of (IndexConfig conf) name = None"
          by (auto simp: singleIndex_def Let_def split: option.splits list.splits if_splits)
        have "makeDefaultWildcard conf p name \<noteq> None"
          by (auto simp: makeDefaultWildcard_def Let_def split: sum.splits)
        then obtain d where d: "makeDefaultWildcard conf p name = Some d" by auto
        from rule_defaultWildcard [OF d int cfg] show ?thesis using rung dis sgl None d by simp
      qed
    qed
  qed
qed

lemma rung_common_table:
  assumes "map_of (IndexConfig conf) CommonTableName = None"
  shows "Err (rung conf p r CommonTableName) = Some CommonTableNotAllowed"
proof -
  have "\<not> IsInternalIndex CommonTableName"
    by (simp add: IsInternalIndex_def CommonTableName_def has_prefix_def)
  then show ?thesis
    by (simp add: rung_def decision_ladder_def resolveInternalElasticName_def makeIsDisabledInConfig_def
        singleIndex_def makeCommonTableResolver_def assms)
qed

lemma rung_internal:
  "IsInternalIndex name \<Longrightarrow> rung conf p r name =
     no_decision\<lparr>UseConnectors := [ConnectorDecisionElastic True],
       Reason := [CHR ''I'', CHR ''t'', CHR 0x27, CHR ''s''] @ '' kibana internals'',
       ResolverName := ''kibanaInternal''\<rparr>"
  by (simp add: rung_def decision_ladder_def resolveInternalElasticName_def)

section \<open>The two resolvers\<close>

lemma query_resolve:
  "compound_resolve (query_resolver conf) r pattern =
     basicDecisionMerger (map (\<lambda>n. Some (rung conf QueryPipeline r n))
       (pp_parts (fst (wildcardPatternSplitter conf r pattern))))"
  by (simp add: compound_resolve_def query_resolver_def wildcardPatternSplitter_def map_filter_rung o_def Let_def)

lemma query_resolve_single:
  assumes "pp_parts (fst (wildcardPatternSplitter conf r pattern)) = [name]"
  shows "compound_resolve (query_resolver conf) r pattern = Some (rung conf QueryPipeline r name)"
  by (simp add: query_resolve assms basicDecisionMerger_def)

lemma parts_of_name:
  assumes "CHR '','' \<notin> set name" and "CHR ''*'' \<notin> set name \<or> IsInternalIndex name"
  shows "pp_parts (fst (wildcardPatternSplitter conf r name)) = [name]"
  using assms
  by (auto simp: wildcardPatternSplitter_def matching_names_def split_on_free contains_char_iff
      IsIndexPattern_def distinct_sorted_def Let_def)

lemma is_pattern_iff: "IsIndexPattern s \<longleftrightarrow> CHR ''*'' \<in> set s \<or> CHR '','' \<in> set s"
  by (auto simp: IsIndexPattern_def contains_char_iff)

lemma ingest_resolve:
  "compound_resolve (ingest_resolver conf) r name =
     Some (if IsIndexPattern name
           then no_decision\<lparr>Reason := ''Pattern is not allowed.'', Err := Some PatternNotAllowed,
                  ResolverName := ''singleIndexSplitter''\<rparr>
           else rung conf IngestPipeline r name)"
proof (cases "IsIndexPattern name")
  case True
  then show ?thesis
    using split_on_length_gt_1 [of "CHR '',''" name]
    by (auto simp: compound_resolve_def ingest_resolver_def singleIndexSplitter_def contains_single is_pattern_iff)
next
  case False
  then show ?thesis
    by (simp add: compound_resolve_def ingest_resolver_def singleIndexSplitter_def contains_single is_pattern_iff
        split_on_free climb_rung basicDecisionMerger_def List.map_filter_def)
qed

lemma query_resolve_Some: "compound_resolve (query_resolver conf) r pattern \<noteq> None"
proof -
  have "map (\<lambda>n. Some (rung conf QueryPipeline r n)) ns = map Some (map (rung conf QueryPipeline r) ns)" for ns
    by simp
  then show ?thesis unfolding query_resolve using merger_total by metis
qed

text \<open>One decision for a list of names: the merger over their rungs, single names included.\<close>

lemma merged_rungs:
  assumes "basicDecisionMerger (map (\<lambda>n. Some (rung conf p r n)) names) = Some d" and "Err d = None"
    and "list_all (sane_name conf p) names" and "names \<noteq> []"
  shows "list_all (\<lambda>n. Err (rung conf p r n) = None \<and>
             list_all (covers (UseConnectors d)) (UseConnectors (rung conf p r n))) names"
    and "all_indexes (UseConnectors d) = (\<Union>n \<in> set names. all_indexes (UseConnectors (rung conf p r n)))"
    and "IsClosed d \<longleftrightarrow> list_all (\<lambda>n. IsClosed (rung conf p r n)) names"
proof -
  have closed: "IsClosed (rung conf p r n) \<Longrightarrow> UseConnectors (rung conf p r n) = []" if "n \<in> set names" for n
    using rung_allowed that assms(3) by (auto simp: list_all_iff)
  consider n where "names = [n]" | n1 n2 ns where "names = n1 # n2 # ns"
    using assms(4) by (cases names rule: remdups_adj.cases) auto
  then have "list_all (\<lambda>n. Err (rung conf p r n) = None \<and>
             list_all (covers (UseConnectors d)) (UseConnectors (rung conf p r n))) names \<and>
     all_indexes (UseConnectors d) = (\<Union>n \<in> set names. all_indexes (UseConnectors (rung conf p r n))) \<and>
     (IsClosed d \<longleftrightarrow> list_all (\<lambda>n. IsClosed (rung conf p r n)) names)"
  proof cases
    case 1
    then have "d = rung conf p r n" using assms(1) by (simp add: basicDecisionMerger_def)
    with 1 assms(2) show ?thesis by (auto simp: list_all_iff intro: covers_member)
  next
    case (2 n1 n2 ns)
    let ?R = "rung conf p r"
    have m: "basicDecisionMerger (map Some (?R n1 # ?R n2 # map ?R ns)) = Some d"
      using assms(1) 2 by (simp add: o_def)
    note ok = merger_ok [OF m assms(2)]
    have "all_indexes (UseConnectors d) =
        (\<Union>e \<in> {e \<in> ?R ` set names. \<not> IsClosed e}. all_indexes (UseConnectors e))"
      unfolding ok(3) by (simp add: 2)
    also have "\<dots> = (\<Union>n \<in> set names. all_indexes (UseConnectors (?R n)))"
      using closed by (fastforce dest: closed)
    finally have "all_indexes (UseConnectors d) = (\<Union>n \<in> set names. all_indexes (UseConnectors (?R n)))" .
    moreover have "list_all (covers (UseConnectors d)) (UseConnectors (?R n))" if "n \<in> set names" for n
      using ok(2) closed [OF that] that 2 by (cases "IsClosed (?R n)") auto
    ultimately show ?thesis using ok(1,4) 2 by (auto simp: list_all_iff)
  qed
  then show "list_all (\<lambda>n. Err (rung conf p r n) = None \<and>
             list_all (covers (UseConnectors d)) (UseConnectors (rung conf p r n))) names"
    and "all_indexes (UseConnectors d) = (\<Union>n \<in> set names. all_indexes (UseConnectors (rung conf p r n)))"
    and "IsClosed d \<longleftrightarrow> list_all (\<lambda>n. IsClosed (rung conf p r n)) names"
    by blast+
qed

text \<open>
  The order in which Go ranges over its maps does not matter: the configuration and the
  discovered tables enter a decision only through their sets of entries.
\<close>

definition same_maps :: "quesma_configuration \<Rightarrow> quesma_configuration \<Rightarrow> bool" where
  "same_maps conf conf' \<longleftrightarrow>
     distinct (map fst (IndexConfig conf)) \<and> distinct (map fst (IndexConfig conf')) \<and>
     set (IndexConfig conf) = set (IndexConfig conf') \<and> conf' = conf\<lparr>IndexConfig := IndexConfig conf'\<rparr>"

definition same_tables :: "index_state \<Rightarrow> index_state \<Rightarrow> bool" where
  "same_tables r r' \<longleftrightarrow>
     set (elasticIndexes r) = set (elasticIndexes r') \<and> set (clickhouseIndexes r) = set (clickhouseIndexes r')"

lemma same_maps_of: "same_maps conf conf' \<Longrightarrow> map_of (IndexConfig conf') = map_of (IndexConfig conf)"
  by (rule map_of_eqI) (auto simp: same_maps_def map_of_eq_Some_iff dest: arg_cong [where f = "image fst"])

lemma same_maps_fields:
  assumes "same_maps conf conf'"
  shows "DefaultIngestTarget conf' = DefaultIngestTarget conf" "DefaultQueryTarget conf' = DefaultQueryTarget conf"
    "UseCommonTableForWildcard conf' = UseCommonTableForWildcard conf"
    "AutodiscoveryEnabled conf' = AutodiscoveryEnabled conf"
proof -
  have "conf' = conf\<lparr>IndexConfig := IndexConfig conf'\<rparr>" using assms by (simp add: same_maps_def)
  then show "DefaultIngestTarget conf' = DefaultIngestTarget conf" "DefaultQueryTarget conf' = DefaultQueryTarget conf"
    "UseCommonTableForWildcard conf' = UseCommonTableForWildcard conf"
    "AutodiscoveryEnabled conf' = AutodiscoveryEnabled conf"
    by (metis quesma_configuration.select_convs quesma_configuration.surjective
        quesma_configuration.update_convs(1))+
qed

lemma matching_names_set:
  assumes "same_maps conf conf'" and "same_tables r r'"
  shows "set (matching_names conf' r' p) = set (matching_names conf r p)"
proof -
  have "set (map fst (IndexConfig conf')) = set (map fst (IndexConfig conf))"
    using assms(1) by (simp add: same_maps_def)
  moreover have "set (map fst (clickhouseIndexes r')) = set (map fst (clickhouseIndexes r))"
    "set (elasticIndexes r') = set (elasticIndexes r)"
    using assms(2) by (simp_all add: same_tables_def)
  ultimately show ?thesis
    using same_maps_fields(4) [OF assms(1)]
    by (simp add: matching_names_def del: set_map)
qed

lemma parts_same:
  assumes "same_maps conf conf'" and "same_tables r r'"
  shows "wildcardPatternSplitter conf' r' p = wildcardPatternSplitter conf r p"
proof -
  have "distinct_sorted (concat (map (matching_names conf' r') ws)) =
        distinct_sorted (concat (map (matching_names conf r) ws))" for ws
    by (rule distinct_sorted_cong) (simp add: matching_names_set [OF assms])
  then show ?thesis by (simp add: wildcardPatternSplitter_def Let_def)
qed

lemma default_connectors_same:
  assumes "same_maps conf conf'"
  shows "default_connectors conf' name ts acc = default_connectors conf name ts acc"
  by (induction ts arbitrary: acc)
    (simp_all add: same_maps_of [OF assms] same_maps_fields [OF assms] resolveTableName_def)

lemma rung_same:
  assumes "same_maps conf conf'" and "same_tables r r'"
  shows "rung conf' p r' name = rung conf p r name"
proof -
  have "virtual_table_exists conf' r' name = virtual_table_exists conf r name"
    using assms(2) by (simp add: virtual_table_exists_def same_maps_fields [OF assms(1)] same_tables_def list_ex_iff)
  then show ?thesis
    by (simp add: rung_def decision_ladder_def makeIsDisabledInConfig_def singleIndex_def makeCommonTableResolver_def
        makeDefaultWildcard_def same_maps_of [OF assms(1)] same_maps_fields [OF assms(1)]
        default_connectors_same [OF assms(1)] cong: option.case_cong)
qed

lemma query_resolve_same:
  "same_maps conf conf' \<Longrightarrow> same_tables r r' \<Longrightarrow>
   compound_resolve (query_resolver conf') r' p = compound_resolve (query_resolver conf) r p"
  unfolding query_resolve by (simp only: parts_same rung_same)

section \<open>Properties\<close>

text \<open>A configuration and a discovery to run the resolvers on.\<close>

definition index_cfg :: "bool \<Rightarrow> string list \<Rightarrow> index_configuration" where
  "index_cfg common targets =
     \<lparr>Optimizers = Map.empty, Override = [], UseCommonTable = common, QueryTarget = targets,
      IngestTarget = targets\<rparr>"

definition sample_conf :: quesma_configuration where
  "sample_conf =
     \<lparr>IndexConfig = [(''shop'', index_cfg True [ClickhouseTarget]), (''logs'', index_cfg False [ClickhouseTarget]),
        (''shelf'', index_cfg True [ClickhouseTarget]), (''audit'', index_cfg False [ElasticsearchTarget])],
      DefaultIngestTarget = [ElasticsearchTarget], DefaultQueryTarget = [ElasticsearchTarget],
      UseCommonTableForWildcard = False, AutodiscoveryEnabled = True\<rparr>"

definition sample_tables :: index_state where
  "sample_tables =
     \<lparr>elasticIndexes = [''audit''], clickhouseIndexes = [(''logs'', False), (''quesma_common_table'', False)]\<rparr>"

lemmas sample_defs = sample_conf_def sample_tables_def index_cfg_def ElasticsearchTarget_def ClickhouseTarget_def

text \<open>
  C6: The decision on a query pattern answers for exactly the matching indexes: when the
  resolver reports no error, no matching index had one, every connector that an index needs is
  in the decision with its table and its indexes, the indexes the decision reads from
  ClickHouse are exactly the matching ones whose own decision goes there, and the decision is
  closed just when every matching index is.
\<close>
theorem query_decision_covers:
  assumes "compound_resolve (query_resolver conf) r pattern = Some d" and "Err d = None"
    and "pp_parts (fst (wildcardPatternSplitter conf r pattern)) = names" and "names \<noteq> []"
    and "list_all (sane_name conf QueryPipeline) names"
  shows "list_all (\<lambda>n. Err (rung conf QueryPipeline r n) = None \<and>
            list_all (covers (UseConnectors d)) (UseConnectors (rung conf QueryPipeline r n))) names \<and>
         all_indexes (UseConnectors d) =
           {n \<in> set names. \<exists>c. ConnectorDecisionClickhouse c \<in> set (UseConnectors (rung conf QueryPipeline r n))} \<and>
         (IsClosed d \<longleftrightarrow> list_all (\<lambda>n. IsClosed (rung conf QueryPipeline r n)) names)"
proof -
  let ?R = "rung conf QueryPipeline r"
  have m: "basicDecisionMerger (map (\<lambda>n. Some (?R n)) names) = Some d"
    using assms(1,3) by (simp add: query_resolve)
  have one: "all_indexes (UseConnectors (?R n)) =
      {m. m = n \<and> (\<exists>c. ConnectorDecisionClickhouse c \<in> set (UseConnectors (?R n)))}" if "n \<in> set names" for n
  proof -
    have "list_all (connector_allowed conf r QueryPipeline n) (UseConnectors (?R n))"
      using rung_allowed that assms(5) by (auto simp: list_all_iff)
    then have ok: "connector_allowed conf r QueryPipeline n c" if "c \<in> set (UseConnectors (?R n))" for c
      using that by (simp add: list_all_iff)
    have "set (connector_indexes c) = {m. m = n \<and> (\<exists>k. c = ConnectorDecisionClickhouse k)}"
      if "c \<in> set (UseConnectors (?R n))" for c
      using ok [OF that] by (cases c) auto
    then show ?thesis unfolding all_indexes_def by auto
  qed
  note all = merged_rungs [OF m assms(2,5,4)]
  show ?thesis using all one by auto
qed

theorem query_decision_covers_witness:
  "all_indexes (UseConnectors (the (compound_resolve (query_resolver sample_conf) sample_tables ''sh*,shop''))) =
     {''shelf'', ''shop''}"
proof -
  let ?d = "no_decision\<lparr>UseConnectors := [ConnectorDecisionClickhouse
      \<lparr>ClickhouseTableName = CommonTableName, ClickhouseIndexes = [''shelf'', ''shop''], IsCommonTable = True\<rparr>],
      Reason := ''Merged decisions''\<rparr>"
  have p: "pp_parts (fst (wildcardPatternSplitter sample_conf sample_tables ''sh*,shop'')) = [''shelf'', ''shop'']"
    by code_simp
  have d: "compound_resolve (query_resolver sample_conf) sample_tables ''sh*,shop'' = Some ?d"
    by (simp add: query_resolve p) code_simp
  have "all_indexes (UseConnectors ?d) = {n \<in> set [''shelf'', ''shop''].
      \<exists>c. ConnectorDecisionClickhouse c \<in> set (UseConnectors (rung sample_conf QueryPipeline sample_tables n))}"
    using query_decision_covers [OF d _ p] by (simp add: sane_name_def valid_targets_def sample_defs getTargets_def)
  then show ?thesis using d by simp
qed

text \<open>
  C23: Routing follows the configuration: with known and distinct targets, a decision on a single
  index passes it to Elasticsearch only if that is one of its targets (a management call only
  for an internal index), and to ClickHouse under its own table only if that is one of its targets
  and it is not to use the common table, with the table name the configuration gives it.  It is
  passed to the common table only if its configuration says so, whatever its targets, or, without a
  configuration, if it was discovered as a virtual table or the wildcard has ClickHouse as a target
  with the common table.  Both pipelines agree.
\<close>
theorem connectors_follow_config:
  assumes "\<not> IsIndexPattern name" and "sane_name conf IngestPipeline name" and "sane_name conf QueryPipeline name"
  shows "\<exists>q i. compound_resolve (query_resolver conf) r name = Some q \<and>
               compound_resolve (ingest_resolver conf) r name = Some i \<and>
               list_all (connector_allowed conf r QueryPipeline name) (UseConnectors q) \<and>
               list_all (connector_allowed conf r IngestPipeline name) (UseConnectors i) \<and>
               (IsClosed q \<longrightarrow> configured_targets conf QueryPipeline name = []) \<and>
               (IsClosed i \<longrightarrow> configured_targets conf IngestPipeline name = [])"
proof -
  have "compound_resolve (query_resolver conf) r name = Some (rung conf QueryPipeline r name)"
    using assms(1) by (intro query_resolve_single parts_of_name) (auto simp: is_pattern_iff)
  moreover have "compound_resolve (ingest_resolver conf) r name = Some (rung conf IngestPipeline r name)"
    using assms(1) by (simp add: ingest_resolve)
  ultimately show ?thesis using rung_allowed [OF assms(2), of r] rung_allowed [OF assms(3), of r] by auto
qed

theorem connectors_follow_config_witness:
  "\<exists>q i. compound_resolve (query_resolver sample_conf) sample_tables ''logs'' = Some q \<and>
         compound_resolve (ingest_resolver sample_conf) sample_tables ''logs'' = Some i \<and>
         list_all (connector_allowed sample_conf sample_tables QueryPipeline ''logs'') (UseConnectors q) \<and>
         list_all (connector_allowed sample_conf sample_tables IngestPipeline ''logs'') (UseConnectors i)"
  using connectors_follow_config [of "''logs''" sample_conf sample_tables]
  by (auto simp: is_pattern_iff sane_name_def valid_targets_def sample_defs getTargets_def)

text \<open>
  C24: Kibana internals never leave Elasticsearch: whatever the configuration and the discovered
  tables say, a name that starts with a dot or an underscore is a management call to
  Elasticsearch and nothing else, on the query side even if it contains stars, and on the
  ingest side if it is no pattern.
\<close>
theorem internal_indexes_stay_in_elastic:
  assumes "IsInternalIndex name" and "CHR '','' \<notin> set name"
  shows "map_option UseConnectors (compound_resolve (query_resolver conf) r name) =
           Some [ConnectorDecisionElastic True] \<and>
         map_option UseConnectors (compound_resolve (ingest_resolver conf) r name) =
           Some (if CHR ''*'' \<in> set name then [] else [ConnectorDecisionElastic True])"
proof -
  have "pp_parts (fst (wildcardPatternSplitter conf r name)) = [name]"
    using assms by (intro parts_of_name) auto
  from query_resolve_single [OF this] show ?thesis
    using assms by (auto simp: ingest_resolve rung_internal is_pattern_iff)
qed

theorem internal_indexes_stay_in_elastic_witness:
  "map_option UseConnectors (compound_resolve (query_resolver sample_conf) sample_tables ''.kibana*'') =
     Some [ConnectorDecisionElastic True]"
  using internal_indexes_stay_in_elastic [of "''.kibana*''" sample_conf sample_tables]
  by (simp add: IsInternalIndex_def has_prefix_def)

text \<open>
  Resolution does not depend on the order in which Go ranges over its maps: two
  configurations and two discoveries with the same entries, in whatever order, give every
  query pattern the same decision, error messages included.
\<close>
lemma query_resolution_deterministic:
  assumes "same_maps conf conf'" and "same_tables r r'"
  shows "compound_resolve (query_resolver conf') r' pattern = compound_resolve (query_resolver conf) r pattern"
  using assms by (rule query_resolve_same)

lemma query_resolution_deterministic_example:
  "compound_resolve (query_resolver (sample_conf\<lparr>IndexConfig := rev (IndexConfig sample_conf)\<rparr>))
     (sample_tables\<lparr>clickhouseIndexes := rev (clickhouseIndexes sample_tables)\<rparr>) ''*'' =
   compound_resolve (query_resolver sample_conf) sample_tables ''*''"
  by (rule query_resolution_deterministic) (auto simp: same_maps_def same_tables_def sample_defs)

text \<open>
  With autodiscovery, a wildcard that happens to match the internal common table fails
  altogether: the discovered tables include \<open>quesma_common_table\<close>, the common table rule
  answers an error for it, and the merger lets no error pass, whatever the other indexes are.
\<close>
lemma common_table_spoils_wildcards:
  assumes "AutodiscoveryEnabled conf" and "CommonTableName \<in> fst ` set (clickhouseIndexes r)"
    and "map_of (IndexConfig conf) CommonTableName = None"
    and "IndexPatternMatches pattern CommonTableName"
    and "CHR ''*'' \<in> set pattern" and "CHR '','' \<notin> set pattern" and "\<not> IsInternalIndex pattern"
    and "compound_resolve (query_resolver conf) r pattern = Some d"
  shows "Err d \<noteq> None"
proof
  assume ok: "Err d = None"
  let ?names = "pp_parts (fst (wildcardPatternSplitter conf r pattern))"
  have mem: "CommonTableName \<in> set ?names"
    using assms(1,2,4-7)
    by (auto simp: wildcardPatternSplitter_def Let_def split_on_free matching_names_def is_pattern_iff image_iff)
  have bad: "Err (rung conf QueryPipeline r CommonTableName) \<noteq> None"
    using rung_common_table [OF assms(3)] by simp
  have m: "basicDecisionMerger (map (\<lambda>n. Some (rung conf QueryPipeline r n)) ?names) = Some d"
    using assms(8) by (simp add: query_resolve)
  from mem consider n where "?names = [n]" | n1 n2 ns where "?names = n1 # n2 # ns"
    by (cases ?names rule: remdups_adj.cases) auto
  then show False
  proof cases
    case 1
    then show ?thesis using m mem bad ok by (simp add: basicDecisionMerger_def)
  next
    case (2 n1 n2 ns)
    let ?R = "rung conf QueryPipeline r"
    have "basicDecisionMerger (map Some (?R n1 # ?R n2 # map ?R ns)) = Some d"
      using m 2 by (simp add: o_def)
    from merger_ok(1) [OF this ok] mem bad 2 show ?thesis by (auto simp: list_all_iff)
  qed
qed

lemma common_table_spoils_wildcards_example:
  "map_option Err (compound_resolve (query_resolver sample_conf) sample_tables ''*'') \<noteq> Some None"
proof -
  obtain d where d: "compound_resolve (query_resolver sample_conf) sample_tables ''*'' = Some d"
    using query_resolve_Some by blast
  have "Err d \<noteq> None"
    by (rule common_table_spoils_wildcards [OF _ _ _ _ _ _ _ d])
      (simp_all add: sample_defs CommonTableName_def IndexPatternMatches_star IsInternalIndex_def has_prefix_def)
  then show ?thesis using d by simp
qed

end
