(* ===== verification/Resolver_State.thy ===== *)
theory Resolver_State
  imports Table_Resolver "HOL-Library.AList"
begin

text \<open>
  The table registry of \<open>quesma/table_resolver/table_resolver.go\<close>: the resolvers of the two
  pipelines with their caches of recent decisions, the snapshot of the discovered tables they
  decide on, and the reload that replaces the snapshot and drops the caches.

  The mutex of the registry makes every operation on it one step.  \<open>updateIndexes\<close> reads the
  backends before it takes the lock, so a reload is two steps, a fetch and a commit, between
  which decisions may be taken.
\<close>

section \<open>The state\<close>

text \<open>
  The Go interface \<open>tableResolver\<close> reads the registry's snapshot through its receiver; here
  the snapshot is its argument.
\<close>

record pipeline_resolver =
  pipelineName :: string
  resolver :: "index_state \<Rightarrow> string \<Rightarrow> decision option"
  recentDecisions :: "(string \<times> decision) list"

record table_registry =
  indexState :: index_state
  pipelineResolvers :: "(string \<times> pipeline_resolver) list"
  conf :: quesma_configuration

text \<open>What the backends answer to a reload: tables with their virtual flag, indices, data streams.\<close>

record backend_state =
  TableDefinitions :: "(string \<times> bool) list"
  Indices :: "string list"
  DataStreams :: "string list"

section \<open>Operations\<close>

definition pipeline_not_found :: "string \<Rightarrow> string \<Rightarrow> decision" where
  "pipeline_not_found pipeline indexPattern =
     no_decision\<lparr>IndexPattern := indexPattern, Err := Some (PipelineNotFound pipeline),
       Reason := ''Pipeline not found. This is a bug.'', ResolverName := ''tableRegistryImpl''\<rparr>"

text \<open>\<open>Resolve\<close> inside one pipeline; \<open>None\<close> is the nil dereference of a resolver without an answer.\<close>

definition cached_resolve ::
  "pipeline_resolver \<Rightarrow> index_state \<Rightarrow> string \<Rightarrow> (decision \<times> pipeline_resolver) option" where
  "cached_resolve res r indexPattern =
     (case map_of (recentDecisions res) indexPattern of
        Some d \<Rightarrow> Some (d, res)
      | None \<Rightarrow>
          (case resolver res r indexPattern of
             None \<Rightarrow> None
           | Some d \<Rightarrow>
               (let d = d\<lparr>IndexPattern := indexPattern\<rparr>
                in Some (d, res\<lparr>recentDecisions := (indexPattern, d) # recentDecisions res\<rparr>))))"

definition Resolve :: "table_registry \<Rightarrow> string \<Rightarrow> string \<Rightarrow> (decision \<times> table_registry) option" where
  "Resolve R pipeline indexPattern =
     (case map_of (pipelineResolvers R) pipeline of
        None \<Rightarrow> Some (pipeline_not_found pipeline indexPattern, R)
      | Some res \<Rightarrow>
          map_option (\<lambda>(d, res'). (d, R\<lparr>pipelineResolvers := AList.update pipeline res' (pipelineResolvers R)\<rparr>))
            (cached_resolve res (indexState R) indexPattern))"

definition fetch_indexes :: "backend_state \<Rightarrow> index_state" where
  "fetch_indexes b = \<lparr>elasticIndexes = remdups (Indices b @ DataStreams b), clickhouseIndexes = TableDefinitions b\<rparr>"

definition commit_indexes :: "index_state \<Rightarrow> table_registry \<Rightarrow> table_registry" where
  "commit_indexes r R =
     R\<lparr>indexState := r,
       pipelineResolvers := map (\<lambda>(name, res). (name, res\<lparr>recentDecisions := []\<rparr>)) (pipelineResolvers R)\<rparr>"

definition updateIndexes :: "backend_state \<Rightarrow> table_registry \<Rightarrow> table_registry" where
  "updateIndexes b R = commit_indexes (fetch_indexes b) R"

record pattern_decisions =
  Pattern :: string
  Decisions :: "string \<rightharpoonup> decision"

definition RecentDecisions :: "table_registry \<Rightarrow> pattern_decisions list" where
  "RecentDecisions R =
     (let patterns = distinct_sorted (concat (map (\<lambda>(_, res). map fst (recentDecisions res)) (pipelineResolvers R)))
      in map (\<lambda>p. \<lparr>Pattern = p,
           Decisions = fold (\<lambda>(_, res) m.
               case map_of (recentDecisions res) p of
                 Some d \<Rightarrow> m(pipelineName res \<mapsto> d)
               | None \<Rightarrow> m) (pipelineResolvers R) Map.empty\<rparr>) patterns)"

definition Pipelines :: "table_registry \<Rightarrow> string list" where
  "Pipelines R = sort (map fst (pipelineResolvers R))"

definition NewTableResolver :: "quesma_configuration \<Rightarrow> backend_state \<Rightarrow> table_registry" where
  "NewTableResolver quesmaConf b =
     updateIndexes b
       \<lparr>indexState = \<lparr>elasticIndexes = [], clickhouseIndexes = []\<rparr>,
        pipelineResolvers =
          [(IngestPipeline, \<lparr>pipelineName = IngestPipeline,
              resolver = compound_resolve (ingest_resolver quesmaConf), recentDecisions = []\<rparr>),
           (QueryPipeline, \<lparr>pipelineName = QueryPipeline,
              resolver = compound_resolve (query_resolver quesmaConf), recentDecisions = []\<rparr>)],
        conf = quesmaConf\<rparr>"

section \<open>A resolver behind a cache\<close>

text \<open>
  The answer of a resolver on a snapshot, and a cache that holds only such answers.
\<close>

definition answer :: "(index_state \<Rightarrow> string \<Rightarrow> decision option) \<Rightarrow> index_state \<Rightarrow> string \<Rightarrow> decision" where
  "answer resolve r p = (the (resolve r p))\<lparr>IndexPattern := p\<rparr>"

definition coherent ::
  "(index_state \<Rightarrow> string \<Rightarrow> decision option) \<Rightarrow> index_state \<Rightarrow> pipeline_resolver \<Rightarrow> bool" where
  "coherent resolve r res \<longleftrightarrow>
     resolver res = resolve \<and> list_all (\<lambda>(p, d). d = answer resolve r p) (recentDecisions res)"

text \<open>
  What the registry needs of a \<open>tableResolver\<close>: it always has an answer.  The cache is then
  transparent: it answers what the resolver would, and stays coherent with the snapshot.
\<close>

locale table_resolver =
  fixes resolve :: "index_state \<Rightarrow> string \<Rightarrow> decision option"
  assumes resolve_answers: "resolve r p \<noteq> None"
begin

lemma cached_resolve_coherent:
  assumes "coherent resolve r res"
  shows "\<exists>res'. cached_resolve res r p = Some (answer resolve r p, res') \<and> coherent resolve r res' \<and>
           pipelineName res' = pipelineName res \<and>
           set (map fst (recentDecisions res')) = insert p (set (map fst (recentDecisions res)))"
proof (cases "map_of (recentDecisions res) p")
  case None
  obtain d where d: "resolve r p = Some d" using resolve_answers by blast
  then have "cached_resolve res r p =
      Some (answer resolve r p, res\<lparr>recentDecisions := (p, answer resolve r p) # recentDecisions res\<rparr>)"
    using None assms by (simp add: cached_resolve_def coherent_def Let_def answer_def)
  then show ?thesis using assms by (simp add: coherent_def)
next
  case (Some d)
  then have "(p, d) \<in> set (recentDecisions res)" by (rule map_of_SomeD)
  then have "d = answer resolve r p" "p \<in> fst ` set (recentDecisions res)"
    using assms by (auto simp: coherent_def list_all_iff intro: rev_image_eqI)
  then show ?thesis using Some assms by (auto simp: cached_resolve_def)
qed

lemma empty_coherent: "resolver res = resolve \<Longrightarrow> coherent resolve r (res\<lparr>recentDecisions := []\<rparr>)"
  by (simp add: coherent_def)

lemma coherent_resolver: "coherent resolve r res \<Longrightarrow> resolver res = resolve"
  by (simp add: coherent_def)

end

interpretation ingest: table_resolver "compound_resolve (ingest_resolver c)" for c
  by unfold_locales (simp add: ingest_resolve)

interpretation query: table_resolver "compound_resolve (query_resolver c)" for c
  by unfold_locales (rule query_resolve_Some)

section \<open>The registry as a step relation\<close>

text \<open>
  A configuration of the running registry: the registry and the reload under way, if any.
  There is one goroutine that reloads, so at most one fetched snapshot is pending.
\<close>

datatype event =
    Resolved string string decision
  | Fetched backend_state
  | Committed

inductive registry_step ::
  "table_registry \<times> index_state option \<Rightarrow> event \<Rightarrow> table_registry \<times> index_state option \<Rightarrow> bool" where
  resolve_step: "Resolve R pipeline p = Some (d, R') \<Longrightarrow>
     registry_step (R, pending) (Resolved pipeline p d) (R', pending)"
| fetch_step: "registry_step (R, None) (Fetched b) (R, Some (fetch_indexes b))"
| commit_step: "registry_step (R, Some r) Committed (commit_indexes r R, None)"

inductive_cases registry_stepE: "registry_step s e t"

inductive_simps registry_resolved_iff: "registry_step (R, pending) (Resolved pl p d) t"

inductive reachable :: "quesma_configuration \<Rightarrow> table_registry \<times> index_state option \<Rightarrow> bool" for c where
  started: "reachable c (NewTableResolver c b, None)"
| stepped: "reachable c s \<Longrightarrow> registry_step s e t \<Longrightarrow> reachable c t"

text \<open>The invariant of the registry: its two pipelines, in order, with coherent caches.\<close>

definition registry_inv :: "quesma_configuration \<Rightarrow> table_registry \<Rightarrow> bool" where
  "registry_inv c R \<longleftrightarrow>
     (\<exists>i q. pipelineResolvers R = [(IngestPipeline, i), (QueryPipeline, q)] \<and>
        pipelineName i = IngestPipeline \<and> pipelineName q = QueryPipeline \<and>
        coherent (compound_resolve (ingest_resolver c)) (indexState R) i \<and> coherent (compound_resolve (query_resolver c)) (indexState R) q)"

lemma registry_invE:
  assumes "registry_inv c R"
  obtains i q where "pipelineResolvers R = [(IngestPipeline, i), (QueryPipeline, q)]"
    "pipelineName i = IngestPipeline" "pipelineName q = QueryPipeline"
    "coherent (compound_resolve (ingest_resolver c)) (indexState R) i" "coherent (compound_resolve (query_resolver c)) (indexState R) q"
  using assms by (auto simp: registry_inv_def)

lemma commit_inv: "registry_inv c R \<Longrightarrow> registry_inv c (commit_indexes r R)"
  by (auto simp: registry_inv_def commit_indexes_def
      intro!: ingest.empty_coherent query.empty_coherent
      dest: ingest.coherent_resolver query.coherent_resolver)

lemma new_inv: "registry_inv c (NewTableResolver c b)"
  by (auto simp: registry_inv_def NewTableResolver_def updateIndexes_def commit_indexes_def
      coherent_def)

text \<open>What the registry answers, as a function of the snapshot alone.\<close>

definition registry_answer :: "quesma_configuration \<Rightarrow> index_state \<Rightarrow> string \<Rightarrow> string \<Rightarrow> decision" where
  "registry_answer c r pipeline p =
     (if pipeline = IngestPipeline then answer (compound_resolve (ingest_resolver c)) r p
      else if pipeline = QueryPipeline then answer (compound_resolve (query_resolver c)) r p
      else pipeline_not_found pipeline p)"

lemma Resolve_inv:
  assumes "registry_inv c R"
  shows "\<exists>R'. Resolve R pipeline p = Some (registry_answer c (indexState R) pipeline p, R') \<and>
           registry_inv c R' \<and> indexState R' = indexState R"
  using assms
proof (rule registry_invE)
  fix i q
  assume R: "pipelineResolvers R = [(IngestPipeline, i), (QueryPipeline, q)]"
    "pipelineName i = IngestPipeline" "pipelineName q = QueryPipeline"
    "coherent (compound_resolve (ingest_resolver c)) (indexState R) i" "coherent (compound_resolve (query_resolver c)) (indexState R) q"
  obtain i' where i': "cached_resolve i (indexState R) p = Some (answer (compound_resolve (ingest_resolver c)) (indexState R) p, i')"
    "coherent (compound_resolve (ingest_resolver c)) (indexState R) i'" "pipelineName i' = pipelineName i"
    using ingest.cached_resolve_coherent [OF R(4)] by blast
  obtain q' where q': "cached_resolve q (indexState R) p = Some (answer (compound_resolve (query_resolver c)) (indexState R) p, q')"
    "coherent (compound_resolve (query_resolver c)) (indexState R) q'" "pipelineName q' = pipelineName q"
    using query.cached_resolve_coherent [OF R(5)] by blast
  consider "pipeline = IngestPipeline" | "pipeline = QueryPipeline" | "\<not> known_pipeline pipeline"
    by (auto simp: known_pipeline_def)
  then show ?thesis
    by cases (use R i' q' assms in
        \<open>auto simp: Resolve_def registry_answer_def registry_inv_def known_pipeline_def\<close>)
qed

lemma step_inv: "registry_step s e t \<Longrightarrow> registry_inv c (fst s) \<Longrightarrow> registry_inv c (fst t)"
proof (induction rule: registry_step.induct)
  case (resolve_step R pipeline p d R' pending)
  then show ?case using Resolve_inv [of c R pipeline p] by auto
qed (auto intro: commit_inv)

lemma reachable_inv: "reachable c s \<Longrightarrow> registry_inv c (fst s)"
  by (induction rule: reachable.induct) (auto intro: new_inv step_inv)

lemma registry_inv_caches:
  assumes "registry_inv c R" and "map_of (pipelineResolvers R) pipeline = Some res"
    and "(p, d) \<in> set (recentDecisions res)"
  shows "d = registry_answer c (indexState R) pipeline p"
  using assms by (auto simp: registry_inv_def coherent_def registry_answer_def list_all_iff split: if_splits)

section \<open>Properties\<close>

text \<open>
  C25: The cache of decisions is transparent.  In every state the running registry can reach,
  through any interleaving of calls of \<open>Resolve\<close> with the two halves of a reload, resolving a
  pattern returns what the resolver of the pipeline decides on the current snapshot, stamped
  with the pattern, and does not panic; an unknown pipeline gets an error.
\<close>
theorem resolve_transparent:
  assumes "reachable c (R, pending)"
  shows "\<exists>R'. Resolve R pipeline p = Some (registry_answer c (indexState R) pipeline p, R') \<and>
           reachable c (R', pending) \<and> indexState R' = indexState R"
proof -
  have "registry_inv c R" using reachable_inv [OF assms] by simp
  then obtain R' where "Resolve R pipeline p = Some (registry_answer c (indexState R) pipeline p, R')"
    "indexState R' = indexState R"
    using Resolve_inv by blast
  moreover from this(1) have "reachable c (R', pending)"
    by (rule stepped [OF assms resolve_step])
  ultimately show ?thesis by blast
qed

text \<open>
  C9: No stale decision survives a reload: in every reachable state, whatever is cached for a
  pipeline is the decision of its resolver on the current snapshot, never on an earlier one.
\<close>
theorem caches_never_stale:
  assumes "reachable c (R, pending)" and "map_of (pipelineResolvers R) pipeline = Some res"
    and "(p, d) \<in> set (recentDecisions res)"
  shows "d = registry_answer c (indexState R) pipeline p"
  using reachable_inv [OF assms(1)] assms(2,3) by (auto intro: registry_inv_caches)

text \<open>A registry after two queries and a reload, to run the properties on.\<close>

definition sample_backend :: backend_state where
  "sample_backend =
     \<lparr>TableDefinitions = [(''logs'', False)], Indices = [''audit''], DataStreams = []\<rparr>"

definition sample_registry :: table_registry where
  "sample_registry = snd (the (Resolve (NewTableResolver sample_conf sample_backend) QueryPipeline ''logs''))"

lemma sample_registry_reachable: "reachable sample_conf (sample_registry, None)"
proof -
  let ?N = "NewTableResolver sample_conf sample_backend"
  obtain R' where R': "Resolve ?N QueryPipeline ''logs'' =
      Some (registry_answer sample_conf (indexState ?N) QueryPipeline ''logs'', R')"
    using Resolve_inv [OF new_inv] by blast
  then have "sample_registry = R'" by (simp add: sample_registry_def)
  then show ?thesis using stepped [OF started resolve_step [OF R']] by simp
qed

theorem resolve_transparent_witness:
  "\<exists>R'. Resolve sample_registry QueryPipeline ''logs'' =
     Some (registry_answer sample_conf (indexState sample_registry) QueryPipeline ''logs'', R')"
  using resolve_transparent [OF sample_registry_reachable] by blast

lemma sample_registry_cache:
  "\<exists>res d. map_of (pipelineResolvers sample_registry) QueryPipeline = Some res \<and>
     (''logs'', d) \<in> set (recentDecisions res)"
proof -
  let ?r = "fetch_indexes sample_backend"
  obtain d where "compound_resolve (query_resolver sample_conf) ?r ''logs'' = Some d"
    using query_resolve_Some by blast
  then show ?thesis
    by (simp add: sample_registry_def Resolve_def NewTableResolver_def updateIndexes_def commit_indexes_def
        cached_resolve_def Let_def)
qed

theorem caches_never_stale_witness:
  "\<exists>res d. map_of (pipelineResolvers sample_registry) QueryPipeline = Some res \<and>
     (''logs'', d) \<in> set (recentDecisions res) \<and>
     d = registry_answer sample_conf (indexState sample_registry) QueryPipeline ''logs''"
proof -
  obtain res d where "map_of (pipelineResolvers sample_registry) QueryPipeline = Some res"
    "(''logs'', d) \<in> set (recentDecisions res)"
    using sample_registry_cache by blast
  with caches_never_stale [OF sample_registry_reachable this] show ?thesis by blast
qed

text \<open>
  The report of recent decisions is sorted and complete: its patterns are strictly
  increasing and are those some pipeline has in its cache, and each decision in it is what the
  pipeline it stands under decides on the current snapshot.
\<close>
lemma recent_decisions_report:
  assumes "reachable c (R, pending)"
  shows "sorted_wrt (<) (map Pattern (RecentDecisions R)) \<and>
         set (map Pattern (RecentDecisions R)) =
           (\<Union>(_, res) \<in> set (pipelineResolvers R). set (map fst (recentDecisions res))) \<and>
         list_all (\<lambda>pd. Decisions pd \<subseteq>\<^sub>m (\<lambda>pl. Some (registry_answer c (indexState R) pl (Pattern pd))))
           (RecentDecisions R)"
proof -
  have inv: "registry_inv c R" using reachable_inv [OF assms] by simp
  have "map Pattern (RecentDecisions R) =
      distinct_sorted (concat (map (\<lambda>(_, res). map fst (recentDecisions res)) (pipelineResolvers R)))"
    by (simp add: RecentDecisions_def Let_def o_def)
  moreover have "list_all (\<lambda>pd. Decisions pd \<subseteq>\<^sub>m (\<lambda>pl. Some (registry_answer c (indexState R) pl (Pattern pd))))
           (RecentDecisions R)"
    using inv
  proof (rule registry_invE)
    fix i q
    assume R: "pipelineResolvers R = [(IngestPipeline, i), (QueryPipeline, q)]"
      "pipelineName i = IngestPipeline" "pipelineName q = QueryPipeline"
    have "d = registry_answer c (indexState R) pl p"
      if "map_of (pipelineResolvers R) pl = Some res" "map_of (recentDecisions res) p = Some d" for pl res p d
      using registry_inv_caches [OF inv that(1)] map_of_SomeD [OF that(2)] by blast
    then show ?thesis
      using R by (auto simp: RecentDecisions_def Let_def list_all_iff map_le_def split: option.splits if_splits)
  qed
  ultimately show ?thesis by (auto simp: strict_sorted_iff)
qed

lemma recent_decisions_report_example:
  "map Pattern (RecentDecisions sample_registry) \<noteq> [] \<and>
   sorted_wrt (<) (map Pattern (RecentDecisions sample_registry))"
proof -
  note report = recent_decisions_report [OF sample_registry_reachable]
  obtain res d where c: "map_of (pipelineResolvers sample_registry) QueryPipeline = Some res"
    "(''logs'', d) \<in> set (recentDecisions res)"
    using sample_registry_cache by blast
  have "(QueryPipeline, res) \<in> set (pipelineResolvers sample_registry)"
    using c(1) by (rule map_of_SomeD)
  moreover have "''logs'' \<in> set (map fst (recentDecisions res))"
    using c(2) by (auto intro: rev_image_eqI)
  ultimately have "''logs'' \<in> set (map Pattern (RecentDecisions sample_registry))"
    unfolding report [THEN conjunct2, THEN conjunct1] by blast
  then show ?thesis using report [THEN conjunct1] by (metis empty_iff list.set(1))
qed

section \<open>The resolver of single pipelines\<close>

text \<open>
  \<open>table_resolver_dummy.go\<close>: a resolver with neither pipelines nor a cache, that knows only the
  configuration of the indexes.
\<close>

record DummyTableResolver =
  cfg :: "(string \<times> index_configuration) list"
  wildcardCommonTable :: bool

definition dummy_resolveElastic :: decision where
  "dummy_resolveElastic = no_decision\<lparr>UseConnectors := [ConnectorDecisionElastic False]\<rparr>"

definition dummy_resolveCommonTable :: "string \<Rightarrow> decision" where
  "dummy_resolveCommonTable indexPattern =
     no_decision\<lparr>UseConnectors := [clickhouse_connector CommonTableName True indexPattern]\<rparr>"

definition dummy_resolveClickhouse :: "string \<Rightarrow> decision" where
  "dummy_resolveClickhouse indexPattern =
     no_decision\<lparr>UseConnectors := [clickhouse_connector indexPattern False indexPattern]\<rparr>"

definition dummy_Resolve :: "DummyTableResolver \<Rightarrow> string \<Rightarrow> string \<Rightarrow> decision" where
  "dummy_Resolve t pipeline indexPattern =
     (if IsInternalIndex indexPattern then dummy_resolveElastic
      else if wildcardCommonTable t then dummy_resolveCommonTable indexPattern
      else (case map_of (cfg t) indexPattern of
              None \<Rightarrow> dummy_resolveElastic
            | Some indexCfg \<Rightarrow>
                if UseCommonTable indexCfg then dummy_resolveCommonTable indexPattern
                else dummy_resolveClickhouse indexPattern))"

text \<open>It decides for one connector, never with an error, whatever the pattern.\<close>

lemma dummy_Resolve_one_connector:
  "\<exists>connector. UseConnectors (dummy_Resolve t pipeline indexPattern) = [connector]"
  "Err (dummy_Resolve t pipeline indexPattern) = None"
  by (auto simp: dummy_Resolve_def dummy_resolveElastic_def dummy_resolveCommonTable_def
      dummy_resolveClickhouse_def no_decision_def split: option.split)

end
