(* ===== verification/Rewriting.thy ===== *)
theory Rewriting
  imports Expr_Model
begin

text \<open>
  Visitors that rewrite: most passes over a query override a few methods of the base visitor,
  replace some nodes outright and rebuild the others from their visited children, leaving captured
  variables alone.  Here is the function such a visitor computes, the contract under which it
  does, and what rewriting does to trees.
\<close>

section \<open>Replacing children\<close>

definition order_by_of :: "(expr \<Rightarrow> expr) \<Rightarrow> order_by_expr \<Rightarrow> order_by_expr" where
  "order_by_of g ob = (case g (OrderByE ob) of OrderByE ob' \<Rightarrow> ob' | _ \<Rightarrow> ob)"

definition cte_of :: "(expr \<Rightarrow> expr) \<Rightarrow> cte \<Rightarrow> cte" where
  "cte_of g c = (case g (CTEE c) of CTEE c' \<Rightarrow> c' | _ \<Rightarrow> c)"

definition clause_of :: "(expr \<Rightarrow> expr) \<Rightarrow> expr \<Rightarrow> expr" where
  "clause_of g e = (if e = NilExpr then NilExpr else g e)"

text \<open>A node with every child \<open>c\<close> replaced by \<open>g c\<close>.\<close>

fun map_children :: "(expr \<Rightarrow> expr) \<Rightarrow> expr \<Rightarrow> expr" where
  "map_children g (TupleExpr es) = TupleExpr (map g es)"
| "map_children g (InfixExpr l op r) = InfixExpr (g l) op (g r)"
| "map_children g (PrefixExpr op args) = PrefixExpr op (map g args)"
| "map_children g (FunctionExpr n args) = FunctionExpr n (map g args)"
| "map_children g (NestedProperty e p) =
     NestedProperty (g e) (case g (LiteralExpr p) of LiteralExpr p' \<Rightarrow> p' | _ \<Rightarrow> p)"
| "map_children g (ArrayAccess c i) =
     ArrayAccess (case g (ColumnRef c) of ColumnRef c' \<Rightarrow> c' | _ \<Rightarrow> c) (g i)"
| "map_children g (OrderByE ob) = OrderByE (OrderByExpr (g (ob_Expr ob)) (ob_Direction ob))"
| "map_children g (DistinctExpr e) = DistinctExpr (g e)"
| "map_children g (AliasedExpr e a) = AliasedExpr (g e) a"
| "map_children g (WindowFunction n args ps obs) =
     WindowFunction n (map g args) (map g ps) (map (order_by_of g) obs)"
| "map_children g (SelectE q) =
     SelectE (NewSelectCommand (map g (Columns q)) (map g (GroupBy q)) (map (order_by_of g) (OrderBy q))
       (clause_of g (FromClause q)) (clause_of g (WhereClause q)) (map g (LimitBy q)) (Limit q)
       (SampleLimit q) (IsDistinct q) (map (cte_of g) (NamedCTEs q)))"
| "map_children g (ParenExpr es) = ParenExpr (map g es)"
| "map_children g (LambdaExpr args b) = LambdaExpr args (g b)"
| "map_children g (JoinExpr l t r on) = JoinExpr (g l) t (g r) (g on)"
| "map_children g (CTEE c) =
     CTEE (CTE (cte_Name c) (case g (SelectE (cte_Select c)) of SelectE q \<Rightarrow> q | _ \<Rightarrow> cte_Select c))"
| "map_children g e = e"

lemma map_children_cong [fundef_cong]:
  assumes "e = e'" and "\<And>c. c \<in> set (children e') \<Longrightarrow> g c = g' c"
  shows "map_children g e = map_children g' e'"
proof -
  have "map_children g e' = map_children g' e'"
    using assms(2)
    by (cases e') (auto simp: order_by_of_def cte_of_def clause_of_def cong: map_cong split: if_splits)
  then show ?thesis using assms(1) by simp
qed

text \<open>The children that replace others fit their places in the node.\<close>

fun is_LiteralExpr :: "expr \<Rightarrow> bool" where
  "is_LiteralExpr (LiteralExpr l) = True" | "is_LiteralExpr e = False"

fun is_ColumnRef :: "expr \<Rightarrow> bool" where
  "is_ColumnRef (ColumnRef c) = True" | "is_ColumnRef e = False"

fun is_SelectE :: "expr \<Rightarrow> bool" where
  "is_SelectE (SelectE q) = True" | "is_SelectE e = False"

fun is_OrderByE :: "expr \<Rightarrow> bool" where
  "is_OrderByE (OrderByE ob) = True" | "is_OrderByE e = False"

fun is_CTEE :: "expr \<Rightarrow> bool" where
  "is_CTEE (CTEE c) = True" | "is_CTEE e = False"

fun fits :: "(expr \<Rightarrow> expr) \<Rightarrow> expr \<Rightarrow> bool" where
  "fits g (NestedProperty e p) = is_LiteralExpr (g (LiteralExpr p))"
| "fits g (ArrayAccess c i) = is_ColumnRef (g (ColumnRef c))"
| "fits g (WindowFunction n args ps obs) = list_all (\<lambda>ob. is_OrderByE (g (OrderByE ob))) obs"
| "fits g (SelectE q) =
     (list_all (\<lambda>ob. is_OrderByE (g (OrderByE ob))) (OrderBy q) \<and> list_all (\<lambda>c. is_CTEE (g (CTEE c))) (NamedCTEs q))"
| "fits g (CTEE c) = is_SelectE (g (SelectE (cte_Select c)))"
| "fits g e = True"

lemma st_mapM_map:
  assumes "\<And>x. x \<in> set xs \<Longrightarrow> f x s = Some (h x, s)"
  shows "st_mapM f xs s = Some (map h xs, s)"
  using assms by (induction xs) auto

lemma visit_list_map:
  assumes "\<And>x. x \<in> set xs \<Longrightarrow> w x s = Some (g x, s) \<and> g x \<noteq> NilExpr"
  shows "visit_list w xs s = Some (map g xs, s)"
  using assms unfolding visit_list_def by (intro st_mapM_map) (simp add: visit_as_def as_Expr_def)

lemma VisitChildren_map:
  assumes "\<And>x. x \<in> set xs \<Longrightarrow> w x s = Some (g x, s) \<and> g x \<noteq> NilExpr \<and> x \<noteq> NilExpr"
  shows "VisitChildren w xs s = Some (map g xs, s)"
proof -
  have "filter (\<lambda>a. a \<noteq> NilExpr) xs = xs" using assms by (simp add: filter_id_conv)
  then show ?thesis
    using visit_list_map [of xs w s g] assms by (simp add: VisitChildren_def visit_list_def)
qed

lemma visit_order_by_map:
  assumes "\<And>ob. ob \<in> set obs \<Longrightarrow> w (OrderByE ob) s = Some (g (OrderByE ob), s) \<and> is_OrderByE (g (OrderByE ob))"
  shows "visit_order_by w obs s = Some (map (order_by_of g) obs, s)"
  unfolding visit_order_by_def
proof (rule st_mapM_map)
  fix ob assume "ob \<in> set obs"
  then show "visit_as as_OrderByExpr w (OrderByE ob) s = Some (order_by_of g ob, s)"
    using assms [of ob]
    by (cases "g (OrderByE ob)") (simp_all add: visit_as_def as_OrderByExpr_def order_by_of_def)
qed

lemma visit_ctes_map:
  assumes "\<And>c. c \<in> set cs \<Longrightarrow> w (CTEE c) s = Some (g (CTEE c), s) \<and> is_CTEE (g (CTEE c))"
  shows "visit_ctes w cs s = Some (map (cte_of g) cs, s)"
  unfolding visit_ctes_def
proof (rule st_mapM_map)
  fix c assume "c \<in> set cs"
  then show "visit_as as_CTE w (CTEE c) s = Some (cte_of g c, s)"
    using assms [of c] by (cases "g (CTEE c)") (simp_all add: visit_as_def as_CTE_def cte_of_def)
qed

lemma visit_clause_map:
  assumes "e \<noteq> NilExpr \<Longrightarrow> w e s = Some (g e, s) \<and> g e \<noteq> NilExpr"
  shows "visit_clause w e s = Some (clause_of g e, s)"
  using assms by (auto simp: visit_clause_def clause_of_def visit_as_def as_Expr_def)

text \<open>A visitor's default on a node whose children it rewrites without touching the variables.\<close>

lemma visit_default_map:
  assumes w: "\<And>c. c \<in> set (children e) \<Longrightarrow> w c s = Some (g c, s) \<and> g c \<noteq> NilExpr \<and> c \<noteq> NilExpr"
    and nil: "e \<noteq> NilExpr" and fit: "fits g e"
  shows "visit_default w e s = Some (map_children g e, s)"
proof -
  have args1: "VisitChildren w xs s = Some (map g xs, s)" if "set xs \<subseteq> set (children e)" for xs
    by (rule VisitChildren_map) (use w that in auto)
  have args2: "visit_list w xs s = Some (map g xs, s)" if "set xs \<subseteq> set (children e)" for xs
    by (rule visit_list_map) (use w that in auto)
  have one: "visit_as as_Expr w x s = Some (g x, s)" if "x \<in> set (children e)" for x
    using w that by (simp add: visit_as_def as_Expr_def)
  show ?thesis
  proof (cases e)
    case (SelectE q)
    have "OrderByE ob \<in> set (children e) \<and> is_OrderByE (g (OrderByE ob))" if "ob \<in> set (OrderBy q)" for ob
      using that SelectE fit by (simp add: list_all_iff)
    with w have "visit_order_by w (OrderBy q) s = Some (map (order_by_of g) (OrderBy q), s)"
      by (intro visit_order_by_map) blast
    moreover have "CTEE c \<in> set (children e) \<and> is_CTEE (g (CTEE c))" if "c \<in> set (NamedCTEs q)" for c
      using that SelectE fit by (simp add: list_all_iff)
    with w have "visit_ctes w (NamedCTEs q) s = Some (map (cte_of g) (NamedCTEs q), s)"
      by (intro visit_ctes_map) blast
    moreover have "x \<noteq> NilExpr \<Longrightarrow> x \<in> set (children e)" if "x = FromClause q \<or> x = WhereClause q" for x
      using that SelectE by auto
    with w have "visit_clause w (FromClause q) s = Some (clause_of g (FromClause q), s)"
      "visit_clause w (WhereClause q) s = Some (clause_of g (WhereClause q), s)"
      by (intro visit_clause_map, blast)+
    moreover have "visit_list w (Columns q) s = Some (map g (Columns q), s)"
      "visit_list w (GroupBy q) s = Some (map g (GroupBy q), s)"
      "visit_list w (LimitBy q) s = Some (map g (LimitBy q), s)"
      by (rule args2, use SelectE in fastforce)+
    ultimately show ?thesis using SelectE by simp
  next
    case (WindowFunction n xs ps obs)
    have "OrderByE ob \<in> set (children e) \<and> is_OrderByE (g (OrderByE ob))" if "ob \<in> set obs" for ob
      using that WindowFunction fit by (simp add: list_all_iff)
    with w have "visit_order_by w obs s = Some (map (order_by_of g) obs, s)"
      by (intro visit_order_by_map) blast
    moreover have "VisitChildren w xs s = Some (map g xs, s)" "VisitChildren w ps s = Some (map g ps, s)"
      by (rule args1, use WindowFunction in fastforce)+
    ultimately show ?thesis using WindowFunction by simp
  next
    case (NestedProperty x p)
    have "visit_as as_LiteralExpr w (LiteralExpr p) s =
        Some (case g (LiteralExpr p) of LiteralExpr p' \<Rightarrow> p' | _ \<Rightarrow> p, s)"
      using w [of "LiteralExpr p"] fit NestedProperty
      by (cases "g (LiteralExpr p)") (simp_all add: visit_as_def as_LiteralExpr_def)
    then show ?thesis using one [of x] NestedProperty by simp
  next
    case (ArrayAccess c i)
    have "visit_as as_ColumnRef w (ColumnRef c) s =
        Some (case g (ColumnRef c) of ColumnRef c' \<Rightarrow> c' | _ \<Rightarrow> c, s)"
      using w [of "ColumnRef c"] fit ArrayAccess
      by (cases "g (ColumnRef c)") (simp_all add: visit_as_def as_ColumnRef_def)
    then show ?thesis using one [of i] ArrayAccess by simp
  next
    case (CTEE c)
    then show ?thesis
      using w fit
      by (cases "g (SelectE (cte_Select c))") (simp_all add: visit_as_def as_SelectCommand_def)
  next
    case (InfixExpr l op r)
    then have "l \<in> set (children e)" "r \<in> set (children e)" by simp_all
    then show ?thesis using w InfixExpr by (simp add: as_Expr_def)
  qed (use args1 args2 one nil in simp_all)
qed

lemma children_map_children:
  assumes "\<And>c. c \<in> set (children e) \<Longrightarrow> g c \<noteq> NilExpr" and "fits g e"
  shows "children (map_children g e) = map g (children e)"
proof -
  have ob: "OrderByE (order_by_of g ob) = g (OrderByE ob)" if "is_OrderByE (g (OrderByE ob))" for ob
    using that by (cases "g (OrderByE ob)") (simp_all add: order_by_of_def)
  have ct: "CTEE (cte_of g c) = g (CTEE c)" if "is_CTEE (g (CTEE c))" for c
    using that by (cases "g (CTEE c)") (simp_all add: cte_of_def)
  show ?thesis
  proof (cases e)
    case (SelectE q)
    have "clause_of g x = NilExpr \<longleftrightarrow> x = NilExpr" if "x = FromClause q \<or> x = WhereClause q" for x
      using assms(1) [of x] that SelectE by (auto simp: clause_of_def)
    then show ?thesis
      using assms(2) SelectE by (auto simp: NewSelectCommand_def list_all_iff clause_of_def ob ct)
  next
    case (NestedProperty x p)
    then show ?thesis using assms by (cases "g (LiteralExpr p)") simp_all
  next
    case (ArrayAccess c i)
    then show ?thesis using assms by (cases "g (ColumnRef c)") simp_all
  next
    case (CTEE c)
    then show ?thesis using assms by (cases "g (SelectE (cte_Select c))") simp_all
  qed (use assms in \<open>simp_all add: list_all_iff ob\<close>)
qed

lemma map_children_not_Nil [simp]: "map_children g e = NilExpr \<longleftrightarrow> e = NilExpr"
  by (cases e) simp_all

lemma wf_map_children:
  assumes "\<And>c. c \<in> set (children e) \<Longrightarrow> wf_expr (g c)" and "fits g e" and "e \<noteq> NilExpr"
  shows "wf_expr (map_children g e)"
proof -
  have "children (map_children g e) = map g (children e)"
    using assms(1,2) by (intro children_map_children) force+
  then show ?thesis
    using assms by (simp add: wf_expr.simps [of "map_children g e"] list_all_iff)
qed

section \<open>Rewriting\<close>

text \<open>
  \<open>r\<close> replaces nodes outright, with what is below them; \<open>k\<close> finishes every other node, given the
  node as it was and the node with its children rewritten.
\<close>

function rewrite :: "(expr \<Rightarrow> expr option) \<Rightarrow> (expr \<Rightarrow> expr \<Rightarrow> expr) \<Rightarrow> expr \<Rightarrow> expr" where
  "rewrite r k e = (case r e of Some e' \<Rightarrow> e' | None \<Rightarrow> k e (map_children (rewrite r k) e))"
  by pat_completeness auto
termination
  by (relation "measure (\<lambda>(r, k, e). size e)") (auto simp: size_children)

declare rewrite.simps [simp del]

text \<open>No nil is visited, and every visited node satisfies \<open>ok\<close>.\<close>

function rewritable :: "(expr \<Rightarrow> expr option) \<Rightarrow> (expr \<Rightarrow> bool) \<Rightarrow> expr \<Rightarrow> bool" where
  "rewritable r ok e \<longleftrightarrow>
     e \<noteq> NilExpr \<and> ok e \<and> (r e = None \<longrightarrow> list_all (rewritable r ok) (children e))"
  by pat_completeness auto
termination
  by (relation "measure (\<lambda>(r, ok, e). size e)") (auto simp: size_children)

declare rewritable.simps [simp del]

lemma rewritable_node: "rewritable r ok e \<Longrightarrow> ok e \<and> e \<noteq> NilExpr"
  by (simp add: rewritable.simps [of r ok e])

lemma rewritable_children: "rewritable r ok e \<Longrightarrow> r e = None \<Longrightarrow> c \<in> set (children e) \<Longrightarrow> rewritable r ok c"
  by (simp add: rewritable.simps [of r ok e] list_all_iff)

definition keep :: "expr \<Rightarrow> expr \<Rightarrow> expr" where
  "keep e e' = e'"

text \<open>
  The contract of a visitor that rewrites, in the captured state \<open>s\<close>: what it does at a node that
  is replaced, and at one whose children it has rewritten.
\<close>

locale rewriting_visitor =
  fixes v :: "'s base_visitor" and s :: 's
    and r :: "expr \<Rightarrow> expr option" and k :: "expr \<Rightarrow> expr \<Rightarrow> expr" and ok :: "expr \<Rightarrow> bool"
  assumes replaces: "r e = Some e' \<Longrightarrow> rewritable r ok e \<Longrightarrow> e' \<noteq> NilExpr \<and> accept v e s = Some (e', s)"
    and rebuilds: "r e = None \<Longrightarrow> rewritable r ok e \<Longrightarrow>
      (\<And>c. c \<in> set (children e) \<Longrightarrow> accept v c s = Some (rewrite r k c, s)) \<Longrightarrow>
      visit_default (accept v) e s = Some (map_children (rewrite r k) e, s) \<Longrightarrow>
      accept v e s = Some (k e (map_children (rewrite r k) e), s)"
    and kinds: "r (OrderByE ob) = None" "r (CTEE c) = None" "r (SelectE q) = None"
      "k (OrderByE ob) e = e" "k (CTEE c) e = e" "is_SelectE e \<Longrightarrow> is_SelectE (k (SelectE q) e)"
    and not_Nil: "e' \<noteq> NilExpr \<Longrightarrow> k e e' \<noteq> NilExpr"
    and places: "ok (ArrayAccess col i) \<Longrightarrow> is_ColumnRef (rewrite r k (ColumnRef col))"
      "ok (NestedProperty e p) \<Longrightarrow> is_LiteralExpr (rewrite r k (LiteralExpr p))"
begin

lemma rewrite_OrderByE: "is_OrderByE (rewrite r k (OrderByE ob))"
  by (simp add: rewrite.simps [of r k "OrderByE ob"] kinds)

lemma rewrite_CTEE: "is_CTEE (rewrite r k (CTEE c))"
  by (simp add: rewrite.simps [of r k "CTEE c"] kinds)

lemma rewrite_SelectE: "is_SelectE (rewrite r k (SelectE q))"
  by (simp add: rewrite.simps [of r k "SelectE q"] kinds)

lemma rewrite_fits: "r e = None \<Longrightarrow> ok e \<Longrightarrow> fits (rewrite r k) e"
  by (cases e) (simp_all add: rewrite_OrderByE rewrite_CTEE rewrite_SelectE places list_all_iff)

lemma accept_rewrite:
  "rewritable r ok e \<Longrightarrow> accept v e s = Some (rewrite r k e, s) \<and> rewrite r k e \<noteq> NilExpr"
proof (induction e rule: accept_induct)
  case (node e)
  show ?case
  proof (cases "r e")
    case None
    note e = node.prems [unfolded rewritable.simps [of r ok e]]
    then have c: "rewritable r ok c" if "c \<in> set (children e)" for c
      using that None by (simp add: list_all_iff)
    have w: "accept v c s = Some (rewrite r k c, s) \<and> rewrite r k c \<noteq> NilExpr \<and> c \<noteq> NilExpr"
      if "c \<in> set (children e)" for c
      using node.IH [OF that c [OF that]] c [OF that] by (simp add: rewritable.simps [of r ok c])
    have "visit_default (accept v) e s = Some (map_children (rewrite r k) e, s)"
      using w e rewrite_fits [OF None] by (intro visit_default_map) auto
    then show ?thesis
      using None rebuilds [OF None node.prems] w e
      by (simp add: rewrite.simps [of r k e] not_Nil)
  next
    case (Some e')
    then show ?thesis using replaces [OF Some node.prems] by (simp add: rewrite.simps [of r k e])
  qed
qed

end

text \<open>Rewriting keeps well-formedness when replacing and finishing do.\<close>

lemma wf_rewrite:
  assumes "\<And>e e'. r e = Some e' \<Longrightarrow> wf_expr e \<Longrightarrow> wf_expr e'"
    and "\<And>e e'. wf_expr e \<Longrightarrow> wf_expr e' \<Longrightarrow> wf_expr (k e e')"
    and "\<And>e. r e = None \<Longrightarrow> fits (rewrite r k) e"
  shows "wf_expr e \<Longrightarrow> wf_expr (rewrite r k e)"
proof (induction e rule: accept_induct)
  case (node e)
  show ?case
  proof (cases "r e")
    case None
    have "wf_expr (map_children (rewrite r k) e)"
      using node assms(3) [OF None] by (intro wf_map_children) (auto dest: wf_expr_children)
    then show ?thesis
      using node.prems None assms(2) by (simp add: rewrite.simps [of r k e])
  next
    case (Some e')
    then show ?thesis using assms(1) node.prems by (simp add: rewrite.simps [of r k e])
  qed
qed

section \<open>Properties of all nodes\<close>

function all_nodes :: "(expr \<Rightarrow> bool) \<Rightarrow> expr \<Rightarrow> bool" where
  "all_nodes P e \<longleftrightarrow> P e \<and> list_all (all_nodes P) (children e)"
  by pat_completeness auto
termination
  by (relation "measure (\<lambda>(P, e). size e)") (auto simp: size_children)

declare all_nodes.simps [simp del]

lemma all_nodes_simps [simp]:
  "all_nodes P NilExpr = P NilExpr"
  "all_nodes P (ColumnRef col) = P (ColumnRef col)"
  "all_nodes P (LiteralExpr lit) = P (LiteralExpr lit)"
  "all_nodes P (TableRef t) = P (TableRef t)"
  "all_nodes P (FunctionExpr n args) \<longleftrightarrow> P (FunctionExpr n args) \<and> list_all (all_nodes P) args"
  "all_nodes P (InfixExpr l op r) \<longleftrightarrow> P (InfixExpr l op r) \<and> all_nodes P l \<and> all_nodes P r"
  "all_nodes P (AliasedExpr e a) \<longleftrightarrow> P (AliasedExpr e a) \<and> all_nodes P e"
  "all_nodes P (ArrayAccess col i) \<longleftrightarrow> P (ArrayAccess col i) \<and> P (ColumnRef col) \<and> all_nodes P i"
  by (subst all_nodes.simps; simp add: all_nodes.simps [of P "ColumnRef _"])+

lemma all_nodes_children: "all_nodes P e \<Longrightarrow> c \<in> set (children e) \<Longrightarrow> all_nodes P c"
  by (simp add: all_nodes.simps [of P e] list_all_iff)

lemma all_nodes_True [simp]: "all_nodes (\<lambda>_. True) e"
proof (induction e rule: accept_induct)
  case (node e)
  then show ?case by (simp add: all_nodes.simps [of _ e] list_all_iff)
qed

lemma all_nodes_mono: "all_nodes P e \<Longrightarrow> (\<And>e. P e \<Longrightarrow> Q e) \<Longrightarrow> all_nodes Q e"
proof (induction e rule: accept_induct)
  case (node e)
  then show ?case by (simp add: all_nodes.simps [of P e] all_nodes.simps [of Q e] list_all_iff)
qed

lemma wf_rewritable: "wf_expr e \<Longrightarrow> all_nodes ok e \<Longrightarrow> rewritable r ok e"
proof (induction e rule: accept_induct)
  case (node e)
  then have "rewritable r ok c" if "c \<in> set (children e)" for c
    using that by (auto dest: wf_expr_children all_nodes_children)
  then show ?case
    using node.prems
    by (auto simp: rewritable.simps [of r ok e] all_nodes.simps [of ok e] list_all_iff)
qed

lemma all_nodes_columns:
  "all_nodes (\<lambda>e. \<forall>c. e = ColumnRef c \<longrightarrow> Q c) e \<longleftrightarrow> list_all Q (columns_in e)"
proof (induction e rule: accept_induct)
  case (node e)
  have "(\<forall>c. e = ColumnRef c \<longrightarrow> Q c) \<longleftrightarrow> list_all Q (own_column e)"
    by (cases e) simp_all
  then show ?case
    using node
    by (auto simp: all_nodes.simps [where e = e] columns_in.simps [of e] list_all_iff)
qed

context rewriting_visitor begin

text \<open>What holds of every replacement and of every finished node holds of every node of the result.\<close>

lemma all_nodes_rewrite:
  assumes replaced: "\<And>e e'. r e = Some e' \<Longrightarrow> ok e \<Longrightarrow> all_nodes P e'"
    and finished: "\<And>e. r e = None \<Longrightarrow> ok e \<Longrightarrow> list_all (all_nodes P) (map (rewrite r k) (children e)) \<Longrightarrow>
      children (map_children (rewrite r k) e) = map (rewrite r k) (children e) \<Longrightarrow>
      all_nodes P (k e (map_children (rewrite r k) e))"
  shows "rewritable r ok e \<Longrightarrow> all_nodes P (rewrite r k e)"
proof (induction e rule: accept_induct)
  case (node e)
  have ok: "ok e" using rewritable_node [OF node.prems] by simp
  show ?case
  proof (cases "r e")
    case None
    have c: "rewritable r ok c" if "c \<in> set (children e)" for c
      using node.prems None that by (rule rewritable_children)
    then have "children (map_children (rewrite r k) e) = map (rewrite r k) (children e)"
      using rewrite_fits [OF None ok] accept_rewrite by (intro children_map_children) blast+
    moreover have "list_all (all_nodes P) (map (rewrite r k) (children e))"
      using node.IH c by (simp add: list_all_iff)
    ultimately show ?thesis
      using finished [OF None ok] None by (simp add: rewrite.simps [of r k e])
  next
    case (Some e')
    then show ?thesis using replaced ok by (simp add: rewrite.simps [of r k e])
  qed
qed

text \<open>The columns of the result, when finishing a node keeps the columns that are in it.\<close>

lemma columns_in_rewrite:
  assumes replaced: "\<And>e e'. r e = Some e' \<Longrightarrow> columns_in e' = concat (map f (columns_in e))"
    and kept: "\<And>e. r e = None \<Longrightarrow> own_column e = [] \<and>
      columns_in (k e (map_children (rewrite r k) e)) = columns_in (map_children (rewrite r k) e)"
    and own: "\<And>g e. own_column e = [] \<Longrightarrow> own_column (map_children g e) = []"
  shows "rewritable r ok e \<Longrightarrow> columns_in (rewrite r k e) = concat (map f (columns_in e))"
proof (induction e rule: accept_induct)
  case (node e)
  have ok: "ok e" using rewritable_node [OF node.prems] by simp
  have nested: "concat (map (\<lambda>c. concat (map f (columns_in c))) cs) = concat (map f (concat (map columns_in cs)))" for cs
    by (induction cs) simp_all
  show ?case
  proof (cases "r e")
    case None
    have c: "rewritable r ok c" if "c \<in> set (children e)" for c
      using node.prems None that by (rule rewritable_children)
    then have children: "children (map_children (rewrite r k) e) = map (rewrite r k) (children e)"
      using rewrite_fits [OF None ok] accept_rewrite by (intro children_map_children) blast+
    have "columns_in (rewrite r k e) = concat (map columns_in (map (rewrite r k) (children e)))"
      using None kept [OF None] own
      by (simp add: rewrite.simps [of r k e] columns_in.simps [of "map_children (rewrite r k) e"] children)
    also have "map columns_in (map (rewrite r k) (children e)) = map (\<lambda>c. concat (map f (columns_in c))) (children e)"
      using node.IH c by simp
    also have "concat \<dots> = concat (map f (concat (map columns_in (children e))))"
      by (rule nested)
    finally show ?thesis using kept [OF None] by (simp add: columns_in.simps [of e])
  next
    case (Some e')
    then show ?thesis using replaced by (simp add: rewrite.simps [of r k e])
  qed
qed

end

text \<open>Rewriting that replaces nothing is the identity.\<close>

lemma map_children_id: "map_children (\<lambda>e. e) e = e"
proof (cases e)
  case (SelectE q)
  have "order_by_of (\<lambda>e. e) = (\<lambda>ob. ob)" "cte_of (\<lambda>e. e) = (\<lambda>c. c)" "clause_of (\<lambda>e. e) = (\<lambda>e. e)"
    by (simp_all add: order_by_of_def cte_of_def clause_of_def fun_eq_iff)
  then show ?thesis using SelectE by (cases q) (simp add: NewSelectCommand_def)
next
  case (WindowFunction n args ps obs)
  have "order_by_of (\<lambda>e. e) = (\<lambda>ob. ob)" by (simp add: order_by_of_def fun_eq_iff)
  then show ?thesis using WindowFunction by simp
next
  case (OrderByE ob)
  then show ?thesis by (cases ob) simp
next
  case (CTEE c)
  then show ?thesis by (cases c) simp
qed simp_all

lemma rewrite_id: "all_nodes (\<lambda>e. r e = None) e \<Longrightarrow> rewrite r keep e = e"
proof (induction e rule: accept_induct)
  case (node e)
  have "rewrite r keep c = c" if "c \<in> set (children e)" for c
    using node that by (blast dest: all_nodes_children)
  then have "map_children (rewrite r keep) e = map_children (\<lambda>e. e) e"
    by (intro map_children_cong) simp_all
  moreover have "r e = None" using node.prems by (simp add: all_nodes.simps [of _ e])
  ultimately show ?case
    unfolding rewrite.simps [of r keep e] by (simp add: keep_def map_children_id)
qed

end
