(* ===== verification/Schema.thy ===== *)
theory Schema
  imports Prelude
begin

text \<open>
  Schemas of indexes: \<open>quesma/schema/schema.go\<close>, the types of \<open>types.go\<close> and the trees of
  \<open>hierarchical_schema.go\<close>.

  A Go map that is only looked up is a map; the fields of a schema, which the sources also
  walk, are an association list whose order stands for the order of one iteration.
\<close>

section \<open>Field types\<close>

datatype type_property = Aggregatable | Searchable | FullText

record quesma_type =
  type_Name :: string
  type_Properties :: "type_property list"

definition QuesmaTypeText :: quesma_type where
  "QuesmaTypeText = \<lparr>type_Name = ''text'', type_Properties = [Searchable, FullText]\<rparr>"
definition QuesmaTypeKeyword :: quesma_type where
  "QuesmaTypeKeyword = \<lparr>type_Name = ''keyword'', type_Properties = [Searchable, Aggregatable]\<rparr>"
definition QuesmaTypeInteger :: quesma_type where
  "QuesmaTypeInteger = \<lparr>type_Name = ''integer'', type_Properties = [Searchable, Aggregatable]\<rparr>"
definition QuesmaTypeLong :: quesma_type where
  "QuesmaTypeLong = \<lparr>type_Name = ''long'', type_Properties = [Searchable, Aggregatable]\<rparr>"
definition QuesmaTypeUnsignedLong :: quesma_type where
  "QuesmaTypeUnsignedLong = \<lparr>type_Name = ''unsigned_long'', type_Properties = [Searchable, Aggregatable]\<rparr>"
definition QuesmaTypeTimestamp :: quesma_type where
  "QuesmaTypeTimestamp = \<lparr>type_Name = ''timestamp'', type_Properties = [Searchable, Aggregatable]\<rparr>"
definition QuesmaTypeDate :: quesma_type where
  "QuesmaTypeDate = \<lparr>type_Name = ''date'', type_Properties = [Searchable, Aggregatable]\<rparr>"
definition QuesmaTypeFloat :: quesma_type where
  "QuesmaTypeFloat = \<lparr>type_Name = ''float'', type_Properties = [Searchable, Aggregatable]\<rparr>"
definition QuesmaTypeBoolean :: quesma_type where
  "QuesmaTypeBoolean = \<lparr>type_Name = ''boolean'', type_Properties = [Searchable, Aggregatable]\<rparr>"
definition QuesmaTypeObject :: quesma_type where
  "QuesmaTypeObject = \<lparr>type_Name = ''object'', type_Properties = [Searchable]\<rparr>"
definition QuesmaTypeArray :: quesma_type where
  "QuesmaTypeArray = \<lparr>type_Name = ''array'', type_Properties = [Searchable]\<rparr>"
definition QuesmaTypeMap :: quesma_type where
  "QuesmaTypeMap = \<lparr>type_Name = ''map'', type_Properties = [Searchable]\<rparr>"
definition QuesmaTypeIp :: quesma_type where
  "QuesmaTypeIp = \<lparr>type_Name = ''ip'', type_Properties = [Searchable, Aggregatable]\<rparr>"
definition QuesmaTypePoint :: quesma_type where
  "QuesmaTypePoint = \<lparr>type_Name = ''point'', type_Properties = [Searchable, Aggregatable]\<rparr>"
definition QuesmaTypeUnknown :: quesma_type where
  "QuesmaTypeUnknown = \<lparr>type_Name = ''unknown'', type_Properties = [Searchable]\<rparr>"

lemmas quesma_type_defs =
  QuesmaTypeText_def QuesmaTypeKeyword_def QuesmaTypeInteger_def QuesmaTypeLong_def
  QuesmaTypeUnsignedLong_def QuesmaTypeTimestamp_def QuesmaTypeDate_def QuesmaTypeFloat_def
  QuesmaTypeBoolean_def QuesmaTypeObject_def QuesmaTypeArray_def QuesmaTypeMap_def
  QuesmaTypeIp_def QuesmaTypePoint_def QuesmaTypeUnknown_def

definition type_Equal :: "quesma_type \<Rightarrow> quesma_type \<Rightarrow> bool" where
  "type_Equal t t2 \<longleftrightarrow> type_Name t = type_Name t2"

definition IsAggregatable :: "quesma_type \<Rightarrow> bool" where
  "IsAggregatable t \<longleftrightarrow> Aggregatable \<in> set (type_Properties t)"

definition IsSearchable :: "quesma_type \<Rightarrow> bool" where
  "IsSearchable t \<longleftrightarrow> Searchable \<in> set (type_Properties t)"

definition IsFullText :: "quesma_type \<Rightarrow> bool" where
  "IsFullText t \<longleftrightarrow> FullText \<in> set (type_Properties t)"

definition ParseQuesmaType :: "string \<Rightarrow> quesma_type \<times> bool" where
  "ParseQuesmaType t =
     (if t = type_Name QuesmaTypeText then (QuesmaTypeText, True)
      else if t = type_Name QuesmaTypeKeyword then (QuesmaTypeKeyword, True)
      else if t = type_Name QuesmaTypeLong then (QuesmaTypeLong, True)
      else if t = type_Name QuesmaTypeTimestamp then (QuesmaTypeTimestamp, True)
      else if t = type_Name QuesmaTypeDate then (QuesmaTypeDate, True)
      else if t = type_Name QuesmaTypeFloat then (QuesmaTypeFloat, True)
      else if t = type_Name QuesmaTypeBoolean \<or> t = ''bool'' then (QuesmaTypeBoolean, True)
      else if t = type_Name QuesmaTypeObject \<or> t = ''json'' then (QuesmaTypeObject, True)
      else if t = type_Name QuesmaTypeArray then (QuesmaTypeArray, True)
      else if t = type_Name QuesmaTypeMap then (QuesmaTypeMap, True)
      else if t = type_Name QuesmaTypeIp then (QuesmaTypeIp, True)
      else if t = type_Name QuesmaTypePoint \<or> t = ''geo_point'' then (QuesmaTypePoint, True)
      else (QuesmaTypeUnknown, False))"

section \<open>Schemas\<close>

datatype field_source = FieldSourceIngest | FieldSourceMapping

record schema_field =
  PropertyName :: string
  InternalPropertyName :: string
  InternalPropertyType :: string
  fieldType :: quesma_type
  Origin :: field_source

record schema =
  Fields :: "(string \<times> schema_field) list"
  Aliases :: "string \<rightharpoonup> string"
  ExistsInDataSource :: bool
  schema_DatabaseName :: string

definition NewSchemaWithAliases ::
  "(string \<times> schema_field) list \<Rightarrow> (string \<rightharpoonup> string) \<Rightarrow> bool \<Rightarrow> string \<Rightarrow> schema" where
  "NewSchemaWithAliases flds aliases existsInDataSource databaseName =
     \<lparr>Fields = flds, Aliases = aliases, ExistsInDataSource = existsInDataSource,
      schema_DatabaseName = databaseName\<rparr>"

definition NewSchema :: "(string \<times> schema_field) list \<Rightarrow> bool \<Rightarrow> string \<Rightarrow> schema" where
  "NewSchema flds existsInDataSource databaseName =
     NewSchemaWithAliases flds Map.empty existsInDataSource databaseName"

definition Components :: "string \<Rightarrow> string list" where
  "Components f = split_on (CHR ''.'') f"

text \<open>A missing result is the zero field and \<open>false\<close>.\<close>

definition ResolveFieldByInternalName :: "schema \<Rightarrow> string \<Rightarrow> schema_field option" where
  "ResolveFieldByInternalName s fieldName =
     find (\<lambda>field. InternalPropertyName field = fieldName) (map snd (Fields s))"

definition ResolveField :: "schema \<Rightarrow> string \<Rightarrow> schema_field option" where
  "ResolveField s fieldName =
     (case Aliases s fieldName of
        Some target \<Rightarrow> map_of (Fields s) target
      | None \<Rightarrow> map_of (Fields s) fieldName)"

section \<open>Schemas as trees\<close>

text \<open>A leaf has a field; the root and the inner nodes have none.\<close>

datatype schema_tree = SchemaTreeNode (node_Name: string) (node_Field: "schema_field option")
  (node_Children: "schema_tree list")

text \<open>
  \<open>addToTree\<close> walks down along all components of the name but the last, into the first child of
  that name or a new one, and adds the leaf there.
\<close>

fun add_path :: "string list \<Rightarrow> schema_tree \<Rightarrow> schema_tree \<Rightarrow> schema_tree"
  and add_child :: "string \<Rightarrow> string list \<Rightarrow> schema_tree \<Rightarrow> schema_tree list \<Rightarrow> schema_tree list" where
  "add_path [] leaf (SchemaTreeNode n f cs) = SchemaTreeNode n f (cs @ [leaf])"
| "add_path (c # path) leaf (SchemaTreeNode n f cs) = SchemaTreeNode n f (add_child c path leaf cs)"
| "add_child c path leaf [] = [add_path path leaf (SchemaTreeNode c None [])]"
| "add_child c path leaf (t # ts) =
     (if node_Name t = c then add_path path leaf t # ts else t # add_child c path leaf ts)"

definition addToTree :: "schema_tree \<Rightarrow> schema_field \<Rightarrow> schema_tree" where
  "addToTree root field =
     (let components = Components (PropertyName field)
      in add_path (butlast components) (SchemaTreeNode (last components) (Some field) []) root)"

definition SchemaToHierarchicalSchema :: "schema \<Rightarrow> schema_tree" where
  "SchemaToHierarchicalSchema s = foldl addToTree (SchemaTreeNode [] None []) (map snd (Fields s))"

end
