(* ===== verification/Comment_Metadata.thy ===== *)
theory Comment_Metadata
  imports Prelude
begin

text \<open>
  Metadata kept in column comments: \<open>quesma/comment_metadata/comment_metadata.go\<close>, with what it
  uses of Go's \<open>net/url\<close>, the encoding of query strings.

  The values are an association list with distinct keys, one order of the Go map.
\<close>

section \<open>Query strings\<close>

definition unreserved :: "char \<Rightarrow> bool" where
  "unreserved c \<longleftrightarrow>
     (let n = (of_char c :: nat)
      in (97 \<le> n \<and> n \<le> 122) \<or> (65 \<le> n \<and> n \<le> 90) \<or> (48 \<le> n \<and> n \<le> 57)) \<or> c \<in> set ''-_.~''"

definition upper_hex :: "nat \<Rightarrow> char" where
  "upper_hex k = char_of (if k < 10 then 48 + k else 55 + k)"

definition unhex :: "char \<Rightarrow> nat option" where
  "unhex c =
     (let n = of_char c
      in if 48 \<le> n \<and> n \<le> 57 then Some (n - 48)
         else if 97 \<le> n \<and> n \<le> 102 then Some (n - 87)
         else if 65 \<le> n \<and> n \<le> 70 then Some (n - 55)
         else None)"

definition escape_char :: "char \<Rightarrow> string" where
  "escape_char c =
     (if unreserved c then [c]
      else if c = CHR '' '' then ''+''
      else [CHR ''%'', upper_hex (of_char c div 16), upper_hex (of_char c mod 16)])"

definition QueryEscape :: "string \<Rightarrow> string" where
  "QueryEscape s = concat (map escape_char s)"

fun QueryUnescape :: "string \<Rightarrow> string option" where
  "QueryUnescape [] = Some []"
| "QueryUnescape (c # s) =
     (if c = CHR ''%'' then
        (case s of
           a # b # t \<Rightarrow>
             (case (unhex a, unhex b) of
                (Some h, Some l) \<Rightarrow> map_option (\<lambda>r. char_of (16 * h + l) # r) (QueryUnescape t)
              | _ \<Rightarrow> None)
         | _ \<Rightarrow> None)
      else map_option (\<lambda>r. (if c = CHR ''+'' then CHR '' '' else c) # r) (QueryUnescape s))"

text \<open>\<open>strings.Cut\<close> at one byte: what is before its first occurrence and what is after.\<close>

definition cut_at :: "char \<Rightarrow> string \<Rightarrow> string \<times> string" where
  "cut_at c s = (takeWhile (\<lambda>x. x \<noteq> c) s, drop 1 (dropWhile (\<lambda>x. x \<noteq> c) s))"

text \<open>\<open>url.ParseQuery\<close>, \<open>None\<close> when it reports an error: the pairs in order.\<close>

fun parse_pairs :: "string list \<Rightarrow> (string \<times> string) list option" where
  "parse_pairs [] = Some []"
| "parse_pairs (p # ps) =
     (if CHR '';'' \<in> set p then None
      else if p = [] then parse_pairs ps
      else (case cut_at (CHR ''='') p of
              (k, v) \<Rightarrow>
                do { k' \<leftarrow> QueryUnescape k; v' \<leftarrow> QueryUnescape v; rest \<leftarrow> parse_pairs ps;
                     Some ((k', v') # rest) }))"

definition ParseQuery :: "string \<Rightarrow> (string \<times> string) list option" where
  "ParseQuery query = parse_pairs (split_on (CHR ''&'') query)"

definition encode_pair :: "string \<times> string \<Rightarrow> string" where
  "encode_pair p = QueryEscape (fst p) @ ''='' @ QueryEscape (snd p)"

text \<open>\<open>url.Values.Encode\<close>, which sorts by key.\<close>

definition Encode :: "(string \<times> string) list \<Rightarrow> string" where
  "Encode values = join ''&'' (map encode_pair (sort_key fst values))"

section \<open>Metadata\<close>

definition ElasticFieldName :: string where "ElasticFieldName = ''fieldName''"
definition metadataVersion :: string where "metadataVersion = ''1''"
definition metadataPrefix :: string where "metadataPrefix = ''quesmaMetadata''"

definition Marshall :: "(string \<times> string) list \<Rightarrow> string" where
  "Marshall values = metadataPrefix @ ''V'' @ metadataVersion @ '':'' @ Encode values"

text \<open>The groups of the first match of \<open>quesmaMetadataV([0-9+]):([^\s]+)\<close>.\<close>

definition regexp_space :: "char \<Rightarrow> bool" where
  "regexp_space c \<longleftrightarrow> c \<in> {CHR '' '', CHR 0x09, CHR 0x0A, CHR 0x0C, CHR 0x0D}"

definition match_metadata :: "string \<Rightarrow> (string \<times> string) option" where
  "match_metadata s =
     (if has_prefix s (metadataPrefix @ ''V'') then
        (case drop (length metadataPrefix + 1) s of
           v # c # rest \<Rightarrow>
             let groups2 = takeWhile (\<lambda>x. \<not> regexp_space x) rest
             in if v \<in> set ''0123456789+'' \<and> c = CHR '':'' \<and> groups2 \<noteq> []
                then Some ([v], groups2) else None
         | _ \<Rightarrow> None)
      else None)"

fun find_metadata :: "string \<Rightarrow> (string \<times> string) option" where
  "find_metadata [] = None"
| "find_metadata (c # s) =
     (case match_metadata (c # s) of Some groups \<Rightarrow> Some groups | None \<Rightarrow> find_metadata s)"

datatype metadata_error = ParseQueryError | InvalidMetadataVersion string

text \<open>
  \<open>Inr None\<close> is a nil result without an error.  Of several values of a key the first counts,
  as \<open>map_of\<close> reads the pairs.
\<close>

definition UnmarshallCommentMetadata ::
  "string \<Rightarrow> metadata_error + (string \<times> string) list option" where
  "UnmarshallCommentMetadata s =
     (case find_metadata s of
        None \<Rightarrow> Inr None
      | Some (version, metadata) \<Rightarrow>
          (case ParseQuery metadata of
             None \<Rightarrow> Inl ParseQueryError
           | Some params \<Rightarrow>
               if version \<noteq> metadataVersion then Inl (InvalidMetadataVersion version)
               else Inr (Some params)))"

section \<open>Reading back what was written\<close>

lemma unhex_upper_hex: "k < 16 \<Longrightarrow> unhex (upper_hex k) = Some k"
  by (auto simp: upper_hex_def unhex_def Let_def)

lemma of_char_upper_hex: "k < 16 \<Longrightarrow> of_char (upper_hex k) = (if k < 10 then 48 + k else 55 + k)"
  by (simp add: upper_hex_def)

lemma of_char_div_16: "of_char c div 16 < (16 :: nat)"
  by (rule less_mult_imp_div_less) simp

lemma unescape_escape_char:
  "QueryUnescape (escape_char c @ s) = map_option ((#) c) (QueryUnescape s)"
proof -
  define h l where "h = upper_hex (of_char c div 16)" and "l = upper_hex (of_char c mod 16)"
  have "unhex h = Some (of_char c div 16)" "unhex l = Some (of_char c mod 16)"
    unfolding h_def l_def using of_char_div_16 by (auto intro!: unhex_upper_hex)
  moreover have "char_of (16 * (of_char c div 16) + of_char c mod 16 :: nat) = c"
    by (simp del: of_char_mod_256)
  ultimately have "QueryUnescape ([CHR ''%'', h, l] @ s) = map_option ((#) c) (QueryUnescape s)"
    by simp
  moreover have "unreserved c \<Longrightarrow> c \<noteq> CHR ''%'' \<and> c \<noteq> CHR ''+''" by (auto simp: unreserved_def)
  ultimately show ?thesis unfolding escape_char_def h_def[symmetric] l_def[symmetric] by auto
qed

lemma unescape_escape: "QueryUnescape (QueryEscape s) = Some s"
  by (induction s) (simp_all add: QueryEscape_def unescape_escape_char)

text \<open>No byte of an escaped text separates pairs, or ends the metadata.\<close>

definition separator :: "char \<Rightarrow> bool" where
  "separator x \<longleftrightarrow> regexp_space x \<or> x \<in> set ''&=;''"

lemma hex_no_separator: "k < 16 \<Longrightarrow> \<not> separator (upper_hex k)"
  using of_char_upper_hex[of k] by (auto simp: separator_def regexp_space_def split: if_splits)

lemma escape_no_separator: "x \<in> set (QueryEscape s) \<Longrightarrow> \<not> separator x"
proof -
  assume "x \<in> set (QueryEscape s)"
  then obtain c where c: "x \<in> set (escape_char c)" by (auto simp: QueryEscape_def)
  have "\<not> separator (upper_hex (of_char c div 16))" "\<not> separator (upper_hex (of_char c mod 16))"
    using of_char_div_16 by (auto intro!: hex_no_separator)
  moreover have "\<not> separator c" if "unreserved c"
    using that by (auto simp: separator_def regexp_space_def unreserved_def)
  ultimately show ?thesis
    using c by (auto simp: escape_char_def separator_def regexp_space_def split: if_splits)
qed

lemma cut_at_append: "c \<notin> set u \<Longrightarrow> cut_at c (u @ c # v) = (u, v)"
  by (induction u) (auto simp: cut_at_def)

lemma cut_encoded: "cut_at (CHR ''='') (encode_pair p) = (QueryEscape (fst p), QueryEscape (snd p))"
proof -
  have "CHR ''='' \<notin> set (QueryEscape (fst p))" using escape_no_separator by (force simp: separator_def)
  then show ?thesis by (simp add: encode_pair_def cut_at_append)
qed

lemma encoded_chars:
  "encode_pair p \<noteq> []" "CHR '';'' \<notin> set (encode_pair p)" "CHR ''&'' \<notin> set (encode_pair p)"
  "x \<in> set (encode_pair p) \<Longrightarrow> \<not> regexp_space x"
  using escape_no_separator by (force simp: encode_pair_def separator_def regexp_space_def)+

lemma parse_encoded: "parse_pairs (map encode_pair ps) = Some ps"
  by (induction ps) (simp_all add: encoded_chars cut_encoded unescape_escape)

lemma split_on_append:
  "sep \<notin> set w \<Longrightarrow> split_on sep (w @ sep # s) = w # split_on sep s"
  by (induction w) auto

lemma split_on_join:
  "ws \<noteq> [] \<Longrightarrow> (\<And>w. w \<in> set ws \<Longrightarrow> sep \<notin> set w) \<Longrightarrow> split_on sep (join [sep] ws) = ws"
  by (induction ws rule: induct_list012) (simp_all add: split_on_free split_on_append)

lemma ParseQuery_Encode: "values \<noteq> [] \<Longrightarrow> ParseQuery (Encode values) = Some (sort_key fst values)"
proof -
  assume "values \<noteq> []"
  then have "map encode_pair (sort_key fst values) \<noteq> []" by (metis Nil_is_map_conv length_0_conv length_sort)
  then have "split_on (CHR ''&'') (Encode values) = map encode_pair (sort_key fst values)"
    unfolding Encode_def by (rule split_on_join) (use encoded_chars(3) in auto)
  then show ?thesis by (simp add: ParseQuery_def parse_encoded)
qed

lemma Encode_chars: "x \<in> set (Encode values) \<Longrightarrow> \<not> regexp_space x"
proof -
  have "x \<in> set (join ''&'' ws) \<Longrightarrow> x = CHR ''&'' \<or> (\<exists>w \<in> set ws. x \<in> set w)" for ws
    by (induction ws rule: induct_list012) auto
  then show "x \<in> set (Encode values) \<Longrightarrow> ?thesis"
    using encoded_chars(4) by (fastforce simp: Encode_def regexp_space_def)
qed

lemma Encode_not_Nil: "values \<noteq> [] \<Longrightarrow> Encode values \<noteq> []"
proof -
  assume "values \<noteq> []"
  then obtain p ps where "sort_key fst values = p # ps"
    by (metis length_0_conv length_sort neq_Nil_conv)
  then show ?thesis using encoded_chars(1)[of p] by (cases ps) (auto simp: Encode_def)
qed

lemma match_marshalled:
  assumes "values \<noteq> []" "post = [] \<or> regexp_space (hd post)"
  shows "match_metadata (Marshall values @ post) = Some (metadataVersion, Encode values)"
proof -
  have "takeWhile (\<lambda>x. \<not> regexp_space x) (Encode values @ post) = Encode values"
    using Encode_chars assms(2) by (cases post) (auto simp: takeWhile_append2)
  then show ?thesis using Encode_not_Nil[OF assms(1)]
    by (simp add: match_metadata_def Marshall_def metadataPrefix_def metadataVersion_def has_prefix_def)
qed

text \<open>No match starts in a text without the letter \<open>M\<close> before the metadata.\<close>

lemma no_match_before:
  assumes "c # pre = pre'" "CHR ''M'' \<notin> set pre'"
  shows "match_metadata (pre' @ Marshall values @ post) = None"
proof -
  have "(pre' @ Marshall values @ post) ! 6 \<noteq> CHR ''M''" if "pre' \<noteq> []"
  proof (cases "6 < length pre'")
    case True
    then have "pre' ! 6 \<in> set pre'" by (rule nth_mem)
    with True assms(2) show ?thesis by (metis nth_append)
  next
    case False
    moreover have "length pre' > 0" using that by simp
    ultimately have "6 - length pre' = 0 \<or> 6 - length pre' = 1 \<or> 6 - length pre' = 2 \<or> 6 - length pre' = 3 \<or>
      6 - length pre' = 4 \<or> 6 - length pre' = 5" by linarith
    then show ?thesis using False
      by (auto simp: nth_append Marshall_def metadataPrefix_def)
  qed
  moreover have "has_prefix s (metadataPrefix @ ''V'') \<Longrightarrow> s ! 6 = CHR ''M''" for s
    by (auto simp: has_prefix_def metadataPrefix_def dest: arg_cong[where f = "\<lambda>l. l ! 6"])
  ultimately show ?thesis using assms(1) by (auto simp: match_metadata_def)
qed

lemma find_after:
  assumes "CHR ''M'' \<notin> set pre" "match_metadata (Marshall values @ post) = Some g"
  shows "find_metadata (pre @ Marshall values @ post) = Some g"
  using assms(1)
proof (induction pre)
  case Nil
  then show ?case using assms(2) by (cases "Marshall values @ post") (auto simp: match_metadata_def has_prefix_def metadataPrefix_def)
next
  case (Cons c pre)
  then show ?case using no_match_before[of c pre "c # pre" "values" post] by simp
qed

lemma map_of_sort_key: "distinct (map fst kvs) \<Longrightarrow> map_of (sort_key fst kvs) = map_of kvs"
  by (rule map_of_eqI) (auto simp: distinct_map sorted_distinct_set_unique intro!: map_of_is_SomeI)

section \<open>Properties\<close>

text \<open>
  C31: Metadata survive a round trip through a comment: the values written by \<open>Marshall\<close>, of any
  bytes, are read back from a comment that holds them, whatever stands after a blank behind them
  and whatever text without the letter \<open>M\<close> before.
\<close>

theorem comment_metadata_roundtrip:
  assumes "distinct (map fst values)" "values \<noteq> []"
    "CHR ''M'' \<notin> set pre" "post = [] \<or> regexp_space (hd post)"
  shows "\<exists>params. UnmarshallCommentMetadata (pre @ Marshall values @ post) = Inr (Some params) \<and>
    map_of params = map_of values"
  using find_after[OF assms(3) match_marshalled[OF assms(2,4)]] ParseQuery_Encode[OF assms(2)]
    map_of_sort_key[OF assms(1)]
  by (simp add: UnmarshallCommentMetadata_def)

theorem comment_metadata_roundtrip_witness:
  "\<exists>params. UnmarshallCommentMetadata (''owner: ops '' @
      Marshall [(''fieldName'', ''host name&=%''), (''a'', [])] @ '' keep'') = Inr (Some params) \<and>
    map_of params = map_of [(''fieldName'', ''host name&=%''), (''a'', [])]"
  by (rule comment_metadata_roundtrip) (simp_all add: regexp_space_def)

end
