(* ===== verification/Schema_Registry.thy ===== *)
theory Schema_Registry
  imports Schema Config Comment_Metadata "HOL-Library.AList"
begin

text \<open>
  The schema registry, \<open>quesma/schema/registry.go\<close>: it puts the schemas of all indexes together
  from the tables of the database, the mappings received and the configuration, and keeps them
  in a cache.  With it, the overrides of \<open>config/schema_config.go\<close> and the encoding of field
  names as column names of \<open>util/utils.go\<close>.

  Walks over Go maps are walks over association lists.  The table provider and the type adapter
  are arguments.  \<open>None\<close> is a panic.
\<close>

section \<open>Column names\<close>

definition isLetter :: "char \<Rightarrow> bool" where
  "isLetter c \<longleftrightarrow>
     (let n = (of_char c :: nat) in 97 \<le> n \<and> n \<le> 122 \<or> 65 \<le> n \<and> n \<le> 90)"

definition isDigit :: "char \<Rightarrow> bool" where
  "isDigit c \<longleftrightarrow> (let n = (of_char c :: nat) in 48 \<le> n \<and> n \<le> 57)"

definition replaceNonAlphabetic :: "string \<Rightarrow> string" where
  "replaceNonAlphabetic s = map (\<lambda>c. if \<not> isLetter c \<and> \<not> isDigit c then CHR ''_'' else c) s"

definition timestampFieldName :: string where "timestampFieldName = ''@timestamp''"

definition FieldPartToColumnEncoder :: "string \<Rightarrow> string" where
  "FieldPartToColumnEncoder field =
     (if length field = 0 then field
      else if field = timestampFieldName then field
      else replaceNonAlphabetic (to_lower field))"

text \<open>The first byte of an empty name is read: a panic.\<close>

definition FieldToColumnEncoder :: "string \<Rightarrow> string option" where
  "FieldToColumnEncoder field =
     (case FieldPartToColumnEncoder field of
        [] \<Rightarrow> None
      | c # s \<Rightarrow> Some (if isDigit c then CHR ''_'' # c # s else c # s))"

section \<open>Configuration and tables\<close>

definition TypeAlias :: string where "TypeAlias = ''alias''"

record field_configuration =
  FieldType :: string
  TargetColumnName :: string
  Ignored :: bool

record schema_configuration =
  override_Fields :: "(string \<times> field_configuration) list"

record schema_index_configuration = index_configuration +
  SchemaOverrides :: "schema_configuration option"

text \<open>The overrides of an index, none when it has no schema configuration.\<close>

definition overrides :: "schema_index_configuration \<Rightarrow> (string \<times> field_configuration) list" where
  "overrides c = (case SchemaOverrides c of None \<Rightarrow> [] | Some s \<Rightarrow> override_Fields s)"

record column =
  column_Name :: string
  column_Type :: string
  column_Comment :: string

record table =
  table_Columns :: "(string \<times> column) list"
  table_DatabaseName :: string

text \<open>What the registry asks the table provider.\<close>

record table_provider =
  provider_tables :: "(string \<times> table) list"
  provider_autodiscovery :: bool

text \<open>The keys of \<open>fieldEncodings\<close> are pairs of a table name and a field name.\<close>

record schema_registry =
  indexConfiguration :: "(string \<times> schema_index_configuration) list"
  dataSourceTypeAdapter :: "string \<Rightarrow> quesma_type option"
  dynamicConfiguration :: "string \<rightharpoonup> table"
  fieldEncodings :: "((string \<times> string) \<times> string) list"
  fieldOrigins :: "string \<rightharpoonup> (string \<rightharpoonup> field_source)"
  cachedSchemas :: "(string \<times> schema) list option"

type_synonym fields = "(string \<times> schema_field) list"

section \<open>Loading\<close>

definition getInternalToPublicFieldEncodings :: "schema_registry \<Rightarrow> string \<Rightarrow> (string \<rightharpoonup> string)" where
  "getInternalToPublicFieldEncodings s tableName =
     foldl (\<lambda>m (key, encoded). if fst key = tableName then m(encoded \<mapsto> snd key) else m)
       Map.empty (fieldEncodings s)"

definition add_dynamic_column :: "fields \<Rightarrow> column \<Rightarrow> fields" where
  "add_dynamic_column fs column =
     (case ParseQuesmaType (column_Type column) of
        (columnType, success) \<Rightarrow>
          if \<not> success then fs
          else AList.update (column_Name column)
                 \<lparr>PropertyName = column_Name column, InternalPropertyName = column_Name column,
                  InternalPropertyType = [], fieldType = columnType, Origin = FieldSourceMapping\<rparr> fs)"

definition populateSchemaFromDynamicConfiguration :: "schema_registry \<Rightarrow> string \<Rightarrow> fields \<Rightarrow> fields" where
  "populateSchemaFromDynamicConfiguration s indexName fs =
     (case dynamicConfiguration s indexName of
        None \<Rightarrow> fs
      | Some d \<Rightarrow> foldl add_dynamic_column fs (map snd (table_Columns d)))"

text \<open>The walk over the overrides in \<open>populateSchemaFromStaticConfiguration\<close>.\<close>

fun populate_static :: "(string \<times> field_configuration) list \<Rightarrow> fields \<Rightarrow> fields option" where
  "populate_static [] fs = Some fs"
| "populate_static ((fieldName, field) # rest) fs =
     (if FieldType field = TypeAlias \<or> Ignored field then populate_static rest fs
      else (case ParseQuesmaType (FieldType field) of
              (resolvedType, valid) \<Rightarrow>
                if valid then
                  (case FieldToColumnEncoder fieldName of
                     None \<Rightarrow> None
                   | Some internalPropertyName \<Rightarrow>
                       populate_static rest
                         (AList.update fieldName
                            \<lparr>PropertyName = fieldName, InternalPropertyName = internalPropertyName,
                             InternalPropertyType = [], fieldType = resolvedType,
                             Origin = FieldSourceIngest\<rparr> fs))
                else populate_static rest fs))"

definition populateSchemaFromStaticConfiguration ::
  "schema_index_configuration \<Rightarrow> fields \<Rightarrow> fields option" where
  "populateSchemaFromStaticConfiguration c fs = populate_static (overrides c) fs"

text \<open>The name under which a column is exposed.\<close>

definition column_property :: "(string \<rightharpoonup> string) \<Rightarrow> column \<Rightarrow> string" where
  "column_property internalToPublic column =
     (case internalToPublic (column_Name column) of
        Some internalField \<Rightarrow> internalField
      | None \<Rightarrow>
          if length (column_Comment column) > 0 then
            (case UnmarshallCommentMetadata (column_Comment column) of
               Inl err \<Rightarrow> column_Name column
             | Inr None \<Rightarrow> column_Name column
             | Inr (Some metadata) \<Rightarrow>
                 (case map_of metadata ElasticFieldName of
                    Some fieldName \<Rightarrow> fieldName
                  | None \<Rightarrow> column_Name column))
          else column_Name column)"

definition add_table_column ::
  "(string \<Rightarrow> quesma_type option) \<Rightarrow> (string \<rightharpoonup> string) \<Rightarrow> fields \<Rightarrow> column \<Rightarrow> fields" where
  "add_table_column adapter internalToPublic fs column =
     (let propertyName = column_property internalToPublic column
      in AList.update propertyName
           (case map_of fs propertyName of
              None \<Rightarrow>
                \<lparr>PropertyName = propertyName, InternalPropertyName = column_Name column,
                 InternalPropertyType = column_Type column,
                 fieldType = (case adapter (column_Type column) of Some t \<Rightarrow> t | None \<Rightarrow> QuesmaTypeKeyword),
                 Origin = FieldSourceIngest\<rparr>
            | Some existing \<Rightarrow>
                \<lparr>PropertyName = propertyName, InternalPropertyName = column_Name column,
                 InternalPropertyType = column_Type column,
                 fieldType = fieldType existing, Origin = Origin existing\<rparr>) fs)"

definition populateSchemaFromTableDefinition ::
  "schema_registry \<Rightarrow> (string \<times> table) list \<Rightarrow> string \<Rightarrow> fields \<Rightarrow> (string \<rightharpoonup> string) \<Rightarrow> fields \<times> bool" where
  "populateSchemaFromTableDefinition s definitions indexName fs internalToPublic =
     (case map_of definitions indexName of
        None \<Rightarrow> (fs, False)
      | Some tableDefinition \<Rightarrow>
          (foldl (add_table_column (dataSourceTypeAdapter s) internalToPublic) fs
             (map snd (table_Columns tableDefinition)), True))"

definition populateAliases :: "schema_index_configuration \<Rightarrow> (string \<rightharpoonup> string)" where
  "populateAliases c =
     foldl (\<lambda>aliases (fieldName, fieldConf).
              if FieldType fieldConf = TypeAlias \<and> TargetColumnName fieldConf \<noteq> []
              then aliases(fieldName \<mapsto> TargetColumnName fieldConf) else aliases)
       Map.empty (overrides c)"

definition ignored_names :: "schema_index_configuration \<Rightarrow> string list" where
  "ignored_names c = map fst (filter (\<lambda>(fieldName, field). Ignored field) (overrides c))"

definition removeIgnoredFields ::
  "schema_index_configuration \<Rightarrow> fields \<Rightarrow> (string \<rightharpoonup> string) \<Rightarrow> fields \<times> (string \<rightharpoonup> string)" where
  "removeIgnoredFields c fs aliases =
     foldl (\<lambda>(fs, aliases) fieldName. (AList.delete fieldName fs, aliases(fieldName := None)))
       (fs, aliases) (ignored_names c)"

text \<open>
  The walk of \<open>removeGeoPhysicalFields\<close> over the keys the map had; a field deleted before the
  walk reaches it is not visited.
\<close>

fun remove_geo :: "string list \<Rightarrow> fields \<Rightarrow> fields" where
  "remove_geo [] fs = fs"
| "remove_geo (fieldName # names) fs =
     (case map_of fs fieldName of
        None \<Rightarrow> remove_geo names fs
      | Some field \<Rightarrow>
          if type_Name (fieldType field) = type_Name QuesmaTypePoint
          then remove_geo names
                 (AList.delete (fieldName @ ''.lon'') (AList.delete (fieldName @ ''.lat'') fs))
          else remove_geo names fs)"

definition removeGeoPhysicalFields :: "fields \<Rightarrow> fields" where
  "removeGeoPhysicalFields fs = remove_geo (map fst fs) fs"

definition populateFieldsOrigins :: "schema_registry \<Rightarrow> string \<Rightarrow> fields \<Rightarrow> fields" where
  "populateFieldsOrigins s indexName fs =
     (case fieldOrigins s indexName of
        None \<Rightarrow> fs
      | Some origins \<Rightarrow>
          map (\<lambda>(fieldName, field).
                 (fieldName, case origins (InternalPropertyName field) of
                               Some origin \<Rightarrow> field\<lparr>Origin := origin\<rparr>
                             | None \<Rightarrow> field)) fs)"

text \<open>The schema of a table that was discovered, and of an index in the configuration.\<close>

definition table_schema :: "table_provider \<Rightarrow> schema_registry \<Rightarrow> string \<Rightarrow> table \<Rightarrow> schema" where
  "table_schema P s tableName table =
     (let (fs, existsInDataSource) =
            populateSchemaFromTableDefinition s (provider_tables P) tableName []
              (getInternalToPublicFieldEncodings s tableName)
      in NewSchema fs existsInDataSource (table_DatabaseName table))"

definition index_schema ::
  "table_provider \<Rightarrow> schema_registry \<Rightarrow> string \<Rightarrow> schema_index_configuration \<Rightarrow> schema option" where
  "index_schema P s indexName c =
     do { fs \<leftarrow> populateSchemaFromStaticConfiguration c
                (populateSchemaFromDynamicConfiguration s indexName []);
          let (fs, existsInDataSource) =
                populateSchemaFromTableDefinition s (provider_tables P) (TableNameOf (index_configuration.truncate c) indexName) fs
                  (getInternalToPublicFieldEncodings s indexName);
              (fs, aliases) = removeIgnoredFields c fs (populateAliases c);
              fs = populateFieldsOrigins s indexName (removeGeoPhysicalFields fs)
          in Some (NewSchemaWithAliases fs aliases existsInDataSource
               (case map_of (provider_tables P) indexName of
                  Some tableDefinition \<Rightarrow> table_DatabaseName tableDefinition
                | None \<Rightarrow> [])) }"

fun load_indexes ::
  "table_provider \<Rightarrow> schema_registry \<Rightarrow> (string \<times> schema_index_configuration) list \<Rightarrow>
   (string \<times> schema) list \<Rightarrow> (string \<times> schema) list option" where
  "load_indexes P s [] schemas = Some schemas"
| "load_indexes P s ((indexName, c) # rest) schemas =
     do { sch \<leftarrow> index_schema P s indexName c;
          load_indexes P s rest (AList.update indexName sch schemas) }"

definition loadSchemas :: "table_provider \<Rightarrow> schema_registry \<Rightarrow> (string \<times> schema) list option" where
  "loadSchemas P s =
     load_indexes P s (indexConfiguration s)
       (if provider_autodiscovery P
        then foldl (\<lambda>schemas (tableName, table). AList.update tableName (table_schema P s tableName table) schemas)
               [] (provider_tables P)
        else [])"

section \<open>Operations\<close>

definition NewSchemaRegistry ::
  "(string \<times> schema_index_configuration) list \<Rightarrow> (string \<Rightarrow> quesma_type option) \<Rightarrow> schema_registry" where
  "NewSchemaRegistry conf adapter =
     \<lparr>indexConfiguration = conf, dataSourceTypeAdapter = adapter, dynamicConfiguration = Map.empty,
      fieldEncodings = [], fieldOrigins = Map.empty, cachedSchemas = None\<rparr>"

definition invalidateCache :: "schema_registry \<Rightarrow> schema_registry" where
  "invalidateCache s = s\<lparr>cachedSchemas := None\<rparr>"

definition loadOrGetSchemas ::
  "table_provider \<Rightarrow> schema_registry \<Rightarrow> ((string \<times> schema) list \<times> schema_registry) option" where
  "loadOrGetSchemas P s =
     (case cachedSchemas s of
        Some schemas \<Rightarrow> Some (schemas, s)
      | None \<Rightarrow> map_option (\<lambda>schemas. (schemas, s\<lparr>cachedSchemas := Some schemas\<rparr>)) (loadSchemas P s))"

definition AllSchemas ::
  "table_provider \<Rightarrow> schema_registry \<Rightarrow> ((string \<times> schema) list \<times> schema_registry) option" where
  "AllSchemas P s = loadOrGetSchemas P s"

definition FindSchema ::
  "table_provider \<Rightarrow> string \<Rightarrow> schema_registry \<Rightarrow> (schema option \<times> schema_registry) option" where
  "FindSchema P name s = map_option (\<lambda>(schemas, s'). (map_of schemas name, s')) (loadOrGetSchemas P s)"

definition updateFieldEncodingsInternal ::
  "((string \<times> string) \<times> string) list \<Rightarrow> schema_registry \<Rightarrow> schema_registry" where
  "updateFieldEncodingsInternal encodings s =
     s\<lparr>fieldEncodings := foldl (\<lambda>es (key, v). AList.update key v es) (fieldEncodings s) encodings\<rparr>"

definition UpdateFieldEncodings ::
  "((string \<times> string) \<times> string) list \<Rightarrow> schema_registry \<Rightarrow> schema_registry" where
  "UpdateFieldEncodings encodings s = invalidateCache (updateFieldEncodingsInternal encodings s)"

definition GetFieldEncodings :: "schema_registry \<Rightarrow> ((string \<times> string) \<times> string) list" where
  "GetFieldEncodings s = foldl (\<lambda>es (key, v). AList.update key v es) [] (fieldEncodings s)"

definition UpdateDynamicConfiguration :: "string \<Rightarrow> table \<Rightarrow> schema_registry \<Rightarrow> schema_registry option" where
  "UpdateDynamicConfiguration name table s =
     do { dynamicEncodings \<leftarrow>
            opt_mapM (\<lambda>column. map_option (Pair (name, column_Name column)) (FieldToColumnEncoder (column_Name column)))
              (map snd (table_Columns table));
          Some (invalidateCache
                 (updateFieldEncodingsInternal dynamicEncodings
                   (s\<lparr>dynamicConfiguration := (dynamicConfiguration s)(name \<mapsto> table)\<rparr>))) }"

text \<open>The cache is not invalidated here.\<close>

definition UpdateFieldsOrigins :: "string \<Rightarrow> (string \<rightharpoonup> field_source) \<Rightarrow> schema_registry \<Rightarrow> schema_registry" where
  "UpdateFieldsOrigins name flds s = s\<lparr>fieldOrigins := (fieldOrigins s)(name \<mapsto> flds)\<rparr>"

section \<open>The cache\<close>

text \<open>
  The contract of a cache of something that is loaded: \<open>load\<close> computes it from a state, \<open>cached\<close>
  reads the cache of a state and \<open>fill\<close> stores into it; what is loaded does not depend on what
  is cached.
\<close>

locale loader_cache =
  fixes load :: "'s \<Rightarrow> 'v option"
    and cached :: "'s \<Rightarrow> 'v option"
    and fill :: "'v option \<Rightarrow> 's \<Rightarrow> 's"
  assumes load_fill: "load (fill c s) = load s"
    and cached_fill: "cached (fill c s) = c"
    and fill_cached: "fill (cached s) s = s"
begin

definition fresh :: "'s \<Rightarrow> bool" where
  "fresh s \<longleftrightarrow> (\<forall>v. cached s = Some v \<longrightarrow> load s = Some v)"

definition get :: "'s \<Rightarrow> ('v \<times> 's) option" where
  "get s = (case cached s of
              Some v \<Rightarrow> Some (v, s)
            | None \<Rightarrow> map_option (\<lambda>v. (v, fill (Some v) s)) (load s))"

lemma fresh_fill_None: "fresh (fill None s)"
  by (simp add: fresh_def cached_fill)

lemma get_fresh:
  assumes "fresh s"
  shows "get s = map_option (\<lambda>v. (v, fill (Some v) s)) (load s)"
proof (cases "cached s")
  case None
  then show ?thesis by (simp add: get_def)
next
  case (Some v)
  then show ?thesis using assms fill_cached [of s] by (simp add: get_def fresh_def)
qed

lemma fresh_get: "fresh s \<Longrightarrow> get s = Some (v, s') \<Longrightarrow> fresh s'"
  by (auto simp: get_fresh fresh_def cached_fill load_fill)

lemma get_load: "get s = Some (v, s') \<Longrightarrow> load s' = load s"
  by (auto simp: get_def load_fill split: option.splits)

lemma get_again: "get s = Some (v, s') \<Longrightarrow> get s' = Some (v, s')"
  by (auto simp: get_def cached_fill split: option.splits)

end

text \<open>Loading reads every field of the registry but the cache.\<close>

lemma populate_cached [simp]:
  "getInternalToPublicFieldEncodings (s\<lparr>cachedSchemas := c\<rparr>) = getInternalToPublicFieldEncodings s"
  "populateSchemaFromDynamicConfiguration (s\<lparr>cachedSchemas := c\<rparr>) = populateSchemaFromDynamicConfiguration s"
  "populateSchemaFromTableDefinition (s\<lparr>cachedSchemas := c\<rparr>) = populateSchemaFromTableDefinition s"
  "populateFieldsOrigins (s\<lparr>cachedSchemas := c\<rparr>) = populateFieldsOrigins s"
  by (simp_all add: fun_eq_iff getInternalToPublicFieldEncodings_def populateFieldsOrigins_def
        populateSchemaFromDynamicConfiguration_def populateSchemaFromTableDefinition_def
        split: option.splits)

lemma schemas_cached [simp]:
  "table_schema P (s\<lparr>cachedSchemas := c\<rparr>) = table_schema P s"
  "index_schema P (s\<lparr>cachedSchemas := c\<rparr>) = index_schema P s"
  by (simp_all add: fun_eq_iff table_schema_def index_schema_def)

lemma load_indexes_cached [simp]:
  "load_indexes P (s\<lparr>cachedSchemas := c\<rparr>) cs schemas = load_indexes P s cs schemas"
  by (induction cs arbitrary: schemas) (auto split: prod.splits Option.bind_splits)

lemma loadSchemas_cached [simp]: "loadSchemas P (s\<lparr>cachedSchemas := c\<rparr>) = loadSchemas P s"
  by (simp add: loadSchemas_def)

interpretation registry_cache:
  loader_cache "loadSchemas P" cachedSchemas "\<lambda>c s. s\<lparr>cachedSchemas := c\<rparr>" for P
  by unfold_locales simp_all

lemma loadOrGetSchemas_get: "loadOrGetSchemas P = registry_cache.get P"
  by (simp add: fun_eq_iff loadOrGetSchemas_def registry_cache.get_def)

lemma invalidateCache_fresh: "registry_cache.fresh P (invalidateCache s)"
  unfolding invalidateCache_def by (rule registry_cache.fresh_fill_None)

section \<open>The registry as a state machine\<close>

text \<open>
  The world of the registry: what the table provider answers, the registry, and whether something
  that schemas are loaded from changed without the registry being told.  The mutex makes each
  operation one step; \<open>step_reload\<close> is a reload message or the ticker of \<open>Start\<close>.
\<close>

type_synonym registry_world = "table_provider \<times> schema_registry \<times> bool"

inductive registry_step :: "registry_world \<Rightarrow> registry_world \<Rightarrow> bool" where
  step_find: "FindSchema P name s = Some (found, s') \<Longrightarrow> registry_step (P, s, outdated) (P, s', outdated)"
| step_all: "AllSchemas P s = Some (schemas, s') \<Longrightarrow> registry_step (P, s, outdated) (P, s', outdated)"
| step_dynamic: "UpdateDynamicConfiguration name t s = Some s' \<Longrightarrow>
    registry_step (P, s, outdated) (P, s', False)"
| step_encodings: "registry_step (P, s, outdated) (P, UpdateFieldEncodings encodings s, False)"
| step_origins: "registry_step (P, s, outdated) (P, UpdateFieldsOrigins name flds s, True)"
| step_tables: "registry_step (P, s, outdated) (P', s, True)"
| step_reload: "registry_step (P, s, outdated) (P, invalidateCache s, False)"

inductive_cases registry_stepE: "registry_step (P, s, outdated) w"

inductive registry_reachable ::
  "(string \<times> schema_index_configuration) list \<Rightarrow> (string \<Rightarrow> quesma_type option) \<Rightarrow> registry_world \<Rightarrow> bool"
  for conf adapter where
  reachable_start: "registry_reachable conf adapter (P, NewSchemaRegistry conf adapter, False)"
| reachable_step: "registry_reachable conf adapter w \<Longrightarrow> registry_step w w' \<Longrightarrow>
    registry_reachable conf adapter w'"

text \<open>The schemas some past state of the world loaded, for this configuration.\<close>

definition once_loaded :: "(string \<times> schema_index_configuration) list \<Rightarrow> (string \<times> schema) list \<Rightarrow> bool" where
  "once_loaded conf schemas \<longleftrightarrow>
     (\<exists>P s. indexConfiguration s = conf \<and> loadSchemas P s = Some schemas)"

text \<open>The invariant of the registry.\<close>

definition registry_ok ::
  "(string \<times> schema_index_configuration) list \<Rightarrow> (string \<Rightarrow> quesma_type option) \<Rightarrow> registry_world \<Rightarrow> bool" where
  "registry_ok conf adapter w \<longleftrightarrow>
     (case w of (P, s, outdated) \<Rightarrow>
        indexConfiguration s = conf \<and> dataSourceTypeAdapter s = adapter \<and>
        (\<forall>schemas. cachedSchemas s = Some schemas \<longrightarrow> once_loaded conf schemas) \<and>
        (\<not> outdated \<longrightarrow> registry_cache.fresh P s))"

lemma UpdateDynamicConfiguration_simps:
  assumes "UpdateDynamicConfiguration name t s = Some s'"
  shows "indexConfiguration s' = indexConfiguration s" "cachedSchemas s' = None"
    "dataSourceTypeAdapter s' = dataSourceTypeAdapter s"
  using assms
  by (auto simp: UpdateDynamicConfiguration_def invalidateCache_def updateFieldEncodingsInternal_def
        split: Option.bind_splits)

lemma loadOrGetSchemas_cases:
  assumes "loadOrGetSchemas P s = Some (schemas, s')"
  obtains "cachedSchemas s = Some schemas" "s' = s"
  | "cachedSchemas s = None" "loadSchemas P s = Some schemas" "s' = s\<lparr>cachedSchemas := Some schemas\<rparr>"
  using assms by (auto simp: loadOrGetSchemas_def split: option.splits)

lemma fresh_empty [simp]: "cachedSchemas s = None \<Longrightarrow> registry_cache.fresh P s"
  by (simp add: registry_cache.fresh_def)

lemma registry_ok_load:
  assumes "loadOrGetSchemas P s = Some (schemas, s')" and "registry_ok conf adapter (P, s, outdated)"
  shows "registry_ok conf adapter (P, s', outdated) \<and> once_loaded conf schemas"
  using assms(1)
proof (cases rule: loadOrGetSchemas_cases)
  case 1
  then show ?thesis using assms(2) by (simp add: registry_ok_def)
next
  case 2
  then have "once_loaded conf schemas"
    using assms(2) by (auto simp: once_loaded_def registry_ok_def)
  then show ?thesis
    using 2 assms(2) by (simp add: registry_ok_def registry_cache.fresh_def)
qed

lemma FindSchema_load:
  "FindSchema P name s = Some (found, s') \<longleftrightarrow>
     (\<exists>schemas. loadOrGetSchemas P s = Some (schemas, s') \<and> found = map_of schemas name)"
  by (auto simp: FindSchema_def)

lemma registry_ok_step:
  "registry_step w w' \<Longrightarrow> registry_ok conf adapter w \<Longrightarrow> registry_ok conf adapter w'"
proof (induction rule: registry_step.induct)
  case step_find
  then show ?case by (auto simp: FindSchema_load dest: registry_ok_load)
next
  case step_all
  then show ?case by (auto simp: AllSchemas_def dest: registry_ok_load)
next
  case (step_dynamic name t s s' P outdated)
  then show ?case by (simp add: registry_ok_def UpdateDynamicConfiguration_simps)
qed (auto simp: registry_ok_def UpdateFieldEncodings_def updateFieldEncodingsInternal_def
       invalidateCache_def UpdateFieldsOrigins_def)

lemma registry_ok_reachable: "registry_reachable conf adapter w \<Longrightarrow> registry_ok conf adapter w"
proof (induction rule: registry_reachable.induct)
  case (reachable_start P)
  then show ?case by (simp add: registry_ok_def NewSchemaRegistry_def)
qed (rule registry_ok_step)

text \<open>
  C3: Unless the tables or the origins of fields changed and no reload came since, a lookup
  answers what loading all schemas anew would give, although it may read them from the cache.
\<close>

theorem lookups_are_current:
  assumes "registry_reachable conf adapter (P, s, False)"
  shows "FindSchema P name s =
           map_option (\<lambda>schemas. (map_of schemas name, s\<lparr>cachedSchemas := Some schemas\<rparr>)) (loadSchemas P s)"
proof -
  have "registry_cache.fresh P s"
    using registry_ok_reachable [OF assms] by (simp add: registry_ok_def)
  then show ?thesis
    by (simp add: FindSchema_def loadOrGetSchemas_get registry_cache.get_fresh option.map_comp comp_def)
qed

section \<open>When loading panics\<close>

lemma FieldToColumnEncoder_None [simp]: "FieldToColumnEncoder f = None \<longleftrightarrow> f = []"
  by (auto simp: FieldToColumnEncoder_def FieldPartToColumnEncoder_def replaceNonAlphabetic_def
        to_lower_def timestampFieldName_def split: list.splits)

lemma FieldToColumnEncoder_Nil [simp]: "FieldToColumnEncoder [] = None"
  by simp

text \<open>The overrides whose type is taken over into the schema.\<close>

definition effective :: "field_configuration \<Rightarrow> bool" where
  "effective f \<longleftrightarrow> \<not> (FieldType f = TypeAlias \<or> Ignored f) \<and> snd (ParseQuesmaType (FieldType f))"

definition encodable :: "schema_index_configuration \<Rightarrow> bool" where
  "encodable c \<longleftrightarrow> list_all (\<lambda>(n, f). effective f \<longrightarrow> n \<noteq> []) (overrides c)"

lemma populate_static_None:
  "populate_static os fs = None \<longleftrightarrow> \<not> list_all (\<lambda>(n, f). effective f \<longrightarrow> n \<noteq> []) os"
  by (induction os fs rule: populate_static.induct)
    (auto simp: effective_def split: prod.splits option.splits)

lemma not_list_all_pairs:
  "\<not> list_all (\<lambda>(a, b). Q a b) xs \<longleftrightarrow> (\<exists>a b. (a, b) \<in> set xs \<and> \<not> Q a b)"
  by (auto simp: list_all_iff)

lemma index_schema_None: "index_schema P s i c = None \<longleftrightarrow> \<not> encodable c"
  using populate_static_None [of "overrides c" "populateSchemaFromDynamicConfiguration s i []"]
  by (auto simp: index_schema_def populateSchemaFromStaticConfiguration_def encodable_def
        split: Option.bind_splits prod.splits)

lemma load_indexes_None:
  "load_indexes P s cs schemas = None \<longleftrightarrow> \<not> list_all (\<lambda>(i, c). encodable c) cs"
proof (induction cs arbitrary: schemas)
  case (Cons x cs)
  obtain i c where x: "x = (i, c)" by (cases x)
  show ?case using index_schema_None [of P s i c] Cons x by (auto split: Option.bind_splits)
qed simp

lemma loadSchemas_None:
  "loadSchemas P s = None \<longleftrightarrow> \<not> list_all (\<lambda>(i, c). encodable c) (indexConfiguration s)"
  unfolding loadSchemas_def by (rule load_indexes_None)

text \<open>
  Loading the schemas panics exactly when some index is configured with an override of valid
  type, neither ignored nor an alias, for the field with the empty name; whatever the tables,
  mappings and encodings are.
\<close>

lemma load_panics_on_empty_name:
  "loadSchemas P s = None \<longleftrightarrow>
     (\<exists>i c f. (i, c) \<in> set (indexConfiguration s) \<and> ([], f) \<in> set (overrides c) \<and>
        FieldType f \<noteq> TypeAlias \<and> Ignored f = False \<and> snd (ParseQuesmaType (FieldType f)))"
  unfolding loadSchemas_None encodable_def not_list_all_pairs effective_def
  by auto

text \<open>
  C29: As long as the configuration names no field with the empty string, the registry always
  answers and a reload brings it up to date.  In every reachable world, whatever the tables have
  become, a lookup returns; and emptying the cache, which is what a reload does, makes the lookup
  return what loading from the present tables gives, and keep it, also where the cache held something
  older.
\<close>

theorem reload_brings_up_to_date:
  assumes "registry_reachable conf adapter (P, s, outdated)"
    and "list_all (\<lambda>(i, c). encodable c) conf"
  shows "FindSchema P name s \<noteq> None
     \<and> (\<exists>schemas. loadSchemas P s = Some schemas \<and>
          FindSchema P name (invalidateCache s) = Some (map_of schemas name, s\<lparr>cachedSchemas := Some schemas\<rparr>))"
proof -
  have conf: "indexConfiguration s = conf"
    using registry_ok_reachable [OF assms(1)] by (simp add: registry_ok_def)
  obtain schemas where "loadSchemas P s = Some schemas"
    using assms(2) loadSchemas_None [of P s] conf by auto
  then have "FindSchema P name (invalidateCache s) =
      Some (map_of schemas name, s\<lparr>cachedSchemas := Some schemas\<rparr>)"
    and "FindSchema P name s \<noteq> None"
    by (auto simp: FindSchema_def loadOrGetSchemas_def invalidateCache_def split: option.splits)
  then show ?thesis using \<open>loadSchemas P s = _\<close> by blast
qed

section \<open>What a loaded schema holds\<close>

lemma load_indexes_miss:
  "load_indexes P s cs schemas = Some r \<Longrightarrow> i \<notin> fst ` set cs \<Longrightarrow> map_of r i = map_of schemas i"
proof (induction cs arbitrary: schemas)
  case (Cons x cs)
  then show ?case by (cases x) (auto simp: update_conv' split: Option.bind_splits)
qed simp

lemma load_indexes_hit:
  "load_indexes P s cs schemas = Some r \<Longrightarrow> distinct (map fst cs) \<Longrightarrow> map_of cs i = Some c \<Longrightarrow>
   map_of r i = index_schema P s i c"
proof (induction cs arbitrary: schemas)
  case (Cons x cs)
  obtain j d where x: "x = (j, d)" by (cases x)
  show ?case
  proof (cases "j = i")
    case True
    then obtain sch where "index_schema P s i d = Some sch"
        "load_indexes P s cs (AList.update i sch schemas) = Some r"
      using Cons.prems x by (auto split: Option.bind_splits)
    then show ?thesis
      using load_indexes_miss [of P s cs "AList.update i sch schemas" r i] Cons.prems x True
      by (simp add: update_conv')
  next
    case False
    then show ?thesis using Cons x by (auto split: Option.bind_splits)
  qed
qed simp

lemma once_loaded_index:
  assumes "once_loaded conf schemas" "distinct (map fst conf)" "map_of conf i = Some c"
  obtains P s sch where "index_schema P s i c = Some sch" "map_of schemas i = Some sch"
proof -
  obtain P s where s: "indexConfiguration s = conf" "loadSchemas P s = Some schemas"
    using assms(1) by (auto simp: once_loaded_def)
  then have "map_of schemas i = index_schema P s i c"
    using assms(2,3) load_indexes_hit unfolding loadSchemas_def by blast
  moreover have "list_all (\<lambda>(i, c). encodable c) conf"
    using s loadSchemas_None [of P s] by simp
  then have "encodable c"
    using map_of_SomeD [OF assms(3)] by (fastforce simp: list_all_iff)
  then have "index_schema P s i c \<noteq> None"
    by (simp add: index_schema_None)
  ultimately show ?thesis using that by auto
qed

lemma lookup_once_loaded:
  assumes "registry_reachable conf adapter (P, s, outdated)"
    and "FindSchema P i s = Some (found, s')"
  obtains schemas where "once_loaded conf schemas" "found = map_of schemas i"
  using assms registry_ok_load registry_ok_reachable unfolding FindSchema_load by metis

lemma removeIgnoredFields_lookup:
  "removeIgnoredFields c fs aliases =
     (fold AList.delete (ignored_names c) fs, \<lambda>n. if n \<in> set (ignored_names c) then None else aliases n)"
proof -
  have "foldl (\<lambda>(fs, aliases) fieldName. (AList.delete fieldName fs, aliases(fieldName := None))) (fs, aliases) ns =
      (fold AList.delete ns fs, \<lambda>n. if n \<in> set ns then None else aliases n)" for ns
    by (induction ns arbitrary: fs aliases) (auto simp: fun_eq_iff)
  then show ?thesis by (simp add: removeIgnoredFields_def)
qed

lemma map_of_fold_delete:
  "map_of (fold AList.delete ns fs) n = (if n \<in> set ns then None else map_of fs n)"
  by (induction ns arbitrary: fs) (auto simp: delete_conv')

text \<open>The names of the columns that hold a point.\<close>

definition coordinate_of :: "string \<Rightarrow> string \<Rightarrow> bool" where
  "coordinate_of p n \<longleftrightarrow> n = p @ ''.lat'' \<or> n = p @ ''.lon''"

definition is_coordinate :: "string \<Rightarrow> bool" where
  "is_coordinate n \<longleftrightarrow> has_suffix n ''.lat'' \<or> has_suffix n ''.lon''"

lemma coordinate_of_is: "coordinate_of p n \<Longrightarrow> is_coordinate n"
  by (auto simp: coordinate_of_def is_coordinate_def has_suffix_def)

lemma delete_coordinates:
  "map_of (AList.delete (p @ ''.lon'') (AList.delete (p @ ''.lat'') fs)) n =
     (if coordinate_of p n then None else map_of fs n)"
  by (simp add: delete_conv' coordinate_of_def)

lemma remove_geo_subset: "map_of (remove_geo ns fs) n = Some f \<Longrightarrow> map_of fs n = Some f"
  by (induction ns fs rule: remove_geo.induct)
    (auto simp: delete_coordinates split: option.splits if_splits)

lemma remove_geo_keeps: "\<not> is_coordinate n \<Longrightarrow> map_of (remove_geo ns fs) n = map_of fs n"
  by (induction ns fs rule: remove_geo.induct)
    (auto simp: delete_coordinates dest: coordinate_of_is split: option.splits)

lemma remove_geo_none: "map_of fs n = None \<Longrightarrow> map_of (remove_geo ns fs) n = None"
  using remove_geo_subset [of ns fs n] by (cases "map_of (remove_geo ns fs) n") auto

lemma remove_geo_hides:
  "p \<in> set ns \<Longrightarrow> map_of (remove_geo ns fs) p = Some f \<Longrightarrow> type_Name (fieldType f) = type_Name QuesmaTypePoint \<Longrightarrow>
   coordinate_of p n \<Longrightarrow> map_of (remove_geo ns fs) n = None"
proof (induction ns fs rule: remove_geo.induct)
  case (2 fieldName names fs)
  show ?case
  proof (cases "fieldName = p")
    case True
    have "map_of fs p = Some f" by (rule remove_geo_subset [OF "2.prems"(2)])
    then show ?thesis using "2.prems" True by (simp add: remove_geo_none delete_coordinates)
  next
    case False
    then show ?thesis using 2 by (auto split: option.splits if_splits)
  qed
qed simp

lemma removeGeoPhysicalFields_hides:
  assumes "map_of (removeGeoPhysicalFields fs) p = Some f"
    "type_Name (fieldType f) = type_Name QuesmaTypePoint" "coordinate_of p n"
  shows "map_of (removeGeoPhysicalFields fs) n = None"
proof -
  have "p \<in> set (map fst fs)"
    using remove_geo_subset assms(1) unfolding removeGeoPhysicalFields_def
    by (metis domI dom_map_of_conv_image_fst image_set)
  then show ?thesis
    using assms remove_geo_hides unfolding removeGeoPhysicalFields_def by blast
qed

lemma populateFieldsOrigins_lookup:
  obtains g where
    "\<And>f. fieldType (g f) = fieldType f"
    "\<And>n. map_of (populateFieldsOrigins s i fs) n = map_option g (map_of fs n)"
proof (cases "fieldOrigins s i")
  case None
  then show ?thesis using that [of "\<lambda>f. f"] by (simp add: populateFieldsOrigins_def option.map_ident)
next
  case (Some origins)
  let ?g = "\<lambda>f. case origins (InternalPropertyName f) of Some origin \<Rightarrow> f\<lparr>Origin := origin\<rparr> | None \<Rightarrow> f"
  show ?thesis
    using that [of ?g] Some
    by (simp add: populateFieldsOrigins_def map_of_map split: option.split)
qed

text \<open>The fields of a configured index before the last three steps, and those steps.\<close>

lemma index_schema_elim:
  assumes "index_schema P s i c = Some sch"
  obtains fs cols m g where
    "populate_static (overrides c) (populateSchemaFromDynamicConfiguration s i []) = Some fs"
    "\<And>f. fieldType (g f) = fieldType f"
    "\<And>n. map_of (Fields sch) n =
       map_option g (map_of (removeGeoPhysicalFields (fold AList.delete (ignored_names c)
         (foldl (add_table_column (dataSourceTypeAdapter s) m) fs cols))) n)"
    "Aliases sch = (\<lambda>n. if n \<in> set (ignored_names c) then None else populateAliases c n)"
proof -
  obtain fs where fs:
      "populate_static (overrides c) (populateSchemaFromDynamicConfiguration s i []) = Some fs"
    using assms by (auto simp: index_schema_def populateSchemaFromStaticConfiguration_def split: Option.bind_splits)
  let ?m = "getInternalToPublicFieldEncodings s i"
  let ?t = "TableNameOf (index_configuration.truncate c) i"
  have "\<exists>cols. fst (populateSchemaFromTableDefinition s (provider_tables P) ?t fs ?m) =
      foldl (add_table_column (dataSourceTypeAdapter s) ?m) fs cols"
    by (auto simp: populateSchemaFromTableDefinition_def split: option.split intro: exI [of _ "[]"])
  then obtain cols e where cols: "populateSchemaFromTableDefinition s (provider_tables P) ?t fs ?m =
      (foldl (add_table_column (dataSourceTypeAdapter s) ?m) fs cols, e)"
    by (metis prod.collapse)
  let ?fs = "removeGeoPhysicalFields (fold AList.delete (ignored_names c)
         (foldl (add_table_column (dataSourceTypeAdapter s) ?m) fs cols))"
  have sch: "Fields sch = populateFieldsOrigins s i ?fs"
      "Aliases sch = (\<lambda>n. if n \<in> set (ignored_names c) then None else populateAliases c n)"
    using assms fs cols
    by (auto simp: index_schema_def populateSchemaFromStaticConfiguration_def removeIgnoredFields_lookup
        NewSchemaWithAliases_def Let_def)
  obtain g where g: "\<And>f. fieldType (g f) = fieldType f"
      "\<And>n. map_of (populateFieldsOrigins s i ?fs) n = map_option g (map_of ?fs n)"
    by (rule populateFieldsOrigins_lookup [where s = s and i = i and fs = ?fs]) (rule that)
  show ?thesis
    by (rule that [OF fs g(1)]) (simp_all add: sch g(2))
qed

section \<open>What lookups never show and what they always show\<close>

lemma add_table_column_type:
  assumes "map_of fs n = Some fld"
  shows "\<exists>fld'. map_of (add_table_column adapter m fs col) n = Some fld' \<and> fieldType fld' = fieldType fld"
  using assms by (auto simp: add_table_column_def Let_def update_conv' split: option.split)

lemma table_columns_type:
  "map_of fs n = Some fld \<Longrightarrow>
   \<exists>fld'. map_of (foldl (add_table_column adapter m) fs cols) n = Some fld' \<and> fieldType fld' = fieldType fld"
proof (induction cols arbitrary: fs fld)
  case (Cons col cols)
  obtain fld1 where "map_of (add_table_column adapter m fs col) n = Some fld1" "fieldType fld1 = fieldType fld"
    using add_table_column_type [OF Cons.prems] by blast
  then show ?case using Cons.IH by fastforce
qed simp

lemma populate_static_miss:
  "populate_static os fs = Some r \<Longrightarrow> n \<notin> fst ` set os \<Longrightarrow> map_of r n = map_of fs n"
  by (induction os fs rule: populate_static.induct)
    (auto simp: update_conv' split: prod.splits option.splits if_splits)

lemma populate_static_hit:
  "populate_static os fs = Some r \<Longrightarrow> distinct (map fst os) \<Longrightarrow> (n, f) \<in> set os \<Longrightarrow> effective f \<Longrightarrow>
   \<exists>fld. map_of r n = Some fld \<and> fieldType fld = fst (ParseQuesmaType (FieldType f))"
proof (induction os arbitrary: fs)
  case (Cons x os)
  obtain k d where x: "x = (k, d)" by (cases x)
  show ?case
  proof (cases "(k, d) = (n, f)")
    case True
    obtain t where t: "ParseQuesmaType (FieldType f) = (t, True)"
      using Cons.prems(4) by (cases "ParseQuesmaType (FieldType f)") (auto simp: effective_def)
    then obtain e where "populate_static os (AList.update n
        \<lparr>PropertyName = n, InternalPropertyName = e, InternalPropertyType = [], fieldType = t,
         Origin = FieldSourceIngest\<rparr> fs) = Some r"
      using Cons.prems x True by (auto simp: effective_def split: option.splits)
    then show ?thesis
      using populate_static_miss [of os _ r n] Cons.prems(2) x True t by (auto simp: update_conv')
  next
    case False
    then have "(n, f) \<in> set os" using Cons.prems(3) x by auto
    moreover obtain fs' where "populate_static os fs' = Some r"
      using Cons.prems(1) x by (auto split: prod.splits option.splits if_splits)
    ultimately show ?thesis using Cons by auto
  qed
qed simp

lemma populateAliases_None:
  assumes "\<And>f. (n, f) \<in> set (overrides c) \<Longrightarrow> FieldType f \<noteq> TypeAlias"
  shows "populateAliases c n = None"
proof -
  have *: "\<forall>f. (n, f) \<in> set os \<longrightarrow> FieldType f \<noteq> TypeAlias \<Longrightarrow> m n = None \<Longrightarrow>
      foldl (\<lambda>aliases (fieldName, fieldConf).
              if FieldType fieldConf = TypeAlias \<and> TargetColumnName fieldConf \<noteq> []
              then aliases(fieldName \<mapsto> TargetColumnName fieldConf) else aliases) m os n = None" for os m
    by (induction os arbitrary: m) (auto split: prod.splits)
  show ?thesis unfolding populateAliases_def by (rule *) (use assms in auto)
qed

text \<open>A configuration of an index with a field of each kind.\<close>

definition sample_index :: schema_index_configuration where
  "sample_index =
     \<lparr>Optimizers = Map.empty, Override = [], UseCommonTable = False, QueryTarget = [], IngestTarget = [],
      SchemaOverrides = Some
        \<lparr>override_Fields =
           [(''secret'', \<lparr>FieldType = ''keyword'', TargetColumnName = [], Ignored = True\<rparr>),
            (''place'', \<lparr>FieldType = ''geo_point'', TargetColumnName = [], Ignored = False\<rparr>),
            (''s'', \<lparr>FieldType = ''alias'', TargetColumnName = ''secret'', Ignored = False\<rparr>)]\<rparr>\<rparr>"

text \<open>Its table, and the registry after the ingested names were reported.\<close>

definition sample_tables :: table_provider where
  "sample_tables =
     \<lparr>provider_tables =
        [(''logs'', \<lparr>table_Columns =
            [(''secret'', \<lparr>column_Name = ''secret'', column_Type = ''String'', column_Comment = []\<rparr>),
             (''place_lat'', \<lparr>column_Name = ''place_lat'', column_Type = ''String'', column_Comment = []\<rparr>),
             (''place'', \<lparr>column_Name = ''place'', column_Type = ''String'', column_Comment = []\<rparr>)],
            table_DatabaseName = ''db''\<rparr>)],
      provider_autodiscovery = False\<rparr>"

definition sample_registry :: schema_registry where
  "sample_registry =
     UpdateFieldEncodings [((''logs'', ''place.lat''), ''place_lat'')]
       (NewSchemaRegistry [(''logs'', sample_index)] (\<lambda>t. Some QuesmaTypeKeyword))"

lemma sample_reachable:
  "registry_reachable [(''logs'', sample_index)] (\<lambda>t. Some QuesmaTypeKeyword) (sample_tables, sample_registry, False)"
  unfolding sample_registry_def by (rule reachable_step [OF reachable_start step_encodings])

lemma sample_lookup:
  obtains sch s' where "FindSchema sample_tables ''logs'' sample_registry = Some (Some sch, s')"
proof -
  have "case FindSchema sample_tables ''logs'' sample_registry of Some (Some sch, s') \<Rightarrow> True | _ \<Rightarrow> False"
    by code_simp
  then show ?thesis using that by (auto split: option.splits prod.splits)
qed

text \<open>
  C30: A field the configuration of an index ignores is not found through any lookup of the index's
  schema in any reachable world, neither by its name nor through an alias.
\<close>

theorem ignored_fields_never_resolve:
  assumes "registry_reachable conf adapter (P, s, outdated)"
    and "FindSchema P i s = Some (found, s')"
    and "distinct (map fst conf)" and "map_of conf i = Some c"
    and "(n, f) \<in> set (overrides c)" and "Ignored f"
  shows "\<exists>sch. found = Some sch \<and> ResolveField sch n = None \<and>
           (\<forall>a. Aliases sch a = Some n \<longrightarrow> ResolveField sch a = None)"
proof -
  obtain schemas where "once_loaded conf schemas" "found = map_of schemas i"
    using lookup_once_loaded [OF assms(1,2)] by blast
  then obtain P' t sch where "index_schema P' t i c = Some sch" and found: "found = Some sch"
    using once_loaded_index assms(3,4) by metis
  moreover have "n \<in> set (ignored_names c)"
    using assms(5,6) by (force simp: ignored_names_def)
  ultimately have "map_of (Fields sch) n = None" "Aliases sch n = None"
    by (auto elim!: index_schema_elim simp: removeGeoPhysicalFields_def remove_geo_none map_of_fold_delete)
  then show ?thesis using found by (simp add: ResolveField_def)
qed

text \<open>
  While the schema of a configured index shows a field of type point, it does not show the
  fields of the columns that hold its coordinates.
\<close>

lemma coordinates_stay_hidden:
  assumes "registry_reachable conf adapter (P, s, outdated)"
    and "FindSchema P i s = Some (found, s')"
    and "distinct (map fst conf)" and "map_of conf i = Some c"
  shows "\<exists>sch. found = Some sch \<and>
           (\<forall>n fld. map_of (Fields sch) n = Some fld \<longrightarrow> type_Name (fieldType fld) = type_Name QuesmaTypePoint \<longrightarrow>
              map_of (Fields sch) (n @ ''.lat'') = None \<and> map_of (Fields sch) (n @ ''.lon'') = None)"
proof -
  obtain schemas where "once_loaded conf schemas" "found = map_of schemas i"
    using lookup_once_loaded [OF assms(1,2)] by blast
  then obtain P' t sch where sch: "index_schema P' t i c = Some sch" and found: "found = Some sch"
    using once_loaded_index assms(3,4) by metis
  obtain fs g where g: "\<And>f. fieldType (g f) = fieldType f"
      "\<And>n. map_of (Fields sch) n = map_option g (map_of (removeGeoPhysicalFields fs) n)"
    by (rule index_schema_elim [OF sch]) (rule that)
  have "map_of (Fields sch) k = None"
    if "map_of (Fields sch) n = Some fld" "type_Name (fieldType fld) = type_Name QuesmaTypePoint"
      "coordinate_of n k" for n fld k
    using that g removeGeoPhysicalFields_hides by fastforce
  then show ?thesis using found by (auto simp: coordinate_of_def)
qed

text \<open>
  The type an override of the configuration gives a field is the type of the field in the
  schema of the index, whatever the type of its column, the mappings and the encodings, unless the
  field is named as the coordinate of a point.
\<close>

lemma overrides_decide_types:
  assumes "registry_reachable conf adapter (P, s, outdated)"
    and "FindSchema P i s = Some (found, s')"
    and "distinct (map fst conf)" and "map_of conf i = Some c"
    and "distinct (map fst (overrides c))" and "(n, f) \<in> set (overrides c)"
    and "ParseQuesmaType (FieldType f) = (t, True)" and "\<not> Ignored f" and "\<not> is_coordinate n"
  shows "\<exists>sch fld. found = Some sch \<and> ResolveField sch n = Some fld \<and> fieldType fld = t"
proof -
  obtain schemas where "once_loaded conf schemas" "found = map_of schemas i"
    using lookup_once_loaded [OF assms(1,2)] by blast
  then obtain P' u sch where sch: "index_schema P' u i c = Some sch" and found: "found = Some sch"
    using once_loaded_index assms(3,4) by metis
  have notalias: "FieldType f \<noteq> TypeAlias"
    using assms(7) by (auto simp: TypeAlias_def ParseQuesmaType_def quesma_type_defs)
  have only: "f' = f" if "(n, f') \<in> set (overrides c)" for f'
    using that assms(5,6) by (metis eq_key_imp_eq_value)
  then have unignored: "n \<notin> set (ignored_names c)"
    using assms(8) by (auto simp: ignored_names_def)
  obtain fs cols m g where fs:
      "populate_static (overrides c) (populateSchemaFromDynamicConfiguration u i []) = Some fs"
    and g: "\<And>f. fieldType (g f) = fieldType f"
      "\<And>n. map_of (Fields sch) n =
        map_option g (map_of (removeGeoPhysicalFields (fold AList.delete (ignored_names c)
          (foldl (add_table_column (dataSourceTypeAdapter u) m) fs cols))) n)"
    and aliases: "Aliases sch = (\<lambda>n. if n \<in> set (ignored_names c) then None else populateAliases c n)"
    by (rule index_schema_elim [OF sch]) (rule that)
  obtain fld where "map_of fs n = Some fld" "fieldType fld = t"
    using populate_static_hit [OF fs assms(5,6)] assms(7,8) notalias by (auto simp: effective_def)
  then obtain fld' where "map_of (Fields sch) n = Some fld'" "fieldType fld' = t"
    using table_columns_type [of fs n fld] g assms(9) unignored
    by (fastforce simp: removeGeoPhysicalFields_def remove_geo_keeps map_of_fold_delete)
  moreover have "Aliases sch n = None"
    using populateAliases_None [of n c] notalias only aliases by auto
  ultimately show ?thesis using found by (simp add: ResolveField_def)
qed

theorem lookups_are_current_witness:
  "FindSchema sample_tables ''logs'' sample_registry =
     map_option (\<lambda>schemas. (map_of schemas ''logs'', sample_registry\<lparr>cachedSchemas := Some schemas\<rparr>))
       (loadSchemas sample_tables sample_registry)"
  by (rule lookups_are_current [OF sample_reachable])

theorem reload_brings_up_to_date_witness:
  "FindSchema sample_tables ''logs'' sample_registry \<noteq> None
     \<and> (\<exists>schemas. loadSchemas sample_tables sample_registry = Some schemas \<and>
          FindSchema sample_tables ''logs'' (invalidateCache sample_registry)
            = Some (map_of schemas ''logs'', sample_registry\<lparr>cachedSchemas := Some schemas\<rparr>))"
  by (rule reload_brings_up_to_date [OF sample_reachable])
    (simp add: encodable_def overrides_def sample_index_def)

theorem ignored_fields_never_resolve_witness:
  "\<exists>sch s'. FindSchema sample_tables ''logs'' sample_registry = Some (Some sch, s') \<and>
     ResolveField sch ''secret'' = None"
proof -
  obtain sch s' where s: "FindSchema sample_tables ''logs'' sample_registry = Some (Some sch, s')"
    by (rule sample_lookup)
  show ?thesis
    using ignored_fields_never_resolve [OF sample_reachable s, of sample_index "''secret''"
        "\<lparr>FieldType = ''keyword'', TargetColumnName = [], Ignored = True\<rparr>"] s
    by (simp add: overrides_def sample_index_def)
qed

lemma coordinates_stay_hidden_example:
  "\<exists>sch s' fld. FindSchema sample_tables ''logs'' sample_registry = Some (Some sch, s') \<and>
     map_of (Fields sch) ''place'' = Some fld \<and> map_of (Fields sch) ''place.lat'' = None"
proof -
  obtain sch s' where s: "FindSchema sample_tables ''logs'' sample_registry = Some (Some sch, s')"
    by (rule sample_lookup)
  have "case FindSchema sample_tables ''logs'' sample_registry of
      Some (Some sch, s') \<Rightarrow>
        (case map_of (Fields sch) ''place'' of Some f \<Rightarrow> type_Name (fieldType f) = type_Name QuesmaTypePoint | None \<Rightarrow> False)
    | _ \<Rightarrow> False"
    by code_simp
  then obtain f where f: "map_of (Fields sch) ''place'' = Some f" "type_Name (fieldType f) = type_Name QuesmaTypePoint"
    using s by (auto split: option.splits)
  show ?thesis
    using coordinates_stay_hidden [OF sample_reachable s, of sample_index] s f by fastforce
qed

lemma overrides_decide_types_example:
  "\<exists>sch s' fld. FindSchema sample_tables ''logs'' sample_registry = Some (Some sch, s') \<and>
     ResolveField sch ''place'' = Some fld \<and> fieldType fld = QuesmaTypePoint"
proof -
  obtain sch s' where s: "FindSchema sample_tables ''logs'' sample_registry = Some (Some sch, s')"
    by (rule sample_lookup)
  have "\<not> is_coordinate ''place''" by code_simp
  moreover have "ParseQuesmaType ''geo_point'' = (QuesmaTypePoint, True)" by code_simp
  ultimately show ?thesis
    using overrides_decide_types [OF sample_reachable s, of sample_index "''place''"
        "\<lparr>FieldType = ''geo_point'', TargetColumnName = [], Ignored = False\<rparr>" QuesmaTypePoint] s
    by (simp add: overrides_def sample_index_def)
qed

section \<open>Origins\<close>

text \<open>
  The origins of fields that \<open>UpdateFieldsOrigins\<close> receives after a lookup are not seen by the
  lookups that follow: they return the schema the lookup before returned.
\<close>

lemma origins_are_not_seen:
  assumes "FindSchema P i s = Some (found, s')"
  shows "\<exists>s''. FindSchema P i (UpdateFieldsOrigins i origins s') = Some (found, s'')"
proof -
  obtain schemas where "loadOrGetSchemas P s = Some (schemas, s')" "found = map_of schemas i"
    using assms by (auto simp: FindSchema_load)
  moreover from this have "cachedSchemas s' = Some schemas"
    by (auto elim: loadOrGetSchemas_cases)
  ultimately show ?thesis
    by (simp add: FindSchema_def loadOrGetSchemas_def UpdateFieldsOrigins_def)
qed

text \<open>Here a reload would have shown the origin of a field as changed.\<close>

lemma origins_are_not_seen_example:
  "\<exists>found s' s''. FindSchema sample_tables ''logs'' sample_registry = Some (found, s') \<and>
     FindSchema sample_tables ''logs'' (UpdateFieldsOrigins ''logs'' [''place'' \<mapsto> FieldSourceMapping] s') = Some (found, s'') \<and>
     map_option (\<lambda>f. Origin f = FieldSourceMapping) (map_of (Fields (the found)) ''place'') = Some False"
proof -
  obtain sch s' where s: "FindSchema sample_tables ''logs'' sample_registry = Some (Some sch, s')"
    by (rule sample_lookup)
  have "case FindSchema sample_tables ''logs'' sample_registry of
      Some (Some sch, s') \<Rightarrow>
        map_option (\<lambda>f. Origin f = FieldSourceMapping) (map_of (Fields sch) ''place'') = Some False
    | _ \<Rightarrow> False"
    by code_simp
  then show ?thesis
    using s origins_are_not_seen [OF s, of "[''place'' \<mapsto> FieldSourceMapping]"] by auto
qed

section \<open>Encodings of names\<close>

lemma colliding_names_walk_order:
  "getInternalToPublicFieldEncodings (NewSchemaRegistry [] adapter
     \<lparr>fieldEncodings := [((''t'', ''a.b''), ''a_b''), ((''t'', ''a_b''), ''a_b'')]\<rparr>) ''t'' ''a_b'' = Some ''a_b''"
  "getInternalToPublicFieldEncodings (NewSchemaRegistry [] adapter
     \<lparr>fieldEncodings := [((''t'', ''a_b''), ''a_b''), ((''t'', ''a.b''), ''a_b'')]\<rparr>) ''t'' ''a_b'' = Some ''a.b''"
  by (simp_all add: getInternalToPublicFieldEncodings_def)

end
