(* ===== verification/Schema_Passes.thy ===== *)
theory Schema_Passes
  imports Rewriting Optimize_Rules Table_Resolver Schema_Registry
begin

text \<open>
  The passes that turn a logical query into a physical one, \<open>frontend_connectors/schema_transformer.go\<close>.
  A pass takes the schema of the query and the query; it panics (\<open>None\<close>), fails with an error, or
  returns the updated query.  The passes on arrays and maps and the search-after pass have
  theories of their own.

  A query carries what the passes read: of its type, whether it is \<open>Hits\<close> and then the timestamp
  field; of a runtime mapping, the database expression.
\<close>

section \<open>Queries\<close>

datatype schema_error =
    NoColumnsFound
  | FullTextPlaceholderFound
  | TableNotFound string
  | SearchAfterNotArray
  | SearchAfterLength
  | OrderByNotColumn
  | FieldNotResolved string
  | SearchAfterNotMilliseconds
  | SearchAfterNotNumber

record 'sa schema_query = query +
  q_Hits :: "string option"
  q_Indexes :: "string list"
  q_Schema :: schema
  q_SearchAfter :: 'sa
  q_RuntimeMappings :: "(string \<times> expr) list option"
  q_SchemaTransformers :: "string list"

type_synonym 'q schema_pass = "schema \<Rightarrow> 'q \<Rightarrow> (schema_error + 'q) option"

definition SingleTableNamePlaceHolder :: string where "SingleTableNamePlaceHolder = ''__quesma_table_name''"
definition FullTextFieldNamePlaceHolder :: string where
  "FullTextFieldNamePlaceHolder = ''__quesma_fulltext_field_name''"
definition TimestampFieldName :: string where "TimestampFieldName = ''@timestamp''"
definition DateHourFunction :: string where "DateHourFunction = ''__quesma_date_hour''"
definition MatchOperator :: string where "MatchOperator = ''__quesma_match''"
definition QuesmaGeoLatFunction :: string where "QuesmaGeoLatFunction = ''__quesma_geo_lat''"
definition QuesmaGeoLonFunction :: string where "QuesmaGeoLonFunction = ''__quesma_geo_lon''"
definition IndexNameColumn :: string where "IndexNameColumn = ''__quesma_index_name''"
definition AttributesValuesColumn :: string where "AttributesValuesColumn = ''attributes_values''"

abbreviation literal :: "string \<Rightarrow> expr" where
  "literal s \<equiv> LiteralExpr (NewLiteral (VString s))"

abbreviation column_named :: "string \<Rightarrow> expr" where
  "column_named n \<equiv> ColumnRef (NewColumnRef n)"

text \<open>
  How most passes end: the visitor visits the SELECT of the query, and what it returns becomes the
  SELECT of the query if it is one.
\<close>

definition run_visitor :: "'s base_visitor \<Rightarrow> 's \<Rightarrow> ('sa, 'z) schema_query_scheme \<Rightarrow> (('sa, 'z) schema_query_scheme \<times> 's) option" where
  "run_visitor v s q =
     map_option (\<lambda>(e, s'). (case e of SelectE c \<Rightarrow> q\<lparr>q_SelectCommand := c\<rparr> | _ \<Rightarrow> q, s'))
       (accept v (SelectE (q_SelectCommand q)) s)"

definition rewrite_query :: "unit base_visitor \<Rightarrow> ('sa, 'z) schema_query_scheme \<Rightarrow> (schema_error + ('sa, 'z) schema_query_scheme) option" where
  "rewrite_query v q = map_option (\<lambda>(q', _). Inr q') (run_visitor v () q)"

text \<open>Both operands visited, each followed by its assertion; calls with their arguments visited.\<close>

definition visit_operands :: "'s walk \<Rightarrow> expr \<Rightarrow> string \<Rightarrow> expr \<Rightarrow> 's \<Rightarrow> (expr \<times> 's) option" where
  "visit_operands w l op r s =
     do { (l', s1) \<leftarrow> visit_as as_Expr w l s; (r', s2) \<leftarrow> visit_as as_Expr w r s1;
          Some (InfixExpr l' op r', s2) }"

definition visit_call :: "'s walk \<Rightarrow> string \<Rightarrow> expr list \<Rightarrow> 's \<Rightarrow> (expr \<times> 's) option" where
  "visit_call w name args s = map_option (\<lambda>(args', s'). (FunctionExpr name args', s')) (VisitChildren w args s)"

text \<open>A SELECT with other columns.\<close>

definition with_columns :: "expr list \<Rightarrow> select_command \<Rightarrow> select_command" where
  "with_columns columns q =
     NewSelectCommand columns (GroupBy q) (OrderBy q) (FromClause q) (WhereClause q) (LimitBy q) (Limit q)
       (SampleLimit q) (IsDistinct q) (NamedCTEs q)"

text \<open>A SELECT visited clause by clause, with an operation \<open>col\<close> of its own for columns.\<close>

definition visit_select_columns ::
  "('s walk \<Rightarrow> expr \<Rightarrow> 's \<Rightarrow> (expr \<times> 's) option) \<Rightarrow> 's walk \<Rightarrow> select_command \<Rightarrow> 's \<Rightarrow> (expr \<times> 's) option" where
  "visit_select_columns col w q s =
     do { (columns, s1) \<leftarrow> st_mapM (col w) (Columns q) s;
          (groupBy, s2) \<leftarrow> visit_list w (GroupBy q) s1;
          (orderBy, s3) \<leftarrow> visit_order_by w (OrderBy q) s2;
          (from, s4) \<leftarrow> visit_clause w (FromClause q) s3;
          (where, s5) \<leftarrow> visit_clause w (WhereClause q) s4;
          (namedCTEs, s6) \<leftarrow> visit_ctes w (NamedCTEs q) s5;
          (limitBy, s7) \<leftarrow> visit_list w (LimitBy q) s6;
          Some (SelectE (NewSelectCommand columns groupBy orderBy from where limitBy (Limit q)
                  (SampleLimit q) (IsDistinct q) namedCTEs), s7) }"

section \<open>Boolean literals\<close>

definition lower_boolean :: "literal_expr \<Rightarrow> literal_expr" where
  "lower_boolean l =
     (case Value l of
        VString s \<Rightarrow>
          if contains s ''true'' \<or> contains s ''false''
          then NewLiteralWithEscapeType (VString (trim_char (CHR 0x27) s)) (EscapeType l)
          else l
      | _ \<Rightarrow> l)"

definition boolean_visitor :: "unit base_visitor" where
  "boolean_visitor =
     NewBaseVisitor\<lparr>OverrideVisitLiteral := Some (\<lambda>w l s. Some (LiteralExpr (lower_boolean l), s))\<rparr>"

definition applyBooleanLiteralLowering :: "('sa, 'z) schema_query_scheme schema_pass" where
  "applyBooleanLiteralLowering indexSchema q = rewrite_query boolean_visitor q"

section \<open>IP addresses\<close>

text \<open>The text of an operand that is a string literal or a column.\<close>

definition operand_value :: "expr \<Rightarrow> string" where
  "operand_value e =
     (case e of
        LiteralExpr l \<Rightarrow> (case Value l of VString s \<Rightarrow> s | _ \<Rightarrow> [])
      | ColumnRef c \<Rightarrow> ColumnName c
      | _ \<Rightarrow> [])"

definition in_ip_range :: "expr \<Rightarrow> string \<Rightarrow> expr" where
  "in_ip_range lhs rhsValue =
     FunctionExpr ''isIPAddressInRange''
       [FunctionExpr ''CAST''
          [AliasedExpr
             (FunctionExpr ''COALESCE''
                [lhs, LiteralExpr \<lparr>Value = VString ([CHR 0x27] @ ''0.0.0.0'' @ [CHR 0x27]), EscapeType = UnsetEscapeType\<rparr>])
             ''String''],
        LiteralExpr \<lparr>Value = VString rhsValue, EscapeType = UnsetEscapeType\<rparr>]"

text \<open>The comparison of two visited operands.\<close>

definition ip_comparison :: "schema \<Rightarrow> expr \<Rightarrow> string \<Rightarrow> expr \<Rightarrow> expr" where
  "ip_comparison indexSchema lhs op rhs =
     (let lhsValue = operand_value lhs; rhsValue = operand_value rhs
      in if \<not> contains rhsValue ''/'' then InfixExpr lhs op rhs
         else (case ResolveFieldByInternalName indexSchema lhsValue of
                 None \<Rightarrow> InfixExpr lhs op rhs
               | Some field \<Rightarrow>
                   if \<not> type_Equal (fieldType field) QuesmaTypeIp then InfixExpr lhs op rhs
                   else if length lhsValue = 0 \<or> length rhsValue = 0 then InfixExpr lhs op rhs
                   else if op \<noteq> ''='' \<and> op \<noteq> ''iLIKE'' then InfixExpr lhs op rhs
                   else in_ip_range lhs (replace_char (CHR ''%'') [] rhsValue)))"

definition visit_unless_nil :: "'s walk \<Rightarrow> expr \<Rightarrow> 's \<Rightarrow> (expr \<times> 's) option" where
  "visit_unless_nil w e s = (if e \<noteq> NilExpr then w e s else Some (NilExpr, s))"

definition ip_visitor :: "schema \<Rightarrow> unit base_visitor" where
  "ip_visitor indexSchema =
     NewBaseVisitor
       \<lparr>OverrideVisitInfix := Some (\<lambda>w l op r s.
          do { (lhs, s1) \<leftarrow> visit_unless_nil w l s; (rhs, s2) \<leftarrow> visit_unless_nil w r s1;
               lhs \<leftarrow> as_Expr lhs; rhs \<leftarrow> as_Expr rhs;
               Some (ip_comparison indexSchema lhs op rhs, s2) }),
        OverrideVisitArrayAccess := Some (\<lambda>w c i s.
          do { (_, s1) \<leftarrow> w (ColumnRef c) s; (_, s2) \<leftarrow> w i s1; Some (ArrayAccess c i, s2) })\<rparr>"

definition applyIpTransformations :: "('sa, 'z) schema_query_scheme schema_pass" where
  "applyIpTransformations indexSchema q = rewrite_query (ip_visitor indexSchema) q"

section \<open>Geographic points\<close>

text \<open>The columns of points and what replaces them.\<close>

definition add_point :: "(string \<rightharpoonup> expr) \<Rightarrow> schema_field \<Rightarrow> (string \<rightharpoonup> expr)" where
  "add_point replacements field =
     (if type_Name (fieldType field) = type_Name QuesmaTypePoint
      then (let n = InternalPropertyName field;
                lon = column_named (n @ ''_lon''); lat = column_named (n @ ''_lat'')
            in replacements(n \<mapsto> FunctionExpr ''map''
                   [literal (SingleQuote ''lat''), lat, literal (SingleQuote ''lon''), lon],
                 n @ ''.lat'' \<mapsto> lat, n @ ''.lon'' \<mapsto> lon))
      else replacements)"

definition point_replacements :: "schema \<Rightarrow> (string \<rightharpoonup> expr)" where
  "point_replacements schemaInstance = foldl add_point Map.empty (map snd (Fields schemaInstance))"

definition geo_suffix :: "string \<Rightarrow> string" where
  "geo_suffix name =
     (if name = QuesmaGeoLatFunction then ''.lat'' else if name = QuesmaGeoLonFunction then ''.lon'' else [])"

text \<open>The replacement of a call of a coordinate function on a point.\<close>

definition geo_call :: "(string \<rightharpoonup> expr) \<Rightarrow> string \<Rightarrow> expr list \<Rightarrow> expr option" where
  "geo_call replacements name args =
     (if geo_suffix name \<noteq> [] then
        (case args of [ColumnRef col] \<Rightarrow> replacements (ColumnName col @ geo_suffix name) | _ \<Rightarrow> None)
      else None)"

definition geo_column :: "(string \<rightharpoonup> expr) \<Rightarrow> 's walk \<Rightarrow> expr \<Rightarrow> 's \<Rightarrow> (expr \<times> 's) option" where
  "geo_column replacements w e s =
     do { (col, s1) \<leftarrow> visit_as as_Expr w e s;
          Some (case as_ColumnRef e of
              Some c \<Rightarrow>
                if replacements (ColumnName c) \<noteq> None \<and> ColumnName c \<noteq> [] then AliasedExpr col (ColumnName c) else col
            | None \<Rightarrow> col, s1) }"

definition geo_visitor :: "(string \<rightharpoonup> expr) \<Rightarrow> unit base_visitor" where
  "geo_visitor replacements =
     NewBaseVisitor
       \<lparr>OverrideVisitColumnRef := Some (\<lambda>w c s.
          Some (case replacements (ColumnName c) of Some e \<Rightarrow> e | None \<Rightarrow> ColumnRef c, s)),
        OverrideVisitFunction := Some (\<lambda>w name args s.
          (case geo_call replacements name args of
             Some e \<Rightarrow> Some (e, s)
           | None \<Rightarrow> visit_call w name args s)),
        OverrideVisitSelectCommand := Some (visit_select_columns (geo_column replacements))\<rparr>"

definition applyGeoTransformations :: "('sa, 'z) schema_query_scheme schema_pass" where
  "applyGeoTransformations schemaInstance q = rewrite_query (geo_visitor (point_replacements schemaInstance)) q"

section \<open>The physical table\<close>

text \<open>The default optimizers of the configuration, whose properties are walked.\<close>

record walked_optimizer =
  walked_Disabled :: bool
  walked_Properties :: "(string \<times> string) list"

record pass_configuration = quesma_configuration +
  DefaultQueryOptimizers :: "string \<rightharpoonup> walked_optimizer"
  EnableSQLTracing :: bool

definition computeListIndexPrefixesToGroup :: "('z) pass_configuration_scheme \<Rightarrow> string list" where
  "computeListIndexPrefixesToGroup cfg =
     (case DefaultQueryOptimizers cfg ''group_common_table_indexes'' of
        Some opt \<Rightarrow>
          if \<not> walked_Disabled opt
          then map fst (filter (\<lambda>(k, v). v \<noteq> ''false'') (walked_Properties opt)) else []
      | None \<Rightarrow> [])"

definition uses_common_table :: "('z) pass_configuration_scheme \<Rightarrow> string list \<Rightarrow> bool" where
  "uses_common_table cfg indexes =
     (case indexes of
        [index] \<Rightarrow>
          (case map_of (IndexConfig cfg) index of
             Some indexConf \<Rightarrow> UseCommonTable indexConf
           | None \<Rightarrow> UseCommonTableForWildcard cfg)
      | _ \<Rightarrow> True)"

text \<open>The conditions on the name of the index, by the key under which the code keeps them.\<close>

definition prefix_condition :: "string \<Rightarrow> expr" where
  "prefix_condition pre = FunctionExpr ''startsWith'' [column_named IndexNameColumn, literal (SingleQuote pre)]"

definition index_condition :: "string \<Rightarrow> expr" where
  "index_condition indexName = InfixExpr (column_named IndexNameColumn) ''='' (literal (SingleQuote indexName))"

definition add_index :: "string list \<Rightarrow> (string \<times> expr) list \<Rightarrow> string \<Rightarrow> (string \<times> expr) list" where
  "add_index groupIndexesPrefix orExpression indexName =
     (let matching = filter (has_prefix indexName) groupIndexesPrefix
      in if matching = [] then AList.update indexName (index_condition indexName) orExpression
         else foldl (\<lambda>es pre. if map_of es pre = None then AList.update pre (prefix_condition pre) es else es)
                orExpression matching)"

definition indices_where :: "string list \<Rightarrow> string list \<Rightarrow> expr" where
  "indices_where groupIndexesPrefix indexes =
     (let orExpression = foldl (add_index groupIndexesPrefix) [] indexes
      in Or (map (\<lambda>name. the (map_of orExpression name)) (sort (map fst orExpression))))"

text \<open>The SELECT of the visitor; the WHERE clause is visited twice where the filter is added.\<close>

definition physical_select ::
  "bool \<Rightarrow> table_ref \<Rightarrow> string list \<Rightarrow> string list \<Rightarrow> 's walk \<Rightarrow> select_command \<Rightarrow> 's \<Rightarrow> (expr \<times> 's) option" where
  "physical_select useCommonTable physical groupIndexesPrefix indexes w q s =
     do { (columns, s1) \<leftarrow> visit_list w (Columns q) s;
          (groupBy, s2) \<leftarrow> visit_list w (GroupBy q) s1;
          (orderBy, s3) \<leftarrow> visit_order_by w (OrderBy q) s2;
          (from, s4) \<leftarrow> visit_clause w (FromClause q) s3;
          (where, s5) \<leftarrow> visit_clause w (WhereClause q) s4;
          (where, s6) \<leftarrow>
            (if useCommonTable \<and> from = TableRef physical then
               (if WhereClause q \<noteq> NilExpr
                then do { (again, s6) \<leftarrow> visit_as as_Expr w (WhereClause q) s5;
                          Some (And [again, indices_where groupIndexesPrefix indexes], s6) }
                else Some (indices_where groupIndexesPrefix indexes, s5))
             else Some (where, s5));
          (namedCTEs, s7) \<leftarrow> visit_ctes w (NamedCTEs q) s6;
          Some (SelectE (NewSelectCommand columns groupBy orderBy from where (LimitBy q) (Limit q)
                  (SampleLimit q) (IsDistinct q) namedCTEs), s7) }"

definition physical_table :: "bool \<Rightarrow> schema \<Rightarrow> ('sa, 'z) schema_query_scheme \<Rightarrow> table_ref" where
  "physical_table useCommonTable currentSchema q =
     (if useCommonTable then NewTableRef CommonTableName
      else NewTableRefWithDatabaseName (q_TableName q) (schema_DatabaseName currentSchema))"

definition physical_column :: "bool \<Rightarrow> column_ref \<Rightarrow> column_ref" where
  "physical_column useCommonTable c =
     (if useCommonTable \<and> ColumnName c \<in> {''timestamp'', ''epoch_time'', [CHR 0x22] @ ''epoch_time'' @ [CHR 0x22]}
      then NewColumnRefWithTable ''@timestamp'' (TableAlias c) else c)"

definition physical_visitor :: "bool \<Rightarrow> table_ref \<Rightarrow> string list \<Rightarrow> string list \<Rightarrow> unit base_visitor" where
  "physical_visitor useCommonTable physical groupIndexesPrefix indexes =
     NewBaseVisitor
       \<lparr>OverrideVisitTableRef := Some (\<lambda>w t s.
          Some (TableRef (if TableName t = SingleTableNamePlaceHolder then physical else t), s)),
        OverrideVisitColumnRef := Some (\<lambda>w c s. Some (ColumnRef (physical_column useCommonTable c), s)),
        OverrideVisitSelectCommand := Some (physical_select useCommonTable physical groupIndexesPrefix indexes)\<rparr>"

definition applyPhysicalFromExpression ::
  "('y) pass_configuration_scheme \<Rightarrow> ('sa, 'z) schema_query_scheme schema_pass" where
  "applyPhysicalFromExpression cfg currentSchema q =
     (let useCommonTable = uses_common_table cfg (q_Indexes q)
      in rewrite_query
           (physical_visitor useCommonTable (physical_table useCommonTable currentSchema q)
             (computeListIndexPrefixesToGroup cfg) (q_Indexes q)) q)"

section \<open>Wildcards\<close>

text \<open>The columns a wildcard stands for.\<close>

definition wildcard_columns :: "schema \<Rightarrow> (string \<times> expr) list option \<Rightarrow> string list" where
  "wildcard_columns indexSchema runtimeMappings =
     sort (map PropertyName (filter (\<lambda>col. Origin col = FieldSourceIngest) (map snd (Fields indexSchema)))
           @ (case runtimeMappings of None \<Rightarrow> [] | Some mappings \<Rightarrow> map fst mappings))"

definition applyWildcardExpansion :: "('sa, 'z) schema_query_scheme schema_pass" where
  "applyWildcardExpansion indexSchema q =
     (let columns = Columns (q_SelectCommand q);
          newColumns = filter (\<lambda>col. col \<noteq> LiteralExpr NewWildcardExpr) columns
            @ (if LiteralExpr NewWildcardExpr \<in> set columns
               then map column_named (wildcard_columns indexSchema (q_RuntimeMappings q))
                 @ (if length (q_Indexes q) > 1 then [column_named IndexNameColumn] else [])
               else [])
      in if length newColumns = 0 then Some (Inl NoColumnsFound)
         else Some (Inr (q\<lparr>q_SelectCommand := with_columns newColumns (q_SelectCommand q)\<rparr>)))"

section \<open>Full text fields\<close>

definition full_text_fields :: "schema \<Rightarrow> string list" where
  "full_text_fields indexSchema =
     sort (map InternalPropertyName
       (filter (\<lambda>field. IsFullText (fieldType field) \<and> Origin field = FieldSourceIngest) (map snd (Fields indexSchema))))"

definition AsString :: "expr \<Rightarrow> string option" where
  "AsString e = (if e = NilExpr then Some [] else render e)"

text \<open>The comparison of the placeholder; the rendering of the right-hand side may panic.\<close>

definition is_like :: "string \<Rightarrow> bool" where
  "is_like op \<longleftrightarrow> to_upper op = ''LIKE'' \<or> to_upper op = ''ILIKE''"

definition full_text_comparison :: "string list \<Rightarrow> column_ref \<Rightarrow> string \<Rightarrow> expr \<Rightarrow> expr option" where
  "full_text_comparison fullTextFields col op r =
     (if length fullTextFields = 0 then
        (if is_like op
         then map_option (\<lambda>text. LiteralExpr (NewLiteral (VBool (text = SingleQuote ''%'')))) (AsString r)
         else Some (LiteralExpr (NewLiteral (VBool False))))
      else Some (Or (map (\<lambda>field. InfixExpr (ColumnRef (NewColumnRefWithTable field (TableAlias col))) op r) fullTextFields)))"

text \<open>The captured variable tells whether \<open>err\<close> was set.\<close>

definition full_text_visitor :: "string list \<Rightarrow> bool base_visitor" where
  "full_text_visitor fullTextFields =
     NewBaseVisitor
       \<lparr>OverrideVisitColumnRef := Some (\<lambda>w c err.
          Some (ColumnRef c, err \<or> ColumnName c = FullTextFieldNamePlaceHolder)),
        OverrideVisitInfix := Some (\<lambda>w l op r err.
          (case as_ColumnRef l of
             Some col \<Rightarrow>
               if ColumnName col = FullTextFieldNamePlaceHolder
               then map_option (\<lambda>e. (e, err)) (full_text_comparison fullTextFields col op r)
               else visit_operands w l op r err
           | None \<Rightarrow> visit_operands w l op r err))\<rparr>"

definition applyFullTextField :: "('sa, 'z) schema_query_scheme schema_pass" where
  "applyFullTextField indexSchema q =
     map_option (\<lambda>(q', err). if err then Inl FullTextPlaceholderFound else Inr q')
       (run_visitor (full_text_visitor (full_text_fields indexSchema)) False q)"

section \<open>The timestamp\<close>

text \<open>A visitor that replaces columns.\<close>

definition column_visitor :: "(column_ref \<Rightarrow> expr) \<Rightarrow> unit base_visitor" where
  "column_visitor h = NewBaseVisitor\<lparr>OverrideVisitColumnRef := Some (\<lambda>w c s. Some (h c, s))\<rparr>"

definition timestamp_column :: "string \<Rightarrow> column_ref \<Rightarrow> expr" where
  "timestamp_column replacementName c =
     ColumnRef (if ColumnName c = TimestampFieldName then NewColumnRefWithTable replacementName (TableAlias c) else c)"

definition applyTimestampField :: "('sa, 'z) schema_query_scheme schema_pass" where
  "applyTimestampField indexSchema q =
     (let timestampColumnName =
            (case map_of (Fields indexSchema) TimestampFieldName of Some column \<Rightarrow> InternalPropertyName column | None \<Rightarrow> []);
          q = (if timestampColumnName = [] then q
               else q\<lparr>q_Hits := map_option (\<lambda>_. timestampColumnName) (q_Hits q)\<rparr>);
          replacementName = (if timestampColumnName \<noteq> TimestampFieldName then timestampColumnName else [])
      in if replacementName = [] then Some (Inr q)
         else rewrite_query (column_visitor (timestamp_column replacementName)) q)"

section \<open>Field encoding\<close>

definition encode_column :: "schema \<Rightarrow> bool \<Rightarrow> column_ref \<Rightarrow> expr" where
  "encode_column indexSchema hasAttributesValuesColumn c =
     (if ColumnName c = FullTextFieldNamePlaceHolder \<or> ColumnName c = IndexNameColumn then ColumnRef c
      else if ResolveFieldByInternalName indexSchema (ColumnName c) \<noteq> None then ColumnRef c
      else (case ResolveField indexSchema (ColumnName c) of
              Some resolvedField \<Rightarrow> ColumnRef (NewColumnRefWithTable (InternalPropertyName resolvedField) (TableAlias c))
            | None \<Rightarrow>
                if hasAttributesValuesColumn
                then ArrayAccess (NewColumnRef AttributesValuesColumn) (literal (SingleQuote (ColumnName c)))
                else literal ''NULL''))"

text \<open>A column that was not found keeps its name as an alias.\<close>

definition alias_unresolved :: "expr \<Rightarrow> expr \<Rightarrow> expr" where
  "alias_unresolved e col =
     (case as_ColumnRef e of
        Some c \<Rightarrow>
          (case col of
             ArrayAccess a i \<Rightarrow> if ColumnName c \<noteq> [] then AliasedExpr col (ColumnName c) else col
           | LiteralExpr l \<Rightarrow>
               if ColumnName c \<noteq> [] \<and> Value l = VString ''NULL'' then AliasedExpr col (ColumnName c) else col
           | _ \<Rightarrow> col)
      | None \<Rightarrow> col)"

definition encoding_visitor :: "schema \<Rightarrow> bool \<Rightarrow> unit base_visitor" where
  "encoding_visitor indexSchema hasAttributesValuesColumn =
     NewBaseVisitor
       \<lparr>OverrideVisitColumnRef := Some (\<lambda>w c s. Some (encode_column indexSchema hasAttributesValuesColumn c, s)),
        OverrideVisitSelectCommand := Some (visit_select_columns (\<lambda>w e s.
          map_option (\<lambda>(col, s'). (alias_unresolved e col, s')) (visit_as as_Expr w e s)))\<rparr>"

text \<open>\<open>tables\<close> are the tables discovered, with their columns.\<close>

definition applyFieldEncoding ::
  "(string \<rightharpoonup> string list) \<Rightarrow> ('sa, 'z) schema_query_scheme schema_pass" where
  "applyFieldEncoding tables indexSchema q =
     (case tables (q_TableName q) of
        None \<Rightarrow> Some (Inl (TableNotFound (q_TableName q)))
      | Some cols \<Rightarrow> rewrite_query (encoding_visitor indexSchema (AttributesValuesColumn \<in> set cols)) q)"

section \<open>Runtime mappings\<close>

definition map_column :: "(string \<times> expr) list \<Rightarrow> expr \<Rightarrow> expr" where
  "map_column mappings col =
     (case as_ColumnRef col of
        Some c \<Rightarrow>
          (case map_of mappings (ColumnName c) of
             Some databaseExpression \<Rightarrow> AliasedExpr databaseExpression (ColumnName c)
           | None \<Rightarrow> col)
      | None \<Rightarrow> col)"

definition mapping_column :: "(string \<times> expr) list \<Rightarrow> column_ref \<Rightarrow> expr" where
  "mapping_column mappings c =
     (case map_of mappings (ColumnName c) of Some databaseExpression \<Rightarrow> databaseExpression | None \<Rightarrow> ColumnRef c)"

definition applyRuntimeMappings :: "('sa, 'z) schema_query_scheme schema_pass" where
  "applyRuntimeMappings indexSchema q =
     (case q_RuntimeMappings q of
        None \<Rightarrow> Some (Inr q)
      | Some mappings \<Rightarrow>
          rewrite_query (column_visitor (mapping_column mappings))
            (q\<lparr>q_SelectCommand :=
                 with_columns (map (map_column mappings) (Columns (q_SelectCommand q))) (q_SelectCommand q)\<rparr>))"

section \<open>Date functions\<close>

definition date_visitor :: "unit base_visitor" where
  "date_visitor =
     NewBaseVisitor\<lparr>OverrideVisitFunction := Some (\<lambda>w name args s.
       if name = DateHourFunction then
         (case args of
            [a] \<Rightarrow> map_option (\<lambda>(a', s'). (FunctionExpr ''toHour'' [a'], s')) (visit_as as_Expr w a s)
          | _ \<Rightarrow> Some (FunctionExpr name args, s))
       else visit_call w name args s)\<rparr>"

definition convertQueryDateTimeFunctionToClickhouse :: "('sa, 'z) schema_query_scheme schema_pass" where
  "convertQueryDateTimeFunctionToClickhouse indexSchema q = rewrite_query date_visitor q"

section \<open>Aggregations over text and dates\<close>

definition aggFunctionPrefixes :: "string list" where
  "aggFunctionPrefixes = [''sum'', ''avg'', ''quantiles'']"

definition dbTypePrefixes :: "string list" where
  "dbTypePrefixes = [''DateTime'', ''String'', ''LowCardinality(String)'']"

definition unsupported_aggregation :: "schema \<Rightarrow> string \<Rightarrow> expr list \<Rightarrow> bool" where
  "unsupported_aggregation indexSchema name args \<longleftrightarrow>
     list_ex (has_prefix (to_lower name)) aggFunctionPrefixes \<and>
     (case args of
        ColumnRef columnRef # _ \<Rightarrow>
          (case ResolveFieldByInternalName indexSchema (ColumnName columnRef) of
             Some col \<Rightarrow> list_ex (has_prefix (InternalPropertyType col)) dbTypePrefixes
           | None \<Rightarrow> False)
      | ArrayAccess c i # _ \<Rightarrow> ColumnName c = AttributesValuesColumn
      | _ \<Rightarrow> False)"

definition agg_visitor :: "schema \<Rightarrow> unit base_visitor" where
  "agg_visitor indexSchema =
     NewBaseVisitor\<lparr>OverrideVisitFunction := Some (\<lambda>w name args s.
       if unsupported_aggregation indexSchema name args
       then map_option (\<lambda>(args', s'). (FunctionExpr name (literal ''NULL'' # tl args'), s')) (VisitChildren w args s)
       else visit_call w name args s)\<rparr>"

definition checkAggOverUnsupportedType :: "('sa, 'z) schema_query_scheme schema_pass" where
  "checkAggOverUnsupportedType indexSchema q = rewrite_query (agg_visitor indexSchema) q"

section \<open>Aliases of columns\<close>

definition aliased_column :: "nat \<Rightarrow> expr \<Rightarrow> expr" where
  "aliased_column i column =
     (let aliased = AliasedExpr column (''column_'' @ itoa (int i))
      in case column of
           ColumnRef c \<Rightarrow> column
         | LiteralExpr l \<Rightarrow> (case Value l of VString s \<Rightarrow> column | _ \<Rightarrow> aliased)
         | AliasedExpr e a \<Rightarrow> column
         | _ \<Rightarrow> aliased)"

definition columnsToAliasedColumns :: "expr list \<Rightarrow> expr list" where
  "columnsToAliasedColumns columns = map (\<lambda>(i, column). aliased_column i column) (List.enumerate 0 columns)"

definition applyAliasColumns :: "('sa, 'z) schema_query_scheme schema_pass" where
  "applyAliasColumns indexSchema q =
     Some (Inr (q\<lparr>q_SelectCommand :=
       with_columns (columnsToAliasedColumns (Columns (q_SelectCommand q))) (q_SelectCommand q)\<rparr>))"

section \<open>Matches\<close>

definition match_comparison :: "schema \<Rightarrow> column_ref \<Rightarrow> string \<Rightarrow> expr" where
  "match_comparison indexSchema lhs text =
     (let rhsValue = trim_suffix (trim_prefix text [CHR 0x27]) [CHR 0x27];
          typeName = (case ResolveFieldByInternalName indexSchema (ColumnName lhs) of
                        Some field \<Rightarrow> type_Name (fieldType field) | None \<Rightarrow> [])
      in if typeName \<in> set (map type_Name [QuesmaTypeInteger, QuesmaTypeLong, QuesmaTypeUnsignedLong, QuesmaTypeBoolean])
         then InfixExpr (ColumnRef lhs) ''='' (literal rhsValue)
         else InfixExpr (ColumnRef lhs) ''iLIKE''
                (LiteralExpr (NewLiteralWithEscapeType (VString rhsValue) NotEscapedLikeFull)))"

text \<open>A literal that is not a string fails the type assertion.\<close>

definition match_visitor :: "schema \<Rightarrow> unit base_visitor" where
  "match_visitor indexSchema =
     NewBaseVisitor\<lparr>OverrideVisitInfix := Some (\<lambda>w l op r s.
       (case (as_ColumnRef l, as_LiteralExpr r) of
          (Some lhs, Some rhs) \<Rightarrow>
            if op = MatchOperator
            then (case Value rhs of VString text \<Rightarrow> Some (match_comparison indexSchema lhs text, s) | _ \<Rightarrow> None)
            else visit_operands w l op r s
        | _ \<Rightarrow> visit_operands w l op r s))\<rparr>"

definition applyMatchOperator :: "('sa, 'z) schema_query_scheme schema_pass" where
  "applyMatchOperator indexSchema q = rewrite_query (match_visitor indexSchema) q"

end
