(* ===== verification/Schema_Arrays.thy ===== *)
theory Schema_Arrays
  imports Schema_Passes
begin

text \<open>
  The passes on columns of array and map types: \<open>frontend_connectors/schema_array_transformer.go\<close>,
  \<open>schema_map_transformation.go\<close> and their drivers in \<open>schema_transformer.go\<close>.
\<close>

section \<open>Function combinators\<close>

record functionWithCombinator =
  baseFunctionName :: string
  isArray :: bool
  isIf :: bool
  isOrNull :: bool
  isState :: bool
  isMerge :: bool

definition combinator_String :: "functionWithCombinator \<Rightarrow> string" where
  "combinator_String f =
     baseFunctionName f @ (if isArray f then ''Array'' else []) @ (if isIf f then ''If'' else [])
       @ (if isOrNull f then ''OrNull'' else []) @ (if isState f then ''State'' else [])
       @ (if isMerge f then ''Merge'' else [])"

definition stripSuffix :: "string \<Rightarrow> string \<Rightarrow> string \<times> bool" where
  "stripSuffix s suff = (if has_suffix s suff then (trim_suffix s suff, True) else (s, False))"

definition parseFunctionWithCombinator :: "string \<Rightarrow> functionWithCombinator" where
  "parseFunctionWithCombinator funcName =
     (let (b, state) = stripSuffix funcName ''State'';
          (b, merge) = stripSuffix b ''Merge'';
          (b, cond) = stripSuffix b ''If'';
          (b, orNull) = stripSuffix b ''OrNull''
      in \<lparr>baseFunctionName = b, isArray = False, isIf = cond, isOrNull = orNull, isState = state, isMerge = merge\<rparr>)"

definition array_function :: "string \<Rightarrow> string" where
  "array_function name = combinator_String (parseFunctionWithCombinator name\<lparr>isArray := True\<rparr>)"

section \<open>Arrays\<close>

definition dbColumnType :: "schema \<Rightarrow> string \<Rightarrow> string" where
  "dbColumnType indexSchema columName =
     (case ResolveFieldByInternalName indexSchema (trim_suffix columName ''.keyword'') of
        Some field \<Rightarrow> InternalPropertyType field
      | None \<Rightarrow> [])"

definition is_array_column :: "schema \<Rightarrow> column_ref \<Rightarrow> bool" where
  "is_array_column indexSchema c \<longleftrightarrow> has_prefix (dbColumnType indexSchema (ColumnName c)) ''Array''"

definition white :: "char \<Rightarrow> bool" where
  "white c \<longleftrightarrow> (of_char c :: nat) \<in> {9, 10, 11, 12, 13, 32}"

definition TrimSpace :: "string \<Rightarrow> string" where
  "TrimSpace s = rev (dropWhile white (rev (dropWhile white s)))"

definition exists_lambda :: "string \<Rightarrow> expr \<Rightarrow> expr" where
  "exists_lambda op right = LambdaExpr [''x''] (InfixExpr (literal ''x'') op right)"

definition array_infix :: "schema \<Rightarrow> 's walk \<Rightarrow> expr \<Rightarrow> string \<Rightarrow> expr \<Rightarrow> 's \<Rightarrow> (expr \<times> 's) option" where
  "array_infix indexSchema w l op r s =
     (case as_ColumnRef l of
        Some column \<Rightarrow>
          if is_array_column indexSchema column then
            (let o' = TrimSpace (to_upper op)
             in if (o' = ''ILIKE'' \<or> o' = ''LIKE'') \<and> dbColumnType indexSchema (ColumnName column) = ''Array(String)''
                then map_option (\<lambda>(r', s'). (FunctionExpr ''arrayExists'' [exists_lambda o' r', l], s')) (visit_as as_Expr w r s)
                else if o' = ''=''
                then map_option (\<lambda>(r', s'). (FunctionExpr ''has'' [l, r'], s')) (visit_as as_Expr w r s)
                else visit_operands w l op r s)
          else visit_operands w l op r s
      | None \<Rightarrow> visit_operands w l op r s)"

text \<open>The captured variable is \<open>childGotArrayFunc\<close>.  A column as first argument stops the visit.\<close>

definition array_function_call :: "schema \<Rightarrow> bool walk \<Rightarrow> string \<Rightarrow> expr list \<Rightarrow> bool \<Rightarrow> (expr \<times> bool) option" where
  "array_function_call indexSchema w name args got =
     (case args of
        [] \<Rightarrow> Some (FunctionExpr name args, got)
      | ColumnRef column # _ \<Rightarrow>
          if is_array_column indexSchema column then Some (FunctionExpr (array_function name) args, True)
          else Some (FunctionExpr name args, got)
      | _ \<Rightarrow> visit_call w name args got)"

definition array_type_visitor :: "schema \<Rightarrow> bool base_visitor" where
  "array_type_visitor indexSchema =
     NewBaseVisitor
       \<lparr>OverrideVisitInfix := Some (array_infix indexSchema),
        OverrideVisitFunction := Some (array_function_call indexSchema),
        OverrideVisitWindowFunction := Some (\<lambda>w name args partitionBy orderBy got.
          map_option (\<lambda>(args', got'). (WindowFunction (if got' then array_function name else name) args' partitionBy orderBy, got'))
            (VisitChildren w args False)),
        OverrideVisitColumnRef := Some (\<lambda>w c got. Some (ColumnRef c, got))\<rparr>"

definition find_array_visitor :: "schema \<Rightarrow> bool base_visitor" where
  "find_array_visitor indexSchema =
     NewBaseVisitor\<lparr>OverrideVisitColumnRef := Some (\<lambda>w c found. Some (ColumnRef c, found \<or> is_array_column indexSchema c))\<rparr>"

definition isArrayColumn :: "schema \<Rightarrow> expr \<Rightarrow> bool option" where
  "isArrayColumn indexSchema e = map_option snd (accept (find_array_visitor indexSchema) e False)"

text \<open>What the visits return is dropped.\<close>

definition grouping_visitor :: "schema \<Rightarrow> bool base_visitor" where
  "grouping_visitor indexSchema =
     NewBaseVisitor\<lparr>OverrideVisitSelectCommand := Some (\<lambda>w q found.
       do { grouped \<leftarrow> opt_mapM (isArrayColumn indexSchema) (GroupBy q);
            (_, s1) \<leftarrow> st_mapM w (Columns q) (found \<or> list_ex id grouped);
            (_, s2) \<leftarrow> visit_unless_nil w (FromClause q) s1;
            (_, s3) \<leftarrow> st_mapM w (map CTEE (NamedCTEs q)) s2;
            Some (SelectE q, s3) })\<rparr>"

definition checkIfGroupingByArrayColumn :: "schema \<Rightarrow> select_command \<Rightarrow> bool option" where
  "checkIfGroupingByArrayColumn indexSchema selectCommand =
     map_option snd (accept (grouping_visitor indexSchema) (SelectE selectCommand) False)"

definition join_array_column :: "schema \<Rightarrow> column_ref \<Rightarrow> expr" where
  "join_array_column indexSchema c =
     (if is_array_column indexSchema c then FunctionExpr ''arrayJoin'' [ColumnRef c] else ColumnRef c)"

definition applyArrayTransformations :: "('sa, 'z) schema_query_scheme schema_pass" where
  "applyArrayTransformations indexSchema q =
     do { allColumns \<leftarrow> GetUsedColumns (SelectE (q_SelectCommand q));
          if \<not> list_ex (is_array_column indexSchema) allColumns then Some (Inr q)
          else do { grouping \<leftarrow> checkIfGroupingByArrayColumn indexSchema (q_SelectCommand q);
                    if grouping then rewrite_query (column_visitor (join_array_column indexSchema)) q
                    else map_option (\<lambda>(q', _). Inr q') (run_visitor (array_type_visitor indexSchema) False q) } }"

section \<open>Maps\<close>

datatype searchScope = scopeWholeMap | scopeKeys | scopeValues

definition map_suffixes :: "string list" where
  "map_suffixes = [''.keyword'', ''.text'', ''.keys'', ''.values'']"

definition strip_map_suffixes :: "string \<Rightarrow> string \<times> string" where
  "strip_map_suffixes fieldName =
     foldl (\<lambda>(name, result) suff. if has_suffix name suff then (trim_suffix name suff, suff) else (name, result))
       (fieldName, []) map_suffixes"

definition isMap :: "schema \<Rightarrow> string \<Rightarrow> bool \<times> searchScope \<times> string" where
  "isMap indexSchema fieldName =
     (let (name, resultSuffix) = strip_map_suffixes fieldName;
          scope = (if resultSuffix = ''.keys'' then scopeKeys
                   else if resultSuffix = ''.values'' then scopeValues else scopeWholeMap)
      in case ResolveField indexSchema name of
           None \<Rightarrow> (False, scope, name)
         | Some field \<Rightarrow>
             (case map_of (Fields indexSchema) (InternalPropertyName field) of
                Some col \<Rightarrow>
                  if has_prefix (InternalPropertyType col) ''Map''
                  then (True, scope, InternalPropertyName field) else (False, scope, name)
              | None \<Rightarrow> (False, scope, name)))"

definition existsInMap :: "expr \<Rightarrow> string \<Rightarrow> string \<Rightarrow> expr \<Rightarrow> expr" where
  "existsInMap left op mapToArrayFunction right =
     FunctionExpr ''arrayExists'' [exists_lambda op right, FunctionExpr mapToArrayFunction [left]]"

text \<open>The comparison of a map, given both operands visited; \<open>None\<close> where the code has no case.\<close>

definition map_comparison :: "searchScope \<Rightarrow> expr \<Rightarrow> string \<Rightarrow> expr \<Rightarrow> expr option" where
  "map_comparison scope left op right =
     (let like = (op = ''ILIKE'' \<or> op = ''LIKE'')
      in if like \<and> scope = scopeWholeMap
         then Some (InfixExpr (existsInMap left op ''mapKeys'' right) ''OR'' (existsInMap left op ''mapValues'' right))
         else if op = ''='' \<and> (scope = scopeWholeMap \<or> scope = scopeKeys)
         then Some (FunctionExpr ''mapContains'' [left, right])
         else if like \<and> scope = scopeKeys then Some (existsInMap left op ''mapKeys'' right)
         else if like \<and> scope = scopeValues then Some (existsInMap left op ''mapValues'' right)
         else if op = ''='' \<and> scope = scopeValues
         then Some (FunctionExpr ''has'' [FunctionExpr ''keyValues'' [left], right])
         else None)"

definition map_infix :: "schema \<Rightarrow> 's walk \<Rightarrow> expr \<Rightarrow> string \<Rightarrow> expr \<Rightarrow> 's \<Rightarrow> (expr \<times> 's) option" where
  "map_infix indexSchema w l op r s =
     (case as_ColumnRef l of
        Some column \<Rightarrow>
          (case isMap indexSchema (ColumnName column) of
             (ok, scope, _) \<Rightarrow>
               if \<not> ok then visit_operands w l op r s
               else do { (left, s1) \<leftarrow> visit_as as_Expr w l s;
                         if map_comparison scope left (to_upper op) r \<noteq> None
                         then do { (right, s2) \<leftarrow> visit_as as_Expr w r s1;
                                   e \<leftarrow> map_comparison scope left (to_upper op) right; Some (e, s2) }
                         else visit_operands w l op r s1 })
      | None \<Rightarrow> visit_operands w l op r s)"

definition real_column :: "schema \<Rightarrow> column_ref \<Rightarrow> expr" where
  "real_column indexSchema c =
     (case isMap indexSchema (ColumnName c) of
        (ok, _, realName) \<Rightarrow> if ok then column_named realName else ColumnRef c)"

definition map_visitor :: "schema \<Rightarrow> unit base_visitor" where
  "map_visitor indexSchema =
     NewBaseVisitor
       \<lparr>OverrideVisitColumnRef := Some (\<lambda>w c s. Some (real_column indexSchema c, s)),
        OverrideVisitInfix := Some (map_infix indexSchema)\<rparr>"

definition applyMapTransformations :: "('sa, 'z) schema_query_scheme schema_pass" where
  "applyMapTransformations indexSchema q =
     do { columns \<leftarrow> opt_mapM GetUsedColumns (Columns (q_SelectCommand q));
          filtered \<leftarrow> (if WhereClause (q_SelectCommand q) \<noteq> NilExpr
                       then GetUsedColumns (WhereClause (q_SelectCommand q)) else Some []);
          if \<not> list_ex (\<lambda>col. fst (isMap indexSchema (ColumnName col))) (concat columns @ filtered) then Some (Inr q)
          else rewrite_query (map_visitor indexSchema) q }"

end
