(* ===== verification/Go_Float.thy ===== *)
theory Go_Float
  imports Go_Time
begin

text \<open>
  Go's \<open>float64\<close> as far as the sources read and print it: \<open>strconv.ParseFloat\<close> on decimal and
  hexadecimal texts, rounded to the nearest double, and the shortest decimal \<open>%v\<close> prints.
  The definitions compute on integers, so that concrete texts evaluate.
\<close>

section \<open>Double-precision numbers\<close>

text \<open>
  A \<open>float64\<close>: \<open>Finite neg m e\<close> is \<open>m * 2 ^ e\<close>, negated when \<open>neg\<close> holds, with
  \<open>0 \<le> m < 2 ^ 53\<close> and \<open>-1074 \<le> e\<close>; \<open>m\<close> is at least \<open>2 ^ 52\<close> unless \<open>e\<close> is \<open>-1074\<close>.
\<close>

datatype float64 = NaN | Inf bool | Finite bool int int

function len_base :: "int \<Rightarrow> int \<Rightarrow> int" where
  "len_base b n = (if b < 2 \<or> n < b then 1 else 1 + len_base b (n div b))"
  by pat_completeness auto
termination
  by (relation "measure (\<lambda>(b, n). nat n)") (auto simp: nat_less_iff[symmetric] intro!: int_div_less_self)

declare len_base.simps [simp del]

text \<open>The power \<open>b ^ k\<close> of a possibly negative exponent, as numerator and denominator.\<close>

definition scale :: "int \<Rightarrow> int \<Rightarrow> int \<times> int" where
  "scale b k = (if 0 \<le> k then (b ^ nat k, 1) else (1, b ^ nat (- k)))"

definition times_power :: "int \<Rightarrow> int \<Rightarrow> int \<times> int \<Rightarrow> int \<times> int" where
  "times_power b k q = (fst q * fst (scale b k), snd q * snd (scale b k))"

text \<open>The nearest integer to a fraction, the even one of two equally near.\<close>

definition round_half_even :: "int \<Rightarrow> int \<Rightarrow> int" where
  "round_half_even n d =
     (let q = n div d; r = n mod d
      in if 2 * r > d \<or> (2 * r = d \<and> odd q) then q + 1 else q)"

text \<open>The nearest \<open>float64\<close> of a positive fraction; \<open>None\<close> when it is out of range.\<close>

definition nearest_float :: "bool \<Rightarrow> int \<times> int \<Rightarrow> float64 option" where
  "nearest_float neg q =
     (let k = len_base 2 (fst q) - len_base 2 (snd q);
          below = times_power 2 (- k) q;
          e = max (-1074) (if fst below < snd below then k - 53 else k - 52);
          f = times_power 2 (- e) q;
          m = round_half_even (fst f) (snd f);
          (m, e) = (if m = 2 ^ 53 then (2 ^ 52, e + 1) else (m, e))
      in if e > 971 then None else Some (Finite neg m e))"

definition to_float :: "bool \<Rightarrow> int \<times> int \<Rightarrow> float64 option" where
  "to_float neg q = (if fst q = 0 then Some (Finite neg 0 (-1074)) else nearest_float neg q)"

subsection \<open>\<open>strconv.ParseFloat\<close>\<close>

definition decimal_digit :: "char \<Rightarrow> int option" where
  "decimal_digit c = (if digit c then Some (of_char c - 48) else None)"

definition hexadecimal_digit :: "char \<Rightarrow> int option" where
  "hexadecimal_digit c =
     (if digit c then Some (of_char c - 48)
      else if lower_char c \<in> set ''abcdef'' then Some (of_char (lower_char c) - 87) else None)"

text \<open>
  The digits and at most one point at the front of a text: their value, the number of digits
  after the point, whether there was a digit, and what follows.
\<close>

fun read_mantissa ::
  "(char \<Rightarrow> int option) \<Rightarrow> int \<Rightarrow> int \<Rightarrow> int \<Rightarrow> bool \<Rightarrow> bool \<Rightarrow> string \<Rightarrow> int \<times> int \<times> bool \<times> string" where
  "read_mantissa dv b m k dot any [] = (m, k, any, [])"
| "read_mantissa dv b m k dot any (c # s) =
     (if c = CHR ''.'' then
        (if dot then (m, k, any, c # s) else read_mantissa dv b m k True any s)
      else (case dv c of
              Some d \<Rightarrow> read_mantissa dv b (b * m + d) (if dot then k + 1 else k) dot True s
            | None \<Rightarrow> (m, k, any, c # s)))"

definition exponent_value :: "string \<Rightarrow> int" where
  "exponent_value ds =
     foldl (\<lambda>e c. if e < 10000 then 10 * e + int (digit_value c) else e) 0 ds"

text \<open>The exponent that must be all of the rest of the text.\<close>

definition read_exponent :: "char \<Rightarrow> string \<Rightarrow> int option" where
  "read_exponent expChar s =
     (case s of
        [] \<Rightarrow> if expChar = CHR ''e'' then Some 0 else None
      | c # t \<Rightarrow>
          if lower_char c \<noteq> expChar then None
          else (case t of
                  [] \<Rightarrow> None
                | d # ds \<Rightarrow>
                    if d = CHR ''-'' then (if all_digits ds then Some (- exponent_value ds) else None)
                    else if d = CHR ''+'' then (if all_digits ds then Some (exponent_value ds) else None)
                    else if all_digits t then Some (exponent_value t) else None))"

definition split_sign :: "string \<Rightarrow> bool \<times> string" where
  "split_sign s =
     (case s of
        [] \<Rightarrow> (False, [])
      | c # t \<Rightarrow> if c = CHR ''-'' then (True, t) else if c = CHR ''+'' then (False, t) else (False, s))"

definition read_number :: "bool \<Rightarrow> (char \<Rightarrow> int option) \<Rightarrow> int \<Rightarrow> int \<Rightarrow> int \<Rightarrow> char \<Rightarrow> string \<Rightarrow> float64 option" where
  "read_number neg dv b eb perDigit expChar s =
     (let (m, k, any, rest) = read_mantissa dv b 0 0 False False s
      in if \<not> any then None
         else do { e \<leftarrow> read_exponent expChar rest;
                   to_float neg (times_power eb (e - perDigit * k) (m, 1)) })"

text \<open>\<open>None\<close> is an error, of syntax or of range.  Texts have no underscore.\<close>

definition ParseFloat :: "string \<Rightarrow> float64 option" where
  "ParseFloat s =
     (let (neg, t) = split_sign s
      in if to_lower s = ''nan'' then Some NaN
         else if to_lower t = ''inf'' \<or> to_lower t = ''infinity'' then Some (Inf neg)
         else if has_prefix (to_lower t) ''0x'' \<and> 2 < length t
         then read_number neg hexadecimal_digit 16 2 4 (CHR ''p'') (drop 2 t)
         else read_number neg decimal_digit 10 10 1 (CHR ''e'') t)"

subsection \<open>Printing with \<open>%v\<close>\<close>

text \<open>
  The shortest decimal that reads back as the number: its digits as an integer, how many they
  are, and the decimal exponent of the point before the first of them.
\<close>

definition float_fraction :: "int \<Rightarrow> int \<Rightarrow> int \<times> int" where
  "float_fraction m e = times_power 2 e (m, 1)"

definition point_of :: "int \<times> int \<Rightarrow> int" where
  "point_of q =
     (let k = len_base 10 (fst q) - len_base 10 (snd q);
          below = times_power 10 (- k) q
      in if fst below < snd below then k else k + 1)"

definition short_digits :: "int \<Rightarrow> int \<Rightarrow> int \<Rightarrow> int \<Rightarrow> int option" where
  "short_digits m e dp n =
     (let f = times_power 10 (n - dp) (float_fraction m e);
          down = fst f div snd f;
          reads = (\<lambda>d. to_float False (times_power 10 (dp - n) (d, 1)) = Some (Finite False m e))
      in if reads down \<and> reads (down + 1) then Some (round_half_even (fst f) (snd f))
         else if reads down then Some down
         else if reads (down + 1) then Some (down + 1)
         else None)"

fun shortest_from :: "int \<Rightarrow> int \<Rightarrow> int \<Rightarrow> int list \<Rightarrow> int \<times> int" where
  "shortest_from m e dp [] = (0, 1)"
| "shortest_from m e dp (n # ns) =
     (case short_digits m e dp n of
        Some d \<Rightarrow> if d = 10 ^ nat n then (1, dp + 1) else (d, dp)
      | None \<Rightarrow> shortest_from m e dp ns)"

definition shortest :: "int \<Rightarrow> int \<Rightarrow> int \<times> int" where
  "shortest m e = (if m = 0 then (0, 1) else shortest_from m e (point_of (float_fraction m e)) [1..17])"

definition trim_zeros :: "string \<Rightarrow> string" where
  "trim_zeros s = rev (dropWhile ((=) (CHR ''0'')) (rev s))"

definition print_exponent :: "int \<Rightarrow> string" where
  "print_exponent x =
     (if x < 0 then ''-'' else ''+'') @ (if \<bar>x\<bar> < 10 then ''0'' else []) @ itoa \<bar>x\<bar>"

definition layout_e :: "string \<Rightarrow> int \<Rightarrow> string" where
  "layout_e ds dp =
     take 1 ds @ (if length ds > 1 then ''.'' @ drop 1 ds else []) @ ''e'' @ print_exponent (dp - 1)"

definition layout_f :: "string \<Rightarrow> int \<Rightarrow> string" where
  "layout_f ds dp =
     (if dp \<le> 0 then ''0.'' @ replicate (nat (- dp)) (CHR ''0'') @ ds
      else take (nat dp) ds @ replicate (nat dp - length ds) (CHR ''0'') @
           (if length ds > nat dp then ''.'' @ drop (nat dp) ds else []))"

definition print_float :: "float64 \<Rightarrow> string" where
  "print_float f =
     (case f of
        NaN \<Rightarrow> ''NaN''
      | Inf neg \<Rightarrow> (if neg then ''-Inf'' else ''+Inf'')
      | Finite neg m e \<Rightarrow>
          (let (d, dp) = shortest m e;
               ds = (if d = 0 then ''0'' else trim_zeros (itoa d))
           in (if neg then ''-'' else []) @
              (if m \<noteq> 0 \<and> (dp - 1 < -4 \<or> 6 \<le> dp - 1) then layout_e ds dp
               else layout_f ds dp)))"

section \<open>Evaluation\<close>

lemma parse_one_million: "ParseFloat ''1000000'' = Some (Finite False 8589934592000000 (-33))"
  by code_simp

lemma shortest_one_million: "shortest 8589934592000000 (-33) = (1, 7)"
  by code_simp

lemma print_one_million: "print_float (Finite False 8589934592000000 (-33)) = ''1e+06''"
  by (simp add: print_float_def shortest_one_million layout_e_def print_exponent_def itoa_def
      nat_digits.simps trim_zeros_def digit_char_def char_of_def bit_0)

end
