(* ===== verification/Search_After.thy ===== *)
theory Search_After
  imports Schema_Passes Go_Float
begin

text \<open>
  Pagination by \<open>search_after\<close>, \<open>frontend_connectors/schema_search_after_transformer.go\<close>: the
  values the last page ended with become a condition on the rows that follow.
\<close>

section \<open>Strategies\<close>

text \<open>The JSON value of \<open>search_after\<close>; the elements of an array are floats or other values.\<close>

datatype search_value = SearchFloat float64 | SearchValue any_value

datatype search_after = SearchAfterEmpty | SearchAfterArray "search_value list" | SearchAfterOther

datatype searchAfterStrategy = BasicAndFast | Bulletproof | JustDiscardTheParameter

text \<open>The constants \<open>basicAndFast\<close>, \<open>bulletproof\<close> and \<open>justDiscardTheParameter\<close> are 0, 1 and 2.\<close>

definition searchAfterStrategyFactory :: "int \<Rightarrow> searchAfterStrategy" where
  "searchAfterStrategyFactory strategy =
     (if strategy = 1 then Bulletproof
      else if strategy = 2 then JustDiscardTheParameter
      else BasicAndFast)"

section \<open>Numbers\<close>

text \<open>\<open>util.ExtractNumeric64Maybe\<close>.\<close>

definition float_of_int :: "int \<Rightarrow> float64" where
  "float_of_int n = (case to_float (n < 0) (\<bar>n\<bar>, 1) of Some f \<Rightarrow> f | None \<Rightarrow> Inf (n < 0))"

definition ExtractNumeric64Maybe :: "search_value \<Rightarrow> float64 option" where
  "ExtractNumeric64Maybe v =
     (case v of
        SearchFloat f \<Rightarrow> Some f
      | SearchValue x \<Rightarrow> map_option float_of_int (ExtractInt64Maybe x))"

text \<open>
  The integer a float stands for, if it is one that is not negative and at most
  \<open>float64(math.MaxInt64)\<close>, that is \<open>2 ^ 63\<close>; the conversion of \<open>2 ^ 63\<close> itself wraps.
\<close>

definition natural_of_float :: "float64 \<Rightarrow> int option" where
  "natural_of_float f =
     (case f of
        Finite neg m e \<Rightarrow>
          if neg \<and> m \<noteq> 0 then None
          else if e < 0 \<and> m mod 2 ^ nat (- e) \<noteq> 0 then None
          else (let n = (if e < 0 then m div 2 ^ nat (- e) else m * 2 ^ nat e)
                in if n \<le> 2 ^ 63 then Some (wrap64 n) else None)
      | _ \<Rightarrow> None)"

section \<open>Validation\<close>

definition search_literal :: "search_value \<Rightarrow> expr" where
  "search_literal v =
     LiteralExpr (NewLiteral
       (case v of
          SearchFloat f \<Rightarrow> VOther (print_float f)
        | SearchValue (VString s) \<Rightarrow> VString (SingleQuote s)
        | SearchValue x \<Rightarrow> x))"

text \<open>One element of \<open>search_after\<close> against the sort field it belongs to.\<close>

definition parse_search_value :: "schema \<Rightarrow> order_by_expr \<Rightarrow> search_value \<Rightarrow> schema_error + expr" where
  "parse_search_value indexSchema ob v =
     (case ob_Expr ob of
        ColumnRef column \<Rightarrow>
          (case ResolveField indexSchema (ColumnName column) of
             None \<Rightarrow> Inl (FieldNotResolved (ColumnName column))
           | Some field \<Rightarrow>
               if type_Name (fieldType field) = ''date'' \<or> type_Name (fieldType field) = ''timestamp'' then
                 (case ExtractNumeric64Maybe v of
                    None \<Rightarrow> Inl SearchAfterNotNumber
                  | Some number \<Rightarrow>
                      (case natural_of_float number of
                         Some n \<Rightarrow> Inr (FunctionExpr ''fromUnixTimestamp64Milli'' [LiteralExpr (NewLiteral (VInt KInt64 n))])
                       | None \<Rightarrow> Inl SearchAfterNotMilliseconds))
               else Inr (search_literal v))
      | _ \<Rightarrow> Inl OrderByNotColumn)"

fun parse_search_values :: "schema \<Rightarrow> order_by_expr list \<Rightarrow> search_value list \<Rightarrow> schema_error + expr list" where
  "parse_search_values indexSchema (ob # obs) (v # vs) =
     (case parse_search_value indexSchema ob v of
        Inl err \<Rightarrow> Inl err
      | Inr e \<Rightarrow> map_sum id (Cons e) (parse_search_values indexSchema obs vs))"
| "parse_search_values indexSchema _ _ = Inr []"

text \<open>\<open>Inr None\<close> is a nil slice without an error.\<close>

definition validateAndParse ::
  "searchAfterStrategy \<Rightarrow> search_after \<Rightarrow> schema \<Rightarrow> order_by_expr list \<Rightarrow> schema_error + expr list option" where
  "validateAndParse strategy searchAfter indexSchema orderBy =
     (case strategy of
        JustDiscardTheParameter \<Rightarrow> Inr None
      | _ \<Rightarrow>
          (case searchAfter of
             SearchAfterEmpty \<Rightarrow> Inr None
           | SearchAfterOther \<Rightarrow> Inl SearchAfterNotArray
           | SearchAfterArray asArray \<Rightarrow>
               if length asArray \<noteq> length orderBy then Inl SearchAfterLength
               else if strategy = Bulletproof then Inr None
               else map_sum id Some (parse_search_values indexSchema orderBy asArray)))"

section \<open>Transformation\<close>

text \<open>The two sides of a sort field: a field in ascending order is swapped with its value.\<close>

definition sides :: "order_by_expr \<Rightarrow> expr \<Rightarrow> expr \<times> expr" where
  "sides ob v = (if ob_Direction ob = AscOrder then (ob_Expr ob, v) else (v, ob_Expr ob))"

definition search_after_condition :: "order_by_expr list \<Rightarrow> expr list \<Rightarrow> expr" where
  "search_after_condition orderBy searchAfterParsed =
     (let ss = map2 sides orderBy searchAfterParsed
      in InfixExpr (TupleExpr (map fst ss)) ''>'' (TupleExpr (map snd ss)))"

definition with_where :: "expr \<Rightarrow> select_command \<Rightarrow> select_command" where
  "with_where whereClause q =
     NewSelectCommand (Columns q) (GroupBy q) (OrderBy q) (FromClause q) whereClause (LimitBy q) (Limit q)
       (SampleLimit q) (IsDistinct q) (NamedCTEs q)"

definition strategy_transform :: "searchAfterStrategy \<Rightarrow> select_command \<Rightarrow> expr list \<Rightarrow> select_command" where
  "strategy_transform strategy q searchAfterParsed =
     (case strategy of
        BasicAndFast \<Rightarrow>
          with_where (And [WhereClause q, search_after_condition (OrderBy q) searchAfterParsed]) q
      | _ \<Rightarrow> q)"

definition applySearchAfterParameter ::
  "searchAfterStrategy \<Rightarrow> (search_after, 'z) schema_query_scheme schema_pass" where
  "applySearchAfterParameter strategy indexSchema q =
     Some (case validateAndParse strategy (q_SearchAfter q) indexSchema (OrderBy (q_SelectCommand q)) of
        Inl err \<Rightarrow> Inl err
      | Inr None \<Rightarrow> Inr q
      | Inr (Some parsed) \<Rightarrow> Inr (q\<lparr>q_SelectCommand := strategy_transform strategy (q_SelectCommand q) parsed\<rparr>))"

end
