(* ===== verification/Schema_Visitors.thy ===== *)
theory Schema_Visitors
  imports Schema_Passes
begin

text \<open>
  The functions that the visitors of the schema passes compute: each visitor is an interpretation
  of the contract of \<open>Rewriting\<close>.
\<close>

section \<open>What the visitors compute\<close>

lemma accept_rebuild:
  assumes "\<And>w. override_of v w e = None"
    and "visit_default (accept v) e s = Some (e', s)"
  shows "accept v e s = Some (keep e e', s)"
  using assms by (simp add: accept_no_override keep_def)

text \<open>Columns replaced by \<open>h\<close>.\<close>

fun replace_column :: "(column_ref \<Rightarrow> expr) \<Rightarrow> expr \<Rightarrow> expr option" where
  "replace_column h (ColumnRef c) = Some (h c)"
| "replace_column h e = None"

fun column_ok :: "(column_ref \<Rightarrow> expr) \<Rightarrow> expr \<Rightarrow> bool" where
  "column_ok h (ColumnRef c) = (h c \<noteq> NilExpr)"
| "column_ok h (ArrayAccess c i) = is_ColumnRef (h c)"
| "column_ok h e = True"

lemma rewrite_literal: "r (LiteralExpr p) = None \<Longrightarrow> rewrite r k (LiteralExpr p) = k (LiteralExpr p) (LiteralExpr p)"
  by (simp add: rewrite.simps [of r k "LiteralExpr p"])

interpretation column_rewriting:
  rewriting_visitor "column_visitor h" "()" "replace_column h" keep "column_ok h" for h
proof unfold_locales
  fix e e'
  assume "replace_column h e = Some e'" and "rewritable (replace_column h) (column_ok h) e"
  then show "e' \<noteq> NilExpr \<and> accept (column_visitor h) e () = Some (e', ())"
    by (cases e) (auto dest!: rewritable_node simp: accept_eq column_visitor_def NewBaseVisitor_def)
next
  fix e
  assume e: "replace_column h e = None"
    "visit_default (accept (column_visitor h)) e () = Some (map_children (rewrite (replace_column h) keep) e, ())"
  then show "accept (column_visitor h) e () = Some (keep e (map_children (rewrite (replace_column h) keep) e), ())"
    by (intro accept_rebuild) (cases e; simp add: column_visitor_def NewBaseVisitor_def)
qed (simp_all add: keep_def rewrite.simps [of _ keep "ColumnRef _"] rewrite_literal)


lemma bounded_walk:
  "visit_default (\<lambda>e' s'. if size e' < size e then accept v e' s' else None) e s = visit_default (accept v) e s"
  by (rule visit_default_cong) (simp add: size_children)

lemma visit_operands_default:
  "visit_default w (InfixExpr l op r) s = Some x \<Longrightarrow> visit_operands w l op r s = Some x"
  by (auto simp: visit_operands_def visit_as_def split: Option.bind_splits)

lemma visit_call_default: "visit_call w name args s = visit_default w (FunctionExpr name args) s"
  by (auto simp: visit_call_def split: Option.bind_splits)

text \<open>What an override computes from what the default would have.\<close>

lemma accept_override:
  assumes "\<And>w. override_of v w e = Some (\<lambda>s. f w s)"
    and "visit_default (accept v) e s = Some (e', s)"
    and "\<And>w. visit_default w e s = Some (e', s) \<Longrightarrow> f w s = Some (k e e', s)"
  shows "accept v e s = Some (k e e', s)"
  using assms by (simp add: accept_eq bounded_walk)

lemma st_mapM_post:
  "st_mapM (\<lambda>e s. map_option (\<lambda>(x, s'). (f e x, s')) (g e s)) es s =
   map_option (\<lambda>(xs, s'). (map2 f es xs, s')) (st_mapM g es s)"
proof (induction es arbitrary: s)
  case (Cons e es)
  then show ?case by (cases "g e s") (auto split: Option.bind_splits)
qed simp

definition finish_columns :: "(expr \<Rightarrow> expr \<Rightarrow> expr) \<Rightarrow> expr \<Rightarrow> expr \<Rightarrow> expr" where
  "finish_columns f e e' =
     (case (e, e') of
        (SelectE q, SelectE q') \<Rightarrow> SelectE (with_columns (map2 f (Columns q) (Columns q')) q')
      | _ \<Rightarrow> e')"

lemma finish_columns_other [simp]: "\<not> is_SelectE e \<Longrightarrow> finish_columns f e e' = e'"
  by (cases e) (simp_all add: finish_columns_def split: expr.split)

lemma finish_columns_SelectE: "is_SelectE e' \<Longrightarrow> is_SelectE (finish_columns f (SelectE q) e')"
  by (cases e') (simp_all add: finish_columns_def)

lemma finish_columns_not_Nil: "e' \<noteq> NilExpr \<Longrightarrow> finish_columns f e e' \<noteq> NilExpr"
  by (auto simp: finish_columns_def split: expr.splits)

lemma visit_select_columns_default:
  assumes "visit_default w (SelectE q) s = Some (e', s')"
  shows "visit_select_columns (\<lambda>w e s. map_option (\<lambda>(x, s'). (f e x, s')) (visit_as as_Expr w e s)) w q s =
    Some (finish_columns f (SelectE q) e', s')"
proof -
  have "st_mapM (\<lambda>e s. map_option (\<lambda>(x, s'). (f e x, s')) (visit_as as_Expr w e s)) (Columns q) s =
      map_option (\<lambda>(xs, s'). (map2 f (Columns q) xs, s')) (visit_list w (Columns q) s)"
    unfolding visit_list_def by (rule st_mapM_post)
  then show ?thesis
    using assms
    by (auto simp: visit_select_columns_def finish_columns_def with_columns_def NewSelectCommand_def
        split: Option.bind_splits)
qed

subsection \<open>Boolean literals\<close>

fun replace_boolean :: "expr \<Rightarrow> expr option" where
  "replace_boolean (LiteralExpr l) = Some (LiteralExpr (lower_boolean l))"
| "replace_boolean e = None"

interpretation boolean_rewriting:
  rewriting_visitor boolean_visitor "()" replace_boolean keep "\<lambda>_. True"
proof unfold_locales
  fix e e'
  assume "replace_boolean e = Some e'"
  then show "e' \<noteq> NilExpr \<and> accept boolean_visitor e () = Some (e', ())"
    by (cases e) (auto simp: accept_eq boolean_visitor_def NewBaseVisitor_def)
next
  fix e
  assume "replace_boolean e = None"
    "visit_default (accept boolean_visitor) e () = Some (map_children (rewrite replace_boolean keep) e, ())"
  then show "accept boolean_visitor e () = Some (keep e (map_children (rewrite replace_boolean keep) e), ())"
    by (intro accept_rebuild) (cases e; simp add: boolean_visitor_def NewBaseVisitor_def)
qed (simp_all add: keep_def rewrite.simps [of _ keep "ColumnRef _"] rewrite.simps [of _ keep "LiteralExpr _"])

subsection \<open>Matches\<close>

definition replace_match :: "schema \<Rightarrow> expr \<Rightarrow> expr option" where
  "replace_match sch e =
     (case e of
        InfixExpr l op r \<Rightarrow>
          (case (as_ColumnRef l, as_LiteralExpr r) of
             (Some lhs, Some rhs) \<Rightarrow>
               if op = MatchOperator
               then (case Value rhs of VString text \<Rightarrow> Some (match_comparison sch lhs text) | _ \<Rightarrow> None)
               else None
           | _ \<Rightarrow> None)
      | _ \<Rightarrow> None)"

definition match_ok :: "expr \<Rightarrow> bool" where
  "match_ok e \<longleftrightarrow>
     (case e of
        InfixExpr l op r \<Rightarrow>
          (case (as_ColumnRef l, as_LiteralExpr r) of
             (Some lhs, Some rhs) \<Rightarrow>
               (case Value rhs of VString text \<Rightarrow> True | _ \<Rightarrow> op \<noteq> MatchOperator)
           | _ \<Rightarrow> True)
      | _ \<Rightarrow> True)"

lemma accept_match_infix:
  assumes "replace_match sch (InfixExpr l op r) = None" "match_ok (InfixExpr l op r)"
    and "visit_default (accept (match_visitor sch)) (InfixExpr l op r) () = Some (e', ())"
  shows "accept (match_visitor sch) (InfixExpr l op r) () = Some (keep (InfixExpr l op r) e', ())"
proof (rule accept_override [OF _ assms(3)])
  fix w :: "unit walk"
  assume "visit_default w (InfixExpr l op r) () = Some (e', ())"
  then have "visit_operands w l op r () = Some (e', ())" by (rule visit_operands_default)
  then show "(case (as_ColumnRef l, as_LiteralExpr r) of
          (Some lhs, Some rhs) \<Rightarrow>
            if op = MatchOperator
            then (case Value rhs of VString text \<Rightarrow> Some (match_comparison sch lhs text, ()) | _ \<Rightarrow> None)
            else visit_operands w l op r ()
        | _ \<Rightarrow> visit_operands w l op r ()) = Some (keep (InfixExpr l op r) e', ())"
    using assms(1,2)
    by (auto simp: keep_def replace_match_def match_ok_def split: option.splits if_splits any_value.splits)
qed (simp add: match_visitor_def NewBaseVisitor_def)

interpretation match_rewriting:
  rewriting_visitor "match_visitor sch" "()" "replace_match sch" keep match_ok for sch
proof unfold_locales
  fix e e'
  assume "replace_match sch e = Some e'"
  then show "e' \<noteq> NilExpr \<and> accept (match_visitor sch) e () = Some (e', ())"
    by (cases e)
      (auto simp: replace_match_def accept_eq match_visitor_def NewBaseVisitor_def match_comparison_def Let_def
        split: if_splits any_value.splits option.splits)
next
  fix e
  assume e: "replace_match sch e = None" "rewritable (replace_match sch) match_ok e"
    "visit_default (accept (match_visitor sch)) e () = Some (map_children (rewrite (replace_match sch) keep) e, ())"
  show "accept (match_visitor sch) e () = Some (keep e (map_children (rewrite (replace_match sch) keep) e), ())"
  proof (cases "\<exists>l op r. e = InfixExpr l op r")
    case True
    then show ?thesis using e accept_match_infix rewritable_node [OF e(2)] by blast
  next
    case False
    with e(3) show ?thesis
      by (intro accept_rebuild) (cases e; simp add: match_visitor_def NewBaseVisitor_def)
  qed
qed (simp_all add: keep_def replace_match_def rewrite.simps [of _ keep "ColumnRef _"] rewrite.simps [of _ keep "LiteralExpr _"])

subsection \<open>Field encoding\<close>

definition encoded :: "schema \<Rightarrow> bool \<Rightarrow> expr \<Rightarrow> expr" where
  "encoded sch attrs = rewrite (replace_column (encode_column sch attrs)) (finish_columns alias_unresolved)"

lemma encode_column_not_Nil: "encode_column sch attrs c \<noteq> NilExpr"
  by (simp add: encode_column_def split: option.split)

text \<open>Elements of arrays are columns that are found.\<close>

fun encoding_ok :: "schema \<Rightarrow> bool \<Rightarrow> expr \<Rightarrow> bool" where
  "encoding_ok sch attrs (ArrayAccess c i) = is_ColumnRef (encode_column sch attrs c)"
| "encoding_ok sch attrs e = True"

lemma accept_encoding_select:
  assumes "visit_default (accept (encoding_visitor sch attrs)) (SelectE q) () = Some (e', ())"
  shows "accept (encoding_visitor sch attrs) (SelectE q) () =
    Some (finish_columns alias_unresolved (SelectE q) e', ())"
  by (rule accept_override [where f = "\<lambda>w. visit_select_columns (\<lambda>w e s.
        map_option (\<lambda>(col, s'). (alias_unresolved e col, s')) (visit_as as_Expr w e s)) w q", OF _ assms])
    (simp add: encoding_visitor_def NewBaseVisitor_def, rule visit_select_columns_default)

interpretation encoding_rewriting:
  rewriting_visitor "encoding_visitor sch attrs" "()" "replace_column (encode_column sch attrs)"
    "finish_columns alias_unresolved" "encoding_ok sch attrs" for sch attrs
proof unfold_locales
  fix e e'
  assume "replace_column (encode_column sch attrs) e = Some e'"
  then show "e' \<noteq> NilExpr \<and> accept (encoding_visitor sch attrs) e () = Some (e', ())"
    by (cases e) (auto simp: accept_eq encoding_visitor_def NewBaseVisitor_def encode_column_not_Nil)
next
  fix e
  let ?e' = "map_children (rewrite (replace_column (encode_column sch attrs)) (finish_columns alias_unresolved)) e"
  assume e: "replace_column (encode_column sch attrs) e = None"
    "visit_default (accept (encoding_visitor sch attrs)) e () = Some (?e', ())"
  show "accept (encoding_visitor sch attrs) e () = Some (finish_columns alias_unresolved e ?e', ())"
  proof (cases "is_SelectE e")
    case True
    then show ?thesis using e accept_encoding_select by (cases e) auto
  next
    case False
    then have "\<And>w. override_of (encoding_visitor sch attrs) w e = None"
      using e(1) by (cases e) (simp_all add: encoding_visitor_def NewBaseVisitor_def)
    then show ?thesis using e(2) False by (simp add: accept_no_override)
  qed
qed (simp_all add: finish_columns_SelectE finish_columns_not_Nil
    rewrite.simps [of _ _ "ColumnRef _"] rewrite.simps [of _ _ "LiteralExpr _"])

subsection \<open>The physical table\<close>

definition replace_physical :: "bool \<Rightarrow> table_ref \<Rightarrow> expr \<Rightarrow> expr option" where
  "replace_physical common physical e =
     (case e of
        TableRef t \<Rightarrow> Some (TableRef (if TableName t = SingleTableNamePlaceHolder then physical else t))
      | ColumnRef c \<Rightarrow> Some (ColumnRef (physical_column common c))
      | _ \<Rightarrow> None)"

text \<open>The SELECT that is left when its clauses have been visited.\<close>

definition filtered_where :: "bool \<Rightarrow> table_ref \<Rightarrow> expr \<Rightarrow> expr \<Rightarrow> expr \<Rightarrow> expr" where
  "filtered_where common physical indices from whr =
     (if common \<and> from = TableRef physical then (if whr = NilExpr then indices else And [whr, indices]) else whr)"

definition finish_physical :: "bool \<Rightarrow> table_ref \<Rightarrow> expr \<Rightarrow> expr \<Rightarrow> expr \<Rightarrow> expr" where
  "finish_physical common physical indices e e' =
     (case (e, e') of
        (SelectE q, SelectE q') \<Rightarrow>
          SelectE (NewSelectCommand (Columns q') (GroupBy q') (OrderBy q') (FromClause q')
            (filtered_where common physical indices (FromClause q') (WhereClause q')) (LimitBy q) (Limit q')
            (SampleLimit q') (IsDistinct q') (NamedCTEs q'))
      | _ \<Rightarrow> e')"

lemma finish_physical_other [simp]: "\<not> is_SelectE e \<Longrightarrow> finish_physical common physical indices e e' = e'"
  by (cases e) (simp_all add: finish_physical_def split: expr.split)

lemma finish_physical_SelectE: "is_SelectE e' \<Longrightarrow> is_SelectE (finish_physical common physical indices (SelectE q) e')"
  by (cases e') (simp_all add: finish_physical_def)

lemma finish_physical_not_Nil: "e' \<noteq> NilExpr \<Longrightarrow> finish_physical common physical indices e e' \<noteq> NilExpr"
  by (auto simp: finish_physical_def split: expr.splits)

lemma visit_clause_nil: "visit_clause w e s = Some (e', s') \<Longrightarrow> e' = NilExpr \<longleftrightarrow> e = NilExpr"
  by (auto simp: visit_clause_def visit_as_def as_Expr_def split: if_splits Option.bind_splits)

lemma physical_select_default:
  assumes "visit_default w (SelectE q) () = Some (e', ())"
  shows "physical_select common physical gs indexes w q () =
    Some (finish_physical common physical (indices_where gs indexes) (SelectE q) e', ())"
proof -
  obtain columns groupBy orderBy frm whr ctes limitBy where v:
      "visit_list w (Columns q) () = Some (columns, ())" "visit_list w (GroupBy q) () = Some (groupBy, ())"
      "visit_order_by w (OrderBy q) () = Some (orderBy, ())" "visit_clause w (FromClause q) () = Some (frm, ())"
      "visit_clause w (WhereClause q) () = Some (whr, ())" "visit_ctes w (NamedCTEs q) () = Some (ctes, ())"
      "e' = SelectE (NewSelectCommand columns groupBy orderBy frm whr limitBy (Limit q)
          (SampleLimit q) (IsDistinct q) ctes)"
    using assms by (auto split: Option.bind_splits)
  have whr: "whr = NilExpr \<longleftrightarrow> WhereClause q = NilExpr" using v(5) by (rule visit_clause_nil)
  have again: "visit_as as_Expr w (WhereClause q) () = Some (whr, ())" if "WhereClause q \<noteq> NilExpr"
    using that v(5) by (simp add: visit_clause_def)
  show ?thesis
    using v again whr
    by (auto simp: physical_select_def finish_physical_def NewSelectCommand_def filtered_where_def)
qed

text \<open>No SELECT stands in a LIMIT BY, which the pass does not visit.\<close>

fun limit_by_plain :: "expr \<Rightarrow> bool" where
  "limit_by_plain (SelectE q) = list_all (all_nodes (\<lambda>e. \<not> is_SelectE e)) (LimitBy q)"
| "limit_by_plain e = True"

interpretation physical_rewriting:
  rewriting_visitor "physical_visitor common physical gs indexes" "()" "replace_physical common physical"
    "finish_physical common physical (indices_where gs indexes)" limit_by_plain for common physical gs indexes
proof unfold_locales
  fix e e'
  assume "replace_physical common physical e = Some e'"
  then show "e' \<noteq> NilExpr \<and> accept (physical_visitor common physical gs indexes) e () = Some (e', ())"
    by (cases e) (auto simp: replace_physical_def accept_eq physical_visitor_def NewBaseVisitor_def)
next
  fix e
  let ?v = "physical_visitor common physical gs indexes"
  let ?k = "finish_physical common physical (indices_where gs indexes)"
  let ?e' = "map_children (rewrite (replace_physical common physical) ?k) e"
  assume e: "replace_physical common physical e = None" "visit_default (accept ?v) e () = Some (?e', ())"
  show "accept ?v e () = Some (?k e ?e', ())"
  proof (cases "is_SelectE e")
    case True
    then obtain q where q: "e = SelectE q" by (cases e) auto
    show ?thesis
      unfolding q
      by (rule accept_override [where f = "\<lambda>w s. physical_select common physical gs indexes w q s", OF _ e(2) [unfolded q]])
        (simp_all add: physical_visitor_def NewBaseVisitor_def physical_select_default)
  next
    case False
    then have "\<And>w. override_of ?v w e = None"
      using e(1) by (cases e) (simp_all add: replace_physical_def physical_visitor_def NewBaseVisitor_def)
    then show ?thesis using e(2) False by (simp add: accept_no_override)
  qed
qed (simp_all add: replace_physical_def finish_physical_SelectE finish_physical_not_Nil
    rewrite.simps [of _ _ "ColumnRef _"] rewrite.simps [of _ _ "LiteralExpr _"])

subsection \<open>Full text\<close>

definition replace_full_text :: "string list \<Rightarrow> expr \<Rightarrow> expr option" where
  "replace_full_text fs e =
     (case e of
        InfixExpr l op r \<Rightarrow>
          (case as_ColumnRef l of
             Some col \<Rightarrow> if ColumnName col = FullTextFieldNamePlaceHolder then full_text_comparison fs col op r else None
           | None \<Rightarrow> None)
      | _ \<Rightarrow> None)"

text \<open>The placeholder stands only on the left of a comparison.\<close>

definition full_text_ok :: "string list \<Rightarrow> expr \<Rightarrow> bool" where
  "full_text_ok fs e \<longleftrightarrow>
     (case e of
        ColumnRef c \<Rightarrow> ColumnName c \<noteq> FullTextFieldNamePlaceHolder
      | InfixExpr l op r \<Rightarrow>
          (case as_ColumnRef l of
             Some col \<Rightarrow> ColumnName col = FullTextFieldNamePlaceHolder \<longrightarrow> full_text_comparison fs col op r \<noteq> None
           | None \<Rightarrow> True)
      | _ \<Rightarrow> True)"

lemma full_text_comparison_not_Nil: "full_text_comparison fs col op r \<noteq> Some NilExpr"
proof (cases fs)
  case (Cons f fs')
  then have "Or (map (\<lambda>field. InfixExpr (ColumnRef (NewColumnRefWithTable field (TableAlias col))) op r) fs) \<noteq> NilExpr"
    by (simp add: Or_def combineStatements_cases foldl_Infix_not_Nil)
  then show ?thesis using Cons by (simp add: full_text_comparison_def)
qed (simp add: full_text_comparison_def)

lemma accept_full_text_infix:
  assumes "replace_full_text fs (InfixExpr l op r) = None" "full_text_ok fs (InfixExpr l op r)"
    and "visit_default (accept (full_text_visitor fs)) (InfixExpr l op r) s = Some (e', s)"
  shows "accept (full_text_visitor fs) (InfixExpr l op r) s = Some (keep (InfixExpr l op r) e', s)"
proof (rule accept_override [OF _ assms(3)])
  fix w :: "bool walk"
  assume "visit_default w (InfixExpr l op r) s = Some (e', s)"
  then have "visit_operands w l op r s = Some (e', s)" by (rule visit_operands_default)
  then show "(case as_ColumnRef l of
             Some col \<Rightarrow>
               if ColumnName col = FullTextFieldNamePlaceHolder
               then map_option (\<lambda>e. (e, s)) (full_text_comparison fs col op r)
               else visit_operands w l op r s
           | None \<Rightarrow> visit_operands w l op r s) = Some (keep (InfixExpr l op r) e', s)"
    using assms(1,2)
    by (auto simp: keep_def replace_full_text_def full_text_ok_def split: option.splits if_splits)
qed (simp add: full_text_visitor_def NewBaseVisitor_def)

interpretation full_text_rewriting:
  rewriting_visitor "full_text_visitor fs" False "replace_full_text fs" keep "full_text_ok fs" for fs
proof unfold_locales
  fix e e'
  assume e: "replace_full_text fs e = Some e'"
  then have "e' \<noteq> NilExpr"
    using full_text_comparison_not_Nil
    by (auto simp: replace_full_text_def split: expr.splits option.splits if_splits)
  moreover have "accept (full_text_visitor fs) e False = Some (e', False)"
    using e by (cases e) (auto simp: replace_full_text_def accept_eq full_text_visitor_def NewBaseVisitor_def
        split: option.splits if_splits)
  ultimately show "e' \<noteq> NilExpr \<and> accept (full_text_visitor fs) e False = Some (e', False)" by blast
next
  fix e
  let ?v = "full_text_visitor fs"
  let ?e' = "map_children (rewrite (replace_full_text fs) keep) e"
  assume e: "replace_full_text fs e = None" "rewritable (replace_full_text fs) (full_text_ok fs) e"
    "visit_default (accept ?v) e False = Some (?e', False)"
  show "accept ?v e False = Some (keep e ?e', False)"
  proof (cases e)
    case (InfixExpr l op r)
    then show ?thesis using e accept_full_text_infix rewritable_node [OF e(2)] by blast
  next
    case (ColumnRef c)
    then show ?thesis
      using rewritable_node [OF e(2)]
      by (simp add: full_text_ok_def accept_eq full_text_visitor_def NewBaseVisitor_def keep_def)
  qed (use e(3) in \<open>simp_all add: accept_eq bounded_walk full_text_visitor_def NewBaseVisitor_def keep_def\<close>)
qed (simp_all add: keep_def replace_full_text_def rewrite.simps [of _ keep "ColumnRef _"] rewrite.simps [of _ keep "LiteralExpr _"])

end
