(* ===== verification/Schema_Transform.thy ===== *)
theory Schema_Transform
  imports Schema_Arrays Search_After Schema_Visitors
begin

text \<open>
  \<open>SchemaCheckPass\<close> of \<open>frontend_connectors/schema_transformer.go\<close>: the chain of passes and what
  the passes achieve.
\<close>

section \<open>The chain\<close>

type_synonym 'z transformation = "string \<times> (search_after, 'z) schema_query_scheme schema_pass"

definition transformationChain ::
  "('y) pass_configuration_scheme \<Rightarrow> (string \<rightharpoonup> string list) \<Rightarrow> searchAfterStrategy \<Rightarrow> 'z transformation list" where
  "transformationChain cfg tables strategy =
     [(''PhysicalFromExpressionTransformation'', applyPhysicalFromExpression cfg),
      (''WildcardExpansion'', applyWildcardExpansion),
      (''RuntimeMappings'', applyRuntimeMappings),
      (''AliasColumnsTransformation'', applyAliasColumns),
      (''FieldEncodingTransformation'', applyFieldEncoding tables),
      (''FullTextFieldTransformation'', applyFullTextField),
      (''TimestampFieldTransformation'', applyTimestampField),
      (''ApplySearchAfterParameter'', applySearchAfterParameter strategy),
      (''QuesmaDateFunctions'', convertQueryDateTimeFunctionToClickhouse),
      (''IpTransformation'', applyIpTransformations),
      (''GeoTransformation'', applyGeoTransformations),
      (''ArrayTransformation'', applyArrayTransformations),
      (''MapTransformation'', applyMapTransformations),
      (''MatchOperatorTransformation'', applyMatchOperator),
      (''AggOverUnsupportedType'', checkAggOverUnsupportedType),
      (''BooleanLiteralTransformation'', applyBooleanLiteralLowering)]"

text \<open>With tracing the name of a pass that changed the text of the query is recorded.\<close>

definition apply_traced :: "bool \<Rightarrow> 'z transformation \<Rightarrow> (search_after, 'z) schema_query_scheme \<Rightarrow>
    (schema_error + (search_after, 'z) schema_query_scheme) option" where
  "apply_traced tracing t q =
     do { inputQuery \<leftarrow> (if tracing then render (SelectE (q_SelectCommand q)) else Some []);
          result \<leftarrow> snd t (q_Schema q) q;
          (case result of
             Inl err \<Rightarrow> Some (Inl err)
           | Inr q' \<Rightarrow>
               if tracing then
                 do { outputQuery \<leftarrow> render (SelectE (q_SelectCommand q'));
                      Some (Inr (if outputQuery \<noteq> inputQuery
                                 then q'\<lparr>q_SchemaTransformers := q_SchemaTransformers q' @ [fst t]\<rparr> else q')) }
               else Some (Inr q')) }"

fun run_chain :: "bool \<Rightarrow> 'z transformation list \<Rightarrow> (search_after, 'z) schema_query_scheme \<Rightarrow>
    (schema_error + (search_after, 'z) schema_query_scheme) option" where
  "run_chain tracing [] q = Some (Inr q)"
| "run_chain tracing (t # ts) q =
     do { result \<leftarrow> apply_traced tracing t q;
          (case result of Inl err \<Rightarrow> Some (Inl err) | Inr q' \<Rightarrow> run_chain tracing ts q') }"

definition transform_query ::
  "('y) pass_configuration_scheme \<Rightarrow> (string \<rightharpoonup> string list) \<Rightarrow> searchAfterStrategy \<Rightarrow> (search_after, 'z) schema_query_scheme \<Rightarrow>
   (schema_error + (search_after, 'z) schema_query_scheme) option" where
  "transform_query cfg tables strategy q =
     run_chain (EnableSQLTracing cfg) (transformationChain cfg tables strategy)
       (if EnableSQLTracing cfg then q else q\<lparr>q_SchemaTransformers := q_SchemaTransformers q @ [''n/a'']\<rparr>)"

text \<open>The first error ends the loop over the queries.\<close>

fun Transform ::
  "('y) pass_configuration_scheme \<Rightarrow> (string \<rightharpoonup> string list) \<Rightarrow> searchAfterStrategy \<Rightarrow> (search_after, 'z) schema_query_scheme list \<Rightarrow>
   (schema_error + (search_after, 'z) schema_query_scheme list) option" where
  "Transform cfg tables strategy [] = Some (Inr [])"
| "Transform cfg tables strategy (q # qs) =
     do { result \<leftarrow> transform_query cfg tables strategy q;
          (case result of
             Inl err \<Rightarrow> Some (Inl err)
           | Inr q' \<Rightarrow> map_option (map_sum id (Cons q')) (Transform cfg tables strategy qs)) }"

section \<open>Columns after the encoding\<close>

lemma run_visitor_rewrite:
  assumes "accept v (SelectE (q_SelectCommand q)) s = Some (e, s)" and "is_SelectE e"
  obtains c where "e = SelectE c" "run_visitor v s q = Some (q\<lparr>q_SelectCommand := c\<rparr>, s)"
  using assms by (cases e) (auto simp: run_visitor_def)

text \<open>The columns a table can have after the encoding.\<close>

definition physical_name :: "schema \<Rightarrow> bool \<Rightarrow> column_ref \<Rightarrow> bool" where
  "physical_name sch attrs c \<longleftrightarrow>
     ColumnName c = FullTextFieldNamePlaceHolder \<or> ColumnName c = IndexNameColumn \<or>
     ResolveFieldByInternalName sch (ColumnName c) \<noteq> None \<or> attrs \<and> ColumnName c = AttributesValuesColumn"

lemma ResolveField_internal:
  assumes "ResolveField sch n = Some f"
  shows "ResolveFieldByInternalName sch (InternalPropertyName f) \<noteq> None"
proof -
  have "f \<in> set (map snd (Fields sch))"
    using assms by (auto simp: ResolveField_def split: option.splits dest!: map_of_SomeD intro: rev_image_eqI)
  then show ?thesis by (auto simp: ResolveFieldByInternalName_def find_None_iff)
qed

abbreviation columns_satisfy :: "(column_ref \<Rightarrow> bool) \<Rightarrow> expr \<Rightarrow> bool" where
  "columns_satisfy Q \<equiv> all_nodes (\<lambda>e. \<forall>c. e = ColumnRef c \<longrightarrow> Q c)"

lemma encode_column_physical: "columns_satisfy (physical_name sch attrs) (encode_column sch attrs c)"
  by (auto simp: encode_column_def physical_name_def NewColumnRefWithTable_def NewColumnRef_def
      dest: ResolveField_internal split: option.split)

lemma alias_unresolved_columns:
  "columns_satisfy Q col \<Longrightarrow> columns_satisfy Q (alias_unresolved e col)"
  by (auto simp: alias_unresolved_def split: option.split expr.split)

lemma set_map2: "z \<in> set (map2 f xs ys) \<Longrightarrow> \<exists>x y. y \<in> set ys \<and> z = f x y"
  by (auto dest: set_zip_rightD)

lemma finish_columns_satisfy:
  assumes "list_all (columns_satisfy Q) (children e')" and "\<not> is_ColumnRef e'"
    and "\<And>e col. columns_satisfy Q col \<Longrightarrow> columns_satisfy Q (f e col)"
  shows "columns_satisfy Q (finish_columns f e e')"
proof -
  have all: "columns_satisfy Q e''" if "list_all (columns_satisfy Q) (children e'')" "\<not> is_ColumnRef e''" for e''
    by (subst all_nodes.simps) (use that in auto)
  show ?thesis
  proof (cases "is_SelectE e \<and> is_SelectE e'")
    case True
    then obtain q q' where q: "e = SelectE q" "e' = SelectE q'" by (cases e; cases e') auto
    have "columns_satisfy Q x" if "x \<in> set (map2 f (Columns q) (Columns q'))" for x
      using set_map2 [OF that] assms(1,3) q by (auto simp: list_all_iff)
    then show ?thesis
      using assms(1) unfolding q
      by (intro all) (auto simp: finish_columns_def with_columns_def NewSelectCommand_def q list_all_iff split: if_splits)
  next
    case False
    then have "finish_columns f e e' = e'" by (auto simp: finish_columns_def split: expr.split)
    then show ?thesis using assms all by simp
  qed
qed

lemma map_children_ColumnRef: "is_ColumnRef (map_children g e) = is_ColumnRef e"
  by (cases e) simp_all

text \<open>The columns a column becomes: none when it is replaced by NULL.\<close>

definition encoded_names :: "schema \<Rightarrow> bool \<Rightarrow> column_ref \<Rightarrow> column_ref list" where
  "encoded_names sch attrs c =
     (if ColumnName c = FullTextFieldNamePlaceHolder \<or> ColumnName c = IndexNameColumn
         \<or> ResolveFieldByInternalName sch (ColumnName c) \<noteq> None then [c]
      else case ResolveField sch (ColumnName c) of
             Some f \<Rightarrow> [NewColumnRefWithTable (InternalPropertyName f) (TableAlias c)]
           | None \<Rightarrow> if attrs then [NewColumnRef AttributesValuesColumn] else [])"

lemma columns_in_encode_column: "columns_in (encode_column sch attrs c) = encoded_names sch attrs c"
  by (auto simp: encode_column_def encoded_names_def columns_in.simps split: option.split)

lemma columns_in_alias_unresolved: "columns_in (alias_unresolved e col) = columns_in col"
  by (auto simp: alias_unresolved_def columns_in.simps [of "AliasedExpr _ _"] split: option.split expr.split)

lemma columns_in_aliased_columns:
  "length xs = length ys \<Longrightarrow>
   concat (map columns_in (map2 alias_unresolved xs ys)) = concat (map columns_in ys)"
  by (induction xs ys rule: list_induct2) (simp_all add: columns_in_alias_unresolved)

lemma columns_in_finish:
  "columns_in (finish_columns alias_unresolved e (map_children g e)) = columns_in (map_children g e)"
proof (cases "is_SelectE e")
  case True
  then obtain q where e: "e = SelectE q" by (cases e) auto
  then obtain q' where q': "map_children g e = SelectE q'" "Columns q' = map g (Columns q)"
    by (auto simp: NewSelectCommand_def)
  then show ?thesis
    using columns_in_aliased_columns [of "Columns q" "Columns q'"]
    by (simp add: e finish_columns_def with_columns_def NewSelectCommand_def columns_in.simps)
qed simp

lemma own_column_map_children: "own_column e = [] \<Longrightarrow> own_column (map_children g e) = []"
  by (cases e) simp_all

lemma columns_in_encoded:
  assumes "rewritable (replace_column (encode_column sch attrs)) (encoding_ok sch attrs) e"
  shows "columns_in (rewrite (replace_column (encode_column sch attrs)) (finish_columns alias_unresolved) e)
    = concat (map (encoded_names sch attrs) (columns_in e))"
proof (rule encoding_rewriting.columns_in_rewrite [OF _ _ _ assms])
  fix e e' assume "replace_column (encode_column sch attrs) e = Some e'"
  then obtain c where "e = ColumnRef c" "e' = encode_column sch attrs c" by (cases e) auto
  then show "columns_in e' = concat (map (encoded_names sch attrs) (columns_in e))"
    by (simp add: columns_in_encode_column columns_in.simps [of "ColumnRef c"])
next
  fix e assume "replace_column (encode_column sch attrs) e = None"
  then have "own_column e = []" by (cases e) simp_all
  then show "own_column e = [] \<and> columns_in (finish_columns alias_unresolved e (map_children
      (rewrite (replace_column (encode_column sch attrs)) (finish_columns alias_unresolved)) e))
    = columns_in (map_children (rewrite (replace_column (encode_column sch attrs)) (finish_columns alias_unresolved)) e)"
    by (simp add: columns_in_finish)
qed (rule own_column_map_children)

text \<open>
  C32: The encoding translates every column of the query and leaves only columns that a physical
  table can have.  On a query without nil whose array elements are of known columns it does not
  panic.  The columns of the result, at any depth and in order, are those of the query, where a name
  the schema resolves has become the internal name of its field, under the same table alias, and any
  other name the attributes column of a table that has one, or nothing, when it has become NULL;
  internal names, the placeholder of full-text search and the column of index names stay.
\<close>

theorem encoded_columns_are_physical:
  assumes "wf_expr (SelectE (q_SelectCommand q))" and "tables (q_TableName q) = Some cols"
    and "all_nodes (encoding_ok sch (AttributesValuesColumn \<in> set cols)) (SelectE (q_SelectCommand q))"
  shows "\<exists>q'. applyFieldEncoding tables sch q = Some (Inr q') \<and>
    columns_in (SelectE (q_SelectCommand q'))
      = concat (map (encoded_names sch (AttributesValuesColumn \<in> set cols)) (columns_in (SelectE (q_SelectCommand q)))) \<and>
    list_all (physical_name sch (AttributesValuesColumn \<in> set cols)) (columns_in (SelectE (q_SelectCommand q')))"
proof -
  let ?attrs = "AttributesValuesColumn \<in> set cols"
  let ?e = "SelectE (q_SelectCommand q)"
  let ?r = "replace_column (encode_column sch ?attrs)" and ?k = "finish_columns alias_unresolved"
  have ok: "rewritable ?r (encoding_ok sch ?attrs) ?e"
    by (rule wf_rewritable [OF assms(1,3)])
  have cols: "columns_satisfy (physical_name sch ?attrs) (rewrite ?r ?k ?e)"
  proof (rule encoding_rewriting.all_nodes_rewrite [OF _ _ ok])
    fix e e' assume "?r e = Some e'"
    then show "columns_satisfy (physical_name sch ?attrs) e'"
      using encode_column_physical by (cases e) auto
  next
    fix e
    assume e: "?r e = None" "list_all (columns_satisfy (physical_name sch ?attrs)) (map (rewrite ?r ?k) (children e))"
      "children (map_children (rewrite ?r ?k) e) = map (rewrite ?r ?k) (children e)"
    have "\<not> is_ColumnRef e" using e(1) by (cases e) simp_all
    then have "\<not> is_ColumnRef (map_children (rewrite ?r ?k) e)" by (simp only: map_children_ColumnRef not_False_eq_True)
    with e(2,3) show "columns_satisfy (physical_name sch ?attrs) (?k e (map_children (rewrite ?r ?k) e))"
      by (intro finish_columns_satisfy alias_unresolved_columns) (simp_all only: not_False_eq_True)
  qed
  obtain c where "rewrite ?r ?k ?e = SelectE c"
      "run_visitor (encoding_visitor sch ?attrs) () q = Some (q\<lparr>q_SelectCommand := c\<rparr>, ())"
    by (rule run_visitor_rewrite [OF conjunct1 [OF encoding_rewriting.accept_rewrite [OF ok]]
          encoding_rewriting.rewrite_SelectE])
  then show ?thesis
    using cols columns_in_encoded [OF ok] assms(2)
    by (auto simp: applyFieldEncoding_def rewrite_query_def all_nodes_columns)
qed

end
