(* ===== verification/Physical_Table.thy ===== *)
theory Physical_Table
  imports Schema_Transform
begin

text \<open>
  The filter the physical-table pass of \<open>frontend_connectors/schema_transformer.go\<close> adds to reads of
  the common table: which rows it lets through, in every SELECT of the query that reads the table as
  its FROM clause.  A common table inside a JOIN is not filtered.
\<close>

section \<open>The common table\<close>

text \<open>What the filter on the name of the index lets through.\<close>

definition index_matches :: "string list \<Rightarrow> string list \<Rightarrow> string \<Rightarrow> bool" where
  "index_matches gs indexes v \<longleftrightarrow>
     list_ex (\<lambda>i. if list_ex (has_prefix i) gs
                  then list_ex (\<lambda>g. has_prefix i g \<and> has_prefix v g) gs else v = i) indexes"

text \<open>A row whose index name is \<open>v\<close>.\<close>

definition row_of_index :: "(expr \<Rightarrow> bool) \<Rightarrow> string \<Rightarrow> bool" where
  "row_of_index \<rho> v \<longleftrightarrow>
     (\<forall>i. \<rho> (index_condition i) \<longleftrightarrow> v = i) \<and> (\<forall>g. \<rho> (prefix_condition g) \<longleftrightarrow> has_prefix v g)"

text \<open>Every key of \<open>orExpression\<close> has the condition the code has for it.\<close>

definition condition_for :: "string list \<Rightarrow> string \<Rightarrow> expr" where
  "condition_for gs n = (if list_ex (has_prefix n) gs then prefix_condition n else index_condition n)"

lemma condition_for_props:
  "condition_for gs n \<noteq> NilExpr"
  "row_of_index \<rho> v \<Longrightarrow> holds \<rho> (condition_for gs n) \<longleftrightarrow>
     (if list_ex (has_prefix n) gs then has_prefix v n else v = n)"
  by (auto simp: condition_for_def row_of_index_def index_condition_def prefix_condition_def)

definition conditions_ok :: "string list \<Rightarrow> (string \<times> expr) list \<Rightarrow> bool" where
  "conditions_ok gs es \<longleftrightarrow> (\<forall>n c. map_of es n = Some c \<longrightarrow> c = condition_for gs n)"

lemma conditions_ok_update:
  "conditions_ok gs es \<Longrightarrow> conditions_ok gs (AList.update n (condition_for gs n) es)"
  by (simp add: conditions_ok_def update_conv')

lemma Or_not_Nil:
  assumes "\<exists>s \<in> set stmts. s \<noteq> NilExpr"
  shows "Or stmts \<noteq> NilExpr"
proof -
  obtain e es where "filter (\<lambda>s. s \<noteq> NilExpr) stmts = e # es" "e \<noteq> NilExpr"
    using nonempty_statements [OF assms] by metis
  then show ?thesis by (simp add: Or_def combineStatements_cases foldl_Infix_not_Nil)
qed

lemma has_prefix_refl [simp]: "has_prefix s s"
  by (simp add: has_prefix_def)

lemma add_prefixes:
  assumes "conditions_ok gs es" "set ms \<subseteq> set gs"
  shows "conditions_ok gs (foldl (\<lambda>es g. if map_of es g = None then AList.update g (prefix_condition g) es else es) es ms) \<and>
    dom (map_of (foldl (\<lambda>es g. if map_of es g = None then AList.update g (prefix_condition g) es else es) es ms)) =
      dom (map_of es) \<union> set ms"
  using assms
proof (induction ms arbitrary: es)
  case (Cons g ms)
  have "list_ex (has_prefix g) gs"
    using Cons.prems(2) by (auto simp: list_ex_iff intro!: bexI [of _ g])
  then have "conditions_ok gs (AList.update g (prefix_condition g) es)"
    using conditions_ok_update [OF Cons.prems(1), of g] by (simp add: condition_for_def)
  then show ?case
    using Cons by (auto simp: update_conv')
qed simp

lemma add_index_props:
  assumes "conditions_ok gs es"
  shows "conditions_ok gs (add_index gs es i) \<and>
    dom (map_of (add_index gs es i)) =
      dom (map_of es) \<union> (if list_ex (has_prefix i) gs then {g \<in> set gs. has_prefix i g} else {i})"
proof (cases "list_ex (has_prefix i) gs")
  case True
  then have "filter (has_prefix i) gs \<noteq> []" by (auto simp: filter_empty_conv list_ex_iff)
  then show ?thesis
    using add_prefixes [OF assms, of "filter (has_prefix i) gs"] True by (auto simp: add_index_def Let_def)
next
  case False
  then have "filter (has_prefix i) gs = []" by (auto simp: filter_empty_conv list_ex_iff)
  then show ?thesis
    using conditions_ok_update [OF assms, of i] False
    by (auto simp: add_index_def condition_for_def update_conv')
qed

lemma add_indexes_props:
  "conditions_ok gs es \<Longrightarrow> conditions_ok gs (foldl (add_index gs) es indexes) \<and>
    dom (map_of (foldl (add_index gs) es indexes)) =
      dom (map_of es) \<union> (\<Union>i\<in>set indexes. if list_ex (has_prefix i) gs then {g \<in> set gs. has_prefix i g} else {i})"
proof (induction indexes arbitrary: es)
  case (Cons i indexes)
  show ?case using add_index_props [OF Cons.prems, of i] Cons.IH by auto
qed simp

lemma keys_match:
  "(\<exists>n \<in> (if list_ex (has_prefix i) gs then {g \<in> set gs. has_prefix i g} else {i}).
      if list_ex (has_prefix n) gs then has_prefix v n else v = n) \<longleftrightarrow>
   (if list_ex (has_prefix i) gs then list_ex (\<lambda>g. has_prefix i g \<and> has_prefix v g) gs else v = i)"
proof -
  have "list_ex (has_prefix n) gs" if "n \<in> set gs" for n
    using that by (auto simp: list_ex_iff intro!: bexI [of _ n])
  then show ?thesis by (auto simp: list_ex_iff)
qed

lemma holds_indices_where:
  assumes "indexes \<noteq> []" and "row_of_index \<rho> v"
  shows "indices_where gs indexes \<noteq> NilExpr"
    and "holds \<rho> (indices_where gs indexes) \<longleftrightarrow> index_matches gs indexes v"
proof -
  let ?es = "foldl (add_index gs) [] indexes"
  let ?cs = "map (\<lambda>name. the (map_of ?es name)) (sort (map fst ?es))"
  have es: "conditions_ok gs ?es" and dom: "dom (map_of ?es) =
      (\<Union>i\<in>set indexes. if list_ex (has_prefix i) gs then {g \<in> set gs. has_prefix i g} else {i})"
    using add_indexes_props [of gs "[]" indexes] by (auto simp: conditions_ok_def)
  have cs: "set ?cs = {c. \<exists>n. map_of ?es n = Some c}"
    by (force simp: dom_map_of_conv_image_fst [symmetric] image_iff)
  have nn: "c \<noteq> NilExpr" if in_cs: "c \<in> set ?cs" for c
  proof -
    obtain n where "map_of ?es n = Some c" using in_cs unfolding cs by auto
    then have "c = condition_for gs n" using es by (simp add: conditions_ok_def)
    then show ?thesis by (simp add: condition_for_props(1))
  qed
  obtain i where "i \<in> set indexes" using assms(1) by (cases indexes) auto
  moreover have "\<exists>n. n \<in> (if list_ex (has_prefix i) gs then {g \<in> set gs. has_prefix i g} else {i})"
    by (auto simp: list_ex_iff)
  ultimately have "dom (map_of ?es) \<noteq> {}" unfolding dom by blast
  then obtain n c where "map_of ?es n = Some c" by blast
  then have "c \<in> set ?cs" unfolding cs by blast
  then have ne: "\<exists>c \<in> set ?cs. c \<noteq> NilExpr" using nn by blast
  show "indices_where gs indexes \<noteq> NilExpr"
    using Or_not_Nil [OF ne] by (simp add: indices_where_def Let_def)
  have "holds \<rho> (indices_where gs indexes) \<longleftrightarrow> (\<exists>c \<in> set ?cs. holds \<rho> c)"
    using holds_Or [OF ne] nn by (auto simp: indices_where_def Let_def)
  also have "\<dots> \<longleftrightarrow> (\<exists>n \<in> dom (map_of ?es). if list_ex (has_prefix n) gs then has_prefix v n else v = n)"
    unfolding cs using es condition_for_props(2) [OF assms(2), of gs]
    by (auto simp: conditions_ok_def dom_def split del: if_split)
  also have "\<dots> \<longleftrightarrow> index_matches gs indexes v"
    unfolding dom index_matches_def list_ex_iff [of _ indexes] bex_UN by (simp only: keys_match)
  finally show "holds \<rho> (indices_where gs indexes) \<longleftrightarrow> index_matches gs indexes v" .
qed


text \<open>A SELECT from the table filters the rows by index.\<close>

definition filters_table :: "table_ref \<Rightarrow> string list \<Rightarrow> string list \<Rightarrow> expr \<Rightarrow> bool" where
  "filters_table physical gs indexes e \<longleftrightarrow>
     (\<forall>q \<rho> v. e = SelectE q \<longrightarrow> FromClause q = TableRef physical \<longrightarrow> row_of_index \<rho> v \<longrightarrow>
        holds \<rho> (WhereClause q) \<longrightarrow> index_matches gs indexes v)"

lemma filters_table_other: "\<not> is_SelectE e \<Longrightarrow> filters_table physical gs indexes e"
  by (auto simp: filters_table_def)

lemma indices_where_plain:
  assumes "indexes \<noteq> []"
  shows "all_nodes (\<lambda>e. \<not> is_SelectE e) (indices_where gs indexes)"
proof -
  have fold: "all_nodes P e \<Longrightarrow> list_all (all_nodes P) es \<Longrightarrow> (\<And>l op r. P (InfixExpr l op r)) \<Longrightarrow>
      all_nodes P (foldl (\<lambda>acc stmt. InfixExpr acc ''OR'' stmt) e es)" for P e es
    by (induction es arbitrary: e) auto
  have or: "all_nodes P (Or cs)"
    if "list_all (all_nodes P) cs" "\<And>l op r. P (InfixExpr l op r)" "P NilExpr" for P cs
  proof (cases "filter (\<lambda>s. s \<noteq> NilExpr) cs")
    case (Cons e es)
    then have "set (e # es) \<subseteq> set cs" by (metis filter_is_subset)
    then have "all_nodes P (foldl (\<lambda>acc stmt. InfixExpr acc ''OR'' stmt) e es)"
      by (intro fold) (use that in \<open>auto simp: list_all_iff\<close>)
    then show ?thesis using Cons by (simp add: Or_def combineStatements_cases)
  qed (use that in \<open>simp add: Or_def combineStatements_cases\<close>)
  have es: "conditions_ok gs (foldl (add_index gs) [] indexes)"
    using add_indexes_props [of gs "[]" indexes] by (simp add: conditions_ok_def)
  have "all_nodes (\<lambda>e. \<not> is_SelectE e) (the (map_of (foldl (add_index gs) [] indexes) n))"
    if key: "n \<in> fst ` set (foldl (add_index gs) [] indexes)" for n
  proof -
    obtain c where "map_of (foldl (add_index gs) [] indexes) n = Some c"
      using key by (auto dest!: weak_map_of_SomeI)
    moreover from this have "c = condition_for gs n" using es by (simp add: conditions_ok_def)
    ultimately show ?thesis
      by (simp add: condition_for_def index_condition_def prefix_condition_def)
  qed
  then show ?thesis
    unfolding indices_where_def Let_def by (intro or) (auto simp: list_all_iff)
qed

lemma filtered_where_filters:
  assumes "indexes \<noteq> []"
  shows "filters_table physical gs indexes
    (SelectE (NewSelectCommand columns groupBy orderBy frm
       (filtered_where True physical (indices_where gs indexes) frm whr) limitBy n m d ctes))"
proof -
  have "index_matches gs indexes v"
    if "row_of_index \<rho> v" "holds \<rho> (if whr = NilExpr then indices_where gs indexes
      else And [whr, indices_where gs indexes])" for \<rho> v
    using that holds_indices_where [OF assms that(1), of gs]
      holds_And [of "[whr, indices_where gs indexes]" \<rho>] by (auto split: if_splits)
  then show ?thesis by (auto simp: filters_table_def NewSelectCommand_def filtered_where_def)
qed


lemma all_nodes_here: "P e \<Longrightarrow> list_all (all_nodes P) (children e) \<Longrightarrow> all_nodes P e"
  by (subst all_nodes.simps) simp

lemma is_SelectE_map_children: "is_SelectE (map_children g e) = is_SelectE e"
  by (cases e) simp_all

lemma plain_filters: "all_nodes (\<lambda>e. \<not> is_SelectE e) e \<Longrightarrow> all_nodes (filters_table physical gs indexes) e"
  by (erule all_nodes_mono) (rule filters_table_other)

lemma finish_physical_filters:
  assumes "indexes \<noteq> []" and "limit_by_plain e"
    and "list_all (all_nodes (filters_table physical gs indexes)) (children e')" and "is_SelectE e' = is_SelectE e"
  shows "all_nodes (filters_table physical gs indexes) (finish_physical True physical (indices_where gs indexes) e e')"
proof (cases "is_SelectE e")
  case True
  then obtain q q' where q: "e = SelectE q" "e' = SelectE q'"
    using assms(4) by (cases e; cases e') auto
  let ?P = "filters_table physical gs indexes" and ?is = "indices_where gs indexes"
  have plain: "all_nodes ?P ?is" by (rule plain_filters [OF indices_where_plain [OF assms(1)]])
  have limit: "list_all (all_nodes ?P) (LimitBy q)"
    using assms(2) plain_filters unfolding q by (auto simp: list_all_iff)
  have "all_nodes ?P (filtered_where True physical ?is (FromClause q') (WhereClause q'))"
    if "filtered_where True physical ?is (FromClause q') (WhereClause q') \<noteq> NilExpr"
    using that assms(3) plain unfolding q
    by (auto simp: filtered_where_def And_def combineStatements_cases filters_table_other split: if_splits)
  then show ?thesis
    using assms(3) limit filtered_where_filters [OF assms(1)] unfolding q
    by (intro all_nodes_here) (auto simp: finish_physical_def NewSelectCommand_def split: if_splits)
next
  case False
  then show ?thesis
    using assms(3,4) by (simp add: all_nodes_here filters_table_other)
qed

text \<open>Two indexes behind the common table, read with a condition in a subquery.\<close>

definition sample_cfg :: pass_configuration where
  "sample_cfg =
     \<lparr>IndexConfig = [], DefaultIngestTarget = [], DefaultQueryTarget = [], UseCommonTableForWildcard = True,
      AutodiscoveryEnabled = False, DefaultQueryOptimizers = Map.empty, EnableSQLTracing = False\<rparr>"

definition sample_query :: "search_after schema_query" where
  "sample_query =
     \<lparr>q_SelectCommand = NewSelectCommand [column_named ''host''] [] []
         (SelectE (NewSelectCommand [column_named ''host''] [] [] (TableRef (NewTableRef SingleTableNamePlaceHolder))
            (InfixExpr (column_named ''size'') ''>'' (LiteralExpr (NewLiteral (VInt KInt 3)))) [] 0 0 False []))
         NilExpr [] 10 0 False [],
      q_OptimizeHints = None, q_TableName = ''logs'', q_Hits = None, q_Indexes = [''logs-1'', ''logs-2''],
      q_Schema = NewSchema [] True [], q_SearchAfter = SearchAfterEmpty, q_RuntimeMappings = None,
      q_SchemaTransformers = []\<rparr>"

text \<open>
  C11: The physical-table pass does not panic on a query on the common table, and in its result every
  SELECT, at any depth, whose FROM clause is the common table itself filters the rows by index: its
  WHERE clause holds only in rows whose index name is one of the query's indexes or, where the
  configuration groups indexes by a prefix and one of the query's indexes has it, starts with that
  prefix, which rows of other indexes may also do.
\<close>

theorem common_table_reads_are_filtered:
  assumes "wf_expr (SelectE (q_SelectCommand q))" and "all_nodes limit_by_plain (SelectE (q_SelectCommand q))"
    and "uses_common_table cfg (q_Indexes q)" and "q_Indexes q \<noteq> []"
  shows "\<exists>q'. applyPhysicalFromExpression cfg sch q = Some (Inr q') \<and>
    all_nodes (filters_table (NewTableRef CommonTableName) (computeListIndexPrefixesToGroup cfg) (q_Indexes q))
      (SelectE (q_SelectCommand q'))"
proof -
  let ?t = "NewTableRef CommonTableName" and ?gs = "computeListIndexPrefixesToGroup cfg"
  let ?r = "replace_physical True ?t"
  let ?k = "finish_physical True ?t (indices_where ?gs (q_Indexes q))"
  let ?P = "filters_table ?t ?gs (q_Indexes q)"
  let ?e = "SelectE (q_SelectCommand q)"
  have ok: "rewritable ?r limit_by_plain ?e" by (rule wf_rewritable [OF assms(1,2)])
  have all: "all_nodes ?P (rewrite ?r ?k ?e)"
  proof (rule physical_rewriting.all_nodes_rewrite [OF _ _ ok])
    fix e e' assume "?r e = Some e'"
    then show "all_nodes ?P e'" by (cases e) (auto simp: replace_physical_def filters_table_other)
  next
    fix e
    assume e: "limit_by_plain e" "list_all (all_nodes ?P) (map (rewrite ?r ?k) (children e))"
      "children (map_children (rewrite ?r ?k) e) = map (rewrite ?r ?k) (children e)"
    show "all_nodes ?P (?k e (map_children (rewrite ?r ?k) e))"
      by (rule finish_physical_filters [OF assms(4) e(1)]) (simp_all only: e is_SelectE_map_children)
  qed
  obtain c where "rewrite ?r ?k ?e = SelectE c"
      "run_visitor (physical_visitor True ?t ?gs (q_Indexes q)) () q = Some (q\<lparr>q_SelectCommand := c\<rparr>, ())"
    by (rule run_visitor_rewrite [OF conjunct1 [OF physical_rewriting.accept_rewrite [OF ok]]
          physical_rewriting.rewrite_SelectE])
  then show ?thesis
    using all assms(3) by (auto simp: applyPhysicalFromExpression_def rewrite_query_def physical_table_def)
qed

theorem common_table_reads_are_filtered_witness:
  "\<exists>q'. applyPhysicalFromExpression sample_cfg (NewSchema [] True []) sample_query = Some (Inr q') \<and>
    all_nodes (filters_table (NewTableRef CommonTableName) [] [''logs-1'', ''logs-2'']) (SelectE (q_SelectCommand q'))"
proof -
  have "wf_expr (SelectE (q_SelectCommand sample_query))" by code_simp
  moreover have "all_nodes limit_by_plain (SelectE (q_SelectCommand sample_query))" by code_simp
  moreover have "uses_common_table sample_cfg (q_Indexes sample_query)" by code_simp
  moreover have "q_Indexes sample_query = [''logs-1'', ''logs-2'']" by (simp add: sample_query_def)
  moreover have "computeListIndexPrefixesToGroup sample_cfg = []" by code_simp
  ultimately show ?thesis
    using common_table_reads_are_filtered [of sample_query sample_cfg "NewSchema [] True []"] by simp
qed

text \<open>Grouping by prefix lets rows of further indexes through.\<close>

lemma grouped_prefix_leaks: "index_matches [''logs''] [''logs-1''] ''logs-2''"
  by code_simp

text \<open>
  So does a join: the query for top hits joins its groups with the table, and the pass puts the
  common table there without a condition on the index.
\<close>

definition joined_query :: "search_after schema_query" where
  "joined_query = sample_query\<lparr>q_SelectCommand :=
     NewSelectCommand [column_named ''host''] [] []
       (JoinExpr (AliasedExpr (literal ''quesma_top_hits_group_table'') ''group_table'') ''LEFT OUTER''
          (AliasedExpr (TableRef (NewTableRef SingleTableNamePlaceHolder)) ''hit_table'')
          (InfixExpr (column_named ''key'') ''='' (column_named ''host'')))
       NilExpr [] 10 0 False []\<rparr>"

lemma joined_common_table_is_not_filtered:
  "(case applyPhysicalFromExpression sample_cfg (NewSchema [] True []) joined_query of
      Some (Inr q') \<Rightarrow>
        WhereClause (q_SelectCommand q') = NilExpr
        \<and> (case FromClause (q_SelectCommand q') of
             JoinExpr l t (AliasedExpr r a) on \<Rightarrow> r = TableRef (NewTableRef CommonTableName) | _ \<Rightarrow> False)
    | _ \<Rightarrow> False)"
  by code_simp

text \<open>A witness of the encoding: a query on a field, an unknown name and an alias.\<close>

definition sample_fields :: schema where
  "sample_fields =
     NewSchemaWithAliases
       [(''host.name'', \<lparr>PropertyName = ''host.name'', InternalPropertyName = ''host_name'',
           InternalPropertyType = ''String'', fieldType = QuesmaTypeText, Origin = FieldSourceIngest\<rparr>)]
       [''h'' \<mapsto> ''host.name''] True ''db''"

definition encoding_query :: "search_after schema_query" where
  "encoding_query = sample_query\<lparr>q_SelectCommand :=
     NewSelectCommand [column_named ''host.name'', column_named ''unknown''] [] []
       (TableRef (NewTableRef ''logs'')) (InfixExpr (column_named ''h'') ''='' (literal ''1'')) [] 10 0 False []\<rparr>"

theorem encoded_columns_are_physical_witness:
  "\<exists>q'. applyFieldEncoding [''logs'' \<mapsto> [''host_name'']] sample_fields encoding_query = Some (Inr q') \<and>
    map ColumnName (columns_in (SelectE (q_SelectCommand q'))) = [''host_name'', ''host_name''] \<and>
    list_all (physical_name sample_fields False) (columns_in (SelectE (q_SelectCommand q')))"
proof -
  have "wf_expr (SelectE (q_SelectCommand encoding_query))" by code_simp
  moreover have "all_nodes (encoding_ok sample_fields False) (SelectE (q_SelectCommand encoding_query))" by code_simp
  moreover have "q_TableName encoding_query = ''logs''" by (simp add: encoding_query_def sample_query_def)
  moreover have "AttributesValuesColumn \<notin> set [''host_name'']" by code_simp
  moreover have "map ColumnName (concat (map (encoded_names sample_fields False)
      (columns_in (SelectE (q_SelectCommand encoding_query))))) = [''host_name'', ''host_name'']" by code_simp
  ultimately show ?thesis
    using encoded_columns_are_physical [of encoding_query "[''logs'' \<mapsto> [''host_name'']]" "[''host_name'']" sample_fields]
    by fastforce
qed

text \<open>An element of an array that is not found makes the pass panic: a literal is no column.\<close>

lemma encoding_panics_on_unknown_array:
  "applyFieldEncoding [''logs'' \<mapsto> []] (NewSchema [] True [])
     (encoding_query\<lparr>q_SelectCommand := NewSelectCommand
        [ArrayAccess (NewColumnRef ''tags'') (LiteralExpr (NewLiteral (VInt KInt 1)))] [] []
        (TableRef (NewTableRef ''logs'')) NilExpr [] 0 0 False []\<rparr>) = None"
  by code_simp

end
