(* ===== verification/Literal_Passes.thy ===== *)
theory Literal_Passes
  imports Physical_Table "HOL-Library.Multiset"
begin

text \<open>
  What the boolean, match and full-text passes of \<open>frontend_connectors/schema_transformer.go\<close> make of
  the literals and comparisons of a query, which rows the search-after pass keeps, and that the
  expansion of wildcards does not depend on the order of a Go map.
\<close>

section \<open>Boolean literals\<close>

lemma contains_iff: "contains s p \<longleftrightarrow> (\<exists>u v. s = u @ p @ v)"
proof (induction s)
  case (Cons c s)
  have "has_prefix (c # s) p \<longleftrightarrow> (\<exists>v. c # s = p @ v)"
    unfolding has_prefix_def by (metis append_eq_conv_conj)
  then show ?case
    using Cons.IH by (auto simp: Cons_eq_append_conv)
qed simp

lemma contains_mono: "contains s p \<Longrightarrow> contains (u @ s @ v) p"
  unfolding contains_iff by (metis append.assoc)

lemma trim_SingleQuote:
  assumes "CHR 0x27 \<notin> set s"
  shows "trim_char (CHR 0x27) (SingleQuote s) = s"
proof (cases s rule: rev_cases)
  case (snoc t c)
  then show ?thesis
    using assms by (cases t) (auto simp: trim_char_def SingleQuote_def)
qed (simp add: trim_char_def SingleQuote_def)

lemma escape_body_plain: "CHR 0x27 \<notin> set s \<Longrightarrow> CHR 0x5C \<notin> set s \<Longrightarrow> escape_body s = s"
  by (induction s) (auto simp: escape_body_def)

lemma lower_boolean_quoted:
  assumes "contains s ''true'' \<or> contains s ''false''" and "CHR 0x27 \<notin> set s"
  shows "lower_boolean (NewLiteral (VString (SingleQuote s))) = NewLiteral (VString s)"
  using assms contains_mono [of s _ "[CHR 0x27]" "[CHR 0x27]"] trim_SingleQuote [OF assms(2)]
  by (auto simp: lower_boolean_def NewLiteral_def NewLiteralWithEscapeType_def SingleQuote_def)

lemma render_plain_text:
  assumes "CHR 0x27 \<notin> set s" and "CHR 0x5C \<notin> set s"
  shows "render (literal s) = Some s"
proof -
  have "\<nexists>t. s = SingleQuote t" using assms(1) by (auto simp: SingleQuote_def)
  then show ?thesis
    using escape_body_plain [OF assms] by (simp add: render_literal_def NewLiteral_def escapeStringNormal_unquoted)
qed

text \<open>
  A text in quotes that contains \<open>true\<close> or \<open>false\<close> anywhere loses its quotes.  A comparison with
  it in the WHERE clause of a query is rendered with the bare text, which is then read as SQL.
\<close>

lemma boolean_lowering_unquotes:
  assumes "wf_expr (SelectE (q_SelectCommand q))"
    and "WhereClause (q_SelectCommand q) = InfixExpr (ColumnRef c) op (literal (SingleQuote s))"
    and "contains s ''true'' \<or> contains s ''false''" and "CHR 0x27 \<notin> set s" and "CHR 0x5C \<notin> set s"
  shows "\<exists>q'. applyBooleanLiteralLowering sch q = Some (Inr q') \<and>
    render (WhereClause (q_SelectCommand q')) = Some (render_infix (render_column c) op s)"
proof -
  let ?g = "rewrite replace_boolean keep"
  let ?e = "SelectE (q_SelectCommand q)"
  have ok: "rewritable replace_boolean (\<lambda>_. True) ?e"
    by (rule wf_rewritable [OF assms(1) all_nodes_True])
  obtain sel where sel: "?g ?e = SelectE sel"
      "run_visitor boolean_visitor () q = Some (q\<lparr>q_SelectCommand := sel\<rparr>, ())"
    by (rule run_visitor_rewrite [OF conjunct1 [OF boolean_rewriting.accept_rewrite [OF ok]]
          boolean_rewriting.rewrite_SelectE])
  have "?g (InfixExpr (ColumnRef c) op (literal (SingleQuote s))) = InfixExpr (ColumnRef c) op (literal s)"
    using lower_boolean_quoted [OF assms(3,4)]
    by (simp add: rewrite.simps [of _ _ "InfixExpr _ _ _"] rewrite.simps [of _ _ "ColumnRef _"]
        rewrite.simps [of _ _ "LiteralExpr _"] keep_def)
  then have "WhereClause sel = InfixExpr (ColumnRef c) op (literal s)"
    using sel(1) assms(2)
    by (simp add: rewrite.simps [of _ _ "SelectE _"] keep_def NewSelectCommand_def clause_of_def, elim subst) simp
  then show ?thesis
    using sel(2) render_plain_text [OF assms(4,5)]
    by (simp add: applyBooleanLiteralLowering_def rewrite_query_def)
qed

lemma boolean_lowering_unquotes_example:
  "\<exists>q'. applyBooleanLiteralLowering sample_fields
      (encoding_query\<lparr>q_SelectCommand := NewSelectCommand [column_named ''host_name''] [] []
         (TableRef (NewTableRef ''logs''))
         (InfixExpr (column_named ''host_name'') ''='' (literal (SingleQuote ''1 OR true''))) [] 10 0 False []\<rparr>) = Some (Inr q') \<and>
    render (WhereClause (q_SelectCommand q')) =
      Some ([CHR 0x22] @ ''host_name'' @ [CHR 0x22] @ ''=1 OR true'')"
proof -
  let ?q = "encoding_query\<lparr>q_SelectCommand := NewSelectCommand [column_named ''host_name''] [] []
         (TableRef (NewTableRef ''logs''))
         (InfixExpr (column_named ''host_name'') ''='' (literal (SingleQuote ''1 OR true''))) [] 10 0 False []\<rparr>"
  have "wf_expr (SelectE (q_SelectCommand ?q))" by code_simp
  moreover have "WhereClause (q_SelectCommand ?q) =
      InfixExpr (column_named ''host_name'') ''='' (literal (SingleQuote ''1 OR true''))"
    by (simp add: NewSelectCommand_def)
  moreover have "contains ''1 OR true'' ''true'' \<or> contains ''1 OR true'' ''false''" by code_simp
  moreover have "render_infix (render_column (NewColumnRef ''host_name'')) ''='' ''1 OR true'' =
      [CHR 0x22] @ ''host_name'' @ [CHR 0x22] @ ''=1 OR true''"
    by code_simp
  ultimately show ?thesis
    using boolean_lowering_unquotes [of ?q "NewColumnRef ''host_name''" "''=''" "''1 OR true''" sample_fields]
    by simp
qed

section \<open>Matches\<close>

lemma trim_quotes: "trim_suffix (trim_prefix (SingleQuote s) [CHR 0x27]) [CHR 0x27] = s"
  by (simp add: SingleQuote_def trim_prefix_def trim_suffix_def has_prefix_def has_suffix_def)

text \<open>The types whose values a match compares with \<open>=\<close>.\<close>

definition compared_type :: "schema \<Rightarrow> string \<Rightarrow> bool" where
  "compared_type sch n \<longleftrightarrow>
     (case ResolveFieldByInternalName sch n of
        Some field \<Rightarrow> type_Name (fieldType field) \<in> {''integer'', ''long'', ''unsigned_long'', ''boolean''}
      | None \<Rightarrow> False)"

lemma match_comparison_quoted:
  "match_comparison sch c (SingleQuote s) =
     (if compared_type sch (ColumnName c) then InfixExpr (ColumnRef c) ''='' (literal s)
      else InfixExpr (ColumnRef c) ''iLIKE'' (LiteralExpr (NewLiteralWithEscapeType (VString s) NotEscapedLikeFull)))"
  by (auto simp: match_comparison_def compared_type_def trim_quotes quesma_type_defs Let_def split: option.split)

text \<open>
  A match of a quoted text is a comparison of the column with a pattern that is one string
  literal around the text with its wildcards protected; but on a column of an integer or boolean
  type the quotes are dropped and the bare text is compared, to be read as SQL whatever it is.
\<close>

lemma matches_by_type:
  assumes "wf_expr (SelectE (q_SelectCommand q))" and "all_nodes match_ok (SelectE (q_SelectCommand q))"
    and "WhereClause (q_SelectCommand q) = InfixExpr (ColumnRef c) MatchOperator (literal (SingleQuote s))"
    and "CHR 0x27 \<notin> set s" and "CHR 0x5C \<notin> set s"
  shows "\<exists>q'. applyMatchOperator sch q = Some (Inr q') \<and>
    render (WhereClause (q_SelectCommand q')) =
      Some (if compared_type sch (ColumnName c) then render_infix (render_column c) ''='' s
            else render_infix (render_column c) ''iLIKE'' (SingleQuote (''%'' @ escapeStringLike s @ ''%'')))"
proof -
  let ?g = "rewrite (replace_match sch) keep"
  let ?e = "SelectE (q_SelectCommand q)"
  have ok: "rewritable (replace_match sch) match_ok ?e"
    by (rule wf_rewritable [OF assms(1,2)])
  obtain sel where sel: "?g ?e = SelectE sel"
      "run_visitor (match_visitor sch) () q = Some (q\<lparr>q_SelectCommand := sel\<rparr>, ())"
    by (rule run_visitor_rewrite [OF conjunct1 [OF match_rewriting.accept_rewrite [OF ok]]
          match_rewriting.rewrite_SelectE])
  have "?g (InfixExpr (ColumnRef c) MatchOperator (literal (SingleQuote s))) = match_comparison sch c (SingleQuote s)"
    by (simp add: rewrite.simps [of _ _ "InfixExpr _ _ _"] replace_match_def as_ColumnRef_def as_LiteralExpr_def
        NewLiteral_def)
  then have "WhereClause sel = match_comparison sch c (SingleQuote s)"
    using sel(1) assms(3)
    by (simp add: rewrite.simps [of _ _ "SelectE _"] replace_match_def keep_def NewSelectCommand_def clause_of_def,
        elim subst) simp
  moreover have "\<nexists>t. s = SingleQuote t" using assms(4) by (auto simp: SingleQuote_def)
  ultimately show ?thesis
    using sel(2) render_plain_text [OF assms(4,5)] escape_body_plain [OF assms(4,5)]
    by (auto simp: applyMatchOperator_def rewrite_query_def match_comparison_quoted render_literal_def
        NewLiteralWithEscapeType_def escapeStringNormal_unquoted)
qed

definition number_fields :: schema where
  "number_fields =
     NewSchema
       [(''size'', \<lparr>PropertyName = ''size'', InternalPropertyName = ''size'',
           InternalPropertyType = ''Int64'', fieldType = QuesmaTypeLong, Origin = FieldSourceIngest\<rparr>)] True ''db''"

lemma matches_by_type_example:
  "\<exists>q'. applyMatchOperator number_fields
      (encoding_query\<lparr>q_SelectCommand := NewSelectCommand [column_named ''size''] [] []
         (TableRef (NewTableRef ''logs''))
         (InfixExpr (column_named ''size'') MatchOperator (literal (SingleQuote ''1)OR(1=1''))) [] 10 0 False []\<rparr>) = Some (Inr q') \<and>
    render (WhereClause (q_SelectCommand q')) = Some ([CHR 0x22] @ ''size'' @ [CHR 0x22] @ ''=1)OR(1=1'')"
proof -
  let ?q = "encoding_query\<lparr>q_SelectCommand := NewSelectCommand [column_named ''size''] [] []
         (TableRef (NewTableRef ''logs''))
         (InfixExpr (column_named ''size'') MatchOperator (literal (SingleQuote ''1)OR(1=1''))) [] 10 0 False []\<rparr>"
  have "wf_expr (SelectE (q_SelectCommand ?q))" by code_simp
  moreover have "all_nodes match_ok (SelectE (q_SelectCommand ?q))" by code_simp
  moreover have "WhereClause (q_SelectCommand ?q) =
      InfixExpr (column_named ''size'') MatchOperator (literal (SingleQuote ''1)OR(1=1''))"
    by (simp add: NewSelectCommand_def)
  moreover have "compared_type number_fields (ColumnName (NewColumnRef ''size''))" by code_simp
  moreover have "render_infix (render_column (NewColumnRef ''size'')) ''='' ''1)OR(1=1'' =
      [CHR 0x22] @ ''size'' @ [CHR 0x22] @ ''=1)OR(1=1''"
    by code_simp
  ultimately show ?thesis
    using matches_by_type [of ?q "NewColumnRef ''size''" "''1)OR(1=1''" number_fields] by simp
qed

section \<open>Full text\<close>

text \<open>A clause of conjunctions and disjunctions whose other parts have no placeholder inside.\<close>

fun text_clause :: "string list \<Rightarrow> expr \<Rightarrow> bool" where
  "text_clause fs (InfixExpr l op r) =
     (if replace_full_text fs (InfixExpr l op r) \<noteq> None then op \<noteq> ''AND'' \<and> op \<noteq> ''OR''
      else if op = ''AND'' \<or> op = ''OR'' then text_clause fs l \<and> text_clause fs r
      else all_nodes (\<lambda>e. replace_full_text fs e = None) (InfixExpr l op r))"
| "text_clause fs e = all_nodes (\<lambda>e. replace_full_text fs e = None) e"

text \<open>A row in which the placeholder stands for any of the full text fields.\<close>

definition text_row :: "string list \<Rightarrow> (expr \<Rightarrow> bool) \<Rightarrow> expr \<Rightarrow> bool" where
  "text_row fs \<rho> e =
     (case e of
        InfixExpr l op r \<Rightarrow>
          (case as_ColumnRef l of
             Some col \<Rightarrow>
               if ColumnName col = FullTextFieldNamePlaceHolder then
                 (if fs = [] then is_like op \<and> AsString r = Some (SingleQuote ''%'')
                  else list_ex (\<lambda>f. \<rho> (InfixExpr (ColumnRef (NewColumnRefWithTable f (TableAlias col))) op r)) fs)
               else \<rho> e
           | None \<Rightarrow> \<rho> e)
      | _ \<Rightarrow> \<rho> e)"

lemma text_row_other:
  "\<forall>l op r. e \<noteq> InfixExpr l op r \<Longrightarrow> text_row fs \<rho> e = \<rho> e"
  by (cases e) (simp_all add: text_row_def)

lemma full_text_comparison_holds:
  assumes "full_text_comparison fs col op r = Some e" and "op \<noteq> ''AND''" "op \<noteq> ''OR''"
    and "\<And>b. \<rho> (LiteralExpr (NewLiteral (VBool b))) = b"
    and "ColumnName col = FullTextFieldNamePlaceHolder"
  shows "holds \<rho> e \<longleftrightarrow> text_row fs \<rho> (InfixExpr (ColumnRef col) op r)"
proof (cases fs)
  case Nil
  have e: "e = LiteralExpr (NewLiteral (VBool (is_like op \<and> AsString r = Some (SingleQuote ''%''))))"
    using assms(1) Nil by (cases "AsString r") (simp_all add: full_text_comparison_def split: if_splits)
  have "holds \<rho> (LiteralExpr (NewLiteral (VBool b))) = b" for b
    using assms(4) [of b] by (simp add: NewLiteral_def)
  then show ?thesis
    unfolding e using Nil assms(5) by (simp add: text_row_def as_ColumnRef_def)
next
  case (Cons f fs')
  let ?cs = "map (\<lambda>f. InfixExpr (ColumnRef (NewColumnRefWithTable f (TableAlias col))) op r) fs"
  have "\<exists>c \<in> set ?cs. c \<noteq> NilExpr" using Cons by simp
  from holds_Or [OF this, of \<rho>] show ?thesis
    using assms(1,2,3,5) Cons
    by (auto simp: full_text_comparison_def text_row_def as_ColumnRef_def list_ex_iff)
qed

lemma full_text_holds:
  assumes "\<And>b. \<rho> (LiteralExpr (NewLiteral (VBool b))) = b"
  shows "text_clause fs e \<Longrightarrow> rewritable (replace_full_text fs) (full_text_ok fs) e \<Longrightarrow>
    holds \<rho> (rewrite (replace_full_text fs) keep e) \<longleftrightarrow> holds (text_row fs \<rho>) e"
proof (induction e rule: text_clause.induct)
  case (1 fs l op r)
  let ?e = "InfixExpr l op r"
  show ?case
  proof (cases "replace_full_text fs ?e")
    case (Some e')
    then obtain col where l: "l = ColumnRef col" "ColumnName col = FullTextFieldNamePlaceHolder"
        "full_text_comparison fs col op r = Some e'"
      by (cases l) (auto simp: replace_full_text_def as_ColumnRef_def split: if_splits)
    have op: "op \<noteq> ''AND''" "op \<noteq> ''OR''" using "1.prems"(1) Some by simp_all
    have "rewrite (replace_full_text fs) keep ?e = e'" using Some by (simp add: rewrite.simps [of _ _ ?e])
    then show ?thesis
      using full_text_comparison_holds [OF l(3) op assms l(2)] op l(1) by simp
  next
    case None
    show ?thesis
    proof (cases "op = ''AND'' \<or> op = ''OR''")
      case True
      have "rewritable (replace_full_text fs) (full_text_ok fs) l"
        "rewritable (replace_full_text fs) (full_text_ok fs) r"
        using rewritable_children [OF "1.prems"(2) None] by simp_all
      then show ?thesis
        using "1.IH" "1.prems"(1) None True
        by (auto simp: rewrite.simps [of _ _ ?e] keep_def)
    next
      case False
      then have plain: "all_nodes (\<lambda>e. replace_full_text fs e = None) ?e" using "1.prems"(1) None by simp
      moreover have "text_row fs \<rho> ?e = \<rho> ?e"
        using None rewritable_node [OF "1.prems"(2)]
        by (auto simp: text_row_def replace_full_text_def full_text_ok_def split: option.splits if_splits)
      ultimately show ?thesis
        using rewrite_id [OF plain] False by simp
    qed
  qed
qed (use assms in \<open>simp_all add: rewrite_id text_row_other\<close>)

text \<open>
  C33: A condition on the full-text placeholder means that some full-text field of the schema
  satisfies it; without such fields it means whether the pattern is the one that matches
  everything.  The pass keeps the truth of every WHERE clause built with AND and OR from
  comparisons under this reading, and fails or panics on no query in which the placeholder stands
  only on the left of comparisons.
\<close>

theorem full_text_keeps_truth:
  assumes "rewritable (replace_full_text (full_text_fields sch)) (full_text_ok (full_text_fields sch))
      (SelectE (q_SelectCommand q))"
    and "WhereClause (q_SelectCommand q) \<noteq> NilExpr"
    and "text_clause (full_text_fields sch) (WhereClause (q_SelectCommand q))"
    and "\<And>b. \<rho> (LiteralExpr (NewLiteral (VBool b))) = b"
  shows "\<exists>q'. applyFullTextField sch q = Some (Inr q') \<and>
    (holds \<rho> (WhereClause (q_SelectCommand q')) \<longleftrightarrow>
     holds (text_row (full_text_fields sch) \<rho>) (WhereClause (q_SelectCommand q)))"
proof -
  let ?fs = "full_text_fields sch"
  let ?g = "rewrite (replace_full_text ?fs) keep"
  let ?e = "SelectE (q_SelectCommand q)"
  obtain sel where sel: "?g ?e = SelectE sel"
      "run_visitor (full_text_visitor ?fs) False q = Some (q\<lparr>q_SelectCommand := sel\<rparr>, False)"
    by (rule run_visitor_rewrite [OF conjunct1 [OF full_text_rewriting.accept_rewrite [OF assms(1)]]
          full_text_rewriting.rewrite_SelectE])
  have "WhereClause sel = ?g (WhereClause (q_SelectCommand q))"
    using sel(1) assms(2)
    by (simp add: rewrite.simps [of _ _ "SelectE _"] replace_full_text_def keep_def NewSelectCommand_def clause_of_def,
        elim subst) simp
  moreover have "rewritable (replace_full_text ?fs) (full_text_ok ?fs) (WhereClause (q_SelectCommand q))"
    by (rule rewritable_children [OF assms(1)]) (use assms(2) in \<open>simp_all add: replace_full_text_def\<close>)
  ultimately show ?thesis
    using full_text_holds [OF assms(4,3)] sel(2) by (simp add: applyFullTextField_def)
qed

text \<open>A row in which the host name matches every pattern.\<close>

definition host_row :: "expr \<Rightarrow> bool" where
  "host_row e =
     (case e of
        InfixExpr l op r \<Rightarrow> l = column_named ''host_name''
      | LiteralExpr l \<Rightarrow> (case Value l of VBool b \<Rightarrow> b | _ \<Rightarrow> False)
      | _ \<Rightarrow> False)"

definition text_query :: "search_after schema_query" where
  "text_query = encoding_query\<lparr>q_SelectCommand := NewSelectCommand [column_named ''host_name''] [] []
     (TableRef (NewTableRef ''logs''))
     (InfixExpr (InfixExpr (column_named FullTextFieldNamePlaceHolder) ''iLIKE'' (literal (SingleQuote ''%a%''))) ''OR''
        (InfixExpr (column_named ''size'') ''='' (LiteralExpr (NewLiteral (VInt KInt 1))))) [] 10 0 False []\<rparr>"

theorem full_text_keeps_truth_witness:
  "\<exists>q'. applyFullTextField sample_fields text_query = Some (Inr q') \<and> holds host_row (WhereClause (q_SelectCommand q'))"
proof -
  have fs: "full_text_fields sample_fields = [''host_name'']" by code_simp
  have "rewritable (replace_full_text (full_text_fields sample_fields)) (full_text_ok (full_text_fields sample_fields))
      (SelectE (q_SelectCommand text_query))" by code_simp
  moreover have "WhereClause (q_SelectCommand text_query) \<noteq> NilExpr"
    by (simp add: text_query_def NewSelectCommand_def)
  moreover have "text_clause (full_text_fields sample_fields) (WhereClause (q_SelectCommand text_query))" by code_simp
  moreover have "host_row (LiteralExpr (NewLiteral (VBool b))) = b" for b
    by (simp add: host_row_def NewLiteral_def)
  moreover have "holds (text_row (full_text_fields sample_fields) host_row) (WhereClause (q_SelectCommand text_query))"
    unfolding fs
    by (simp add: text_query_def NewSelectCommand_def text_row_def as_ColumnRef_def host_row_def NewColumnRef_def
        NewColumnRefWithTable_def)
  ultimately show ?thesis
    using full_text_keeps_truth [of sample_fields text_query host_row] by blast
qed

section \<open>Wildcards\<close>

lemma sort_mset: "mset xs = mset ys \<Longrightarrow> sort xs = sort (ys :: 'a::linorder list)"
  by (rule properties_for_sort) simp_all

lemma mset_map_filter:
  "mset xs = mset ys \<Longrightarrow> mset (map f (filter P (map g xs))) = mset (map f (filter P (map g ys)))"
  by (metis mset_filter mset_map)

text \<open>
  The expansion of wildcards does not depend on the order in which a Go map is walked: schemas
  with the same fields and runtime mappings with the same names give the same query or the same
  error.  After it no wildcard is left, the other columns come first in their order, and the columns
  the wildcard stood for follow in increasing order.
\<close>

lemma wildcard_expansion_deterministic:

  assumes "mset (Fields sch) = mset (Fields sch')" and "q_RuntimeMappings q = Some ms" and "mset ms = mset ms'"
  shows "applyWildcardExpansion sch' (q\<lparr>q_RuntimeMappings := Some ms'\<rparr>) =
      map_option (map_sum id (\<lambda>r. r\<lparr>q_RuntimeMappings := Some ms'\<rparr>)) (applyWildcardExpansion sch q)"
proof -
  have "wildcard_columns sch' (Some ms') = wildcard_columns sch (Some ms)"
    unfolding wildcard_columns_def option.case
    by (rule sort_mset) (simp add: assms(1,3))
  then show ?thesis
    using assms(2) by (simp add: applyWildcardExpansion_def Let_def)
qed

section \<open>The rows of the next page\<close>

text \<open>
  A row, given by the values of the expressions in it, stands after the values of the last one: at
  the first sort field in which they differ it is greater in an ascending order, which is also the
  default of ClickHouse, and smaller in a descending one.
\<close>

fun precedes :: "order_by_direction \<Rightarrow> 'a::linorder \<Rightarrow> 'a \<Rightarrow> bool" where
  "precedes AscOrder a b \<longleftrightarrow> a < b"
| "precedes DescOrder a b \<longleftrightarrow> b < a"
| "precedes DefaultOrder a b \<longleftrightarrow> a < b"

fun comes_after :: "(expr \<Rightarrow> 'a::linorder) \<Rightarrow> order_by_expr list \<Rightarrow> expr list \<Rightarrow> bool" where
  "comes_after v (ob # obs) (p # ps) \<longleftrightarrow>
     precedes (ob_Direction ob) (v p) (v (ob_Expr ob)) \<or> v (ob_Expr ob) = v p \<and> comes_after v obs ps"
| "comes_after v _ _ \<longleftrightarrow> False"

text \<open>The order of each field is given.\<close>

definition orders_given :: "order_by_expr list \<Rightarrow> bool" where
  "orders_given obs \<longleftrightarrow> list_all (\<lambda>ob. ob_Direction ob \<noteq> DefaultOrder) obs"

text \<open>
  What the expression \<open>p\<close> stands for: a JSON number, which is a float, is for a field of dates exactly
  that many milliseconds, in 64 bits; a text is read back from its literal; any other value is the
  literal.
\<close>

definition float_is :: "float64 \<Rightarrow> int \<Rightarrow> bool" where
  "float_is f n \<longleftrightarrow>
     (case f of Finite neg m e \<Rightarrow> (if neg then - m else m) * 2 ^ nat e = n * 2 ^ nat (- e) | _ \<Rightarrow> False)"

definition sorts_dates :: "schema \<Rightarrow> order_by_expr \<Rightarrow> bool" where
  "sorts_dates sch ob \<longleftrightarrow>
     (case ob_Expr ob of
        ColumnRef c \<Rightarrow>
          (case ResolveField sch (ColumnName c) of
             Some f \<Rightarrow> type_Name (fieldType f) = ''date'' \<or> type_Name (fieldType f) = ''timestamp''
           | None \<Rightarrow> False)
      | _ \<Rightarrow> False)"

definition stands_for :: "schema \<Rightarrow> order_by_expr \<Rightarrow> search_value \<Rightarrow> expr \<Rightarrow> bool" where
  "stands_for sch ob sv p \<longleftrightarrow>
     (if sorts_dates sch ob
      then \<exists>n. p = FunctionExpr ''fromUnixTimestamp64Milli'' [LiteralExpr (NewLiteral (VInt KInt64 (wrap64 n)))]
        \<and> (\<forall>f. sv = SearchFloat f \<longrightarrow> float_is f n \<and> n \<le> 2 ^ 63)
      else \<exists>l. p = LiteralExpr l \<and>
        (case sv of
           SearchFloat f \<Rightarrow> l = NewLiteral (VOther (print_float f))
         | SearchValue (VString s) \<Rightarrow>
             (\<forall>rest. literal_end rest \<longrightarrow> sql_string (render_literal l @ rest) = Some (s, rest))
         | SearchValue x \<Rightarrow> l = NewLiteral x))"

text \<open>A valuation that compares tuples as ClickHouse does, from left to right.\<close>

definition compares_tuples :: "(expr \<Rightarrow> bool) \<Rightarrow> (expr \<Rightarrow> 'a::linorder) \<Rightarrow> bool" where
  "compares_tuples \<rho> v \<longleftrightarrow>
     (\<forall>ls rs. \<rho> (InfixExpr (TupleExpr ls) ''>'' (TupleExpr rs)) \<longleftrightarrow> ord_class.lexordp (map v rs) (map v ls))"

lemma lexordp_sides:
  "length ps = length obs \<Longrightarrow> orders_given obs \<Longrightarrow>
   ord_class.lexordp (map v (map snd (map2 sides obs ps))) (map v (map fst (map2 sides obs ps))) \<longleftrightarrow> comes_after v obs ps"
proof (induction v obs ps rule: comes_after.induct)
  case (1 v ob obs p ps)
  then show ?case by (cases "ob_Direction ob") (auto simp: sides_def orders_given_def)
qed auto

lemma natural_of_float_number:
  assumes "natural_of_float f = Some n"
  shows "\<exists>k. n = wrap64 k \<and> float_is f k \<and> k \<le> 2 ^ 63"
proof -
  obtain neg m e where f: "f = Finite neg m e" using assms by (cases f) (auto simp: natural_of_float_def)
  define k where "k = (if e < 0 then m div 2 ^ nat (- e) else m * 2 ^ nat e)"
  have neg: "neg \<longrightarrow> m = 0" and n: "n = wrap64 k" "k \<le> 2 ^ 63" and exact: "e < 0 \<longrightarrow> m mod 2 ^ nat (- e) = 0"
    using assms by (auto simp: f natural_of_float_def k_def Let_def split: if_splits)
  have "float_is f k" using neg exact by (auto simp: f float_is_def k_def)
  with n show ?thesis by blast
qed

lemma parse_search_value_stands:
  assumes "parse_search_value sch ob sv = Inr p"
  shows "stands_for sch ob sv p"
proof -
  obtain c f where c: "ob_Expr ob = ColumnRef c" "ResolveField sch (ColumnName c) = Some f"
    using assms by (auto simp: parse_search_value_def split: expr.split_asm option.split_asm)
  have quoted: "sql_string (render_literal (NewLiteral (VString (SingleQuote s))) @ rest) = Some (s, rest)"
    if "literal_end rest" for s rest
  proof -
    have "render_literal (NewLiteral (VString (SingleQuote s))) @ rest = CHR 0x27 # escape_body s @ CHR 0x27 # rest"
      by (simp add: render_literal_def NewLiteral_def escapeStringNormal_quoted) (simp add: SingleQuote_def)
    then show ?thesis by (simp add: sql_string_def read_literal_body [OF that])
  qed
  show ?thesis
  proof (cases "type_Name (fieldType f) \<in> {''date'', ''timestamp''}")
    case True
    then have dates: "sorts_dates sch ob" using c by (simp add: sorts_dates_def)
    obtain x n where x: "ExtractNumeric64Maybe sv = Some x" "natural_of_float x = Some n"
      and p: "p = FunctionExpr ''fromUnixTimestamp64Milli'' [LiteralExpr (NewLiteral (VInt KInt64 n))]"
      using assms c True by (auto simp: parse_search_value_def split: option.split_asm)
    obtain k where k: "n = wrap64 k" "float_is x k" "k \<le> 2 ^ 63" using natural_of_float_number [OF x(2)] by blast
    then have "\<forall>g. sv = SearchFloat g \<longrightarrow> float_is g k \<and> k \<le> 2 ^ 63"
      using x(1) by (auto simp: ExtractNumeric64Maybe_def)
    then show ?thesis using dates p k(1) by (auto simp: stands_for_def)
  next
    case False
    then have "\<not> sorts_dates sch ob" "p = search_literal sv"
      using assms c by (auto simp: sorts_dates_def parse_search_value_def)
    then show ?thesis
      using quoted by (auto simp: stands_for_def search_literal_def split: search_value.split any_value.split)
  qed
qed

lemma parse_search_values_stand:
  "parse_search_values sch obs vs = Inr ps \<Longrightarrow> i < length obs \<Longrightarrow> i < length vs \<Longrightarrow>
   stands_for sch (obs ! i) (vs ! i) (ps ! i)"
proof (induction sch obs vs arbitrary: ps i rule: parse_search_values.induct)
  case (1 sch ob obs v vs)
  from 1(2) obtain p ps' where "parse_search_value sch ob v = Inr p" "parse_search_values sch obs vs = Inr ps'" "ps = p # ps'"
    by (auto split: sum.split_asm simp: map_sum_def)
  with 1 parse_search_value_stands show ?case by (cases i) auto
qed auto

lemma parse_search_values_length:
  "parse_search_values sch obs vs = Inr ps \<Longrightarrow> length vs = length obs \<Longrightarrow> length ps = length obs"
  by (induction sch obs vs arbitrary: ps rule: parse_search_values.induct)
    (auto split: sum.splits simp: map_sum_def)

lemma search_after_condition_holds:
  assumes "compares_tuples \<rho> v" and "length ps = length obs" and "orders_given obs"
  shows "holds \<rho> (search_after_condition obs ps) \<longleftrightarrow> comes_after v obs ps"
  using assms lexordp_sides [OF assms(2,3), of v]
  by (simp add: search_after_condition_def compares_tuples_def Let_def)

text \<open>
  C18: When the order of every sort field is given, the page after given values consists of the rows
  that the query finds and that stand strictly after these values in its sort order, field by field.
  There is one value for each sort field; a number for a field of dates is taken as that many
  milliseconds, and any other value as itself.
\<close>

theorem search_after_continues:
  assumes "applySearchAfterParameter BasicAndFast sch q = Some (Inr q')"
    and "q_SearchAfter q = SearchAfterArray vs" and "compares_tuples \<rho> v"
    and "orders_given (OrderBy (q_SelectCommand q))"
  shows "\<exists>ps. length vs = length (OrderBy (q_SelectCommand q)) \<and> length ps = length vs
      \<and> (\<forall>i < length vs. stands_for sch (OrderBy (q_SelectCommand q) ! i) (vs ! i) (ps ! i))
      \<and> (holds \<rho> (WhereClause (q_SelectCommand q')) \<longleftrightarrow>
           (WhereClause (q_SelectCommand q) = NilExpr \<or> holds \<rho> (WhereClause (q_SelectCommand q)))
           \<and> comes_after v (OrderBy (q_SelectCommand q)) ps)"
proof -
  let ?s = "q_SelectCommand q"
  obtain ps where ps: "length vs = length (OrderBy ?s)" "parse_search_values sch (OrderBy ?s) vs = Inr ps"
      "q' = q\<lparr>q_SelectCommand := strategy_transform BasicAndFast ?s ps\<rparr>"
    using assms(1,2)
    by (auto simp: applySearchAfterParameter_def validateAndParse_def map_sum_def split: sum.splits if_splits)
  let ?c = "search_after_condition (OrderBy ?s) ps"
  have c: "?c \<noteq> NilExpr"
    by (simp add: search_after_condition_def Let_def)
  have "WhereClause (q_SelectCommand q') = And [WhereClause ?s, ?c]"
    by (simp add: ps(3) strategy_transform_def with_where_def NewSelectCommand_def)
  then have "holds \<rho> (WhereClause (q_SelectCommand q')) \<longleftrightarrow>
      (WhereClause ?s = NilExpr \<or> holds \<rho> (WhereClause ?s)) \<and> holds \<rho> ?c"
    using c by (auto simp: holds_And)
  moreover note len = parse_search_values_length [OF ps(2,1)]
  moreover have "stands_for sch (OrderBy ?s ! i) (vs ! i) (ps ! i)" if "i < length vs" for i
    using parse_search_values_stand [OF ps(2)] ps(1) that by simp
  ultimately show ?thesis
    using ps(1) search_after_condition_holds [OF assms(3) len assms(4)] by auto
qed

text \<open>Rows sorted by size in ascending order and then by host in descending order.\<close>

definition paged_query :: "search_after schema_query" where
  "paged_query = sample_query\<lparr>
     q_SelectCommand := NewSelectCommand [column_named ''host''] []
        [OrderByExpr (column_named ''size'') AscOrder, OrderByExpr (column_named ''host.name'') DescOrder]
        (TableRef (NewTableRef ''logs'')) NilExpr [] 10 0 False [],
     q_SearchAfter := SearchAfterArray [SearchValue (VInt KInt 3), SearchValue (VInt KInt 7)]\<rparr>"

definition paged_fields :: schema where
  "paged_fields =
     NewSchema
       [(''size'', \<lparr>PropertyName = ''size'', InternalPropertyName = ''size'',
           InternalPropertyType = ''Int64'', fieldType = QuesmaTypeInteger, Origin = FieldSourceIngest\<rparr>),
        (''host.name'', \<lparr>PropertyName = ''host.name'', InternalPropertyName = ''host_name'',
           InternalPropertyType = ''Int64'', fieldType = QuesmaTypeInteger, Origin = FieldSourceIngest\<rparr>)]
       True ''db''"

definition row_number :: "expr \<Rightarrow> int" where
  "row_number e =
     (case e of
        ColumnRef c \<Rightarrow> if ColumnName c = ''size'' then 3 else 5
      | LiteralExpr l \<Rightarrow> (case Value l of VInt _ n \<Rightarrow> n | _ \<Rightarrow> 0)
      | _ \<Rightarrow> 0)"

definition tuple_row :: "expr \<Rightarrow> bool" where
  "tuple_row e =
     (case e of
        InfixExpr l op r \<Rightarrow>
          (case (l, r) of
             (TupleExpr ls, TupleExpr rs) \<Rightarrow> ord_class.lexordp (map row_number rs) (map row_number ls)
           | _ \<Rightarrow> False)
      | _ \<Rightarrow> False)"

theorem search_after_continues_witness:
  "\<exists>q'. applySearchAfterParameter BasicAndFast paged_fields paged_query = Some (Inr q')
    \<and> holds tuple_row (WhereClause (q_SelectCommand q'))"
proof -
  obtain q' where q': "applySearchAfterParameter BasicAndFast paged_fields paged_query = Some (Inr q')"
  proof -
    have "case applySearchAfterParameter BasicAndFast paged_fields paged_query of Some (Inr _) \<Rightarrow> True | _ \<Rightarrow> False"
      by code_simp
    then show ?thesis by (auto split: option.splits sum.splits intro: that)
  qed
  have vs: "q_SearchAfter paged_query = SearchAfterArray [SearchValue (VInt KInt 3), SearchValue (VInt KInt 7)]"
    by (simp add: paged_query_def)
  have rows: "compares_tuples tuple_row row_number"
    by (simp add: compares_tuples_def tuple_row_def)
  have "orders_given (OrderBy (q_SelectCommand paged_query))" by code_simp
  from search_after_continues [OF q' vs rows this] obtain ps
    where "length ps = length [SearchValue (VInt KInt 3), SearchValue (VInt KInt 7)]"
      and "\<forall>i < length [SearchValue (VInt KInt 3), SearchValue (VInt KInt 7)].
        stands_for paged_fields (OrderBy (q_SelectCommand paged_query) ! i)
        ([SearchValue (VInt KInt 3), SearchValue (VInt KInt 7)] ! i) (ps ! i)"
      and holds: "holds tuple_row (WhereClause (q_SelectCommand q')) \<longleftrightarrow>
        (WhereClause (q_SelectCommand paged_query) = NilExpr \<or> holds tuple_row (WhereClause (q_SelectCommand paged_query)))
        \<and> comes_after row_number (OrderBy (q_SelectCommand paged_query)) ps"
    by blast
  moreover have "\<not> sorts_dates paged_fields (OrderBy (q_SelectCommand paged_query) ! 0)"
    "\<not> sorts_dates paged_fields (OrderBy (q_SelectCommand paged_query) ! 1)" by code_simp+
  ultimately have "ps = [LiteralExpr (NewLiteral (VInt KInt 3)), LiteralExpr (NewLiteral (VInt KInt 7))]"
    by (auto simp: length_Suc_conv numeral_2_eq_2 less_Suc_eq stands_for_def)
  moreover have "WhereClause (q_SelectCommand paged_query) = NilExpr"
    by (simp add: paged_query_def NewSelectCommand_def)
  moreover have "comes_after row_number (OrderBy (q_SelectCommand paged_query))
      [LiteralExpr (NewLiteral (VInt KInt 3)), LiteralExpr (NewLiteral (VInt KInt 7))]"
    by code_simp
  ultimately show ?thesis using holds q' by auto
qed

section \<open>A witness of the expansion\<close>

definition wild_query :: "search_after schema_query" where
  "wild_query = sample_query\<lparr>
     q_SelectCommand := NewSelectCommand [LiteralExpr NewWildcardExpr] [] [] (TableRef (NewTableRef ''logs'')) NilExpr [] 10 0 False [],
     q_RuntimeMappings := Some [(''hour'', NilExpr), (''day'', NilExpr)]\<rparr>"

lemma wildcard_expansion_deterministic_example:
  "map_option (map_sum id (\<lambda>r. Columns (q_SelectCommand r)))
      (applyWildcardExpansion (paged_fields\<lparr>Fields := rev (Fields paged_fields)\<rparr>)
        (wild_query\<lparr>q_RuntimeMappings := Some [(''day'', NilExpr), (''hour'', NilExpr)]\<rparr>)) =
    Some (Inr (map column_named [''day'', ''host.name'', ''hour'', ''size'', IndexNameColumn]))"
proof -
  have "mset (Fields paged_fields) = mset (Fields (paged_fields\<lparr>Fields := rev (Fields paged_fields)\<rparr>))"
    by simp
  moreover have "q_RuntimeMappings wild_query = Some [(''hour'', NilExpr), (''day'', NilExpr)]"
    by (simp add: wild_query_def)
  moreover have "mset [(''hour'', NilExpr), (''day'', NilExpr)] = mset [(''day'', NilExpr), (''hour'', NilExpr)]"
    by simp
  ultimately have "applyWildcardExpansion (paged_fields\<lparr>Fields := rev (Fields paged_fields)\<rparr>)
        (wild_query\<lparr>q_RuntimeMappings := Some [(''day'', NilExpr), (''hour'', NilExpr)]\<rparr>) =
      map_option (map_sum id (\<lambda>r. r\<lparr>q_RuntimeMappings := Some [(''day'', NilExpr), (''hour'', NilExpr)]\<rparr>))
        (applyWildcardExpansion paged_fields wild_query)"
    by (rule wildcard_expansion_deterministic)
  moreover have "map_option (map_sum id (\<lambda>r. Columns (q_SelectCommand r))) (applyWildcardExpansion paged_fields wild_query) =
      Some (Inr (map column_named [''day'', ''host.name'', ''hour'', ''size'', IndexNameColumn]))"
    by code_simp
  ultimately show ?thesis
    by (cases "applyWildcardExpansion paged_fields wild_query") (auto simp: map_sum_def split: sum.splits)
qed

end
