(* ===== verification/Go_Json.thy ===== *)
theory Go_Json
  imports Go_Float
begin

text \<open>
  What the standard library of Go does with the values of a JSON document: the tree that
  \<open>json.Unmarshal\<close> builds, printing with \<open>%v\<close>, reading of integers and floats, of hexadecimal
  texts and of dates in the layouts the sources use.
\<close>

section \<open>Documents\<close>

text \<open>
  Numbers are \<open>float64\<close>.  An object is a Go map, here the list of its entries in the order of a
  walk; keys are distinct.
\<close>

datatype json =
    JNull
  | JBool bool
  | JNumber float64
  | JString string
  | JArray "json list"
  | JObject "(string \<times> json) list"

type_synonym json_map = "(string \<times> json) list"

lemma size_json_entry [termination_simp]:
  "(k, x) \<in> set m \<Longrightarrow> size x < Suc (size_list (\<lambda>p. Suc (size (snd p))) m)"
  by (induction m) auto

lemma size_json_lookup [termination_simp]:
  "map_of m k = Some x \<Longrightarrow> size x < Suc (size_list (\<lambda>p. Suc (size (snd p))) m)"
  by (drule map_of_SomeD) (rule size_json_entry)

fun wf_json :: "json \<Rightarrow> bool" where
  "wf_json (JArray xs) = (\<forall>x \<in> set xs. wf_json x)"
| "wf_json (JObject m) = (distinct (map fst m) \<and> (\<forall>(k, x) \<in> set m. wf_json x))"
| "wf_json _ = True"

text \<open>Type assertions.\<close>

definition as_JString :: "json \<Rightarrow> string option" where
  "as_JString v = (case v of JString s \<Rightarrow> Some s | _ \<Rightarrow> None)"

definition as_JNumber :: "json \<Rightarrow> float64 option" where
  "as_JNumber v = (case v of JNumber f \<Rightarrow> Some f | _ \<Rightarrow> None)"

definition as_JArray :: "json \<Rightarrow> json list option" where
  "as_JArray v = (case v of JArray xs \<Rightarrow> Some xs | _ \<Rightarrow> None)"

definition as_JObject :: "json \<Rightarrow> json_map option" where
  "as_JObject v = (case v of JObject m \<Rightarrow> Some m | _ \<Rightarrow> None)"

lemma as_Some_iff [simp]:
  "as_JString v = Some s \<longleftrightarrow> v = JString s" "as_JNumber v = Some f \<longleftrightarrow> v = JNumber f"
  "as_JArray v = Some xs \<longleftrightarrow> v = JArray xs" "as_JObject v = Some m \<longleftrightarrow> v = JObject m"
  by (auto simp: as_JString_def as_JNumber_def as_JArray_def as_JObject_def split: json.splits)

text \<open>\<open>%v\<close>: the entries of a map are printed in the order of their keys.\<close>

fun print_json :: "json \<Rightarrow> string" where
  "print_json JNull = ''<nil>''"
| "print_json (JBool b) = (if b then ''true'' else ''false'')"
| "print_json (JNumber f) = print_float f"
| "print_json (JString s) = s"
| "print_json (JArray xs) = ''['' @ join '' '' (map print_json xs) @ '']''"
| "print_json (JObject m) =
     ''map['' @ join '' ''
       (map (\<lambda>(k, v). k @ '':'' @ v) (sort_key fst (map (\<lambda>(k, v). (k, print_json v)) m))) @ '']''"

section \<open>Numbers\<close>

text \<open>\<open>strconv.ParseInt\<close> in base 10 with 64 bits, and \<open>strconv.Atoi\<close>; \<open>None\<close> is an error.\<close>

definition digits_int :: "string \<Rightarrow> int" where
  "digits_int s = foldl (\<lambda>n c. 10 * n + (of_char c - 48)) 0 s"

definition ParseInt64 :: "string \<Rightarrow> int option" where
  "ParseInt64 s =
     (let (neg, ds) = split_sign s
      in if \<not> all_digits ds then None
         else (let n = (if neg then - digits_int ds else digits_int ds)
               in if int64_range n then Some n else None))"

text \<open>
  Underscores separate digits, also a digit and the prefix of a base.  The automaton of
  \<open>strconv.underscoreOK\<close> remembers whether the last character was a digit, an underscore or another.
\<close>

datatype underscore_state = SawStart | SawDigit | SawUnderscore | SawOther

fun underscores :: "bool \<Rightarrow> underscore_state \<Rightarrow> string \<Rightarrow> bool" where
  "underscores hex saw [] = (saw \<noteq> SawUnderscore)"
| "underscores hex saw (c # s) =
     (if digit c \<or> hex \<and> lower_char c \<in> set ''abcdef'' then underscores hex SawDigit s
      else if c = CHR ''_'' then saw = SawDigit \<and> underscores hex SawUnderscore s
      else saw \<noteq> SawUnderscore \<and> underscores hex SawOther s)"

definition underscoreOK :: "string \<Rightarrow> bool" where
  "underscoreOK s =
     (let t = snd (split_sign s)
      in case t of
           a # b # r \<Rightarrow>
             if a = CHR ''0'' \<and> lower_char b \<in> set ''box'' then underscores (lower_char b = CHR ''x'') SawDigit r
             else underscores False SawStart t
         | _ \<Rightarrow> underscores False SawStart t)"

definition ParseFloat64 :: "string \<Rightarrow> float64 option" where
  "ParseFloat64 s =
     (if CHR ''_'' \<notin> set s then ParseFloat s
      else if underscoreOK s then ParseFloat (filter (\<lambda>c. c \<noteq> CHR ''_'') s) else None)"

text \<open>
  \<open>int64(f)\<close>: towards zero; what does not fit, and NaN, is the least integer, as on amd64.
\<close>

definition int64_of_float :: "float64 \<Rightarrow> int" where
  "int64_of_float f =
     (case f of
        Finite neg m e \<Rightarrow>
          (let a = (if e < 0 then m div 2 ^ nat (- e) else m * 2 ^ nat e); n = (if neg then - a else a)
           in if int64_range n then n else - (2 ^ 63))
      | _ \<Rightarrow> - (2 ^ 63))"

text \<open>\<open>n \<le> f\<close> for a natural number.\<close>

definition float_at_least :: "nat \<Rightarrow> float64 \<Rightarrow> bool" where
  "float_at_least n f =
     (case f of
        NaN \<Rightarrow> False
      | Inf neg \<Rightarrow> \<not> neg
      | Finite neg m e \<Rightarrow>
          (if neg then n = 0 \<and> m = 0
           else if e < 0 then int n * 2 ^ nat (- e) \<le> m else int n \<le> m * 2 ^ nat e))"

section \<open>Strings\<close>

text \<open>\<open>strings.ReplaceAll\<close> of a text of two characters.\<close>

fun replace_pair :: "char \<Rightarrow> char \<Rightarrow> string \<Rightarrow> string \<Rightarrow> string" where
  "replace_pair a b new (x # y # s) =
     (if x = a \<and> y = b then new @ replace_pair a b new s else x # replace_pair a b new (y # s))"
| "replace_pair a b new s = s"

text \<open>\<open>hex.DecodeString\<close>; \<open>None\<close> is an error.\<close>

fun hex_decode :: "string \<Rightarrow> string option" where
  "hex_decode [] = Some []"
| "hex_decode [c] = None"
| "hex_decode (c # d # s) =
     (case (hexadecimal_digit c, hexadecimal_digit d) of
        (Some h, Some l) \<Rightarrow> map_option (Cons (char_of (nat (16 * h + l)))) (hex_decode s)
      | _ \<Rightarrow> None)"

section \<open>Dates\<close>

text \<open>The zone \<open>Z07\<close>: hours only.\<close>

definition get_short_zone :: "int parser" where
  "get_short_zone s =
     (case s of
        [] \<Rightarrow> None
      | sign # r \<Rightarrow>
          if sign = CHR ''Z'' then Some (0, r)
          else if sign \<noteq> CHR ''+'' \<and> sign \<noteq> CHR ''-'' then None
          else do { (hr, r) \<leftarrow> ranged 0 24 (getnum True) r;
                    let off = int (hr * 3600);
                    Some (if sign = CHR ''-'' then - off else off, r) })"

text \<open>
  The layouts \<open>2006-01-02T15:04:05\<close> cut off after the year, the month, the day, the hour, the minute,
  or followed by nothing or a zone: \<open>n\<close> counts the parts.  What the layout does not have is the
  first of January, midnight, UTC.
\<close>

definition part :: "nat \<Rightarrow> nat \<Rightarrow> char \<Rightarrow> nat \<Rightarrow> nat parser \<Rightarrow> nat parser" where
  "part n i sep missing p s =
     (if n < i then Some (missing, s) else do { (_, r) \<leftarrow> skip sep s; p r })"

definition parse_layout :: "nat \<Rightarrow> int parser \<Rightarrow> string \<Rightarrow> gotime option" where
  "parse_layout n get_offset s =
     do { (year, s) \<leftarrow> get_year s;
          (month, s) \<leftarrow> part n 2 (CHR ''-'') 1 (ranged 1 12 (getnum True)) s;
          (day, s) \<leftarrow> part n 3 (CHR ''-'') 1 (getnum True) s;
          (hour, s) \<leftarrow> part n 4 (CHR ''T'') 0 (ranged 0 23 (getnum False)) s;
          (minute, s) \<leftarrow> part n 5 (CHR '':'') 0 (ranged 0 59 (getnum True)) s;
          (sec, s) \<leftarrow> part n 6 (CHR '':'') 0 (ranged 0 59 (getnum True)) s;
          (nsec, s) \<leftarrow> (if n < 6 then Some (0, s) else get_fraction s);
          (off, s) \<leftarrow> get_offset s;
          if s \<noteq> [] \<or> day < 1 \<or> int day > month_lengths (int year) ! (month - 1) then None
          else Some \<lparr>unix_nano =
              ((days_of_date (int year) month (int day) - epoch_days) * 86400
               + int (hour * 3600 + minute * 60 + sec) - off) * second + int nsec,
            zone = off\<rparr> }"

definition no_zone :: "int parser" where "no_zone s = Some (0, s)"

definition UnixMilli :: "gotime \<Rightarrow> int" where
  "UnixMilli t = unix_nano t div 10 ^ 6"

text \<open>\<open>/\<close> of Go truncates.\<close>

definition go_div :: "int \<Rightarrow> int \<Rightarrow> int" where
  "go_div a b = (if (a < 0) = (b < 0) then \<bar>a\<bar> div \<bar>b\<bar> else - (\<bar>a\<bar> div \<bar>b\<bar>))"

text \<open>\<open>AddDate\<close> and \<open>time.Date\<close> in a zone of a fixed offset: months and days are normalised.\<close>

definition time_Date :: "int \<Rightarrow> int \<Rightarrow> int \<Rightarrow> int \<Rightarrow> int \<Rightarrow> gotime" where
  "time_Date year month day nanos offset =
     (let y = year + (month - 1) div 12; m = nat ((month - 1) mod 12) + 1
      in \<lparr>unix_nano = ((days_of_date y m 1 + day - 1 - epoch_days) * 86400 - offset) * second + nanos, zone = offset\<rparr>)"

definition local_date :: "gotime \<Rightarrow> int \<times> nat \<times> int" where
  "local_date t = date_of_days ((unix_nano t div second + zone t) div 86400 + epoch_days)"

definition nanos_of_day :: "gotime \<Rightarrow> int" where
  "nanos_of_day t = (unix_nano t + zone t * second) mod (86400 * second)"

definition AddDate :: "int \<Rightarrow> int \<Rightarrow> int \<Rightarrow> gotime \<Rightarrow> gotime" where
  "AddDate years months days t =
     (let (y, m, d) = local_date t
      in time_Date (y + years) (int m + months) (d + days) (nanos_of_day t) (zone t))"

text \<open>The day of the week, Sunday being 0; the first of January of the year 1 was a Monday.\<close>

definition Weekday :: "gotime \<Rightarrow> int" where
  "Weekday t = ((unix_nano t div second + zone t) div 86400 + 4) mod 7"

text \<open>The layout \<open>2006-01-02 15:04:05\<close>.\<close>

definition format_seconds :: "gotime \<Rightarrow> string" where
  "format_seconds t =
     (let (year, month, day) = local_date t;
          sec = nat (nanos_of_day t div second)
      in (if year < 0 then ''-'' @ four_digits (nat (- year)) else four_digits (nat year))
         @ ''-'' @ two_digits month @ ''-'' @ two_digits (nat day)
         @ '' '' @ two_digits (sec div 3600) @ '':'' @ two_digits (sec div 60 mod 60) @ '':'' @ two_digits (sec mod 60))"

end
