(* ===== verification/Click_Types.thy ===== *)
theory Click_Types
  imports Go_Json
begin

text \<open>
  Types, columns and tables of ClickHouse as the gateway keeps them: \<open>schema.go\<close>, \<open>table.go\<close> and
  \<open>index.go\<close> of \<open>quesma/clickhouse\<close>, with the text of the statements that create tables.
  Conversion of values by reflection is in \<open>Ingest_Attributes\<close>.
\<close>

section \<open>Types\<close>

datatype go_type =
  GoString | GoTime | GoUint64 | GoInt32 | GoInt64 | GoFloat64 | GoPoint | GoBool | GoJsonMap | GoStringMap | GoUnknown

text \<open>A column of a tuple may be a nil pointer.\<close>

datatype click_type =
    BaseType (base_Name: string) (GoType: go_type) (Nullable: bool)
  | CompoundType (compound_Name: string) click_type
  | MultiValueType (multi_Name: string) "click_column option list"
and click_column =
  Column (col_Name: string) (col_Type: click_type) (Modifiers: string) (Codec: string) (col_Comment: string)

lemma size_tuple_column [termination_simp]:
  "Some c \<in> set cols \<Longrightarrow> size (col_Type c) < Suc (size_list (size_option size) cols)"
proof (induction cols)
  case (Cons x cols)
  then show ?case by (cases c) (auto simp: less_Suc_eq_le intro: le_trans)
qed simp

definition ResolveType :: "string \<Rightarrow> go_type option" where
  "ResolveType n =
     (if n \<in> {''String'', ''LowCardinality(String)'', ''UUID'', ''FixedString''} then Some GoString
      else if n \<in> {''DateTime64'', ''DateTime'', ''Date'', ''DateTime64(3)''} then Some GoTime
      else if n \<in> {''UInt8'', ''UInt16'', ''UInt32'', ''UInt64''} then Some GoUint64
      else if n \<in> {''Int8'', ''Int16'', ''Int32''} then Some GoInt32
      else if n = ''Int64'' then Some GoInt64
      else if n \<in> {''Float32'', ''Float64''} then Some GoFloat64
      else if n = ''Point'' then Some GoPoint
      else if n = ''Bool'' then Some GoBool
      else if n = ''JSON'' then Some GoJsonMap
      else if n \<in> {''Map(String, Nullable(String))'', ''Map(String, String)''} then Some GoStringMap
      else if n = ''Unknown'' then Some GoUnknown
      else None)"

definition NewBaseType :: "string \<Rightarrow> click_type" where
  "NewBaseType n = BaseType n (case ResolveType n of Some t \<Rightarrow> t | None \<Rightarrow> GoString) False"

fun type_String :: "click_type \<Rightarrow> string" where
  "type_String (BaseType n g nul) = n"
| "type_String (CompoundType n t) = n @ ''('' @ type_String t @ '')''"
| "type_String (MultiValueType n cols) =
     n @ ''('' @ join '', ''
       (concat (map (\<lambda>col. case col of None \<Rightarrow> []
          | Some c \<Rightarrow>
              [col_Name c @ '' '' @
               (let colType = type_String (col_Type c)
                in if \<not> contains colType ''Array'' \<and> \<not> contains colType ''Tuple'' \<and> \<not> contains colType ''DateTime''
                   then ''Nullable('' @ colType @ '')'' else colType)]) cols)) @ '')''"

definition StringWithNullable :: "click_type \<Rightarrow> string" where
  "StringWithNullable t =
     (case t of
        BaseType n g nul \<Rightarrow> if nul then ''Nullable('' @ n @ '')'' else n
      | _ \<Rightarrow> type_String t)"

definition isArray :: "click_type \<Rightarrow> bool" where
  "isArray t = (case t of CompoundType n b \<Rightarrow> n = ''Array'' | _ \<Rightarrow> False)"

definition isBool :: "click_type \<Rightarrow> bool" where
  "isBool t = (case t of BaseType n g nul \<Rightarrow> n = ''Bool'' | _ \<Rightarrow> False)"

definition isString :: "click_type \<Rightarrow> bool" where
  "isString t = (case t of BaseType n g nul \<Rightarrow> n = ''String'' | _ \<Rightarrow> False)"

definition IsNullable :: "click_type \<Rightarrow> bool" where
  "IsNullable t = (case t of BaseType n g nul \<Rightarrow> nul | _ \<Rightarrow> False)"

definition Indent :: "nat \<Rightarrow> string" where
  "Indent indentLvl = replicate indentLvl (CHR 0x09)"

text \<open>The text of a column in a statement; a nil column panics.\<close>

fun type_createTableString :: "nat \<Rightarrow> click_type \<Rightarrow> string option"
  and column_createTableString :: "nat \<Rightarrow> click_column \<Rightarrow> string option" where
  "type_createTableString lvl (BaseType n g nul) = Some n"
| "type_createTableString lvl (CompoundType n t) = Some (type_String (CompoundType n t))"
| "type_createTableString lvl (MultiValueType n cols) =
     do { rows \<leftarrow> opt_mapM (\<lambda>col. case col of None \<Rightarrow> None | Some c \<Rightarrow> column_createTableString (lvl + 1) c) cols;
          Some (n @ [CHR 0x0A] @ Indent lvl @ ''('' @ [CHR 0x0A]
            @ (if rows = [] then [] else join ('','' @ [CHR 0x0A]) rows @ [CHR 0x0A]) @ Indent lvl @ '')'') }"
| "column_createTableString lvl (Column n t modifiers codec comment) =
     do { typ \<leftarrow> type_createTableString lvl t;
          Some (Indent lvl @ [CHR 0x22] @ n @ [CHR 0x22] @ '' '' @ typ @ (if length modifiers = 0 then [] else '' '')
            @ modifiers @ (if length comment = 0 then [] else '' COMMENT '' @ [CHR 0x27] @ comment @ [CHR 0x27])) }"

text \<open>\<open>MultiValueType.GetColumn\<close>: reading the name of a nil column panics.\<close>

fun GetColumn :: "string \<Rightarrow> click_column option list \<Rightarrow> click_column option option" where
  "GetColumn n [] = Some None"
| "GetColumn n (None # cols) = None"
| "GetColumn n (Some c # cols) = (if col_Name c = n then Some (Some c) else GetColumn n cols)"

section \<open>Types of JSON values\<close>

datatype new_type_error = EmptyMap string | EmptyArray string | NilType string

definition is_integral :: "float64 \<Rightarrow> bool" where
  "is_integral f = (case f of Finite neg m e \<Rightarrow> e \<ge> 0 \<or> m mod 2 ^ nat (- e) = 0 | _ \<Rightarrow> False)"

text \<open>
  The slice of the columns of an object is made with as many nil pointers as it has entries, and
  the columns are appended to these.
\<close>

fun NewType :: "json \<Rightarrow> string \<Rightarrow> new_type_error + click_type"
  and new_columns :: "json_map \<Rightarrow> string \<Rightarrow> new_type_error + click_column option list" where
  "NewType (JString s) origin =
     (if parse_RFC3339 s \<noteq> None then Inr (BaseType ''DateTime64'' GoTime False)
      else if parse_layout 6 no_zone s \<noteq> None then Inr (BaseType ''DateTime64'' GoTime False)
      else Inr (BaseType ''String'' GoString False))"
| "NewType (JNumber f) origin =
     (if is_integral f then Inr (BaseType ''Int64'' GoInt64 False) else Inr (BaseType ''Float64'' GoFloat64 False))"
| "NewType (JBool b) origin = Inr (BaseType ''Bool'' GoBool False)"
| "NewType (JObject m) origin =
     (case new_columns m origin of
        Inl err \<Rightarrow> Inl err
      | Inr cols \<Rightarrow>
          if length m + length cols = 0 then Inl (EmptyMap origin)
          else Inr (MultiValueType ''Tuple'' (replicate (length m) None @ cols)))"
| "NewType (JArray xs) origin =
     (case xs of
        [] \<Rightarrow> Inl (EmptyArray origin)
      | x # _ \<Rightarrow>
          (case NewType x (origin @ ''[0]'') of
             Inl err \<Rightarrow> Inl err
           | Inr innerType \<Rightarrow> Inr (CompoundType ''Array'' innerType)))"
| "NewType JNull origin = Inl (NilType origin)"
| "new_columns [] origin = Inr []"
| "new_columns ((k, v) # m) origin =
     (case NewType v (origin @ ''.'' @ k) of
        Inl err \<Rightarrow> Inl err
      | Inr innerType \<Rightarrow> map_sum id (Cons (Some (Column k innerType [] [] []))) (new_columns m origin))"

section \<open>Tables\<close>

record attribute =
  KeysArrayName :: string
  ValuesArrayName :: string
  TypesArrayName :: string
  MapValueName :: string
  MapMetadataName :: string
  attribute_Type :: click_type

record table_config =
  HasTimestamp :: bool
  TimestampDefaultsNow :: bool
  Engine :: string
  config_OrderBy :: string
  PartitionBy :: string
  PrimaryKey :: string
  Settings :: string
  Ttl :: string
  config_Cluster :: string
  Attributes :: "attribute list"
  CastUnsupportedAttrValueTypesToString :: bool
  PreferCastingToOthers :: bool

text \<open>The columns are in the order in which the Go map is walked.\<close>

record click_table =
  click_Name :: string
  click_Database :: string
  click_Cluster :: string
  Cols :: "(string \<times> click_column) list"
  click_Config :: table_config
  click_Created :: bool
  click_Indexes :: "string list"
  click_aliases :: "(string \<times> string) list"
  click_Comment :: string
  CreateTableQuery :: string
  DiscoveredTimestampFieldName :: "string option"
  VirtualTable :: bool

definition default_attribute :: "string \<Rightarrow> click_type \<Rightarrow> attribute" where
  "default_attribute kind t =
     \<lparr>KeysArrayName = ''attributes_'' @ kind @ ''_key'', ValuesArrayName = ''attributes_'' @ kind @ ''_value'',
      TypesArrayName = ''attributes_'' @ kind @ ''_type'', MapValueName = ''attributes_values'',
      MapMetadataName = ''attributes_metadata'', attribute_Type = t\<rparr>"

definition NewDefaultStringAttribute :: attribute where
  "NewDefaultStringAttribute = default_attribute ''string'' (NewBaseType ''String'')"
definition NewDefaultInt64Attribute :: attribute where
  "NewDefaultInt64Attribute = default_attribute ''int64'' (NewBaseType ''Int64'')"
definition NewDefaultFloat64Attribute :: attribute where
  "NewDefaultFloat64Attribute = default_attribute ''float64'' (NewBaseType ''Float64'')"
definition NewDefaultBoolAttribute :: attribute where
  "NewDefaultBoolAttribute = default_attribute ''bool'' (NewBaseType ''Bool'')"

definition NewDefaultCHConfig :: table_config where
  "NewDefaultCHConfig =
     \<lparr>HasTimestamp = True, TimestampDefaultsNow = True, Engine = ''MergeTree'',
      config_OrderBy = ''('' @ [CHR 0x22] @ ''@timestamp'' @ [CHR 0x22] @ '')'', PartitionBy = [], PrimaryKey = [],
      Settings = [], Ttl = [], config_Cluster = [],
      Attributes = [NewDefaultInt64Attribute, NewDefaultFloat64Attribute, NewDefaultBoolAttribute, NewDefaultStringAttribute],
      CastUnsupportedAttrValueTypesToString = True, PreferCastingToOthers = True\<rparr>"

definition CreateTablePostFieldsString :: "table_config \<Rightarrow> string" where
  "CreateTablePostFieldsString c =
     (let clause = (\<lambda>keyword s. if s \<noteq> [] then keyword @ s @ [CHR 0x0A] else [])
      in ''ENGINE = '' @ Engine c @ [CHR 0x0A] @ clause ''ORDER BY '' (config_OrderBy c)
         @ clause ''PARTITION BY '' (PartitionBy c) @ clause ''PRIMARY KEY '' (PrimaryKey c)
         @ clause ''TTL '' (Ttl c) @ clause ''SETTINGS '' (Settings c))"

definition clickhouse_timestamp :: string where "clickhouse_timestamp = ''@timestamp''"

definition quoted_row :: "string \<Rightarrow> string \<Rightarrow> string" where
  "quoted_row n rest = Indent 1 @ [CHR 0x22] @ n @ [CHR 0x22] @ rest"

definition createTableOurFieldsString :: "click_table \<Rightarrow> string list" where
  "createTableOurFieldsString t =
     (if HasTimestamp (click_Config t) \<and> map_of (Cols t) clickhouse_timestamp = None
      then [quoted_row clickhouse_timestamp ('' DateTime64(3)'' @
              (if TimestampDefaultsNow (click_Config t) then '' DEFAULT now64()'' else []))]
      else [])
     @ concat (map (\<lambda>a.
         (if map_of (Cols t) (MapValueName a) = None then [quoted_row (MapValueName a) '' Map(String,String)''] else [])
         @ (if map_of (Cols t) (MapMetadataName a) = None then [quoted_row (MapMetadataName a) '' Map(String,String)''] else []))
       (Attributes (click_Config t)))"

definition FullTableName :: "click_table \<Rightarrow> string" where
  "FullTableName t =
     (if click_Database t \<noteq> [] then quote (click_Database t) @ ''.'' @ quote (click_Name t) else quote (click_Name t))"

definition CreateTableString :: "click_table \<Rightarrow> string option" where
  "CreateTableString t =
     do { columns \<leftarrow> opt_mapM (\<lambda>(_, c). column_createTableString 1 c) (Cols t);
          let rows = columns @ createTableOurFieldsString t @ map (\<lambda>i. Indent 1 @ i) (click_Indexes t);
          Some (''CREATE TABLE IF NOT EXISTS '' @ FullTableName t
            @ (if click_Cluster t \<noteq> [] then '' ON CLUSTER '' @ quote (click_Cluster t) else [])
            @ '' ('' @ [CHR 0x0A] @ join ('','' @ [CHR 0x0A]) rows @ [CHR 0x0A] @ '')'' @ [CHR 0x0A]
            @ CreateTablePostFieldsString (click_Config t)) }"

definition GetIndexStatement :: "string \<Rightarrow> string" where
  "GetIndexStatement column =
     (if column = ''severity'' then ''INDEX severity_idx severity TYPE set(25) GRANULARITY 4''
      else if column = ''body'' then ''INDEX body_idx body TYPE tokenbf_v1(10240, 3, 0) GRANULARITY 4''
      else if column = ''trace_flags'' then ''INDEX trace_flags_idx trace_flags TYPE bloom_filter GRANULARITY 4''
      else if column = ''id'' then ''INDEX id_idx id TYPE minmax GRANULARITY 1''
      else if column = ''event_name'' then ''INDEX event_name_idx event_name TYPE minmax GRANULARITY 1''
      else [])"

datatype date_time_type = DateTime64 | DateTime | InvalidDateTime

definition date_time_type_String :: "date_time_type \<Rightarrow> string" where
  "date_time_type_String t =
     (case t of DateTime64 \<Rightarrow> ''DateTime64'' | DateTime \<Rightarrow> ''DateTime'' | InvalidDateTime \<Rightarrow> ''Invalid'')"

definition GetDateTimeType :: "click_table \<Rightarrow> string \<Rightarrow> date_time_type" where
  "GetDateTimeType t fieldName =
     (let typeName = (case map_of (Cols t) fieldName of Some c \<Rightarrow> type_String (col_Type c) | None \<Rightarrow> [])
      in if has_prefix typeName ''DateTime64'' then DateTime64
         else if has_prefix typeName ''DateTime'' then DateTime
         else if HasTimestamp (click_Config t) \<and> fieldName = clickhouse_timestamp then DateTime64
         else InvalidDateTime)"

datatype field_info = NotExists | ExistsAndIsBaseType | ExistsAndIsArray

definition GetFieldInfo :: "click_table \<Rightarrow> string \<Rightarrow> field_info" where
  "GetFieldInfo t fieldName =
     (case map_of (Cols t) fieldName of
        None \<Rightarrow> NotExists
      | Some c \<Rightarrow> if isArray (col_Type c) then ExistsAndIsArray else ExistsAndIsBaseType)"

definition HasColumn :: "click_table \<Rightarrow> string \<Rightarrow> bool" where
  "HasColumn t fieldName \<longleftrightarrow> map_of (Cols t) fieldName \<noteq> None"

text \<open>The deprecated aliases whose column is missing are left out.\<close>

definition AliasFields :: "click_table \<Rightarrow> click_column list" where
  "AliasFields t =
     concat (map (\<lambda>(key, val).
       (case map_of (Cols t) val of
          None \<Rightarrow> [] | Some c \<Rightarrow> [Column key (col_Type c) (Modifiers c) [] []])) (click_aliases t))"

end
