(* ===== verification/Date_Math.thy ===== *)
theory Date_Math
  imports Click_Types
begin

text \<open>
  Dates in requests: date math such as \<open>now-15m/d\<close>, \<open>date_expr.go\<close> of
  \<open>quesma/parsers/elastic_query_dsl\<close>, and absolute dates, \<open>dates.go\<close>.
\<close>

section \<open>Date math\<close>

record date_interval =
  amount :: int
  time_unit :: string

record date_math =
  intervals :: "date_interval list"
  rounding :: string

datatype date_math_error =
    NowExpected
  | GarbageAtEnd
  | NumberExpected
  | InvalidNumber string
  | InvalidCharacter char
  | InvalidTimeUnit string
  | InvalidRoundingUnit string
  | NoRenderer string

text \<open>The loop of \<open>ParseDateMathExpression\<close> with its variables \<open>number\<close>, \<open>rounding\<close> and \<open>result\<close>.\<close>

fun date_math_loop :: "string \<Rightarrow> bool \<Rightarrow> date_math \<Rightarrow> string \<Rightarrow> date_math_error + date_math" where
  "date_math_loop number isRounding result [] = Inr result"
| "date_math_loop number isRounding result (c # s) =
     (if c = CHR ''+'' \<or> c = CHR ''-'' then date_math_loop [c] isRounding result s
      else if c = CHR ''/'' then date_math_loop number True result s
      else if digit c then date_math_loop (number @ [c]) isRounding result s
      else if c \<in> set ''mshdwMyY'' then
        (if isRounding then
           (if length (c # s) > 1 then Inl GarbageAtEnd
            else date_math_loop number isRounding (result\<lparr>rounding := [c]\<rparr>) s)
         else if length number = 0 then Inl NumberExpected
         else (case ParseInt64 number of
                 None \<Rightarrow> Inl (InvalidNumber number)
               | Some val \<Rightarrow>
                   date_math_loop [] isRounding
                     (result\<lparr>intervals := intervals result @ [\<lparr>amount = val, time_unit = [c]\<rparr>]\<rparr>) s))
      else Inl (InvalidCharacter c))"

definition ParseDateMathExpression :: "string \<Rightarrow> date_math_error + date_math" where
  "ParseDateMathExpression input =
     (if has_prefix input ''now''
      then date_math_loop [] False \<lparr>intervals = [], rounding = []\<rparr> (drop 3 input)
      else Inl NowExpected)"

section \<open>Rendering as ClickHouse functions\<close>

definition parseTimeUnit :: "string \<Rightarrow> string option" where
  "parseTimeUnit u =
     (if u = ''m'' then Some ''minute'' else if u = ''s'' then Some ''second''
      else if u = ''h'' \<or> u = ''H'' then Some ''hour'' else if u = ''d'' then Some ''day''
      else if u = ''w'' then Some ''week'' else if u = ''M'' then Some ''month''
      else if u = ''y'' then Some ''year'' else None)"

definition roundingFunction :: "string \<rightharpoonup> string" where
  "roundingFunction =
     [''d'' \<mapsto> ''toStartOfDay'', ''w'' \<mapsto> ''toStartOfWeek'', ''M'' \<mapsto> ''toStartOfMonth'', ''Y'' \<mapsto> ''toStartOfYear'']"

fun render_intervals :: "string \<Rightarrow> date_interval list \<Rightarrow> date_math_error + string" where
  "render_intervals result [] = Inr result"
| "render_intervals result (i # is) =
     (if amount i = 0 then render_intervals result is
      else (let op = (if amount i < 0 then ''subDate'' else ''addDate'');
                n = (if amount i < 0 then wrap64 (- amount i) else amount i)
            in case parseTimeUnit (time_unit i) of
                 None \<Rightarrow> Inl (InvalidTimeUnit (time_unit i))
               | Some u \<Rightarrow>
                   render_intervals (op @ ''('' @ result @ '', INTERVAL '' @ itoa n @ '' '' @ u @ '')'') is))"

definition render_clickhouse :: "date_math \<Rightarrow> date_math_error + string" where
  "render_clickhouse e =
     (case render_intervals ''now()'' (intervals e) of
        Inl err \<Rightarrow> Inl err
      | Inr result \<Rightarrow>
          if rounding e \<noteq> [] then
            (case roundingFunction (rounding e) of
               Some function \<Rightarrow> Inr (function @ ''('' @ result @ '')'')
             | None \<Rightarrow> Inl (InvalidRoundingUnit (rounding e)))
          else Inr result)"

section \<open>Rendering as a literal\<close>

text \<open>
  The time is the clock's, in a zone of a fixed offset.  Durations wrap; dates are computed without
  overflow.
\<close>

definition minutes :: "int \<Rightarrow> int" where "minutes n = wrap64 (60 * second * n)"
definition seconds :: "int \<Rightarrow> int" where "seconds n = wrap64 (n * second)"
definition hours :: "int \<Rightarrow> int" where "hours n = wrap64 (n * 3600 * second)"

definition add_interval :: "gotime \<Rightarrow> date_interval \<Rightarrow> date_math_error + gotime" where
  "add_interval t i =
     (let n = amount i; u = time_unit i
      in if n = 0 then Inr t
         else if u = ''m'' then Inr (time_Add t (minutes n))
         else if u = ''s'' then Inr (time_Add t (seconds n))
         else if u = ''h'' \<or> u = ''H'' then Inr (time_Add t (hours n))
         else if u = ''d'' then Inr (AddDate 0 0 n t)
         else if u = ''w'' then Inr (AddDate 0 0 (wrap64 (n * 7)) t)
         else if u = ''M'' then Inr (AddDate 0 n 0 t)
         else if u = ''Y'' \<or> u = ''y'' then Inr (AddDate n 0 0 t)
         else Inl (InvalidTimeUnit u))"

fun add_intervals :: "gotime \<Rightarrow> date_interval list \<Rightarrow> date_math_error + gotime" where
  "add_intervals t [] = Inr t"
| "add_intervals t (i # is) =
     (case add_interval t i of Inl err \<Rightarrow> Inl err | Inr t' \<Rightarrow> add_intervals t' is)"

definition start_of_day :: "gotime \<Rightarrow> gotime" where
  "start_of_day t = (let (y, m, d) = local_date t in time_Date y (int m) d 0 (zone t))"

definition round_time :: "string \<Rightarrow> gotime \<Rightarrow> date_math_error + gotime" where
  "round_time r t =
     (let (y, m, d) = local_date t
      in if r = [] then Inr t
         else if r = ''d'' then Inr (start_of_day t)
         else if r = ''w'' then Inr (start_of_day (AddDate 0 0 (- Weekday t) t))
         else if r = ''M'' then Inr (time_Date y (int m) 1 0 (zone t))
         else if r = ''Y'' then Inr (time_Date y 1 1 0 (zone t))
         else Inl (InvalidRoundingUnit r))"

definition render_literal_date :: "gotime \<Rightarrow> date_math \<Rightarrow> date_math_error + string" where
  "render_literal_date clock e =
     (case add_intervals clock (intervals e) of
        Inl err \<Rightarrow> Inl err
      | Inr t \<Rightarrow> map_sum id (\<lambda>t. SingleQuote (format_seconds t)) (round_time (rounding e) t))"

datatype date_renderer = AsClickhouseIntervals | AsLiteral gotime

text \<open>The clock of the test renderer is 2024-05-17 12:01:02.000000003 UTC.\<close>

definition test_clock :: gotime where
  "test_clock = \<lparr>unix_nano = 1715947262000000003, zone = 0\<rparr>"

definition DateMathExpressionRendererFactory :: "gotime \<Rightarrow> string \<Rightarrow> date_renderer option" where
  "DateMathExpressionRendererFactory clock fmt =
     (if fmt = [] \<or> fmt = ''clickhouse_intervals'' then Some AsClickhouseIntervals
      else if fmt = ''literal'' then Some (AsLiteral clock)
      else if fmt = ''test'' then Some (AsLiteral test_clock)
      else None)"

definition RenderSQL :: "date_renderer \<Rightarrow> date_math \<Rightarrow> date_math_error + string" where
  "RenderSQL r e =
     (case r of AsClickhouseIntervals \<Rightarrow> render_clickhouse e | AsLiteral clock \<Rightarrow> render_literal_date clock e)"

text \<open>\<open>parseDateMathExpression\<close> of \<open>query_parser.go\<close>.\<close>

definition parseDateMathExpression :: "gotime \<Rightarrow> string \<Rightarrow> string \<Rightarrow> date_math_error + string" where
  "parseDateMathExpression clock renderer expr =
     (case ParseDateMathExpression (replace_char (CHR 0x27) [] expr) of
        Inl err \<Rightarrow> Inl err
      | Inr e \<Rightarrow>
          (case DateMathExpressionRendererFactory clock renderer of
             None \<Rightarrow> Inl (NoRenderer renderer)
           | Some r \<Rightarrow> RenderSQL r e))"

section \<open>Absolute dates\<close>



text \<open>The layouts in the order they are tried; the third one is listed twice.\<close>

definition acceptableDateTimeFormats :: "(string \<Rightarrow> gotime option) list" where
  "acceptableDateTimeFormats =
     [parse_layout 1 no_zone, parse_layout 2 no_zone, parse_layout 3 no_zone, parse_layout 3 no_zone,
      parse_layout 4 no_zone, parse_layout 5 no_zone, parse_layout 6 no_zone,
      parse_layout 6 get_short_zone, parse_layout 6 get_zone]"

fun first_parse :: "(string \<Rightarrow> 'a option) list \<Rightarrow> string \<Rightarrow> 'a option" where
  "first_parse [] s = None"
| "first_parse (p # ps) s = (case p s of None \<Rightarrow> first_parse ps s | Some x \<Rightarrow> Some x)"

text \<open>Numbers from 10000 on are timestamps, smaller ones are years.\<close>

definition float_epoch :: "string \<Rightarrow> int option" where
  "float_epoch s =
     (case ParseFloat64 s of
        Some f \<Rightarrow> if float_at_least 10000 f then Some (int64_of_float f) else None
      | None \<Rightarrow> None)"

definition epoch_of_text :: "string \<Rightarrow> int option" where
  "epoch_of_text s =
     (case ParseInt64 s of
        Some n \<Rightarrow> if 10000 \<le> n then Some n else float_epoch s
      | None \<Rightarrow> float_epoch s)"

definition parseStrictDateOptionalTimeOrEpochMillis :: "json \<Rightarrow> int option" where
  "parseStrictDateOptionalTimeOrEpochMillis date =
     (case date of
        JNumber f \<Rightarrow> Some (int64_of_float f)
      | JString s \<Rightarrow>
          (case epoch_of_text s of
             Some n \<Rightarrow> Some n
           | None \<Rightarrow> map_option UnixMilli (first_parse acceptableDateTimeFormats s))
      | _ \<Rightarrow> None)"

definition ParseDateUsualFormat :: "json \<Rightarrow> date_time_type \<Rightarrow> expr option" where
  "ParseDateUsualFormat exprFromRequest datetimeType =
     (case parseStrictDateOptionalTimeOrEpochMillis exprFromRequest of
        None \<Rightarrow> None
      | Some unixTs \<Rightarrow>
          (case datetimeType of
             DateTime64 \<Rightarrow> Some (FunctionExpr ''fromUnixTimestamp64Milli'' [LiteralExpr (NewLiteral (VInt KInt64 unixTs))])
           | DateTime \<Rightarrow> Some (FunctionExpr ''fromUnixTimestamp'' [LiteralExpr (NewLiteral (VInt KInt64 (go_div unixTs 1000)))])
           | InvalidDateTime \<Rightarrow> None))"

section \<open>Reading back\<close>

lemma digits_int_append: "digits_int (s @ [c]) = 10 * digits_int s + (of_char c - 48)"
  by (simp add: digits_int_def)

lemma digit_char_value: "d < 10 \<Longrightarrow> digit (digit_char d) \<and> (of_char (digit_char d) :: int) - 48 = int d"
proof -
  assume "d < 10"
  from digit_char_props [OF this] have "digit (digit_char d)" "of_char (digit_char d) = d + 48"
    by (auto simp: digit_value_def digit_def Let_def)
  moreover have "(of_char (digit_char d) :: int) = int (of_char (digit_char d))"
    by (simp add: of_nat_of_char)
  ultimately show ?thesis by simp
qed

lemma nat_digits_props: "all_digits (nat_digits n) \<and> digits_int (nat_digits n) = int n"
proof (induction n rule: nat_digits.induct)
  case (1 n)
  show ?case
  proof (cases "n < 10")
    case True
    then have "nat_digits n = [digit_char n]"
      by (subst nat_digits.simps) simp
    with True show ?thesis
      using digit_char_value [of n] by (simp add: all_digits_def digits_int_def)
  next
    case False
    then have "nat_digits n = nat_digits (n div 10) @ [digit_char (n mod 10)]"
      by (subst nat_digits.simps) simp
    moreover have "int n = 10 * int (n div 10) + int (n mod 10)" by presburger
    ultimately show ?thesis
      using 1 False digit_char_value [of "n mod 10"] by (simp add: all_digits_def digits_int_append)
  qed
qed

lemma all_digits_no_sign: "all_digits s \<Longrightarrow> split_sign s = (False, s)"
  by (cases s) (auto simp: split_sign_def all_digits_def digit_def)

text \<open>An interval is written with its sign, a rounding after a slash.\<close>

definition print_amount :: "int \<Rightarrow> string" where
  "print_amount n = (if n < 0 then CHR ''-'' # nat_digits (nat (- n)) else CHR ''+'' # nat_digits (nat n))"

definition print_interval :: "date_interval \<Rightarrow> string" where
  "print_interval i = print_amount (amount i) @ time_unit i"

definition print_date_math :: "date_math \<Rightarrow> string" where
  "print_date_math e =
     ''now'' @ concat (map print_interval (intervals e)) @ (if rounding e = [] then [] else CHR ''/'' # rounding e)"

definition unit_ok :: "string \<Rightarrow> bool" where
  "unit_ok u \<longleftrightarrow> length u = 1 \<and> hd u \<in> set ''mshdwMyY''"

definition date_math_ok :: "date_math \<Rightarrow> bool" where
  "date_math_ok e \<longleftrightarrow>
     list_all (\<lambda>i. int64_range (amount i) \<and> unit_ok (time_unit i)) (intervals e) \<and> (rounding e = [] \<or> unit_ok (rounding e))"

lemma ParseInt64_print: "int64_range n \<Longrightarrow> ParseInt64 (print_amount n) = Some n"
  using nat_digits_props [of "nat n"] nat_digits_props [of "nat (- n)"]
  by (auto simp: ParseInt64_def print_amount_def split_sign_def Let_def)

lemma date_math_loop_digits:
  "list_all digit ds \<Longrightarrow> date_math_loop number r result (ds @ s) = date_math_loop (number @ ds) r result s"
  by (induction ds arbitrary: number) (auto simp: digit_def)

lemma date_math_loop_unit:
  assumes "u \<in> set ''mshdwMyY''" and "number \<noteq> []"
  shows "date_math_loop number False result (u # s) =
     (case ParseInt64 number of
        None \<Rightarrow> Inl (InvalidNumber number)
      | Some val \<Rightarrow>
          date_math_loop [] False (result\<lparr>intervals := intervals result @ [\<lparr>amount = val, time_unit = [u]\<rparr>]\<rparr>) s)"
  using assms by (auto simp: digit_def)

lemma date_math_loop_interval:
  assumes "int64_range (amount i)" and "unit_ok (time_unit i)"
  shows "date_math_loop number False result (print_interval i @ s) =
    date_math_loop [] False (result\<lparr>intervals := intervals result @ [i]\<rparr>) s"
proof -
  obtain u where u: "time_unit i = [u]" "u \<in> set ''mshdwMyY''"
    using assms(2) by (cases "time_unit i") (auto simp: unit_ok_def)
  define ds where "ds = nat_digits (nat \<bar>amount i\<bar>)"
  define c where "c = (if amount i < 0 then CHR ''-'' else CHR ''+'')"
  have p: "print_amount (amount i) = c # ds"
    by (simp add: print_amount_def ds_def c_def)
  have ds: "list_all digit ds"
    using nat_digits_props [of "nat \<bar>amount i\<bar>"] by (simp add: ds_def all_digits_def)
  have "date_math_loop number False result (print_interval i @ s) = date_math_loop [c] False result (ds @ u # s)"
    by (simp add: print_interval_def p u c_def)
  also have "\<dots> = date_math_loop (c # ds) False result (u # s)"
    using date_math_loop_digits [OF ds, of "[c]"] by simp
  also have "\<dots> = date_math_loop [] False (result\<lparr>intervals := intervals result @ [\<lparr>amount = amount i, time_unit = [u]\<rparr>]\<rparr>) s"
    using ParseInt64_print [OF assms(1)] date_math_loop_unit [OF u(2)] p by simp
  finally show ?thesis
    using u(1) by (cases i) simp
qed

lemma date_math_loop_intervals:
  "list_all (\<lambda>i. int64_range (amount i) \<and> unit_ok (time_unit i)) is \<Longrightarrow>
   date_math_loop [] False result (concat (map print_interval is) @ s) =
     date_math_loop [] False (result\<lparr>intervals := intervals result @ is\<rparr>) s"
  by (induction "is" arbitrary: result) (simp_all add: date_math_loop_interval)

text \<open>
  C17: Date math is read as it is written: the parser returns the intervals with their signs and
  units, in their order, and the rounding of every expression written with them.
\<close>

theorem date_math_roundtrip:
  assumes "date_math_ok e"
  shows "ParseDateMathExpression (print_date_math e) = Inr e"
proof -
  have "list_all (\<lambda>i. int64_range (amount i) \<and> unit_ok (time_unit i)) (intervals e)"
    using assms by (simp add: date_math_ok_def)
  then have "ParseDateMathExpression (print_date_math e) =
      date_math_loop [] False \<lparr>intervals = intervals e, rounding = []\<rparr> (if rounding e = [] then [] else CHR ''/'' # rounding e)"
    using date_math_loop_intervals
    by (simp add: ParseDateMathExpression_def print_date_math_def has_prefix_def del: date_math_loop.simps)
  also have "\<dots> = Inr e"
  proof (cases "rounding e")
    case (Cons u us)
    then have "us = []" "u \<in> set ''mshdwMyY''"
      using assms by (auto simp: date_math_ok_def unit_ok_def)
    then show ?thesis
      using Cons by (cases e) (auto simp: digit_def)
  qed (cases e, simp)
  finally show ?thesis .
qed

theorem date_math_roundtrip_witness:
  "ParseDateMathExpression ''now-15m+2d/w'' =
     Inr \<lparr>intervals = [\<lparr>amount = -15, time_unit = ''m''\<rparr>, \<lparr>amount = 2, time_unit = ''d''\<rparr>], rounding = ''w''\<rparr>"
proof -
  let ?e = "\<lparr>intervals = [\<lparr>amount = -15, time_unit = ''m''\<rparr>, \<lparr>amount = 2, time_unit = ''d''\<rparr>], rounding = ''w''\<rparr>"
  have "date_math_ok ?e" by code_simp
  moreover have "print_date_math ?e = ''now-15m+2d/w''" by code_simp
  ultimately show ?thesis using date_math_roundtrip [of ?e] by simp
qed

text \<open>A number without a unit is dropped, and the year of Elasticsearch cannot be rounded to.\<close>

lemma number_without_unit: "ParseDateMathExpression ''now-5'' = Inr \<lparr>intervals = [], rounding = []\<rparr>"
  by code_simp

lemma year_not_rounded: "parseDateMathExpression t [] ''now/y'' = Inl (InvalidRoundingUnit ''y'')"
  by (simp add: parseDateMathExpression_def ParseDateMathExpression_def has_prefix_def digit_def
      DateMathExpressionRendererFactory_def RenderSQL_def render_clickhouse_def roundingFunction_def)

section \<open>Instants\<close>

text \<open>The text of a time, part by part.\<close>

lemma format_shape:
  assumes "printable_time t"
  obtains y m d h mi se where
    "format_RFC3339 t = four_digits y @ ''-'' @ two_digits m @ ''-'' @ two_digits d @ ''T'' @ two_digits h @ '':''
       @ two_digits mi @ '':'' @ two_digits se @ print_zone (zone t)"
    "y < 10000" "1 \<le> m" "m \<le> 12" "d < 100" "h < 24" "mi < 60" "se < 60"
proof -
  define days where "days = (unix_nano t div second + zone t) div 86400 + epoch_days"
  define sec where "sec = nat ((unix_nano t div second + zone t) mod 86400)"
  obtain y m d where date: "date_of_days days = (y, m, d)" by (cases "date_of_days days") auto
  note rt = date_roundtrip [OF date]
  have y': "y = year_of_days days" using rt by simp
  note yc = year_of_days_correct [of days, folded y']
  have days: "year_start 0 \<le> days" "days < year_start 10000"
    using assms by (simp_all add: printable_time_def days_def)
  have "0 \<le> y" using yc days year_start_mono [of "y + 1" 0] by (cases "0 \<le> y") auto
  moreover have "y < 10000" using yc days year_start_mono [of 10000 y] by (cases "y < 10000") auto
  moreover have "1 \<le> m" "m \<le> 12" "d \<le> 31" using rt day_bound [of m y] by auto
  moreover have "sec div 3600 < 24" by (simp add: sec_def nat_less_iff less_mult_imp_div_less)
  ultimately show ?thesis
    using date
    by (intro that [of "nat y" m "nat d" "sec div 3600" "sec div 60 mod 60" "sec mod 60"])
      (simp_all add: format_RFC3339_def days_def [symmetric] sec_def [symmetric] Let_def nat_less_iff)
qed

lemma zone_shape: "print_zone off = ''Z'' \<or> (\<exists>c a r. print_zone off = c # two_digits a @ CHR '':'' # r \<and> c \<in> set ''+-'')"
  by (auto simp: print_zone_def Let_def)

lemma get_fraction_zone: "get_fraction (print_zone off) = Some (0, print_zone off)"
  by (auto simp: get_fraction_def print_zone_def Let_def split: list.splits)

definition no_layout :: "(string \<Rightarrow> gotime option) list" where
  "no_layout =
     [parse_layout 1 no_zone, parse_layout 2 no_zone, parse_layout 3 no_zone, parse_layout 3 no_zone,
      parse_layout 4 no_zone, parse_layout 5 no_zone, parse_layout 6 no_zone]"

lemma first_parse_append:
  "\<forall>p \<in> set ps. p s = None \<Longrightarrow> first_parse (ps @ qs) s = first_parse qs s"
  by (induction ps) auto

lemma print_zone_not_Nil: "print_zone off \<noteq> []"
  by (simp add: print_zone_def Let_def)

lemma layouts_of_time:
  assumes "printable_time t"
  shows "\<forall>p \<in> set no_layout. p (format_RFC3339 t) = None"
    and "parse_layout 6 get_zone (format_RFC3339 t) = Some t"
    and "parse_layout 6 get_short_zone (format_RFC3339 t) \<in> {None, Some t}"
proof -
  obtain y m d h mi se where s:
    "format_RFC3339 t = four_digits y @ ''-'' @ two_digits m @ ''-'' @ two_digits d @ ''T'' @ two_digits h @ '':''
       @ two_digits mi @ '':'' @ two_digits se @ print_zone (zone t)"
    and b: "y < 10000" "1 \<le> m" "m \<le> 12" "d < 100" "h < 24" "mi < 60" "se < 60"
    by (rule format_shape [OF assms]) (rule that)
  have zok: "zone_ok (zone t)" using assms by (simp add: printable_time_def)
  note parts = get_year_four_digits ranged_two_digits getnum_two_digits get_fraction_zone no_zone_def print_zone_not_Nil
  show "\<forall>p \<in> set no_layout. p (format_RFC3339 t) = None"
    using b unfolding s no_layout_def by (simp add: parse_layout_def part_def parts)
  have full: "parse_RFC3339 (format_RFC3339 t) = Some t" by (rule parse_format [OF assms])
  then show layout: "parse_layout 6 get_zone (format_RFC3339 t) = Some t"
    using b unfolding s by (simp add: parse_layout_def part_def parse_RFC3339_def parts get_zone_print [OF zok])
  show "parse_layout 6 get_short_zone (format_RFC3339 t) \<in> {None, Some t}"
  proof (cases "print_zone (zone t) = ''Z''")
    case True
    then have "get_short_zone (print_zone (zone t)) = get_zone (print_zone (zone t))"
      by (simp add: get_zone_def get_short_zone_def)
    then show ?thesis
      using layout b unfolding s by (simp add: parse_layout_def part_def parts)
  next
    case False
    then obtain c e r where z: "print_zone (zone t) = c # two_digits e @ CHR '':'' # r" "c \<in> set ''+-''"
      using zone_shape [of "zone t"] by metis
    then have "get_short_zone (print_zone (zone t)) = None \<or>
        (\<exists>x. get_short_zone (print_zone (zone t)) = Some (x, CHR '':'' # r))"
      by (auto simp: get_short_zone_def ranged_def getnum_def two_digits_def)
    then show ?thesis
      using b unfolding s by (auto simp: parse_layout_def part_def parts)
  qed
qed

text \<open>The text of a time is no number.\<close>

lemma year_is_no_float:
  assumes "digit a" "digit b" "digit c" "digit e"
  shows "ParseFloat (a # b # c # e # CHR ''-'' # r) = None"
proof -
  let ?s = "a # b # c # e # CHR ''-'' # r"
  have lower: "lower_char x = x" "x \<noteq> CHR ''.''" "decimal_digit x = Some (of_char x - 48)" "x \<noteq> CHR ''x''"
      "x \<noteq> CHR ''n''" "x \<noteq> CHR ''i''" if "digit x" for x
    using that by (auto simp: lower_char_def digit_def decimal_digit_def Let_def)
  have "split_sign ?s = (False, ?s)"
    using assms(1) by (auto simp: split_sign_def digit_def)
  moreover have "read_number False decimal_digit 10 10 1 (CHR ''e'') ?s = None"
    using assms by (simp add: read_number_def lower decimal_digit_def [of "CHR ''-''"] digit_def [of "CHR ''-''"]
        read_exponent_def lower_char_def)
  ultimately show ?thesis
    using assms lower(4-6) by (auto simp: ParseFloat_def to_lower_def lower(1) has_prefix_def)
qed

lemma time_is_no_number:
  assumes "printable_time t"
  shows "epoch_of_text (format_RFC3339 t) = None"
proof -
  obtain y m d h mi se where
    "format_RFC3339 t = four_digits y @ ''-'' @ two_digits m @ ''-'' @ two_digits d @ ''T'' @ two_digits h @ '':''
       @ two_digits mi @ '':'' @ two_digits se @ print_zone (zone t)"
    and "y < 10000"
    by (rule format_shape [OF assms]) (rule that)
  then obtain a b c e r where s: "format_RFC3339 t = a # b # c # e # CHR ''-'' # r"
    and ds: "digit a" "digit b" "digit c" "digit e"
    using digit_char_props [of "y div 1000"] digit_char_props [of "y div 100 mod 10"] digit_char_props [of "y div 10 mod 10"]
      digit_char_props [of "y mod 10"]
    by (simp add: four_digits_def less_mult_imp_div_less)
  have plain: "x \<noteq> CHR ''_''" "x \<noteq> CHR ''-''" "x \<noteq> CHR ''+''" if "digit x" for x
    using that by (auto simp: digit_def)
  have "ParseInt64 (format_RFC3339 t) = None"
    using plain [OF ds(1)] by (simp add: ParseInt64_def s split_sign_def all_digits_def digit_def [of "CHR ''-''"])
  moreover have "ParseFloat64 (format_RFC3339 t) = None"
    using year_is_no_float [OF ds] plain(1) [OF ds(1)] plain(1) [OF ds(2)] plain(1) [OF ds(3)] plain(1) [OF ds(4)]
    by (simp add: ParseFloat64_def s)
  ultimately show ?thesis
    by (simp add: epoch_of_text_def float_epoch_def)
qed

text \<open>
  C34: A time written in the format of RFC 3339 becomes exactly that instant, in milliseconds for
  columns with fractions of a second and in seconds for the others.
\<close>

theorem dates_become_instants:
  assumes "printable_time t"
  shows "ParseDateUsualFormat (JString (format_RFC3339 t)) DateTime64 =
      Some (FunctionExpr ''fromUnixTimestamp64Milli'' [LiteralExpr (NewLiteral (VInt KInt64 (UnixMilli t)))])
    \<and> ParseDateUsualFormat (JString (format_RFC3339 t)) DateTime =
      Some (FunctionExpr ''fromUnixTimestamp'' [LiteralExpr (NewLiteral (VInt KInt64 (unix_nano t div second)))])"
proof -
  have "first_parse acceptableDateTimeFormats (format_RFC3339 t) = Some t"
  proof -
    have f: "acceptableDateTimeFormats = no_layout @ [parse_layout 6 get_short_zone, parse_layout 6 get_zone]"
      by (simp add: acceptableDateTimeFormats_def no_layout_def)
    show ?thesis
      unfolding f first_parse_append [OF layouts_of_time(1) [OF assms]]
      using layouts_of_time(2,3) [OF assms] by auto
  qed
  then have "parseStrictDateOptionalTimeOrEpochMillis (JString (format_RFC3339 t)) = Some (UnixMilli t)"
    using time_is_no_number [OF assms] by (simp add: parseStrictDateOptionalTimeOrEpochMillis_def)
  moreover have "go_div (UnixMilli t) 1000 = unix_nano t div second"
  proof -
    obtain k where "unix_nano t = second * k"
      using assms by (auto simp: printable_time_def)
    then show ?thesis
      by (cases "k < 0") (simp_all add: second_def UnixMilli_def go_div_def abs_mult)
  qed
  ultimately show ?thesis
    by (simp add: ParseDateUsualFormat_def)
qed

theorem dates_become_instants_witness:
  "ParseDateUsualFormat (JString ''2023-11-14T22:13:20+02:00'') DateTime64 =
     Some (FunctionExpr ''fromUnixTimestamp64Milli'' [LiteralExpr (NewLiteral (VInt KInt64 1699992800000))])"
proof -
  let ?t = "\<lparr>unix_nano = 1699992800 * second, zone = 7200\<rparr>"
  have "printable_time ?t"
    by (simp add: printable_time_def second_def zone_ok_def year_start_def epoch_days_def)
  moreover have "format_RFC3339 ?t = ''2023-11-14T22:13:20+02:00''"
  proof -
    have "date_of_days 739203 = (2023, 11, 14)" by code_simp
    then show ?thesis
      by (simp add: format_RFC3339_def second_def epoch_days_def print_zone_def four_digits_def two_digits_def digit_char_def Let_def; code_simp)
  qed
  moreover have "UnixMilli ?t = 1699992800000"
    by (simp add: UnixMilli_def second_def)
  ultimately show ?thesis
    using dates_become_instants [of ?t] by simp
qed

end
