(* ===== verification/Lucene_Lexer.thy ===== *)
theory Lucene_Lexer
  imports Go_Float
begin

text \<open>
  The first stage of the Lucene query parser, \<open>lucene/lucene_parser.go\<close> and \<open>token.go\<close>:
  removing the fuzzy and boosting operators and cutting the query into tokens.

  Queries are bytes and their white space is ASCII.  Indexing an empty text panics; a function
  that may do so returns an \<open>option\<close>.  \<open>specialOperators\<close> is a Go map, which is walked in any
  order: \<open>next_token\<close> takes the order as an argument.
\<close>

section \<open>Tokens\<close>

text \<open>A bound is an \<open>any\<close>: nil, a \<open>float64\<close>, a string or an expression.\<close>

datatype bound = Unbounded | NumberBound float64 | TermBound string | ExprBound expr

record range_value =
  lowerBound :: bound
  upperBound :: bound
  lowerBoundInclusive :: bool
  upperBoundInclusive :: bool

datatype token =
    InvalidToken
  | SeparatorToken
  | OrToken
  | AndToken
  | NotToken
  | ExistsToken
  | LeftParenthesisToken
  | RightParenthesisToken
  | RangeToken range_value
  | FieldNameToken string
  | TermToken string

definition newRangeValue :: "bound \<Rightarrow> bool \<Rightarrow> bound \<Rightarrow> bool \<Rightarrow> range_value" where
  "newRangeValue lower lowerInclusive upper upperInclusive =
     \<lparr>lowerBound = lower, upperBound = upper,
      lowerBoundInclusive = lowerInclusive, upperBoundInclusive = upperInclusive\<rparr>"

definition newRangeValueGte :: "bound \<Rightarrow> range_value" where
  "newRangeValueGte b = newRangeValue b True Unbounded False"

definition newRangeValueGt :: "bound \<Rightarrow> range_value" where
  "newRangeValueGt b = newRangeValue b False Unbounded False"

definition newRangeValueLte :: "bound \<Rightarrow> range_value" where
  "newRangeValueLte b = newRangeValue Unbounded False b True"

definition newRangeValueLt :: "bound \<Rightarrow> range_value" where
  "newRangeValueLt b = newRangeValue Unbounded False b False"

section \<open>Fuzzy and boosting operators\<close>

definition fuzzyOperator :: char where "fuzzyOperator = CHR ''~''"
definition boostingOperator :: char where "boostingOperator = CHR ''^''"
definition escapeCharacter :: char where "escapeCharacter = CHR 0x5C"
definition infiniteRange :: string where "infiniteRange = ''*''"
definition rangeSeparator :: string where "rangeSeparator = '' TO ''"

text \<open>The number after an operator, which goes with it.\<close>

definition skip_number :: "string \<Rightarrow> string" where
  "skip_number s =
     (let r = dropWhile digit s
      in if r \<noteq> [] \<and> hd r = CHR ''.'' then dropWhile digit (tl r) else r)"

lemma skip_number_le: "length (skip_number s) \<le> length s"
proof -
  have "length (dropWhile digit (tl (dropWhile digit s))) \<le> length (dropWhile digit s)"
    using length_dropWhile_le[of digit "tl (dropWhile digit s)"] by simp
  then show ?thesis
    using length_dropWhile_le[of digit s] by (auto simp: skip_number_def Let_def)
qed

function removeSpecialCharacter :: "char \<Rightarrow> string \<Rightarrow> string" where
  "removeSpecialCharacter c [] = []"
| "removeSpecialCharacter c (x # s) =
     (if x = escapeCharacter \<and> s \<noteq> [] \<and> hd s = c then removeSpecialCharacter c (tl s)
      else if x = c then removeSpecialCharacter c (skip_number s)
      else x # removeSpecialCharacter c s)"
  by pat_completeness auto
termination
  by (relation "measure (\<lambda>(c, s). length s)") (auto simp: le_imp_less_Suc[OF skip_number_le])

definition removeFuzzySearchOperator :: "string \<Rightarrow> string" where
  "removeFuzzySearchOperator = removeSpecialCharacter fuzzyOperator"

definition removeBoostingOperator :: "string \<Rightarrow> string" where
  "removeBoostingOperator = removeSpecialCharacter boostingOperator"

section \<open>Terms and ranges\<close>

text \<open>
  The white space of ASCII; \<open>strings.TrimSpace\<close> also cuts the spaces of Unicode, so the model of a query
  with other characters than those of ASCII at an end may differ.
\<close>

definition white_space :: "char \<Rightarrow> bool" where
  "white_space c \<longleftrightarrow> c = CHR '' '' \<or> (9 \<le> (of_char c :: nat) \<and> (of_char c :: nat) \<le> 13)"

definition trim_space :: "string \<Rightarrow> string" where
  "trim_space s = rev (dropWhile white_space (rev (dropWhile white_space s)))"

text \<open>
  How many of the characters of a text make up the number at its front; \<open>None\<close> when it has a
  second point or is followed by a character that is not acceptable.
\<close>

fun scan_number :: "char list \<Rightarrow> nat \<Rightarrow> string \<Rightarrow> nat option" where
  "scan_number acceptable dots [] = Some 0"
| "scan_number acceptable dots (c # s) =
     (if c = CHR ''.'' then
        (if dots + 1 > 1 then None else map_option Suc (scan_number acceptable (dots + 1) s))
      else if digit c then map_option Suc (scan_number acceptable dots s)
      else if c \<in> set acceptable then Some 0
      else None)"

definition parseNumber :: "char list \<Rightarrow> string \<Rightarrow> float64 \<times> string" where
  "parseNumber acceptable query0 =
     (let query = trim_space query0;
          sign = (if query \<noteq> [] \<and> hd query = CHR ''-'' then 1 else 0)
      in case scan_number acceptable 0 (drop sign query) of
           None \<Rightarrow> (NaN, [])
         | Some n \<Rightarrow>
             (case ParseFloat (take (sign + n) query) of
                None \<Rightarrow> (NaN, [])
              | Some number \<Rightarrow> (number, drop (sign + n) query)))"

text \<open>\<open>ends_term closing c\<close>: the character \<open>c\<close> is the first after an unquoted term.\<close>

definition ends_term :: "bool \<Rightarrow> char \<Rightarrow> bool" where
  "ends_term closing c \<longleftrightarrow>
     c = CHR '' '' \<or> c = CHR '':'' \<or> c = CHR '')'' \<or>
     (closing \<and> (c = CHR ''}'' \<or> c = CHR '']''))"

text \<open>A comparison operator and its number.\<close>

definition parse_comparison :: "string \<Rightarrow> token \<times> string" where
  "parse_comparison query =
     (if length query = 1 then (InvalidToken, [])
      else
        let inclusive = (query ! 1 = CHR ''='');
            (number, rest) =
              parseNumber [CHR '' '', CHR '')''] (drop (if inclusive then 2 else 1) query);
            b = NumberBound number
        in (RangeToken
              (if hd query = CHR ''>''
               then (if inclusive then newRangeValueGte b else newRangeValueGt b)
               else (if inclusive then newRangeValueLte b else newRangeValueLt b)),
            rest))"

text \<open>
  \<open>parseOneBound\<close> returns the bound, \<open>None\<close> for an invalid one, and the rest of the query.
\<close>

function parseTerm :: "bool \<Rightarrow> string \<Rightarrow> (token \<times> string) option"
  and parseRange :: "string \<Rightarrow> (token \<times> string) option"
  and parseOneBound :: "bool \<Rightarrow> string \<Rightarrow> (bound option \<times> string) option" where
  "parseTerm closing query =
     (case query of
        [] \<Rightarrow> None
      | c # s \<Rightarrow>
          if c = CHR 0x22 then
            (if CHR 0x22 \<in> set s then
               let n = length (takeWhile (\<lambda>x. x \<noteq> CHR 0x22) s)
               in Some (TermToken (take (n + 2) query), drop (n + 2) query)
             else Some (InvalidToken, []))
          else if c \<in> {CHR ''>'', CHR ''<'', CHR ''['', CHR ''{''} then parseRange query
          else Some (TermToken (takeWhile (\<lambda>x. \<not> ends_term closing x) query),
                     dropWhile (\<lambda>x. \<not> ends_term closing x) query))"
| "parseRange query =
     (case query of
        [] \<Rightarrow> None
      | c # s \<Rightarrow>
          if c \<in> {CHR ''>'', CHR ''<''} then Some (parse_comparison query)
          else if c \<in> {CHR ''['', CHR ''{''} then
            (case parseOneBound False s of
               None \<Rightarrow> None
             | Some (None, r) \<Rightarrow> Some (InvalidToken, [])
             | Some (Some lower, r) \<Rightarrow>
                 if \<not> has_prefix r rangeSeparator then Some (InvalidToken, [])
                 else (case parseOneBound True (drop (length rangeSeparator) r) of
                         None \<Rightarrow> None
                       | Some (None, r2) \<Rightarrow> Some (InvalidToken, [])
                       | Some (Some upper, r2) \<Rightarrow>
                           (case r2 of
                              [] \<Rightarrow> Some (InvalidToken, [])
                            | d # r3 \<Rightarrow>
                                Some (RangeToken (newRangeValue lower (c = CHR ''['')
                                                    upper (d = CHR '']'')), r3))))
          else Some (InvalidToken, []))"
| "parseOneBound closing query =
     (let (number, r) = parseNumber (if closing then [CHR '']'', CHR ''}''] else [CHR '' '']) query
      in if number \<noteq> NaN then Some (Some (NumberBound number), r)
         else (case parseTerm closing query of
                 None \<Rightarrow> None
               | Some (TermToken t, r2) \<Rightarrow>
                   Some (Some (if t = infiniteRange then Unbounded else TermBound t), r2)
               | Some _ \<Rightarrow> Some (None, [])))"
  by pat_completeness auto

subsection \<open>Termination\<close>

text \<open>
  Each part returns a rest that is no longer than its query.  The second bound of a range is
  read from such a rest, so this is shown on the domain of the functions first.
\<close>

lemma length_trim_space: "length (trim_space s) \<le> length s"
  using length_dropWhile_le[of white_space "rev (dropWhile white_space s)"]
    length_dropWhile_le[of white_space s]
  by (simp add: trim_space_def)

lemma parseNumber_le: "parseNumber acceptable q = (n, r) \<Longrightarrow> length r \<le> length q"
  using length_trim_space[of q] by (auto simp: parseNumber_def Let_def split: option.splits)

lemma parse_comparison_le: "parse_comparison q = (t, r) \<Longrightarrow> length r \<le> length q"
  by (auto simp: parse_comparison_def Let_def split: if_splits prod.splits dest: parseNumber_le)

lemma parse_le:
  "parseTerm_parseRange_parseOneBound_dom (Inl (closing, q)) \<Longrightarrow>
   parseTerm closing q = Some (t, r) \<Longrightarrow> length r \<le> length q"
  "parseTerm_parseRange_parseOneBound_dom (Inr (Inl q)) \<Longrightarrow>
   parseRange q = Some (t, r) \<Longrightarrow> length r \<le> length q"
  "parseTerm_parseRange_parseOneBound_dom (Inr (Inr (closing, q))) \<Longrightarrow>
   parseOneBound closing q = Some (b, r) \<Longrightarrow> length r \<le> length q"
proof (induction closing q and q and closing q arbitrary: t r and t r and b r
    rule: parseTerm_parseRange_parseOneBound.pinduct)
  case (1 closing query)
  then show ?case
    by (auto simp: parseTerm.psimps Let_def length_dropWhile_le le_SucI split: list.splits if_splits)
next
  case (2 query)
  show ?case
  proof (cases query)
    case (Cons c s)
    show ?thesis
      using 2 Cons
      by (force simp: parseRange.psimps split: if_splits option.splits prod.splits list.splits
          dest: parse_comparison_le)
  qed (use 2 in \<open>simp add: parseRange.psimps\<close>)
next
  case (3 closing query)
  then show ?case
    by (force simp: parseOneBound.psimps Let_def split: if_splits option.splits prod.splits token.splits
        dest: parseNumber_le)
qed

lemma parse_total: "All parseTerm_parseRange_parseOneBound_dom"
proof (relation "measure (\<lambda>x. case x of Inl (b, q) \<Rightarrow> 3 * length q + 1 | Inr (Inl q) \<Rightarrow> 3 * length q
    | Inr (Inr (b, q)) \<Rightarrow> 3 * length q + 2)", goal_cases)
  case (4 query c s x r b lower)
  then show ?case using parse_le(3)[of False s] by auto
qed auto

termination parseTerm
  by (rule parse_total)

declare parseTerm.simps [simp del] parseRange.simps [simp del] parseOneBound.simps [simp del]

section \<open>Cutting a query into tokens\<close>

definition specialOperators :: "(string \<times> token) list" where
  "specialOperators =
     [(''AND '', AndToken), (''OR '', OrToken), (''NOT '', NotToken), (''!'', NotToken),
      (''_exists_:'', ExistsToken), (''('', LeftParenthesisToken), ('')'', RightParenthesisToken)]"

text \<open>\<open>nextToken\<close>; \<open>operators\<close> is \<open>specialOperators\<close> in the order of the iteration.\<close>

definition nextToken :: "(string \<times> token) list \<Rightarrow> string \<Rightarrow> (token list \<times> string) option" where
  "nextToken operators query =
     (case find (\<lambda>(operator, t). has_prefix query operator) operators of
        Some (operator, t) \<Rightarrow> Some ([t], drop (length operator) query)
      | None \<Rightarrow>
          (case parseTerm False query of
             None \<Rightarrow> None
           | Some (term, rest) \<Rightarrow>
               (let r = trim_space rest
                in if r = [] \<or> hd r \<noteq> CHR '':'' then Some ([term], r)
                   else (case term of
                           TermToken name \<Rightarrow> Some ([FieldNameToken name, SeparatorToken], tl r)
                         | _ \<Rightarrow> Some ([term, SeparatorToken], tl r)))))"

lemma trim_space_nonempty: "trim_space s \<noteq> [] \<Longrightarrow> dropWhile white_space s \<noteq> []"
  by (simp add: trim_space_def del: dropWhile_eq_Nil_conv) (metis dropWhile.simps(1) rev_is_Nil_conv)

lemma trim_space_prefix: "\<exists>n. trim_space s = take n (dropWhile white_space s)"
  by (metis append_eq_conv_conj rev_append rev_rev_ident takeWhile_dropWhile_id trim_space_def)

lemma trim_space_hd: "trim_space s \<noteq> [] \<Longrightarrow> \<not> white_space (hd (trim_space s))"
proof -
  assume ne: "trim_space s \<noteq> []"
  obtain n where n: "trim_space s = take n (dropWhile white_space s)"
    using trim_space_prefix by blast
  with ne have "hd (trim_space s) = hd (dropWhile white_space s)" by (metis hd_take gr0I take0)
  with hd_dropWhile[OF trim_space_nonempty[OF ne]] show ?thesis by simp
qed

lemma parseTerm_le: "parseTerm closing q = Some (t, r) \<Longrightarrow> length r \<le> length q"
  by (rule parse_le(1)[OF spec[OF parse_total]])

lemma parseOneBound_le: "parseOneBound closing q = Some (b, r) \<Longrightarrow> length r \<le> length q"
  by (rule parse_le(3)[OF spec[OF parse_total]])

lemma parse_comparison_less:
  "parse_comparison q = (t, r) \<Longrightarrow> q \<noteq> [] \<Longrightarrow> length r < length q"
  by (cases q) (auto simp: parse_comparison_def Let_def split: if_splits prod.splits dest!: parseNumber_le)

lemma parseRange_less: "parseRange q = Some (t, r) \<Longrightarrow> length r < length q"
  by (force simp: parseRange.simps[of q] split: list.splits if_splits option.splits prod.splits
      dest: parse_comparison_less parseOneBound_le)

lemma parseTerm_less:
  "parseTerm closing q = Some (t, r) \<Longrightarrow> \<not> ends_term closing (hd q) \<Longrightarrow> length r < length q"
  by (auto simp: parseTerm.simps[of closing q] Let_def length_dropWhile_le le_imp_less_Suc
      split: list.splits if_splits dest: parseRange_less)

lemma find_sound: "find P xs = Some x \<Longrightarrow> P x \<and> x \<in> set xs"
  by (induction xs) (auto split: if_splits)

lemma find_operator:
  "find (\<lambda>(operator, t). has_prefix q operator) specialOperators = Some (operator, t) \<Longrightarrow>
   has_prefix q operator \<and> operator \<noteq> []"
  by (drule find_sound) (auto simp: specialOperators_def)

lemma has_prefix_length: "has_prefix s p \<Longrightarrow> length p \<le> length s"
  by (metis has_prefix_def length_take min.absorb_iff2 min.commute)

lemma nextToken_less:
  assumes "nextToken specialOperators q = Some (ts, r)" "q \<noteq> []" "\<not> white_space (hd q)"
  shows "length r < length q"
proof (cases "find (\<lambda>(operator, t). has_prefix q operator) specialOperators")
  case None
  then have "hd q \<noteq> CHR '')''"
    using assms(2) by (auto simp: find_None_iff specialOperators_def has_prefix_def neq_Nil_conv)
  moreover have "hd q \<noteq> CHR '' ''" using assms(3) by (auto simp: white_space_def)
  ultimately have e: "ends_term False (hd q) \<longleftrightarrow> hd q = CHR '':''" by (simp add: ends_term_def)
  from assms(1) None obtain tok rest where
    pt: "parseTerm False q = Some (tok, rest)"
    and r: "r = (if trim_space rest = [] \<or> hd (trim_space rest) \<noteq> CHR '':'' then trim_space rest
                 else tl (trim_space rest))"
    by (auto simp: nextToken_def Let_def split: option.splits token.splits if_splits)
  have "length (trim_space rest) \<le> length q"
    using length_trim_space[of rest] parseTerm_le[OF pt] by simp
  show ?thesis
  proof (cases "hd q = CHR '':''")
    case True
    then have "rest = q" using pt assms(2)
      by (auto simp: parseTerm.simps[of False q] ends_term_def neq_Nil_conv)
    moreover obtain n where "trim_space q = take n (dropWhile white_space q)"
      using trim_space_prefix by blast
    ultimately have "trim_space rest = [] \<or> hd (trim_space rest) = CHR '':''"
      using True assms(2,3) by (cases q; cases n) auto
    with r \<open>length (trim_space rest) \<le> length q\<close> assms(2) show ?thesis
      by (cases "trim_space rest") auto
  next
    case False
    with parseTerm_less[OF pt] e r length_trim_space[of rest] show ?thesis
      by (auto split: if_splits)
  qed
next
  case (Some p)
  then show ?thesis using assms find_operator has_prefix_length
    by (cases p) (fastforce simp: nextToken_def)
qed

text \<open>The loop of \<open>tokenizeQuery\<close>; the tokens so far are \<open>tokens\<close>.\<close>

function tokenize_loop :: "token list \<Rightarrow> string \<Rightarrow> token list option" where
  "tokenize_loop tokens query0 =
     (let query = trim_space query0
      in if query = [] then Some tokens
         else (case nextToken specialOperators query of
                 None \<Rightarrow> None
               | Some (nextTokens, rest) \<Rightarrow>
                   if InvalidToken \<in> set nextTokens then Some [InvalidToken]
                   else tokenize_loop (tokens @ nextTokens) rest))"
  by pat_completeness auto
termination
proof (relation "measure (\<lambda>(tokens, q). length q)", goal_cases)
  case (2 tokens query0 query x nextTokens rest)
  then have "length rest < length query" using nextToken_less trim_space_hd by metis
  also have "\<dots> \<le> length query0" using length_trim_space 2 by simp
  finally show ?case by simp
qed simp

declare tokenize_loop.simps [simp del]

definition tokenizeQuery :: "string \<Rightarrow> token list option" where
  "tokenizeQuery query = tokenize_loop [] query"

section \<open>Removing operators\<close>

lemma removeSpecialCharacter_gone: "c \<notin> set (removeSpecialCharacter c s)"
  by (induction c s rule: removeSpecialCharacter.induct) auto

lemma removeSpecialCharacter_id: "c \<notin> set s \<Longrightarrow> removeSpecialCharacter c s = s"
  by (induction c s rule: removeSpecialCharacter.induct) auto

lemma removeSpecialCharacter_append:
  "c \<notin> set u \<Longrightarrow> (u \<noteq> [] \<Longrightarrow> last u \<noteq> escapeCharacter) \<Longrightarrow>
   removeSpecialCharacter c (u @ v) = u @ removeSpecialCharacter c v"
  by (induction u) (auto split: if_splits simp: hd_append)

text \<open>
  An escaped operator is dropped together with its backslash, although the comment in
  \<open>removeSpecialCharacter\<close> says that it is not removed.
\<close>

lemma escaped_operator_dropped:
  "c \<notin> set u \<Longrightarrow> (u \<noteq> [] \<Longrightarrow> last u \<noteq> escapeCharacter) \<Longrightarrow> c \<noteq> escapeCharacter \<Longrightarrow>
   removeSpecialCharacter c (u @ [escapeCharacter, c] @ v) = u @ removeSpecialCharacter c v"
  by (subst removeSpecialCharacter_append) simp_all

section \<open>The order of the operators\<close>

lemma operator_unique:
  "p \<in> set specialOperators \<Longrightarrow> p' \<in> set specialOperators \<Longrightarrow>
   has_prefix q (fst p) \<Longrightarrow> has_prefix q (fst p') \<Longrightarrow> p = p'"
proof -
  have first: "hd (fst x) = hd q" if "x \<in> set specialOperators" "has_prefix q (fst x)" for x
  proof -
    have "fst x \<noteq> []" using that(1) by (auto simp: specialOperators_def)
    then show ?thesis using that(2) by (cases q; cases "fst x") (auto simp: has_prefix_def)
  qed
  have "distinct (map (\<lambda>x. hd (fst x)) specialOperators)" by (simp add: specialOperators_def)
  then have "inj_on (\<lambda>x. hd (fst x)) (set specialOperators)" by (simp add: distinct_map)
  moreover assume "p \<in> set specialOperators" "p' \<in> set specialOperators"
    "has_prefix q (fst p)" "has_prefix q (fst p')"
  ultimately show ?thesis using first[of p] first[of p'] by (metis (no_types, lifting) inj_onD)
qed

lemma find_unique:
  assumes "\<And>x y. x \<in> set xs \<Longrightarrow> y \<in> set xs \<Longrightarrow> P x \<Longrightarrow> P y \<Longrightarrow> x = y" "set ys = set xs"
  shows "find P ys = find P xs"
proof (cases "find P xs")
  case None
  then have "find P ys = None" using assms(2) by (simp add: find_None_iff)
  with None show ?thesis by simp
next
  case (Some x)
  then have "P x" "x \<in> set ys" using find_sound[OF Some] assms(2) by auto
  then have "find P ys \<noteq> None" by (auto simp: find_None_iff)
  then obtain y where y: "find P ys = Some y" by blast
  with find_sound[OF y] \<open>P x\<close> \<open>x \<in> set ys\<close> assms Some show ?thesis by metis
qed

section \<open>When the tokenizer panics\<close>

definition open_bracket :: "char \<Rightarrow> bool" where
  "open_bracket c \<longleftrightarrow> c = CHR ''['' \<or> c = CHR ''{''"

text \<open>A rest ends as its query does, if that does not end in white space.\<close>

definition same_end :: "string \<Rightarrow> string \<Rightarrow> bool" where
  "same_end q r \<longleftrightarrow> (r = [] \<or> q \<noteq> [] \<and> (white_space (last q) \<or> last r = last q))"

lemma same_end_trans: "same_end q r \<Longrightarrow> same_end r r' \<Longrightarrow> same_end q r'"
  by (auto simp: same_end_def)

lemma same_end_simps [simp]:
  "same_end q []" "same_end q (drop n q)" "same_end q q" "same_end (c # s) s"
  by (auto simp: same_end_def last_drop)

lemma same_end_dropWhile [simp]: "same_end q (dropWhile P q)"
  by (simp add: dropWhile_eq_drop)

lemma same_end_tl [simp]: "same_end q (tl q)"
  by (cases q) auto

lemma trim_space_last: "\<not> white_space (last q) \<Longrightarrow> trim_space q = dropWhile white_space q"
proof (cases "dropWhile white_space q = []")
  case False
  assume "\<not> white_space (last q)"
  then have "\<not> white_space (last (dropWhile white_space q))"
    using same_end_dropWhile[of q white_space] False by (auto simp: same_end_def)
  then show ?thesis using False
    by (cases "dropWhile white_space q" rule: rev_cases) (auto simp: trim_space_def)
qed (simp add: trim_space_def del: dropWhile_eq_Nil_conv)

lemma trim_space_Nil [simp]: "trim_space [] = []"
  by (simp add: trim_space_def)

lemma same_end_trim [simp]: "same_end q (trim_space q)"
  by (cases "white_space (last q)") (auto simp: trim_space_last, auto simp: same_end_def)

lemma same_end_trim_drop: "same_end q (drop n (trim_space q))"
  by (rule same_end_trans[OF same_end_trim same_end_simps(2)])

lemma parseNumber_end: "parseNumber acceptable q = (n, r) \<Longrightarrow> same_end q r"
  by (auto simp: parseNumber_def Let_def same_end_trim_drop split: option.splits)

lemma parse_comparison_end: "parse_comparison q = (t, r) \<Longrightarrow> same_end q r"
  by (auto simp: parse_comparison_def Let_def split: if_splits prod.splits
      dest!: parseNumber_end intro: same_end_trans[OF same_end_simps(2)])

lemma parse_end:
  "parseTerm closing q = Some (t, r) \<Longrightarrow> same_end q r"
  "parseRange q = Some (t, r) \<Longrightarrow> same_end q r"
  "parseOneBound closing q = Some (b, r) \<Longrightarrow> same_end q r"
proof (induction closing q and q and closing q arbitrary: t r and t r and b r
    rule: parseTerm_parseRange_parseOneBound.induct)
  case (1 closing query)
  then show ?case
    by (auto simp: parseTerm.simps[of closing query] Let_def split: list.splits if_splits
        intro: same_end_trans[OF same_end_simps(4)])
next
  case (2 query)
  show ?case
  proof (cases query)
    case (Cons c s)
    have "same_end query r" if b: "parseOneBound False s = Some (Some lower, r1)"
      "has_prefix r1 rangeSeparator" "c \<in> {CHR ''['', CHR ''{''}" "c \<notin> {CHR ''>'', CHR ''<''}"
      "parseOneBound True (drop (length rangeSeparator) r1) = Some (Some upper, d # r)"
      for lower r1 upper d
    proof -
      have "same_end s r1" using 2(1)[OF Cons] b by blast
      moreover have "same_end (drop (length rangeSeparator) r1) (d # r)"
        using 2(2)[OF Cons b(4,3,1)] b by auto
      ultimately show ?thesis
        unfolding Cons by (meson same_end_simps(2,4) same_end_trans)
    qed
    then show ?thesis using 2(3) Cons
      by (auto simp: parseRange.simps[of "c # s"] split: if_splits option.splits prod.splits list.splits
          dest!: parse_comparison_end)
  qed (use 2 in \<open>simp add: parseRange.simps\<close>)
next
  case (3 closing query)
  then show ?case
    by (force simp: parseOneBound.simps[of closing query] Let_def
        split: if_splits option.splits prod.splits token.splits dest: parseNumber_end)
qed

lemma parse_panics:
  "parseTerm closing q = None \<Longrightarrow> q \<noteq> [] \<Longrightarrow> white_space (last q) \<or> open_bracket (last q)"
  "parseRange q = None \<Longrightarrow> q \<noteq> [] \<Longrightarrow> white_space (last q) \<or> open_bracket (last q)"
  "parseOneBound closing q = None \<Longrightarrow> q \<noteq> [] \<Longrightarrow> white_space (last q) \<or> open_bracket (last q)"
proof (induction closing q and q and closing q
    rule: parseTerm_parseRange_parseOneBound.induct)
  case (1 closing query)
  then show ?case
    by (auto simp: parseTerm.simps[of closing query] Let_def split: list.splits if_splits)
next
  case (2 query)
  then obtain c s where Cons: "query = c # s" by (cases query) auto
  have first: "white_space (last query) \<or> open_bracket (last query)"
    if "parseOneBound False s = None" "c \<in> {CHR ''['', CHR ''{''}" "c \<notin> {CHR ''>'', CHR ''<''}"
  proof (cases "s = []")
    case True
    then show ?thesis using that Cons by (auto simp: open_bracket_def)
  next
    case False
    then show ?thesis using 2(1)[OF Cons that(3,2,1)] Cons by auto
  qed
  have second: "white_space (last query) \<or> open_bracket (last query)"
    if b: "parseOneBound False s = Some (Some lower, r1)"
      "has_prefix r1 rangeSeparator" "c \<in> {CHR ''['', CHR ''{''}" "c \<notin> {CHR ''>'', CHR ''<''}"
      "parseOneBound True (drop (length rangeSeparator) r1) = None"
    for lower r1
  proof -
    let ?d = "drop (length rangeSeparator) r1"
    have e: "same_end query r1"
      unfolding Cons using parse_end(3)[OF b(1)] by (meson same_end_simps(4) same_end_trans)
    show ?thesis
    proof (cases "?d = []")
      case True
      then have "r1 = rangeSeparator" using b(2) by (auto simp: has_prefix_def)
      with e show ?thesis by (auto simp: same_end_def rangeSeparator_def white_space_def)
    next
      case False
      then have "white_space (last ?d) \<or> open_bracket (last ?d)"
        using 2(2)[OF Cons b(4,3,1)] b by auto
      moreover have "last ?d = last r1" "r1 \<noteq> []" using False by auto
      ultimately show ?thesis using e by (auto simp: same_end_def)
    qed
  qed
  have "c \<in> {CHR ''['', CHR ''{''} \<and> c \<notin> {CHR ''>'', CHR ''<''} \<and>
    (parseOneBound False s = None \<or>
     (\<exists>lower r1. parseOneBound False s = Some (Some lower, r1) \<and> has_prefix r1 rangeSeparator \<and>
        parseOneBound True (drop (length rangeSeparator) r1) = None))"
    using 2(3) Cons
    by (auto simp: parseRange.simps[of "c # s"] split: if_splits option.splits prod.splits list.splits)
  then show ?case using first second by blast
next
  case (3 closing query)
  then show ?case
    by (force simp: parseOneBound.simps[of closing query] Let_def
        split: if_splits option.splits prod.splits token.splits)
qed


lemma nextToken_end: "nextToken operators q = Some (ts, r) \<Longrightarrow> same_end q r"
  by (auto simp: nextToken_def Let_def dest!: parse_end(1)
      split: option.splits if_splits token.splits
      intro: same_end_trans[OF _ same_end_trim] same_end_trans[OF _ same_end_trans[OF same_end_trim same_end_tl]])

lemma nextToken_panics:
  "nextToken operators q = None \<Longrightarrow> q \<noteq> [] \<Longrightarrow> white_space (last q) \<or> open_bracket (last q)"
  by (auto simp: nextToken_def Let_def split: option.splits if_splits token.splits dest: parse_panics(1))

lemma trim_space_last_nonspace: "trim_space q \<noteq> [] \<Longrightarrow> \<not> white_space (last (trim_space q))"
  using hd_dropWhile[of white_space "rev (dropWhile white_space q)"]
  by (auto simp: trim_space_def last_rev simp del: dropWhile_eq_Nil_conv)

lemma trim_space_idem [simp]: "trim_space (trim_space q) = trim_space q"
  using trim_space_last_nonspace[of q] trim_space_hd[of q]
  by (cases "trim_space q") (auto simp: trim_space_last)

lemma tokenize_loop_trim: "tokenize_loop ts (trim_space q) = tokenize_loop ts q"
  by (simp add: tokenize_loop.simps[of ts q] tokenize_loop.simps[of ts "trim_space q"] Let_def)

lemma tokenize_panics:
  "tokenize_loop ts q = None \<Longrightarrow> trim_space q \<noteq> [] \<and> open_bracket (last (trim_space q))"
proof (induction ts q rule: tokenize_loop.induct)
  case (1 ts q)
  let ?q = "trim_space q"
  have ne: "?q \<noteq> []" using 1(2) by (auto simp: tokenize_loop.simps[of ts q])
  note ws = trim_space_last_nonspace[OF ne]
  show ?case
  proof (cases "nextToken specialOperators ?q")
    case None
    then show ?thesis using nextToken_panics ne ws by blast
  next
    case (Some p)
    then obtain ts' r where p: "nextToken specialOperators ?q = Some (ts', r)" by (cases p) auto
    with 1(2) ne have "InvalidToken \<notin> set ts'" "tokenize_loop (ts @ ts') r = None"
      by (auto simp: tokenize_loop.simps[of ts q] Let_def split: if_splits)
    with 1(1)[OF refl ne p refl] have r: "trim_space r \<noteq> []" "open_bracket (last (trim_space r))" by auto
    then have "last (trim_space r) = last ?q"
      using same_end_trans[OF nextToken_end[OF p] same_end_trim] ws by (auto simp: same_end_def)
    with r ne show ?thesis by simp
  qed
qed

section \<open>Properties\<close>

text \<open>
  The order in which the map of special operators is walked does not matter: any order of
  the same operators cuts the same tokens off a query.
\<close>

lemma token_order_irrelevant:
  assumes "set operators = set specialOperators"
  shows "nextToken operators q = nextToken specialOperators q"
proof -
  have "find (\<lambda>(operator, t). has_prefix q operator) operators =
        find (\<lambda>(operator, t). has_prefix q operator) specialOperators"
    using operator_unique assms by (intro find_unique) (auto split: prod.splits)
  then show ?thesis by (simp add: nextToken_def)
qed

lemma token_order_irrelevant_example:
  "nextToken (rev specialOperators) ''NOT a'' = nextToken specialOperators ''NOT a''"
  by (rule token_order_irrelevant) simp

end
