(* ===== verification/Lucene_Value.thy ===== *)
theory Lucene_Value
  imports Lucene_Lexer
begin

text \<open>
  The values of the Lucene query parser, \<open>lucene/value.go\<close>: what a field is compared with, its
  translation to a condition on a column, and \<open>buildValue\<close>, which reads a value off the tokens.
\<close>

section \<open>Terms\<close>

definition charTransformations :: "(char \<times> string) list" where
  "charTransformations =
     [(CHR ''*'', ''%''), (CHR ''?'', ''_''), (CHR ''%'', [CHR 0x5C, CHR ''%'']),
      (CHR ''_'', [CHR 0x5C, CHR ''_'']), (CHR 0x27, [CHR 0x5C, CHR 0x27])]"

definition specialCharacters :: "char list" where
  "specialCharacters = ''+-!(){}[]^'' @ [CHR 0x22] @ ''~*?:'' @ [CHR 0x5C]"

text \<open>The loop of \<open>transformSpecialCharacters\<close>, on the characters from the current one on.\<close>

fun transformSpecialCharacters :: "string \<Rightarrow> string" where
  "transformSpecialCharacters [] = []"
| "transformSpecialCharacters [c] =
     (case map_of charTransformations c of Some t \<Rightarrow> t | None \<Rightarrow> [c])"
| "transformSpecialCharacters (c # d # s) =
     (case map_of charTransformations c of
        Some t \<Rightarrow> t @ transformSpecialCharacters (d # s)
      | None \<Rightarrow>
          if c = escapeCharacter \<and> d \<in> set specialCharacters
          then d # transformSpecialCharacters s
          else if c = escapeCharacter then c # c # transformSpecialCharacters (d # s)
          else c # transformSpecialCharacters (d # s))"

definition alreadyQuoted :: "string \<Rightarrow> bool" where
  "alreadyQuoted s \<longleftrightarrow> length s \<ge> 2 \<and> s ! 0 = CHR 0x22 \<and> s ! (length s - 1) = CHR 0x22"

text \<open>The pattern of a term that is not a number.\<close>

definition like_pattern :: "string \<Rightarrow> string" where
  "like_pattern term =
     (let s = transformSpecialCharacters term;
          s = (if alreadyQuoted term then take (length s - 2) (drop 1 s) else s)
      in if length s > 0 \<and> (s ! 0 \<noteq> CHR ''%'' \<or> s ! (length s - 1) \<noteq> CHR ''%'')
         then ''%'' @ s @ ''%'' else s)"

definition term_toExpression :: "string \<Rightarrow> string \<Rightarrow> expr" where
  "term_toExpression term fieldName =
     (let s = transformSpecialCharacters term
      in if ParseFloat s \<noteq> None
         then InfixExpr (ColumnRef (NewColumnRef fieldName)) '' = '' (LiteralExpr (NewLiteral (VString s)))
         else InfixExpr (ColumnRef (NewColumnRef fieldName)) ''ILIKE''
                (LiteralExpr (NewLiteralWithEscapeType (VString (like_pattern term)) FullyEscaped)))"

section \<open>Ranges\<close>

definition totallyUnbounded :: "range_value \<Rightarrow> bool" where
  "totallyUnbounded v \<longleftrightarrow> lowerBound v = Unbounded \<and> upperBound v = Unbounded"

definition print_bound :: "bound \<Rightarrow> string" where
  "print_bound b =
     (case b of NumberBound f \<Rightarrow> print_float f | TermBound s \<Rightarrow> s | _ \<Rightarrow> ''<nil>'')"

definition bound_expression :: "string \<Rightarrow> string \<Rightarrow> bound \<Rightarrow> expr" where
  "bound_expression fieldName operator b =
     InfixExpr (ColumnRef (NewColumnRef fieldName)) operator
       (case b of
          ExprBound e \<Rightarrow> e
        | _ \<Rightarrow> LiteralExpr (NewLiteral (VString (SingleQuote (print_bound b)))))"

definition range_toExpression :: "range_value \<Rightarrow> string \<Rightarrow> expr" where
  "range_toExpression v fieldName =
     (if totallyUnbounded v
      then InfixExpr (ColumnRef (NewColumnRef fieldName)) ''IS'' (LiteralExpr (NewLiteral (VString ''NOT NULL'')))
      else
        let left = (if lowerBound v \<noteq> Unbounded
                    then bound_expression fieldName (if lowerBoundInclusive v then '' >= '' else '' > '') (lowerBound v)
                    else NilExpr);
            right = (if upperBound v \<noteq> Unbounded
                     then bound_expression fieldName (if upperBoundInclusive v then '' <= '' else '' < '') (upperBound v)
                     else NilExpr)
        in if left \<noteq> NilExpr \<and> right \<noteq> NilExpr then InfixExpr left ''AND'' right
           else if left \<noteq> NilExpr then left
           else if right \<noteq> NilExpr then right
           else LiteralExpr (NewLiteral (VString ''<SOMETHING MESSED UP HERE>'')))"

section \<open>Values\<close>

datatype lucene_value =
    TermValue string
  | RangeValue range_value
  | AndValue lucene_value lucene_value
  | OrValue lucene_value lucene_value
  | NotValue lucene_value
  | InvalidValue

fun toExpression :: "lucene_value \<Rightarrow> string \<Rightarrow> expr" where
  "toExpression (TermValue t) fieldName = term_toExpression t fieldName"
| "toExpression (RangeValue r) fieldName = range_toExpression r fieldName"
| "toExpression (AndValue l r) fieldName =
     InfixExpr (toExpression l fieldName) ''AND'' (toExpression r fieldName)"
| "toExpression (OrValue l r) fieldName =
     InfixExpr (toExpression l fieldName) ''OR'' (toExpression r fieldName)"
| "toExpression (NotValue v) fieldName = PrefixExpr ''NOT'' [toExpression v fieldName]"
| "toExpression InvalidValue fieldName = LiteralExpr (NewLiteral (VString ''false''))"

section \<open>Reading a value\<close>

text \<open>
  The stack of values has its top at the end, as the slice has.  Popping two values from a
  shorter stack panics.
\<close>

definition joinLastTwo ::
  "(lucene_value \<Rightarrow> lucene_value \<Rightarrow> lucene_value) \<Rightarrow> lucene_value list \<Rightarrow> lucene_value list option" where
  "joinLastTwo f stack =
     (let n = length stack
      in if n < 2 then None
         else Some (take (n - 2) stack @ [f (stack ! (n - 2)) (stack ! (n - 1))]))"

definition orLastTwoValues :: "lucene_value list \<Rightarrow> lucene_value list option" where
  "orLastTwoValues = joinLastTwo OrValue"

lemma joinLastTwo_snoc [simp]: "joinLastTwo f (st @ [a, b]) = Some (st @ [f a b])"
  by (simp add: joinLastTwo_def nth_append)

lemma joinLastTwo_snoc2 [simp]: "st \<noteq> [] \<Longrightarrow> joinLastTwo f (st @ [b]) = Some (butlast st @ [f (last st) b])"
  using joinLastTwo_snoc[of f "butlast st" "last st" b]
  by (metis append.assoc append_Cons append_Nil append_butlast_last_id)

lemma joinLastTwo_length: "joinLastTwo f st = Some st' \<Longrightarrow> length st' < length st"
  by (auto simp: joinLastTwo_def Let_def split: if_splits)

text \<open>The loop that ORs the whole stack at a closing parenthesis, and its result.\<close>

function or_all :: "lucene_value list \<Rightarrow> lucene_value option" where
  "or_all stack =
     (if length stack > 1
      then (case orLastTwoValues stack of None \<Rightarrow> None | Some st \<Rightarrow> or_all st)
      else (case stack of [] \<Rightarrow> None | v # _ \<Rightarrow> Some v))"
  by pat_completeness auto
termination
  by (relation "measure length") (auto simp: orLastTwoValues_def joinLastTwo_length)

declare or_all.simps [simp del]

definition is_operation :: "lucene_value \<Rightarrow> bool" where
  "is_operation v \<longleftrightarrow>
     (case v of AndValue l r \<Rightarrow> True | OrValue l r \<Rightarrow> True | NotValue w \<Rightarrow> True | _ \<Rightarrow> False)"

text \<open>
  One iteration of \<open>buildValue\<close> returns, or goes on, with the tokens left in \<open>p.tokens\<close>.
\<close>

datatype iteration =
    Return lucene_value "token list"
  | Continue "lucene_value list" "token list"

text \<open>The end of an iteration that has pushed a value.\<close>

definition end_iteration ::
  "bool \<Rightarrow> bool \<Rightarrow> lucene_value list option \<Rightarrow> token list \<Rightarrow> iteration option" where
  "end_iteration inside addOrSeparator pushed ts =
     (case pushed of
        None \<Rightarrow> None
      | Some stack \<Rightarrow>
          (case (if addOrSeparator then orLastTwoValues stack else Some stack) of
             None \<Rightarrow> None
           | Some st \<Rightarrow>
               if \<not> inside then (case st of [] \<Rightarrow> None | v # _ \<Rightarrow> Some (Return v ts))
               else Some (Continue st ts)))"

text \<open>
  The body of the loop for the token \<open>tok\<close>, the tokens \<open>ts\<close> after it, and \<open>inside\<close> for
  \<open>parenthesisLevel \<noteq> 0\<close>; \<open>sub\<close> is the call \<open>p.buildValue([]value{}, level)\<close>.
\<close>

definition iterate ::
  "(bool \<Rightarrow> (lucene_value \<times> token list) option) \<Rightarrow> token \<Rightarrow> token list \<Rightarrow> lucene_value list \<Rightarrow>
   bool \<Rightarrow> iteration option" where
  "iterate sub tok ts stack inside =
     (let addOrSeparator =
            (tok \<noteq> RightParenthesisToken \<and> stack \<noteq> [] \<and> \<not> is_operation (last stack))
      in case tok of
           LeftParenthesisToken \<Rightarrow>
             (case sub True of
                None \<Rightarrow> None
              | Some (v, ts1) \<Rightarrow> end_iteration inside addOrSeparator (Some (stack @ [v])) ts1)
         | RightParenthesisToken \<Rightarrow>
             if \<not> inside then Some (Return InvalidValue ts)
             else if stack = [] then Some (Return InvalidValue ts)
             else (case or_all stack of None \<Rightarrow> None | Some v \<Rightarrow> Some (Return v ts))
         | AndToken \<Rightarrow>
             if stack = [] then Some (Return InvalidValue ts)
             else (case sub False of
                     None \<Rightarrow> None
                   | Some (v, ts1) \<Rightarrow>
                       end_iteration inside False (joinLastTwo AndValue (stack @ [v])) ts1)
         | OrToken \<Rightarrow>
             if stack = [] then Some (Return InvalidValue ts)
             else (case sub False of
                     None \<Rightarrow> None
                   | Some (v, ts1) \<Rightarrow>
                       end_iteration inside False (orLastTwoValues (stack @ [v])) ts1)
         | NotToken \<Rightarrow>
             (case sub False of
                None \<Rightarrow> None
              | Some (v, ts1) \<Rightarrow> end_iteration inside False (Some (stack @ [NotValue v])) ts1)
         | TermToken t \<Rightarrow> end_iteration inside addOrSeparator (Some (stack @ [TermValue t])) ts
         | RangeToken r \<Rightarrow> end_iteration inside addOrSeparator (Some (stack @ [RangeValue r])) ts
         | _ \<Rightarrow> Some (Return InvalidValue ts))"

lemma iterate_cong [fundef_cong]:
  "(\<And>b. sub b = sub' b) \<Longrightarrow> iterate sub tok ts stack inside = iterate sub' tok ts stack inside"
  by (subgoal_tac "sub = sub'") auto

fun tokens_left :: "iteration \<Rightarrow> token list" where
  "tokens_left (Return v ts) = ts"
| "tokens_left (Continue st ts) = ts"

lemma end_iteration_left: "end_iteration inside add pushed ts = Some it \<Longrightarrow> tokens_left it = ts"
  by (auto simp: end_iteration_def split: option.splits if_splits list.splits)

lemma iterate_left:
  assumes "\<And>b v r. sub b = Some (v, r) \<Longrightarrow> length r \<le> length ts"
    and "iterate sub tok ts stack inside = Some it"
  shows "length (tokens_left it) \<le> length ts"
  using assms(2)
  by (auto simp: iterate_def Let_def split: token.splits option.splits if_splits
      dest!: end_iteration_left dest: assms(1))

function buildValue :: "token list \<Rightarrow> lucene_value list \<Rightarrow> bool \<Rightarrow> (lucene_value \<times> token list) option" where
  "buildValue tokens stack inside =
     (case tokens of
        [] \<Rightarrow> Some (InvalidValue, [])
      | tok # ts \<Rightarrow>
          (case iterate (\<lambda>level. buildValue ts [] level) tok ts stack inside of
             None \<Rightarrow> None
           | Some (Return v ts1) \<Rightarrow> Some (v, ts1)
           | Some (Continue st ts1) \<Rightarrow> buildValue ts1 st inside))"
  by pat_completeness auto

text \<open>No call leaves more tokens than it was given; the loop goes on with what a call left.\<close>

lemma buildValue_le:
  "buildValue_dom (tokens, stack, inside) \<Longrightarrow>
   buildValue tokens stack inside = Some (v, ts) \<Longrightarrow> length ts \<le> length tokens"
proof (induction arbitrary: v ts rule: buildValue.pinduct)
  case (1 tokens stack inside)
  show ?case
  proof (cases tokens)
    case (Cons tok rest)
    let ?it = "iterate (\<lambda>level. buildValue rest [] level) tok rest stack inside"
    have left: "length (tokens_left it) \<le> length rest" if "?it = Some it" for it
      using iterate_left[OF _ that] 1(2)[OF Cons] by blast
    from 1(1,4) Cons obtain it where it: "?it = Some it"
      by (auto simp: buildValue.psimps split: option.splits)
    show ?thesis
    proof (cases it)
      case (Return v' ts')
      with 1(1,4) Cons it left[OF it] show ?thesis by (auto simp: buildValue.psimps)
    next
      case (Continue st ts')
      with 1(1,4) Cons it left[OF it] 1(3)[OF Cons it] show ?thesis
        by (fastforce simp: buildValue.psimps)
    qed
  qed (use 1 in \<open>simp add: buildValue.psimps\<close>)
qed

lemma buildValue_total: "All buildValue_dom"
proof (relation "measure (\<lambda>(tokens, stack, inside). length tokens)", goal_cases)
  case (3 tokens stack inside tok rest it st ts1)
  then show ?case
    using iterate_left[of "\<lambda>level. buildValue rest [] level" rest tok stack inside it] buildValue_le
    by fastforce
qed auto

termination buildValue
  by (rule buildValue_total)

declare buildValue.simps [simp del]

section \<open>Reading a value does not panic\<close>

lemma or_all_Some: "st \<noteq> [] \<Longrightarrow> \<exists>v. or_all st = Some v"
proof (induction st rule: or_all.induct)
  case (1 st)
  show ?case
  proof (cases "length st > 1")
    case True
    then obtain st' where st': "orLastTwoValues st = Some st'"
      by (auto simp: orLastTwoValues_def joinLastTwo_def Let_def)
    then have "st' \<noteq> []" using True by (auto simp: orLastTwoValues_def joinLastTwo_def Let_def)
    with 1(1)[OF True st'] st' True show ?thesis by (subst or_all.simps) simp
  next
    case False
    with 1(2) show ?thesis by (subst or_all.simps) (auto split: list.split)
  qed
qed

lemma end_iteration_Some:
  "st \<noteq> [] \<Longrightarrow> (add \<Longrightarrow> st' \<noteq> [] \<and> st = st' @ [v]) \<Longrightarrow> end_iteration inside add (Some st) ts \<noteq> None"
  by (cases add) (auto simp: end_iteration_def orLastTwoValues_def split: list.splits)

lemma iterate_Some:
  assumes "\<And>b. sub b \<noteq> None"
  shows "iterate sub tok ts stack inside \<noteq> None"
proof -
  obtain v r where f: "sub False = Some (v, r)" using assms[of False] by auto
  obtain w q where t: "sub True = Some (w, q)" using assms[of True] by auto
  have push: "end_iteration inside add (Some (stack @ [u])) ts' \<noteq> None"
    if "add \<Longrightarrow> stack \<noteq> []" for u add ts'
    using that by (intro end_iteration_Some[where st' = stack and v = u]) auto
  have join: "end_iteration inside False (joinLastTwo g (stack @ [u])) ts' \<noteq> None"
    if "stack \<noteq> []" for u g ts'
    using that end_iteration_Some[where st = "butlast stack @ [g (last stack) u]" and add = False and ts = ts']
    by auto
  show ?thesis
  proof (cases tok)
    case RightParenthesisToken
    then show ?thesis using or_all_Some[of stack] by (auto simp: iterate_def)
  qed (use push join in \<open>auto simp: iterate_def f t orLastTwoValues_def\<close>)
qed

lemma buildValue_Some: "buildValue tokens stack inside \<noteq> None"
proof (induction tokens stack inside rule: buildValue.induct)
  case (1 tokens stack inside)
  show ?case
  proof (cases tokens)
    case (Cons tok ts)
    have "iterate (\<lambda>level. buildValue ts [] level) tok ts stack inside \<noteq> None"
      by (rule iterate_Some) (rule 1(1)[OF Cons])
    then obtain it where it: "iterate (\<lambda>level. buildValue ts [] level) tok ts stack inside = Some it"
      by blast
    then show ?thesis using 1(2)[OF Cons it] Cons
      by (cases it) (auto simp: buildValue.simps[of "tok # ts"])
  qed (simp add: buildValue.simps)
qed

lemma buildValue_less:
  "buildValue (tok # ts) stack inside = Some (v, r) \<Longrightarrow> length r \<le> length ts"
proof -
  assume a: "buildValue (tok # ts) stack inside = Some (v, r)"
  have le: "length r \<le> length tokens" if "buildValue tokens st lv = Some (v, r)" for tokens st lv v r
    using that by (rule buildValue_le[OF spec[OF buildValue_total]])
  obtain it where it: "iterate (\<lambda>level. buildValue ts [] level) tok ts stack inside = Some it"
    using a by (auto simp: buildValue.simps[of "tok # ts"] split: option.splits)
  have "length (tokens_left it) \<le> length ts" using iterate_left[OF _ it] le by blast
  then show ?thesis using a it le
    by (cases it) (fastforce simp: buildValue.simps[of "tok # ts"])+
qed

section \<open>What a value means\<close>

text \<open>Whether a value holds, given which terms and ranges do.\<close>

fun meets :: "(lucene_value \<Rightarrow> bool) \<Rightarrow> lucene_value \<Rightarrow> bool" where
  "meets \<rho> (AndValue l r) = (meets \<rho> l \<and> meets \<rho> r)"
| "meets \<rho> (OrValue l r) = (meets \<rho> l \<or> meets \<rho> r)"
| "meets \<rho> (NotValue v) = (\<not> meets \<rho> v)"
| "meets \<rho> InvalidValue = False"
| "meets \<rho> v = \<rho> v"

lemma or_all_meets: "or_all st = Some v \<Longrightarrow> meets \<rho> v \<longleftrightarrow> (\<exists>x \<in> set st. meets \<rho> x)"
proof (induction st arbitrary: v rule: or_all.induct)
  case (1 st)
  show ?case
  proof (cases "length st > 1")
    case True
    then obtain us a b where st: "st = us @ [a, b]"
      by (cases st rule: rev_cases) (auto simp: length_Suc_conv, metis append_butlast_last_id append.assoc append_Cons append_Nil length_greater_0_conv list.size(3) not_one_less_zero zero_less_one)
    then have o2: "orLastTwoValues st = Some (us @ [OrValue a b])" by (simp add: orLastTwoValues_def)
    with 1(1)[OF True o2] 1(2) True st show ?thesis by (auto simp: or_all.simps[of "us @ [a, b]"])
  next
    case False
    with 1(2) show ?thesis by (cases st) (auto simp: or_all.simps[of "[]"] or_all.simps[of "[_]"])
  qed
qed

definition leaf_token :: "token \<Rightarrow> lucene_value option" where
  "leaf_token t = (case t of TermToken s \<Rightarrow> Some (TermValue s) | RangeToken r \<Rightarrow> Some (RangeValue r) | _ \<Rightarrow> None)"

lemma buildValue_leaves:
  assumes "\<And>t. t \<in> set leaves \<Longrightarrow> leaf_token t \<noteq> None" "stack @ map (\<lambda>_. InvalidValue) leaves \<noteq> []"
  shows "\<exists>v. buildValue (leaves @ RightParenthesisToken # rest) stack True = Some (v, rest) \<and>
    (meets \<rho> v \<longleftrightarrow> (\<exists>x \<in> set stack \<union> {l. Some l \<in> leaf_token ` set leaves}. meets \<rho> x))"
  using assms
proof (induction leaves arbitrary: stack)
  case Nil
  then have "stack \<noteq> []" by simp
  then obtain v where "or_all stack = Some v" using or_all_Some by blast
  then show ?case using or_all_meets[of stack v \<rho>] \<open>stack \<noteq> []\<close>
    by (simp add: buildValue.simps iterate_def)
next
  case (Cons t leaves)
  from Cons.prems(1)[of t] obtain l where l: "leaf_token t = Some l" by auto
  define st where "st = (if stack \<noteq> [] \<and> \<not> is_operation (last stack)
    then butlast stack @ [OrValue (last stack) l] else stack @ [l])"
  have step: "iterate sub t ts stack True = Some (Continue st ts)" for sub ts
    using l by (auto simp: iterate_def leaf_token_def end_iteration_def st_def orLastTwoValues_def Let_def
        split: token.splits)
  have ne: "st @ map (\<lambda>_. InvalidValue) leaves \<noteq> []" by (simp add: st_def)
  have "(\<exists>x \<in> set st. meets \<rho> x) \<longleftrightarrow> (\<exists>x \<in> set stack. meets \<rho> x) \<or> meets \<rho> l"
    by (cases stack rule: rev_cases) (auto simp: st_def)
  moreover obtain v where "buildValue (leaves @ RightParenthesisToken # rest) st True = Some (v, rest)"
    "meets \<rho> v \<longleftrightarrow> (\<exists>x \<in> set st \<union> {l. Some l \<in> leaf_token ` set leaves}. meets \<rho> x)"
    using Cons.IH[OF _ ne] Cons.prems(1) by auto
  ultimately show ?case using l step
    by (auto simp: buildValue.simps[of "t # leaves @ RightParenthesisToken # rest"])
qed

section \<open>The pattern of a term as a string literal\<close>

text \<open>
  Scanning the content of a literal: whether the next character is protected by a backslash,
  and \<open>None\<close> at a quote that is not.
\<close>

fun scan_content :: "bool \<Rightarrow> string \<Rightarrow> bool option" where
  "scan_content protected [] = Some protected"
| "scan_content protected (c # s) =
     (if protected then scan_content False s
      else if c = CHR 0x5C then scan_content True s
      else if c = CHR 0x27 then None
      else scan_content False s)"

lemma scan_content_append:
  "scan_content p (u @ v) = (case scan_content p u of None \<Rightarrow> None | Some q \<Rightarrow> scan_content q v)"
  by (induction p u rule: scan_content.induct) auto

lemma scan_content_last: "scan_content p s = Some True \<Longrightarrow> s \<noteq> [] \<Longrightarrow> last s = CHR 0x5C"
  by (induction p s rule: scan_content.induct) (auto split: if_splits)

lemma read_scanned:
  "scan_content False s = Some False \<Longrightarrow> literal_end rest \<Longrightarrow>
   \<exists>b. read_literal (s @ CHR 0x27 # rest) = Some (b, rest)"
proof (induction s rule: length_induct)
  case (1 s)
  show ?case
  proof (cases s)
    case Nil
    with 1 show ?thesis by (cases rest) (auto simp: literal_end_def)
  next
    case (Cons c s')
    show ?thesis
    proof (cases "c = CHR 0x5C")
      case True
      with 1(2) Cons obtain d s'' where s'': "s' = d # s''" by (cases s') auto
      then show ?thesis using 1 Cons True by (fastforce simp: Cons)
    next
      case False
      with 1(2) Cons have "c \<noteq> CHR 0x27" "scan_content False s' = Some False" by (auto split: if_splits)
      then obtain b where "read_literal (s' @ CHR 0x27 # rest) = Some (b, rest)" using 1 Cons by auto
      then show ?thesis using False \<open>c \<noteq> CHR 0x27\<close> Cons by (cases "s' @ CHR 0x27 # rest") auto
    qed
  qed
qed

text \<open>Two backslashes in a row.\<close>

fun double_backslash :: "string \<Rightarrow> bool" where
  "double_backslash (c # d # s) = (c = CHR 0x5C \<and> d = CHR 0x5C \<or> double_backslash (d # s))"
| "double_backslash s = False"

lemma scan_transformation:
  "map_of charTransformations c = Some t \<Longrightarrow> scan_content False (t @ x) = scan_content False x"
  by (auto simp: charTransformations_def split: if_splits)

lemma untransformed: "map_of charTransformations c = None \<Longrightarrow> c \<noteq> CHR 0x27"
  by (auto simp: charTransformations_def)

lemma quote_not_special: "CHR 0x27 \<notin> set specialCharacters"
  by (simp add: specialCharacters_def)

lemma transform_scans:
  "\<not> double_backslash t \<Longrightarrow> \<exists>p. scan_content False (transformSpecialCharacters t) = Some p"
proof (induction t rule: transformSpecialCharacters.induct)
  case (2 c)
  then show ?case using scan_transformation[of c _ "[]"] untransformed[of c] by (auto split: option.splits)
next
  case (3 c d s)
  have n: "\<not> double_backslash (d # s)" "\<not> double_backslash s" "c = CHR 0x5C \<Longrightarrow> d \<noteq> CHR 0x5C"
    using "3.prems" by (cases s; auto)+
  show ?case
  proof (cases "map_of charTransformations c")
    case None
    consider "c = escapeCharacter" "d \<in> set specialCharacters"
      | "c = escapeCharacter" "d \<notin> set specialCharacters" | "c \<noteq> escapeCharacter" by blast
    then show ?thesis
    proof cases
      case 1
      then have "d \<noteq> CHR 0x27" "d \<noteq> CHR 0x5C" using quote_not_special n by (auto simp: escapeCharacter_def)
      with 1 "3.IH"(1)[OF None _ n(2)] None show ?thesis by simp
    next
      case 2
      with "3.IH"(2)[OF None _ _ n(1)] None show ?thesis by (simp add: escapeCharacter_def)
    next
      case 3
      with "3.IH"(3)[OF None _ _ n(1)] None untransformed[OF None] show ?thesis
        by (simp add: escapeCharacter_def)
    qed
  next
    case (Some t)
    with "3.IH"(4)[OF Some n(1)] show ?thesis by (simp add: scan_transformation)
  qed
qed auto

lemma transform_quote: "transformSpecialCharacters (CHR 0x22 # s) = CHR 0x22 # transformSpecialCharacters s"
  by (cases s) (auto simp: charTransformations_def escapeCharacter_def)

lemma like_pattern_scans:
  assumes "\<not> double_backslash t"
  shows "scan_content False (like_pattern t) = Some False"
proof -
  define s where "s = transformSpecialCharacters t"
  define u where "u = (if alreadyQuoted t then take (length s - 2) (drop 1 s) else s)"
  obtain p where p: "scan_content False s = Some p" using transform_scans[OF assms] s_def by blast
  have "\<exists>q. scan_content False u = Some q"
  proof (cases "alreadyQuoted t")
    case True
    then obtain t' where "t = CHR 0x22 # t'" by (cases t) (auto simp: alreadyQuoted_def)
    then obtain s' where s': "s = CHR 0x22 # s'" using transform_quote s_def by auto
    then have "scan_content False s' = Some p" using p by simp
    moreover have "s' = u @ drop (length s' - 1) s'" using s' True by (simp add: u_def)
    ultimately show ?thesis by (metis option.case_eq_if option.collapse option.simps(3) scan_content_append)
  qed (use p u_def in auto)
  then obtain q where q: "scan_content False u = Some q" by blast
  have l: "like_pattern t = (if length u > 0 \<and> (u ! 0 \<noteq> CHR ''%'' \<or> u ! (length u - 1) \<noteq> CHR ''%'')
      then ''%'' @ u @ ''%'' else u)"
    by (simp add: like_pattern_def s_def u_def Let_def)
  show ?thesis
  proof (cases "length u > 0 \<and> (u ! 0 \<noteq> CHR ''%'' \<or> u ! (length u - 1) \<noteq> CHR ''%'')")
    case True
    then have "like_pattern t = ''%'' @ u @ ''%''" using l by simp
    then show ?thesis using q by (auto simp: scan_content_append split: option.splits)
  next
    case False
    then have "like_pattern t = u" "u \<noteq> [] \<Longrightarrow> last u = CHR ''%''" using l by (auto simp: last_conv_nth)
    with q scan_content_last[of False u] show ?thesis by (cases q; cases "u = []") auto
  qed
qed

lemma plain_transform:
  "list_all (\<lambda>c. c \<notin> set ''*?%_'' \<and> c \<noteq> CHR 0x5C \<and> c \<noteq> CHR 0x27) v \<Longrightarrow> transformSpecialCharacters v = v"
  by (induction v rule: transformSpecialCharacters.induct) (auto simp: charTransformations_def escapeCharacter_def)

text \<open>
  C27: The pattern of a term is one string literal: whatever text follows it, a term without
  two backslashes in a row is read by the database up to the closing quote and no further.
\<close>

theorem term_literal_contained:
  assumes "\<not> double_backslash term" "literal_end rest"
  shows "\<exists>body. sql_string
    (render_literal (NewLiteralWithEscapeType (VString (like_pattern term)) FullyEscaped) @ rest) =
    Some (body, rest)"
  using read_scanned[OF like_pattern_scans[OF assms(1)] assms(2)]
  by (auto simp: render_literal_def NewLiteralWithEscapeType_def SingleQuote_def sql_string_def)

theorem term_literal_contained_witness:
  "\<exists>body. sql_string (render_literal (NewLiteralWithEscapeType
      (VString (like_pattern (''o'' @ [CHR 0x27] @ ''neil*''))) FullyEscaped) @ '' AND 1'') =
    Some (body, '' AND 1'')"
  by (rule term_literal_contained) (simp_all add: literal_end_def)

text \<open>
  Two backslashes are read as an escaped one, which \<open>transformSpecialCharacters\<close> writes
  as a single one.  Before a quote, the backslash of the quote then protects nothing: the
  literal ends in the middle of the term, and the rest of the term is read as SQL.
\<close>

lemma term_literal_breakout:
  assumes "v \<noteq> []" "list_all (\<lambda>c. c \<notin> set ''*?%_'' \<and> c \<noteq> CHR 0x5C \<and> c \<noteq> CHR 0x27) v"
  shows "sql_string (render_literal (NewLiteralWithEscapeType
      (VString (like_pattern ([CHR 0x5C, CHR 0x5C, CHR 0x27] @ v))) FullyEscaped)) =
    Some ([CHR ''%'', CHR 0x5C], v @ [CHR ''%'', CHR 0x27])"
proof -
  have q: "transformSpecialCharacters (CHR 0x27 # v) = [CHR 0x5C, CHR 0x27] @ v"
    using plain_transform[OF assms(2)] assms(1) by (cases v) (auto simp: charTransformations_def)
  then have "transformSpecialCharacters ([CHR 0x5C, CHR 0x5C, CHR 0x27] @ v) =
      [CHR 0x5C, CHR 0x5C, CHR 0x27] @ v"
    by (simp add: charTransformations_def escapeCharacter_def specialCharacters_def)
  then have "like_pattern ([CHR 0x5C, CHR 0x5C, CHR 0x27] @ v) =
      [CHR ''%'', CHR 0x5C, CHR 0x5C, CHR 0x27] @ v @ ''%''"
    by (simp add: like_pattern_def alreadyQuoted_def)
  with assms show ?thesis
    by (cases v) (auto simp: render_literal_def NewLiteralWithEscapeType_def SingleQuote_def sql_string_def)
qed

lemma term_literal_breakout_example:
  "sql_string (render_literal (NewLiteralWithEscapeType
      (VString (like_pattern ([CHR 0x5C, CHR 0x5C, CHR 0x27] @ ''+OR+1=1--''))) FullyEscaped)) =
    Some ([CHR ''%'', CHR 0x5C], ''+OR+1=1--'' @ [CHR ''%'', CHR 0x27])"
  by (rule term_literal_breakout) simp_all

end
