(* ===== verification/Lucene_Query.thy ===== *)
theory Lucene_Query
  imports Lucene_Value Schema
begin

text \<open>
  The last stage of the Lucene query parser, \<open>lucene/expression.go\<close>: combining the tokens of a
  query into a WHERE condition, and the whole translation \<open>TranslateToSQL\<close>.

  The fields of \<open>luceneParser\<close> are arguments: \<open>defaultFieldNames\<close> and \<open>currentSchema\<close> never
  change, \<open>WhereStatement\<close> is read by \<open>buildWhereStatement\<close> and set between its calls, the
  tokens left are a result.
\<close>

section \<open>Statements\<close>

definition invalidStatement :: expr where
  "invalidStatement = LiteralExpr (NewLiteral (VString ''false''))"

definition newLeafStatement :: "string list \<Rightarrow> lucene_value \<Rightarrow> expr" where
  "newLeafStatement fieldNames v =
     (case fieldNames of
        [] \<Rightarrow> invalidStatement
      | f # fs \<Rightarrow> foldl (\<lambda>stmt g. InfixExpr stmt ''OR'' (toExpression v g)) (toExpression v f) fs)"

definition column_of_field :: "schema \<Rightarrow> string \<Rightarrow> string" where
  "column_of_field currentSchema fieldName =
     (case ResolveField currentSchema fieldName of
        Some field \<Rightarrow> InternalPropertyName field
      | None \<Rightarrow> fieldName)"

text \<open>The end of \<open>buildWhereStatement\<close>: joining a statement to the one before.\<close>

definition add_default_operator :: "bool \<Rightarrow> expr \<Rightarrow> expr \<Rightarrow> expr" where
  "add_default_operator addDefaultOperator whereStatement currentStatement =
     (if \<not> addDefaultOperator \<or> whereStatement = NilExpr then currentStatement
      else case currentStatement of
             PrefixExpr op args \<Rightarrow>
               if op = ''NOT'' then InfixExpr whereStatement ''AND'' currentStatement
               else InfixExpr whereStatement ''OR'' currentStatement
           | _ \<Rightarrow> InfixExpr whereStatement ''OR'' currentStatement)"

fun buildWhereStatement ::
  "string list \<Rightarrow> schema \<Rightarrow> expr \<Rightarrow> bool \<Rightarrow> token list \<Rightarrow> (expr \<times> token list) option" where
  "buildWhereStatement defaultFieldNames currentSchema whereStatement addDefault [] =
     Some (invalidStatement, [])"
| "buildWhereStatement defaultFieldNames currentSchema whereStatement addDefault (tok # ts) =
     (let finish = add_default_operator addDefault whereStatement
      in case tok of
           FieldNameToken fieldName \<Rightarrow>
             if length ts \<le> 1 then Some (invalidStatement, [])
             else if hd ts \<noteq> SeparatorToken then Some (invalidStatement, ts)
             else (case buildValue (tl ts) [] False of
                     None \<Rightarrow> None
                   | Some (v, r) \<Rightarrow>
                       Some (finish (newLeafStatement [column_of_field currentSchema fieldName] v), r))
         | SeparatorToken \<Rightarrow>
             (case buildValue ts [] False of
                None \<Rightarrow> None
              | Some (v, r) \<Rightarrow> Some (finish (newLeafStatement defaultFieldNames v), r))
         | TermToken term \<Rightarrow> Some (finish (newLeafStatement defaultFieldNames (TermValue term)), ts)
         | AndToken \<Rightarrow>
             (case buildWhereStatement defaultFieldNames currentSchema whereStatement False ts of
                None \<Rightarrow> None
              | Some (e, r) \<Rightarrow> Some (InfixExpr whereStatement ''AND'' e, r))
         | OrToken \<Rightarrow>
             (case buildWhereStatement defaultFieldNames currentSchema whereStatement False ts of
                None \<Rightarrow> None
              | Some (e, r) \<Rightarrow> Some (InfixExpr whereStatement ''OR'' e, r))
         | NotToken \<Rightarrow>
             (case buildWhereStatement defaultFieldNames currentSchema whereStatement False ts of
                None \<Rightarrow> None
              | Some (e, r) \<Rightarrow> Some (finish (PrefixExpr ''NOT'' [e]), r))
         | ExistsToken \<Rightarrow>
             (case buildValue ts [] False of
                None \<Rightarrow> None
              | Some (TermValue fieldName, r) \<Rightarrow>
                  Some (finish (InfixExpr (ColumnRef (NewColumnRef fieldName)) '' IS NOT ''
                                  (LiteralExpr (NewLiteral (VString ''NULL'')))), r)
              | Some (_, r) \<Rightarrow> Some (invalidStatement, r))
         | LeftParenthesisToken \<Rightarrow>
             (case buildWhereStatement defaultFieldNames currentSchema whereStatement False ts of
                None \<Rightarrow> None
              | Some (e, r) \<Rightarrow> Some (finish (ParenExpr [e]), r))
         | RightParenthesisToken \<Rightarrow>
             if whereStatement = NilExpr then Some (invalidStatement, ts)
             else Some (whereStatement, ts)
         | _ \<Rightarrow> Some (invalidStatement, ts))"

lemma buildValue_rest: "buildValue ts st b = Some (v, r) \<Longrightarrow> length r \<le> length ts"
  by (rule buildValue_le[OF spec[OF buildValue_total]])

lemma buildWhereStatement_rest:
  "buildWhereStatement fs sch w add ts = Some (e, r) \<Longrightarrow> length r \<le> length ts - 1"
proof (induction fs sch w add ts arbitrary: e r rule: buildWhereStatement.induct)
  case (2 fs sch w add tok ts)
  show ?case
  proof (cases tok)
    case (FieldNameToken n)
    with 2(5) show ?thesis
      by (cases ts) (auto simp: Let_def split: if_splits option.splits dest: buildValue_rest)
  qed (use 2 in \<open>force simp: Let_def split: if_splits option.splits lucene_value.splits
         dest: buildValue_rest\<close>)+
qed simp

text \<open>The loop of \<open>BuildWhereStatement\<close>.\<close>

function build_loop :: "string list \<Rightarrow> schema \<Rightarrow> expr \<Rightarrow> token list \<Rightarrow> expr option" where
  "build_loop fs sch w tokens =
     (if tokens = [] then Some w
      else (case buildWhereStatement fs sch w True tokens of
              None \<Rightarrow> None
            | Some (e, ts) \<Rightarrow> build_loop fs sch e ts))"
  by pat_completeness auto
termination
  by (relation "measure (\<lambda>(fs, sch, w, tokens). length tokens)")
    (auto dest!: buildWhereStatement_rest simp: less_eq_Suc_le neq_Nil_conv)

declare build_loop.simps [simp del]

definition BuildWhereStatement :: "string list \<Rightarrow> schema \<Rightarrow> token list \<Rightarrow> expr option" where
  "BuildWhereStatement fs sch tokens =
     map_option (\<lambda>w. if w = NilExpr then LiteralExpr (NewLiteral (VString ''true'')) else w)
       (build_loop fs sch NilExpr tokens)"

definition TranslateToSQL :: "string \<Rightarrow> string list \<Rightarrow> schema \<Rightarrow> expr option" where
  "TranslateToSQL query fs sch =
     (case tokenizeQuery (removeBoostingOperator (removeFuzzySearchOperator query)) of
        None \<Rightarrow> None
      | Some tokens \<Rightarrow> BuildWhereStatement fs sch tokens)"

section \<open>Queries of plain words\<close>

text \<open>A word that the lexer reads as one term.\<close>

definition word_char :: "char \<Rightarrow> bool" where
  "word_char c \<longleftrightarrow> \<not> white_space c \<and> c \<notin> set '':)~^''"

definition plain_word :: "string \<Rightarrow> bool" where
  "plain_word w \<longleftrightarrow>
     w \<noteq> [] \<and> list_all word_char w \<and> hd w \<noteq> CHR 0x22 \<and> hd w \<notin> set ''><[{(!'' \<and>
     w \<notin> {''AND'', ''OR'', ''NOT'', ''_exists_''}"

definition word_end :: "string \<Rightarrow> bool" where
  "word_end rest \<longleftrightarrow> (rest = [] \<or> hd rest = CHR '' '' \<or> hd rest = CHR '')'' \<or> hd rest = CHR '':'')"

lemma no_operator_prefix:
  assumes "has_prefix (w @ rest) (p @ [t])" "t \<notin> set w" "word_end rest"
    "CHR '' '' \<notin> set p" "CHR '')'' \<notin> set p" "CHR '':'' \<notin> set p"
  shows "w = p"
  using assms
proof (induction p arbitrary: w)
  case Nil
  then show ?case by (cases w) (auto simp: has_prefix_def)
next
  case (Cons a p)
  then show ?case by (cases w; cases rest) (auto simp: has_prefix_def word_end_def)
qed

lemma word_char_props: "list_all word_char w \<Longrightarrow> CHR '' '' \<notin> set w \<and> CHR '':'' \<notin> set w \<and> CHR '')'' \<notin> set w"
  by (auto simp: word_char_def list_all_iff white_space_def)

lemma plain_word_no_operator:
  assumes "plain_word w" "word_end rest"
  shows "find (\<lambda>(operator, t). has_prefix (w @ rest) operator) specialOperators = None"
proof -
  note w = word_char_props[of w]
  have "\<not> has_prefix (w @ rest) (''AND'' @ '' '')" "\<not> has_prefix (w @ rest) (''OR'' @ '' '')"
    "\<not> has_prefix (w @ rest) (''NOT'' @ '' '')"
    using no_operator_prefix[OF _ _ assms(2), of w _ "CHR '' ''"] assms(1) w
    by (auto simp: plain_word_def)
  moreover have "\<not> has_prefix (w @ rest) (''_exists_'' @ '':'')"
    using no_operator_prefix[OF _ _ assms(2), of w _ "CHR '':''"] assms(1) w
    by (auto simp: plain_word_def)
  moreover have "\<not> has_prefix (w @ rest) ''!''" "\<not> has_prefix (w @ rest) ''(''" "\<not> has_prefix (w @ rest) '')''"
    using assms(1) w by (cases w; auto simp: plain_word_def has_prefix_def)+
  ultimately show ?thesis by (simp add: specialOperators_def)
qed


lemma parse_word:
  assumes "plain_word w" "word_end rest"
  shows "parseTerm False (w @ rest) = Some (TermToken w, rest)"
proof -
  obtain c s where w: "w = c # s" using assms(1) by (auto simp: plain_word_def neq_Nil_conv)
  have stay: "\<not> ends_term False x" if "x \<in> set w" for x
    using assms(1) that by (auto simp: plain_word_def list_all_iff word_char_def ends_term_def white_space_def)
  have stop: "rest = [] \<or> ends_term False (hd rest)"
    using assms(2) by (auto simp: word_end_def ends_term_def)
  have "takeWhile (\<lambda>x. \<not> ends_term False x) (w @ rest) = w"
    "dropWhile (\<lambda>x. \<not> ends_term False x) (w @ rest) = rest"
    using stay stop by (cases rest; auto simp: takeWhile_append2 dropWhile_append2)+
  with w assms(1) show ?thesis by (auto simp: parseTerm.simps[of False "c # s @ rest"] plain_word_def)
qed

lemma trim_trimmed: "q \<noteq> [] \<Longrightarrow> \<not> white_space (hd q) \<Longrightarrow> \<not> white_space (last q) \<Longrightarrow> trim_space q = q"
  by (cases q) (auto simp: trim_space_last)

lemma plain_word_ends:
  "plain_word w \<Longrightarrow> w \<noteq> [] \<and> \<not> white_space (hd w) \<and> \<not> white_space (last w)"
  by (auto simp: plain_word_def list_all_iff word_char_def)

lemma plain_word_trimmed:
  assumes "plain_word w" "rest = [] \<or> \<not> white_space (last rest)"
  shows "trim_space (w @ rest) = w @ rest"
  using plain_word_ends[OF assms(1)] assms(2) by (intro trim_trimmed) (auto simp: last_append)

lemma tokenize_word:
  assumes "plain_word w" "rest = [] \<or> \<not> white_space (last rest)" "word_end rest"
    "trim_space rest = [] \<or> hd (trim_space rest) \<noteq> CHR '':''"
  shows "tokenize_loop ts (w @ rest) = tokenize_loop (ts @ [TermToken w]) rest"
proof -
  have "nextToken specialOperators (w @ rest) = Some ([TermToken w], trim_space rest)"
    using parse_word plain_word_no_operator assms by (simp add: nextToken_def)
  then show ?thesis using plain_word_trimmed[OF assms(1,2)] plain_word_ends[OF assms(1)]
    by (simp add: tokenize_loop.simps[of ts "w @ rest"] tokenize_loop_trim)
qed

lemma tokenize_field:
  assumes "plain_word w" "rest \<noteq> []" "\<not> white_space (last rest)"
  shows "tokenize_loop ts (w @ '':'' @ rest) = tokenize_loop (ts @ [FieldNameToken w, SeparatorToken]) rest"
proof -
  have t: "trim_space ('':'' @ rest) = '':'' @ rest"
    using assms(2,3) by (intro trim_trimmed) (auto simp: white_space_def)
  then have "nextToken specialOperators (w @ '':'' @ rest) = Some ([FieldNameToken w, SeparatorToken], rest)"
    using parse_word[OF assms(1)] plain_word_no_operator[OF assms(1)]
    by (simp add: nextToken_def word_end_def)
  then show ?thesis using plain_word_trimmed[OF assms(1), of "'':'' @ rest"] plain_word_ends[OF assms(1)] assms(2,3)
    by (simp add: tokenize_loop.simps[of ts "w @ CHR '':'' # rest"])
qed

lemma find_specialOperators:
  "(p, t) \<in> set specialOperators \<Longrightarrow>
   find (\<lambda>(operator, t). has_prefix (p @ rest) operator) specialOperators = Some (p, t)"
proof -
  let ?P = "\<lambda>(operator, t). has_prefix (p @ rest) operator"
  assume p: "(p, t) \<in> set specialOperators"
  then have "find ?P specialOperators \<noteq> None" by (auto simp: find_None_iff has_prefix_def)
  then obtain x where x: "find ?P specialOperators = Some x" by blast
  then have "x = (p, t)"
    using find_sound[OF x] p by (intro operator_unique[of x "(p, t)" "p @ rest"]) (auto simp: has_prefix_def)
  with x show ?thesis by simp
qed

lemma tokenize_operator:
  assumes "(p, t) \<in> set specialOperators" "\<not> white_space (last (p @ rest))"
  shows "tokenize_loop ts (p @ rest) = tokenize_loop (ts @ [t]) rest"
proof -
  have "p \<noteq> []" "\<not> white_space (hd p)" "t \<noteq> InvalidToken"
    using assms(1) by (auto simp: specialOperators_def white_space_def)
  moreover have "trim_space (p @ rest) = p @ rest"
    using calculation assms(2) by (intro trim_trimmed) auto
  moreover have "nextToken specialOperators (p @ rest) = Some ([t], rest)"
    using find_specialOperators[OF assms(1)] by (simp add: nextToken_def)
  ultimately show ?thesis by (simp add: tokenize_loop.simps[of ts "p @ rest"])
qed

lemma tokenize_space: "tokenize_loop ts (CHR '' '' # rest) = tokenize_loop ts rest"
proof -
  have "trim_space (CHR '' '' # rest) = trim_space rest" by (simp add: trim_space_def white_space_def)
  then show ?thesis by (metis tokenize_loop_trim)
qed

lemma tokenize_Nil [simp]: "tokenize_loop ts [] = Some ts"
  by (simp add: tokenize_loop.simps)

lemma join_words_end:
  "ws \<noteq> [] \<Longrightarrow> list_all plain_word ws \<Longrightarrow> join '' '' ws \<noteq> [] \<and> \<not> white_space (last (join '' '' ws)) \<and>
   hd (join '' '' ws) = hd (hd ws)"
proof (induction ws rule: induct_list012)
  case (2 w)
  then show ?case using plain_word_ends by simp
next
  case (3 w v ws)
  then show ?case using plain_word_ends[of w] by auto
qed simp

lemma tokenize_words:
  assumes "ws \<noteq> []" "list_all plain_word ws" "rest = [] \<or> \<not> white_space (last rest)" "rest = [] \<or> hd rest = CHR '')''"
  shows "tokenize_loop ts (join '' '' ws @ rest) = tokenize_loop (ts @ map TermToken ws) rest"
  using assms
proof (induction ws arbitrary: ts rule: induct_list012)
  case (2 w)
  have "trim_space rest = [] \<or> hd (trim_space rest) \<noteq> CHR '':''"
    using 2 trim_trimmed[of rest] by (cases "rest = []") (auto simp: white_space_def)
  then show ?case using 2 tokenize_word[of w rest ts] by (auto simp: word_end_def)
next
  case (3 w v ws)
  let ?r = "join '' '' (v # ws) @ rest"
  have v: "join '' '' (v # ws) \<noteq> []" "\<not> white_space (last (join '' '' (v # ws)))"
    "hd (join '' '' (v # ws)) = hd v"
    using join_words_end[of "v # ws"] 3(4) by auto
  have l: "\<not> white_space (last ?r)" using v 3(5) by (auto simp: last_append)
  have h: "hd ?r = hd v" "?r \<noteq> []" using v by auto
  have "plain_word v" using 3(4) by simp
  then have "\<not> white_space (hd ?r)" "hd ?r \<noteq> CHR '':''"
    using h plain_word_ends[of v] by (auto simp: plain_word_def list_all_iff word_char_def)
  then have "trim_space ('' '' @ ?r) = ?r"
    using trim_trimmed[of ?r] l h by (simp add: trim_space_def white_space_def)
  then have "tokenize_loop ts (w @ '' '' @ ?r) = tokenize_loop (ts @ [TermToken w]) ('' '' @ ?r)"
    using 3(4) l h \<open>hd ?r \<noteq> CHR '':''\<close> by (intro tokenize_word) (auto simp: word_end_def)
  also have "\<dots> = tokenize_loop (ts @ [TermToken w]) ?r" by (simp add: tokenize_space)
  also have "\<dots> = tokenize_loop ((ts @ [TermToken w]) @ map TermToken (v # ws)) rest"
    using 3 by (intro 3(2)) auto
  finally show ?case by simp
qed simp

lemma toExpression_not_nil: "toExpression v f \<noteq> NilExpr"
  by (cases v) (auto simp: term_toExpression_def range_toExpression_def Let_def bound_expression_def)

section \<open>Truth of a translation\<close>

text \<open>
  Truth of a condition in a row, given the truth of the comparisons: \<open>NOT\<close> negates, parentheses
  only group.
\<close>

fun truth :: "(expr \<Rightarrow> bool) \<Rightarrow> expr \<Rightarrow> bool" where
  "truth \<rho> (InfixExpr l op r) =
     (if op = ''AND'' then truth \<rho> l \<and> truth \<rho> r
      else if op = ''OR'' then truth \<rho> l \<or> truth \<rho> r
      else \<rho> (InfixExpr l op r))"
| "truth \<rho> (PrefixExpr op [e]) = (if op = ''NOT'' then \<not> truth \<rho> e else \<rho> (PrefixExpr op [e]))"
| "truth \<rho> (ParenExpr [e]) = truth \<rho> e"
| "truth \<rho> (LiteralExpr l) = (Value l \<noteq> VString ''false'' \<and> \<rho> (LiteralExpr l))"
| "truth \<rho> e = \<rho> e"

lemma truth_value: "truth \<rho> (toExpression v f) \<longleftrightarrow> meets (\<lambda>x. truth \<rho> (toExpression x f)) v"
  by (induction v) (simp_all add: NewLiteral_def)

lemma truth_foldl_or:
  "truth \<rho> (foldl (\<lambda>e x. InfixExpr e ''OR'' (g x)) e xs) \<longleftrightarrow> truth \<rho> e \<or> (\<exists>x \<in> set xs. truth \<rho> (g x))"
  by (induction xs arbitrary: e) auto

lemma truth_leaf: "truth \<rho> (newLeafStatement fs v) \<longleftrightarrow> (\<exists>f \<in> set fs. truth \<rho> (toExpression v f))"
  by (cases fs) (auto simp: newLeafStatement_def truth_foldl_or invalidStatement_def NewLiteral_def)

section \<open>Statements of terms\<close>

lemma foldl_infix_shape:
  "\<exists>l op r. e = InfixExpr l op r \<Longrightarrow> \<exists>l op r. foldl (\<lambda>e x. InfixExpr e ''OR'' (g x)) e xs = InfixExpr l op r"
  by (induction xs arbitrary: e) auto

lemma term_leaf_shape:
  "newLeafStatement fs (TermValue w) = invalidStatement \<or>
   (\<exists>l op r. newLeafStatement fs (TermValue w) = InfixExpr l op r)"
proof (cases fs)
  case (Cons f fs')
  have "\<exists>l op r. toExpression (TermValue w) f = InfixExpr l op r"
    by (auto simp: term_toExpression_def Let_def)
  from foldl_infix_shape[OF this, of "toExpression (TermValue w)" fs'] Cons show ?thesis
    by (simp add: newLeafStatement_def)
qed (simp add: newLeafStatement_def)

lemma default_or:
  "add_default_operator True w (newLeafStatement fs (TermValue t)) =
   (if w = NilExpr then newLeafStatement fs (TermValue t)
    else InfixExpr w ''OR'' (newLeafStatement fs (TermValue t)))"
  using term_leaf_shape[of fs t] by (auto simp: add_default_operator_def invalidStatement_def)

lemma build_loop_Cons:
  "build_loop fs sch w (tok # ts) =
   (case buildWhereStatement fs sch w True (tok # ts) of None \<Rightarrow> None | Some (e, r) \<Rightarrow> build_loop fs sch e r)"
  by (simp add: build_loop.simps[of fs sch w "tok # ts"])

lemma build_loop_Nil [simp]: "build_loop fs sch w [] = Some w"
  by (simp add: build_loop.simps)

lemma build_words:
  "w \<noteq> NilExpr \<Longrightarrow> build_loop fs sch w (map TermToken ws) =
   Some (foldl (\<lambda>e x. InfixExpr e ''OR'' (newLeafStatement fs (TermValue x))) w ws)"
  by (induction ws arbitrary: w) (simp_all add: build_loop_Cons default_or)

lemma leaf_not_nil: "newLeafStatement fs (TermValue t) \<noteq> NilExpr"
  using term_leaf_shape[of fs t] by (auto simp: invalidStatement_def)

lemma foldl_or_not_Nil: "e \<noteq> NilExpr \<Longrightarrow> foldl (\<lambda>e x. InfixExpr e ''OR'' (g x)) e xs \<noteq> NilExpr"
  by (induction xs arbitrary: e) auto

lemma no_operators_removed:
  "fuzzyOperator \<notin> set q \<Longrightarrow> boostingOperator \<notin> set q \<Longrightarrow>
   removeBoostingOperator (removeFuzzySearchOperator q) = q"
  by (simp add: removeBoostingOperator_def removeFuzzySearchOperator_def removeSpecialCharacter_id)

lemma word_no_operators: "plain_word w \<Longrightarrow> fuzzyOperator \<notin> set w \<and> boostingOperator \<notin> set w"
  by (auto simp: plain_word_def list_all_iff word_char_def fuzzyOperator_def boostingOperator_def)

lemma join_no_char: "c \<noteq> CHR '' '' \<Longrightarrow> (\<And>w. w \<in> set ws \<Longrightarrow> c \<notin> set w) \<Longrightarrow> c \<notin> set (join '' '' ws)"
  by (induction ws rule: induct_list012) auto

lemma words_no_operators:
  "list_all plain_word ws \<Longrightarrow>
   fuzzyOperator \<notin> set (join '' '' ws) \<and> boostingOperator \<notin> set (join '' '' ws)"
  using word_no_operators join_no_char[of fuzzyOperator ws] join_no_char[of boostingOperator ws]
  by (simp add: list_all_iff fuzzyOperator_def boostingOperator_def)

text \<open>
  A query of plain words is true of a row exactly when some default field matches some word.
\<close>

lemma plain_words_any_field:
  assumes "list_all plain_word ws" "ws \<noteq> []"
  shows "\<exists>e. TranslateToSQL (join '' '' ws) fs sch = Some e \<and>
    (truth \<rho> e \<longleftrightarrow> (\<exists>w \<in> set ws. \<exists>f \<in> set fs. truth \<rho> (toExpression (TermValue w) f)))"
proof -
  obtain w ws' where ws: "ws = w # ws'" using assms(2) by (cases ws) auto
  have "tokenizeQuery (join '' '' ws) = Some (map TermToken ws)"
    using tokenize_words[of ws "[]" "[]"] assms by (simp add: tokenizeQuery_def)
  then have "TranslateToSQL (join '' '' ws) fs sch = BuildWhereStatement fs sch (map TermToken ws)"
    using words_no_operators[OF assms(1)] by (simp add: TranslateToSQL_def no_operators_removed)
  moreover have "build_loop fs sch NilExpr (map TermToken ws) =
      Some (foldl (\<lambda>e x. InfixExpr e ''OR'' (newLeafStatement fs (TermValue x)))
        (newLeafStatement fs (TermValue w)) ws')"
    using ws by (simp add: build_loop_Cons default_or build_words leaf_not_nil)
  ultimately have "TranslateToSQL (join '' '' ws) fs sch =
      Some (foldl (\<lambda>e x. InfixExpr e ''OR'' (newLeafStatement fs (TermValue x)))
        (newLeafStatement fs (TermValue w)) ws')"
    by (simp add: BuildWhereStatement_def foldl_or_not_Nil leaf_not_nil)
  then show ?thesis by (auto simp: truth_foldl_or truth_leaf ws)
qed

lemma plain_words_any_field_example:
  "\<exists>e. TranslateToSQL (join '' '' [''error'', ''42'', ''db*'']) [''title'', ''text''] (NewSchema [] True []) = Some e \<and>
    (truth (\<lambda>x. x = toExpression (TermValue ''42'') ''text'') e \<longleftrightarrow>
     (\<exists>w \<in> set [''error'', ''42'', ''db*'']. \<exists>f \<in> set [''title'', ''text''].
        truth (\<lambda>x. x = toExpression (TermValue ''42'') ''text'') (toExpression (TermValue w) f)))"
  by (rule plain_words_any_field) (simp_all add: plain_word_def word_char_def white_space_def)

section \<open>Parentheses\<close>

lemma tokenize_group:
  assumes "plain_word a" "plain_word b" "plain_word c"
  shows "tokenizeQuery (a @ '' AND ('' @ b @ '' OR '' @ c @ '')'') =
    Some [TermToken a, AndToken, LeftParenthesisToken, TermToken b, OrToken, TermToken c,
      RightParenthesisToken]"
proof -
  let ?q = "a @ '' AND ('' @ b @ '' OR '' @ c @ '')''"
  note p = assms
  have ops: "(''AND '', AndToken) \<in> set specialOperators" "(''OR '', OrToken) \<in> set specialOperators"
    "(''('', LeftParenthesisToken) \<in> set specialOperators" "('')'', RightParenthesisToken) \<in> set specialOperators"
    by (simp_all add: specialOperators_def)
  have last: "\<not> white_space (last ('')''))" by (simp add: white_space_def)
  have hd: "trim_space r = [] \<or> hd (trim_space r) \<noteq> CHR '':''"
    if "r = ('' AND '' @ u) \<or> r = ('' OR '' @ u)" "u \<noteq> []" "\<not> white_space (last u)" for r u
    using that trim_space_last[of r] by (auto simp: white_space_def)
  have "tokenize_loop [] ?q = tokenize_loop [TermToken a] ('' AND ('' @ b @ '' OR '' @ c @ '')'')"
    using tokenize_word[OF p(1), of "'' AND ('' @ b @ '' OR '' @ c @ '')''" "[]"] last
      hd[of "'' AND ('' @ b @ '' OR '' @ c @ '')''" "''('' @ b @ '' OR '' @ c @ '')''"]
    by (simp add: word_end_def white_space_def)
  also have "\<dots> = tokenize_loop [TermToken a] (''AND '' @ ''('' @ b @ '' OR '' @ c @ '')'')"
    using tokenize_space by simp
  also have "\<dots> = tokenize_loop [TermToken a, AndToken] (''('' @ b @ '' OR '' @ c @ '')'')"
    by (subst tokenize_operator[OF ops(1)]) (simp_all add: white_space_def)
  also have "\<dots> = tokenize_loop [TermToken a, AndToken, LeftParenthesisToken] (b @ '' OR '' @ c @ '')'')"
    by (subst tokenize_operator[OF ops(3)]) (simp_all add: white_space_def)
  also have "\<dots> = tokenize_loop [TermToken a, AndToken, LeftParenthesisToken, TermToken b] ('' OR '' @ c @ '')'')"
    using tokenize_word[OF p(2), of "'' OR '' @ c @ '')''"] last hd[of "'' OR '' @ c @ '')''" "c @ '')''"]
    by (simp add: word_end_def white_space_def)
  also have "\<dots> = tokenize_loop [TermToken a, AndToken, LeftParenthesisToken, TermToken b] (''OR '' @ c @ '')'')"
    using tokenize_space by simp
  also have "\<dots> = tokenize_loop [TermToken a, AndToken, LeftParenthesisToken, TermToken b, OrToken] (c @ '')'')"
    by (subst tokenize_operator[OF ops(2)]) (simp_all add: white_space_def)
  also have "\<dots> = tokenize_loop [TermToken a, AndToken, LeftParenthesisToken, TermToken b, OrToken, TermToken c] ('')'')"
    using tokenize_word[OF p(3), of "'')''"] trim_trimmed[of "'')''"] by (simp add: word_end_def white_space_def)
  also have "\<dots> = Some [TermToken a, AndToken, LeftParenthesisToken, TermToken b, OrToken,
    TermToken c, RightParenthesisToken]"
    using tokenize_operator[OF ops(4), of "[]"] by (simp add: white_space_def)
  finally show ?thesis by (simp add: tokenizeQuery_def)
qed

text \<open>
  Parentheses around words do not group: a closing one is skipped, an opening one encloses
  the next statement only.  \<open>a AND (b OR c)\<close> is translated to \<open>(a AND b) OR c\<close>, which is true
  of every row that matches \<open>c\<close>, whether or not it matches \<open>a\<close>.
\<close>

lemma parentheses_do_not_group:
  assumes "list_all plain_word [a, b, c]"
  shows "\<exists>e. TranslateToSQL (a @ '' AND ('' @ b @ '' OR '' @ c @ '')'') fs sch = Some e \<and>
    (let holds = (\<lambda>w. \<exists>f \<in> set fs. truth \<rho> (toExpression (TermValue w) f))
     in truth \<rho> e \<longleftrightarrow> (holds a \<and> holds b) \<or> holds c)"
proof -
  let ?q = "a @ '' AND ('' @ b @ '' OR '' @ c @ '')''"
  have p: "plain_word a" "plain_word b" "plain_word c" using assms by auto
  have "removeBoostingOperator (removeFuzzySearchOperator ?q) = ?q"
    using p word_no_operators by (intro no_operators_removed) (auto simp: fuzzyOperator_def boostingOperator_def)
  then show ?thesis
    using leaf_not_nil tokenize_group[OF p]
    by (auto simp: TranslateToSQL_def BuildWhereStatement_def build_loop_Cons default_or truth_leaf
        add_default_operator_def Let_def)
qed

lemma parentheses_do_not_group_example:
  "\<exists>e. TranslateToSQL (''error'' @ '' AND ('' @ ''db'' @ '' OR '' @ ''disk'' @ '')'') [''title''] (NewSchema [] True []) = Some e \<and>
    (let holds = (\<lambda>w. \<exists>f \<in> set [''title'']. truth (\<lambda>x. x = toExpression (TermValue ''disk'') ''title'')
           (toExpression (TermValue w) f))
     in truth (\<lambda>x. x = toExpression (TermValue ''disk'') ''title'') e \<longleftrightarrow>
        (holds ''error'' \<and> holds ''db'') \<or> holds ''disk'')"
  by (rule parentheses_do_not_group) (simp add: plain_word_def word_char_def white_space_def)

lemma buildValue_group:
  assumes "ws \<noteq> []"
  shows "\<exists>v. buildValue (LeftParenthesisToken # map TermToken ws @ [RightParenthesisToken]) [] False = Some (v, []) \<and>
    (meets \<rho> v \<longleftrightarrow> (\<exists>w \<in> set ws. \<rho> (TermValue w)))"
proof -
  have leaves: "leaf_token t \<noteq> None" if "t \<in> set (map TermToken ws)" for t
    using that by (auto simp: leaf_token_def)
  have "[] @ map (\<lambda>_. InvalidValue) (map TermToken ws) \<noteq> []" using assms by simp
  from buildValue_leaves[OF leaves this, of "[]" \<rho>]
  obtain v where v: "buildValue (map TermToken ws @ RightParenthesisToken # []) [] True = Some (v, [])"
    "meets \<rho> v \<longleftrightarrow> (\<exists>x \<in> set [] \<union> {l. Some l \<in> leaf_token ` set (map TermToken ws)}. meets \<rho> x)"
    by blast
  have "buildValue (LeftParenthesisToken # map TermToken ws @ [RightParenthesisToken]) [] False = Some (v, [])"
    using v(1) by (simp add: buildValue.simps[of "_ # _"] iterate_def end_iteration_def)
  moreover have "{l. Some l \<in> leaf_token ` set (map TermToken ws)} = TermValue ` set ws"
    by (auto simp: leaf_token_def image_iff)
  ultimately show ?thesis using v(2) by auto
qed

text \<open>
  Parentheses after a field name do group: \<open>field:(w1 ... wn)\<close> is true of a row exactly
  when the column of the field matches one of the words.
\<close>

lemma field_group_any_word:
  assumes "plain_word field" "list_all plain_word ws" "ws \<noteq> []"
  shows "\<exists>e. TranslateToSQL (field @ '':('' @ join '' '' ws @ '')'') fs sch = Some e \<and>
    (truth \<rho> e \<longleftrightarrow>
     (\<exists>w \<in> set ws. truth \<rho> (toExpression (TermValue w) (column_of_field sch field))))"
proof -
  let ?q = "field @ '':('' @ join '' '' ws @ '')''"
  let ?ts = "LeftParenthesisToken # map TermToken ws @ [RightParenthesisToken]"
  have op: "(''('', LeftParenthesisToken) \<in> set specialOperators" "('')'', RightParenthesisToken) \<in> set specialOperators"
    by (simp_all add: specialOperators_def)
  have t: "tokenizeQuery ?q = Some (FieldNameToken field # SeparatorToken # ?ts)"
    using tokenize_field[OF assms(1), of "''('' @ join '' '' ws @ '')''" "[]"]
      tokenize_operator[OF op(1), of "join '' '' ws @ '')''"] tokenize_words[OF assms(3,2), of "'')''"]
      tokenize_operator[OF op(2), of "[]"]
    by (simp add: tokenizeQuery_def white_space_def)
  have r: "removeBoostingOperator (removeFuzzySearchOperator ?q) = ?q"
    using word_no_operators[OF assms(1)] words_no_operators[OF assms(2)]
    by (intro no_operators_removed) (auto simp: fuzzyOperator_def boostingOperator_def)
  obtain v where v: "buildValue ?ts [] False = Some (v, [])"
    "meets (\<lambda>x. truth \<rho> (toExpression x (column_of_field sch field))) v \<longleftrightarrow>
     (\<exists>w \<in> set ws. truth \<rho> (toExpression (TermValue w) (column_of_field sch field)))"
    using buildValue_group[OF assms(3), of "\<lambda>x. truth \<rho> (toExpression x (column_of_field sch field))"]
    by auto
  have b: "buildWhereStatement fs sch NilExpr True (FieldNameToken field # SeparatorToken # ?ts) =
      Some (newLeafStatement [column_of_field sch field] v, [])"
    using v(1) by (simp add: add_default_operator_def)
  have n: "newLeafStatement [column_of_field sch field] v \<noteq> NilExpr"
    by (simp add: newLeafStatement_def toExpression_not_nil)
  have "build_loop fs sch NilExpr (FieldNameToken field # SeparatorToken # ?ts) =
      Some (newLeafStatement [column_of_field sch field] v)"
    by (subst build_loop_Cons, subst b) simp
  with r t n have "TranslateToSQL ?q fs sch = Some (newLeafStatement [column_of_field sch field] v)"
    by (simp only: TranslateToSQL_def BuildWhereStatement_def option.case option.map if_False)
  moreover have "truth \<rho> (newLeafStatement [column_of_field sch field] v) \<longleftrightarrow>
      (\<exists>w \<in> set ws. truth \<rho> (toExpression (TermValue w) (column_of_field sch field)))"
    unfolding truth_leaf using v(2) by (simp only: truth_value[of \<rho> v] list.set bex_simps simp_thms)
  ultimately show ?thesis by blast
qed

lemma field_group_any_word_example:
  "\<exists>e. TranslateToSQL (''host'' @ '':('' @ join '' '' [''db1'', ''db2''] @ '')'') [''title''] (NewSchema [] True []) = Some e \<and>
    (truth (\<lambda>x. x = toExpression (TermValue ''db2'') ''host'') e \<longleftrightarrow>
     (\<exists>w \<in> set [''db1'', ''db2'']. truth (\<lambda>x. x = toExpression (TermValue ''db2'') ''host'')
        (toExpression (TermValue w) (column_of_field (NewSchema [] True []) ''host''))))"
  by (rule field_group_any_word) (simp_all add: plain_word_def word_char_def white_space_def)

section \<open>The translation panics at an open bracket only\<close>

lemma buildWhereStatement_Some: "buildWhereStatement fs sch w add ts \<noteq> None"
proof (induction fs sch w add ts rule: buildWhereStatement.induct)
  case (2 fs sch w add tok ts)
  have bv: "\<exists>v r. buildValue t [] False = Some (v, r)" for t
    using buildValue_Some[of t "[]" False] by auto
  show ?case
    using 2 bv[of ts] bv[of "tl ts"]
    by (cases tok) (auto simp: Let_def split: option.splits lucene_value.splits)
qed simp

lemma build_loop_Some: "build_loop fs sch w ts \<noteq> None"
proof (induction fs sch w ts rule: build_loop.induct)
  case (1 fs sch w ts)
  then show ?case using buildWhereStatement_Some[of fs sch w True ts]
    by (auto simp: build_loop.simps[of fs sch w ts] split: option.splits)
qed

lemma TranslateToSQL_None:
  "TranslateToSQL q fs sch = None \<longleftrightarrow>
   tokenizeQuery (removeBoostingOperator (removeFuzzySearchOperator q)) = None"
  using build_loop_Some by (auto simp: TranslateToSQL_def BuildWhereStatement_def split: option.splits)

lemma tokenize_open_bracket:
  assumes "plain_word field" "open_bracket b"
  shows "tokenizeQuery (field @ '':'' @ [b]) = None"
proof -
  have "\<not> white_space b" "has_prefix [b] p \<Longrightarrow> p \<in> {[], [b]}" for p
    using assms(2) by (auto simp: open_bracket_def white_space_def has_prefix_def neq_Nil_conv take_Cons'
        split: if_splits)
  moreover have "find (\<lambda>(operator, t). has_prefix [b] operator) specialOperators = None"
    using assms(2) by (auto simp: specialOperators_def has_prefix_def open_bracket_def)
  moreover have "parseOneBound False [] = None"
    by (simp add: parseOneBound.simps[of False "[]"] parseTerm.simps[of False "[]"] parseNumber_def
        ParseFloat_def split_sign_def to_lower_def has_prefix_def read_number_def)
  then have "parseRange [b] = None" using assms(2) by (auto simp: parseRange.simps[of "[b]"] open_bracket_def)
  then have "parseTerm False [b] = None" using assms(2) by (auto simp: parseTerm.simps[of False "[b]"] open_bracket_def)
  ultimately have "tokenize_loop ts [b] = None" for ts
    using trim_trimmed[of "[b]"] by (simp add: tokenize_loop.simps[of ts "[b]"] nextToken_def)
  then show ?thesis
    using tokenize_field[OF assms(1), of "[b]" "[]"] \<open>\<not> white_space b\<close> by (simp add: tokenizeQuery_def)
qed

text \<open>A text of ASCII characters, whose white space is that of the model.\<close>

definition ascii_text :: "string \<Rightarrow> bool" where
  "ascii_text s \<longleftrightarrow> list_all (\<lambda>c. of_char c < (128 :: nat)) s"

text \<open>
  C28: The translation of a query of ASCII characters panics only if what is left of the query after
  removing its fuzzy and boosting operators, and then the white space around it, ends in an opening
  bracket of a range; for every other one it returns.
\<close>

theorem translation_panics_at_open_bracket:
  assumes "ascii_text query" and "TranslateToSQL query fs sch = None"
  shows "let q = trim_space (removeBoostingOperator (removeFuzzySearchOperator query))
    in q \<noteq> [] \<and> open_bracket (last q)"
  using assms(2) tokenize_panics by (simp add: TranslateToSQL_None tokenizeQuery_def Let_def)

text \<open>
  A field compared with an opening bracket makes the translation panic: after the bracket
  \<open>parseTerm\<close> reads the first character of an empty text.
\<close>

lemma open_bracket_panics:
  assumes "plain_word field" "open_bracket b"
  shows "TranslateToSQL (field @ '':'' @ [b]) fs sch = None"
proof -
  have "removeBoostingOperator (removeFuzzySearchOperator (field @ '':'' @ [b])) = field @ '':'' @ [b]"
    using word_no_operators[OF assms(1)] assms(2)
    by (intro no_operators_removed) (auto simp: fuzzyOperator_def boostingOperator_def open_bracket_def)
  then show ?thesis using tokenize_open_bracket[OF assms] by (simp add: TranslateToSQL_None)
qed

lemma open_bracket_panics_example: "TranslateToSQL (''title'' @ '':'' @ ''['') [''title''] (NewSchema [] True []) = None"
  by (rule open_bracket_panics) (simp_all add: plain_word_def word_char_def white_space_def open_bracket_def)

lemma sample_panic: "TranslateToSQL ''title:['' [''title''] (NewSchema [] True []) = None"
  using tokenize_open_bracket[of "''title''" "CHR ''[''"]
  by (simp add: TranslateToSQL_None no_operators_removed fuzzyOperator_def boostingOperator_def
      plain_word_def word_char_def white_space_def open_bracket_def)

theorem translation_panics_at_open_bracket_witness:
  "let q = trim_space (removeBoostingOperator (removeFuzzySearchOperator ''title:[''))
    in q \<noteq> [] \<and> open_bracket (last q)"
  by (rule translation_panics_at_open_bracket[OF _ sample_panic]) (simp add: ascii_text_def)

section \<open>Bounds of ranges\<close>

text \<open>The bounds that the lexer makes: no bound of a token is an expression.\<close>

definition parsed_range :: "range_value \<Rightarrow> bool" where
  "parsed_range r \<longleftrightarrow> (\<forall>e. lowerBound r \<noteq> ExprBound e \<and> upperBound r \<noteq> ExprBound e)"

fun parsed_token :: "token \<Rightarrow> bool" where
  "parsed_token (RangeToken r) = parsed_range r"
| "parsed_token t = True"

lemma parsed_range_simps [simp]:
  "parsed_range (newRangeValue l a u b) \<longleftrightarrow> (\<forall>e. l \<noteq> ExprBound e \<and> u \<noteq> ExprBound e)"
  by (auto simp: parsed_range_def newRangeValue_def)

lemma parse_comparison_parsed: "parse_comparison q = (t, r) \<Longrightarrow> parsed_token t"
  by (auto simp: parse_comparison_def Let_def newRangeValueGte_def newRangeValueGt_def newRangeValueLte_def
      newRangeValueLt_def split: if_splits prod.splits)

lemma parse_bound_parsed: "parseOneBound closing q = Some (Some b, r) \<Longrightarrow> b \<noteq> ExprBound e"
  by (auto simp: parseOneBound.simps[of closing q] Let_def
      split: if_splits option.splits prod.splits token.splits)

lemma parseRange_parsed: "parseRange q = Some (t, r) \<Longrightarrow> parsed_token t"
  by (auto simp: parseRange.simps[of q] split: list.splits if_splits option.splits prod.splits
      dest: parse_comparison_parsed parse_bound_parsed)

lemma parseTerm_parsed: "parseTerm closing q = Some (t, r) \<Longrightarrow> parsed_token t"
  by (auto simp: parseTerm.simps[of closing q] Let_def split: list.splits if_splits dest: parseRange_parsed)

lemma nextToken_parsed: "nextToken specialOperators q = Some (ts, r) \<Longrightarrow> list_all parsed_token ts"
  by (auto simp: nextToken_def Let_def specialOperators_def split: option.splits if_splits token.splits
      dest!: parseTerm_parsed)

lemma tokenize_parsed:
  "tokenize_loop ts q = Some ts' \<Longrightarrow> list_all parsed_token ts \<Longrightarrow> list_all parsed_token ts'"
proof (induction ts q rule: tokenize_loop.induct)
  case (1 ts q)
  then show ?case
    by (auto simp: tokenize_loop.simps[of ts q] Let_def split: if_splits option.splits dest!: nextToken_parsed)
qed


text \<open>The values at the leaves of a value.\<close>

fun value_leaves :: "lucene_value \<Rightarrow> lucene_value set" where
  "value_leaves (AndValue l r) = value_leaves l \<union> value_leaves r"
| "value_leaves (OrValue l r) = value_leaves l \<union> value_leaves r"
| "value_leaves (NotValue v) = value_leaves v"
| "value_leaves v = {v}"

text \<open>Every leaf of a value is invalid or stands for a token of the list.\<close>

definition made_of :: "token list \<Rightarrow> lucene_value \<Rightarrow> bool" where
  "made_of ts v \<longleftrightarrow> (\<forall>l \<in> value_leaves v. l = InvalidValue \<or> Some l \<in> leaf_token ` set ts)"

lemma made_of_simps [simp]:
  "made_of ts (AndValue l r) \<longleftrightarrow> made_of ts l \<and> made_of ts r"
  "made_of ts (OrValue l r) \<longleftrightarrow> made_of ts l \<and> made_of ts r"
  "made_of ts (NotValue v) \<longleftrightarrow> made_of ts v"
  "made_of ts InvalidValue"
  by (auto simp: made_of_def)

lemma made_of_mono: "made_of ts v \<Longrightarrow> set ts \<subseteq> set ts' \<Longrightarrow> made_of ts' v"
  by (force simp: made_of_def)

lemma joinLastTwo_made_of:
  assumes "joinLastTwo f st = Some st'" "list_all (made_of ts) st" "\<And>a b. made_of ts (f a b) = (made_of ts a \<and> made_of ts b)"
  shows "list_all (made_of ts) st'"
  using assms by (auto simp: joinLastTwo_def Let_def list_all_iff split: if_splits dest!: in_set_takeD)

lemma or_all_made_of: "or_all st = Some v \<Longrightarrow> list_all (made_of ts) st \<Longrightarrow> made_of ts v"
proof (induction st arbitrary: v rule: or_all.induct)
  case (1 st)
  then show ?case
    using joinLastTwo_made_of[of OrValue st _ ts]
    by (auto simp: or_all.simps[of st] orLastTwoValues_def split: if_splits option.splits list.splits)
qed

fun iteration_ok :: "token list \<Rightarrow> iteration \<Rightarrow> bool" where
  "iteration_ok ts (Return v r) = (made_of ts v \<and> set r \<subseteq> set ts)"
| "iteration_ok ts (Continue st r) = (list_all (made_of ts) st \<and> set r \<subseteq> set ts)"

lemma end_iteration_ok:
  assumes "end_iteration inside add pushed r = Some it" "set r \<subseteq> set ts"
    "\<And>st. pushed = Some st \<Longrightarrow> list_all (made_of ts) st"
  shows "iteration_ok ts it"
proof -
  obtain st where st: "pushed = Some st" using assms(1) by (auto simp: end_iteration_def split: option.splits)
  have "list_all (made_of ts) st'" if "orLastTwoValues st = Some st'" for st'
    using that joinLastTwo_made_of[of OrValue st st' ts] assms(3)[OF st] by (simp add: orLastTwoValues_def)
  then show ?thesis using assms st
    by (fastforce simp: end_iteration_def split: option.splits if_splits list.splits)
qed

lemma iterate_ok:
  assumes "iterate sub tok ts st inside = Some it" "set (tok # ts) \<subseteq> set T" "list_all (made_of T) st"
    "\<And>b v r. sub b = Some (v, r) \<Longrightarrow> made_of T v \<and> set r \<subseteq> set T"
  shows "iteration_ok T it"
proof -
  have leaf: "made_of T l" if "leaf_token tok = Some l" for l
    using that assms(2) by (cases tok) (force simp: leaf_token_def made_of_def)+
  note j = joinLastTwo_made_of[of AndValue _ _ T] joinLastTwo_made_of[of OrValue _ _ T]
  note e = end_iteration_ok[where ts = T]
  have push: "iteration_ok T it" if "end_iteration inside add (Some (st @ [v])) r = Some it"
    "made_of T v" "set r \<subseteq> set T" for add v r
    by (rule e[OF that(1,3)]) (use that assms(3) in auto)
  have join: "iteration_ok T it" if "f \<in> {AndValue, OrValue}"
    "end_iteration inside False (joinLastTwo f (st @ [v])) r = Some it"
    "made_of T v" "set r \<subseteq> set T" for f v r
    by (rule e[OF that(2,4)]) (use that assms(3) j in auto)
  note s = assms(4)[of True] assms(4)[of False]
  show ?thesis
  proof (cases tok)
    case RightParenthesisToken
    then show ?thesis using assms(1-3) or_all_made_of[of st _ T]
      by (auto simp: iterate_def split: if_splits option.splits)
  next
    case (TermToken t)
    then have "end_iteration inside (st \<noteq> [] \<and> \<not> is_operation (last st)) (Some (st @ [TermValue t])) ts = Some it"
      using assms(1) by (simp add: iterate_def)
    then show ?thesis by (rule e) (use leaf assms(2,3) TermToken in \<open>auto simp: leaf_token_def\<close>)
  next
    case (RangeToken t)
    then have "end_iteration inside (st \<noteq> [] \<and> \<not> is_operation (last st)) (Some (st @ [RangeValue t])) ts = Some it"
      using assms(1) by (simp add: iterate_def)
    then show ?thesis by (rule e) (use leaf assms(2,3) RangeToken in \<open>auto simp: leaf_token_def\<close>)
  next
    case AndToken
    then show ?thesis using assms(1,2) s(2) join[of AndValue]
      by (auto simp: iterate_def split: if_splits option.splits)
  next
    case OrToken
    then show ?thesis using assms(1,2) s(2) join[of OrValue]
      by (auto simp: iterate_def orLastTwoValues_def split: if_splits option.splits)
  next
    case NotToken
    then obtain v r where "sub False = Some (v, r)"
      "end_iteration inside False (Some (st @ [NotValue v])) r = Some it"
      using assms(1) by (auto simp: iterate_def split: option.splits)
    with s(2) show ?thesis using push[of _ "NotValue v" r] by auto
  next
    case LeftParenthesisToken
    then obtain v r where "sub True = Some (v, r)"
      "end_iteration inside (st \<noteq> [] \<and> \<not> is_operation (last st)) (Some (st @ [v])) r = Some it"
      using assms(1) by (auto simp: iterate_def split: option.splits)
    with s(1) show ?thesis using push[of _ v r] by auto
  qed (use assms(1,2) in \<open>auto simp: iterate_def\<close>)
qed

lemma buildValue_made_of:
  "buildValue ts st inside = Some (v, r) \<Longrightarrow> set ts \<subseteq> set T \<Longrightarrow> list_all (made_of T) st \<Longrightarrow>
   made_of T v \<and> set r \<subseteq> set T"
proof (induction ts st inside arbitrary: v r rule: buildValue.induct)
  case (1 tokens st inside)
  show ?case
  proof (cases tokens)
    case (Cons tok ts)
    have sub: "made_of T v \<and> set r \<subseteq> set T" if "buildValue ts [] b = Some (v, r)" for b v r
      using 1(1)[OF Cons that] 1(4) Cons by auto
    obtain it where it: "iterate (\<lambda>level. buildValue ts [] level) tok ts st inside = Some it"
      using 1(3) Cons by (auto simp: buildValue.simps[of "tok # ts"] split: option.splits)
    have ok: "iteration_ok T it" using iterate_ok[OF it _ _ sub] 1(4,5) Cons by auto
    show ?thesis
    proof (cases it)
      case (Return v' r')
      with 1(3) it ok Cons show ?thesis by (auto simp: buildValue.simps[of "tok # ts"])
    next
      case (Continue st' r')
      then have "buildValue r' st' inside = Some (v, r)"
        using 1(3) it Cons by (simp add: buildValue.simps[of "tok # ts"])
      with 1(2)[OF Cons it Continue] ok Continue show ?thesis by simp
    qed
  qed (use 1 in \<open>auto simp: buildValue.simps\<close>)
qed


section \<open>Translations can be rendered\<close>

text \<open>What the renderer prints: a left side may be missing, nothing else.\<close>

fun printable_stmt :: "expr \<Rightarrow> bool" where
  "printable_stmt (InfixExpr l op r) = ((l = NilExpr \<or> printable_stmt l) \<and> printable_stmt r)"
| "printable_stmt (PrefixExpr op [e]) = printable_stmt e"
| "printable_stmt (ParenExpr [e]) = printable_stmt e"
| "printable_stmt (ColumnRef c) = True"
| "printable_stmt (LiteralExpr l) = True"
| "printable_stmt e = False"

lemma printable_renders: "printable_stmt e \<Longrightarrow> render e \<noteq> None"
  by (induction e rule: printable_stmt.induct) (auto simp: bind_eq_None_conv split: if_splits)

lemma term_printable: "printable_stmt (term_toExpression t f)"
  by (simp add: term_toExpression_def Let_def)

lemma bound_printable: "(\<And>e. b \<noteq> ExprBound e) \<Longrightarrow> printable_stmt (bound_expression f op b)"
  by (cases b) (auto simp: bound_expression_def)

lemma range_printable: "parsed_range r \<Longrightarrow> printable_stmt (range_toExpression r f)"
  by (auto simp: range_toExpression_def Let_def parsed_range_def intro!: bound_printable)

lemma value_printable:
  "made_of ts v \<Longrightarrow> list_all parsed_token ts \<Longrightarrow> printable_stmt (toExpression v f)"
proof (induction v)
  case (RangeValue r)
  then obtain t where "t \<in> set ts" "leaf_token t = Some (RangeValue r)" by (force simp: made_of_def)
  then have "t = RangeToken r" by (auto simp: leaf_token_def split: token.splits)
  with RangeValue \<open>t \<in> set ts\<close> show ?case by (auto simp: list_all_iff intro!: range_printable)
qed (auto simp: term_printable)

lemma foldl_printable:
  "printable_stmt e \<Longrightarrow> (\<And>x. x \<in> set xs \<Longrightarrow> printable_stmt (g x)) \<Longrightarrow>
   printable_stmt (foldl (\<lambda>e x. InfixExpr e ''OR'' (g x)) e xs)"
  by (induction xs arbitrary: e) auto

lemma leaf_printable:
  "made_of ts v \<Longrightarrow> list_all parsed_token ts \<Longrightarrow> printable_stmt (newLeafStatement fs v)"
  by (cases fs) (auto simp: newLeafStatement_def invalidStatement_def intro!: foldl_printable value_printable)

lemma default_printable:
  "printable_stmt e \<Longrightarrow> w = NilExpr \<or> printable_stmt w \<Longrightarrow> printable_stmt (add_default_operator add w e)"
  by (cases e) (auto simp: add_default_operator_def)

lemma buildValue_parsed:
  "buildValue ts [] b = Some (v, r) \<Longrightarrow> list_all parsed_token ts \<Longrightarrow>
   printable_stmt (newLeafStatement fs v) \<and> list_all parsed_token r"
  using buildValue_made_of[of ts "[]" b v r ts] leaf_printable by (auto simp: list_all_iff)

lemmas buildValue_printable = buildValue_parsed[THEN conjunct1]
lemmas buildValue_rest_parsed = buildValue_parsed[THEN conjunct2]

lemma buildWhereStatement_printable:
  "buildWhereStatement fs sch w add ts = Some (e, r) \<Longrightarrow> list_all parsed_token ts \<Longrightarrow>
   w = NilExpr \<or> printable_stmt w \<Longrightarrow> printable_stmt e \<and> list_all parsed_token r"
proof (induction fs sch w add ts arbitrary: e r rule: buildWhereStatement.induct)
  case (1 fs sch w add)
  then show ?case by (auto simp: invalidStatement_def)
next
  case (2 fs sch w add tok ts)
  have p: "list_all parsed_token ts" "list_all parsed_token (tl ts)"
    using 2(6) by (cases ts; simp)+
  have t: "printable_stmt (newLeafStatement fs (TermValue t))" for t
    using leaf_printable[of "[TermToken t]"] by (simp add: made_of_def leaf_token_def)
  note simps = Let_def invalidStatement_def
  show ?case
  proof (cases tok)
    case (FieldNameToken n)
    with 2(5,7) p show ?thesis
      by (auto simp: simps intro!: default_printable intro: buildValue_printable buildValue_rest_parsed split: if_splits option.splits)
  next
    case SeparatorToken
    with 2(5,7) p show ?thesis
      by (auto simp: simps intro!: default_printable intro: buildValue_printable buildValue_rest_parsed split: if_splits option.splits)
  next
    case ExistsToken
    with 2(5,7) p show ?thesis
      by (auto simp: simps intro!: default_printable intro: buildValue_printable buildValue_rest_parsed split: if_splits option.splits lucene_value.splits)
  next
    case (TermToken x)
    with 2(5,7) p t show ?thesis by (auto simp: simps intro!: default_printable)
  next
    case AndToken
    with 2(2)[OF refl AndToken] 2(5,7) p show ?thesis
      by (auto simp: simps intro!: default_printable split: option.splits)
  next
    case OrToken
    with 2(1)[OF refl OrToken] 2(5,7) p show ?thesis
      by (auto simp: simps intro!: default_printable split: option.splits)
  next
    case NotToken
    with 2(3)[OF refl NotToken] 2(5,7) p show ?thesis
      by (auto simp: simps intro!: default_printable split: option.splits)
  next
    case LeftParenthesisToken
    with 2(4)[OF refl LeftParenthesisToken] 2(5,7) p show ?thesis
      by (auto simp: simps intro!: default_printable split: option.splits)
  next
    case RightParenthesisToken
    with 2(5,7) p show ?thesis by (auto simp: simps split: if_splits)
  qed (use 2(5,7) p in \<open>auto simp: simps\<close>)
qed

lemma build_loop_printable:
  "build_loop fs sch w ts = Some e \<Longrightarrow> list_all parsed_token ts \<Longrightarrow> w = NilExpr \<or> printable_stmt w \<Longrightarrow>
   e = NilExpr \<or> printable_stmt e"
proof (induction fs sch w ts rule: build_loop.induct)
  case (1 fs sch w ts)
  show ?case
  proof (cases "ts = []")
    case False
    then obtain e' r where b: "buildWhereStatement fs sch w True ts = Some (e', r)"
      using 1(2) by (auto simp: build_loop.simps[of fs sch w ts] split: option.splits)
    with 1(2) False have "build_loop fs sch e' r = Some e" by (simp add: build_loop.simps[of fs sch w ts])
    with 1(1)[OF False b refl] buildWhereStatement_printable[OF b 1(3,4)] show ?thesis by blast
  qed (use 1 in simp)
qed

text \<open>
  Every translation can be rendered: whatever the query, the statement built from its tokens
  has a text, even where its syntax is wrong.
\<close>

lemma translations_render:
  assumes "TranslateToSQL query fs sch = Some e"
  shows "\<exists>s. render e = Some s"
proof -
  obtain ts w where ts: "tokenizeQuery (removeBoostingOperator (removeFuzzySearchOperator query)) = Some ts"
    and w: "build_loop fs sch NilExpr ts = Some w"
    and e: "e = (if w = NilExpr then LiteralExpr (NewLiteral (VString ''true'')) else w)"
    using assms by (auto simp: TranslateToSQL_def BuildWhereStatement_def split: option.splits)
  have "list_all parsed_token ts" using tokenize_parsed[of "[]"] ts by (simp add: tokenizeQuery_def)
  with build_loop_printable[OF w] e have "printable_stmt e" by auto
  then show ?thesis using printable_renders by fastforce
qed

lemma translate_word:
  assumes "plain_word w"
  shows "TranslateToSQL w fs sch = Some (newLeafStatement fs (TermValue w))"
proof -
  have "tokenizeQuery w = Some [TermToken w]"
    using tokenize_words[of "[w]" "[]" "[]"] assms by (simp add: tokenizeQuery_def)
  then show ?thesis using word_no_operators[OF assms] leaf_not_nil[of fs w]
    by (simp add: TranslateToSQL_def BuildWhereStatement_def no_operators_removed build_loop_Cons default_or)
qed

lemma translations_render_example:
  "\<exists>s. render (newLeafStatement [''title'', ''text''] (TermValue ''error'')) = Some s"
  by (rule translations_render[OF translate_word[of "''error''" _ "NewSchema [] True []"]])
    (simp add: plain_word_def word_char_def white_space_def)

text \<open>
  A query that starts with an operator has no left side to join: the translation of
  \<open>AND word\<close> holds a nil expression, on which every visitor of the query pipeline panics.
\<close>

lemma leading_operator_panics:
  assumes "plain_word w" "p \<in> {''AND '', ''OR ''}"
  shows "\<exists>e. TranslateToSQL (p @ w) fs sch = Some e \<and> accept NewBaseVisitor e s = None"
proof -
  obtain t where t: "(p, t) \<in> set specialOperators" "t \<in> {AndToken, OrToken}"
    using assms(2) by (auto simp: specialOperators_def)
  have "tokenizeQuery (p @ w) = Some [t, TermToken w]"
    using tokenize_operator[OF t(1), of w "[]"] tokenize_words[of "[w]" "[]" "[t]"] plain_word_ends[OF assms(1)] assms(1)
    by (simp add: tokenizeQuery_def last_append)
  moreover have "removeBoostingOperator (removeFuzzySearchOperator (p @ w)) = p @ w"
    using word_no_operators[OF assms(1)] assms(2)
    by (intro no_operators_removed) (auto simp: fuzzyOperator_def boostingOperator_def)
  ultimately have "TranslateToSQL (p @ w) fs sch =
      Some (InfixExpr NilExpr (if t = AndToken then ''AND'' else ''OR'') (newLeafStatement fs (TermValue w)))"
    using t(2) by (elim insertE) (simp_all add: TranslateToSQL_def BuildWhereStatement_def build_loop_Cons
        add_default_operator_def)
  then show ?thesis by (auto simp: accept_eq visit_as_def)
qed


lemma leading_operator_panics_example:
  "\<exists>e. TranslateToSQL (''AND '' @ ''error'') [''title''] (NewSchema [] True []) = Some e \<and>
     accept NewBaseVisitor e () = None"
  by (rule leading_operator_panics) (simp_all add: plain_word_def word_char_def white_space_def)

end
