(* ===== verification/Query_Parser.thy ===== *)
theory Query_Parser
  imports Date_Math Lucene_Query Search_After
begin

text \<open>
  The parser of the query DSL, \<open>quesma/parsers/elastic_query_dsl/query_parser.go\<close>: a JSON query
  becomes the WHERE clause of a SELECT.  A parser panics (\<open>None\<close>) or returns a \<open>simple_query\<close>,
  which says whether the query could be parsed.

  The document is a copy that only the parser uses, so that deleting keys from a map is a
  restriction of the list of its entries.  Loops over maps that must have one entry are matches
  on lists of length one.
\<close>

section \<open>The translator\<close>

record translator =
  tr_Schema :: schema
  DateMathRenderer :: string
  tr_Indexes :: "string list"
  tr_Table :: click_table
  tr_Clock :: gotime

definition TrueExpr :: expr where "TrueExpr = LiteralExpr (NewLiteral (VBool True))"
definition FalseExpr :: expr where "FalseExpr = LiteralExpr (NewLiteral (VBool False))"

definition resolve_name :: "schema \<Rightarrow> string \<Rightarrow> string" where
  "resolve_name schemaInstance fieldName =
     (let fieldName = trim_suffix (trim_suffix fieldName ''.keyword'') ''.text''
      in case ResolveField schemaInstance fieldName of
           Some resolvedField \<Rightarrow> InternalPropertyName resolvedField
         | None \<Rightarrow> fieldName)"

text \<open>Values as ClickHouse reads them; of an object the entry \<open>value\<close> is taken.\<close>

fun sprint :: "json \<Rightarrow> string" where
  "sprint (JString s) = SingleQuote s"
| "sprint (JObject m) = (case map_of m ''value'' of Some v \<Rightarrow> sprint v | None \<Rightarrow> ''<nil>'')"
| "sprint v = print_json v"

definition extractFields :: "schema \<Rightarrow> json list \<Rightarrow> string list" where
  "extractFields sch flds =
     (let names = List.map_filter as_JString flds
      in if ''*'' \<in> set names then [FullTextFieldNamePlaceHolder] else map (resolve_name sch) names)"

section \<open>Document identifiers\<close>

definition is_time :: "string \<Rightarrow> bool" where
  "is_time t \<longleftrightarrow>
     length t \<ge> 8 \<and>
     (let s = drop (length t - 8) t
      in list_all (\<lambda>i. digit (s ! i)) [0, 1, 3, 4, 6, 7] \<and> s ! 2 = CHR '':'' \<and> s ! 5 = CHR '':'')"

text \<open>\<open>util.FindTimestampPrecision\<close>: the text before the last dot, and the digits after it.\<close>

definition FindTimestampPrecision :: "string \<Rightarrow> nat option" where
  "FindTimestampPrecision timestamp =
     (if CHR ''.'' \<notin> set timestamp then (if is_time timestamp then Some 0 else None)
      else (let fraction = rev (takeWhile (\<lambda>c. c \<noteq> CHR ''.'') (rev timestamp));
                time = take (length timestamp - length fraction - 1) timestamp
            in if is_time time \<and> list_all digit fraction then Some (length fraction) else None))"

text \<open>An identifier is the hexadecimal text of a time, followed by \<open>q\<close> and more.\<close>

definition id_timestamp :: "string \<Rightarrow> string option" where
  "id_timestamp docId =
     map_option (\<lambda>t. trim_suffix t '' +0000 UTC'') (hex_decode (takeWhile (\<lambda>c. c \<noteq> CHR ''q'') docId))"

definition id_to_sql :: "string \<Rightarrow> string \<Rightarrow> expr option" where
  "id_to_sql typeName ts =
     (if typeName = ''DateTime64'' then
        map_option (\<lambda>precision. FunctionExpr ''toDateTime64''
            [literal (SingleQuote ts), LiteralExpr (NewLiteral (VInt KInt (int precision)))])
          (FindTimestampPrecision ts)
      else Some (FunctionExpr ''toDateTime'' [literal (SingleQuote ts)]))"

definition ids_condition :: "expr list \<Rightarrow> expr" where
  "ids_condition sqls =
     (case sqls of
        [] \<Rightarrow> FalseExpr
      | [sql] \<Rightarrow> InfixExpr (column_named TimestampFieldName) '' = '' sql
      | _ \<Rightarrow> InfixExpr (column_named TimestampFieldName) '' IN '' (TupleExpr sqls))"

definition parseIds :: "translator \<Rightarrow> json_map \<Rightarrow> simple_query" where
  "parseIds tr queryMap =
     (case map_of queryMap ''values'' of
        Some (JArray idsRaw) \<Rightarrow>
          (case opt_mapM as_JString idsRaw of
             None \<Rightarrow> NewSimpleQueryInvalid
           | Some ids \<Rightarrow>
               (case opt_mapM id_timestamp ids of
                  None \<Rightarrow> NewSimpleQueryInvalid
                | Some timestamps \<Rightarrow>
                    (case map_of (Cols (tr_Table tr)) TimestampFieldName of
                       None \<Rightarrow> NewSimpleQueryInvalid
                     | Some column \<Rightarrow>
                         (let typeName = type_String (col_Type column)
                          in if typeName \<noteq> ''DateTime64'' \<and> typeName \<noteq> ''DateTime'' then NewSimpleQueryInvalid
                             else (case opt_mapM (id_to_sql typeName) timestamps of
                                     None \<Rightarrow> NewSimpleQueryInvalid
                                   | Some sqls \<Rightarrow> NewSimpleQuery (ids_condition sqls) True)))))
      | _ \<Rightarrow> NewSimpleQueryInvalid)"

section \<open>Term queries\<close>

definition parseTerm_query :: "translator \<Rightarrow> json_map \<Rightarrow> simple_query" where
  "parseTerm_query tr queryMap =
     (case queryMap of
        [(k, v)] \<Rightarrow>
          if k = ''_index'' then NewSimpleQuery TrueExpr True
          else NewSimpleQuery (InfixExpr (column_named (resolve_name (tr_Schema tr) k)) ''='' (literal (sprint v))) True
      | _ \<Rightarrow> NewSimpleQueryInvalid)"

definition parseTerms :: "json_map \<Rightarrow> simple_query" where
  "parseTerms queryMap =
     (case queryMap of
        [(k, v)] \<Rightarrow>
          if has_prefix k ''_'' then NewSimpleQuery NilExpr True
          else (case v of
                  JArray xs \<Rightarrow>
                    (case xs of
                       [x] \<Rightarrow> NewSimpleQuery (InfixExpr (column_named k) ''='' (literal (sprint x))) True
                     | _ \<Rightarrow> NewSimpleQuery
                              (InfixExpr (column_named k) ''IN'' (TupleExpr (map (\<lambda>x. literal (sprint x)) xs))) True)
                | _ \<Rightarrow> NewSimpleQueryInvalid)
      | _ \<Rightarrow> NewSimpleQueryInvalid)"

definition match_statement :: "translator \<Rightarrow> string \<Rightarrow> string \<Rightarrow> expr" where
  "match_statement tr fieldName subQuery =
     (if fieldName = ''_id'' then sq_WhereClause (parseIds tr [(''values'', JArray [JString subQuery])])
      else InfixExpr (column_named fieldName) MatchOperator (literal (SingleQuote subQuery)))"

definition parseMatch :: "translator \<Rightarrow> bool \<Rightarrow> json_map \<Rightarrow> simple_query" where
  "parseMatch tr matchPhrase queryMap =
     (case queryMap of
        [(k, v)] \<Rightarrow>
          (let fieldName = resolve_name (tr_Schema tr) k;
               vUnNested = (case v of JObject m \<Rightarrow> (case map_of m ''query'' of Some x \<Rightarrow> x | None \<Rightarrow> JNull) | _ \<Rightarrow> v)
           in case vUnNested of
                JString s \<Rightarrow>
                  NewSimpleQuery (Or (map (match_statement tr fieldName)
                    (if matchPhrase then [s] else split_on (CHR '' '') s))) True
              | _ \<Rightarrow> NewSimpleQuery (InfixExpr (column_named fieldName) ''=='' (literal (sprint vUnNested))) True)
      | _ \<Rightarrow> NewSimpleQueryInvalid)"

definition multi_match_fields :: "translator \<Rightarrow> json_map \<Rightarrow> string list option" where
  "multi_match_fields tr queryMap =
     (case map_of queryMap ''fields'' of
        None \<Rightarrow> Some [FullTextFieldNamePlaceHolder]
      | Some v \<Rightarrow> map_option (extractFields (tr_Schema tr)) (as_JArray v))"

definition parseMultiMatch :: "translator \<Rightarrow> json_map \<Rightarrow> simple_query" where
  "parseMultiMatch tr queryMap =
     (case multi_match_fields tr queryMap of
        None \<Rightarrow> NewSimpleQueryInvalid
      | Some flds \<Rightarrow>
          if length flds = 0 then NewSimpleQuery FalseExpr True
          else (case map_of queryMap ''query'' of
                  Some (JString s) \<Rightarrow>
                    (let subQueries =
                       (if map_of queryMap ''type'' = Some (JString ''phrase'') then [s] else split_on (CHR '' '') s)
                     in NewSimpleQuery (Or (concat (map (\<lambda>field.
                          map (\<lambda>subQ. InfixExpr (column_named field) ''iLIKE'' (literal (SingleQuote (''%'' @ subQ @ ''%''))))
                            subQueries) flds))) True)
                | _ \<Rightarrow> NewSimpleQueryInvalid))"

text \<open>A map without a string under \<open>value\<close> panics.\<close>

definition prefix_query :: "string \<Rightarrow> string \<Rightarrow> simple_query" where
  "prefix_query fieldName token =
     NewSimpleQuery (InfixExpr (column_named fieldName) ''iLIKE''
       (LiteralExpr (NewLiteralWithEscapeType (VString token) NotEscapedLikePrefix))) True"

definition parsePrefix :: "translator \<Rightarrow> json_map \<Rightarrow> simple_query option" where
  "parsePrefix tr queryMap =
     (case queryMap of
        [(k, v)] \<Rightarrow>
          (let fieldName = resolve_name (tr_Schema tr) k
           in case v of
                JString s \<Rightarrow> Some (prefix_query fieldName s)
              | JObject m \<Rightarrow>
                  (case map_of m ''value'' of
                     Some (JString token) \<Rightarrow> Some (prefix_query fieldName token)
                   | _ \<Rightarrow> None)
              | _ \<Rightarrow> Some NewSimpleQueryInvalid)
      | _ \<Rightarrow> Some NewSimpleQueryInvalid)"

definition parseWildcard :: "translator \<Rightarrow> json_map \<Rightarrow> simple_query" where
  "parseWildcard tr queryMap =
     (case queryMap of
        [(k, JObject m)] \<Rightarrow>
          (case map_of m ''value'' of
             Some (JString s) \<Rightarrow>
               NewSimpleQuery (InfixExpr (column_named (resolve_name (tr_Schema tr) k)) ''iLIKE''
                 (literal (SingleQuote (replace_char (CHR ''*'') ''%'' s)))) True
           | _ \<Rightarrow> NewSimpleQueryInvalid)
      | _ \<Rightarrow> NewSimpleQueryInvalid)"

text \<open>Both type assertions may panic, and so may the Lucene translation.\<close>

definition parseQueryString :: "translator \<Rightarrow> json_map \<Rightarrow> simple_query option" where
  "parseQueryString tr queryMap =
     do { flds \<leftarrow> multi_match_fields tr queryMap;
          query \<leftarrow> Option.bind (map_of queryMap ''query'') as_JString;
          whereStmt \<leftarrow> TranslateToSQL query flds (tr_Schema tr);
          Some (NewSimpleQuery whereStmt True) }"

section \<open>Ranges\<close>

definition is_quoted :: "string \<Rightarrow> bool" where
  "is_quoted v \<longleftrightarrow> length v > 2 \<and> hd v = CHR 0x27 \<and> last v = CHR 0x27"

definition range_operator :: "string \<Rightarrow> string option" where
  "range_operator op =
     (if op = ''gte'' then Some ''>='' else if op = ''lte'' then Some ''<=''
      else if op = ''gt'' then Some ''>'' else if op = ''lt'' then Some ''<'' else None)"

text \<open>
  The three stages: an absolute date, date math, and the text between the quotes.  Digits are
  those of ASCII.
\<close>

definition date_bound :: "translator \<Rightarrow> date_time_type \<Rightarrow> string \<Rightarrow> string \<Rightarrow> expr" where
  "date_bound tr dateType op val =
     (case ParseDateUsualFormat (JString val) dateType of
        Some e \<Rightarrow> e
      | None \<Rightarrow>
          (case (if range_operator op \<noteq> None then parseDateMathExpression (tr_Clock tr) (DateMathRenderer tr) val
                 else Inl NowExpected) of
             Inr parsed \<Rightarrow> literal parsed
           | Inl _ \<Rightarrow>
               (case (if is_quoted val then ParseDateUsualFormat (JString (butlast (tl val))) dateType else None) of
                  Some e \<Rightarrow> e
                | None \<Rightarrow> literal val)))"

definition number_bound :: "string \<Rightarrow> expr" where
  "number_bound val =
     (if is_quoted val \<and> list_all (\<lambda>c. digit c \<or> c = CHR ''.'') (butlast (tl val))
      then literal (butlast (tl val)) else literal val)"

definition range_bound :: "translator \<Rightarrow> date_time_type \<Rightarrow> string \<Rightarrow> json \<Rightarrow> expr" where
  "range_bound tr dateType op valueRaw =
     (case dateType of
        InvalidDateTime \<Rightarrow> number_bound (sprint valueRaw)
      | _ \<Rightarrow> date_bound tr dateType op (sprint valueRaw))"

definition range_statement :: "translator \<Rightarrow> string \<Rightarrow> date_time_type \<Rightarrow> string \<times> json \<Rightarrow> expr option" where
  "range_statement tr fieldName dateType p =
     map_option (\<lambda>o'. InfixExpr (column_named fieldName) o' (range_bound tr dateType (fst p) (snd p)))
       (range_operator (fst p))"

definition parseRange_query :: "translator \<Rightarrow> json_map \<Rightarrow> simple_query" where
  "parseRange_query tr queryMap =
     (case queryMap of
        [(k, JObject m)] \<Rightarrow>
          (let fieldName = resolve_name (tr_Schema tr) k;
               dateType = GetDateTimeType (tr_Table tr) (resolve_name (tr_Schema tr) fieldName)
           in NewSimpleQuery (And (List.map_filter (range_statement tr fieldName dateType) (sort_key fst m))) True)
      | _ \<Rightarrow> NewSimpleQueryInvalid)"

section \<open>Other queries\<close>

fun exists_loop :: "expr \<Rightarrow> json_map \<Rightarrow> simple_query" where
  "exists_loop sql [] = NewSimpleQuery sql True"
| "exists_loop sql ((k, v) # m) =
     (case v of
        JString fieldName \<Rightarrow> exists_loop (InfixExpr (column_named fieldName) ''IS'' (literal ''NOT NULL'')) m
      | _ \<Rightarrow> NewSimpleQueryInvalid)"

definition parseExists :: "json_map \<Rightarrow> simple_query" where
  "parseExists queryMap = exists_loop NilExpr queryMap"

text \<open>\<open>regex.ToClickhouseExpr\<close>; the empty pattern panics.\<close>

fun stars_follow_dots :: "string \<Rightarrow> bool" where
  "stars_follow_dots (a # b # s) \<longleftrightarrow> (b = CHR ''*'' \<longrightarrow> a = CHR ''.'') \<and> stars_follow_dots (b # s)"
| "stars_follow_dots s \<longleftrightarrow> True"

definition isPatternReallySimple :: "string \<Rightarrow> bool option" where
  "isPatternReallySimple pattern =
     (if contains_any pattern (''?+|{}[]()'' @ [CHR 0x22, CHR 0x5C]) then Some False
      else (case pattern of
              [] \<Rightarrow> None
            | c # s \<Rightarrow> Some (c \<noteq> CHR ''*'' \<and> stars_follow_dots pattern)))"

definition like_of_regex :: "string \<Rightarrow> string" where
  "like_of_regex pattern =
     replace_char (CHR ''.'') ''_''
       (replace_pair (CHR ''.'') (CHR ''*'') ''%'' (replace_char (CHR ''_'') [CHR 0x5C, CHR ''_''] pattern))"

definition ToClickhouseExpr :: "string \<Rightarrow> (string \<times> expr) option" where
  "ToClickhouseExpr pattern =
     map_option (\<lambda>simple.
        if simple then (''LIKE'', literal (SingleQuote (like_of_regex pattern)))
        else (''REGEXP'', literal (SingleQuote pattern))) (isPatternReallySimple pattern)"

definition parseRegexp :: "json_map \<Rightarrow> simple_query option" where
  "parseRegexp queryMap =
     (case queryMap of
        [(fieldName, JObject params)] \<Rightarrow>
          (case map_of params ''value'' of
             Some (JString pattern) \<Rightarrow>
               map_option (\<lambda>(funcName, patternExpr).
                   NewSimpleQuery (InfixExpr (column_named fieldName) funcName patternExpr) True)
                 (ToClickhouseExpr pattern)
           | _ \<Rightarrow> Some NewSimpleQueryInvalid)
      | _ \<Rightarrow> Some NewSimpleQueryInvalid)"

text \<open>
  The corners of the box are looked at, and the first two elements of each are read, but no
  condition is made of them.
\<close>

definition corner_ok :: "json \<Rightarrow> bool" where
  "corner_ok corner = (case corner of JArray xs \<Rightarrow> length xs \<ge> 2 | _ \<Rightarrow> True)"

fun parseGeoBoundingBox :: "json_map \<Rightarrow> simple_query option" where
  "parseGeoBoundingBox [] = Some (NewSimpleQuery (And []) True)"
| "parseGeoBoundingBox ((k, v) # m) =
     (case v of
        JObject box \<Rightarrow>
          (case map_of box ''bottom_right'' of
             None \<Rightarrow> Some NewSimpleQueryInvalid
           | Some bottomRight \<Rightarrow>
               if \<not> corner_ok bottomRight then None
               else (case map_of box ''top_left'' of
                       None \<Rightarrow> Some NewSimpleQueryInvalid
                     | Some topLeft \<Rightarrow> if \<not> corner_ok topLeft then None else parseGeoBoundingBox m))
      | _ \<Rightarrow> None)"

section \<open>Compound queries\<close>

text \<open>The parsers that do not call back, by the key of the query.\<close>

definition leaf_keys :: "string list" where
  "leaf_keys =
     [''match_all'', ''match'', ''multi_match'', ''term'', ''terms'', ''prefix'', ''match_phrase'', ''range'', ''exists'',
      ''ids'', ''wildcard'', ''query_string'', ''simple_query_string'', ''regexp'', ''geo_bounding_box'']"

definition query_keys :: "string list" where
  "query_keys = [''bool'', ''query'', ''nested'', ''constant_score''] @ leaf_keys"

definition parse_leaf :: "translator \<Rightarrow> string \<Rightarrow> json_map \<Rightarrow> simple_query option" where
  "parse_leaf tr k m =
     (if k = ''match_all'' then Some (NewSimpleQuery NilExpr True)
      else if k = ''match'' then Some (parseMatch tr False m)
      else if k = ''multi_match'' then Some (parseMultiMatch tr m)
      else if k = ''term'' then Some (parseTerm_query tr m)
      else if k = ''terms'' then Some (parseTerms m)
      else if k = ''prefix'' then parsePrefix tr m
      else if k = ''match_phrase'' then Some (parseMatch tr True m)
      else if k = ''range'' then Some (parseRange_query tr m)
      else if k = ''exists'' then Some (parseExists m)
      else if k = ''ids'' then Some (parseIds tr m)
      else if k = ''wildcard'' then Some (parseWildcard tr m)
      else if k = ''query_string'' \<or> k = ''simple_query_string'' then parseQueryString tr m
      else if k = ''regexp'' then parseRegexp m
      else parseGeoBoundingBox m)"

text \<open>Keys beside the query are taken for metadata and deleted, unless there is only one key.\<close>

definition metadata_free :: "json_map \<Rightarrow> json_map" where
  "metadata_free q =
     filter (\<lambda>(k, v). k \<in> set [''query'', ''bool'', ''query_string'', ''index_filter'', ''search_after'']) q"

definition kept_query :: "json_map \<Rightarrow> json_map" where
  "kept_query q = (if length q \<noteq> 1 then metadata_free q else q)"

text \<open>The first entry with a known key and a map under it.\<close>

fun first_query :: "json_map \<Rightarrow> (string \<times> json_map) option" where
  "first_query [] = None"
| "first_query ((k, v) # q) =
     (case v of JObject m \<Rightarrow> if k \<in> set query_keys then Some (k, m) else first_query q | _ \<Rightarrow> first_query q)"

lemma first_query_member: "first_query q = Some (k, m) \<Longrightarrow> (k, JObject m) \<in> set q \<and> k \<in> set query_keys"
  by (induction q) (auto split: json.splits if_splits)

lemma kept_query_subset: "set (kept_query q) \<subseteq> set q"
  by (auto simp: kept_query_def metadata_free_def)

lemma first_query_size: "first_query (kept_query q) = Some (k, m) \<Longrightarrow> size (JObject m) < size (JObject q)"
proof -
  assume "first_query (kept_query q) = Some (k, m)"
  from first_query_member [OF this] have "(k, JObject m) \<in> set q"
    by (meson kept_query_subset subsetD)
  from size_json_entry [OF this] show ?thesis
    by (simp add: size_prod_simp)
qed

text \<open>\<open>minimum_should_match\<close>: any number above one counts as one, and without other clauses it is one.\<close>

definition minimum_should_match :: "json_map \<Rightarrow> bool \<Rightarrow> int" where
  "minimum_should_match queryMap noClauses =
     (let given = (case map_of queryMap ''minimum_should_match'' of Some (JNumber f) \<Rightarrow> int64_of_float f | _ \<Rightarrow> 0)
      in if noClauses then 1 else min given 1)"

text \<open>Conditions and whether all could be parsed, of a clause that is absent or present.\<close>

definition optional_clause :: "json_map \<Rightarrow> string \<Rightarrow> (json \<Rightarrow> (expr list \<times> bool) option) \<Rightarrow> (expr list \<times> bool) option" where
  "optional_clause queryMap key parse =
     (case map_of queryMap key of None \<Rightarrow> Some ([], True) | Some v \<Rightarrow> parse v)"

definition bool_condition :: "json_map \<Rightarrow> expr list \<Rightarrow> expr list \<Rightarrow> expr list \<Rightarrow> expr" where
  "bool_condition queryMap andStmts orSqls sqlNots =
     (let sql = And andStmts;
          orSql = Or orSqls;
          sql = (if map_of queryMap ''should'' \<noteq> None \<and> minimum_should_match queryMap (andStmts = []) = 1
                 then (if andStmts = [] then orSql else if orSql \<noteq> NilExpr then And [sql, orSql] else sql)
                 else sql)
      in if sqlNots \<noteq> [] then And [sql, PrefixExpr ''NOT'' [Or sqlNots]] else sql)"

lemma optional_clause_cong [fundef_cong]:
  "q = q' \<Longrightarrow> k = k' \<Longrightarrow> (\<And>v. map_of q' k' = Some v \<Longrightarrow> f v = g v) \<Longrightarrow> optional_clause q k f = optional_clause q' k' g"
  by (cases "map_of q' k'") (simp_all add: optional_clause_def)

function parseQueryMap :: "translator \<Rightarrow> json_map \<Rightarrow> simple_query option"
  and parseBool :: "translator \<Rightarrow> json_map \<Rightarrow> simple_query option"
  and iterateListOrDictAndParse :: "translator \<Rightarrow> json \<Rightarrow> (expr list \<times> bool) option"
  and parseQueryMapArray :: "translator \<Rightarrow> json list \<Rightarrow> (expr list \<times> bool) option" where
  "parseQueryMap tr queryMap =
     (case first_query (kept_query queryMap) of
        Some (k, m) \<Rightarrow>
          if k = ''bool'' then parseBool tr m
          else if k = ''query'' then parseQueryMap tr m
          else if k = ''nested'' then
            (case map_of m ''query'' of
               Some v \<Rightarrow> (case v of JObject q \<Rightarrow> parseQueryMap tr q | _ \<Rightarrow> Some NewSimpleQueryInvalid)
             | None \<Rightarrow> Some NewSimpleQueryInvalid)
          else if k = ''constant_score'' then
            (if map_of m ''filter'' \<noteq> None then parseBool tr m else Some NewSimpleQueryInvalid)
          else parse_leaf tr k m
      | None \<Rightarrow>
          if kept_query queryMap = [] then Some (NewSimpleQuery NilExpr True) else Some NewSimpleQueryInvalid)"
| "parseBool tr queryMap =
     do { (must, c1) \<leftarrow> optional_clause queryMap ''must'' (iterateListOrDictAndParse tr);
          (filters, c2) \<leftarrow> optional_clause queryMap ''filter'' (iterateListOrDictAndParse tr);
          (orSqls, c3) \<leftarrow>
            (if minimum_should_match queryMap (must @ filters = []) = 1
             then optional_clause queryMap ''should'' (iterateListOrDictAndParse tr) else Some ([], True));
          (sqlNots, c4) \<leftarrow> optional_clause queryMap ''must_not'' (iterateListOrDictAndParse tr);
          Some (NewSimpleQuery (bool_condition queryMap (must @ filters) orSqls sqlNots) (c1 \<and> c2 \<and> c3 \<and> c4)) }"
| "iterateListOrDictAndParse tr queryMaps =
     (case queryMaps of
        JArray xs \<Rightarrow> parseQueryMapArray tr xs
      | JObject m \<Rightarrow>
          map_option (\<lambda>sq. (if sq_WhereClause sq \<noteq> NilExpr then [sq_WhereClause sq] else [], CanParse sq))
            (parseQueryMap tr m)
      | _ \<Rightarrow> Some ([], False))"
| "parseQueryMapArray tr queryMaps =
     do { results \<leftarrow> opt_mapM (\<lambda>v. case v of
              JObject m \<Rightarrow> map_option (\<lambda>sq. (sq_WhereClause sq, CanParse sq)) (parseQueryMap tr m)
            | _ \<Rightarrow> Some (NilExpr, False)) queryMaps;
          Some (map fst results, list_all snd results) }"
  by pat_completeness auto
termination
proof (relation "measure (\<lambda>x. case x of
      Inl (Inl (tr, q)) \<Rightarrow> 2 * size (JObject q) | Inl (Inr (tr, q)) \<Rightarrow> 2 * size (JObject q)
    | Inr (Inl (tr, v)) \<Rightarrow> 2 * size v + 1 | Inr (Inr (tr, xs)) \<Rightarrow> 2 * size (JArray xs))", goal_cases)
qed (auto dest!: first_query_size size_json_lookup simp: termination_simp)

declare parseQueryMap.simps [simp del] parseBool.simps [simp del] iterateListOrDictAndParse.simps [simp del]
  parseQueryMapArray.simps [simp del]

end
