(* ===== verification/Query_Semantics.thy ===== *)
theory Query_Semantics
  imports Query_Parser
begin

text \<open>
  What the queries parsed by \<open>query_parser.go\<close> mean: bool queries as conditions, patterns of regular
  expressions as patterns of LIKE, dates as instants, and the queries that are lost on the way.
\<close>

section \<open>Truth of conditions\<close>

text \<open>The truth of a condition with NOT; no condition is true.\<close>

fun sat :: "(expr \<Rightarrow> bool) \<Rightarrow> expr \<Rightarrow> bool" where
  "sat \<rho> NilExpr = True"
| "sat \<rho> (InfixExpr l op r) =
     (if op = ''AND'' then sat \<rho> l \<and> sat \<rho> r
      else if op = ''OR'' then sat \<rho> l \<or> sat \<rho> r
      else \<rho> (InfixExpr l op r))"
| "sat \<rho> (PrefixExpr op [e]) = (if op = ''NOT'' then \<not> sat \<rho> e else \<rho> (PrefixExpr op [e]))"
| "sat \<rho> e = \<rho> e"

lemma sat_foldl_And:
  "sat \<rho> (foldl (\<lambda>acc stmt. InfixExpr acc ''AND'' stmt) e es) \<longleftrightarrow> sat \<rho> e \<and> (\<forall>x \<in> set es. sat \<rho> x)"
  by (induction es arbitrary: e) auto

lemma sat_foldl_Or:
  "sat \<rho> (foldl (\<lambda>acc stmt. InfixExpr acc ''OR'' stmt) e es) \<longleftrightarrow> sat \<rho> e \<or> (\<exists>x \<in> set es. sat \<rho> x)"
  by (induction es arbitrary: e) auto

lemma sat_And: "sat \<rho> (And stmts) \<longleftrightarrow> (\<forall>s \<in> set stmts. sat \<rho> s)"
proof (cases "\<exists>s \<in> set stmts. s \<noteq> NilExpr")
  case True
  then obtain e es where f: "filter (\<lambda>s. s \<noteq> NilExpr) stmts = e # es"
    and m: "\<And>x. x = e \<or> x \<in> set es \<longleftrightarrow> x \<in> set stmts \<and> x \<noteq> NilExpr"
    by (rule nonempty_statements) (rule that)
  have "sat \<rho> (And stmts) \<longleftrightarrow> (\<forall>x. x = e \<or> x \<in> set es \<longrightarrow> sat \<rho> x)"
    by (auto simp: And_def combineStatements_cases f sat_foldl_And)
  then show ?thesis unfolding m by (metis sat.simps(1))
next
  case False
  then show ?thesis using And_Nil_iff [of stmts] by (metis sat.simps(1))
qed

lemma Or_Nil_iff: "Or stmts = NilExpr \<longleftrightarrow> (\<forall>s \<in> set stmts. s = NilExpr)"
proof (cases "\<exists>s \<in> set stmts. s \<noteq> NilExpr")
  case True
  then obtain e es where f: "filter (\<lambda>s. s \<noteq> NilExpr) stmts = e # es"
    and m: "\<And>x. x = e \<or> x \<in> set es \<longleftrightarrow> x \<in> set stmts \<and> x \<noteq> NilExpr"
    by (rule nonempty_statements) (rule that)
  have "e \<noteq> NilExpr" using m by blast
  then show ?thesis
    using True foldl_Infix_not_Nil [of e "''OR''" es] by (auto simp: Or_def combineStatements_cases f)
next
  case False
  then show ?thesis by (auto simp: Or_def combineStatements_cases filter_empty_conv split: list.split)
qed

lemma sat_Or:
  assumes "\<forall>s \<in> set stmts. s \<noteq> NilExpr" and "stmts \<noteq> []"
  shows "sat \<rho> (Or stmts) \<longleftrightarrow> (\<exists>s \<in> set stmts. sat \<rho> s)"
proof -
  have "\<exists>s \<in> set stmts. s \<noteq> NilExpr" using assms by (cases stmts) auto
  then obtain e es where f: "filter (\<lambda>s. s \<noteq> NilExpr) stmts = e # es"
    and m: "\<And>x. x = e \<or> x \<in> set es \<longleftrightarrow> x \<in> set stmts \<and> x \<noteq> NilExpr"
    by (rule nonempty_statements) (rule that)
  have "sat \<rho> (Or stmts) \<longleftrightarrow> (\<exists>x. (x = e \<or> x \<in> set es) \<and> sat \<rho> x)"
    by (auto simp: Or_def combineStatements_cases f sat_foldl_Or)
  then show ?thesis unfolding m using assms by blast
qed

section \<open>Queries of Elasticsearch\<close>

text \<open>
  What a query asks for, apart from its JSON.  A bool query asks for all of its \<open>must\<close> and \<open>filter\<close>
  clauses and none of \<open>must_not\<close>; one of its \<open>should\<close> clauses must hold when there are no required
  ones or the request says so.
\<close>

datatype es_query =
    EsAll
  | EsLeaf string json_map
  | EsBool (required: "es_query list") (should: "es_query list") (excluded: "es_query list") (some_should: bool)

fun es_holds :: "(string \<Rightarrow> json_map \<Rightarrow> bool) \<Rightarrow> es_query \<Rightarrow> bool" where
  "es_holds leaf EsAll = True"
| "es_holds leaf (EsLeaf k m) = leaf k m"
| "es_holds leaf (EsBool req sh exc least) =
     ((\<forall>q \<in> set req. es_holds leaf q)
      \<and> (sh \<noteq> [] \<and> (req = [] \<or> least) \<longrightarrow> (\<exists>q \<in> set sh. es_holds leaf q))
      \<and> (\<forall>q \<in> set exc. \<not> es_holds leaf q))"

text \<open>Whether a query restricts anything, that is, becomes a condition.\<close>

fun conditional :: "es_query \<Rightarrow> bool" where
  "conditional EsAll = False"
| "conditional (EsLeaf k m) = True"
| "conditional (EsBool req sh exc least) =
     ((\<exists>q \<in> set req. conditional q) \<or> (sh \<noteq> [] \<and> (req = [] \<or> least)) \<or> exc \<noteq> [])"

text \<open>
  The JSON of a query.  A clause is a list of queries, or one query as an object that becomes a
  condition.  A number of \<open>should\<close> clauses that must hold is 0 or 1.
\<close>

definition least_should :: "json_map \<Rightarrow> bool \<Rightarrow> bool" where
  "least_should m least \<longleftrightarrow>
     (case map_of m ''minimum_should_match'' of
        None \<Rightarrow> \<not> least
      | Some (JNumber f) \<Rightarrow> int64_of_float f = (if least then 1 else 0)
      | Some _ \<Rightarrow> False)"

inductive denotes :: "json_map \<Rightarrow> es_query \<Rightarrow> bool"
  and denotes_clause :: "json option \<Rightarrow> es_query list \<Rightarrow> bool" where
  match_all: "denotes [(''match_all'', JObject m)] EsAll"
| leaf: "k \<in> set leaf_keys \<Longrightarrow> k \<noteq> ''match_all'' \<Longrightarrow> denotes [(k, JObject m)] (EsLeaf k m)"
| nested: "map_of m ''query'' = Some (JObject q) \<Longrightarrow> denotes q Q \<Longrightarrow> denotes [(''nested'', JObject m)] Q"
| constant_score:
    "map_of m ''filter'' = Some v \<Longrightarrow> denotes_clause (Some v) Qs \<Longrightarrow>
     map_of m ''must'' = None \<Longrightarrow> map_of m ''should'' = None \<Longrightarrow> map_of m ''must_not'' = None \<Longrightarrow>
     denotes [(''constant_score'', JObject m)] (EsBool Qs [] [] False)"
| bool:
    "denotes_clause (map_of m ''must'') ms \<Longrightarrow> denotes_clause (map_of m ''filter'') fs \<Longrightarrow>
     denotes_clause (map_of m ''should'') sh \<Longrightarrow> denotes_clause (map_of m ''must_not'') exc \<Longrightarrow>
     least_should m least \<Longrightarrow> denotes [(''bool'', JObject m)] (EsBool (ms @ fs) sh exc least)"
| absent: "denotes_clause None []"
| single: "denotes q Q \<Longrightarrow> conditional Q \<Longrightarrow> denotes_clause (Some (JObject q)) [Q]"
| nothing: "denotes_clause (Some (JArray [])) []"
| several: "denotes q Q \<Longrightarrow> denotes_clause (Some (JArray xs)) Qs \<Longrightarrow>
     denotes_clause (Some (JArray (JObject q # xs))) (Q # Qs)"

text \<open>Queries whose \<open>should\<close> and \<open>must_not\<close> clauses all become conditions, and whose leaves do.\<close>

definition leaf_condition :: "translator \<Rightarrow> string \<Rightarrow> json_map \<Rightarrow> expr option" where
  "leaf_condition tr k m =
     (case parse_leaf tr k m of
        Some sq \<Rightarrow> if CanParse sq \<and> sq_WhereClause sq \<noteq> NilExpr then Some (sq_WhereClause sq) else None
      | None \<Rightarrow> None)"

fun regular :: "translator \<Rightarrow> es_query \<Rightarrow> bool" where
  "regular tr EsAll = True"
| "regular tr (EsLeaf k m) = (leaf_condition tr k m \<noteq> None)"
| "regular tr (EsBool req sh exc least) =
     ((\<forall>q \<in> set req. regular tr q) \<and> (\<forall>q \<in> set sh. regular tr q \<and> conditional q)
      \<and> (\<forall>q \<in> set exc. regular tr q \<and> conditional q))"

definition leaf_holds :: "translator \<Rightarrow> (expr \<Rightarrow> bool) \<Rightarrow> string \<Rightarrow> json_map \<Rightarrow> bool" where
  "leaf_holds tr \<rho> k m = (case leaf_condition tr k m of Some e \<Rightarrow> sat \<rho> e | None \<Rightarrow> False)"

text \<open>A parsed query means the query: it restricts what it restricts, and holds where it holds.\<close>

definition means :: "translator \<Rightarrow> expr \<Rightarrow> es_query \<Rightarrow> bool" where
  "means tr e Q \<longleftrightarrow>
     (e \<noteq> NilExpr \<longleftrightarrow> conditional Q) \<and> (\<forall>\<rho>. sat \<rho> e \<longleftrightarrow> es_holds (leaf_holds tr \<rho>) Q)"

lemma kept_single [simp]: "kept_query [p] = [p]"
  by (simp add: kept_query_def)

lemma first_single [simp]: "k \<in> set query_keys \<Longrightarrow> first_query [(k, JObject m)] = Some (k, m)"
  by simp

definition should_asked :: "json_map \<Rightarrow> bool \<Rightarrow> bool" where
  "should_asked m noClauses \<longleftrightarrow> map_of m ''should'' \<noteq> None \<and> minimum_should_match m noClauses = 1"

lemma bool_condition_truth:
  assumes "\<forall>e \<in> set orSqls. e \<noteq> NilExpr" and "\<forall>e \<in> set sqlNots. e \<noteq> NilExpr"
  shows "sat \<rho> (bool_condition m andStmts orSqls sqlNots) \<longleftrightarrow>
      (\<forall>e \<in> set andStmts. sat \<rho> e)
      \<and> (should_asked m (andStmts = []) \<and> orSqls \<noteq> [] \<longrightarrow> (\<exists>e \<in> set orSqls. sat \<rho> e))
      \<and> (\<forall>e \<in> set sqlNots. \<not> sat \<rho> e)" (is ?truth)
    and "bool_condition m andStmts orSqls sqlNots \<noteq> NilExpr \<longleftrightarrow>
      (\<exists>e \<in> set andStmts. e \<noteq> NilExpr) \<or> should_asked m (andStmts = []) \<and> orSqls \<noteq> [] \<or> sqlNots \<noteq> []" (is ?nil)
proof -
  let ?sql = "if should_asked m (andStmts = [])
      then (if andStmts = [] then Or orSqls else if Or orSqls \<noteq> NilExpr then And [And andStmts, Or orSqls] else And andStmts)
      else And andStmts"
  have b: "bool_condition m andStmts orSqls sqlNots =
      (if sqlNots \<noteq> [] then And [?sql, PrefixExpr ''NOT'' [Or sqlNots]] else ?sql)"
    by (simp add: bool_condition_def should_asked_def Let_def)
  have orNil: "Or orSqls = NilExpr \<longleftrightarrow> orSqls = []"
    using assms(1) by (cases orSqls) (auto simp: Or_Nil_iff)
  have orSat: "sat \<rho> (Or orSqls) \<longleftrightarrow> (orSqls \<noteq> [] \<longrightarrow> (\<exists>e \<in> set orSqls. sat \<rho> e))"
    using sat_Or [OF assms(1)] orNil by (cases "orSqls = []") auto
  have sql: "sat \<rho> ?sql \<longleftrightarrow> (\<forall>e \<in> set andStmts. sat \<rho> e)
      \<and> (should_asked m (andStmts = []) \<and> orSqls \<noteq> [] \<longrightarrow> (\<exists>e \<in> set orSqls. sat \<rho> e))"
    using orSat orNil by (auto simp: sat_And)
  have sqlNil: "?sql \<noteq> NilExpr \<longleftrightarrow> (\<exists>e \<in> set andStmts. e \<noteq> NilExpr) \<or> should_asked m (andStmts = []) \<and> orSqls \<noteq> []"
    using orNil by (auto simp: And_Nil_iff)
  show ?truth
    using sql sat_Or [OF assms(2)] unfolding b by (cases "sqlNots = []") (simp_all add: sat_And)
  show ?nil
    using sqlNil unfolding b by (cases "sqlNots = []") (simp_all add: And_Nil_iff)
qed

lemma means_all2:
  assumes "list_all2 (means tr) es Qs"
  shows "(\<forall>e \<in> set es. sat \<rho> e) \<longleftrightarrow> (\<forall>Q \<in> set Qs. es_holds (leaf_holds tr \<rho>) Q)"
    and "(\<exists>e \<in> set es. sat \<rho> e) \<longleftrightarrow> (\<exists>Q \<in> set Qs. es_holds (leaf_holds tr \<rho>) Q)"
    and "(\<exists>e \<in> set es. e \<noteq> NilExpr) \<longleftrightarrow> (\<exists>Q \<in> set Qs. conditional Q)"
    and "(\<forall>e \<in> set es. e \<noteq> NilExpr) \<longleftrightarrow> (\<forall>Q \<in> set Qs. conditional Q)"
    and "es = [] \<longleftrightarrow> Qs = []"
  using assms by (induction es Qs rule: list_all2_induct) (auto simp: means_def)

lemma bool_condition_means:
  assumes req: "list_all2 (means tr) andStmts req" and sh: "list_all2 (means tr) orSqls sh"
    and exc: "list_all2 (means tr) sqlNots exc"
    and cond: "\<forall>q \<in> set sh. conditional q" "\<forall>q \<in> set exc. conditional q"
    and asked: "sh \<noteq> [] \<Longrightarrow> should_asked m (andStmts = []) \<longleftrightarrow> req = [] \<or> least"
  shows "means tr (bool_condition m andStmts orSqls sqlNots) (EsBool req sh exc least)"
proof -
  have nn: "\<forall>e \<in> set orSqls. e \<noteq> NilExpr" "\<forall>e \<in> set sqlNots. e \<noteq> NilExpr"
    using means_all2(4) [OF sh] means_all2(4) [OF exc] cond by blast+
  show ?thesis
    unfolding means_def bool_condition_truth [OF nn] means_all2(1) [OF req] means_all2(2) [OF sh] means_all2(3) [OF req]
      means_all2(5) [OF sh] means_all2(5) [OF exc]
    using means_all2(2) [OF exc] asked by auto
qed

lemma minimum_least: "least_should m least \<Longrightarrow> minimum_should_match m noClauses = 1 \<longleftrightarrow> noClauses \<or> least"
  by (auto simp: least_should_def minimum_should_match_def Let_def split: option.splits json.splits if_splits)

text \<open>What a clause is parsed to.\<close>

definition clause_of :: "translator \<Rightarrow> json option \<Rightarrow> (expr list \<times> bool) option" where
  "clause_of tr v = (case v of None \<Rightarrow> Some ([], True) | Some j \<Rightarrow> iterateListOrDictAndParse tr j)"

lemma optional_clause_of: "optional_clause m k (iterateListOrDictAndParse tr) = clause_of tr (map_of m k)"
  by (simp add: optional_clause_def clause_of_def)

lemma parseQueryMap_single:
  "k \<in> set query_keys \<Longrightarrow> parseQueryMap tr [(k, JObject m)] =
     (if k = ''bool'' then parseBool tr m
      else if k = ''query'' then parseQueryMap tr m
      else if k = ''nested'' then
        (case map_of m ''query'' of
           Some v \<Rightarrow> (case v of JObject q \<Rightarrow> parseQueryMap tr q | _ \<Rightarrow> Some NewSimpleQueryInvalid)
         | None \<Rightarrow> Some NewSimpleQueryInvalid)
      else if k = ''constant_score'' then
        (if map_of m ''filter'' \<noteq> None then parseBool tr m else Some NewSimpleQueryInvalid)
      else parse_leaf tr k m)"
  by (simp only: parseQueryMap.simps [of tr "[(k, JObject m)]"] kept_single first_single option.case prod.case)

lemma parse_array_Cons:
  "parseQueryMapArray tr (JObject q # xs) =
     do { sq \<leftarrow> parseQueryMap tr q; (es, ok) \<leftarrow> parseQueryMapArray tr xs;
          Some (sq_WhereClause sq # es, CanParse sq \<and> ok) }"
  by (cases "parseQueryMap tr q") (simp_all add: parseQueryMapArray.simps split: Option.bind_split)

lemma leaf_keys_known: "k \<in> set leaf_keys \<Longrightarrow> k \<in> set query_keys"
  by (simp add: query_keys_def)

lemma compound_keys: "k \<in> set leaf_keys \<Longrightarrow> k \<notin> set [''bool'', ''query'', ''nested'', ''constant_score'']"
  by (auto simp: leaf_keys_def)

lemma iterate_simps [simp]:
  "iterateListOrDictAndParse tr (JObject m) =
     map_option (\<lambda>sq. (if sq_WhereClause sq \<noteq> NilExpr then [sq_WhereClause sq] else [], CanParse sq)) (parseQueryMap tr m)"
  "iterateListOrDictAndParse tr (JArray xs) = parseQueryMapArray tr xs"
  by (simp_all only: iterateListOrDictAndParse.simps json.case)

text \<open>A bool query after its clauses.\<close>

lemma parseBool_clauses:
  assumes "clause_of tr (map_of m ''must'') = Some (ms, True)" "list_all2 (means tr) ms mQ"
    and "clause_of tr (map_of m ''filter'') = Some (fs, True)" "list_all2 (means tr) fs fQ"
    and "clause_of tr (map_of m ''should'') = Some (os, True)" "list_all2 (means tr) os sQ"
    and "clause_of tr (map_of m ''must_not'') = Some (ns, True)" "list_all2 (means tr) ns nQ"
    and "\<forall>q \<in> set sQ. conditional q" "\<forall>q \<in> set nQ. conditional q" and "sQ \<noteq> [] \<Longrightarrow> least_should m least"
    and "map_of m ''should'' = None \<Longrightarrow> sQ = []"
  shows "\<exists>sq. parseBool tr m = Some sq \<and> CanParse sq \<and> means tr (sq_WhereClause sq) (EsBool (mQ @ fQ) sQ nQ least)"
proof -
  let ?asked = "minimum_should_match m (ms @ fs = []) = 1"
  let ?os = "if ?asked then os else []"
  have req: "list_all2 (means tr) (ms @ fs) (mQ @ fQ)"
    using assms(2,4) by (rule list_all2_appendI)
  have parsed: "parseBool tr m = Some (NewSimpleQuery (bool_condition m (ms @ fs) ?os ns) True)"
    using assms(1,3,5,7) by (simp add: parseBool.simps optional_clause_of)
  have same: "bool_condition m (ms @ fs) ?os ns = bool_condition m (ms @ fs) os ns"
    by (auto simp: bool_condition_def Let_def)
  have "means tr (bool_condition m (ms @ fs) os ns) (EsBool (mQ @ fQ) sQ nQ least)"
    using means_all2(5) [OF req] assms(12) minimum_least [OF assms(11)]
    by (intro bool_condition_means [OF req assms(6,8-10)]) (auto simp: should_asked_def)
  then show ?thesis
    unfolding parsed same by (simp add: NewSimpleQuery_def)
qed

lemma denotes_parsed:
  "denotes q Q \<Longrightarrow> regular tr Q \<Longrightarrow>
     \<exists>sq. parseQueryMap tr q = Some sq \<and> CanParse sq \<and> means tr (sq_WhereClause sq) Q"
  "denotes_clause v Qs \<Longrightarrow> (\<forall>Q \<in> set Qs. regular tr Q) \<Longrightarrow>
     \<exists>es. clause_of tr v = Some (es, True) \<and> list_all2 (means tr) es Qs"
proof (induction rule: denotes_denotes_clause.inducts)
  case (match_all m)
  then show ?case
    by (simp add: parseQueryMap_single query_keys_def leaf_keys_def parse_leaf_def NewSimpleQuery_def means_def)
next
  case (leaf k m)
  then obtain sq where "parse_leaf tr k m = Some sq" "CanParse sq" "sq_WhereClause sq \<noteq> NilExpr"
    by (auto simp: leaf_condition_def split: option.splits if_splits)
  then show ?case
    using leaf compound_keys [OF leaf(1)]
    by (auto simp: parseQueryMap_single leaf_keys_known means_def leaf_holds_def leaf_condition_def)
next
  case (nested m q Q)
  then show ?case
    by (simp add: parseQueryMap_single query_keys_def)
next
  case (constant_score m v Qs)
  then obtain es where es: "clause_of tr (map_of m ''filter'') = Some (es, True)" "list_all2 (means tr) es Qs"
    by auto
  have none: "clause_of tr None = Some ([], True)" by (simp add: clause_of_def)
  have nil: "list_all2 (means tr) [] []" by simp
  have "\<exists>sq. parseBool tr m = Some sq \<and> CanParse sq \<and> means tr (sq_WhereClause sq) (EsBool ([] @ Qs) [] [] False)"
    using parseBool_clauses [of tr m "[]" "[]" es Qs "[]" "[]" "[]" "[]" False] none nil es constant_score(3-5) by simp
  then show ?case
    using constant_score(1) by (simp add: parseQueryMap_single query_keys_def)
next
  case (bool m ms fs sh exc least)
  then have reg: "\<forall>Q \<in> set ms. regular tr Q" "\<forall>Q \<in> set fs. regular tr Q" "\<forall>Q \<in> set sh. regular tr Q"
      "\<forall>Q \<in> set exc. regular tr Q" "\<forall>q \<in> set sh. conditional q" "\<forall>q \<in> set exc. conditional q"
    by auto
  obtain es1 es2 es3 es4 where c:
    "clause_of tr (map_of m ''must'') = Some (es1, True)" "list_all2 (means tr) es1 ms"
    "clause_of tr (map_of m ''filter'') = Some (es2, True)" "list_all2 (means tr) es2 fs"
    "clause_of tr (map_of m ''should'') = Some (es3, True)" "list_all2 (means tr) es3 sh"
    "clause_of tr (map_of m ''must_not'') = Some (es4, True)" "list_all2 (means tr) es4 exc"
    using bool.IH(1) [OF reg(1)] bool.IH(2) [OF reg(2)] bool.IH(3) [OF reg(3)] bool.IH(4) [OF reg(4)] by blast
  have none: "sh = []" if "map_of m ''should'' = None"
    using bool.hyps(3) unfolding that by (auto elim: denotes_clause.cases)
  have "\<exists>sq. parseBool tr m = Some sq \<and> CanParse sq \<and> means tr (sq_WhereClause sq) (EsBool (ms @ fs) sh exc least)"
    by (rule parseBool_clauses [OF c reg(5,6)]) (simp add: bool.hyps(5), simp add: none)
  then show ?case
    by (simp add: parseQueryMap_single query_keys_def)
next
  case absent
  then show ?case by (simp add: clause_of_def)
next
  case (single q Q)
  then obtain sq where sq: "parseQueryMap tr q = Some sq" "CanParse sq" "means tr (sq_WhereClause sq) Q"
    by auto
  with \<open>conditional Q\<close> have "sq_WhereClause sq \<noteq> NilExpr"
    by (simp add: means_def)
  with sq show ?case
    by (intro exI [of _ "[sq_WhereClause sq]"]) (simp add: clause_of_def)
next
  case nothing
  then show ?case by (simp add: clause_of_def parseQueryMapArray.simps)
next
  case (several q Q xs Qs)
  then show ?case
    by (auto simp: clause_of_def parse_array_Cons)
qed

text \<open>
  C1: The translation of a query of Elasticsearch means the query.  If \<open>q\<close> is the JSON of the query
  \<open>Q\<close>, built from bool queries, nested and constant-score queries and leaves, it is parsed without
  error or panic to a condition that holds in exactly the rows in which \<open>Q\<close> holds: all required
  clauses, one of the \<open>should\<close> clauses where one is asked for, and none of the excluded ones.  Leaves
  mean what their own translations mean; every \<open>should\<close> and \<open>must_not\<close> clause must be one that
  restricts something.
\<close>

theorem translation_means_query:
  assumes "denotes q Q" and "regular tr Q"
  shows "\<exists>sq. parseQueryMap tr q = Some sq \<and> CanParse sq
    \<and> (sq_WhereClause sq = NilExpr \<longleftrightarrow> \<not> conditional Q)
    \<and> (\<forall>\<rho>. sat \<rho> (sq_WhereClause sq) \<longleftrightarrow> es_holds (leaf_holds tr \<rho>) Q)"
  using denotes_parsed(1) [OF assms] unfolding means_def by blast

text \<open>A table with a timestamp and a translator for it.\<close>

definition sample_table :: click_table where
  "sample_table =
     \<lparr>click_Name = ''logs'', click_Database = [], click_Cluster = [],
      Cols = [(''@timestamp'', Column ''@timestamp'' (NewBaseType ''DateTime64'') [] [] []),
              (''size'', Column ''size'' (NewBaseType ''Int64'') [] [] [])],
      click_Config = NewDefaultCHConfig, click_Created = True, click_Indexes = [],
      click_aliases = [], click_Comment = [], CreateTableQuery = [], DiscoveredTimestampFieldName = None, VirtualTable = False\<rparr>"

definition sample_translator :: translator where
  "sample_translator =
     \<lparr>tr_Schema = NewSchema [] True [], DateMathRenderer = [], tr_Indexes = [''logs''], tr_Table = sample_table,
      tr_Clock = test_clock\<rparr>"

definition sample_leaf :: "string \<Rightarrow> json" where
  "sample_leaf host = JObject [(''term'', JObject [(''host'', JString host)])]"

definition sample_bool :: json_map where
  "sample_bool =
     [(''bool'', JObject
        [(''must'', JArray [sample_leaf ''a'']), (''should'', JArray [sample_leaf ''b'', sample_leaf ''c'']),
         (''minimum_should_match'', JNumber (Finite False (2 ^ 52) (-52))),
         (''must_not'', JObject [(''exists'', JObject [(''field'', JString ''size'')])])])]"

definition sample_leaf_query :: "string \<Rightarrow> es_query" where
  "sample_leaf_query host = EsLeaf ''term'' [(''host'', JString host)]"

definition sample_query_meaning :: es_query where
  "sample_query_meaning =
     EsBool ([sample_leaf_query ''a''] @ []) [sample_leaf_query ''b'', sample_leaf_query ''c'']
       [EsLeaf ''exists'' [(''field'', JString ''size'')]] True"

lemma sample_denotes: "denotes sample_bool sample_query_meaning"
  unfolding sample_bool_def sample_query_meaning_def sample_leaf_def sample_leaf_query_def
  by (rule denotes_denotes_clause.bool)
    (auto intro!: denotes_denotes_clause.intros simp: leaf_keys_def least_should_def int64_of_float_def int64_range_def)

definition sample_row :: "expr \<Rightarrow> bool" where
  "sample_row e \<longleftrightarrow>
     e = InfixExpr (column_named ''host'') ''='' (literal (SingleQuote ''a''))
     \<or> e = InfixExpr (column_named ''host'') ''='' (literal (SingleQuote ''c''))"

theorem translation_means_query_witness:
  "\<exists>sq. parseQueryMap sample_translator sample_bool = Some sq \<and> CanParse sq \<and> sat sample_row (sq_WhereClause sq)"
proof -
  have "regular sample_translator sample_query_meaning" by code_simp
  moreover have "es_holds (leaf_holds sample_translator sample_row) sample_query_meaning" by code_simp
  ultimately show ?thesis
    using translation_means_query [OF sample_denotes] by blast
qed

lemma quoted_literal_text: "sql_string (render_literal (NewLiteral (VString (SingleQuote t)))) = Some (t, [])"
  by (simp add: render_literal_def NewLiteral_def escapeStringNormal_quoted)
    (simp add: SingleQuote_def sql_string_def read_literal_body literal_end_def)

section \<open>Regular expressions\<close>

text \<open>
  What a pattern of plain characters, dots and stars matches, all of the text.  \<open>LIKE\<close> reads
  \<open>%\<close> as any text and \<open>_\<close> as any character, both literally after a backslash.
\<close>

fun regex_matches :: "string \<Rightarrow> string \<Rightarrow> bool" where
  "regex_matches [] s \<longleftrightarrow> s = []"
| "regex_matches [a] s \<longleftrightarrow> length s = 1 \<and> (a = CHR ''.'' \<or> hd s = a)"
| "regex_matches (a # b # p) s \<longleftrightarrow>
     (if b = CHR ''*''
      then list_ex (\<lambda>k. list_all (\<lambda>x. a = CHR ''.'' \<or> x = a) (take k s) \<and> regex_matches p (drop k s)) [0..<Suc (length s)]
      else s \<noteq> [] \<and> (a = CHR ''.'' \<or> hd s = a) \<and> regex_matches (b # p) (tl s))"

definition wildcard :: "char \<Rightarrow> bool" where
  "wildcard c \<longleftrightarrow> c = CHR ''%'' \<or> c = CHR ''_'' \<or> c = CHR 0x5C"

fun like_matches :: "string \<Rightarrow> string \<Rightarrow> bool" where
  "like_matches [] s \<longleftrightarrow> s = []"
| "like_matches [c] s \<longleftrightarrow> (if c = CHR ''%'' then True else length s = 1 \<and> (c = CHR ''_'' \<or> hd s = c))"
| "like_matches (c # d # p) s \<longleftrightarrow>
     (if c = CHR ''%'' then list_ex (\<lambda>k. like_matches (d # p) (drop k s)) [0..<Suc (length s)]
      else if c = CHR 0x5C \<and> wildcard d then s \<noteq> [] \<and> hd s = d \<and> like_matches p (tl s)
      else s \<noteq> [] \<and> (c = CHR ''_'' \<or> hd s = c) \<and> like_matches (d # p) (tl s))"

lemma like_matches_percent:
  "like_matches (CHR ''%'' # p) s \<longleftrightarrow> (\<exists>k \<le> length s. like_matches p (drop k s))"
  by (cases p) (auto simp: list_ex_iff less_Suc_eq_le Bex_def simp del: upt_Suc intro: exI [of _ "length s"])

lemma like_matches_any:
  "like_matches (CHR ''_'' # p) s \<longleftrightarrow> s \<noteq> [] \<and> like_matches p (tl s)"
  by (cases p) (auto simp: length_Suc_conv neq_Nil_conv)

lemma like_matches_plain:
  "\<not> wildcard c \<Longrightarrow> like_matches (c # p) s \<longleftrightarrow> s \<noteq> [] \<and> hd s = c \<and> like_matches p (tl s)"
  by (cases p) (auto simp: length_Suc_conv neq_Nil_conv wildcard_def)

lemma like_matches_escaped:
  "like_matches (CHR 0x5C # CHR ''_'' # p) s \<longleftrightarrow> s \<noteq> [] \<and> hd s = CHR ''_'' \<and> like_matches p (tl s)"
  by (simp add: wildcard_def)

text \<open>The translation of a pattern, character by character.\<close>

definition like_char :: "char \<Rightarrow> string" where
  "like_char a = (if a = CHR ''_'' then [CHR 0x5C, CHR ''_''] else if a = CHR ''.'' then ''_'' else [a])"

lemma like_of_regex_simps:
  "like_of_regex [] = []"
  "a \<noteq> CHR ''.'' \<Longrightarrow> like_of_regex (a # p) = like_char a @ like_of_regex p"
  "like_of_regex (CHR ''.'' # CHR ''*'' # p) = CHR ''%'' # like_of_regex p"
  "hd p \<noteq> CHR ''*'' \<Longrightarrow> like_of_regex (CHR ''.'' # p) = CHR ''_'' # like_of_regex p"
proof -
  have pair: "replace_pair (CHR ''.'') (CHR ''*'') ''%'' (a # s) = a # replace_pair (CHR ''.'') (CHR ''*'') ''%'' s"
    if "a \<noteq> CHR ''.'' \<or> s = [] \<or> hd s \<noteq> CHR ''*''" for a s
    using that by (cases s) auto
  show "like_of_regex [] = []" by (simp add: like_of_regex_def)
  show "like_of_regex (a # p) = like_char a @ like_of_regex p" if "a \<noteq> CHR ''.''"
    using that by (simp add: like_of_regex_def like_char_def pair)
  show "like_of_regex (CHR ''.'' # CHR ''*'' # p) = CHR ''%'' # like_of_regex p"
    by (simp add: like_of_regex_def)
  show "like_of_regex (CHR ''.'' # p) = CHR ''_'' # like_of_regex p" if "hd p \<noteq> CHR ''*''"
  proof -
    have "replace_char (CHR ''_'') [CHR 0x5C, CHR ''_''] p = [] \<or>
        hd (replace_char (CHR ''_'') [CHR 0x5C, CHR ''_''] p) \<noteq> CHR ''*''"
      using that by (cases p) auto
    then show ?thesis by (simp add: like_of_regex_def pair)
  qed
qed

lemma like_char_matches:
  assumes "a \<noteq> CHR ''.''" "a \<noteq> CHR ''%''" "a \<noteq> CHR 0x5C"
  shows "like_matches (like_char a @ p) s \<longleftrightarrow> s \<noteq> [] \<and> hd s = a \<and> like_matches p (tl s)"
  using assms by (cases "a = CHR ''_''") (simp_all add: like_char_def like_matches_escaped like_matches_plain wildcard_def del: like_matches.simps)

lemma regex_matches_step:
  "p = [] \<or> hd p \<noteq> CHR ''*'' \<Longrightarrow>
   regex_matches (a # p) s \<longleftrightarrow> s \<noteq> [] \<and> (a = CHR ''.'' \<or> hd s = a) \<and> regex_matches p (tl s)"
  by (cases p) (auto simp: length_Suc_conv neq_Nil_conv)

lemma like_of_regex_matches:
  "stars_follow_dots p \<Longrightarrow> CHR ''%'' \<notin> set p \<Longrightarrow> CHR 0x5C \<notin> set p \<Longrightarrow> p = [] \<or> hd p \<noteq> CHR ''*'' \<Longrightarrow>
   like_matches (like_of_regex p) s \<longleftrightarrow> regex_matches p s"
proof (induction p arbitrary: s rule: length_induct)
  case (1 p)
  show ?case
  proof (cases p)
    case Nil
    then show ?thesis by (simp add: like_of_regex_simps)
  next
    case (Cons a q)
    show ?thesis
    proof (cases "a = CHR ''.'' \<and> q \<noteq> [] \<and> hd q = CHR ''*''")
      case True
      then obtain r where p: "p = CHR ''.'' # CHR ''*'' # r" using Cons by (cases q) auto
      then have "stars_follow_dots r" "r = [] \<or> hd r \<noteq> CHR ''*''" using 1(2) by (cases r; simp)+
      then have "like_matches (like_of_regex r) t \<longleftrightarrow> regex_matches r t" for t
        by (intro 1(1) [rule_format]) (use 1(3,4) p in auto)
      then show ?thesis
        by (simp add: p like_of_regex_simps like_matches_percent list_ex_iff less_Suc_eq_le Bex_def list_all_iff del: upt_Suc like_matches.simps)
    next
      case False
      then have q: "q = [] \<or> hd q \<noteq> CHR ''*''" "stars_follow_dots q"
        using 1(2) Cons by (cases q; auto)+
      then have "like_matches (like_of_regex q) t \<longleftrightarrow> regex_matches q t" for t
        by (intro 1(1) [rule_format]) (use 1(3,4) Cons in auto)
      moreover have "like_matches (like_of_regex (a # q)) s \<longleftrightarrow>
          s \<noteq> [] \<and> (a = CHR ''.'' \<or> hd s = a) \<and> like_matches (like_of_regex q) (tl s)"
      proof (cases "a = CHR ''.''")
        case True
        moreover have "like_of_regex (CHR ''.'' # q) = CHR ''_'' # like_of_regex q"
          using q(1) like_of_regex_simps(1,4) by (cases "q = []") (auto simp: like_of_regex_def)
        ultimately show ?thesis by (simp add: like_matches_any del: like_matches.simps)
      next
        case False
        moreover have "a \<noteq> CHR ''%''" "a \<noteq> CHR 0x5C" using 1(3,4) Cons by auto
        ultimately show ?thesis
          by (simp add: like_of_regex_simps like_char_matches del: like_matches.simps)
      qed
      ultimately show ?thesis
        using q(1) Cons by (simp add: regex_matches_step del: regex_matches.simps)
    qed
  qed
qed

text \<open>
  A regular expression of plain characters, dots and \<open>.*\<close> becomes a LIKE condition on the field
  whose pattern, as ClickHouse reads the literal, matches the same texts as the expression, provided
  the expression has no percent sign.
\<close>

lemma simple_regex_is_like:
  assumes "isPatternReallySimple p = Some True" and "CHR ''%'' \<notin> set p"
  shows "\<exists>l. parseRegexp [(field, JObject [(''value'', JString p)])] =
      Some (NewSimpleQuery (InfixExpr (column_named field) ''LIKE'' (LiteralExpr l)) True)
    \<and> sql_string (render_literal l) = Some (like_of_regex p, [])
    \<and> (\<forall>s. like_matches (like_of_regex p) s \<longleftrightarrow> regex_matches p s)"
proof -
  have p: "CHR 0x5C \<notin> set p" "p \<noteq> []" "hd p \<noteq> CHR ''*''" "stars_follow_dots p"
    using assms(1) by (auto simp: isPatternReallySimple_def contains_char_iff split: if_splits list.splits)
  then have "\<forall>s. like_matches (like_of_regex p) s \<longleftrightarrow> regex_matches p s"
    using like_of_regex_matches assms(2) by simp
  moreover have "sql_string (render_literal (NewLiteral (VString (SingleQuote (like_of_regex p))))) = Some (like_of_regex p, [])"
    using quoted_literal_text [of "like_of_regex p"] .
  ultimately show ?thesis
    using assms(1) by (intro exI [of _ "NewLiteral (VString (SingleQuote (like_of_regex p)))"])
      (simp add: parseRegexp_def ToClickhouseExpr_def)
qed

lemma simple_regex_is_like_example:
  "like_matches (like_of_regex ''a_.*b.'') ''a_xyzbc'' \<and> regex_matches ''a_.*b.'' ''a_xyzbc''
   \<and> \<not> like_matches (like_of_regex ''a_.*b.'') ''abxyzbc''"
proof -
  have "isPatternReallySimple ''a_.*b.'' = Some True" "CHR ''%'' \<notin> set ''a_.*b.''" by code_simp+
  from simple_regex_is_like [OF this, of "''host''"]
  have "like_matches (like_of_regex ''a_.*b.'') s \<longleftrightarrow> regex_matches ''a_.*b.'' s" for s by blast
  moreover have "regex_matches ''a_.*b.'' ''a_xyzbc''" "\<not> regex_matches ''a_.*b.'' ''abxyzbc''" by code_simp+
  ultimately show ?thesis by blast
qed

text \<open>A percent sign is not escaped, and the empty expression panics.\<close>

lemma percent_becomes_wildcard:
  "like_matches (like_of_regex ''100%'') ''1000'' \<and> \<not> regex_matches ''100%'' ''1000''"
  by code_simp

lemma empty_regex_panics: "parseRegexp [(field, JObject [(''value'', JString [])])] = None"
  by (simp add: parseRegexp_def ToClickhouseExpr_def isPatternReallySimple_def contains_any_def)

section \<open>Queries that are lost\<close>

text \<open>
  A query object with several entries, none of which the parser keeps, is parsed without error
  as the query that restricts nothing: the condition next to an unexpected entry is dropped.
\<close>

lemma extra_entries_match_everything:
  assumes "length q \<noteq> 1"
    and "\<forall>k \<in> fst ` set q. k \<notin> {''query'', ''bool'', ''query_string'', ''index_filter'', ''search_after''}"
  shows "parseQueryMap tr q = Some (NewSimpleQuery NilExpr True)"
proof -
  have "metadata_free q = []"
    using assms(2) by (force simp: metadata_free_def filter_empty_conv)
  then show ?thesis
    using assms(1) by (simp add: parseQueryMap.simps [of tr q] kept_query_def)
qed

lemma extra_entries_match_everything_example:
  "parseQueryMap sample_translator [(''term'', JObject [(''host'', JString ''a'')]), (''boost'', JNumber (Finite False 1 0))] =
     Some (NewSimpleQuery NilExpr True)"
  by (rule extra_entries_match_everything) simp_all

text \<open>
  Excluding everything is malformed: \<open>match_all\<close> under \<open>must_not\<close> is parsed without error to a
  NOT whose operand is missing, which is printed as \<open>NOT ()\<close> instead of a condition that no row meets.
\<close>

lemma excluding_everything_malformed:
  "\<exists>sq. parseQueryMap tr [(''bool'', JObject [(''must_not'', JArray [JObject [(''match_all'', JObject m)]])])] = Some sq
    \<and> CanParse sq \<and> render (sq_WhereClause sq) = Some ''NOT ()''"
proof -
  have "clause_of tr (Some (JArray [JObject [(''match_all'', JObject m)]])) = Some ([NilExpr], True)"
    by (simp add: clause_of_def parse_array_Cons parseQueryMap_single query_keys_def leaf_keys_def parse_leaf_def
        parseQueryMapArray.simps NewSimpleQuery_def)
  moreover have "clause_of tr None = Some ([], True)" by (simp add: clause_of_def)
  ultimately have "parseQueryMap tr [(''bool'', JObject [(''must_not'', JArray [JObject [(''match_all'', JObject m)]])])] =
      Some (NewSimpleQuery (PrefixExpr ''NOT'' [NilExpr]) True)"
    by (simp add: parseQueryMap_single query_keys_def parseBool.simps optional_clause_of bool_condition_def
        minimum_should_match_def And_def Or_def combineStatements_cases)
  then show ?thesis
    by (simp add: NewSimpleQuery_def)
qed

end
