(* ===== verification/Highlight.thy ===== *)
theory Highlight
  imports Expr_Model
begin

text \<open>
  \<open>quesma/model/highlighter.go\<close>: which tokens of a query are highlighted in which column, and
  the highlighted parts of a value.

  The set of tokens of a column is a list without repetitions, in the order of one iteration
  over the Go map.  Values are ASCII, so lower case keeps every byte in its place.
\<close>

section \<open>The highlighter\<close>

record highlighter =
  Tokens :: "string \<rightharpoonup> string list"
  PreTags :: "string list"
  PostTags :: "string list"

definition MatchOperator :: string where "MatchOperator = ''__quesma_match''"

text \<open>Longest first; \<open>sort.Slice\<close> leaves the order of tokens of one length open.\<close>

definition GetSortedTokens :: "highlighter \<Rightarrow> string \<Rightarrow> string list" where
  "GetSortedTokens h columnName =
     (case Tokens h columnName of
        Some tokens \<Rightarrow> sort_key (\<lambda>t. - int (length t)) tokens
      | None \<Rightarrow> [])"

definition ShouldHighlight :: "highlighter \<Rightarrow> string \<Rightarrow> bool" where
  "ShouldHighlight h columnName \<longleftrightarrow> Tokens h columnName \<noteq> None"

section \<open>Collecting the tokens\<close>

definition highlight_ops :: "string list" where
  "highlight_ops = [''iLIKE'', ''LIKE'', ''IN'', ''='', MatchOperator]"

definition strip_token :: "string \<Rightarrow> string" where
  "strip_token s =
     (let s = trim_prefix s [CHR 0x27];
          s = trim_prefix s ''%'';
          s = trim_suffix s [CHR 0x27];
          s = trim_suffix s ''%''
      in to_lower s)"

definition add_token :: "string \<Rightarrow> string \<Rightarrow> (string \<rightharpoonup> string list) \<Rightarrow> (string \<rightharpoonup> string list)" where
  "add_token column token ts =
     ts(column \<mapsto> List.insert token (case ts column of Some l \<Rightarrow> l | None \<Rightarrow> []))"

definition note_infix :: "expr \<Rightarrow> string \<Rightarrow> expr \<Rightarrow> (string \<rightharpoonup> string list) \<Rightarrow> (string \<rightharpoonup> string list)" where
  "note_infix l op r ts =
     (if op \<in> set highlight_ops then
        (case (l, r) of
           (ColumnRef lhs, LiteralExpr rhs) \<Rightarrow>
             (case Value rhs of
                VString s \<Rightarrow> add_token (ColumnName lhs) (strip_token s) ts
              | _ \<Rightarrow> ts)
         | _ \<Rightarrow> ts)
      else ts)"

definition token_infix ::
  "(string \<rightharpoonup> string list) walk \<Rightarrow> expr \<Rightarrow> string \<Rightarrow> expr \<Rightarrow> (string \<rightharpoonup> string list) \<Rightarrow>
   (expr \<times> (string \<rightharpoonup> string list)) option" where
  "token_infix b l op r ts =
     do { (l', ts) \<leftarrow> visit_as as_Expr b l (note_infix l op r ts);
          (r', ts) \<leftarrow> visit_as as_Expr b r ts;
          Some (InfixExpr l' op r', ts) }"

definition token_visitor :: "(string \<rightharpoonup> string list) base_visitor" where
  "token_visitor = NewBaseVisitor\<lparr>OverrideVisitInfix := Some token_infix\<rparr>"

definition SetTokensToHighlight :: "highlighter \<Rightarrow> select_command \<Rightarrow> highlighter option" where
  "SetTokensToHighlight h selectCmd =
     do { (_, ts) \<leftarrow> accept token_visitor (SelectE selectCmd) Map.empty;
          Some (h\<lparr>Tokens := ts\<rparr>) }"

section \<open>Highlighting a value\<close>

type_synonym match = "nat \<times> nat"

function token_matches :: "string \<Rightarrow> string \<Rightarrow> nat \<Rightarrow> match list" where
  "token_matches lowerValue token pos =
     (if token = [] \<or> \<not> pos < length lowerValue then []
      else case index_of (drop pos lowerValue) token of
        None \<Rightarrow> []
      | Some idx \<Rightarrow>
          (pos + idx, pos + idx + length token)
            # token_matches lowerValue token (pos + idx + length token))"
  by pat_completeness auto
termination
  by (relation "measure (\<lambda>(s, token, pos). length s - pos)") (auto simp: neq_Nil_conv)

declare token_matches.simps [simp del]

fun merge_step :: "match list \<Rightarrow> match \<Rightarrow> match list" where
  "merge_step [] m = [m]"
| "merge_step (l # merged) m =
     (if fst m \<le> snd l then (fst l, max (snd m) (snd l)) # merged else m # l # merged)"

text \<open>The merged matches are kept in reverse, the last one first.\<close>

definition merge_matches :: "match list \<Rightarrow> match list" where
  "merge_matches ms = rev (foldl merge_step [] ms)"

definition slice :: "string \<Rightarrow> match \<Rightarrow> string option" where
  "slice s m = (if fst m \<le> snd m \<and> snd m \<le> length s then Some (take (snd m - fst m) (drop (fst m) s)) else None)"

definition highlight_one :: "highlighter \<Rightarrow> string \<Rightarrow> match \<Rightarrow> string option" where
  "highlight_one h value m =
     (case (PreTags h, PostTags h) of
        (pre # _, post # _) \<Rightarrow> do { part \<leftarrow> slice value m; Some (pre @ part @ post) }
      | _ \<Rightarrow> None)"

definition find_matches :: "highlighter \<Rightarrow> string \<Rightarrow> string \<Rightarrow> match list" where
  "find_matches h columnName value =
     concat (map (\<lambda>token. token_matches (to_lower value) token 0) (GetSortedTokens h columnName))"

definition HighlightValue :: "highlighter \<Rightarrow> string \<Rightarrow> string \<Rightarrow> string list option" where
  "HighlightValue h columnName value =
     (if length (PreTags h) < 1 \<and> length (PostTags h) < 1 then Some []
      else
        (let matches = find_matches h columnName value
         in if matches = [] then Some []
            else opt_mapM (highlight_one h value) (merge_matches (sort_key fst matches))))"

section \<open>What the visitor collects\<close>

text \<open>All nodes of a tree, parents first, in the order of the visit.\<close>

function all_nodes :: "expr \<Rightarrow> expr list" where
  "all_nodes e = e # concat (map all_nodes (children e))"
  by pat_completeness auto
termination
  by (relation "measure size") (auto simp: size_children)

declare all_nodes.simps [simp del]

fun note_node :: "expr \<Rightarrow> (string \<rightharpoonup> string list) \<Rightarrow> (string \<rightharpoonup> string list)" where
  "note_node (InfixExpr l op r) ts = note_infix l op r ts"
| "note_node e ts = ts"

lemma fold_nodes: "fold (\<lambda>x. fold f (g x)) xs s = fold f (concat (map g xs)) s"
  by (induction xs arbitrary: s) auto

lemma accept_token_infix:
  "accept token_visitor (InfixExpr l op r) ts = token_infix (accept token_visitor) l op r ts"
  by (subst accept_infix [where f = token_infix])
    (simp_all add: token_visitor_def token_infix_def visit_as_def)

lemma accept_tokens:
  "wf_expr e \<Longrightarrow> accept token_visitor e ts = Some (e, fold note_node (all_nodes e) ts)"
proof (induction e arbitrary: ts rule: accept_induct)
  case (node e)
  have IH: "accept token_visitor c t = Some (c, fold note_node (all_nodes c) t)" if "c \<in> set (children e)" for c t
    using node.IH [OF that] wf_expr_children [OF node.prems that] by blast
  show ?case
  proof (cases "\<exists>l op r. e = InfixExpr l op r")
    case True
    then obtain l op r where e: "e = InfixExpr l op r" by blast
    then show ?thesis
      using IH node.prems
      by (auto simp: accept_token_infix token_infix_def visit_as_def as_Expr_def all_nodes.simps [of "InfixExpr l op r"])
  next
    case False
    have "visit_default (accept token_visitor) e ts =
        Some (e, fold (\<lambda>c. fold note_node (all_nodes c)) (children e) ts)"
      using node.prems IH by (intro visit_default_fold) (auto simp: wf_expr.simps [of e] list_all_iff)
    moreover have "override_of token_visitor w e = None" for w
      using False by (cases e) (auto simp: token_visitor_def NewBaseVisitor_def)
    moreover have "note_node e t = t" for t using False by (cases e) auto
    ultimately show ?thesis
      by (simp add: accept_no_override all_nodes.simps [of e] fold_nodes)
  qed
qed

text \<open>The tokens an infix node gives a column.\<close>

definition node_token :: "string \<Rightarrow> expr \<Rightarrow> string option" where
  "node_token column e =
     (case e of
        InfixExpr (ColumnRef lhs) op (LiteralExpr rhs) \<Rightarrow>
          (case Value rhs of
             VString s \<Rightarrow> if op \<in> set highlight_ops \<and> ColumnName lhs = column then Some (strip_token s) else None
           | _ \<Rightarrow> None)
      | _ \<Rightarrow> None)"

definition tokens_of :: "(string \<rightharpoonup> string list) \<Rightarrow> string \<Rightarrow> string set" where
  "tokens_of ts column = (case ts column of Some l \<Rightarrow> set l | None \<Rightarrow> {})"

lemma note_node_tokens:
  "tokens_of (note_node e ts) column = tokens_of ts column \<union> set_option (node_token column e)"
  by (cases e)
    (auto simp: note_infix_def node_token_def add_token_def tokens_of_def split: expr.splits any_value.splits option.splits)

lemma fold_note_node:
  "tokens_of (fold note_node es ts) column = tokens_of ts column \<union> set (List.map_filter (node_token column) es)"
  by (induction es arbitrary: ts) (auto simp: note_node_tokens List.map_filter_def split: option.splits)

lemma note_node_listed:
  "note_node e ts column = None \<longleftrightarrow> ts column = None \<and> node_token column e = None"
  by (cases e)
    (auto simp: note_infix_def node_token_def add_token_def split: expr.splits any_value.splits option.splits if_splits)

lemma fold_note_listed:
  "fold note_node es ts column = None \<longleftrightarrow> ts column = None \<and> List.map_filter (node_token column) es = []"
  by (induction es arbitrary: ts) (auto simp: note_node_listed List.map_filter_def)

section \<open>Where a token matches\<close>

definition occurs_at :: "string \<Rightarrow> string \<Rightarrow> nat \<Rightarrow> bool" where
  "occurs_at s token p \<longleftrightarrow> token \<noteq> [] \<and> p + length token \<le> length s \<and> take (length token) (drop p s) = token"

lemma has_prefix_occurs: "token \<noteq> [] \<Longrightarrow> has_prefix (drop p s) token \<longleftrightarrow> occurs_at s token p"
proof -
  assume "token \<noteq> []"
  moreover have "take (length token) (drop p s) = token \<Longrightarrow> p + length token \<le> length s"
  proof -
    assume "take (length token) (drop p s) = token"
    then have "length (take (length token) (drop p s)) = length token" by simp
    then show ?thesis using \<open>token \<noteq> []\<close> by (cases token) (auto simp: min_def split: if_splits)
  qed
  ultimately show ?thesis by (auto simp: has_prefix_def occurs_at_def)
qed

lemma index_of_Some:
  "index_of s p = Some i \<Longrightarrow> has_prefix (drop i s) p \<and> (\<forall>j < i. \<not> has_prefix (drop j s) p)"
proof (induction s p arbitrary: i rule: index_of.induct)
  case (2 c s p)
  show ?case
  proof (cases "has_prefix (c # s) p")
    case False
    then obtain k where k: "index_of s p = Some k" "i = Suc k" using "2.prems" by auto
    with "2.IH" [OF False k(1)] False show ?thesis by (auto simp: less_Suc_eq_0_disj)
  qed (use "2.prems" in auto)
qed (auto simp: has_prefix_def split: if_splits)

lemma index_of_None: "index_of s p = None \<Longrightarrow> \<not> has_prefix (drop i s) p"
proof (induction s p arbitrary: i rule: index_of.induct)
  case (2 c s p)
  then show ?case by (cases i) (auto split: if_splits)
qed (auto simp: has_prefix_def split: if_splits)

lemma token_matches_step:
  "token \<noteq> [] \<Longrightarrow> pos < length s \<Longrightarrow> index_of (drop pos s) token = Some idx \<Longrightarrow>
   token_matches s token pos =
     (pos + idx, pos + idx + length token) # token_matches s token (pos + idx + length token)"
  by (subst token_matches.simps) simp

lemma token_matches_stop:
  "token = [] \<or> \<not> pos < length s \<or> index_of (drop pos s) token = None \<Longrightarrow> token_matches s token pos = []"
  by (subst token_matches.simps) auto

lemma token_matches_sound:
  "m \<in> set (token_matches s token pos) \<Longrightarrow>
   occurs_at s token (fst m) \<and> snd m = fst m + length token \<and> pos \<le> fst m"
proof (induction s token pos rule: token_matches.induct)
  case (1 s token pos)
  have "\<not> (token = [] \<or> \<not> pos < length s \<or> index_of (drop pos s) token = None)"
    using token_matches_stop [of token pos s] "1.prems" by (metis empty_iff list.set(1))
  then obtain idx where ne: "token \<noteq> []" "pos < length s" and idx: "index_of (drop pos s) token = Some idx"
    by auto
  have m: "m = (pos + idx, pos + idx + length token) \<or> m \<in> set (token_matches s token (pos + idx + length token))"
    using "1.prems" unfolding token_matches_step [OF ne idx] by auto
  have "has_prefix (drop (pos + idx) s) token"
    using index_of_Some [OF idx] by (simp add: add.commute)
  then have "occurs_at s token (pos + idx)" using ne has_prefix_occurs by blast
  then show ?case using m "1.IH" [OF _ idx] ne by auto
qed

text \<open>Every occurrence of the token overlaps a match.\<close>

lemma token_matches_complete:
  "occurs_at s token p \<Longrightarrow> pos \<le> p \<Longrightarrow>
   \<exists>m \<in> set (token_matches s token pos). fst m < p + length token \<and> p < snd m"
proof (induction s token pos rule: token_matches.induct)
  case (1 s token pos)
  have ne: "token \<noteq> []" "pos < length s" using "1.prems" by (cases token; auto simp: occurs_at_def)+
  have occ: "has_prefix (drop p s) token" using "1.prems" ne has_prefix_occurs by blast
  then have here: "has_prefix (drop (p - pos) (drop pos s)) token" using "1.prems"(2) by simp
  then obtain idx where idx: "index_of (drop pos s) token = Some idx"
    using index_of_None [of "drop pos s" token "p - pos"] by (cases "index_of (drop pos s) token") auto
  have "idx \<le> p - pos" using index_of_Some [OF idx] here by (metis not_less)
  then have le: "pos + idx \<le> p" using "1.prems"(2) by linarith
  note unf = token_matches_step [OF ne idx]
  show ?case
  proof (cases "p < pos + idx + length token")
    case True
    then show ?thesis using le ne unfolding unf by simp
  next
    case False
    then show ?thesis using "1.IH" [OF _ idx "1.prems"(1)] ne unfolding unf by auto
  qed
qed

section \<open>Merging\<close>

text \<open>
  The positions a list of matches covers, and the borders between them, so that two matches
  that touch leave no gap: position \<open>i\<close> is \<open>2 i + 1\<close>, the border before it \<open>2 i\<close>.
\<close>

definition covered :: "match list \<Rightarrow> nat set" where
  "covered ms = (\<Union>m \<in> set ms. {2 * fst m .. 2 * snd m})"

definition proper :: "match \<Rightarrow> bool" where
  "proper m \<longleftrightarrow> fst m < snd m"

definition separated :: "match list \<Rightarrow> bool" where
  "separated ms \<longleftrightarrow> sorted_wrt (\<lambda>a b. snd a < fst b) ms \<and> list_all proper ms"

lemma covered_simps [simp]:
  "covered [] = {}" "covered (m # ms) = {2 * fst m .. 2 * snd m} \<union> covered ms"
  "covered (ms @ ns) = covered ms \<union> covered ns" "covered (rev ms) = covered ms"
  by (auto simp: covered_def)

lemma merge_step_inv:
  assumes "separated (rev acc)" and "proper m" and "list_all (\<lambda>l. fst l \<le> fst m) acc"
  shows "separated (rev (merge_step acc m)) \<and> covered (merge_step acc m) = covered acc \<union> {2 * fst m .. 2 * snd m} \<and>
         list_all (\<lambda>l. fst l \<le> fst m) (merge_step acc m)"
proof (cases acc)
  case (Cons l rest)
  have ls: "fst l \<le> fst m" "fst l < snd l" using assms Cons by (auto simp: separated_def proper_def)
  show ?thesis
  proof (cases "fst m \<le> snd l")
    case True
    have "{2 * fst l .. 2 * max (snd m) (snd l)} = {2 * fst l .. 2 * snd l} \<union> {2 * fst m .. 2 * snd m}"
      using ls True by (auto simp: max_def)
    then show ?thesis
      using assms Cons True ls
      by (auto simp: separated_def proper_def sorted_wrt_append max_def)
  next
    case False
    then have "\<And>x. x \<in> set rest \<Longrightarrow> snd x < fst m"
      using assms(1) Cons ls by (force simp: separated_def proper_def sorted_wrt_append)
    then show ?thesis
      using assms Cons False
      by (auto simp: separated_def proper_def sorted_wrt_append)
  qed
qed (use assms in \<open>auto simp: separated_def\<close>)

lemma foldl_merge:
  "separated (rev acc) \<Longrightarrow> list_all proper ms \<Longrightarrow> sorted (map fst ms) \<Longrightarrow>
   list_all (\<lambda>l. list_all (\<lambda>m. fst l \<le> fst m) ms) acc \<Longrightarrow>
   separated (rev (foldl merge_step acc ms)) \<and> covered (foldl merge_step acc ms) = covered acc \<union> covered ms"
proof (induction ms arbitrary: acc)
  case (Cons m ms)
  have step: "separated (rev (merge_step acc m))" "covered (merge_step acc m) = covered acc \<union> {2 * fst m .. 2 * snd m}"
    "list_all (\<lambda>l. fst l \<le> fst m) (merge_step acc m)"
    using merge_step_inv [of acc m] Cons.prems by (auto simp: list_all_iff)
  have "list_all (\<lambda>l. list_all (\<lambda>n. fst l \<le> fst n) ms) (merge_step acc m)"
    using step(3) Cons.prems(3) by (force simp: list_all_iff)
  from Cons.IH [OF step(1) _ _ this] Cons.prems step(2) show ?case by auto
qed simp

lemma merge_matches_props:
  assumes "list_all proper ms" and "sorted (map fst ms)"
  shows "separated (merge_matches ms)" and "covered (merge_matches ms) = covered ms"
  using foldl_merge [of "[]" ms] assms by (auto simp: merge_matches_def separated_def)

text \<open>A separated list is determined by what it covers.\<close>

lemma separated_Cons:
  "separated (m # ms) \<longleftrightarrow> proper m \<and> separated ms \<and> (\<forall>n \<in> set ms. snd m < fst n)"
  by (auto simp: separated_def)

lemma separated_head:
  assumes "separated (m # ms)"
  shows "2 * fst m \<in> covered (m # ms)" and "x \<in> covered (m # ms) \<Longrightarrow> 2 * fst m \<le> x"
    and "Suc (2 * snd m) \<notin> covered (m # ms)" and "x \<in> covered ms \<Longrightarrow> 2 * snd m < x"
proof -
  have m: "fst m < snd m" and ms: "\<And>n. n \<in> set ms \<Longrightarrow> snd m < fst n"
    using assms by (auto simp: separated_Cons proper_def)
  show rest: "x \<in> covered ms \<Longrightarrow> 2 * snd m < x" for x
    using ms by (fastforce simp: covered_def)
  show "2 * fst m \<in> covered (m # ms)" using m by simp
  show "x \<in> covered (m # ms) \<Longrightarrow> 2 * fst m \<le> x" using rest [of x] m by auto
  show "Suc (2 * snd m) \<notin> covered (m # ms)"
  proof
    assume "Suc (2 * snd m) \<in> covered (m # ms)"
    then obtain n where "n \<in> set ms" "2 * fst n \<le> Suc (2 * snd m)" by (auto simp: covered_def)
    then show False using ms [of n] by simp
  qed
qed

lemma separated_unique:
  "separated ms \<Longrightarrow> separated ns \<Longrightarrow> covered ms = covered ns \<Longrightarrow> ms = ns"
proof (induction ms arbitrary: ns)
  case Nil
  then show ?case by (cases ns) (auto simp: separated_Cons proper_def)
next
  case (Cons m ms)
  then obtain n ns' where ns: "ns = n # ns'"
    by (cases ns) (auto simp: separated_Cons proper_def)
  note sm = separated_head [OF Cons.prems(1)] and sn = separated_head [OF Cons.prems(2) [unfolded ns]]
  have eq: "covered (m # ms) = covered (n # ns')" using Cons.prems(3) ns by simp
  have "fst m = fst n" using sm(1,2) sn(1,2) unfolding eq by (metis le_antisym mult_le_cancel1 zero_less_numeral)
  moreover have "snd m = snd n"
  proof (rule ccontr)
    assume "snd m \<noteq> snd n"
    then consider "snd m < snd n" | "snd n < snd m" by linarith
    then show False
    proof cases
      case 1
      then have "Suc (2 * snd m) \<in> covered (n # ns')"
        using Cons.prems(1) \<open>fst m = fst n\<close> by (auto simp: separated_Cons proper_def)
      then show ?thesis using sm(3) unfolding eq by blast
    next
      case 2
      then have "Suc (2 * snd n) \<in> covered (m # ms)"
        using Cons.prems(2) ns \<open>fst m = fst n\<close> by (auto simp: separated_Cons proper_def)
      then show ?thesis using sn(3) unfolding eq by blast
    qed
  qed
  ultimately have mn: "m = n" by (simp add: prod_eq_iff)
  have "covered ms = covered ns'"
  proof -
    have "covered ms = covered (m # ms) - {x. x \<le> 2 * snd m}" using sm(2,4) by fastforce
    moreover have "covered ns' = covered (n # ns') - {x. x \<le> 2 * snd n}" using sn(2,4) by fastforce
    ultimately show ?thesis using eq mn by simp
  qed
  then show ?case using Cons.IH [of ns'] Cons.prems ns mn by (auto simp: separated_Cons)
qed

section \<open>The highlights of a value\<close>

lemma length_to_lower [simp]: "length (to_lower s) = length s"
  by (simp add: to_lower_def)

lemma find_matches_sound:
  "m \<in> set (find_matches h column value) \<Longrightarrow>
   \<exists>token \<in> tokens_of (Tokens h) column. occurs_at (to_lower value) token (fst m) \<and> snd m = fst m + length token"
  by (cases "Tokens h column")
    (auto simp: find_matches_def GetSortedTokens_def tokens_of_def dest!: token_matches_sound)

lemma find_matches_proper: "list_all proper (find_matches h column value)"
  by (fastforce simp: list_all_iff proper_def occurs_at_def dest: find_matches_sound)

lemma find_matches_bound: "m \<in> set (find_matches h column value) \<Longrightarrow> snd m \<le> length value"
  by (auto simp: occurs_at_def dest: find_matches_sound)

definition merged :: "highlighter \<Rightarrow> string \<Rightarrow> string \<Rightarrow> match list" where
  "merged h column value = merge_matches (sort_key fst (find_matches h column value))"

lemma merged_props:
  "separated (merged h column value)" "covered (merged h column value) = covered (find_matches h column value)"
proof -
  let ?ms = "sort_key fst (find_matches h column value)"
  have "list_all proper ?ms" using find_matches_proper by (simp add: list_all_iff)
  from merge_matches_props [OF this sorted_sort_key]
  show "separated (merged h column value)" "covered (merged h column value) = covered (find_matches h column value)"
    by (auto simp: merged_def covered_def)
qed

lemma merged_bound: "m \<in> set (merged h column value) \<Longrightarrow> fst m < snd m \<and> snd m \<le> length value"
proof -
  assume m: "m \<in> set (merged h column value)"
  then have p: "fst m < snd m" using merged_props(1) by (auto simp: separated_def list_all_iff proper_def)
  then have "2 * snd m \<in> covered (merged h column value)" using m by (force simp: covered_def)
  then obtain n where "n \<in> set (find_matches h column value)" "2 * snd m \<le> 2 * snd n"
    unfolding merged_props(2) by (auto simp: covered_def)
  with find_matches_bound p show ?thesis by fastforce
qed

text \<open>A position inside a match is the odd point between its borders.\<close>

lemma position_covered: "(\<exists>m \<in> set ms. fst m \<le> i \<and> i < snd m) \<longleftrightarrow> Suc (2 * i) \<in> covered ms"
proof -
  have "fst m \<le> i \<and> i < snd m \<longleftrightarrow> Suc (2 * i) \<in> {2 * fst m .. 2 * snd m}" for m :: match
    by auto
  then show ?thesis by (auto simp: covered_def)
qed

lemma merge_matches_Nil: "merge_matches ms = [] \<Longrightarrow> list_all proper ms \<Longrightarrow> sorted (map fst ms) \<Longrightarrow> ms = []"
  using merge_matches_props(2) [of ms] by (cases ms) (auto simp: proper_def)

lemma HighlightValue_merged:
  assumes "PreTags h = pre # pres" and "PostTags h = post # posts"
  shows "HighlightValue h column value =
    Some (map (\<lambda>m. pre @ take (snd m - fst m) (drop (fst m) value) @ post) (merged h column value))"
proof (cases "find_matches h column value = []")
  case True
  then show ?thesis by (simp add: HighlightValue_def assms merged_def merge_matches_def)
next
  case False
  have "opt_mapM (highlight_one h value) (merged h column value) =
      Some (map (\<lambda>m. pre @ take (snd m - fst m) (drop (fst m) value) @ post) (merged h column value))"
    by (rule opt_mapM_map) (use merged_bound in \<open>fastforce simp: highlight_one_def assms slice_def\<close>)
  then show ?thesis using False by (simp add: HighlightValue_def assms merged_def)
qed

lemma merged_cong:
  assumes "set (find_matches h column value) = set (find_matches h' column value)"
  shows "merged h column value = merged h' column value"
  using merged_props [of h column] merged_props [of h' column] assms
  by (intro separated_unique) (auto simp: covered_def)

section \<open>Properties\<close>

definition sample_highlighter :: "string list \<Rightarrow> string list \<Rightarrow> string list \<Rightarrow> highlighter" where
  "sample_highlighter tokens pre post =
     \<lparr>Tokens = [''msg'' \<mapsto> tokens], PreTags = pre, PostTags = post\<rparr>"

text \<open>
  The tokens collected from a query are exactly those of its comparisons: for each column,
  the stripped and lowered text of every string literal the column is compared with by one of
  the five operators, anywhere in the query; and a column is highlighted just when it has one.
\<close>
lemma tokens_of_query:
  assumes "wf_expr (SelectE q)"
  shows "\<exists>h'. SetTokensToHighlight h q = Some h' \<and> PreTags h' = PreTags h \<and> PostTags h' = PostTags h \<and>
           tokens_of (Tokens h') column = set (List.map_filter (node_token column) (all_nodes (SelectE q))) \<and>
           (ShouldHighlight h' column \<longleftrightarrow> List.map_filter (node_token column) (all_nodes (SelectE q)) \<noteq> [])"
  using accept_tokens [OF assms, of Map.empty]
  by (auto simp: SetTokensToHighlight_def fold_note_node ShouldHighlight_def fold_note_listed tokens_of_def [of Map.empty]
      simp del: not_None_eq)

lemma tokens_of_query_example:
  "\<exists>h'. SetTokensToHighlight (sample_highlighter [] [] []) sample_select = Some h'"
  using tokens_of_query [OF wf_sample_select] by blast

text \<open>
  C14: The highlights of a value are exact.  With both tags set, they are slices of the value
  between the tags, in order and apart from each other by at least one byte; a byte is inside
  one of them just when it is inside a match of a token; every match is an occurrence of a token
  in the lowered value, and every occurrence of a token overlaps a match.
\<close>
theorem highlights_exact:
  assumes "PreTags h = pre # pres" and "PostTags h = post # posts"
  shows "\<exists>ms. HighlightValue h column value =
             Some (map (\<lambda>m. pre @ take (snd m - fst m) (drop (fst m) value) @ post) ms) \<and>
           sorted_wrt (\<lambda>a b. snd a < fst b) ms \<and>
           (\<forall>m \<in> set ms. fst m < snd m \<and> snd m \<le> length value) \<and>
           (\<forall>i. (\<exists>m \<in> set ms. fst m \<le> i \<and> i < snd m) \<longleftrightarrow>
                (\<exists>m \<in> set (find_matches h column value). fst m \<le> i \<and> i < snd m)) \<and>
           (\<forall>m \<in> set (find_matches h column value). \<exists>token \<in> tokens_of (Tokens h) column.
                occurs_at (to_lower value) token (fst m) \<and> snd m = fst m + length token) \<and>
           (\<forall>token p. token \<in> tokens_of (Tokens h) column \<longrightarrow> occurs_at (to_lower value) token p \<longrightarrow>
                (\<exists>m \<in> set (find_matches h column value). fst m < p + length token \<and> p < snd m))"
proof (intro exI conjI)
  let ?ms = "merged h column value"
  show "HighlightValue h column value =
      Some (map (\<lambda>m. pre @ take (snd m - fst m) (drop (fst m) value) @ post) ?ms)"
    by (rule HighlightValue_merged [OF assms])
  show "sorted_wrt (\<lambda>a b. snd a < fst b) ?ms" using merged_props(1) by (simp add: separated_def)
  show "\<forall>m \<in> set ?ms. fst m < snd m \<and> snd m \<le> length value" using merged_bound by blast
  show "\<forall>i. (\<exists>m \<in> set ?ms. fst m \<le> i \<and> i < snd m) \<longleftrightarrow>
      (\<exists>m \<in> set (find_matches h column value). fst m \<le> i \<and> i < snd m)"
    by (simp only: position_covered merged_props(2) simp_thms)
  show "\<forall>m \<in> set (find_matches h column value). \<exists>token \<in> tokens_of (Tokens h) column.
      occurs_at (to_lower value) token (fst m) \<and> snd m = fst m + length token"
    using find_matches_sound by blast
  show "\<forall>token p. token \<in> tokens_of (Tokens h) column \<longrightarrow> occurs_at (to_lower value) token p \<longrightarrow>
      (\<exists>m \<in> set (find_matches h column value). fst m < p + length token \<and> p < snd m)"
    by (cases "Tokens h column")
      (auto simp: find_matches_def GetSortedTokens_def tokens_of_def dest!: token_matches_complete [where pos = 0])
qed

theorem highlights_exact_witness:
  "\<exists>ms. HighlightValue (sample_highlighter [''fire'', ''refo''] [''<''] [''>'']) ''msg'' ''A Firefox'' =
     Some (map (\<lambda>m. ''<'' @ take (snd m - fst m) (drop (fst m) ''A Firefox'') @ ''>'') ms)"
  using highlights_exact [of "sample_highlighter [''fire'', ''refo''] [''<''] [''>'']" "''<''" "[]" "''>''" "[]"]
  by (fastforce simp: sample_highlighter_def)

text \<open>
  Highlighting is deterministic, as the comment of \<open>GetSortedTokens\<close> promises: two token
  maps with the same tokens, whatever order Go iterates over them in, give the same highlights.
\<close>
lemma highlights_deterministic:
  assumes "Tokens h column = Some ts" and "Tokens h' column = Some ts'" and "set ts = set ts'"
    and "PreTags h' = PreTags h" and "PostTags h' = PostTags h"
  shows "HighlightValue h' column value = HighlightValue h column value"
proof -
  have eq: "set (find_matches h' column value) = set (find_matches h column value)"
    using assms(1-3) by (simp add: find_matches_def GetSortedTokens_def)
  have "merged h' column value = merged h column value" by (rule merged_cong [OF eq])
  moreover have "find_matches h' column value = [] \<longleftrightarrow> find_matches h column value = []"
    using eq by (metis set_empty)
  moreover have "highlight_one h' value = highlight_one h value"
    by (rule ext) (simp add: highlight_one_def assms(4,5))
  ultimately show ?thesis by (simp add: HighlightValue_def assms(4,5) merged_def)
qed

lemma highlights_deterministic_example:
  "HighlightValue (sample_highlighter [''fox'', ''fir''] [''<''] [''>'']) ''msg'' ''Firefox'' =
   HighlightValue (sample_highlighter [''fir'', ''fox''] [''<''] [''>'']) ''msg'' ''Firefox''"
  by (rule highlights_deterministic [where ts = "[''fir'', ''fox'']" and ts' = "[''fox'', ''fir'']"])
    (auto simp: sample_highlighter_def)

text \<open>
  The check for empty tags is too weak: it returns early only if both lists are empty, so a
  request that sets just one of them makes every value with a match panic.
\<close>
lemma one_empty_tag_panics:
  assumes "(PreTags h = []) \<noteq> (PostTags h = [])" and "find_matches h column value \<noteq> []"
  shows "HighlightValue h column value = None"
proof -
  have ne: "merged h column value \<noteq> []"
    using assms(2) find_matches_proper [of h column] unfolding merged_def
    by (metis list_all_iff merge_matches_Nil set_empty set_sort sorted_sort_key)
  then obtain m rest where m: "merged h column value = m # rest" by (cases "merged h column value") auto
  have "highlight_one h value m = None"
    using assms(1) by (auto simp: highlight_one_def split: list.splits)
  then show ?thesis
    using assms m by (auto simp: HighlightValue_def merged_def Let_def)
qed

lemma one_empty_tag_panics_example:
  "HighlightValue (sample_highlighter [''fox''] [''<''] []) ''msg'' ''Firefox'' = None"
proof (rule one_empty_tag_panics)
  have "occurs_at (to_lower ''Firefox'') ''fox'' 4" by code_simp
  then obtain m where "m \<in> set (token_matches (to_lower ''Firefox'') ''fox'' 0)"
    using token_matches_complete [of _ _ 4 0] by blast
  then show "find_matches (sample_highlighter [''fox''] [''<''] []) ''msg'' ''Firefox'' \<noteq> []"
    by (auto simp: find_matches_def GetSortedTokens_def sample_highlighter_def)
qed (simp add: sample_highlighter_def)

end
