(* ===== verification/Query_Request.thy ===== *)
theory Query_Request
  imports Query_Semantics Highlight
begin

text \<open>
  Whole search requests, \<open>query_parser.go\<close>, \<open>query_translator.go\<close> and \<open>query_util.go\<close> of
  \<open>quesma/parsers/elastic_query_dsl\<close>: query, sort, size, highlighting and counting of hits, and the
  SELECTs that list and count them; the same for autocompletion, \<open>quesma/functionality/terms_enum\<close>.
  Aggregations and scripts of runtime mappings are left out.
\<close>

section \<open>Sorting\<close>

datatype sort_error = UnexpectedOrder string

definition NewSortColumn :: "string \<Rightarrow> order_by_direction \<Rightarrow> order_by_expr" where
  "NewSortColumn field direction = OrderByExpr (column_named field) direction"

definition createSortColumn :: "string \<Rightarrow> string \<Rightarrow> sort_error + order_by_expr" where
  "createSortColumn fieldName order =
     (if to_lower order = ''asc'' then Inr (NewSortColumn fieldName AscOrder)
      else if to_lower order = ''desc'' then Inr (NewSortColumn fieldName DescOrder)
      else Inl (UnexpectedOrder (to_lower order)))"

definition sort_columns_of :: "sort_error + order_by_expr \<Rightarrow> order_by_expr list" where
  "sort_columns_of r = (case r of Inl _ \<Rightarrow> [] | Inr c \<Rightarrow> [c])"

text \<open>Fields of Elasticsearch itself are skipped unless the table has them.\<close>

definition internal_field :: "translator \<Rightarrow> string \<Rightarrow> bool" where
  "internal_field tr k \<longleftrightarrow>
     has_prefix k ''_'' \<and> GetFieldInfo (tr_Table tr) (resolve_name (tr_Schema tr) k) = NotExists"

definition sort_entry :: "translator \<Rightarrow> string \<times> json \<Rightarrow> order_by_expr list" where
  "sort_entry tr p =
     (let k = fst p; fieldName = resolve_name (tr_Schema tr) k
      in if internal_field tr k then []
         else (case snd p of
                 JObject m \<Rightarrow>
                   (case map_of m ''order'' of
                      Some (JString order) \<Rightarrow> sort_columns_of (createSortColumn fieldName order)
                    | Some _ \<Rightarrow> []
                    | None \<Rightarrow> [NewSortColumn fieldName AscOrder])
               | JString order \<Rightarrow> sort_columns_of (createSortColumn fieldName order)
               | _ \<Rightarrow> []))"

text \<open>Directly under a map the field is not resolved.\<close>

definition sort_map_entry :: "translator \<Rightarrow> string \<times> json \<Rightarrow> order_by_expr list" where
  "sort_map_entry tr p =
     (if internal_field tr (fst p) then []
      else (case snd p of
              JString order \<Rightarrow> sort_columns_of (createSortColumn (fst p) order)
            | _ \<Rightarrow> []))"

definition parseSortFields :: "translator \<Rightarrow> json \<Rightarrow> order_by_expr list" where
  "parseSortFields tr sortMaps =
     (case sortMaps of
        JArray xs \<Rightarrow>
          concat (map (\<lambda>x. case x of JObject m \<Rightarrow> concat (map (sort_entry tr) m) | _ \<Rightarrow> []) xs)
      | JObject m \<Rightarrow> concat (map (sort_map_entry tr) m)
      | _ \<Rightarrow> [])"

section \<open>Sizes and hits\<close>

definition parseSize :: "json_map \<Rightarrow> int \<Rightarrow> int" where
  "parseSize queryMap defaultSize =
     (case map_of queryMap ''size'' of
        None \<Rightarrow> defaultSize
      | Some (JNumber f) \<Rightarrow> int64_of_float f
      | Some (JString s) \<Rightarrow> (case ParseInt64 s of Some n \<Rightarrow> n | None \<Rightarrow> defaultSize)
      | Some _ \<Rightarrow> defaultSize)"

definition defaultQueryResultSize :: int where "defaultQueryResultSize = 10"
definition defaultTrackTotalHits :: int where "defaultTrackTotalHits = 10000"
definition DefaultSizeListQuery :: int where "DefaultSizeListQuery = 10"
definition TrackTotalHitsTrue :: int where "TrackTotalHitsTrue = -1"
definition TrackTotalHitsFalse :: int where "TrackTotalHitsFalse = -2"

datatype hits_info = ListByField | ListAllFields | NormalHits

record hits_count_info =
  hits_Type :: hits_info
  RequestedFields :: "string list"
  Size :: int
  TrackTotalHits :: int
  hits_SearchAfter :: search_after

definition NewEmptyHitsCountInfo :: hits_count_info where
  "NewEmptyHitsCountInfo =
     \<lparr>hits_Type = NormalHits, RequestedFields = [], Size = 0, TrackTotalHits = 0, hits_SearchAfter = SearchAfterEmpty\<rparr>"

definition list_hits :: "hits_info \<Rightarrow> string list \<Rightarrow> int \<Rightarrow> hits_count_info" where
  "list_hits t names n = NewEmptyHitsCountInfo\<lparr>hits_Type := t, RequestedFields := names, Size := n\<rparr>"

text \<open>The name of the only requested field: a text, or a map with a text under \<open>field\<close>.\<close>

definition requested_field :: "json \<Rightarrow> string option" where
  "requested_field v =
     (case v of
        JString s \<Rightarrow> Some s
      | JObject m \<Rightarrow> Option.bind (map_of m ''field'') as_JString
      | _ \<Rightarrow> None)"

text \<open>\<open>None\<close> stands for a request that lists nothing.\<close>

definition isItListRequest :: "translator \<Rightarrow> json_map \<Rightarrow> hits_count_info option" where
  "isItListRequest tr queryMap =
     (let n = parseSize queryMap DefaultSizeListQuery;
          everything = Some (list_hits ListAllFields [''*''] n)
      in if n = 0 then None
         else (case map_of queryMap ''fields'' of
                 Some (JArray xs) \<Rightarrow>
                   if length xs > 1 then (if list_all (\<lambda>x. as_JObject x \<noteq> None) xs then everything else None)
                   else (case xs of
                           [] \<Rightarrow> None
                         | x # _ \<Rightarrow>
                             (case requested_field x of
                                None \<Rightarrow> None
                              | Some fieldName \<Rightarrow>
                                  (let resolvedField = resolve_name (tr_Schema tr) fieldName
                                   in if resolvedField = ''*'' then everything
                                      else Some (list_hits ListByField [resolvedField] n))))
               | _ \<Rightarrow> everything))"

definition parseMetadata :: "json_map \<Rightarrow> json_map" where
  "parseMetadata queryMap =
     filter (\<lambda>(k, v). k \<notin> set [''query'', ''bool'', ''query_string'', ''index_filter'', ''search_after'']) queryMap"

definition tryProcessSearchMetadata :: "translator \<Rightarrow> json_map \<Rightarrow> hits_count_info" where
  "tryProcessSearchMetadata tr queryMap =
     (case isItListRequest tr (parseMetadata queryMap) of Some info \<Rightarrow> info | None \<Rightarrow> NewEmptyHitsCountInfo)"

definition track_total_hits :: "json_map \<Rightarrow> int" where
  "track_total_hits queryMap =
     (case map_of queryMap ''track_total_hits'' of
        Some (JBool b) \<Rightarrow> if b then TrackTotalHitsTrue else TrackTotalHitsFalse
      | Some (JNumber f) \<Rightarrow> int64_of_float f
      | _ \<Rightarrow> defaultTrackTotalHits)"

text \<open>The value of \<open>search_after\<close> as the search-after pass sees it.\<close>

definition search_value_of :: "json \<Rightarrow> search_value" where
  "search_value_of v =
     (case v of
        JNumber f \<Rightarrow> SearchFloat f
      | JString s \<Rightarrow> SearchValue (VString s)
      | JBool b \<Rightarrow> SearchValue (VBool b)
      | JNull \<Rightarrow> SearchValue VNil
      | _ \<Rightarrow> SearchValue (VOther (print_json v)))"

definition search_after_of :: "json option \<Rightarrow> search_after" where
  "search_after_of v =
     (case v of
        None \<Rightarrow> SearchAfterEmpty
      | Some JNull \<Rightarrow> SearchAfterEmpty
      | Some (JArray xs) \<Rightarrow> SearchAfterArray (map search_value_of xs)
      | Some _ \<Rightarrow> SearchAfterOther)"

section \<open>Highlighting\<close>

definition NewEmptyHighlighter :: highlighter where
  "NewEmptyHighlighter = \<lparr>Tokens = Map.empty, PreTags = [], PostTags = []\<rparr>"

text \<open>Tags that are no array panic; elements that are no texts are skipped.\<close>

definition parse_tags :: "json_map \<Rightarrow> string \<Rightarrow> string list option" where
  "parse_tags highlight key =
     (case map_of highlight key of
        None \<Rightarrow> Some []
      | Some v \<Rightarrow> map_option (List.map_filter as_JString) (as_JArray v))"

definition ParseHighlighter :: "json_map \<Rightarrow> highlighter option" where
  "ParseHighlighter queryMap =
     (case map_of queryMap ''highlight'' of
        Some (JObject highlight) \<Rightarrow>
          do { pre \<leftarrow> parse_tags highlight ''pre_tags''; post \<leftarrow> parse_tags highlight ''post_tags'';
               Some \<lparr>Tokens = Map.empty, PreTags = pre, PostTags = post\<rparr> }
      | _ \<Rightarrow> Some NewEmptyHighlighter)"

section \<open>The request\<close>

definition parseQueryInternal ::
  "translator \<Rightarrow> json_map \<Rightarrow> (simple_query \<times> hits_count_info \<times> highlighter) option" where
  "parseQueryInternal tr body =
     do { highlighter \<leftarrow> ParseHighlighter body;
          parsedQuery \<leftarrow>
            (case map_of body ''query'' of
               None \<Rightarrow> Some (NewSimpleQuery NilExpr True)
             | Some v \<Rightarrow> Option.bind (as_JObject v) (parseQueryMap tr));
          let parsedQuery =
            (case map_of body ''sort'' of
               None \<Rightarrow> parsedQuery
             | Some sortPart \<Rightarrow> parsedQuery\<lparr>sq_OrderBy := parseSortFields tr sortPart\<rparr>);
          Some (parsedQuery,
            (tryProcessSearchMetadata tr body)\<lparr>
               Size := parseSize body defaultQueryResultSize,
               TrackTotalHits := track_total_hits body,
               hits_SearchAfter := search_after_of (map_of body ''search_after'')\<rparr>,
            highlighter) }"

definition applySizeLimit :: "int \<Rightarrow> int" where
  "applySizeLimit n = min n 10000"

text \<open>A query without hints, type and table; the caller adds what is missing.\<close>

definition plain_query :: "select_command \<Rightarrow> search_after \<Rightarrow> search_after schema_query" where
  "plain_query selectCommand searchAfter =
     \<lparr>q_SelectCommand = selectCommand, q_OptimizeHints = None, q_TableName = [], q_Hits = None, q_Indexes = [],
      q_Schema = NewSchema [] False [], q_SearchAfter = searchAfter, q_RuntimeMappings = None, q_SchemaTransformers = []\<rparr>"

definition BuildHitsQuery ::
  "string \<Rightarrow> string list \<Rightarrow> simple_query \<Rightarrow> int \<Rightarrow> search_after \<Rightarrow> search_after schema_query" where
  "BuildHitsQuery tableName fieldNames q limit searchAfter =
     plain_query
       (NewSelectCommand
          (map (\<lambda>f. if f = ''*'' then LiteralExpr NewWildcardExpr else column_named f) fieldNames) []
          (sq_OrderBy q) (TableRef (NewTableRef tableName)) (sq_WhereClause q) [] (applySizeLimit limit) 0 False [])
       searchAfter"

definition BuildNRowsQuery :: "string list \<Rightarrow> simple_query \<Rightarrow> hits_count_info \<Rightarrow> search_after schema_query" where
  "BuildNRowsQuery fieldNames q info =
     BuildHitsQuery SingleTableNamePlaceHolder fieldNames q (Size info) (hits_SearchAfter info)"

definition BuildCountQuery :: "expr \<Rightarrow> int \<Rightarrow> search_after schema_query" where
  "BuildCountQuery whereClause sampleLimit =
     plain_query (NewSelectCommand [NewCountFunc []] [] [] (TableRef (NewTableRef SingleTableNamePlaceHolder))
       whereClause [] 0 sampleLimit False []) SearchAfterEmpty"

definition buildCountQueryIfNeeded :: "simple_query \<Rightarrow> hits_count_info \<Rightarrow> search_after schema_query option" where
  "buildCountQueryIfNeeded q info =
     (if TrackTotalHits info = TrackTotalHitsFalse then None
      else if TrackTotalHits info = TrackTotalHitsTrue then Some (BuildCountQuery (sq_WhereClause q) 0)
      else if TrackTotalHits info > Size info then Some (BuildCountQuery (sq_WhereClause q) (TrackTotalHits info))
      else None)"

text \<open>The tokens of the WHERE clause go to the highlighter; the outer option is a panic.\<close>

definition buildListQueryIfNeeded ::
  "simple_query \<Rightarrow> hits_count_info \<Rightarrow> highlighter \<Rightarrow> (search_after schema_query \<times> highlighter) option option" where
  "buildListQueryIfNeeded q info h =
     (let build = (\<lambda>fieldNames.
        (let fullQuery = BuildNRowsQuery fieldNames q info
         in map_option (\<lambda>h'. Some (fullQuery\<lparr>q_Hits := Some []\<rparr>, h'))
              (SetTokensToHighlight h (q_SelectCommand fullQuery))))
      in case hits_Type info of
           ListByField \<Rightarrow> build (RequestedFields info)
         | ListAllFields \<Rightarrow> build [''*'']
         | NormalHits \<Rightarrow> Some None)"

section \<open>Autocompletion\<close>

definition ParseAutocomplete :: "translator \<Rightarrow> json_map option \<Rightarrow> string \<Rightarrow> string option \<Rightarrow> bool \<Rightarrow> simple_query option" where
  "ParseAutocomplete tr indexFilter fieldName pre caseIns =
     do { (stmts, canParse) \<leftarrow>
            (case indexFilter of
               None \<Rightarrow> Some ([], True)
             | Some q \<Rightarrow> map_option (\<lambda>res. ([sq_WhereClause res], CanParse res)) (parseQueryMap tr q));
          let like =
            (case pre of
               Some p \<Rightarrow>
                 if length p > 0
                 then [InfixExpr (column_named (resolve_name (tr_Schema tr) fieldName)) (if caseIns then ''iLIKE'' else ''LIKE'')
                         (literal (SingleQuote (p @ ''%'')))]
                 else []
             | None \<Rightarrow> []);
          Some (NewSimpleQuery (And (stmts @ like)) canParse) }"

definition buildAutocompleteQuery :: "string \<Rightarrow> string \<Rightarrow> expr \<Rightarrow> int \<Rightarrow> search_after schema_query" where
  "buildAutocompleteQuery fieldName tableName whereClause limit =
     plain_query (NewSelectCommand [column_named fieldName] [] [] (TableRef (NewTableRef tableName)) whereClause []
       limit 0 True []) SearchAfterEmpty"

text \<open>The request of \<open>handleTermsEnumRequest\<close>: \<open>Some None\<close> is the empty response.  A size is what \<open>Atoi\<close> returns beside its error.\<close>

definition terms_size :: "json_map \<Rightarrow> int" where
  "terms_size body =
     (case map_of body ''size'' of
        Some (JNumber f) \<Rightarrow> int64_of_float f
      | Some (JString s) \<Rightarrow> Atoi s
      | _ \<Rightarrow> 10)"

definition terms_enum_query :: "translator \<Rightarrow> json_map \<Rightarrow> search_after schema_query option option" where
  "terms_enum_query tr body =
     (case map_of body ''field'' of
        Some (JString field) \<Rightarrow>
          (let field = resolve_name (tr_Schema tr) field;
               caseInsensitive = (map_of body ''case_insensitive'' = Some (JBool True))
           in map_option (\<lambda>sq. Some (buildAutocompleteQuery field (click_Name (tr_Table tr)) (sq_WhereClause sq) (terms_size body)))
                (ParseAutocomplete tr (Option.bind (map_of body ''index_filter'') as_JObject) field
                   (Option.bind (map_of body ''string'') as_JString) caseInsensitive))
      | _ \<Rightarrow> Some None)"

section \<open>What a request lists and counts\<close>

lemma map_of_metadata:
  "k \<notin> set [''query'', ''bool'', ''query_string'', ''index_filter'', ''search_after''] \<Longrightarrow>
   map_of (parseMetadata body) k = map_of body k"
  by (induction body) (auto simp: parseMetadata_def)

lemma parseSize_metadata: "parseSize (parseMetadata body) n = parseSize body n"
  by (simp add: parseSize_def map_of_metadata)

lemma isItListRequest_props:
  assumes "isItListRequest tr q = Some info"
  shows "parseSize q 10 \<noteq> 0" and "hits_Type info \<noteq> NormalHits"
    and "hits_Type info = ListByField \<Longrightarrow> \<exists>c. RequestedFields info = [c] \<and> c \<noteq> ''*''"
  using assms
  by (auto simp: isItListRequest_def Let_def DefaultSizeListQuery_def list_hits_def
      split: if_splits option.splits json.splits list.splits)

lemma tryProcessSearchMetadata_props:
  assumes "hits_Type (tryProcessSearchMetadata tr body) \<noteq> NormalHits"
  shows "parseSize body 10 \<noteq> 0"
    and "hits_Type (tryProcessSearchMetadata tr body) = ListByField \<Longrightarrow>
      \<exists>c. RequestedFields (tryProcessSearchMetadata tr body) = [c] \<and> c \<noteq> ''*''"
  using assms isItListRequest_props [of tr "parseMetadata body"]
  by (auto simp: tryProcessSearchMetadata_def NewEmptyHitsCountInfo_def parseSize_metadata split: option.splits)

text \<open>
  C35: The hits of a request are limited.  If a request lists hits, the SELECT asks for as many rows
  as the request or ten by default, at most 10000 and not zero, which would mean no limit; it has the
  condition and the order of the request, and either all columns or the one requested field.
\<close>

theorem listed_hits_are_limited:
  assumes "parseQueryInternal tr body = Some (sq, info, h)"
    and "buildListQueryIfNeeded sq info h = Some (Some (q, h'))"
  shows "Limit (q_SelectCommand q) = min (parseSize body 10) 10000 \<and> Limit (q_SelectCommand q) \<noteq> 0
    \<and> WhereClause (q_SelectCommand q) = sq_WhereClause sq \<and> OrderBy (q_SelectCommand q) = sq_OrderBy sq
    \<and> (Columns (q_SelectCommand q) = [LiteralExpr NewWildcardExpr] \<or>
       (\<exists>c. RequestedFields info = [c] \<and> Columns (q_SelectCommand q) = [column_named c]))"
proof -
  have info: "hits_Type info = hits_Type (tryProcessSearchMetadata tr body)" "Size info = parseSize body 10"
      "RequestedFields info = RequestedFields (tryProcessSearchMetadata tr body)"
    using assms(1)
    by (auto simp: parseQueryInternal_def bind_eq_Some_conv Let_def defaultQueryResultSize_def split: option.splits)
  have listed: "hits_Type info \<noteq> NormalHits"
    using assms(2) by (auto simp: buildListQueryIfNeeded_def Let_def)
  have "q_SelectCommand q = q_SelectCommand
      (BuildNRowsQuery (if hits_Type info = ListByField then RequestedFields info else [''*'']) sq info)"
    using assms(2) by (auto simp: buildListQueryIfNeeded_def Let_def split: hits_info.splits)
  then show ?thesis
    using listed info tryProcessSearchMetadata_props [of tr body]
    by (auto simp: BuildNRowsQuery_def BuildHitsQuery_def plain_query_def NewSelectCommand_def applySizeLimit_def)
qed

definition sample_request :: json_map where
  "sample_request =
     [(''query'', JObject sample_bool), (''size'', JString ''20000''),
      (''sort'', JArray [JObject [(''size'', JObject [(''order'', JString ''DESC'')])]])]"

theorem listed_hits_are_limited_witness:
  "\<exists>sq info h q h'. parseQueryInternal sample_translator sample_request = Some (sq, info, h)
    \<and> buildListQueryIfNeeded sq info h = Some (Some (q, h')) \<and> Limit (q_SelectCommand q) = 10000"
proof -
  have "\<not> Option.is_none (Option.bind (parseQueryInternal sample_translator sample_request)
      (\<lambda>(sq, info, h). Option.bind (buildListQueryIfNeeded sq info h) id))"
    by code_simp
  then obtain sq info h q h' where "parseQueryInternal sample_translator sample_request = Some (sq, info, h)"
      "buildListQueryIfNeeded sq info h = Some (Some (q, h'))"
    by (auto simp: Option.is_none_def bind_eq_Some_conv)
  moreover have "parseSize sample_request 10 = 20000" by code_simp
  moreover have "Limit (q_SelectCommand q) = min (parseSize sample_request 10) 10000"
    using listed_hits_are_limited [OF calculation(1,2)] by blast
  ultimately show ?thesis by auto
qed

end
