(* ===== verification/Click_Parser.thy ===== *)
theory Click_Parser
  imports Click_Types "HOL-Library.AList"
begin

text \<open>
  The parser of CREATE TABLE statements, \<open>parserCreateTable.go\<close> of \<open>quesma/clickhouse\<close>, which
  \<open>quesma/ingest\<close> has a copy of.  Positions are integers and -1 means that nothing was found; reading
  at a position outside the text panics.
\<close>

section \<open>Tokens\<close>

definition char_at :: "string \<Rightarrow> int \<Rightarrow> char option" where
  "char_at q i = (if 0 \<le> i \<and> i < int (length q) then Some (q ! nat i) else None)"

text \<open>The slice \<open>q[i:j]\<close>.\<close>

definition slice_of :: "string \<Rightarrow> int \<Rightarrow> int \<Rightarrow> string option" where
  "slice_of q i j =
     (if 0 \<le> i \<and> i \<le> j \<and> j \<le> int (length q) then Some (take (nat (j - i)) (drop (nat i) q)) else None)"

text \<open>\<open>unicode.IsSpace\<close> of a single byte, also the bytes of NEL and of the no-break space.\<close>

definition byte_space :: "char \<Rightarrow> bool" where
  "byte_space c \<longleftrightarrow>
     (let n = (of_char c :: nat) in 9 \<le> n \<and> n \<le> 13 \<or> n = 32 \<or> n = 0x85 \<or> n = 0xA0)"

text \<open>The first position from \<open>i\<close> on whose character does not meet \<open>p\<close>, or the length of the text.\<close>

function skip_while :: "(char \<Rightarrow> bool) \<Rightarrow> string \<Rightarrow> int \<Rightarrow> int option" where
  "skip_while p q i =
     (if int (length q) \<le> i then Some i
      else do { c \<leftarrow> char_at q i; if p c then skip_while p q (i + 1) else Some i })"
  by auto
termination by (relation "measure (\<lambda>(p, q, i). nat (int (length q) - i))") auto

declare skip_while.simps [simp del]

definition omitWhitespace :: "string \<Rightarrow> int \<Rightarrow> int option" where
  "omitWhitespace q i =
     map_option (\<lambda>j. if int (length q) \<le> j then -1 else j) (skip_while byte_space q i)"

definition parseExact :: "string \<Rightarrow> int \<Rightarrow> string \<Rightarrow> int option" where
  "parseExact q i s =
     do { i \<leftarrow> omitWhitespace q i;
          let j = i + int (length s);
          if int (length q) < j then Some (-1)
          else do { t \<leftarrow> slice_of q i j; Some (if t = s then j else -1) } }"

definition parseMaybeAndForget :: "string \<Rightarrow> int \<Rightarrow> string \<Rightarrow> (int \<times> bool) option" where
  "parseMaybeAndForget q i s =
     do { i \<leftarrow> omitWhitespace q i;
          let j = i + int (length s);
          if int (length q) < j then Some (i, False)
          else do { t \<leftarrow> slice_of q i j; Some (if t = s then (j, True) else (i, False)) } }"

fun parseMaybeAndForgetMultiple :: "string \<Rightarrow> int \<Rightarrow> string list \<Rightarrow> (int \<times> bool) option" where
  "parseMaybeAndForgetMultiple q i [] = Some (i, False)"
| "parseMaybeAndForgetMultiple q i (s # ss) =
     do { (i2, ok) \<leftarrow> parseMaybeAndForget q i s;
          if ok then Some (i2, True) else parseMaybeAndForgetMultiple q i ss }"

declare parseMaybeAndForgetMultiple.simps [simp del]

definition isGoodIdentChar :: "char \<Rightarrow> bool" where
  "isGoodIdentChar c \<longleftrightarrow>
     \<not> byte_space c \<and> c \<noteq> CHR '')'' \<and> c \<noteq> CHR 0x22 \<and> c \<noteq> CHR 0x60 \<and> c \<noteq> CHR '','' \<and> c \<noteq> CHR ''(''"

definition parseIdent :: "string \<Rightarrow> int \<Rightarrow> (int \<times> string) option" where
  "parseIdent q i =
     do { i \<leftarrow> omitWhitespace q i;
          if int (length q) \<le> i then Some (-1, [])
          else do { c \<leftarrow> char_at q i;
                    if \<not> isGoodIdentChar c then Some (-1, [])
                    else do { j \<leftarrow> skip_while isGoodIdentChar q (i + 1);
                              name \<leftarrow> slice_of q i j;
                              Some (j, name) } } }"

text \<open>The loop of \<open>parseIdentWithBrackets\<close>: \<open>b\<close> is where the name starts, \<open>e\<close> the last opening bracket.\<close>

function brackets_loop :: "string \<Rightarrow> int \<Rightarrow> int \<Rightarrow> int \<Rightarrow> int \<Rightarrow> (int \<times> string) option" where
  "brackets_loop q b e n i =
     (if int (length q) \<le> i then Some (-1, [])
      else do { c \<leftarrow> char_at q i;
                let e' = (if c = CHR ''('' then i else e);
                let n' = (if c = CHR ''('' then n + 1 else if c = CHR '')'' then n - 1 else n);
                if n' = 0 \<and> (c = CHR '' '' \<or> c = CHR '','' \<or> c = CHR '')'')
                then do { name \<leftarrow> slice_of q b e'; Some (i + 1, name) }
                else brackets_loop q b e' n' (i + 1) })"
  by auto
termination by (relation "measure (\<lambda>(q, b, e, n, i). nat (int (length q) - i))") auto

declare brackets_loop.simps [simp del]

definition parseIdentWithBrackets :: "string \<Rightarrow> int \<Rightarrow> (int \<times> string) option" where
  "parseIdentWithBrackets q i =
     do { i \<leftarrow> omitWhitespace q i;
          if int (length q) \<le> i then Some (-1, []) else brackets_loop q i i 0 i }"

section \<open>Progress\<close>

lemma char_at_Some: "char_at q i = Some c \<Longrightarrow> 0 \<le> i \<and> i < int (length q)"
  by (simp add: char_at_def split: if_splits)

lemma skip_while_ge: "skip_while p q i = Some j \<Longrightarrow> 0 \<le> i \<and> i \<le> j"
proof (induction p q i arbitrary: j rule: skip_while.induct)
  case (1 p q i)
  show ?case
  proof (cases "int (length q) \<le> i")
    case True
    then show ?thesis using 1 by (simp add: skip_while.simps [of p q i])
  next
    case inside: False
    with 1 obtain c where c: "char_at q i = Some c"
      by (auto simp: skip_while.simps [of p q i] split: bind_splits)
    show ?thesis
    proof (cases "p c")
      case True
      then have "skip_while p q (i + 1) = Some j" using 1(2) inside c by (simp add: skip_while.simps [of p q i])
      then show ?thesis using 1(1) [OF inside c True] char_at_Some [OF c] by force
    next
      case False
      then show ?thesis using 1(2) c inside char_at_Some [OF c]
        by (simp add: skip_while.simps [of p q i])
    qed
  qed
qed

lemma omitWhitespace_progress:
  "omitWhitespace q i = Some j \<Longrightarrow> 0 \<le> i \<and> (j = -1 \<or> i \<le> j \<and> j < int (length q))"
  by (auto simp: omitWhitespace_def dest!: skip_while_ge split: if_splits)

lemma parseExact_progress:
  "parseExact q i s = Some j \<Longrightarrow> 0 \<le> i \<and> (j = -1 \<or> i + int (length s) \<le> j \<and> j \<le> int (length q))"
  by (auto simp: parseExact_def Let_def slice_of_def split: bind_splits if_splits
      dest!: omitWhitespace_progress)

lemma parseMaybe_progress:
  "parseMaybeAndForget q i s = Some (j, ok) \<Longrightarrow>
     0 \<le> i \<and> (ok \<longrightarrow> i + int (length s) \<le> j \<and> j \<le> int (length q)) \<and> (j = -1 \<or> i \<le> j)"
  by (auto simp: parseMaybeAndForget_def Let_def slice_of_def split: bind_splits if_splits
      dest!: omitWhitespace_progress)

lemma parseIdent_progress:
  "parseIdent q i = Some (j, name) \<Longrightarrow> 0 \<le> i \<and> (name = [] \<and> j = -1 \<or> i < j \<and> j \<le> int (length q))"
  by (auto simp: parseIdent_def slice_of_def split: bind_splits if_splits
      dest!: omitWhitespace_progress skip_while_ge)

section \<open>Types\<close>

definition set_nullable :: "click_type \<Rightarrow> click_type" where
  "set_nullable t = (case t of BaseType n g nul \<Rightarrow> BaseType n g True | _ \<Rightarrow> t)"

text \<open>
  The outer option is a panic; the inner one is \<open>None\<close> where the sources return -1 and nil.
\<close>

function parseNullable :: "string \<Rightarrow> int \<Rightarrow> (int \<times> click_type) option option"
  and parseType :: "string \<Rightarrow> int \<Rightarrow> (int \<times> click_type) option option"
  and parseCompoundType :: "string \<Rightarrow> int \<Rightarrow> (int \<times> click_type) option option"
  and tuple_columns :: "string \<Rightarrow> int \<Rightarrow> click_column list \<Rightarrow> (int \<times> click_column list) option option" where
  "parseNullable q i =
     do { i \<leftarrow> omitWhitespace q i;
          c \<leftarrow> char_at q i;
          (k, ok) \<leftarrow> (if c = CHR ''N'' then parseMaybeAndForget q i ''Nullable'' else Some (i, False));
          if \<not> ok then parseType q i
          else do { k \<leftarrow> parseExact q k ''('';
                    if k = -1 then Some None
                    else do { r \<leftarrow> parseType q k;
                              case r of
                                None \<Rightarrow> Some None
                              | Some (k, typ) \<Rightarrow>
                                  do { k \<leftarrow> parseExact q k '')'';
                                       Some (if k = -1 then None else Some (k, set_nullable typ)) } } } }"
| "parseType q i =
     do { (i2, name) \<leftarrow> parseIdent q i;
          if name = ''Array''
          then do { r \<leftarrow> parseCompoundType q i2;
                    Some (map_option (\<lambda>(k, typ). (k, CompoundType name typ)) r) }
          else if name = ''Tuple'' \<or> name = ''Nested''
          then do { k \<leftarrow> parseExact q i2 ''('';
                    if k = -1 then Some None
                    else do { r \<leftarrow> tuple_columns q k [];
                              Some (map_option (\<lambda>(k, cols). (k, MultiValueType name (map Some cols))) r) } }
          else do { k \<leftarrow> parseExact q i2 ''('';
                    if k \<noteq> -1
                    then do { (k, name) \<leftarrow> parseIdentWithBrackets q i;
                              Some (if k = -1 then None else Some (k, NewBaseType name)) }
                    else Some (Some (i2, NewBaseType name)) } }"
| "parseCompoundType q i =
     do { k \<leftarrow> parseExact q i ''('';
          if k = -1 then Some None
          else do { r \<leftarrow> parseNullable q k;
                    case r of
                      None \<Rightarrow> Some None
                    | Some (k, typ) \<Rightarrow>
                        do { k \<leftarrow> parseExact q k '')''; Some (if k = -1 then None else Some (k, typ)) } } }"
| "tuple_columns q i cols =
     do { i \<leftarrow> omitWhitespace q i;
          c \<leftarrow> char_at q i;
          let quoted = (c = CHR 0x22 \<or> c = CHR 0x60);
          (j, name) \<leftarrow> parseIdent q (if quoted then i + 1 else i);
          if j = -1 then Some None
          else do {
            closed \<leftarrow> (if quoted then map_option (\<lambda>d. d = c) (char_at q j) else Some True);
            if \<not> closed then Some None
            else do {
              j \<leftarrow> omitWhitespace q (if quoted then j + 1 else j);
              r \<leftarrow> parseNullable q j;
              case r of
                None \<Rightarrow> Some None
              | Some (k, typ) \<Rightarrow>
                  do { k \<leftarrow> omitWhitespace q k;
                       d \<leftarrow> char_at q k;
                       let cols = cols @ [Column name typ [] [] []];
                       if d = CHR '')'' then Some (Some (k + 1, cols))
                       else if d \<noteq> CHR '','' then Some None
                       else do { i \<leftarrow> omitWhitespace q (k + 1); tuple_columns q i cols } } } } }"
  by pat_completeness auto

lemma brackets_progress:
  "brackets_loop q b e n i = Some (k, name) \<Longrightarrow> k = -1 \<or> 0 \<le> i \<and> i < k"
proof (induction q b e n i rule: brackets_loop.induct)
  case (1 q b e n i)
  show ?case
  proof (cases "int (length q) \<le> i")
    case True
    then show ?thesis using 1(2) by (simp add: brackets_loop.simps [of q b e n i])
  next
    case inside: False
    with 1(2) obtain c where c: "char_at q i = Some c"
      by (auto simp: brackets_loop.simps [of q b e n i] bind_eq_Some_conv)
    show ?thesis
      using 1(2) 1(1) [OF inside c refl refl] inside c char_at_Some [OF c]
      by (subst (asm) brackets_loop.simps)
        (auto simp: Let_def bind_eq_Some_conv split: if_splits)
  qed
qed

lemma parseIdentWithBrackets_progress:
  "parseIdentWithBrackets q i = Some (k, name) \<Longrightarrow> k = -1 \<or> 0 \<le> i \<and> i < k"
  by (auto simp: parseIdentWithBrackets_def bind_eq_Some_conv split: if_splits
      dest!: omitWhitespace_progress brackets_progress)

text \<open>A parser that finds something is behind the position it started from.\<close>

definition advances :: "int \<Rightarrow> (int \<times> 'a) option option \<Rightarrow> bool" where
  "advances i r \<longleftrightarrow> (\<forall>k x. r = Some (Some (k, x)) \<longrightarrow> 0 \<le> i \<and> i < k)"

lemma advances_intros:
  "advances i None" "advances i (Some None)"
  "0 \<le> i \<Longrightarrow> i < k \<Longrightarrow> advances i (Some (Some (k, x)))"
  "(\<And>x. m = Some x \<Longrightarrow> advances i (f x)) \<Longrightarrow> advances i (Option.bind m f)"
  "(b \<Longrightarrow> advances i r) \<Longrightarrow> (\<not> b \<Longrightarrow> advances i r') \<Longrightarrow> advances i (if b then r else r')"
  "(r0 = None \<Longrightarrow> advances i r) \<Longrightarrow> (\<And>x. r0 = Some x \<Longrightarrow> advances i (g x)) \<Longrightarrow>
     advances i (case r0 of None \<Rightarrow> r | Some x \<Rightarrow> g x)"
  "(\<And>a b. p = (a, b) \<Longrightarrow> advances i (h a b)) \<Longrightarrow> advances i (case p of (a, b) \<Rightarrow> h a b)"
  "(b \<Longrightarrow> advances i (Some s)) \<Longrightarrow> (\<not> b \<Longrightarrow> advances i (Some s')) \<Longrightarrow> advances i (Some (if b then s else s'))"
  by (auto simp: advances_def bind_eq_Some_conv split: option.splits prod.splits)

lemma advances_from: "advances j r \<Longrightarrow> 0 \<le> i \<Longrightarrow> i \<le> j \<Longrightarrow> advances i r"
  by (auto simp: advances_def)

lemma advancesD: "advances j r \<Longrightarrow> r = Some (Some (k, x)) \<Longrightarrow> 0 \<le> j \<and> j < k"
  by (simp add: advances_def)

lemma advances_map:
  "advances i (Some r) \<Longrightarrow> advances i (Some (map_option (\<lambda>(k, x). (k, g x)) r))"
  by (auto simp: advances_def)

lemmas position_progress =
  omitWhitespace_progress parseExact_progress parseMaybe_progress parseIdent_progress
  parseIdentWithBrackets_progress char_at_Some

lemma parser_advances:
  shows "parseNullable_parseType_parseCompoundType_tuple_columns_dom (Inl (Inl (q, i))) \<Longrightarrow>
      advances i (parseNullable q i)"
    and "parseNullable_parseType_parseCompoundType_tuple_columns_dom (Inl (Inr (q, i))) \<Longrightarrow>
      advances i (parseType q i)"
    and "parseNullable_parseType_parseCompoundType_tuple_columns_dom (Inr (Inl (q, i))) \<Longrightarrow>
      advances i (parseCompoundType q i)"
    and "parseNullable_parseType_parseCompoundType_tuple_columns_dom (Inr (Inr (q, i, cols))) \<Longrightarrow>
      advances i (tuple_columns q i cols)"
proof (induction q i and q i and q i and q i cols
    rule: parseNullable_parseType_parseCompoundType_tuple_columns.pinduct)
  case (1 q i)
  let ?word = "\<lambda>a c. if c = CHR ''N'' then parseMaybeAndForget q a ''Nullable'' else Some (a, False)"
  have behind: "advances i (parseType q a)"
    if "omitWhitespace q i = Some a" "char_at q a = Some c" "?word a c = Some w" "w = (k, ok)" "\<not> ok" for a c w k ok
    using 1(2) [OF that(1,2,3) that(4) [symmetric] that(5)] that(1,2)
    by (auto dest!: position_progress intro: advances_from)
  have inner: "0 \<le> i \<and> i < k'"
    if "omitWhitespace q i = Some a" "char_at q a = Some c" "?word a c = Some w" "w = (k, ok)" "ok"
      "parseExact q k ''('' = Some j" "j \<noteq> -1" "parseType q j = Some r" "r = Some x" "x = (k', t)" for a c w k ok j r x k' t
    using advancesD [OF 1(3) [OF that(1,2,3) that(4) [symmetric] _ that(6,7)], of k' t] that
    by (auto dest!: position_progress split: if_splits)
  show ?case
    unfolding parseNullable.psimps [OF 1(1)] Let_def
    apply (intro advances_intros)
    subgoal by (rule behind)
    subgoal using omitWhitespace_progress by blast
    subgoal premises p for a c w k ok j r x k' t l
      using inner [OF p(1-4) _ p(6-10)] parseExact_progress [OF p(11)] p(5,12) by simp
    done
next
  case (2 q i)
  have array: "advances i (Some r)"
    if "parseIdent q i = Some w" "w = (j, name)" "name = ''Array''" "parseCompoundType q j = Some r" for w j name r
    using 2(2) [OF that(1) that(2) [symmetric] that(3)] that by (auto dest!: position_progress intro: advances_from)
  have tuple: "advances i (Some r)"
    if "parseIdent q i = Some w" "w = (j, name)" "name \<noteq> ''Array''" "name = ''Tuple'' \<or> name = ''Nested''"
      "parseExact q j ''('' = Some k" "k \<noteq> -1" "tuple_columns q k [] = Some r" for w j name k r
    using 2(3) [OF that(1) that(2) [symmetric] that(3-6)] that
    by (auto dest!: position_progress intro: advances_from)
  show ?case
    unfolding parseType.psimps [OF 2(1)] Let_def
    by (intro advances_intros advances_map)
      ((rule array, assumption+), (rule tuple, assumption+), (force dest!: position_progress)+)
next
  case (3 q i)
  have inner: "j < k'"
    if "parseExact q i ''('' = Some j" "j \<noteq> -1" "parseNullable q j = Some (Some (k', t))" for j k' t
    using advancesD [OF 3(2) [OF that(1,2)] that(3)] by simp
  show ?case
    unfolding parseCompoundType.psimps [OF 3(1)] Let_def
    apply (intro advances_intros)
    subgoal using parseExact_progress by blast
    subgoal premises p for j r x k t l
      using inner [of j k t] parseExact_progress [OF p(1)] parseExact_progress [OF p(6)] p by simp
    done
next
  case (4 q i cols)
  let ?q = "\<lambda>c. c = CHR 0x22 \<or> c = CHR 0x60"
  let ?closed = "\<lambda>c j. if ?q c then map_option (\<lambda>d. d = c) (char_at q j) else Some True"
  have column: "0 \<le> i \<and> i < k"
    if "omitWhitespace q i = Some a" "char_at q a = Some c" "parseIdent q (if ?q c then a + 1 else a) = Some w"
      "w = (j, name)" "j \<noteq> -1" "?closed c j = Some b" "b" "omitWhitespace q (if ?q c then j + 1 else j) = Some l"
      "parseNullable q l = Some r" "r = Some x" "x = (k, t)" for a c w j name b l r x k t
    using advancesD [OF 4(2) [OF that(1,2) refl that(3) that(4) [symmetric] that(5,6) _ that(8)], of k t] that
    by (auto dest!: position_progress split: if_splits)
  show ?case
    unfolding tuple_columns.psimps [OF 4(1)] Let_def
    apply (intro advances_intros)
    subgoal using omitWhitespace_progress by blast
    subgoal premises p for a c w j name b l r x k t m d
      using column [OF p(1-6) _ p(8-11)] p(7) omitWhitespace_progress [OF p(12)] char_at_Some [OF p(13)] by simp
    subgoal premises p for a c w j name b l r x k t m d e
      using 4(3) [OF p(1,2) refl p(3) p(4) [symmetric] p(5,6) _ p(8,9,10) p(11) [symmetric] p(12,13) refl p(14,15,16)] p(7)
        column [OF p(1-6) _ p(8-11)] omitWhitespace_progress [OF p(12)] char_at_Some [OF p(13)]
        omitWhitespace_progress [OF p(16)]
      by (auto simp: advances_def)
    done
qed

abbreviation position_left :: "string \<Rightarrow> int \<Rightarrow> nat" where
  "position_left q i \<equiv> (if i < 0 then 0 else Suc (nat (int (length q) - i)))"

lemma parser_total: "All parseNullable_parseType_parseCompoundType_tuple_columns_dom"
proof (rule "parseNullable_parseType_parseCompoundType_tuple_columns.termination" [of "measure (\<lambda>x. case x of
       Inl (Inl (q, i)) \<Rightarrow> 2 * position_left q i + 1 | Inl (Inr (q, i)) \<Rightarrow> 2 * position_left q i
     | Inr (Inl (q, i)) \<Rightarrow> 2 * position_left q i | Inr (Inr (q, i, _)) \<Rightarrow> 2 * position_left q i)"],
    goal_cases)
  case (8 q i cols a c quoted w j name b l r x k t m d cols' e)
  have "advances l (parseNullable q l)" using 8(19) by (rule parser_advances)
  moreover have "i < l \<or> l = -1" "0 \<le> i"
  proof -
    have "parseIdent q (if quoted then a + 1 else a) = Some (j, name)" using 8(4,5) by simp
    then show "i < l \<or> l = -1" "0 \<le> i"
      using omitWhitespace_progress [OF 8(1)] omitWhitespace_progress [OF 8(9)] char_at_Some [OF 8(2)] 8(6)
      by (auto dest!: parseIdent_progress split: if_splits)
  qed
  ultimately show ?case
    using omitWhitespace_progress [OF 8(13)] char_at_Some [OF 8(14)] omitWhitespace_progress [OF 8(18)] 8(10-12)
    by (auto dest!: advancesD)
qed (auto dest!: position_progress split: if_splits)

termination parseNullable
  by (rule parser_total)

declare parseNullable.simps [simp del] parseType.simps [simp del] parseCompoundType.simps [simp del]
  tuple_columns.simps [simp del]

lemma parse_progress:
  shows parseNullable_progress: "advances i (parseNullable q i)"
    and parseType_progress: "advances i (parseType q i)"
    and parseCompoundType_progress: "advances i (parseCompoundType q i)"
    and tuple_columns_progress: "advances i (tuple_columns q i cols)"
  by (rule parser_advances, rule parser_total [THEN spec])+

section \<open>Columns\<close>

text \<open>
  An expression ends before a comma, before a bracket that closes more than it opened, or before a
  keyword; leaving the text while white space is skipped panics.
\<close>

definition bracket_depth :: "int \<Rightarrow> char \<Rightarrow> int" where
  "bracket_depth n c = (if c = CHR ''('' then n + 1 else if c = CHR '')'' then n - 1 else n)"

definition expr_ends :: "string \<Rightarrow> int \<Rightarrow> int \<Rightarrow> char \<Rightarrow> bool option" where
  "expr_ends q n i c =
     (if n < 0 then Some True
      else if n \<noteq> 0 then Some False
      else if c = CHR '','' then Some True
      else do { (_, ok) \<leftarrow> parseMaybeAndForgetMultiple q i [''CODEC'', ''TTL'', ''COMMENT''];
                if ok then Some True
                else if c = CHR '')''
                then do { i2 \<leftarrow> omitWhitespace q (i + 1);
                          k \<leftarrow> parseExact q i2 ''ENGINE'';
                          Some (k \<noteq> -1) }
                else Some False })"

function expr_loop :: "string \<Rightarrow> int \<Rightarrow> int \<Rightarrow> int option" where
  "expr_loop q n i =
     (if int (length q) \<le> i then Some (-1)
      else do { c \<leftarrow> char_at q i;
                let n = bracket_depth n c;
                found \<leftarrow> expr_ends q n i c;
                if found then Some i
                else do { j \<leftarrow> omitWhitespace q (i + 1); expr_loop q n j } })"
  by pat_completeness auto
termination
  by (relation "measure (\<lambda>(q, n, i). position_left q i)")
    (auto dest!: position_progress split: if_splits)

declare expr_loop.simps [simp del]

definition parseExpr :: "string \<Rightarrow> int \<Rightarrow> int option" where
  "parseExpr q i = expr_loop q 0 i"

text \<open>Up to the bracket that closes the first; a codec at the end of the text is not accepted.\<close>

function codec_loop :: "string \<Rightarrow> int \<Rightarrow> int \<Rightarrow> int option" where
  "codec_loop q n i =
     (if int (length q) \<le> i \<or> n \<le> 0 then Some i
      else do { c \<leftarrow> char_at q i;
                codec_loop q (bracket_depth n c) (i + 1) })"
  by auto
termination by (relation "measure (\<lambda>(q, n, i). nat (int (length q) - i))") auto

declare codec_loop.simps [simp del]

definition parseCodec :: "string \<Rightarrow> int \<Rightarrow> (int \<times> string) option" where
  "parseCodec q b =
     do { i \<leftarrow> parseExact q b ''CODEC'';
          if i = -1 then Some (-1, [])
          else do { i \<leftarrow> omitWhitespace q i;
                    i \<leftarrow> parseExact q i ''('';
                    i \<leftarrow> codec_loop q 1 i;
                    if int (length q) \<le> i then Some (-1, [])
                    else do { name \<leftarrow> slice_of q b i; Some (i, name) } } }"

text \<open>A comment reaches to the next comma, wherever that is; without one the end of the text is read.\<close>

function comma_after :: "string \<Rightarrow> int \<Rightarrow> int option" where
  "comma_after q i = do { c \<leftarrow> char_at q (i + 1); if c = CHR '','' then Some (i + 1) else comma_after q (i + 1) }"
  by auto
termination by (relation "measure (\<lambda>(q, i). nat (int (length q) - i))") (auto dest: char_at_Some)

declare comma_after.simps [simp del]

text \<open>Whether the keyword \<open>w\<close> stands at \<open>i\<close> and something follows it.\<close>

definition keyword_at :: "string \<Rightarrow> int \<Rightarrow> string \<Rightarrow> bool option" where
  "keyword_at q i w =
     (if i + int (length w) < int (length q)
      then map_option (\<lambda>t. t = w) (slice_of q i (i + int (length w)))
      else Some False)"

text \<open>What may follow the type of a column: a default, a codec, a time to live and a comment.\<close>

definition parse_default :: "string \<Rightarrow> int \<Rightarrow> int option option" where
  "parse_default q i =
     do { i \<leftarrow> omitWhitespace q i;
          (i, _) \<leftarrow> parseMaybeAndForgetMultiple q i [''NULL'', ''NOT NULL''];
          i \<leftarrow> omitWhitespace q i;
          (i, ok) \<leftarrow> parseMaybeAndForgetMultiple q i [''DEFAULT'', ''MATERIALIZED'', ''EPHEMERAL'', ''ALIAS''];
          if \<not> ok then Some (Some i)
          else do { i \<leftarrow> omitWhitespace q i;
                    i \<leftarrow> parseExpr q i;
                    if i = -1 then Some None else map_option Some (omitWhitespace q i) } }"

definition parse_codec :: "string \<Rightarrow> int \<Rightarrow> (int \<times> string) option" where
  "parse_codec q i =
     do { codec \<leftarrow> keyword_at q i ''CODEC'';
          if \<not> codec then Some (i, [])
          else do { (i, c) \<leftarrow> parseCodec q i; i \<leftarrow> omitWhitespace q i; Some (i, c) } }"

definition parse_ttl :: "string \<Rightarrow> int \<Rightarrow> int option option" where
  "parse_ttl q i =
     do { ttl \<leftarrow> keyword_at q i ''TTL'';
          if \<not> ttl then Some (Some i)
          else do { i \<leftarrow> omitWhitespace q (i + 3);
                    i \<leftarrow> parseExpr q i;
                    if i = -1 then Some None else map_option Some (omitWhitespace q i) } }"

definition parse_comment :: "string \<Rightarrow> int \<Rightarrow> int option" where
  "parse_comment q i =
     do { comment \<leftarrow> keyword_at q i ''COMMENT''; if comment then comma_after q i else Some i }"

definition column_end :: "string \<Rightarrow> int \<Rightarrow> bool" where
  "column_end q i \<longleftrightarrow> (case char_at q i of Some c \<Rightarrow> c = CHR '','' \<or> c = CHR '')'' | None \<Rightarrow> False)"

text \<open>The comment is skipped, not stored.\<close>

definition parseColumn :: "string \<Rightarrow> int \<Rightarrow> (int \<times> click_column) option option" where
  "parseColumn q i =
     do { i \<leftarrow> omitWhitespace q i;
          i2 \<leftarrow> parseExact q i [CHR 0x22];
          (i2, closing) \<leftarrow> (if i2 \<noteq> -1 then Some (i2, [CHR 0x22])
                           else do { i2 \<leftarrow> parseExact q i [CHR 0x60]; Some (i2, [CHR 0x60]) });
          if i2 = -1 then Some None
          else do {
            (i, name) \<leftarrow> parseIdent q i2;
            if i = -1 then Some None
            else do {
              i \<leftarrow> parseExact q i closing;
              if i = -1 then Some None
              else do {
                r \<leftarrow> parseNullable q i;
                case r of
                  None \<Rightarrow> Some None
                | Some (i, t) \<Rightarrow>
                    do { after \<leftarrow> parse_default q i;
                         case after of
                           None \<Rightarrow> Some None
                         | Some i \<Rightarrow>
                             do { (i, codec) \<leftarrow> parse_codec q i;
                                  after \<leftarrow> parse_ttl q i;
                                  case after of
                                    None \<Rightarrow> Some None
                                  | Some i \<Rightarrow>
                                      do { i \<leftarrow> parse_comment q i;
                                           Some (if column_end q i then Some (i, Column name t [] codec [])
                                                 else None) } } } } } } }"

section \<open>Statements\<close>

text \<open>What the parser fills in of a table, beside 0 for success or the position of the failure.\<close>

record parsed_table =
  parsed_Name :: string
  parsed_Database :: string
  parsed_Cluster :: string
  parsed_Cols :: "(string \<times> click_column) list"

definition empty_table :: parsed_table where
  "empty_table = \<lparr>parsed_Name = [], parsed_Database = [], parsed_Cluster = [], parsed_Cols = []\<rparr>"

text \<open>A name with a dot is a database and a table, also when it is quoted as one identifier.\<close>

definition set_table_name :: "string \<Rightarrow> parsed_table \<Rightarrow> parsed_table" where
  "set_table_name ident t =
     (if CHR ''.'' \<in> set ident
      then t\<lparr>parsed_Name := join ''.'' (tl (split_on (CHR ''.'') ident)),
             parsed_Database := hd (split_on (CHR ''.'') ident)\<rparr>
      else t\<lparr>parsed_Name := ident\<rparr>)"

text \<open>The name of the table, the quote after it; \<open>Inl\<close> is a failure with its position.\<close>

definition parse_table_name :: "string \<Rightarrow> int \<Rightarrow> parsed_table \<Rightarrow> ((parsed_table \<times> int) + (parsed_table \<times> int)) option" where
  "parse_table_name q i t =
     do { i \<leftarrow> omitWhitespace q i;
          i2 \<leftarrow> parseExact q i [CHR 0x22];
          let i = (if i2 \<noteq> -1 then i2 else i);
          (i3, ident) \<leftarrow> parseIdent q i;
          if i3 = -1 then Some (Inl (t, i))
          else do { let t = set_table_name ident t;
                    if i2 = -1 then Some (Inr (t, i3))
                    else do { k \<leftarrow> parseExact q i3 [CHR 0x22];
                              Some (if k = -1 then Inl (t, i) else Inr (t, k)) } } }"

definition parse_cluster :: "string \<Rightarrow> int \<Rightarrow> parsed_table \<Rightarrow> ((parsed_table \<times> int) + (parsed_table \<times> int)) option" where
  "parse_cluster q i2 t =
     do { i3 \<leftarrow> parseExact q i2 ''ON CLUSTER '';
          if i3 = -1 then Some (Inr (t, i2))
          else do { i3 \<leftarrow> omitWhitespace q i3;
                    (i4, _) \<leftarrow> parseMaybeAndForget q i3 [CHR 0x22];
                    let i3 = (if i4 \<noteq> -1 then i4 else i3);
                    (i4, ident) \<leftarrow> parseIdent q i3;
                    if i4 = -1 then Some (Inl (t, i3))
                    else do { (i4, _) \<leftarrow> parseMaybeAndForget q i4 [CHR 0x22];
                              Some (if i4 = -1 then Inl (t\<lparr>parsed_Cluster := ident\<rparr>, i3)
                                    else Inr (t\<lparr>parsed_Cluster := ident\<rparr>, i4)) } } }"

text \<open>
  The loop over the columns, which ends at the bracket, also after a trailing comma, and at the
  first index.
\<close>

function columns_loop :: "string \<Rightarrow> int \<Rightarrow> parsed_table \<Rightarrow> (parsed_table \<times> int) option" where
  "columns_loop q i3 t =
     do { i \<leftarrow> omitWhitespace q i3;
          k \<leftarrow> parseExact q i ''INDEX'';
          if k \<noteq> -1 then Some (t, 0)
          else do {
            r \<leftarrow> parseColumn q i3;
            case r of
              None \<Rightarrow> Some (t, i3)
            | Some (i, col) \<Rightarrow>
                do { let t = t\<lparr>parsed_Cols := AList.update (col_Name col) col (parsed_Cols t)\<rparr>;
                     i2 \<leftarrow> omitWhitespace q i;
                     if i2 = -1 then Some (t, i)
                     else do {
                       c \<leftarrow> char_at q i2;
                       if c = CHR '')'' then Some (t, 0)
                       else if c \<noteq> CHR '','' then Some (t, i2)
                       else do { i3' \<leftarrow> omitWhitespace q (i2 + 1);
                                 if i3' = -1 then Some (t, i2 + 1)
                                 else do { d \<leftarrow> char_at q i3';
                                           if d = CHR '')'' then Some (t, 0)
                                           else columns_loop q (i2 + 1) t } } } } } }"
  by pat_completeness auto

definition ParseCreateTable :: "string \<Rightarrow> (parsed_table \<times> int) option" where
  "ParseCreateTable q =
     do { i \<leftarrow> parseExact q 0 ''CREATE TABLE '';
          if i = -1 then Some (empty_table, 1)
          else do {
            (i, _) \<leftarrow> parseMaybeAndForget q i ''IF NOT EXISTS '';
            named \<leftarrow> parse_table_name q i empty_table;
            case named of
              Inl failure \<Rightarrow> Some failure
            | Inr (t, i2) \<Rightarrow>
                do { clustered \<leftarrow> parse_cluster q i2 t;
                     case clustered of
                       Inl failure \<Rightarrow> Some failure
                     | Inr (t, i2) \<Rightarrow>
                         do { i3 \<leftarrow> parseExact q i2 ''('';
                              if i3 = -1 then Some (t, i2) else columns_loop q i3 t } } } }"

text \<open>The table with its configuration, or the error.\<close>

datatype new_table_error = ParsingFailed int

definition NewTable :: "string \<Rightarrow> table_config \<Rightarrow> (new_table_error + click_table) option" where
  "NewTable q config =
     do { (t, i) \<leftarrow> ParseCreateTable q;
          Some (if i = 0
                then Inr \<lparr>click_Name = parsed_Name t, click_Database = parsed_Database t, click_Cluster = parsed_Cluster t,
                  Cols = parsed_Cols t, click_Config = config, click_Created = False, click_Indexes = [],
                  click_aliases = [], click_Comment = [], CreateTableQuery = [], DiscoveredTimestampFieldName = None, VirtualTable = False\<rparr>
                else Inl (ParsingFailed i)) }"

section \<open>Progress of columns\<close>

text \<open>A position that is not before another, or -1; from -1 nothing is reached.\<close>

definition onward :: "int \<Rightarrow> int \<Rightarrow> bool" where
  "onward i j \<longleftrightarrow> j = -1 \<or> 0 \<le> i \<and> i \<le> j"

lemma onward_refl: "i = -1 \<or> 0 \<le> i \<Longrightarrow> onward i i"
  by (auto simp: onward_def)

lemma onward_trans: "onward i j \<Longrightarrow> onward j k \<Longrightarrow> onward i k"
  by (auto simp: onward_def)

lemma onward_tokens:
  "omitWhitespace q i = Some j \<Longrightarrow> onward i j"
  "parseExact q i s = Some j \<Longrightarrow> onward i j"
  "parseMaybeAndForget q i s = Some (j, ok) \<Longrightarrow> onward i j"
  by (auto simp: onward_def dest!: position_progress split: bool.splits)

lemma onward_multiple:
  "parseMaybeAndForgetMultiple q i ss = Some (j, ok) \<Longrightarrow> i = -1 \<or> 0 \<le> i \<Longrightarrow> onward i j"
proof (induction q i ss rule: parseMaybeAndForgetMultiple.induct)
  case (2 q i s ss)
  then show ?case
    by (auto simp: parseMaybeAndForgetMultiple.simps bind_eq_Some_conv split: if_splits dest: onward_tokens(3))
qed (simp add: parseMaybeAndForgetMultiple.simps onward_refl)

lemma onward_expr: "expr_loop q n i = Some j \<Longrightarrow> onward i j"
proof (induction q n i arbitrary: j rule: expr_loop.induct)
  case (1 q n i)
  show ?case
  proof (cases "int (length q) \<le> i")
    case True
    then show ?thesis using 1(2) by (simp add: expr_loop.simps [of q n i] onward_def)
  next
    case inside: False
    from 1(2) inside obtain c found where c: "char_at q i = Some c"
      and found: "expr_ends q (bracket_depth n c) i c = Some found"
      by (auto simp: expr_loop.simps [of q n i] bind_eq_Some_conv Let_def)
    show ?thesis
    proof (cases found)
      case True
      then show ?thesis using 1(2) inside c found char_at_Some [OF c]
        by (simp add: expr_loop.simps [of q n i] onward_def Let_def)
    next
      case False
      with 1(2) inside c found obtain k where k: "omitWhitespace q (i + 1) = Some k"
          "expr_loop q (bracket_depth n c) k = Some j"
        by (auto simp: expr_loop.simps [of q n i] bind_eq_Some_conv Let_def)
      show ?thesis
        using 1(1) [OF inside c refl found False k] onward_tokens(1) [OF k(1)] char_at_Some [OF c]
        by (auto simp: onward_def)
    qed
  qed
qed

lemma onward_codec: "codec_loop q n i = Some j \<Longrightarrow> i \<le> j"
proof (induction q n i arbitrary: j rule: codec_loop.induct)
  case (1 q n i)
  show ?case
  proof (cases "int (length q) \<le> i \<or> n \<le> 0")
    case True
    then show ?thesis using 1(2) by (simp add: codec_loop.simps [of q n i])
  next
    case False
    with 1(2) obtain c where c: "char_at q i = Some c"
      by (auto simp: codec_loop.simps [of q n i] bind_eq_Some_conv)
    show ?thesis
      using 1(2) 1(1) [OF False c] c False by (simp add: codec_loop.simps [of q n i] Let_def)
  qed
qed

lemma onward_comma: "comma_after q i = Some j \<Longrightarrow> 0 \<le> i \<Longrightarrow> onward i j"
proof (induction q i arbitrary: j rule: comma_after.induct)
  case (1 q i)
  from 1(2,3) show ?case
    by (subst (asm) comma_after.simps) (auto simp: bind_eq_Some_conv onward_def split: if_splits dest!: 1(1))
qed

lemma onward_keyword:
  "keyword_at q i w = Some True \<Longrightarrow> 0 \<le> i"
  by (auto simp: keyword_at_def slice_of_def split: if_splits)

lemma onward_default:
  assumes "parse_default q i = Some (Some j)"
  shows "onward i j"
proof -
  from assms obtain a b c k ok where 1: "omitWhitespace q i = Some a"
      "parseMaybeAndForgetMultiple q a [''NULL'', ''NOT NULL''] = Some (b, ok)"
      "omitWhitespace q b = Some c"
    and 2: "(do { (i, ok) \<leftarrow> parseMaybeAndForgetMultiple q c [''DEFAULT'', ''MATERIALIZED'', ''EPHEMERAL'', ''ALIAS''];
          if \<not> ok then Some (Some i)
          else do { i \<leftarrow> omitWhitespace q i;
                    i \<leftarrow> parseExpr q i;
                    if i = -1 then Some None else map_option Some (omitWhitespace q i) } }) = Some (Some j)"
    unfolding parse_default_def bind_eq_Some_conv by (auto simp: bind_eq_Some_conv)
  have start: "onward i c"
    using onward_tokens(1) [OF 1(1)] onward_multiple [OF 1(2)] onward_tokens(1) [OF 1(3)] omitWhitespace_progress [OF 1(1)]
    by (auto simp: onward_def)
  from 2 obtain k ok where k: "parseMaybeAndForgetMultiple q c [''DEFAULT'', ''MATERIALIZED'', ''EPHEMERAL'', ''ALIAS''] = Some (k, ok)"
    by (auto simp: bind_eq_Some_conv)
  have "onward c k" using onward_multiple [OF k] omitWhitespace_progress [OF 1(3)] by auto
  moreover have "onward k j"
  proof (cases ok)
    case True
    with 2 k obtain l m where "omitWhitespace q k = Some l" "expr_loop q 0 l = Some m" "omitWhitespace q m = Some j"
      by (auto simp: bind_eq_Some_conv parseExpr_def split: if_splits)
    then show ?thesis by (blast intro: onward_trans onward_tokens(1) onward_expr)
  next
    case False
    then show ?thesis using 2 k \<open>onward c k\<close> by (auto simp: onward_def)
  qed
  ultimately show ?thesis using start by (blast intro: onward_trans)
qed

lemma slice_of_le: "slice_of q i j = Some t \<Longrightarrow> 0 \<le> i \<and> i \<le> j"
  by (simp add: slice_of_def split: if_splits)

lemma onward_parse_codec:
  assumes "parse_codec q i = Some (j, c)" "i = -1 \<or> 0 \<le> i"
  shows "onward i j"
  using assms
  by (auto simp: parse_codec_def parseCodec_def bind_eq_Some_conv onward_refl split: if_splits
      dest!: onward_tokens(1,2) onward_codec omitWhitespace_progress slice_of_le)
    (auto simp: onward_def)

lemma onward_ttl:
  assumes "parse_ttl q i = Some (Some j)" "i = -1 \<or> 0 \<le> i"
  shows "onward i j"
  using assms
  by (auto simp: parse_ttl_def parseExpr_def bind_eq_Some_conv onward_refl split: if_splits
      dest!: onward_tokens(1) onward_expr onward_keyword)
    (auto simp: onward_def)

lemma onward_comment:
  assumes "parse_comment q i = Some j" "i = -1 \<or> 0 \<le> i"
  shows "onward i j"
  using assms
  by (auto simp: parse_comment_def bind_eq_Some_conv onward_refl split: if_splits
      dest: onward_keyword onward_comma)

lemma parseColumn_progress: "advances i (parseColumn q i)"
proof -
  have tail: "i < m"
    if "0 \<le> i" "i < k" "parse_default q k = Some (Some a)" "parse_codec q a = Some (b, codec)"
      "parse_ttl q b = Some (Some d)" "parse_comment q d = Some m" "column_end q m" for k a b codec d m
    using that onward_default [OF that(3)] onward_parse_codec [OF that(4)] onward_ttl [OF that(5)] onward_comment [OF that(6)]
    by (auto simp: onward_def column_end_def char_at_def)
  show ?thesis
    unfolding parseColumn_def
    apply (intro advances_intros)
    subgoal using omitWhitespace_progress by blast
    subgoal premises p for a b w j closing x l name m r y k t e o' z g codec h n u
    proof -
      have "parseExact q a closing = Some j"
        using p(2-5) by (auto simp: bind_eq_Some_conv split: if_splits)
      moreover have "parseIdent q j = Some (l, name)" using p(6,7) by simp
      moreover have "parseNullable q m = Some (Some (k, t))" using p(11-13) by simp
      ultimately have "0 \<le> i \<and> i < k"
        using omitWhitespace_progress [OF p(1)] parseExact_progress [OF p(9)] p(5,8,10)
          advancesD [OF parseNullable_progress]
        by (fastforce dest!: parseExact_progress parseIdent_progress)
      then show ?thesis using tail [of k o' g codec n u] p(14-21) by simp
    qed
    done
qed

termination columns_loop
proof (relation "measure (\<lambda>(q, i, t). position_left q i)", goal_cases)
  case (2 q i3 t a k r x i col t' i2 c j d)
  then have "i3 < i" using advancesD [OF parseColumn_progress, of q i3 i col] by simp
  with 2 show ?case by (auto dest!: position_progress)
qed simp

declare columns_loop.simps [simp del]

section \<open>Reading at a position\<close>

text \<open>What the text holds from a position on.\<close>

definition here :: "string \<Rightarrow> int \<Rightarrow> string \<Rightarrow> bool" where
  "here q i rest \<longleftrightarrow> (\<exists>before. q = before @ rest \<and> i = int (length before))"

lemma here_start: "here q 0 q"
  by (simp add: here_def)

lemma here_append: "here q i (s @ rest) \<Longrightarrow> here q (i + int (length s)) rest"
  unfolding here_def by (metis append.assoc length_append of_nat_add)

lemma here_Cons: "here q i (c # rest) \<Longrightarrow> here q (i + 1) rest"
  using here_append [of q i "[c]" rest] by simp

lemma here_char: "here q i (c # rest) \<Longrightarrow> char_at q i = Some c"
  by (auto simp: here_def char_at_def)

lemma here_bound: "here q i rest \<Longrightarrow> 0 \<le> i \<and> int (length q) = i + int (length rest)"
  by (auto simp: here_def)

lemma here_inside: "here q i (c # rest) \<Longrightarrow> \<not> int (length q) \<le> i"
  by (auto simp: here_def)

lemma here_slice: "here q i (s @ rest) \<Longrightarrow> slice_of q i (i + int (length s)) = Some s"
  by (auto simp: here_def slice_of_def)

lemma here_take:
  "here q i rest \<Longrightarrow> n \<le> length rest \<Longrightarrow> slice_of q i (i + int n) = Some (take n rest)"
  by (auto simp: here_def slice_of_def)

lemma skip_while_here:
  "here q i (w @ c # rest) \<Longrightarrow> \<forall>x \<in> set w. p x \<Longrightarrow> \<not> p c \<Longrightarrow> skip_while p q i = Some (i + int (length w))"
proof (induction w arbitrary: i)
  case Nil
  then show ?case using here_char [of q i c rest] here_inside [of q i c rest] by (simp add: skip_while.simps [of p q i])
next
  case (Cons x w)
  then have "here q (i + 1) (w @ c # rest)" by (simp add: here_Cons)
  then have "skip_while p q (i + 1) = Some (i + 1 + int (length w))" using Cons by simp
  then show ?case
    using Cons.prems here_char [of q i x "w @ c # rest"] here_inside [of q i x "w @ c # rest"]
    by (simp add: skip_while.simps [of p q i])
qed

abbreviation spaces :: "string \<Rightarrow> bool" where
  "spaces w \<equiv> \<forall>x \<in> set w. byte_space x"

lemma omitWhitespace_here:
  assumes "here q i (w @ c # rest)" "spaces w" "\<not> byte_space c"
  shows "omitWhitespace q i = Some (i + int (length w))"
  using skip_while_here [OF assms] here_inside [OF here_append [OF assms(1)]] by (simp add: omitWhitespace_def)

lemma parseExact_here:
  assumes "here q i (w @ s @ rest)" "spaces w" "s \<noteq> []" "\<not> byte_space (hd s)"
  shows "parseExact q i s = Some (i + int (length w) + int (length s))"
proof -
  obtain c s' where s: "s = c # s'" using assms(3) by (cases s) auto
  have h: "here q (i + int (length w)) (s @ rest)" using assms(1) by (rule here_append)
  have "omitWhitespace q i = Some (i + int (length w))"
    using omitWhitespace_here [of q i w c "s' @ rest"] assms s by simp
  then show ?thesis
    using here_slice [OF h] here_bound [OF h] by (simp add: parseExact_def Let_def)
qed

lemma parseExact_not_here:
  assumes "here q i (w @ c # rest)" "spaces w" "\<not> byte_space c" "\<not> has_prefix (c # rest) s"
  shows "parseExact q i s = Some (-1)"
proof -
  let ?i = "i + int (length w)"
  have h: "here q ?i (c # rest)" using assms(1) by (rule here_append)
  have o: "omitWhitespace q i = Some ?i" using assms by (intro omitWhitespace_here)
  show ?thesis
  proof (cases "int (length q) < ?i + int (length s)")
    case False
    then have "slice_of q ?i (?i + int (length s)) = Some (take (length s) (c # rest))"
      using here_take [OF h] here_bound [OF h] by simp
    then show ?thesis using False assms(4) o by (simp add: parseExact_def Let_def has_prefix_def)
  qed (simp add: parseExact_def Let_def o)
qed

lemma parseMaybe_here:
  assumes "here q i (w @ s @ rest)" "spaces w" "s \<noteq> []" "\<not> byte_space (hd s)"
  shows "parseMaybeAndForget q i s = Some (i + int (length w) + int (length s), True)"
proof -
  obtain c s' where s: "s = c # s'" using assms(3) by (cases s) auto
  have h: "here q (i + int (length w)) (s @ rest)" using assms(1) by (rule here_append)
  have "omitWhitespace q i = Some (i + int (length w))"
    using omitWhitespace_here [of q i w c "s' @ rest"] assms s by simp
  then show ?thesis
    using here_slice [OF h] here_bound [OF h] by (simp add: parseMaybeAndForget_def Let_def)
qed

lemma parseMaybe_not_here:
  assumes "here q i (w @ c # rest)" "spaces w" "\<not> byte_space c" "\<not> has_prefix (c # rest) s"
  shows "parseMaybeAndForget q i s = Some (i + int (length w), False)"
proof -
  let ?i = "i + int (length w)"
  have h: "here q ?i (c # rest)" using assms(1) by (rule here_append)
  have o: "omitWhitespace q i = Some ?i" using assms by (intro omitWhitespace_here)
  show ?thesis
  proof (cases "int (length q) < ?i + int (length s)")
    case False
    then have "slice_of q ?i (?i + int (length s)) = Some (take (length s) (c # rest))"
      using here_take [OF h] here_bound [OF h] by simp
    then show ?thesis using False assms(4) o by (simp add: parseMaybeAndForget_def Let_def has_prefix_def)
  qed (simp add: parseMaybeAndForget_def Let_def o)
qed

lemma parseMultiple_not_here:
  assumes "here q i (c # rest)" "\<not> byte_space c" "\<forall>s \<in> set ss. \<not> has_prefix (c # rest) s"
  shows "parseMaybeAndForgetMultiple q i ss = Some (i, False)"
  using assms(3)
proof (induction ss)
  case (Cons s ss)
  then show ?case
    using parseMaybe_not_here [of q i "[]" c rest s] assms(1,2) by (simp add: parseMaybeAndForgetMultiple.simps)
qed (simp add: parseMaybeAndForgetMultiple.simps)

text \<open>Names that are read back as one identifier.\<close>

definition plain_name :: "string \<Rightarrow> bool" where
  "plain_name s \<longleftrightarrow> s \<noteq> [] \<and> (\<forall>c \<in> set s. isGoodIdentChar c)"

lemma parseIdent_here:
  assumes "here q i (w @ s @ c # rest)" "spaces w" "plain_name s" "\<not> isGoodIdentChar c"
  shows "parseIdent q i = Some (i + int (length w) + int (length s), s)"
proof -
  let ?i = "i + int (length w)"
  obtain a s' where s: "s = a # s'" using assms(3) by (cases s) (auto simp: plain_name_def)
  have a: "isGoodIdentChar a" using assms(3) s by (simp add: plain_name_def)
  have h: "here q ?i (s @ c # rest)" using assms(1) by (rule here_append)
  have o: "omitWhitespace q i = Some ?i"
    using omitWhitespace_here [of q i w a "s' @ c # rest"] assms s a by (simp add: isGoodIdentChar_def)
  have "here q (?i + 1) (s' @ c # rest)" using h s by (simp add: here_Cons)
  then have "skip_while isGoodIdentChar q (?i + 1) = Some (?i + int (length s))"
    using skip_while_here [of q "?i + 1" s' c rest isGoodIdentChar] assms(3,4) s by (simp add: plain_name_def algebra_simps)
  then show ?thesis
    using o a here_char [of q ?i a] here_inside [of q ?i a] here_slice [OF h] h s by (simp add: parseIdent_def)
qed

end
