(* ===== verification/Ingest_Columns.thy ===== *)
theory Ingest_Columns
  imports Click_Parser Schema_Registry
begin

text \<open>
  The columns of a table that is created for the first document of an index: \<open>parser.go\<close> of
  \<open>quesma/ingest\<close> and the creation of tables in \<open>processor.go\<close>.
\<close>

section \<open>Columns\<close>

record create_entry =
  ClickHouseColumnName :: string
  ClickHouseType :: string

type_synonym encodings = "((string \<times> string) \<times> string) list"

text \<open>Of several fields with the same column the last of the walk counts.\<close>

definition reverseFieldEncoding :: "encodings \<Rightarrow> string \<Rightarrow> (string \<rightharpoonup> string \<times> string)" where
  "reverseFieldEncoding es tableName =
     foldl (\<lambda>res (k, v). if fst k = tableName then res(v \<mapsto> k) else res) Map.empty es"

definition column_comment :: "(string \<rightharpoonup> string \<times> string) \<Rightarrow> string \<Rightarrow> string" where
  "column_comment reverseMap column =
     Marshall [(ElasticFieldName, case reverseMap column of Some k \<Rightarrow> snd k | None \<Rightarrow> [])]"

definition column_row :: "string \<Rightarrow> create_entry \<Rightarrow> string" where
  "column_row comment e =
     Indent 1 @ [CHR 0x22] @ ClickHouseColumnName e @ [CHR 0x22] @ '' '' @ ClickHouseType e @ '' COMMENT '' @ '' ''
       @ [CHR 0x27] @ comment @ [CHR 0x27]"

text \<open>
  The schema takes precedence over the type seen in the document, except for arrays; its entry is
  deleted either way.
\<close>

definition entry_of_json :: "(string \<times> create_entry) list \<Rightarrow> create_entry \<Rightarrow> create_entry" where
  "entry_of_json fromSchema e =
     (case map_of fromSchema (ClickHouseColumnName e) of
        Some s \<Rightarrow> if \<not> contains (ClickHouseType e) ''Array'' then s else e
      | None \<Rightarrow> e)"

fun rows_of_json ::
  "(string \<rightharpoonup> string \<times> string) \<Rightarrow> create_entry list \<Rightarrow> (string \<times> create_entry) list \<Rightarrow> string list \<times> (string \<times> create_entry) list" where
  "rows_of_json reverseMap [] fromSchema = ([], fromSchema)"
| "rows_of_json reverseMap (e # es) fromSchema =
     (let row = column_row (column_comment reverseMap (ClickHouseColumnName e)) (entry_of_json fromSchema e);
          (rows, rest) = rows_of_json reverseMap es (AList.delete (ClickHouseColumnName e) fromSchema)
      in (row # rows, rest))"

definition columnsToString ::
  "create_entry list \<Rightarrow> (string \<times> create_entry) list \<Rightarrow> encodings \<Rightarrow> string \<Rightarrow> string" where
  "columnsToString columnsFromJson columnsFromSchema es tableName =
     (let reverseMap = reverseFieldEncoding es tableName;
          (rows, rest) = rows_of_json reverseMap columnsFromJson columnsFromSchema
      in join ('','' @ [CHR 0x0A])
           (rows @ map (\<lambda>(_, e). column_row (column_comment reverseMap (ClickHouseColumnName e)) e) rest))"

text \<open>Fields whose type cannot be inferred are skipped.\<close>

definition nullable_text :: "string \<Rightarrow> string" where
  "nullable_text t =
     (if \<not> contains t ''Array'' \<and> \<not> contains t ''Tuple'' \<and> \<not> contains t ''DateTime''
      then ''Nullable('' @ t @ '')'' else t)"

definition JsonToColumns :: "json_map \<Rightarrow> table_config \<Rightarrow> create_entry list" where
  "JsonToColumns m config =
     concat (map (\<lambda>(name, value).
       case NewType value name of
         Inl _ \<Rightarrow> []
       | Inr fType \<Rightarrow>
           [\<lparr>ClickHouseColumnName = name,
             ClickHouseType = nullable_text (type_String fType)
               @ (if name = clickhouse_timestamp \<and> TimestampDefaultsNow config then '' DEFAULT now64()'' else [])\<rparr>]) m)"

text \<open>The types for which a column is made; points become two columns of text.\<close>

definition schema_column_type :: "string \<Rightarrow> string option" where
  "schema_column_type n =
     (if n = type_Name QuesmaTypeText \<or> n = type_Name QuesmaTypeKeyword then Some ''Nullable(String)''
      else if n = type_Name QuesmaTypeLong then Some ''Nullable(Int64)''
      else if n = type_Name QuesmaTypeUnsignedLong then Some ''Nullable(Uint64)''
      else if n = type_Name QuesmaTypeTimestamp then Some ''Nullable(DateTime64)''
      else if n = type_Name QuesmaTypeDate then Some ''Nullable(Date)''
      else if n = type_Name QuesmaTypeFloat then Some ''Nullable(Float64)''
      else if n = type_Name QuesmaTypeBoolean then Some ''Nullable(Bool)''
      else None)"

definition encoded_name :: "encodings \<Rightarrow> string \<Rightarrow> string \<Rightarrow> string" where
  "encoded_name es tableName field = (case map_of es (tableName, field) of Some e \<Rightarrow> e | None \<Rightarrow> [])"

definition add_schema_column ::
  "encodings \<Rightarrow> string \<Rightarrow> (string \<times> create_entry) list \<Rightarrow> schema_field \<Rightarrow> (string \<times> create_entry) list" where
  "add_schema_column es tableName res f =
     (let entry = (\<lambda>n t. AList.update n \<lparr>ClickHouseColumnName = n, ClickHouseType = t\<rparr>)
      in if type_Name (fieldType f) = type_Name QuesmaTypePoint
         then entry (encoded_name es tableName (PropertyName f @ ''.lon'')) ''Nullable(String)''
                (entry (encoded_name es tableName (PropertyName f @ ''.lat'')) ''Nullable(String)'' res)
         else case schema_column_type (type_Name (fieldType f)) of
                None \<Rightarrow> res
              | Some t \<Rightarrow> entry (encoded_name es tableName (PropertyName f)) t res)"

definition SchemaToColumns :: "schema option \<Rightarrow> string \<Rightarrow> encodings \<Rightarrow> (string \<times> create_entry) list" where
  "SchemaToColumns schemaMapping tableName es =
     (case schemaMapping of
        None \<Rightarrow> []
      | Some s \<Rightarrow> foldl (\<lambda>res (_, f). add_schema_column es tableName res f) [] (Fields s))"

section \<open>Statements\<close>

definition NewOnlySchemaFieldsCHConfig :: "string \<Rightarrow> table_config" where
  "NewOnlySchemaFieldsCHConfig clusterName =
     \<lparr>HasTimestamp = True, TimestampDefaultsNow = True, Engine = ''MergeTree'',
      config_OrderBy = ''('' @ [CHR 0x22] @ ''@timestamp'' @ [CHR 0x22] @ '')'', PartitionBy = [], PrimaryKey = [],
      Settings = [], Ttl = [], config_Cluster = clusterName, Attributes = [NewDefaultStringAttribute],
      CastUnsupportedAttrValueTypesToString = False, PreferCastingToOthers = False\<rparr>"

text \<open>The statements of the indexes of the columns that have one, with a comma before and at the end.\<close>

definition Indexes_text :: "json_map \<Rightarrow> string" where
  "Indexes_text m =
     concat (map (\<lambda>(col, _). if GetIndexStatement col \<noteq> []
        then '','' @ [CHR 0x0A] @ Indent 1 @ GetIndexStatement col else []) m) @ '','' @ [CHR 0x0A]"

definition columnsWithIndexes :: "string \<Rightarrow> string \<Rightarrow> string" where
  "columnsWithIndexes columns indexes = columns @ indexes"

definition createTableQuery :: "string \<Rightarrow> string \<Rightarrow> table_config \<Rightarrow> string" where
  "createTableQuery name columns config =
     ''CREATE TABLE IF NOT EXISTS '' @ [CHR 0x22] @ name @ [CHR 0x22] @ '' ''
     @ (if config_Cluster config \<noteq> [] then ''ON CLUSTER '' @ quote (config_Cluster config) @ '' '' else [])
     @ [CHR 0x0A] @ ''('' @ [CHR 0x0A, CHR 0x0A] @ columns @ [CHR 0x0A] @ '')'' @ [CHR 0x0A]
     @ CreateTablePostFieldsString config @ [CHR 0x0A] @ ''COMMENT '' @ [CHR 0x27] @ ''created by Quesma'' @ [CHR 0x27]"

text \<open>
  The timestamp and the maps of attributes are put in front of the columns of the statement, and
  into the table.
\<close>

definition our_column :: "string \<Rightarrow> click_type \<Rightarrow> click_table \<Rightarrow> click_table" where
  "our_column n t table = table\<lparr>Cols := AList.update n (Column n t [] [] []) (Cols table)\<rparr>"

definition attribute_map_type :: click_type where
  "attribute_map_type = CompoundType ''Map'' (NewBaseType ''String, String'')"

definition add_map_column :: "string \<Rightarrow> string \<times> click_table \<Rightarrow> string \<times> click_table" where
  "add_map_column n st =
     (case st of (text, table) \<Rightarrow>
        if map_of (Cols table) n = None
        then (text @ quoted_row n '' Map(String,String)'' @ '','' @ [CHR 0x0A], our_column n attribute_map_type table)
        else st)"

definition add_timestamp :: "table_config \<Rightarrow> click_table \<Rightarrow> string \<times> click_table" where
  "add_timestamp config table =
     (if HasTimestamp config \<and> map_of (Cols table) clickhouse_timestamp = None
      then (quoted_row clickhouse_timestamp ('' DateTime64(3)'' @ (if TimestampDefaultsNow config then '' DEFAULT now64()'' else []))
              @ '','' @ [CHR 0x0A],
            our_column clickhouse_timestamp (NewBaseType ''DateTime64'') table)
      else ([], table))"

definition our_fields :: "table_config \<Rightarrow> click_table \<Rightarrow> string \<times> click_table" where
  "our_fields config table =
     foldl (\<lambda>st a. add_map_column (MapMetadataName a) (add_map_column (MapValueName a) st))
       (add_timestamp config table) (Attributes config)"

definition addOurFieldsToCreateTableQuery ::
  "string \<Rightarrow> table_config \<Rightarrow> click_table \<Rightarrow> (string \<times> click_table) option" where
  "addOurFieldsToCreateTableQuery q config table =
     (if Attributes config = [] \<and> (\<not> HasTimestamp config \<or> map_of (Cols table) clickhouse_timestamp \<noteq> None)
      then Some (q, table)
      else do { let (text, table) = our_fields config table;
                let i = (case index_of q ''('' of Some n \<Rightarrow> int n | None \<Rightarrow> -1);
                before \<leftarrow> slice_of q 0 (i + 2);
                after \<leftarrow> slice_of q (i + 1) (int (length q));
                Some (before @ text @ after, table) })"

end
