(* ===== verification/Table_Statements.thy ===== *)
theory Table_Statements
  imports Ingest_Columns
begin

text \<open>
  The statement that creates a table is parsed by the gateway itself to learn the columns of the
  table.  The lemmas read the text that \<open>Ingest_Columns\<close> writes with the parser of \<open>Click_Parser\<close>,
  from the types of single values up to the whole statement.
\<close>

section \<open>Types\<close>

text \<open>What may follow a type: white space and something that is no bracket, or the end of the name.\<close>

definition ends_type :: "string \<Rightarrow> bool" where
  "ends_type rest \<longleftrightarrow>
     (\<exists>w d r. rest = w @ d # r \<and> spaces w \<and> \<not> byte_space d \<and> d \<noteq> CHR ''('' \<and> (w = [] \<longrightarrow> \<not> isGoodIdentChar d))"

lemma ends_type_char: "d \<in> {CHR '','', CHR '')''} \<Longrightarrow> ends_type (d # r)"
  unfolding ends_type_def
  by (rule exI [of _ "[]"]) (auto simp: isGoodIdentChar_def byte_space_def)

lemma ends_type_space: "\<not> byte_space d \<Longrightarrow> d \<noteq> CHR ''('' \<Longrightarrow> ends_type (CHR '' '' # d # r)"
  unfolding ends_type_def
  by (rule exI [of _ "[CHR '' '']"]) (auto simp: byte_space_def)

lemma ends_type_head:
  assumes "ends_type rest"
  obtains c r where "rest = c # r" "\<not> isGoodIdentChar c"
  using assms unfolding ends_type_def by (metis append_Cons append_Nil isGoodIdentChar_def list.exhaust list.set_intros(1))

lemma parse_simple_type:
  assumes "here q i (n @ rest)" "plain_name n" "ends_type rest" "n \<notin> {''Array'', ''Tuple'', ''Nested''}"
  shows "parseType q i = Some (Some (i + int (length n), NewBaseType n))"
proof -
  obtain c r where rest: "rest = c # r" "\<not> isGoodIdentChar c" using assms(3) by (rule ends_type_head)
  have ident: "parseIdent q i = Some (i + int (length n), n)"
    using parseIdent_here [of q i "[]" n c r] assms(1,2) rest by simp
  obtain w d r' where d: "rest = w @ d # r'" "spaces w" "\<not> byte_space d" "d \<noteq> CHR ''(''"
    using assms(3) by (auto simp: ends_type_def)
  have "parseExact q (i + int (length n)) ''('' = Some (-1)"
    using parseExact_not_here [of q "i + int (length n)" w d r' "''(''"] here_append [OF assms(1)] d
    by (simp add: has_prefix_def)
  then show ?thesis using ident assms(4) by (simp add: parseType.simps)
qed

lemma parse_array:
  assumes "here q i (''Array('' @ t @ '')'' @ rest)"
    and inner: "parseNullable q (i + 6) = Some (Some (i + 6 + int (length t), x))"
  shows "parseType q i = Some (Some (i + 7 + int (length t), CompoundType ''Array'' x))"
proof -
  have "plain_name ''Array''" by (simp add: plain_name_def isGoodIdentChar_def byte_space_def)
  then have ident: "parseIdent q i = Some (i + 5, ''Array'')"
    using parseIdent_here [of q i "[]" "''Array''" "CHR ''(''" "t @ '')'' @ rest"] assms(1)
    by (simp add: isGoodIdentChar_def)
  have h: "here q (i + 5) (''('' @ t @ '')'' @ rest)" using here_append [of q i "''Array''"] assms(1) by simp
  then have "parseExact q (i + 5) ''('' = Some (i + 6)"
    using parseExact_here [of q "i + 5" "[]" "''(''"] by (simp add: byte_space_def)
  moreover have h': "here q (i + 6 + int (length t)) ('')'' @ rest)"
    using here_append [of q "i + 5" "''('' @ t" "'')'' @ rest"] h by (simp add: algebra_simps)
  then have "parseExact q (i + 6 + int (length t)) '')'' = Some (i + 7 + int (length t))"
    using parseExact_here [of q _ "[]" "'')''"] by (simp add: byte_space_def)
  ultimately show ?thesis
    using ident inner here_bound [OF assms(1)] by (simp add: parseType.simps parseCompoundType.simps)
qed

lemma parse_nullable_wrapped:
  assumes "here q i (''Nullable('' @ t @ '')'' @ rest)"
    and inner: "parseType q (i + 9) = Some (Some (i + 9 + int (length t), x))"
  shows "parseNullable q i = Some (Some (i + 10 + int (length t), set_nullable x))"
proof -
  have o: "omitWhitespace q i = Some i"
    using omitWhitespace_here [of q i "[]" "CHR ''N''"] assms(1) by (simp add: byte_space_def)
  have "parseMaybeAndForget q i ''Nullable'' = Some (i + 8, True)"
    using parseMaybe_here [of q i "[]" "''Nullable''"] assms(1) by (simp add: byte_space_def)
  moreover have h: "here q (i + 8) (''('' @ t @ '')'' @ rest)" using here_append [of q i "''Nullable''"] assms(1) by simp
  then have "parseExact q (i + 8) ''('' = Some (i + 9)"
    using parseExact_here [of q "i + 8" "[]" "''(''"] by (simp add: byte_space_def)
  moreover have "here q (i + 9 + int (length t)) ('')'' @ rest)"
    using here_append [of q "i + 8" "''('' @ t" "'')'' @ rest"] h by (simp add: algebra_simps)
  then have "parseExact q (i + 9 + int (length t)) '')'' = Some (i + 10 + int (length t))"
    using parseExact_here [of q _ "[]" "'')''"] by (simp add: byte_space_def)
  moreover have "char_at q i = Some (CHR ''N'')" using here_char [of q i "CHR ''N''"] assms(1) by simp
  ultimately show ?thesis
    using o inner here_bound [OF assms(1)] by (simp add: parseNullable.simps)
qed

lemma parse_nullable_plain:
  assumes "here q i (c # rest)" "\<not> byte_space c" "c \<noteq> CHR ''N''"
  shows "parseNullable q i = parseType q i"
  using omitWhitespace_here [of q i "[]" c rest] here_char [OF assms(1)] assms by (simp add: parseNullable.simps)

section \<open>The types of documents\<close>

definition leaf_types :: "string set" where
  "leaf_types = {''DateTime64'', ''String'', ''Int64'', ''Float64'', ''Bool''}"

text \<open>The types that are inferred, with names of columns that are read back.\<close>

fun inferred :: "click_type \<Rightarrow> bool" where
  "inferred (BaseType n g nul) = (n \<in> leaf_types)"
| "inferred (CompoundType n t) = (n = ''Array'' \<and> inferred t)"
| "inferred (MultiValueType n cols) =
     (n = ''Tuple'' \<and> (\<exists>c. Some c \<in> set cols) \<and> (\<forall>c. Some c \<in> set cols \<longrightarrow> plain_name (col_Name c) \<and> inferred (col_Type c)))"

text \<open>The type as it is read back: without nil columns, the columns of tuples nullable.\<close>

fun stored :: "click_type \<Rightarrow> click_type" where
  "stored (BaseType n g nul) = NewBaseType n"
| "stored (CompoundType n t) = CompoundType n (stored t)"
| "stored (MultiValueType n cols) =
     MultiValueType n (concat (map (\<lambda>col. case col of None \<Rightarrow> [] | Some c \<Rightarrow>
       [Some (Column (col_Name c)
          (if nullable_text (type_String (col_Type c)) \<noteq> type_String (col_Type c) then set_nullable (stored (col_Type c))
           else stored (col_Type c)) [] [] [])]) cols))"

definition stored_nullable :: "click_type \<Rightarrow> click_type" where
  "stored_nullable t = (if nullable_text (type_String t) \<noteq> type_String t then set_nullable (stored t) else stored t)"

lemma contains_prefix: "contains (s @ t) s"
proof -
  have "has_prefix (s @ t) s" by (simp add: has_prefix_def)
  then show ?thesis by (cases "s @ t") auto
qed

lemma nullable_text_prefix:
  "p \<in> {''Array'', ''Tuple''} \<Longrightarrow> nullable_text (p @ s) = p @ s"
  using contains_prefix [of p s] by (auto simp only: nullable_text_def insert_iff empty_iff if_False simp_thms)

lemma nullable_text_leaf:
  "\<forall>n \<in> leaf_types. nullable_text n = (if n = ''DateTime64'' then n else ''Nullable('' @ n @ '')'')"
  by code_simp

lemma nullable_text_cases:
  assumes "inferred t"
  shows "(\<exists>n g nul. t = BaseType n g nul \<and> n \<noteq> ''DateTime64'' \<and> nullable_text (type_String t) = ''Nullable('' @ type_String t @ '')'')
    \<or> (nullable_text (type_String t) = type_String t \<and> (\<exists>c s. type_String t = c # s \<and> c \<in> set ''ADT''))"
proof (cases t)
  case (BaseType n g nul)
  then have "n \<in> leaf_types" using assms by simp
  then show ?thesis using BaseType nullable_text_leaf by (cases "n = ''DateTime64''") auto
next
  case (CompoundType n u)
  then have "type_String t = ''Array'' @ ''('' @ type_String u @ '')''" using assms by simp
  then show ?thesis using nullable_text_prefix [of "''Array''" "''('' @ type_String u @ '')''"] by simp
next
  case (MultiValueType n cols)
  then obtain s where "type_String t = ''Tuple'' @ s" using assms by simp
  then show ?thesis using nullable_text_prefix [of "''Tuple''" s] by simp
qed

lemma parse_nullable_text:
  assumes reads: "\<And>j r. ends_type r \<Longrightarrow> here q j (type_String t @ r) \<Longrightarrow>
      parseType q j = Some (Some (j + int (length (type_String t)), stored t))"
    and "inferred t" "ends_type rest" "here q i (nullable_text (type_String t) @ rest)"
  shows "parseNullable q i = Some (Some (i + int (length (nullable_text (type_String t))), stored_nullable t))"
  using nullable_text_cases [OF assms(2)]
proof (elim disjE exE conjE)
  fix n g nul
  assume n: "t = BaseType n g nul" "n \<noteq> ''DateTime64''" "nullable_text (type_String t) = ''Nullable('' @ type_String t @ '')''"
  have h: "here q i (''Nullable('' @ type_String t @ '')'' @ rest)" using assms(4) n(3) by simp
  then have "here q (i + 9) (type_String t @ '')'' @ rest)" using here_append [of q i "''Nullable(''"] by simp
  then have "parseType q (i + 9) = Some (Some (i + 9 + int (length (type_String t)), stored t))"
    using reads [of "'')'' @ rest" "i + 9"] ends_type_char [of "CHR '')''" rest] by simp
  from parse_nullable_wrapped [OF h this] show ?thesis
    using n by (simp add: stored_nullable_def algebra_simps)
next
  fix c s
  assume t: "nullable_text (type_String t) = type_String t" "type_String t = c # s" "c \<in> set ''ADT''"
  then have "parseNullable q i = parseType q i"
    using parse_nullable_plain [of q i c "s @ rest"] assms(4) by (auto simp: byte_space_def)
  then show ?thesis using reads [OF assms(3)] assms(4) t by (simp add: stored_nullable_def)
qed

lemma nullable_text_head:
  "inferred t \<Longrightarrow> \<exists>c s. nullable_text (type_String t) = c # s \<and> \<not> byte_space c"
  by (drule nullable_text_cases) (auto simp: byte_space_def)

definition tuple_text :: "click_column \<Rightarrow> string" where
  "tuple_text c = col_Name c @ '' '' @ nullable_text (type_String (col_Type c))"

definition stored_column :: "click_column \<Rightarrow> click_column" where
  "stored_column c = Column (col_Name c) (stored_nullable (col_Type c)) [] [] []"

lemma parse_tuple_columns:
  assumes "cs \<noteq> []"
    and "\<And>c. c \<in> set cs \<Longrightarrow> plain_name (col_Name c) \<and> inferred (col_Type c)"
    and "\<And>c j r. c \<in> set cs \<Longrightarrow> ends_type r \<Longrightarrow> here q j (type_String (col_Type c) @ r) \<Longrightarrow>
      parseType q j = Some (Some (j + int (length (type_String (col_Type c))), stored (col_Type c)))"
    and "here q i (join '', '' (map tuple_text cs) @ '')'' @ rest)"
  shows "tuple_columns q i acc = Some (Some (i + int (length (join '', '' (map tuple_text cs))) + 1, acc @ map stored_column cs))"
  using assms
proof (induction cs arbitrary: i acc)
  case (Cons c cs)
  define more where "more = (if cs = [] then '')'' @ rest else '', '' @ join '', '' (map tuple_text cs) @ '')'' @ rest)"
  let ?n = "col_Name c" and ?t = "nullable_text (type_String (col_Type c))"
  have h: "here q i (?n @ '' '' @ ?t @ more)"
    using Cons.prems(4) by (cases "cs = []") (auto simp: more_def tuple_text_def [of c] join_Cons)
  have name: "plain_name ?n" and inf: "inferred (col_Type c)" using Cons.prems(2) by auto
  then obtain a n' where n: "?n = a # n'" "isGoodIdentChar a" by (cases "?n") (auto simp: plain_name_def)
  then have a: "\<not> byte_space a" "a \<noteq> CHR 0x22" "a \<noteq> CHR 0x60" by (auto simp: isGoodIdentChar_def)
  define j k where "j = i + int (length ?n)" and "k = j + 1 + int (length ?t)"
  have start: "omitWhitespace q i = Some i" "char_at q i = Some a" "0 \<le> i"
    using omitWhitespace_here [of q i "[]" a] here_char [of q i a] here_bound [OF h] h n a by auto
  have ident: "parseIdent q i = Some (j, ?n)"
    using parseIdent_here [of q i "[]" ?n "CHR '' ''" "?t @ more"] h name
    by (simp add: isGoodIdentChar_def byte_space_def j_def)
  obtain b t' where t: "?t = b # t'" "\<not> byte_space b" using nullable_text_head [OF inf] by auto
  have hj: "here q j ('' '' @ ?t @ more)" using here_append [OF h] by (simp add: j_def)
  then have after_name: "omitWhitespace q j = Some (j + 1)"
    using omitWhitespace_here [of q j "'' ''" b "t' @ more"] t by (simp add: byte_space_def)
  have "here q (j + 1) (?t @ more)" using hj here_append [of q j "'' ''"] by simp
  moreover have "ends_type more" by (auto simp: more_def intro: ends_type_char)
  ultimately have nullable: "parseNullable q (j + 1) = Some (Some (k, stored_nullable (col_Type c)))"
    using parse_nullable_text [where t = "col_Type c" and q = q and rest = more and i = "j + 1"] Cons.prems(3) [of c] inf by (simp add: k_def)
  have hk: "here q k more"
    using here_append [of q j "'' '' @ ?t" more] hj by (simp add: k_def algebra_simps)
  have bounds: "0 \<le> j" "0 \<le> k" using start by (simp_all add: j_def k_def)
  have at_end: "omitWhitespace q k = Some k" "char_at q k = Some (if cs = [] then CHR '')'' else CHR '','')"
    using hk omitWhitespace_here [of q k "[]" "CHR '')''"] omitWhitespace_here [of q k "[]" "CHR '',''"]
      here_char [of q k "CHR '')''"] here_char [of q k "CHR '',''"]
    by (cases "cs = []"; simp add: more_def byte_space_def)+
  show ?case
  proof (cases "cs = []")
    case True
    then show ?thesis
      using start a ident after_name nullable at_end bounds
      by (simp add: tuple_columns.simps [of q i acc] stored_column_def tuple_text_def k_def j_def algebra_simps)
  next
    case False
    then obtain d ds where cs: "cs = d # ds" by (cases cs) auto
    then obtain e n2 where e: "col_Name d = e # n2" "\<not> byte_space e"
      using Cons.prems(2) [of d] by (cases "col_Name d") (auto simp: plain_name_def isGoodIdentChar_def)
    have "\<exists>rest2. join '', '' (map tuple_text cs) @ '')'' @ rest = e # rest2"
      using e cs by (cases "ds = []") (auto simp: tuple_text_def join_Cons)
    then obtain rest2 where rest2: "join '', '' (map tuple_text cs) @ '')'' @ rest = e # rest2" by blast
    have hk1: "here q (k + 1) ('' '' @ e # rest2)"
      using here_append [of q k "'',''"] hk False rest2 by (simp add: more_def)
    then have "omitWhitespace q (k + 1) = Some (k + 2)"
      using omitWhitespace_here [of q "k + 1" "'' ''" e rest2] e by (simp add: byte_space_def)
    moreover have "here q (k + 2) (join '', '' (map tuple_text cs) @ '')'' @ rest)"
      using here_Cons [of q "k + 1" "CHR '' ''" "e # rest2"] hk1 rest2 by (simp add: add.commute)
    then have "tuple_columns q (k + 2) (acc @ [stored_column c])
        = Some (Some (k + 2 + int (length (join '', '' (map tuple_text cs))) + 1, acc @ [stored_column c] @ map stored_column cs))"
      using Cons.IH [of "k + 2" "acc @ [stored_column c]"] Cons.prems(2,3) False by simp
    ultimately show ?thesis
      using start a ident after_name nullable at_end bounds False
      by (simp add: tuple_columns.simps [of q i acc] join_Cons stored_column_def tuple_text_def [of c] k_def j_def algebra_simps)
  qed
qed simp

definition present :: "click_column option list \<Rightarrow> click_column list" where
  "present cols = concat (map (\<lambda>col. case col of None \<Rightarrow> [] | Some c \<Rightarrow> [c]) cols)"

lemma set_present: "c \<in> set (present cols) \<longleftrightarrow> Some c \<in> set cols"
  by (force simp: present_def split: option.splits)

lemma tuple_type_String:
  "type_String (MultiValueType n cols) = n @ ''('' @ join '', '' (map tuple_text (present cols)) @ '')''"
proof -
  have "concat (map (\<lambda>col. case col of None \<Rightarrow> [] | Some c \<Rightarrow>
      [col_Name c @ '' '' @ (let colType = type_String (col_Type c)
          in if \<not> contains colType ''Array'' \<and> \<not> contains colType ''Tuple'' \<and> \<not> contains colType ''DateTime''
             then ''Nullable('' @ colType @ '')'' else colType)]) cols) = map tuple_text (present cols)"
    unfolding present_def tuple_text_def nullable_text_def Let_def
    by (induction cols) (simp_all split: option.splits)
  then show ?thesis by (simp only: type_String.simps)
qed

lemma stored_tuple: "stored (MultiValueType n cols) = MultiValueType n (map Some (map stored_column (present cols)))"
  unfolding present_def stored.simps stored_column_def stored_nullable_def
  by (induction cols) (auto split: option.splits)

lemma leaf_head: "\<forall>n \<in> leaf_types. n \<noteq> [] \<and> \<not> byte_space (hd n) \<and> hd n \<noteq> CHR ''N''"
  by code_simp

lemma inferred_head:
  assumes "inferred t"
  obtains c s where "type_String t = c # s" "\<not> byte_space c" "c \<noteq> CHR ''N''"
proof (cases t)
  case (BaseType n g nul)
  then show ?thesis using assms leaf_head that by (cases n) auto
next
  case (CompoundType n u)
  then show ?thesis using assms by (intro that [of "CHR ''A''"]) (simp_all add: byte_space_def)
next
  case (MultiValueType n cols)
  then show ?thesis using assms by (intro that [of "CHR ''T''"]) (simp_all add: byte_space_def)
qed

text \<open>The type of a value is read back from its text.\<close>

lemma parse_inferred_type:
  "inferred t \<Longrightarrow> ends_type rest \<Longrightarrow> here q i (type_String t @ rest) \<Longrightarrow>
     parseType q i = Some (Some (i + int (length (type_String t)), stored t))"
proof (induction t arbitrary: i rest rule: type_String.induct)
  case (1 n g nul)
  then have n: "n \<in> leaf_types" by simp
  then have "plain_name n \<and> n \<notin> {''Array'', ''Tuple'', ''Nested''}"
    by (auto simp: leaf_types_def plain_name_def isGoodIdentChar_def byte_space_def)
  then show ?case using parse_simple_type [of q i n rest] 1 by simp
next
  case (2 n t)
  then have n: "n = ''Array''" "inferred t" by simp_all
  let ?s = "type_String t"
  have h: "here q i (''Array('' @ ?s @ '')'' @ rest)" using 2 n by simp
  then have h6: "here q (i + 6) (?s @ '')'' @ rest)" using here_append [of q i "''Array(''"] by simp
  obtain c s where "?s = c # s" "\<not> byte_space c" "c \<noteq> CHR ''N''" using n(2) by (rule inferred_head)
  then have "parseNullable q (i + 6) = parseType q (i + 6)"
    using parse_nullable_plain [of q "i + 6" c "s @ '')'' @ rest"] h6 by simp
  also have "\<dots> = Some (Some (i + 6 + int (length ?s), stored t))"
    using 2(1) [OF n(2) _ h6] ends_type_char [of "CHR '')''" rest] by simp
  finally show ?case using parse_array [OF h] n(1) by simp
next
  case (3 n cols)
  then have n: "n = ''Tuple''" "present cols \<noteq> []"
    and cols: "\<And>c. c \<in> set (present cols) \<Longrightarrow> plain_name (col_Name c) \<and> inferred (col_Type c)"
    using set_present [of _ cols] by (auto simp del: set_map)
  let ?s = "join '', '' (map tuple_text (present cols))"
  have h: "here q i (''Tuple'' @ ''('' @ ?s @ '')'' @ rest)"
    using 3(4) n(1) by (simp only: tuple_type_String append_assoc)
  have "plain_name ''Tuple''" by (simp add: plain_name_def isGoodIdentChar_def byte_space_def)
  then have ident: "parseIdent q i = Some (i + 5, ''Tuple'')"
    using parseIdent_here [of q i "[]" "''Tuple''" "CHR ''(''" "?s @ '')'' @ rest"] h
    by (simp add: isGoodIdentChar_def)
  have h5: "here q (i + 5) (''('' @ ?s @ '')'' @ rest)" using here_append [OF h] by simp
  then have bracket: "parseExact q (i + 5) ''('' = Some (i + 6)"
    using parseExact_here [of q "i + 5" "[]" "''(''"] by (simp add: byte_space_def)
  have "here q (i + 6) (?s @ '')'' @ rest)" using here_append [OF h5] by (simp add: add.commute)
  then have "tuple_columns q (i + 6) [] = Some (Some (i + 6 + int (length ?s) + 1, map stored_column (present cols)))"
    using parse_tuple_columns [OF n(2) cols, of q "i + 6" rest "[]"] 3(1) set_present cols by auto
  then show ?case
    using ident bracket here_bound [OF h] n(1)
    by (simp add: parseType.simps [of q i] stored_tuple tuple_type_String del: stored.simps type_String.simps)
qed

section \<open>Rows\<close>

lemma comma_after_here:
  "here q i (c # w @ '','' @ rest) \<Longrightarrow> CHR '','' \<notin> set w \<Longrightarrow> comma_after q i = Some (i + 1 + int (length w))"
proof (induction w arbitrary: i c)
  case Nil
  then show ?case using here_char [OF here_Cons, of q i c] by (simp add: comma_after.simps [of q i])
next
  case (Cons d w)
  then have "here q (i + 1) (d # w @ '','' @ rest)" using here_Cons [of q i c] by simp
  then show ?case using Cons.IH [of "i + 1" d] Cons.prems(2) here_char [of q "i + 1" d]
    by (auto simp: comma_after.simps [of q i])
qed

lemma keyword_at_here:
  assumes "here q i rest" "length w < length rest"
  shows "keyword_at q i w = Some (has_prefix rest w)"
  using here_take [OF assms(1), of "length w"] here_bound [OF assms(1)] assms(2)
  by (simp add: keyword_at_def has_prefix_def)

lemma expr_loop_step:
  assumes "here q i (c # w @ d # rest)" "spaces w" "\<not> byte_space d" "\<not> byte_space c"
    and "bracket_depth n c > 0 \<or> bracket_depth n c = 0 \<and> c \<notin> set '',CT)''"
  shows "expr_loop q n i = expr_loop q (bracket_depth n c) (i + 1 + int (length w))"
proof -
  have "parseMaybeAndForgetMultiple q i [''CODEC'', ''TTL'', ''COMMENT''] = Some (i, False)" if "c \<notin> set '',CT)''"
    using that assms(1,4) by (intro parseMultiple_not_here) (auto simp: has_prefix_def)
  then have "expr_ends q (bracket_depth n c) i c = Some False" using assms(5) by (auto simp: expr_ends_def)
  moreover have "omitWhitespace q (i + 1) = Some (i + 1 + int (length w))"
    using omitWhitespace_here [OF here_Cons] assms(1-3) by simp
  ultimately show ?thesis
    using here_char [OF assms(1)] here_inside [OF assms(1)] by (simp add: expr_loop.simps [of q n i])
qed

lemma expr_loop_comment:
  assumes "here q i (''COMMENT'' @ rest)"
  shows "expr_loop q 0 i = Some i"
proof -
  have "parseMaybeAndForget q i ''CODEC'' = Some (i, False)" "parseMaybeAndForget q i ''TTL'' = Some (i, False)"
    using parseMaybe_not_here [of q i "[]" "CHR ''C''"] assms by (simp_all add: byte_space_def has_prefix_def)
  moreover have "parseMaybeAndForget q i ''COMMENT'' = Some (i + 7, True)"
    using parseMaybe_here [of q i "[]" "''COMMENT''" rest] assms by (simp add: byte_space_def)
  ultimately have "expr_ends q 0 i (CHR ''C'') = Some True"
    by (simp add: expr_ends_def parseMaybeAndForgetMultiple.simps)
  then show ?thesis
    using here_char [of q i "CHR ''C''"] here_inside [of q i "CHR ''C''"] assms
    by (simp add: expr_loop.simps [of q 0 i] bracket_depth_def)
qed

lemma expr_loop_now:
  assumes "here q i (''now64() COMMENT'' @ rest)"
  shows "expr_loop q 0 i = Some (i + 8)"
proof -
  let ?r = "''COMMENT'' @ rest"
  have h: "here q (i + 1) (''ow64() '' @ ?r)" "here q (i + 2) (''w64() '' @ ?r)" "here q (i + 3) (''64() '' @ ?r)"
    "here q (i + 4) (''4() '' @ ?r)" "here q (i + 5) (''() '' @ ?r)" "here q (i + 6) ('') '' @ ?r)" "here q (i + 8) ?r"
    using assms here_append [of q i "''n''"] here_append [of q i "''no''"] here_append [of q i "''now''"]
      here_append [of q i "''now6''"] here_append [of q i "''now64''"] here_append [of q i "''now64(''"]
      here_append [of q i "''now64() ''"] by simp_all
  have "expr_loop q 0 i = expr_loop q 0 (i + 1)"
    using expr_loop_step [of q i "CHR ''n''" "[]" "CHR ''o''" "''w64() '' @ ?r" 0] assms
    by (simp add: byte_space_def bracket_depth_def add.commute)
  also have "\<dots> = expr_loop q 0 (i + 2)"
    using expr_loop_step [of q "i + 1" "CHR ''o''" "[]" "CHR ''w''" "''64() '' @ ?r" 0] h(1)
    by (simp add: byte_space_def bracket_depth_def add.commute)
  also have "\<dots> = expr_loop q 0 (i + 3)"
    using expr_loop_step [of q "i + 2" "CHR ''w''" "[]" "CHR ''6''" "''4() '' @ ?r" 0] h(2)
    by (simp add: byte_space_def bracket_depth_def add.commute)
  also have "\<dots> = expr_loop q 0 (i + 4)"
    using expr_loop_step [of q "i + 3" "CHR ''6''" "[]" "CHR ''4''" "''() '' @ ?r" 0] h(3)
    by (simp add: byte_space_def bracket_depth_def add.commute)
  also have "\<dots> = expr_loop q 0 (i + 5)"
    using expr_loop_step [of q "i + 4" "CHR ''4''" "[]" "CHR ''(''" "'') '' @ ?r" 0] h(4)
    by (simp add: byte_space_def bracket_depth_def add.commute)
  also have "\<dots> = expr_loop q 1 (i + 6)"
    using expr_loop_step [of q "i + 5" "CHR ''(''" "[]" "CHR '')''" "'' '' @ ?r" 0] h(5)
    by (simp add: byte_space_def bracket_depth_def add.commute)
  also have "\<dots> = expr_loop q 0 (i + 8)"
  proof -
    have "parseMaybeAndForgetMultiple q (i + 6) [''CODEC'', ''TTL'', ''COMMENT''] = Some (i + 6, False)"
      using h(6) by (intro parseMultiple_not_here) (auto simp: has_prefix_def byte_space_def)
    moreover have o: "omitWhitespace q (i + 7) = Some (i + 8)"
      using omitWhitespace_here [of q "i + 7" "'' ''" "CHR ''C''" "''OMMENT'' @ rest"] here_Cons [of q "i + 6" "CHR '')''"] h(6)
      by (simp add: byte_space_def add.commute)
    moreover have "parseExact q (i + 8) ''ENGINE'' = Some (-1)"
      using parseExact_not_here [of q "i + 8" "[]" "CHR ''C''" "''OMMENT'' @ rest" "''ENGINE''"] h(7)
      by (simp add: byte_space_def has_prefix_def)
    ultimately have "expr_ends q 0 (i + 6) (CHR '')'') = Some False"
      by (simp add: expr_ends_def add.commute)
    then show ?thesis
      using o here_char [of q "i + 6" "CHR '')''"] here_inside [of q "i + 6" "CHR '')''"] h(6)
      by (simp add: expr_loop.simps [of q 1 "i + 6"] bracket_depth_def add.commute)
  qed
  finally show ?thesis using expr_loop_comment [OF h(7)] by simp
qed

text \<open>What may follow a type in a statement that is generated.\<close>

definition default_texts :: "string set" where
  "default_texts = {[], '' DEFAULT now64()''}"

lemma parse_default_here:
  assumes "here q i (dflt @ '' COMMENT '' @ rest)" "dflt \<in> default_texts"
  shows "parse_default q i = Some (Some (i + int (length dflt) + 1))"
proof -
  have none: "parseMaybeAndForgetMultiple q k [''NULL'', ''NOT NULL''] = Some (k, False)"
    if "here q k (c # r)" "c = CHR ''C'' \<or> c = CHR ''D''" for k c r
    using that by (intro parseMultiple_not_here) (auto simp: has_prefix_def byte_space_def)
  have blank: "omitWhitespace q k = Some k" if "here q k (c # r)" "\<not> byte_space c" for k c r
    using omitWhitespace_here [of q k "[]" c r] that by simp
  consider "dflt = []" | "dflt = '' DEFAULT now64()''" using assms(2) by (auto simp: default_texts_def)
  then show ?thesis
  proof cases
    case 1
    have h: "here q (i + 1) (CHR ''C'' # ''OMMENT '' @ rest)" using here_Cons [of q i "CHR '' ''"] assms(1) 1 by simp
    have "omitWhitespace q i = Some (i + 1)"
      using omitWhitespace_here [of q i "'' ''" "CHR ''C''" "''OMMENT '' @ rest"] assms(1) 1 by (simp add: byte_space_def)
    moreover have "parseMaybeAndForgetMultiple q (i + 1) [''DEFAULT'', ''MATERIALIZED'', ''EPHEMERAL'', ''ALIAS''] = Some (i + 1, False)"
      using h by (intro parseMultiple_not_here) (auto simp: has_prefix_def byte_space_def)
    ultimately show ?thesis
      using none [OF h] blank [OF h] 1 by (simp add: parse_default_def byte_space_def)
  next
    case 2
    let ?r = "''COMMENT'' @ '' '' @ rest"
    have h: "here q (i + 1) (CHR ''D'' # ''EFAULT now64() '' @ ?r)" using here_Cons [of q i "CHR '' ''"] assms(1) 2 by simp
    then have h8: "here q (i + 8) ('' now64() '' @ ?r)" "here q (i + 9) (''now64() '' @ ?r)" "here q (i + 17) ?r"
      using here_append [of q "i + 1" "''DEFAULT''"] here_append [of q "i + 1" "''DEFAULT ''"]
        here_append [of q "i + 1" "''DEFAULT now64() ''"] by (simp_all add: add.commute)
    have "omitWhitespace q i = Some (i + 1)"
      using omitWhitespace_here [of q i "'' ''" "CHR ''D''" "''EFAULT now64() '' @ ?r"] assms(1) 2 by (simp add: byte_space_def)
    moreover have "parseMaybeAndForget q (i + 1) ''DEFAULT'' = Some (i + 8, True)"
      using parseMaybe_here [of q "i + 1" "[]" "''DEFAULT''"] h by (simp add: byte_space_def add.commute)
    then have "parseMaybeAndForgetMultiple q (i + 1) [''DEFAULT'', ''MATERIALIZED'', ''EPHEMERAL'', ''ALIAS''] = Some (i + 8, True)"
      by (simp add: parseMaybeAndForgetMultiple.simps)
    moreover have "omitWhitespace q (i + 8) = Some (i + 9)"
      using omitWhitespace_here [of q "i + 8" "'' ''" "CHR ''n''" "''ow64() '' @ ?r"] h8 by (simp add: byte_space_def add.commute)
    moreover have "expr_loop q 0 (i + 9) = Some (i + 17)"
      using expr_loop_now [of q "i + 9" "'' '' @ rest"] h8 by (simp add: add.commute)
    moreover have "omitWhitespace q (i + 17) = Some (i + 17)"
      using blank [of "i + 17" "CHR ''C''"] h8 by (simp add: byte_space_def)
    ultimately show ?thesis
      using none [OF h] blank [OF h] here_bound [OF h] 2
      by (simp add: parse_default_def parseExpr_def byte_space_def add.commute)
  qed
qed

lemma parse_comment_here:
  assumes "here q i (''COMMENT '' @ c @ '','' @ rest)" "CHR '','' \<notin> set c"
  shows "parse_codec q i = Some (i, [])" "parse_ttl q i = Some (Some i)"
    "parse_comment q i = Some (i + 8 + int (length c))" "column_end q (i + 8 + int (length c))"
proof -
  have k: "keyword_at q i w = Some (has_prefix (''COMMENT '' @ c @ '','' @ rest) w)" if "length w < 9" for w
    using keyword_at_here [OF assms(1), of w] that by simp
  show "parse_codec q i = Some (i, [])" "parse_ttl q i = Some (Some i)"
    by (simp_all add: parse_codec_def parse_ttl_def k has_prefix_def)
  have "comma_after q i = Some (i + 1 + int (length (''OMMENT '' @ c)))"
    using comma_after_here [of q i "CHR ''C''" "''OMMENT '' @ c" rest] assms by simp
  then show "parse_comment q i = Some (i + 8 + int (length c))"
    by (simp add: parse_comment_def k has_prefix_def)
  have "here q (i + 8 + int (length c)) (CHR '','' # rest)"
    using here_append [of q i "''COMMENT '' @ c"] assms(1) by (simp add: algebra_simps)
  then show "column_end q (i + 8 + int (length c))"
    by (simp add: column_end_def here_char)
qed

text \<open>A type as the statement spells it, with the type that is read back.\<close>

definition spells :: "string \<Rightarrow> click_type \<Rightarrow> bool" where
  "spells s t \<longleftrightarrow>
     (\<exists>c s'. s = c # s' \<and> \<not> byte_space c) \<and>
     (\<forall>q i rest. ends_type rest \<longrightarrow> here q i (s @ rest) \<longrightarrow> parseNullable q i = Some (Some (i + int (length s), t)))"

lemma spells_inferred: "inferred t \<Longrightarrow> spells (nullable_text (type_String t)) (stored_nullable t)"
  unfolding spells_def using nullable_text_head parse_nullable_text parse_inferred_type by blast

lemma spells_nullable:
  assumes "plain_name n" "n \<notin> {''Array'', ''Tuple'', ''Nested''}"
  shows "spells (''Nullable('' @ n @ '')'') (set_nullable (NewBaseType n))"
  unfolding spells_def
proof (intro conjI allI impI)
  fix q i rest
  assume e: "ends_type rest" and h: "here q i ((''Nullable('' @ n @ '')'') @ rest)"
  then have h': "here q i (''Nullable('' @ n @ '')'' @ rest)" by simp
  then have "here q (i + 9) (n @ '')'' @ rest)" using here_append [of q i "''Nullable(''"] by simp
  then have "parseType q (i + 9) = Some (Some (i + 9 + int (length n), NewBaseType n))"
    using parse_simple_type [of q "i + 9" n "'')'' @ rest"] assms ends_type_char [of "CHR '')''" rest] by simp
  from parse_nullable_wrapped [OF h' this]
  show "parseNullable q i = Some (Some (i + int (length (''Nullable('' @ n @ '')'')), set_nullable (NewBaseType n)))"
    by simp
qed (simp add: byte_space_def)

lemma parseNullable_space:
  assumes "here q i (CHR '' '' # c # rest)" "\<not> byte_space c"
  shows "parseNullable q i = parseNullable q (i + 1)"
proof -
  have "omitWhitespace q i = Some (i + 1)" "omitWhitespace q (i + 1) = Some (i + 1)"
    using omitWhitespace_here [of q i "'' ''" c rest] omitWhitespace_here [of q "i + 1" "[]" c rest] here_Cons [OF assms(1)] assms
    by (simp_all add: byte_space_def)
  then show ?thesis by (simp add: parseNullable.simps)
qed

lemma parse_row:
  assumes "here q i (w @ column_row comment \<lparr>ClickHouseColumnName = n, ClickHouseType = s @ dflt\<rparr> @ '','' @ rest)"
    and "spaces w" "plain_name n" "spells s t" "dflt \<in> default_texts" "CHR '','' \<notin> set comment"
  shows "\<exists>j. parseColumn q i = Some (Some (j, Column n t [] [] [])) \<and> here q j ('','' @ rest)"
proof -
  define c where "c = '' '' @ [CHR 0x27] @ comment @ [CHR 0x27]"
  define i1 i2 i3 i4 i5 where "i1 = i + int (length w) + 2" and "i2 = i1 + int (length n)" and "i3 = i2 + 2"
    and "i4 = i3 + int (length s)" and "i5 = i4 + int (length dflt) + 1"
  let ?r5 = "''COMMENT '' @ c @ '','' @ rest" and ?ws = "w @ [CHR 0x09]"
  let ?r4 = "dflt @ '' COMMENT '' @ c @ '','' @ rest"
  have "here q i (?ws @ [CHR 0x22] @ n @ [CHR 0x22] @ '' '' @ s @ ?r4)"
    using assms(1) by (simp add: column_row_def Indent_def c_def)
  then have h: "here q (i + int (length w) + 1) ([CHR 0x22] @ n @ [CHR 0x22] @ '' '' @ s @ ?r4)"
    and h0: "here q i (w @ CHR 0x09 # CHR 0x22 # n @ [CHR 0x22] @ '' '' @ s @ ?r4)"
    using here_append [of q i ?ws] by (simp_all add: algebra_simps)
  have h1: "here q i1 (n @ [CHR 0x22] @ '' '' @ s @ ?r4)"
    using here_append [OF h] by (simp add: i1_def algebra_simps)
  have h2: "here q i2 ([CHR 0x22] @ '' '' @ s @ ?r4)" using here_append [OF h1] by (simp add: i2_def)
  have h2': "here q (i2 + 1) (CHR '' '' # s @ ?r4)" using here_append [OF h2] by simp
  have h3: "here q i3 (s @ ?r4)" using here_Cons [OF h2'] by (simp add: i3_def algebra_simps)
  have h4: "here q i4 ?r4" using here_append [OF h3] by (simp add: i4_def)
  have h5: "here q i5 ?r5" using here_append [of q i4 "dflt @ '' ''"] h4 by (simp add: i5_def algebra_simps)
  have e4: "ends_type ?r4"
    using assms(5) ends_type_space [of "CHR ''C''"] ends_type_space [of "CHR ''D''"]
    by (auto simp: default_texts_def byte_space_def)
  have start: "omitWhitespace q i = Some (i + int (length w) + 1)"
    using omitWhitespace_here [of q i ?ws "CHR 0x22"] h0 assms(2) by (simp add: byte_space_def algebra_simps)
  have bounds: "0 \<le> i + int (length w)" using here_bound [OF h0] by simp
  have quote1: "parseExact q (i + int (length w) + 1) [CHR 0x22] = Some i1"
    using parseExact_here [of q "i + int (length w) + 1" "[]" "[CHR 0x22]"] h by (simp add: byte_space_def i1_def)
  have name: "parseIdent q i1 = Some (i2, n)"
    using parseIdent_here [of q i1 "[]" n "CHR 0x22"] h1 assms(3) by (simp add: isGoodIdentChar_def i2_def)
  have quote2: "parseExact q i2 [CHR 0x22] = Some (i2 + 1)"
    using parseExact_here [of q i2 "[]" "[CHR 0x22]"] h2 by (simp add: byte_space_def)
  obtain b s' where b: "s = b # s'" "\<not> byte_space b" using assms(4) by (auto simp: spells_def)
  have type_read: "parseNullable q (i2 + 1) = Some (Some (i4, t))"
    using parseNullable_space [of q "i2 + 1" b "s' @ ?r4"] h2' b assms(4) e4 h3
    by (simp add: spells_def i3_def i4_def add.commute)
  have dflt: "parse_default q i4 = Some (Some i5)"
    using parse_default_here [of q i4 dflt "c @ '','' @ rest"] h4 assms(5) by (simp add: i5_def)
  have "CHR '','' \<notin> set c" using assms(6) by (simp add: c_def)
  note comment = parse_comment_here [of q i5 c rest, OF h5 this]
  have "parseColumn q i = Some (Some (i5 + 8 + int (length c), Column n t [] [] []))"
    using start quote1 name quote2 type_read dflt comment bounds by (simp add: parseColumn_def i1_def i2_def)
  moreover have "here q (i5 + 8 + int (length c)) ('','' @ rest)"
    using here_append [of q i5 "''COMMENT '' @ c"] h5 by (simp add: algebra_simps)
  ultimately show ?thesis by blast
qed

section \<open>Statements\<close>

text \<open>A row of a statement: comment, name, type, default, and the type that is read back.\<close>

type_synonym table_row = "string \<times> string \<times> string \<times> string \<times> click_type"

fun row_text :: "table_row \<Rightarrow> string" where
  "row_text (comment, n, s, dflt, t) = column_row comment \<lparr>ClickHouseColumnName = n, ClickHouseType = s @ dflt\<rparr>"

fun row_ok :: "table_row \<Rightarrow> bool" where
  "row_ok (comment, n, s, dflt, t) \<longleftrightarrow> plain_name n \<and> spells s t \<and> dflt \<in> default_texts \<and> CHR '','' \<notin> set comment"

fun add_row :: "(string \<times> click_column) list \<Rightarrow> table_row \<Rightarrow> (string \<times> click_column) list" where
  "add_row cols (comment, n, s, dflt, t) = AList.update n (Column n t [] [] []) cols"

lemma row_text_head: "row_text r = CHR 0x09 # CHR 0x22 # tl (tl (row_text r))"
  by (cases r) (simp add: column_row_def Indent_def)

definition ends_columns :: "string \<Rightarrow> bool" where
  "ends_columns rest \<longleftrightarrow> (\<exists>w r. spaces w \<and> (rest = w @ CHR '')'' # r \<or> rest = w @ ''INDEX'' @ r))"

definition row_end :: string where "row_end = '','' @ [CHR 0x0A]"

lemma columns_loop_end:
  assumes "here q i (w @ ''INDEX'' @ rest)" "spaces w"
  shows "columns_loop q i t = Some (t, 0)"
proof -
  have "omitWhitespace q i = Some (i + int (length w))"
    using omitWhitespace_here [of q i w "CHR ''I''"] assms by (simp add: byte_space_def)
  moreover have "here q (i + int (length w)) (''INDEX'' @ rest)" using assms(1) by (rule here_append)
  then have "parseExact q (i + int (length w)) ''INDEX'' = Some (i + int (length w) + 5)"
    using parseExact_here [of q "i + int (length w)" "[]" "''INDEX''"] by (simp add: byte_space_def)
  ultimately show ?thesis using here_bound [OF assms(1)] by (simp add: columns_loop.simps)
qed

lemma columns_loop_row:
  assumes "here q i (w @ row_text r @ '','' @ rest)" "spaces w" "row_ok r"
  obtains j where "here q (j + 1) rest"
    "\<And>v c rest' t. rest = v @ c # rest' \<Longrightarrow> spaces v \<Longrightarrow> \<not> byte_space c \<Longrightarrow>
       columns_loop q i t =
         (let t = t\<lparr>parsed_Cols := add_row (parsed_Cols t) r\<rparr>
          in if c = CHR '')'' then Some (t, 0) else columns_loop q (j + 1) t)"
proof -
  obtain comment n s dflt ty where r: "r = (comment, n, s, dflt, ty)" by (cases r)
  then obtain j where col: "parseColumn q i = Some (Some (j, Column n ty [] [] []))" and hj: "here q j ('','' @ rest)"
    using parse_row [of q i w comment n s dflt rest ty] assms by auto
  have ws: "here q i ((w @ [CHR 0x09]) @ CHR 0x22 # tl (tl (row_text r)) @ '','' @ rest)"
    using assms(1) row_text_head [of r] by (metis append_Cons append_Nil append.assoc)
  have start: "omitWhitespace q i = Some (i + int (length w) + 1)"
    using omitWhitespace_here [OF ws] assms(2) by (simp add: byte_space_def)
  have "parseExact q (i + int (length w) + 1) ''INDEX'' = Some (-1)"
    using parseExact_not_here [of q "i + int (length w) + 1" "[]" "CHR 0x22"] here_append [OF ws]
    by (simp add: byte_space_def has_prefix_def algebra_simps)
  moreover have comma: "omitWhitespace q j = Some j" "char_at q j = Some (CHR '','')" "0 \<le> j"
    using omitWhitespace_here [of q j "[]" "CHR '',''" rest] here_char [of q j "CHR '',''" rest] here_bound [OF hj] hj
    by (simp_all add: byte_space_def)
  have h1: "here q (j + 1) rest" using here_append [OF hj] by simp
  ultimately show ?thesis
    apply (intro that [OF h1])
    subgoal for v c rest' t
      using start col comma omitWhitespace_here [of q "j + 1" v c rest'] h1 here_append [of q "j + 1" v "c # rest'"]
        here_char [of q "j + 1 + int (length v)" c rest']
      by (simp add: columns_loop.simps [of q i t] r Let_def)
    done
qed

lemma columns_loop_rows:
  assumes "rows \<noteq> []" "\<forall>r \<in> set rows. row_ok r" "spaces w" "ends_columns rest"
    and "here q i (w @ join row_end (map row_text rows) @ row_end @ rest)"
  shows "columns_loop q i t = Some (t\<lparr>parsed_Cols := foldl add_row (parsed_Cols t) rows\<rparr>, 0)"
  using assms
proof (induction rows arbitrary: w i t)
  case (Cons r rows)
  let ?t = "t\<lparr>parsed_Cols := add_row (parsed_Cols t) r\<rparr>"
  define more where "more = CHR 0x0A # (if rows = [] then rest else join row_end (map row_text rows) @ row_end @ rest)"
  have h: "here q i (w @ row_text r @ '','' @ more)"
    using Cons.prems(5) by (cases "rows = []") (simp_all add: more_def row_end_def join_Cons)
  obtain j where j: "here q (j + 1) more"
    "\<And>v c rest' t. more = v @ c # rest' \<Longrightarrow> spaces v \<Longrightarrow> \<not> byte_space c \<Longrightarrow>
       columns_loop q i t =
         (let t = t\<lparr>parsed_Cols := add_row (parsed_Cols t) r\<rparr>
          in if c = CHR '')'' then Some (t, 0) else columns_loop q (j + 1) t)"
    using columns_loop_row [OF h] Cons.prems(2,3) by auto
  show ?case
  proof (cases "rows = []")
    case True
    obtain v r' where v: "spaces v" and "rest = v @ CHR '')'' # r' \<or> rest = v @ ''INDEX'' @ r'"
      using Cons.prems(4) by (auto simp: ends_columns_def)
    then consider "rest = v @ CHR '')'' # r'" | "rest = v @ ''INDEX'' @ r'" by blast
    then show ?thesis
    proof cases
      case 1
      then show ?thesis using j(2) [of "CHR 0x0A # v" "CHR '')''" r' t] True v by (simp add: more_def byte_space_def)
    next
      case 2
      then have "columns_loop q (j + 1) ?t = Some (?t, 0)"
        using columns_loop_end [of q "j + 1" "CHR 0x0A # v" r' ?t] j(1) True v by (simp add: more_def byte_space_def)
      then show ?thesis
        using j(2) [of "CHR 0x0A # v" "CHR ''I''" "''NDEX'' @ r'" t] 2 True v by (simp add: more_def byte_space_def)
    qed
  next
    case False
    then obtain r2 rs where rows: "rows = r2 # rs" by (cases rows) auto
    define r3 where "r3 = tl (tl (row_text r2)) @ (if rs = [] then [] else row_end @ join row_end (map row_text rs)) @ row_end @ rest"
    have "more = [CHR 0x0A, CHR 0x09] @ CHR 0x22 # r3"
      using rows row_text_head [of r2] by (simp add: more_def r3_def join_Cons)
    then have "columns_loop q i t = columns_loop q (j + 1) ?t"
      using j(2) [of "[CHR 0x0A, CHR 0x09]" "CHR 0x22" r3 t] by (simp add: byte_space_def)
    moreover have "here q (j + 1) ([CHR 0x0A] @ join row_end (map row_text rows) @ row_end @ rest)"
      using j(1) False by (simp add: more_def)
    then have "columns_loop q (j + 1) ?t = Some (?t\<lparr>parsed_Cols := foldl add_row (parsed_Cols ?t) rows\<rparr>, 0)"
      using Cons.IH [of "[CHR 0x0A]" "j + 1" ?t] Cons.prems(2,4) False by (simp add: byte_space_def)
    ultimately show ?thesis by simp
  qed
qed simp

text \<open>Names of tables and clusters that are read back as they are written.\<close>

definition plain_cluster :: "string \<Rightarrow> bool" where
  "plain_cluster c \<longleftrightarrow> c = [] \<or> plain_name c \<and> quote c = [CHR 0x22] @ c @ [CHR 0x22]"

lemma parse_cluster_here:
  assumes "here q i ('' '' @ (if c \<noteq> [] then ''ON CLUSTER '' @ quote c @ '' '' else []) @ CHR 0x0A # CHR ''('' # rest)"
    and "plain_cluster c" "parsed_Cluster t = []"
  shows "\<exists>j. parse_cluster q i t = Some (Inr (t\<lparr>parsed_Cluster := c\<rparr>, j)) \<and> parseExact q j ''('' = Some (j + 3)
    \<and> here q (j + 3) rest"
proof (cases "c = []")
  case True
  then have h: "here q i ([CHR '' '', CHR 0x0A] @ CHR ''('' # rest)" using assms(1) by simp
  have "parseExact q i ''ON CLUSTER '' = Some (-1)"
    using parseExact_not_here [OF h] by (simp add: byte_space_def has_prefix_def)
  moreover have "parseExact q i ''('' = Some (i + 3)"
    using parseExact_here [of q i "[CHR '' '', CHR 0x0A]" "''(''" rest] h by (simp add: byte_space_def)
  moreover have "here q (i + 3) rest" using here_append [of q i "[CHR '' '', CHR 0x0A, CHR ''('']"] h by simp
  ultimately show ?thesis using True assms(3) by (auto simp: parse_cluster_def intro!: exI [of _ i])
next
  case False
  then have c: "plain_name c" "quote c = [CHR 0x22] @ c @ [CHR 0x22]" using assms(2) by (auto simp: plain_cluster_def)
  let ?r = "[CHR '' '', CHR 0x0A] @ CHR ''('' # rest"
  have h: "here q i ('' '' @ ''ON CLUSTER '' @ [CHR 0x22] @ c @ [CHR 0x22] @ ?r)" using assms(1) False c by simp
  define i1 i2 i3 where "i1 = i + 12" and "i2 = i1 + 1" and "i3 = i2 + int (length c)"
  have h1: "here q i1 ([CHR 0x22] @ c @ [CHR 0x22] @ ?r)" using here_append [of q i "'' ON CLUSTER ''"] h by (simp add: i1_def)
  have h2: "here q i2 (c @ [CHR 0x22] @ ?r)" using here_append [OF h1] by (simp add: i2_def)
  have h3: "here q i3 ([CHR 0x22] @ ?r)" using here_append [OF h2] by (simp add: i3_def)
  have h4: "here q (i3 + 1) ?r" using here_append [OF h3] by simp
  have "parseExact q i ''ON CLUSTER '' = Some i1"
    using parseExact_here [of q i "'' ''" "''ON CLUSTER ''"] h by (simp add: byte_space_def i1_def)
  moreover have "omitWhitespace q i1 = Some i1"
    using omitWhitespace_here [of q i1 "[]" "CHR 0x22"] h1 by (simp add: byte_space_def)
  moreover have "parseMaybeAndForget q i1 [CHR 0x22] = Some (i2, True)"
    using parseMaybe_here [of q i1 "[]" "[CHR 0x22]"] h1 by (simp add: byte_space_def i2_def)
  moreover have "parseIdent q i2 = Some (i3, c)"
    using parseIdent_here [of q i2 "[]" c "CHR 0x22"] h2 c(1) by (simp add: isGoodIdentChar_def i3_def)
  moreover have "parseMaybeAndForget q i3 [CHR 0x22] = Some (i3 + 1, True)"
    using parseMaybe_here [of q i3 "[]" "[CHR 0x22]"] h3 by (simp add: byte_space_def)
  moreover have "0 \<le> i" using here_bound [OF h] by simp
  ultimately have "parse_cluster q i t = Some (Inr (t\<lparr>parsed_Cluster := c\<rparr>, i3 + 1))"
    by (simp add: parse_cluster_def i1_def i2_def i3_def)
  moreover have "parseExact q (i3 + 1) ''('' = Some (i3 + 1 + 3)"
    using parseExact_here [of q "i3 + 1" "[CHR '' '', CHR 0x0A]" "''(''" rest] h4 by (simp add: byte_space_def)
  moreover have "here q (i3 + 1 + 3) rest"
    using here_append [of q "i3 + 1" "[CHR '' '', CHR 0x0A, CHR ''('']"] h4 by simp
  ultimately show ?thesis by auto
qed

text \<open>What the parser makes of a statement whose rows it understands.\<close>

lemma parse_statement:
  assumes "plain_name n" "plain_cluster (config_Cluster config)"
    and "rows \<noteq> []" "\<forall>r \<in> set rows. row_ok r"
    and "\<And>r. ends_columns (idx @ CHR 0x0A # CHR '')'' # r)"
  shows "ParseCreateTable (createTableQuery n (join row_end (map row_text rows) @ row_end @ idx) config)
    = Some ((set_table_name n empty_table)\<lparr>parsed_Cluster := config_Cluster config,
        parsed_Cols := foldl add_row [] rows\<rparr>, 0)"
proof -
  define q where "q = createTableQuery n (join row_end (map row_text rows) @ row_end @ idx) config"
  let ?c = "config_Cluster config"
  define r where "r = CHR 0x0A # CreateTablePostFieldsString config @ [CHR 0x0A] @ ''COMMENT '' @ [CHR 0x27] @ ''created by Quesma'' @ [CHR 0x27]"
  define body where "body = [CHR 0x0A, CHR 0x0A] @ join row_end (map row_text rows) @ row_end @ idx @ CHR 0x0A # CHR '')'' # r"
  define tail where "tail = '' '' @ (if ?c \<noteq> [] then ''ON CLUSTER '' @ quote ?c @ '' '' else []) @ CHR 0x0A # CHR ''('' # body"
  define t where "t = set_table_name n empty_table"
  have t: "parsed_Cluster t = []" "parsed_Cols t = []" by (simp_all add: t_def set_table_name_def empty_table_def)
  have h: "here q 0 (''CREATE TABLE '' @ ''IF NOT EXISTS '' @ [CHR 0x22] @ n @ [CHR 0x22] @ tail)"
    using here_start [of q] by (simp add: q_def createTableQuery_def tail_def body_def r_def)
  have h1: "here q 13 (''IF NOT EXISTS '' @ [CHR 0x22] @ n @ [CHR 0x22] @ tail)" using here_append [OF h] by simp
  have h2: "here q 27 ([CHR 0x22] @ n @ [CHR 0x22] @ tail)" using here_append [OF h1] by simp
  have h3: "here q 28 (n @ [CHR 0x22] @ tail)" using here_append [OF h2] by simp
  define i where "i = 28 + int (length n)"
  have h4: "here q i ([CHR 0x22] @ tail)" using here_append [OF h3] by (simp add: i_def)
  have h5: "here q (i + 1) tail" using here_append [OF h4] by simp
  have "parseExact q 0 ''CREATE TABLE '' = Some 13"
    using parseExact_here [of q 0 "[]" "''CREATE TABLE ''"] h by (simp add: byte_space_def)
  moreover have "parseMaybeAndForget q 13 ''IF NOT EXISTS '' = Some (27, True)"
    using parseMaybe_here [of q 13 "[]" "''IF NOT EXISTS ''"] h1 by (simp add: byte_space_def)
  moreover have "parse_table_name q 27 empty_table = Some (Inr (t, i + 1))"
  proof -
    have "omitWhitespace q 27 = Some 27"
      using omitWhitespace_here [of q 27 "[]" "CHR 0x22"] h2 by (simp add: byte_space_def)
    moreover have "parseExact q 27 [CHR 0x22] = Some 28"
      using parseExact_here [of q 27 "[]" "[CHR 0x22]"] h2 by (simp add: byte_space_def)
    moreover have "parseIdent q 28 = Some (i, n)"
      using parseIdent_here [of q 28 "[]" n "CHR 0x22" tail] h3 assms(1) by (simp add: isGoodIdentChar_def i_def)
    moreover have "parseExact q i [CHR 0x22] = Some (i + 1)"
      using parseExact_here [of q i "[]" "[CHR 0x22]"] h4 by (simp add: byte_space_def)
    ultimately show ?thesis
      by (simp add: parse_table_name_def t_def i_def)
  qed
  moreover obtain j where "parse_cluster q (i + 1) t = Some (Inr (t\<lparr>parsed_Cluster := ?c\<rparr>, j))"
      "parseExact q j ''('' = Some (j + 3)" and hj: "here q (j + 3) body"
    using parse_cluster_here [of q "i + 1" ?c body t] h5 assms(2) t by (auto simp: tail_def)
  moreover have "columns_loop q (j + 3) (t\<lparr>parsed_Cluster := ?c\<rparr>)
      = Some (t\<lparr>parsed_Cluster := ?c, parsed_Cols := foldl add_row [] rows\<rparr>, 0)"
    using columns_loop_rows [of rows "[CHR 0x0A, CHR 0x0A]" "idx @ CHR 0x0A # CHR '')'' # r" q "j + 3" "t\<lparr>parsed_Cluster := ?c\<rparr>"]
      assms(3-5) hj t by (simp add: body_def byte_space_def)
  moreover have "0 \<le> j + 3" using here_bound [OF hj] by simp
  ultimately show ?thesis
    by (simp add: q_def [symmetric] ParseCreateTable_def t_def)
qed

section \<open>The table of a first document\<close>

text \<open>Documents whose objects only have names that are read back.\<close>

fun plain_names :: "json \<Rightarrow> bool" where
  "plain_names (JObject m) = (\<forall>(k, v) \<in> set m. plain_name k \<and> plain_names v)"
| "plain_names (JArray xs) = (\<forall>x \<in> set xs. plain_names x)"
| "plain_names _ = True"

lemma NewType_inferred:
  "NewType v origin = Inr t \<Longrightarrow> plain_names v \<Longrightarrow> inferred t"
  "new_columns m origin = Inr cols \<Longrightarrow> \<forall>(k, v) \<in> set m. plain_name k \<and> plain_names v \<Longrightarrow>
     length cols = length m \<and> (\<forall>c \<in> set cols. \<exists>d. c = Some d \<and> plain_name (col_Name d) \<and> inferred (col_Type d))"
proof (induction v origin and m origin arbitrary: t and cols rule: NewType_new_columns.induct)
  case (4 m origin)
  then obtain cols where cols: "new_columns m origin = Inr cols" "length m + length cols \<noteq> 0"
      "t = MultiValueType ''Tuple'' (replicate (length m) None @ cols)"
    by (auto split: sum.splits if_splits)
  from 4(1) [OF cols(1)] 4(3) have c: "length cols = length m"
      "\<forall>c \<in> set cols. \<exists>d. c = Some d \<and> plain_name (col_Name d) \<and> inferred (col_Type d)" by auto
  from c(1) cols(2) have "cols \<noteq> []" by auto
  with c(2) have "\<exists>d. Some d \<in> set cols" by (cases cols) auto
  with c(2) cols(3) show ?case by auto
next
  case (5 xs origin)
  then show ?case by (auto split: list.splits sum.splits)
next
  case (8 k v m origin)
  then show ?case by (cases "new_columns m origin") (auto split: sum.splits)
qed (auto simp: leaf_types_def split: if_splits sum.splits)

lemma escape_no_comma: "CHR '','' \<notin> set (QueryEscape s)"
proof -
  have hex: "upper_hex k \<noteq> CHR '',''" if "k < 16" for k
    using of_char_upper_hex [OF that] by (auto split: if_splits)
  have "x \<noteq> CHR '',''" if "x \<in> set (escape_char c)" for x c
    using that hex [of "of_char c div 16"] hex [of "of_char c mod 16"] of_char_div_16 [of c]
    by (auto simp: escape_char_def unreserved_def split: if_splits)
  then show ?thesis by (auto simp: QueryEscape_def)
qed

lemma marshalled_no_comma: "CHR '','' \<notin> set (column_comment reverseMap n)"
  by (simp add: column_comment_def Marshall_def Encode_def encode_pair_def escape_no_comma metadataPrefix_def metadataVersion_def)

lemma rows_of_json_alone:
  "rows_of_json reverseMap es [] = (map (\<lambda>e. column_row (column_comment reverseMap (ClickHouseColumnName e)) e) es, [])"
  by (induction es) (simp_all add: entry_of_json_def)

definition document_rows :: "(string \<rightharpoonup> string \<times> string) \<Rightarrow> table_config \<Rightarrow> json_map \<Rightarrow> table_row list" where
  "document_rows reverseMap config m =
     concat (map (\<lambda>(name, v). case NewType v name of
         Inl _ \<Rightarrow> []
       | Inr t \<Rightarrow> [(column_comment reverseMap name, name, nullable_text (type_String t),
           if name = clickhouse_timestamp \<and> TimestampDefaultsNow config then '' DEFAULT now64()'' else [], stored_nullable t)]) m)"

lemma document_rows_text:
  "columnsToString (JsonToColumns m config) [] es tableName
     = join row_end (map row_text (document_rows (reverseFieldEncoding es tableName) config m))"
proof -
  have "map (\<lambda>e. column_row (column_comment f (ClickHouseColumnName e)) e) (JsonToColumns m config)
      = map row_text (document_rows f config m)" for f
    unfolding JsonToColumns_def document_rows_def
    by (induction m) (auto split: sum.splits prod.splits)
  then show ?thesis by (simp add: columnsToString_def rows_of_json_alone row_end_def)
qed

lemma document_rows_ok:
  assumes "\<forall>(k, v) \<in> set m. plain_name k \<and> plain_names v"
  shows "\<forall>r \<in> set (document_rows f config m). row_ok r"
  using assms NewType_inferred(1) marshalled_no_comma spells_inferred
  by (fastforce simp: document_rows_def default_texts_def split: sum.splits)

lemma document_columns:
  assumes "distinct (map fst m)"
  shows "map_of (foldl add_row cols (document_rows f config m)) k =
    (case map_of m k of
       None \<Rightarrow> map_of cols k
     | Some v \<Rightarrow> (case NewType v k of Inl _ \<Rightarrow> map_of cols k | Inr t \<Rightarrow> Some (Column k (stored_nullable t) [] [] [])))"
  using assms
proof (induction m arbitrary: cols)
  case Nil
  then show ?case by (simp add: document_rows_def)
next
  case (Cons kv m)
  obtain n v where kv: "kv = (n, v)" by (cases kv)
  have "map_of m n = None" using Cons.prems kv by (simp add: map_of_eq_None_iff)
  then show ?case
    using Cons kv by (auto simp: document_rows_def update_conv' split: sum.splits option.splits)
qed

lemma index_statement: "GetIndexStatement c = [] \<or> (\<exists>s. GetIndexStatement c = ''INDEX'' @ s)"
  by (simp add: GetIndexStatement_def)

lemma Indexes_text_split:
  "\<exists>idx. Indexes_text m = row_end @ idx \<and> (\<forall>r. ends_columns (idx @ CHR 0x0A # CHR '')'' # r))"
proof (induction m)
  case Nil
  have "ends_columns (CHR 0x0A # CHR '')'' # r)" for r
    unfolding ends_columns_def by (rule exI [of _ "[CHR 0x0A]"]) (auto simp: byte_space_def)
  then show ?case by (auto simp: Indexes_text_def row_end_def)
next
  case (Cons p m)
  obtain c v where p: "p = (c, v)" by (cases p)
  show ?case
  proof (cases "GetIndexStatement c = []")
    case True
    then show ?thesis using Cons p by (simp add: Indexes_text_def)
  next
    case False
    then obtain s where s: "GetIndexStatement c = ''INDEX'' @ s" using index_statement by blast
    have "ends_columns ((CHR 0x09 # ''INDEX'' @ s') @ CHR 0x0A # CHR '')'' # r)" for r s'
      unfolding ends_columns_def by (rule exI [of _ "[CHR 0x09]"]) (auto simp: byte_space_def)
    moreover have "Indexes_text (p # m) = row_end @ CHR 0x09 # ''INDEX'' @ s @ Indexes_text m"
      using p s by (simp add: Indexes_text_def row_end_def Indent_def)
    ultimately show ?thesis by (metis append.assoc append_Cons)
  qed
qed

lemma first_table:
  assumes "plain_name tbl" "plain_cluster (config_Cluster config)" "\<forall>(k, v) \<in> set m. plain_name k \<and> plain_names v"
    and "\<exists>(k, v) \<in> set m. \<exists>t. NewType v k = Inr t"
  shows "ParseCreateTable (createTableQuery tbl
        (columnsWithIndexes (columnsToString (JsonToColumns m config) [] es tbl) (Indexes_text m)) config)
    = Some ((set_table_name tbl empty_table)\<lparr>parsed_Cluster := config_Cluster config,
        parsed_Cols := foldl add_row [] (document_rows (reverseFieldEncoding es tbl) config m)\<rparr>, 0)"
proof -
  obtain idx where idx: "Indexes_text m = row_end @ idx" "\<And>r. ends_columns (idx @ CHR 0x0A # CHR '')'' # r)"
    using Indexes_text_split by blast
  have "document_rows (reverseFieldEncoding es tbl) config m \<noteq> []" using assms(4) by (force simp: document_rows_def)
  from parse_statement [OF assms(1,2) this document_rows_ok [OF assms(3)] idx(2)]
  show ?thesis using idx(1) by (simp add: columnsWithIndexes_def document_rows_text)
qed

text \<open>
  C8: The table the gateway keeps after it creates one for a first document has the columns of the
  statement it sends: the statement is parsed without error, and the columns are exactly the fields
  of the document whose type can be inferred, each with its inferred type, nullable unless it is an
  array, a tuple or a date.
\<close>

theorem created_table_reads_back:
  assumes "plain_name tbl" "CHR ''.'' \<notin> set tbl" "plain_cluster (config_Cluster config)"
    and "distinct (map fst m)" "\<forall>(k, v) \<in> set m. plain_name k \<and> plain_names v"
    and "\<exists>(k, v) \<in> set m. \<exists>t. NewType v k = Inr t"
  shows "\<exists>t. ParseCreateTable (createTableQuery tbl
        (columnsWithIndexes (columnsToString (JsonToColumns m config) [] es tbl) (Indexes_text m)) config) = Some (t, 0)
    \<and> parsed_Name t = tbl \<and> parsed_Database t = [] \<and> parsed_Cluster t = config_Cluster config
    \<and> (\<forall>k. map_of (parsed_Cols t) k =
          (case map_of m k of
             None \<Rightarrow> None
           | Some v \<Rightarrow> (case NewType v k of Inl _ \<Rightarrow> None | Inr ty \<Rightarrow> Some (Column k (stored_nullable ty) [] [] []))))"
  using first_table [OF assms(1,3,5,6)] document_columns [OF assms(4), of "[]"] assms(2)
  by (auto simp: set_table_name_def empty_table_def split: option.splits sum.splits)

definition sample_document :: json_map where
  "sample_document =
     [(''@timestamp'', JString ''2024-01-01T00:00:00Z''), (''size'', JNumber (Finite False (2 ^ 52) (-52))),
      (''tags'', JArray [JString ''a'']), (''gone'', JNull)]"

lemma sample_types:
  "NewType (JNumber (Finite False (2 ^ 52) (-52))) n = Inr (BaseType ''Int64'' GoInt64 False)"
  "NewType JNull n = Inl (NilType n)"
  by (simp_all add: is_integral_def)

lemma sample_document_plain:
  "distinct (map fst sample_document)" "\<forall>(k, v) \<in> set sample_document. plain_name k \<and> plain_names v"
  "\<exists>(k, v) \<in> set sample_document. \<exists>t. NewType v k = Inr t"
  subgoal by (simp add: sample_document_def)
  subgoal by (simp add: sample_document_def plain_name_def isGoodIdentChar_def byte_space_def)
  subgoal using sample_types(1) [of "''size''"] by (auto simp: sample_document_def simp del: NewType.simps)
  done

theorem created_table_reads_back_witness:
  "\<exists>t. ParseCreateTable (createTableQuery ''logs''
        (columnsWithIndexes (columnsToString (JsonToColumns sample_document (NewOnlySchemaFieldsCHConfig [])) [] [] ''logs'')
          (Indexes_text sample_document)) (NewOnlySchemaFieldsCHConfig [])) = Some (t, 0)
    \<and> parsed_Name t = ''logs''
    \<and> map_of (parsed_Cols t) ''size'' = Some (Column ''size'' (BaseType ''Int64'' GoInt64 True) [] [] [])
    \<and> map_of (parsed_Cols t) ''gone'' = None"
proof -
  have config: "plain_cluster (config_Cluster (NewOnlySchemaFieldsCHConfig []))" "plain_name ''logs''" "CHR ''.'' \<notin> set ''logs''"
    by (simp_all add: plain_cluster_def NewOnlySchemaFieldsCHConfig_def plain_name_def isGoodIdentChar_def byte_space_def)
  have "stored_nullable (BaseType ''Int64'' GoInt64 False) = BaseType ''Int64'' GoInt64 True" by code_simp
  moreover have "map_of sample_document ''size'' = Some (JNumber (Finite False (2 ^ 52) (-52)))"
    "map_of sample_document ''gone'' = Some JNull" by (simp_all add: sample_document_def)
  ultimately show ?thesis
    using created_table_reads_back [OF config(2,3,1) sample_document_plain, of "[]"] sample_types
    by (auto simp del: NewType.simps)
qed

text \<open>A dot in the name of an index makes the part before it the name of a database.\<close>

lemma dotted_names_are_split:
  assumes "plain_name (db @ ''.'' @ tbl)" "CHR ''.'' \<notin> set db" "plain_cluster (config_Cluster config)"
    and "\<forall>(k, v) \<in> set m. plain_name k \<and> plain_names v" "\<exists>(k, v) \<in> set m. \<exists>t. NewType v k = Inr t"
  shows "\<exists>t. ParseCreateTable (createTableQuery (db @ ''.'' @ tbl)
        (columnsWithIndexes (columnsToString (JsonToColumns m config) [] es (db @ ''.'' @ tbl)) (Indexes_text m)) config) = Some (t, 0)
    \<and> parsed_Database t = db \<and> parsed_Name t = tbl"
proof -
  have "split_on (CHR ''.'') (db @ ''.'' @ tbl) = db # split_on (CHR ''.'') tbl"
    using assms(2) by (induction db) auto
  then show ?thesis
    using first_table [OF assms(1,3,4,5), of es] join_split_on [of "CHR ''.''" tbl]
    by (simp add: set_table_name_def empty_table_def)
qed

end
