(* ===== verification/Ingest_Documents.thy ===== *)
theory Ingest_Documents
  imports Ingest_Columns
begin

text \<open>
  What ingest does with a document before it is inserted: \<open>json_processor.go\<close> of \<open>quesma/util\<close>,
  \<open>dots.go\<close>, \<open>ingest.go\<close> and the second half of \<open>parser.go\<close> of \<open>quesma/ingest\<close>.  The transformers
  change documents in place; here they return the new document.
\<close>

section \<open>Flattening\<close>

function flatten_into :: "string \<Rightarrow> json_map \<Rightarrow> json_map \<Rightarrow> json_map" where
  "flatten_into sep [] flattened = flattened"
| "flatten_into sep ((key, v) # data) flattened =
     flatten_into sep data
       (case v of
          JObject nested \<Rightarrow>
            foldl (\<lambda>m (k, x). AList.update (key @ sep @ k) x m) flattened (flatten_into sep nested [])
        | _ \<Rightarrow> AList.update key v flattened)"
  by pat_completeness auto
termination
  by (relation "measure (\<lambda>(sep, data, flattened). size (JObject data))") auto

definition FlattenMap :: "json_map \<Rightarrow> string \<Rightarrow> json_map" where
  "FlattenMap data sep = flatten_into sep data []"

section \<open>Arrays of objects\<close>

text \<open>
  An array of objects becomes an object of arrays, with null where an object lacks the field; the
  first element that is no object is the error.
\<close>

fun array_objects :: "nat \<Rightarrow> json list \<Rightarrow> nat + json_map list" where
  "array_objects i [] = Inr []"
| "array_objects i (x # xs) =
     (case x of
        JObject m \<Rightarrow> map_sum id (Cons m) (array_objects (i + 1) xs)
      | _ \<Rightarrow> Inl i)"

definition rewrite_array :: "json list \<Rightarrow> nat + json_map" where
  "rewrite_array xs =
     map_sum id
       (\<lambda>objects. map (\<lambda>field.
          (field, JArray (map (\<lambda>m. case map_of m field of Some x \<Rightarrow> x | None \<Rightarrow> JNull) objects)))
          (remdups (concat (map (map fst) objects))))
       (array_objects 0 xs)"

text \<open>
  A nested object is a \<open>map[string]interface{}\<close>, not a \<open>types.JSON\<close>, so the first case of the sources
  never applies: only the arrays of the document itself, and in objects inside these, are rewritten.
\<close>

function Transform_arrays :: "json_map \<Rightarrow> nat + json_map"
  and transform_items :: "json list \<Rightarrow> nat + json list" where
  "Transform_arrays [] = Inr []"
| "Transform_arrays ((k, v) # data) =
     (case (case v of
              JArray xs \<Rightarrow>
                (case xs of
                   [] \<Rightarrow> Inr v
                 | JObject m # _ \<Rightarrow> map_sum id JObject (rewrite_array xs)
                 | _ \<Rightarrow> map_sum id JArray (transform_items xs))
            | _ \<Rightarrow> Inr v) of
        Inl err \<Rightarrow> Inl err
      | Inr v' \<Rightarrow> map_sum id (Cons (k, v')) (Transform_arrays data))"
| "transform_items [] = Inr []"
| "transform_items (x # xs) =
     (case (case x of JObject m \<Rightarrow> map_sum id JObject (Transform_arrays m) | _ \<Rightarrow> Inr x) of
        Inl err \<Rightarrow> Inl err
      | Inr x' \<Rightarrow> map_sum id (Cons x') (transform_items xs))"
  by pat_completeness auto
termination
  by (relation "measure (\<lambda>x. case x of Inl data \<Rightarrow> size (JObject data) | Inr xs \<Rightarrow> size (JArray xs))") auto

definition RemoveFieldsOfObject :: "string list \<Rightarrow> json_map \<Rightarrow> json_map" where
  "RemoveFieldsOfObject removed data = foldl (\<lambda>m f. AList.delete f m) data removed"

section \<open>Names\<close>

text \<open>
  A field is moved to its encoded name; a field that is there already is replaced.  The keys are
  those the map had when the walk began: visiting a key that was added changes nothing more.
\<close>

definition rename_key :: "(string \<Rightarrow> string option) \<Rightarrow> json_map option \<Rightarrow> string \<Rightarrow> json_map option" where
  "rename_key encoder m k =
     do { m \<leftarrow> m;
          k' \<leftarrow> encoder k;
          Some (if k = k' then m
                else case map_of m k of
                       None \<Rightarrow> m
                     | Some v \<Rightarrow> AList.delete k (AList.update k' v m)) }"

definition field_encoder :: "nat \<Rightarrow> string \<Rightarrow> string option" where
  "field_encoder level k = (if level = 0 then FieldToColumnEncoder k else Some (FieldPartToColumnEncoder k))"

function transformFieldNameInternal :: "nat \<Rightarrow> json_map \<Rightarrow> json_map option"
  and transform_nested :: "nat \<Rightarrow> json_map \<Rightarrow> json_map option" where
  "transformFieldNameInternal level m =
     do { m' \<leftarrow> transform_nested level m;
          foldl (rename_key (field_encoder level)) (Some m') (map fst m) }"
| "transform_nested level [] = Some []"
| "transform_nested level ((k, v) # m) =
     do { v' \<leftarrow> (case v of
                  JObject n \<Rightarrow> map_option JObject (transformFieldNameInternal (level + 1) n)
                | _ \<Rightarrow> Some v);
          m' \<leftarrow> transform_nested level m;
          Some ((k, v') # m') }"
  by pat_completeness auto
termination
  by (relation "measure (\<lambda>x. case x of Inl (l, m) \<Rightarrow> 2 * size (JObject m) + 1 | Inr (l, m) \<Rightarrow> 2 * size (JObject m))") auto

definition transformFieldName :: "json_map \<Rightarrow> json_map option" where
  "transformFieldName m = transformFieldNameInternal 0 m"

definition populateFieldEncodings :: "json_map list \<Rightarrow> string \<Rightarrow> encodings option" where
  "populateFieldEncodings docs tableName =
     foldl (\<lambda>es field. do { es \<leftarrow> es; e \<leftarrow> FieldToColumnEncoder field; Some (AList.update (tableName, field) e es) })
       (Some []) (concat (map (\<lambda>d. map fst (FlattenMap d ''.'')) docs))"

section \<open>Transformers\<close>

datatype ingest_transformer =
    FlattenMapTransformer string
  | RemoveFieldsTransformer "string list"
  | IngestAddIndexNameTransformer string
  | IngestTransformerPipeline "ingest_transformer list"

definition IndexNameColumn :: string where "IndexNameColumn = ''__quesma_index_name''"

text \<open>No transformer fails.\<close>

fun apply_transformer :: "ingest_transformer \<Rightarrow> json_map \<Rightarrow> json_map" where
  "apply_transformer (FlattenMapTransformer sep) m = FlattenMap m sep"
| "apply_transformer (RemoveFieldsTransformer removed) m =
     foldl (\<lambda>m f. AList.delete (replace_char (CHR ''.'') ''_'' f) (AList.delete f m)) m removed"
| "apply_transformer (IngestAddIndexNameTransformer idx) m = AList.update IndexNameColumn (JString idx) m"
| "apply_transformer (IngestTransformerPipeline ts) m = foldl (\<lambda>m t. apply_transformer t m) m ts"

definition IngestTransformerFor ::
  "string \<Rightarrow> (string \<times> schema_index_configuration) list \<Rightarrow> ingest_transformer" where
  "IngestTransformerFor table cfg =
     IngestTransformerPipeline
       (FlattenMapTransformer ''_''
        # (case map_of cfg table of
             Some c \<Rightarrow> if SchemaOverrides c \<noteq> None then [RemoveFieldsTransformer (ignored_names c)] else []
           | None \<Rightarrow> []))"

section \<open>Fields outside the schema\<close>

text \<open>Puts a value under the last of a path of names, making the objects on the way.\<close>

fun add_nested :: "string list \<Rightarrow> string \<Rightarrow> json \<Rightarrow> json_map \<Rightarrow> json_map option" where
  "add_nested [] name v m = Some (AList.update name v m)"
| "add_nested (key # keys) name v m =
     (case map_of m key of
        None \<Rightarrow> do { n \<leftarrow> add_nested keys name v []; Some (AList.update key (JObject n) m) }
      | Some (JObject n) \<Rightarrow> do { n \<leftarrow> add_nested keys name v n; Some (AList.update key (JObject n) m) }
      | Some _ \<Rightarrow> None)"

definition nested_map :: "json_map \<Rightarrow> string \<Rightarrow> json_map option" where
  "nested_map m k = (case map_of m k of Some (JObject n) \<Rightarrow> Some n | _ \<Rightarrow> None)"

definition column_names :: "click_column option list \<Rightarrow> string list option" where
  "column_names cols = opt_mapM (map_option col_Name) cols"

text \<open>
  The object at the path \<open>keys\<close> against its column: the differences collected so far and the
  object, from which the column's own name is deleted unless the column has columns.
\<close>

function diff_rec :: "string list \<Rightarrow> click_type \<Rightarrow> string \<Rightarrow> json_map \<Rightarrow> json_map \<Rightarrow> (json_map \<times> json_map) option"
  and diff_cols :: "string list \<Rightarrow> click_column option list \<Rightarrow> json_map \<Rightarrow> json_map \<Rightarrow> (json_map \<times> json_map) option" where
  "diff_rec keys t name mCur mDiff =
     (case t of
        MultiValueType n cols \<Rightarrow>
          do { (mDiff, mCur) \<leftarrow> diff_cols keys cols mCur mDiff;
               names \<leftarrow> column_names cols;
               mDiff \<leftarrow> foldl (\<lambda>d (k, v). do { d \<leftarrow> d; if k \<in> set names then Some d else add_nested keys k v d }) (Some mDiff) mCur;
               Some (mDiff, mCur) }
      | _ \<Rightarrow>
          do { let mCur = AList.delete name mCur;
               mDiff \<leftarrow> (if mCur \<noteq> [] then add_nested keys name (JObject mCur) mDiff else Some mDiff);
               Some (mDiff, mCur) })"
| "diff_cols keys [] mCur mDiff = Some (mDiff, mCur)"
| "diff_cols keys (c # cols) mCur mDiff =
     (case c of
        None \<Rightarrow> None
      | Some col \<Rightarrow>
          do { (mDiff, mCur) \<leftarrow>
                 (case nested_map mCur (col_Name col) of
                    None \<Rightarrow> Some (mDiff, mCur)
                  | Some n \<Rightarrow>
                      do { (mDiff, n) \<leftarrow> diff_rec (keys @ [col_Name col]) (col_Type col) (col_Name col) n mDiff;
                           Some (mDiff, AList.update (col_Name col) (JObject n) mCur) });
               diff_cols keys cols mCur mDiff })"
  by pat_completeness auto
termination
proof (relation "measure (\<lambda>x. case x of
     Inl (keys, t, name, mCur, mDiff) \<Rightarrow> 2 * size t | Inr (keys, cols, mCur, mDiff) \<Rightarrow> 2 * size_list (size_option size) cols + 1)",
   goal_cases)
  case (3 keys c cols mCur mDiff col n)
  then show ?case by (cases col) auto
qed auto

text \<open>The differences, and the document from whose objects names were deleted.\<close>

definition DifferenceMap :: "json_map \<Rightarrow> (string \<times> click_column) list \<Rightarrow> (json_map \<times> json_map) option" where
  "DifferenceMap sm cols =
     foldl (\<lambda>st (name, v).
       do { (mDiff, sm) \<leftarrow> st;
            case map_of cols name of
              None \<Rightarrow> Some (AList.update name v mDiff, sm)
            | Some col \<Rightarrow>
                (case v of
                   JObject n \<Rightarrow>
                     do { (mDiff, n) \<leftarrow> diff_rec [name] (col_Type col) (col_Name col) n mDiff;
                          Some (mDiff, AList.update name (JObject n) sm) }
                 | _ \<Rightarrow> Some (mDiff, sm)) })
       (Some ([], sm)) sm"

definition is_empty_object :: "json \<Rightarrow> bool" where
  "is_empty_object v = (case v of JObject [] \<Rightarrow> True | _ \<Rightarrow> False)"

function remove_rec :: "click_type \<Rightarrow> json_map \<Rightarrow> json_map option"
  and remove_cols :: "click_column option list \<Rightarrow> json_map \<Rightarrow> json_map option" where
  "remove_rec t mCur =
     (case t of
        MultiValueType n cols \<Rightarrow>
          do { mCur \<leftarrow> remove_cols cols mCur;
               names \<leftarrow> column_names cols;
               Some (filter (\<lambda>(k, v). k \<in> set names \<and> \<not> is_empty_object v) mCur) }
      | _ \<Rightarrow> Some mCur)"
| "remove_cols [] mCur = Some mCur"
| "remove_cols (c # cols) mCur =
     (case c of
        None \<Rightarrow> None
      | Some col \<Rightarrow>
          do { mCur \<leftarrow>
                 (case nested_map mCur (col_Name col) of
                    None \<Rightarrow> Some mCur
                  | Some n \<Rightarrow>
                      do { n \<leftarrow> remove_rec (col_Type col) n; Some (AList.update (col_Name col) (JObject n) mCur) });
               remove_cols cols mCur })"
  by pat_completeness auto
termination
proof (relation "measure (\<lambda>x. case x of
     Inl (t, mCur) \<Rightarrow> 2 * size t | Inr (cols, mCur) \<Rightarrow> 2 * size_list (size_option size) cols + 1)", goal_cases)
  case (3 c cols mCur col n)
  then show ?case by (cases col) auto
qed auto

definition RemoveNonSchemaFields :: "json_map \<Rightarrow> (string \<times> click_column) list \<Rightarrow> json_map option" where
  "RemoveNonSchemaFields m cols =
     map_option concat (opt_mapM (\<lambda>(name, v).
       case map_of cols name of
         None \<Rightarrow> Some []
       | Some col \<Rightarrow>
           (case v of
              JObject n \<Rightarrow> map_option (\<lambda>n. [(name, JObject n)]) (remove_rec (col_Type col) n)
            | _ \<Rightarrow> Some [(name, v)])) m)"

end
