(* ===== verification/Ingest_Validator.thy ===== *)
theory Ingest_Validator
  imports Ingest_Documents
begin

text \<open>
  Which fields of a document do not fit the columns of its table: \<open>ingest_validator.go\<close> of
  \<open>quesma/ingest\<close>, with the lookup of tables of \<open>processor.go\<close> and the pattern of
  \<open>quesma/util/utils.go\<close>.  Numbers of JSON documents are \<open>float64\<close>.
\<close>

section \<open>Numeric types\<close>

definition removeLowCardinality :: "string \<Rightarrow> string" where
  "removeLowCardinality columnType =
     (if columnType = ''LowCardinality(String)'' then ''String'' else columnType)"

definition integerTypes :: "string list" where
  "integerTypes =
     [''UInt8'', ''UInt16'', ''UInt32'', ''UInt64'', ''UInt128'', ''UInt256'',
      ''Int8'', ''Int16'', ''Int32'', ''Int64'', ''Int128'', ''Int256'']"

definition floatingPointTypes :: "string list" where
  "floatingPointTypes = [''Float32'', ''Float64'']"

definition isIntegerType :: "string \<Rightarrow> bool" where
  "isIntegerType columnType \<longleftrightarrow> columnType \<in> set integerTypes"

definition isFloatingPointType :: "string \<Rightarrow> bool" where
  "isFloatingPointType columnType \<longleftrightarrow> columnType \<in> set floatingPointTypes"

definition isNumericType :: "string \<Rightarrow> bool" where
  "isNumericType columnType \<longleftrightarrow> isIntegerType columnType \<or> isFloatingPointType columnType"

text \<open>The \<open>float64\<close> of an integer constant, and comparison.\<close>

definition float_constant :: "int \<Rightarrow> float64" where
  "float_constant n = (case to_float (n < 0) (\<bar>n\<bar>, 1) of Some f \<Rightarrow> f | None \<Rightarrow> Inf (n < 0))"

definition float_ratio :: "bool \<Rightarrow> int \<Rightarrow> int \<Rightarrow> int \<times> int" where
  "float_ratio neg m e = times_power 2 e (if neg then - m else m, 1)"

definition float_le :: "float64 \<Rightarrow> float64 \<Rightarrow> bool" where
  "float_le a b =
     (case a of
        NaN \<Rightarrow> False
      | Inf neg \<Rightarrow> (case b of NaN \<Rightarrow> False | Inf neg' \<Rightarrow> neg \<or> \<not> neg' | _ \<Rightarrow> neg)
      | Finite neg m e \<Rightarrow>
          (case b of
             NaN \<Rightarrow> False
           | Inf neg' \<Rightarrow> \<not> neg'
           | Finite neg' m' e' \<Rightarrow>
               fst (float_ratio neg m e) * snd (float_ratio neg' m' e')
                 \<le> fst (float_ratio neg' m' e') * snd (float_ratio neg m e)))"

record integer_range =
  minAsInt64 :: int
  maxAsInt64 :: int
  minAsFloat :: float64
  maxAsFloat :: float64

definition range_of :: "int \<Rightarrow> int \<Rightarrow> int \<Rightarrow> int \<Rightarrow> integer_range" where
  "range_of lo hi flo fhi =
     \<lparr>minAsInt64 = lo, maxAsInt64 = hi, minAsFloat = float_constant flo, maxAsFloat = float_constant fhi\<rparr>"

text \<open>\<open>math.Pow(2, 128) - 1\<close> is computed on \<open>float64\<close>, which rounds like the constant.\<close>

definition integerRange :: "(string \<times> integer_range) list" where
  "integerRange =
     [(''UInt8'', range_of 0 (2 ^ 8 - 1) 0 (2 ^ 8 - 1)),
      (''UInt16'', range_of 0 (2 ^ 16 - 1) 0 (2 ^ 16 - 1)),
      (''UInt32'', range_of 0 (2 ^ 32 - 1) 0 (2 ^ 32 - 1)),
      (''UInt64'', range_of 0 (2 ^ 63 - 1) 0 (2 ^ 64 - 1)),
      (''UInt128'', range_of 0 (2 ^ 63 - 1) 0 (2 ^ 128 - 1)),
      (''UInt256'', range_of 0 (2 ^ 63 - 1) 0 (2 ^ 256 - 1)),
      (''Int8'', range_of (- (2 ^ 7)) (2 ^ 7 - 1) (- (2 ^ 7)) (2 ^ 7 - 1)),
      (''Int16'', range_of (- (2 ^ 15)) (2 ^ 15 - 1) (- (2 ^ 15)) (2 ^ 15 - 1)),
      (''Int32'', range_of (- (2 ^ 31)) (2 ^ 31 - 1) (- (2 ^ 31)) (2 ^ 31 - 1)),
      (''Int64'', range_of (- (2 ^ 63)) (2 ^ 63 - 1) (- (2 ^ 63)) (2 ^ 63 - 1)),
      (''Int128'', range_of (- (2 ^ 63)) (2 ^ 63 - 1) (- (2 ^ 128)) (2 ^ 128 - 1)),
      (''Int256'', range_of (- (2 ^ 63)) (2 ^ 63 - 1) (- (2 ^ 256)) (2 ^ 256 - 1))]"

text \<open>A type without a range panics.  An \<open>int64\<close> value does not come from a JSON document.\<close>

definition validate_int64_range :: "string \<Rightarrow> int \<Rightarrow> bool option" where
  "validate_int64_range columnType v =
     map_option (\<lambda>r. minAsInt64 r \<le> v \<and> v \<le> maxAsInt64 r) (map_of integerRange columnType)"

definition validateNumericRange :: "string \<Rightarrow> json \<Rightarrow> bool option" where
  "validateNumericRange columnType value =
     map_option (\<lambda>r.
       case value of
         JNumber v \<Rightarrow> float_le (minAsFloat r) v \<and> float_le v (maxAsFloat r)
       | _ \<Rightarrow> False) (map_of integerRange columnType)"

definition validateNumericType :: "string \<Rightarrow> string \<Rightarrow> json \<Rightarrow> bool option" where
  "validateNumericType columnType incomingValueType value =
     (if isFloatingPointType columnType \<and> isNumericType incomingValueType then Some True
      else if isIntegerType columnType \<and> isIntegerType incomingValueType then validateNumericRange columnType value
      else Some False)"

section \<open>Values\<close>

definition base_matches :: "string \<Rightarrow> click_type \<Rightarrow> json \<Rightarrow> bool option" where
  "base_matches columnTypeName incoming value =
     (case incoming of
        BaseType n g nul \<Rightarrow>
          do { numeric \<leftarrow> (if isNumericType columnTypeName then validateNumericType columnTypeName n value else Some False);
               Some (numeric \<or> n = columnTypeName) }
      | _ \<Rightarrow> Some False)"

function validateValueAgainstType :: "string \<Rightarrow> json \<Rightarrow> click_type \<Rightarrow> bool option"
  and validate_fields :: "string \<Rightarrow> json_map \<Rightarrow> click_column option list \<Rightarrow> bool option"
  and validate_elements :: "string \<Rightarrow> int \<Rightarrow> json list \<Rightarrow> click_type \<Rightarrow> bool option" where
  "validateValueAgainstType fieldName value columnType =
     (case columnType of
        BaseType n g nul \<Rightarrow>
          (case NewType value fieldName of
             Inl err \<Rightarrow> Some False
           | Inr incoming \<Rightarrow> base_matches (removeLowCardinality n) incoming value)
      | MultiValueType n cols \<Rightarrow>
          if n = ''Tuple'' then (case value of JObject m \<Rightarrow> validate_fields fieldName m cols | _ \<Rightarrow> Some False)
          else Some False
      | CompoundType n elements \<Rightarrow>
          if n = ''Array'' then (case value of JArray xs \<Rightarrow> validate_elements fieldName 0 xs elements | _ \<Rightarrow> Some False)
          else Some False)"
| "validate_fields fieldName [] cols = Some True"
| "validate_fields fieldName ((key, elem) # m) cols =
     do { subtype \<leftarrow> GetColumn key cols;
          case subtype of
            None \<Rightarrow> Some False
          | Some c \<Rightarrow>
              do { ok \<leftarrow> validateValueAgainstType (fieldName @ ''.'' @ key) elem (col_Type c);
                   if ok then validate_fields fieldName m cols else Some False } }"
| "validate_elements fieldName i [] t = Some True"
| "validate_elements fieldName i (elem # xs) t =
     do { ok \<leftarrow> validateValueAgainstType (fieldName @ ''['' @ itoa i @ '']'') elem t;
          if ok then validate_elements fieldName (i + 1) xs t else Some False }"
  by pat_completeness auto
termination
  by (relation "measure (\<lambda>x. case x of
        Inl (f, v, t) \<Rightarrow> 2 * size v + 1
      | Inr (Inl (f, m, cols)) \<Rightarrow> 2 * size (JObject m)
      | Inr (Inr (f, i, xs, t)) \<Rightarrow> 2 * size (JArray xs))") auto

section \<open>Tables\<close>

text \<open>
  \<open>TableNamePatternRegexp\<close>: a star stands for any text within a line; the other characters mean
  themselves, as long as the name has no braces, which are not escaped.
\<close>

fun table_name_matches :: "string \<Rightarrow> string \<Rightarrow> bool" where
  "table_name_matches [] [] = True"
| "table_name_matches [] (d # n) = False"
| "table_name_matches (c # p) [] = (c = CHR ''*'' \<and> table_name_matches p [])"
| "table_name_matches (c # p) (d # n) =
     (if c = CHR ''*'' then table_name_matches p (d # n) \<or> d \<noteq> CHR 0x0A \<and> table_name_matches (c # p) n
      else c = d \<and> table_name_matches p n)"

text \<open>The tables in the order of one walk; a table found comes with its key.\<close>

type_synonym table_map = "(string \<times> click_table) list"

definition FindTable :: "string \<Rightarrow> table_map \<Rightarrow> (string \<times> click_table) option" where
  "FindTable tableName tables = find (\<lambda>(n, t). table_name_matches tableName n) tables"

datatype validate_error = NoTableToValidate string

definition invalid_field :: "json_map \<Rightarrow> string \<times> click_column \<Rightarrow> json_map option" where
  "invalid_field document col =
     (case map_of document (fst col) of
        None \<Rightarrow> Some []
      | Some value \<Rightarrow>
          if value = JNull then Some []
          else map_option (\<lambda>ok. if ok then [] else [(fst col, value)])
                 (validateValueAgainstType (fst col) value (col_Type (snd col))))"

definition validateIngest :: "string \<Rightarrow> json_map \<Rightarrow> table_map \<Rightarrow> (validate_error + json_map) option" where
  "validateIngest tableName document tables =
     (case FindTable tableName tables of
        None \<Rightarrow> Some (Inl (NoTableToValidate tableName))
      | Some (_, t) \<Rightarrow> map_option (Inr \<circ> concat) (opt_mapM (invalid_field document) (Cols t)))"

definition subtractInputJson :: "json_map \<Rightarrow> json_map \<Rightarrow> json_map" where
  "subtractInputJson inputDoc anotherDoc = foldl (\<lambda>m k. AList.delete k m) inputDoc (map fst anotherDoc)"

fun preprocessJsons ::
  "string \<Rightarrow> json_map list \<Rightarrow> table_map \<Rightarrow> (validate_error + (json_map \<times> json_map) list) option" where
  "preprocessJsons tableName [] tables = Some (Inr [])"
| "preprocessJsons tableName (doc # docs) tables =
     do { r \<leftarrow> validateIngest tableName doc tables;
          case r of
            Inl err \<Rightarrow> Some (Inl err)
          | Inr invalid \<Rightarrow>
              map_option (map_sum id (Cons (subtractInputJson doc invalid, invalid))) (preprocessJsons tableName docs tables) }"

section \<open>Integers\<close>

text \<open>The integer a number is, when it is one.\<close>

definition exact_int :: "float64 \<Rightarrow> int" where
  "exact_int f =
     (case f of
        Finite neg m e \<Rightarrow>
          (let a = (if e < 0 then m div 2 ^ nat (- e) else m * 2 ^ nat e) in if neg then - a else a)
      | _ \<Rightarrow> 0)"

lemma integral_ratio:
  assumes "is_integral (Finite neg m e)"
  shows "fst (float_ratio neg m e) = exact_int (Finite neg m e) * snd (float_ratio neg m e)"
    "0 < snd (float_ratio neg m e)"
  using assms
  by (auto simp: float_ratio_def times_power_def scale_def exact_int_def is_integral_def mod_eq_0_iff_dvd
      dvd_div_mult_self)

lemma float_le_integral:
  "is_integral a \<Longrightarrow> is_integral b \<Longrightarrow> float_le a b \<longleftrightarrow> exact_int a \<le> exact_int b"
proof -
  assume "is_integral a" "is_integral b"
  then obtain neg m e neg' m' e' where f: "a = Finite neg m e" "b = Finite neg' m' e'"
    by (auto simp: is_integral_def split: float64.splits)
  note r = integral_ratio [of neg m e] integral_ratio [of neg' m' e']
  have "exact_int a * snd (float_ratio neg m e) * snd (float_ratio neg' m' e')
      \<le> exact_int b * snd (float_ratio neg' m' e') * snd (float_ratio neg m e) \<longleftrightarrow>
    exact_int a \<le> exact_int b"
    using r \<open>is_integral a\<close> \<open>is_integral b\<close> unfolding f
    by (simp add: mult.assoc mult.commute mult_le_cancel_right)
  then show ?thesis using r \<open>is_integral a\<close> \<open>is_integral b\<close> unfolding f by (simp add: float_le_def)
qed

text \<open>The integers that are accepted for a column of an integer type.\<close>

definition accepted_ranges :: "(string \<times> int \<times> int) list" where
  "accepted_ranges =
     [(''UInt8'', 0, 255), (''UInt16'', 0, 65535), (''UInt32'', 0, 4294967295),
      (''UInt64'', 0, 2 ^ 64), (''UInt128'', 0, 2 ^ 128), (''UInt256'', 0, 2 ^ 256),
      (''Int8'', -128, 127), (''Int16'', -32768, 32767), (''Int32'', -2147483648, 2147483647),
      (''Int64'', - (2 ^ 63), 2 ^ 63), (''Int128'', - (2 ^ 128), 2 ^ 128), (''Int256'', - (2 ^ 256), 2 ^ 256)]"

lemma list_all2_member: "list_all2 P xs ys \<Longrightarrow> y \<in> set ys \<Longrightarrow> \<exists>x \<in> set xs. P x y"
  by (induction rule: list_all2_induct) auto

lemma ranges_computed:
  "list_all2 (\<lambda>(t, r) (t', lo, hi). t = t' \<and> is_integral (minAsFloat r) \<and> is_integral (maxAsFloat r) \<and>
     exact_int (minAsFloat r) = lo \<and> exact_int (maxAsFloat r) = hi) integerRange accepted_ranges"
  by code_simp


lemma validateNumericRange_integral:
  assumes "(t, lo, hi) \<in> set accepted_ranges" "is_integral f"
  shows "validateNumericRange t (JNumber f) = Some (lo \<le> exact_int f \<and> exact_int f \<le> hi)"
proof -
  have "distinct (map fst integerRange)" by code_simp
  moreover obtain r where r: "(t, r) \<in> set integerRange" "is_integral (minAsFloat r)" "is_integral (maxAsFloat r)"
    "exact_int (minAsFloat r) = lo" "exact_int (maxAsFloat r) = hi"
    using list_all2_member [OF ranges_computed assms(1)] by auto
  ultimately have "map_of integerRange t = Some r" by (intro map_of_is_SomeI)
  then show ?thesis using r assms(2) by (simp add: validateNumericRange_def float_le_integral)
qed

lemma accepted_types:
  assumes "(t, lo, hi) \<in> set accepted_ranges"
  shows "isIntegerType t" "\<not> isFloatingPointType t" "removeLowCardinality t = t" "t \<noteq> ''Float64''"
proof -
  have "\<forall>(t, lo, hi) \<in> set accepted_ranges. isIntegerType t \<and> \<not> isFloatingPointType t \<and> removeLowCardinality t = t \<and> t \<noteq> ''Float64''"
    by code_simp
  then show "isIntegerType t" "\<not> isFloatingPointType t" "removeLowCardinality t = t" "t \<noteq> ''Float64''"
    using assms by auto
qed

lemma number_types: "isIntegerType ''Int64''" "\<not> isIntegerType ''Float64''" "isNumericType ''Int64''"
  by code_simp+

text \<open>
  C38: A number is kept in an integer column if and only if it is an integer within the range of the
  column's type; but a column of type \<open>Int64\<close> takes every integer, whatever its size, since integers
  have that type.  For the types of 64 bits and more the range ends at the next power of two, and
  for the signed ones of 128 and 256 bits it begins twice as low.
\<close>

theorem integers_fit_columns:
  assumes "(t, lo, hi) \<in> set accepted_ranges"
  shows "validateValueAgainstType name (JNumber f) (BaseType t g nul)
    = Some (is_integral f \<and> (t = ''Int64'' \<or> lo \<le> exact_int f \<and> exact_int f \<le> hi))"
proof (cases "is_integral f")
  case True
  note r = validateNumericRange_integral [OF assms True]
  have "base_matches t (BaseType ''Int64'' GoInt64 False) (JNumber f)
      = Some (lo \<le> exact_int f \<and> exact_int f \<le> hi \<or> ''Int64'' = t)"
    using accepted_types [OF assms] number_types
    by (simp add: base_matches_def isNumericType_def validateNumericType_def r)
  then show ?thesis using True accepted_types [OF assms] by auto
next
  case False
  have "base_matches t (BaseType ''Float64'' GoFloat64 False) (JNumber f) = Some False"
    using accepted_types [OF assms] number_types
    by (simp add: base_matches_def isNumericType_def validateNumericType_def)
  then show ?thesis using False accepted_types [OF assms] by simp
qed

theorem integers_fit_columns_witness:
  "validateValueAgainstType ''n'' (JNumber (float_constant 300)) (BaseType ''UInt8'' GoUint64 False) = Some False"
proof -
  have "(''UInt8'', 0, 255) \<in> set accepted_ranges" by code_simp
  note integers_fit_columns [OF this, of "''n''" "float_constant 300" GoUint64 False]
  moreover have "exact_int (float_constant 300) = 300" by code_simp
  ultimately show ?thesis by simp
qed

text \<open>\<open>10 ^ 19\<close> does not fit a column of type \<open>Int64\<close>, but is accepted.\<close>

lemma too_large_integers_are_accepted:
  "validateValueAgainstType ''n'' (JNumber (float_constant (10 ^ 19))) (BaseType ''Int64'' GoInt64 False) = Some True"
  "validateNumericRange ''Int64'' (JNumber (float_constant (10 ^ 19))) = Some False"
  by code_simp+

end
