(* ===== verification/Ingest_Attributes.thy ===== *)
theory Ingest_Attributes
  imports Ingest_Validator
begin

text \<open>
  Fields that have no column: they become columns, or go into the two maps of attributes of the
  row.  The second halves of \<open>parser.go\<close> and of \<open>processor.go\<close> of \<open>quesma/ingest\<close>, \<open>Stringify\<close> of
  \<open>quesma/util/utils.go\<close>, \<open>CanConvert\<close> of \<open>quesma/clickhouse/schema.go\<close> and the virtual tables
  of \<open>quesma/common_table\<close>.  \<open>None\<close> is a panic.
\<close>

section \<open>Attributes\<close>

definition DeprecatedAttributesKeyColumn :: string where "DeprecatedAttributesKeyColumn = ''attributes_string_key''"
definition DeprecatedAttributesValueColumn :: string where "DeprecatedAttributesValueColumn = ''attributes_string_value''"
definition DeprecatedAttributesValueType :: string where "DeprecatedAttributesValueType = ''attributes_string_type''"
definition AttributesValuesColumn :: string where "AttributesValuesColumn = ''attributes_values''"
definition AttributesMetadataColumn :: string where "AttributesMetadataColumn = ''attributes_metadata''"
definition UndefinedType :: string where "UndefinedType = ''Undefined''"

text \<open>
  Conversion by reflection and back: only numbers, truth values and texts convert to types of
  their kind, a number to an integer type if it is an integer of it.  Null has no reflected type, and maps
  cannot be compared.
\<close>

definition whole_between :: "int \<Rightarrow> int \<Rightarrow> float64 \<Rightarrow> bool" where
  "whole_between lo hi f \<longleftrightarrow> is_integral f \<and> lo \<le> exact_int f \<and> exact_int f < hi"

definition CanConvert :: "click_type \<Rightarrow> json \<Rightarrow> bool option" where
  "CanConvert t v =
     (case t of
        BaseType n g nul \<Rightarrow>
          if n = ''String'' then Some True
          else (case v of
                  JNull \<Rightarrow> None
                | JNumber f \<Rightarrow>
                    Some (case g of
                            GoFloat64 \<Rightarrow> f \<noteq> NaN
                          | GoInt64 \<Rightarrow> whole_between (- (2 ^ 63)) (2 ^ 63) f
                          | GoInt32 \<Rightarrow> whole_between (- (2 ^ 31)) (2 ^ 31) f
                          | GoUint64 \<Rightarrow> whole_between 0 (2 ^ 64) f
                          | _ \<Rightarrow> False)
                | JBool b \<Rightarrow> Some (g = GoBool)
                | JString s \<Rightarrow> Some (g = GoString)
                | JArray xs \<Rightarrow> Some False
                | JObject m \<Rightarrow> if g = GoJsonMap then None else Some False)
      | _ \<Rightarrow> Some False)"

text \<open>The arrays of attributes by name; the values of the arrays are any Go values.\<close>

type_synonym attrs_map = "(string \<times> json list) list"

definition append_attr :: "string \<Rightarrow> json \<Rightarrow> attrs_map \<Rightarrow> attrs_map" where
  "append_attr name v m =
     AList.update name ((case map_of m name of Some vs \<Rightarrow> vs | None \<Rightarrow> []) @ [v]) m"

definition inferred_type :: "json \<Rightarrow> string \<Rightarrow> string" where
  "inferred_type v name = (case NewType v name of Inl err \<Rightarrow> UndefinedType | Inr t \<Rightarrow> type_String t)"

definition add_attribute :: "attribute \<Rightarrow> string \<Rightarrow> json \<Rightarrow> attrs_map \<Rightarrow> attrs_map" where
  "add_attribute a name v m =
     append_attr (TypesArrayName a) (JString (inferred_type v name))
       (append_attr (ValuesArrayName a) (JString (print_json v))
         (append_attr (KeysArrayName a) (JString name) m))"

fun first_attribute :: "attribute list \<Rightarrow> json \<Rightarrow> attribute option option" where
  "first_attribute [] v = Some None"
| "first_attribute (a # as) v =
     do { ok \<leftarrow> CanConvert (attribute_Type a) v; if ok then Some (Some a) else first_attribute as v }"

definition sortedKeys :: "json_map \<Rightarrow> string list" where
  "sortedKeys m = sort (map fst m)"

text \<open>The error names the field that matches no attribute.\<close>

fun attrs_of_keys :: "table_config \<Rightarrow> json_map \<Rightarrow> string list \<Rightarrow> attrs_map \<Rightarrow> (string + attrs_map) option" where
  "attrs_of_keys config m [] result = Some (Inr result)"
| "attrs_of_keys config m (name # names) result =
     do { v \<leftarrow> map_of m name;
          found \<leftarrow> first_attribute (Attributes config) v;
          case found of
            None \<Rightarrow> Some (Inl name)
          | Some a \<Rightarrow> attrs_of_keys config m names (add_attribute a name v result) }"

definition BuildAttrsMap :: "json_map \<Rightarrow> table_config \<Rightarrow> (string + attrs_map) option" where
  "BuildAttrsMap m config = attrs_of_keys config m (sortedKeys m) []"

definition addInvalidJsonFieldsToAttributes :: "attrs_map \<Rightarrow> json_map \<Rightarrow> attrs_map" where
  "addInvalidJsonFieldsToAttributes attrsMap invalidJson =
     foldl (\<lambda>m (k, v).
       append_attr DeprecatedAttributesValueType (JString (inferred_type v k))
         (append_attr DeprecatedAttributesValueColumn v
           (append_attr DeprecatedAttributesKeyColumn (JString k) m))) attrsMap invalidJson"

text \<open>Floats without exponent; texts in arrays between escaped quotes.\<close>

definition format_float :: "float64 \<Rightarrow> string" where
  "format_float f =
     (case f of
        Finite neg m e \<Rightarrow>
          (let (d, dp) = shortest m e;
               ds = (if d = 0 then ''0'' else trim_zeros (itoa d))
           in (if neg then ''-'' else []) @ layout_f ds dp)
      | _ \<Rightarrow> print_float f)"

fun stringifyHelper :: "json \<Rightarrow> bool \<Rightarrow> string" where
  "stringifyHelper (JString s) isInsideArray =
     (if isInsideArray then [CHR 0x5C, CHR 0x22] @ s @ [CHR 0x5C, CHR 0x22] else s)"
| "stringifyHelper (JNumber f) isInsideArray = format_float f"
| "stringifyHelper (JArray xs) isInsideArray = ''['' @ join '','' (map (\<lambda>x. stringifyHelper x True) xs) @ '']''"
| "stringifyHelper v isInsideArray = print_json v"

definition Stringify :: "json \<Rightarrow> string" where
  "Stringify v = stringifyHelper v False"

definition getAttributesByArrayName :: "string \<Rightarrow> attrs_map \<Rightarrow> string list" where
  "getAttributesByArrayName arrayName attrsMap =
     (case map_of attrsMap arrayName of Some vs \<Rightarrow> map Stringify vs | None \<Rightarrow> [])"

section \<open>Virtual tables\<close>

definition CommonTable :: string where "CommonTable = ''quesma_common_table''"
definition VirtualTableStructVersion :: string where "VirtualTableStructVersion = ''1''"

record virtual_table =
  vt_Version :: string
  vt_StoredAt :: string
  vt_Columns :: "string list"

text \<open>
  What an ingest processor keeps besides tables and schemas: counters, and the virtual tables it
  has put into the storage, in their order.  The clock is an argument, as the text of the time.
\<close>

record ingest_counters =
  ingestCounter :: int
  ingestFieldStatistics :: "string \<times> string \<rightharpoonup> int"
  stored_tables :: "(string \<times> virtual_table) list"

definition stored_columns :: "click_table \<Rightarrow> string list" where
  "stored_columns t =
     (let cols = filter (\<lambda>n. n \<noteq> AttributesValuesColumn \<and> n \<noteq> AttributesMetadataColumn) (map (col_Name \<circ> snd) (Cols t))
      in sort (if clickhouse_timestamp \<in> set cols then cols else cols @ [clickhouse_timestamp]))"

definition storeVirtualTable :: "string \<Rightarrow> click_table \<Rightarrow> ingest_counters \<Rightarrow> click_table \<times> ingest_counters" where
  "storeVirtualTable now t ip =
     (t\<lparr>click_Comment := ''Virtual table. Version: '' @ now\<rparr>,
      ip\<lparr>stored_tables := stored_tables ip @
           [(click_Name t, \<lparr>vt_Version = VirtualTableStructVersion, vt_StoredAt = now, vt_Columns = stored_columns t\<rparr>)]\<rparr>)"

section \<open>New columns\<close>

definition alwaysAddColumnLimit :: nat where "alwaysAddColumnLimit = 100"
definition alterColumnUpperLimit :: nat where "alterColumnUpperLimit = 1000"
definition fieldFrequency :: int where "fieldFrequency = 10"

text \<open>
  The statistics count how often a field was seen without a column; all are reset when enough
  documents have been seen.
\<close>

definition count_field :: "string \<Rightarrow> ingest_counters \<times> nat list \<Rightarrow> nat \<times> string \<Rightarrow> ingest_counters \<times> nat list" where
  "count_field tableName st ik =
     (case (st, ik) of ((ip, indexes), (i, key)) \<Rightarrow>
        (let seen = (case ingestFieldStatistics ip (tableName, key) of Some n \<Rightarrow> n | None \<Rightarrow> 0) + 1;
             ip = (if ingestCounter ip \<ge> int alwaysAddColumnLimit
                   then ip\<lparr>ingestCounter := 0, ingestFieldStatistics := Map.empty\<rparr>
                   else ip\<lparr>ingestFieldStatistics := (ingestFieldStatistics ip)((tableName, key) \<mapsto> seen)\<rparr>)
         in (ip, if seen \<ge> fieldFrequency then indexes @ [i] else indexes)))"

definition shouldAlterColumns ::
  "click_table \<Rightarrow> attrs_map \<Rightarrow> ingest_counters \<Rightarrow> (bool \<times> nat list) \<times> ingest_counters" where
  "shouldAlterColumns t attrsMap ip =
     (let attrKeys = getAttributesByArrayName DeprecatedAttributesKeyColumn attrsMap
      in if length (Cols t) < alwaysAddColumnLimit \<or> click_Name t = CommonTable
         then ((True, [0..<length attrKeys]), ip)
         else if length (Cols t) > alterColumnUpperLimit then ((False, []), ip)
         else (let (ip, indexes) = foldl (count_field (click_Name t)) (ip, []) (enumerate 0 attrKeys)
               in if length indexes > 0 then ((True, indexes), ip) else ((False, []), ip)))"

definition item :: "'a list \<Rightarrow> nat \<Rightarrow> 'a option" where
  "item xs i = (if i < length xs then Some (xs ! i) else None)"

record new_columns_state =
  newColumns :: "(string \<times> click_column) list"
  alterCmd :: "string list"
  deleteIndexes :: "nat list"

definition on_cluster :: "string \<Rightarrow> string" where
  "on_cluster clusterName = (if clusterName \<noteq> [] then '' ON CLUSTER '' @ quote clusterName else [])"

definition alter_statement :: "click_table \<Rightarrow> string \<Rightarrow> string" where
  "alter_statement t rest =
     ''ALTER TABLE '' @ [CHR 0x22] @ click_Name t @ [CHR 0x22] @ on_cluster (click_Cluster t) @ rest"

definition new_column ::
  "click_table \<Rightarrow> (string \<rightharpoonup> string \<times> string) \<Rightarrow> string list \<Rightarrow> string list \<Rightarrow> new_columns_state \<Rightarrow> nat \<Rightarrow> new_columns_state option" where
  "new_column t reverseMap attrKeys attrTypes st i =
     do { attrType \<leftarrow> item attrTypes i;
          if attrType = UndefinedType then Some st
          else do { key \<leftarrow> item attrKeys i;
                    let (columnType, modifiers) =
                          (if contains attrType ''Array'' \<or> contains attrType ''Map'' then (attrType, [])
                           else (''Nullable('' @ attrType @ '')'', ''Nullable''));
                        propertyName = (case reverseMap key of Some field \<Rightarrow> snd field | None \<Rightarrow> key);
                        comment = Marshall [(ElasticFieldName, propertyName)];
                        quoted = [CHR 0x22] @ key @ [CHR 0x22]
                    in Some \<lparr>newColumns = AList.update key (Column key (NewBaseType attrType) modifiers [] comment) (newColumns st),
                             alterCmd = alterCmd st @
                               [alter_statement t ('' ADD COLUMN IF NOT EXISTS '' @ quoted @ '' '' @ columnType),
                                alter_statement t ('' COMMENT COLUMN '' @ quoted @ '' '' @ [CHR 0x27] @ comment @ [CHR 0x27])],
                             deleteIndexes = deleteIndexes st @ [i]\<rparr> } }"

definition delete_at :: "nat \<Rightarrow> 'a list \<Rightarrow> 'a list option" where
  "delete_at i xs = (if i < length xs then Some (take i xs @ drop (i + 1) xs) else None)"

definition delete_attr :: "string \<Rightarrow> nat \<Rightarrow> attrs_map \<Rightarrow> attrs_map option" where
  "delete_attr name i m =
     do { vs \<leftarrow> delete_at i (case map_of m name of Some vs \<Rightarrow> vs | None \<Rightarrow> []);
          Some (AList.update name vs m) }"

definition delete_attribute :: "nat \<Rightarrow> attrs_map \<Rightarrow> attrs_map option" where
  "delete_attribute i m =
     do { m \<leftarrow> delete_attr DeprecatedAttributesKeyColumn i m;
          m \<leftarrow> delete_attr DeprecatedAttributesValueType i m;
          delete_attr DeprecatedAttributesValueColumn i m }"

text \<open>
  The loop of the sources is over the positions of \<open>alteredAttributesIndexes\<close>, not over its
  elements.  The statements, the attributes that are left, the table and the counters.
\<close>

definition generateNewColumns ::
  "string \<Rightarrow> attrs_map \<Rightarrow> click_table \<Rightarrow> nat list \<Rightarrow> encodings \<Rightarrow> ingest_counters \<Rightarrow>
   (string list \<times> attrs_map \<times> click_table \<times> ingest_counters) option" where
  "generateNewColumns now attrsMap t alteredAttributesIndexes es ip =
     do { let attrKeys = getAttributesByArrayName DeprecatedAttributesKeyColumn attrsMap;
          let attrTypes = getAttributesByArrayName DeprecatedAttributesValueType attrsMap;
          let reverseMap = reverseFieldEncoding es (click_Name t);
          let positions = [0..<length alteredAttributesIndexes];
          st \<leftarrow> foldl (\<lambda>st i. do { st \<leftarrow> st; new_column t reverseMap attrKeys attrTypes st i })
                  (Some \<lparr>newColumns = Cols t, alterCmd = [], deleteIndexes = []\<rparr>) positions;
          let t' = t\<lparr>Cols := newColumns st\<rparr>;
          let (t', ip') = (if VirtualTable t' then storeVirtualTable now t' ip else (t', ip));
          attrsMap' \<leftarrow> foldl (\<lambda>m i. do { m \<leftarrow> m; delete_attribute i m }) (Some attrsMap) (rev (deleteIndexes st));
          Some (alterCmd st, attrsMap', t', ip') }"

section \<open>The row\<close>

record non_schema_field =
  field_Key :: string
  field_Value :: string
  field_Type :: string

definition generateNonSchemaFields :: "attrs_map \<Rightarrow> non_schema_field list option" where
  "generateNonSchemaFields attrsMap =
     (if length attrsMap = 0 then Some []
      else let attrKeys = getAttributesByArrayName DeprecatedAttributesKeyColumn attrsMap;
               attrValues = getAttributesByArrayName DeprecatedAttributesValueColumn attrsMap;
               attrTypes = getAttributesByArrayName DeprecatedAttributesValueType attrsMap
           in opt_mapM (\<lambda>(i, key).
                do { v \<leftarrow> item attrValues i;
                     t \<leftarrow> item attrTypes i;
                     Some \<lparr>field_Key = key, field_Value = v, field_Type = ''v1;'' @ t\<rparr> }) (enumerate 0 attrKeys))"

text \<open>Keys and values are written between quotes as they are.\<close>

definition json_pair :: "string \<Rightarrow> string \<Rightarrow> string" where
  "json_pair k v = [CHR 0x22] @ k @ [CHR 0x22] @ '':'' @ [CHR 0x22] @ v @ [CHR 0x22]"

definition json_column :: "string \<Rightarrow> (non_schema_field \<Rightarrow> string) \<Rightarrow> non_schema_field list \<Rightarrow> string" where
  "json_column column get nonSchemaFields =
     [CHR 0x22] @ column @ [CHR 0x22] @ '':{'' @ join '','' (map (\<lambda>f. json_pair (field_Key f) (get f)) nonSchemaFields) @ ''}''"

definition convertNonSchemaFieldsToString :: "non_schema_field list \<Rightarrow> string" where
  "convertNonSchemaFieldsToString nonSchemaFields =
     (if length nonSchemaFields \<le> 0 then []
      else json_column AttributesValuesColumn field_Value nonSchemaFields @ '',''
           @ json_column AttributesMetadataColumn field_Type nonSchemaFields)"

text \<open>
  \<open>marshal\<close> is \<open>json.Marshal\<close> of the package \<open>goccy/go-json\<close>; \<open>Inl\<close> is its error.  The first byte
  of its text is cut off.
\<close>

definition generateInsertJson ::
  "(json_map \<Rightarrow> 'e + string) \<Rightarrow> non_schema_field list \<Rightarrow> json_map \<Rightarrow> ('e + string) option" where
  "generateInsertJson marshal nonSchemaFields onlySchemaFields =
     (let nonSchemaStr = convertNonSchemaFieldsToString nonSchemaFields
      in case marshal onlySchemaFields of
           Inl err \<Rightarrow> Some (Inl err)
         | Inr schemaFieldsJson \<Rightarrow>
             do { rest \<leftarrow> slice_of schemaFieldsJson 1 (int (length schemaFieldsJson));
                  Some (Inr (''{'' @ nonSchemaStr
                    @ (if nonSchemaStr \<noteq> [] \<and> length schemaFieldsJson > 2 then '','' else []) @ rest)) })"

text \<open>
  The statements, the fields of the row that have columns and those that do not.  Without
  attributes in the configuration of the table the fields without columns stay where they are, and the invalid
  ones are dropped.
\<close>

record ingest_content =
  content_alter :: "string list"
  content_fields :: json_map
  content_attributes :: "non_schema_field list"

definition attributes_or_nil :: "string + attrs_map \<Rightarrow> attrs_map" where
  "attributes_or_nil r = (case r of Inl err \<Rightarrow> [] | Inr m \<Rightarrow> m)"

definition GenerateIngestContent ::
  "string \<Rightarrow> click_table \<Rightarrow> json_map \<Rightarrow> json_map \<Rightarrow> table_config \<Rightarrow> encodings \<Rightarrow> ingest_counters \<Rightarrow>
   (ingest_content \<times> click_table \<times> ingest_counters) option" where
  "GenerateIngestContent now t data inValidJson config es ip =
     (if length (Attributes config) = 0
      then Some (\<lparr>content_alter = [], content_fields = data, content_attributes = []\<rparr>, t, ip)
      else do { (mDiff, data) \<leftarrow> DifferenceMap data (Cols t);
                if mDiff = [] \<and> inValidJson = []
                then Some (\<lparr>content_alter = [], content_fields = data, content_attributes = []\<rparr>, t, ip)
                else do { attrs \<leftarrow> BuildAttrsMap mDiff config;
                          let attrsMap = attributes_or_nil attrs;
                          let ip = ip\<lparr>ingestCounter := ingestCounter ip + 1\<rparr>;
                          let ((ok, indexes), ip) = shouldAlterColumns t attrsMap ip;
                          (alter, attrsMap, t, ip) \<leftarrow>
                            (if ok then generateNewColumns now attrsMap t indexes es ip else Some ([], attrsMap, t, ip));
                          nonSchemaFields \<leftarrow> generateNonSchemaFields (addInvalidJsonFieldsToAttributes attrsMap inValidJson);
                          onlySchemaFields \<leftarrow> RemoveNonSchemaFields data (Cols t);
                          Some (\<lparr>content_alter = alter, content_fields = onlySchemaFields,
                                 content_attributes = nonSchemaFields\<rparr>, t, ip) } })"

end
