(* ===== verification/Table_Discovery.thy ===== *)
theory Table_Discovery
  imports Ingest_Attributes
begin

text \<open>
  Discovery of the tables of the database: \<open>table_discovery.go\<close> and \<open>type_adapter.go\<close> of
  \<open>quesma/clickhouse\<close>, and \<open>ApplyIndexConfig\<close> of \<open>table.go\<close>.  What the queries on the system tables
  answer, the columns of the database, comments, statements and timestamp fields, are arguments.
  Times of access and reloads are left out.
\<close>

section \<open>Types of columns\<close>

definition is_array_text :: "string \<Rightarrow> bool" where
  "is_array_text s \<longleftrightarrow> has_prefix s ''Array('' \<and> has_suffix s '')''"

text \<open>The type of the elements is what is left of the array types around it.\<close>

function innermost :: "string \<Rightarrow> string" where
  "innermost s = (if is_array_text s then innermost (take (length s - 7) (drop 6 s)) else s)"
  by pat_completeness auto
termination
proof (relation "measure length")
  fix s :: string
  assume "is_array_text s"
  then have "s \<noteq> []" by (auto simp: is_array_text_def has_prefix_def)
  then show "(take (length s - 7) (drop 6 s), s) \<in> measure length" by simp
qed simp

declare innermost.simps [simp del]

definition Convert :: "string \<Rightarrow> quesma_type \<times> bool" where
  "Convert s =
     (let s = innermost s
      in if has_prefix s ''Unknown'' then (QuesmaTypeUnknown, True)
         else if has_prefix s ''Tuple'' then (QuesmaTypeObject, True)
         else if s \<in> {''String'', ''LowCardinality(String)'', ''UUID'', ''FixedString''} then (QuesmaTypeKeyword, True)
         else if s \<in> {''Int'', ''Int8'', ''Int16'', ''Int32'', ''Int64''} then (QuesmaTypeLong, True)
         else if s \<in> {''UInt8'', ''UInt16'', ''UInt32'', ''UInt64'', ''UInt128'', ''UInt256''} then (QuesmaTypeInteger, True)
         else if s = ''Bool'' then (QuesmaTypeBoolean, True)
         else if s \<in> {''Float32'', ''Float64''} then (QuesmaTypeFloat, True)
         else if s \<in> {''DateTime'', ''DateTime64''} then (QuesmaTypeTimestamp, True)
         else if s = ''Date'' then (QuesmaTypeDate, True)
         else if s = ''Point'' then (QuesmaTypePoint, True)
         else if s \<in> {''Map(String, Nullable(String))'', ''Map(String, String)''} then (QuesmaTypeMap, True)
         else (QuesmaTypeUnknown, False))"

definition SchemaTypeAdapter :: "string \<Rightarrow> quesma_type option" where
  "SchemaTypeAdapter s = (case Convert s of (t, ok) \<Rightarrow> if ok then Some t else None)"

definition isNullableType :: "string \<Rightarrow> bool" where
  "isNullableType colType \<longleftrightarrow> has_prefix colType ''Nullable(''"

definition isTupleType :: "string \<Rightarrow> bool" where
  "isTupleType colType \<longleftrightarrow> has_prefix colType ''Tuple('' \<and> has_suffix colType '')''"

definition isEnumType :: "string \<Rightarrow> bool" where
  "isEnumType colType \<longleftrightarrow> has_prefix colType ''Enum''"

definition strip_nullable :: "string \<Rightarrow> string \<times> bool" where
  "strip_nullable colType =
     (if isNullableType colType then (trim_suffix (trim_prefix colType ''Nullable('') '')'', True) else (colType, False))"

text \<open>What is before the last opening bracket.\<close>

definition removePrecision :: "string \<Rightarrow> string" where
  "removePrecision s = (if CHR ''('' \<in> set s then rev (tl (dropWhile (\<lambda>c. c \<noteq> CHR ''('') (rev s))) else s)"

text \<open>The outer option is a panic, the inner one the nil column.\<close>

definition resolve_tuple :: "string \<Rightarrow> string \<Rightarrow> click_column option option" where
  "resolve_tuple colName colType =
     do { k \<leftarrow> parseExact colType (int (length ''Tuple'')) ''('';
          r \<leftarrow> (if k = -1 then Some None else tuple_columns colType k []);
          Some (case r of
                  None \<Rightarrow> None
                | Some (j, columns) \<Rightarrow> Some (Column colName (MultiValueType ''Tuple'' (map Some columns)) [] [] [])) }"

definition resolve_base :: "string \<Rightarrow> string \<Rightarrow> bool \<Rightarrow> click_column" where
  "resolve_base colName colType isNullable =
     (let colType = (if has_prefix colType ''DateTime'' then removePrecision colType else colType)
      in case ResolveType colType of
           Some g \<Rightarrow> Column colName (BaseType colType g isNullable) [] [] []
         | None \<Rightarrow> Column colName (BaseType (''Unknown('' @ colType @ '')'') GoUnknown isNullable) [] [] [])"

text \<open>The elements of an array may be of a base type or tuples; nothing else is resolved.\<close>

definition resolve_array :: "string \<Rightarrow> string \<Rightarrow> bool \<Rightarrow> click_column option option" where
  "resolve_array colName colType isNullable =
     (let (arrayType, nullableElements) = strip_nullable (trim_suffix (trim_prefix colType ''Array('') '')'')
      in case ResolveType arrayType of
           Some g \<Rightarrow>
             Some (Some (Column colName (CompoundType ''Array'' (BaseType arrayType g (isNullable \<or> nullableElements))) [] [] []))
         | None \<Rightarrow>
             if isTupleType arrayType
             then do { c \<leftarrow> resolve_tuple ''Tuple'' arrayType;
                       Some (map_option (\<lambda>c. Column colName (CompoundType ''Array'' (col_Type c)) [] [] []) c) }
             else Some None)"

definition resolveColumn :: "string \<Rightarrow> string \<Rightarrow> click_column option option" where
  "resolveColumn colName colType =
     (let (colType, isNullable) = strip_nullable colType
      in if is_array_text colType then resolve_array colName colType isNullable
         else if isTupleType colType then resolve_tuple colName colType
         else if isEnumType colType then Some (Some (Column colName (BaseType ''Int32'' GoInt32 False) [] [] []))
         else Some (Some (resolve_base colName colType isNullable)))"

section \<open>Tables of the configuration\<close>

record column_metadata =
  colType :: string
  metadata_comment :: string

record discovered_table =
  discovered_name :: string
  discovered_database :: string
  columnTypes :: "(string \<times> column_metadata) list"
  discovered_config :: schema_index_configuration
  discovered_comment :: string
  discovered_ddl :: string
  discovered_timestamp :: string
  discovered_virtual :: bool

text \<open>What the gateway asks the database about a table, and its own configuration.\<close>

record discovery =
  ask_comment :: "string \<Rightarrow> string"
  ask_ddl :: "string \<Rightarrow> string"
  ask_timestamp :: "string \<Rightarrow> string"
  indexes_of_config :: "(string \<times> schema_index_configuration) list"
  cluster_of_config :: string
  database_of_config :: string
  autodiscovery :: bool

definition no_index_configuration :: schema_index_configuration where
  "no_index_configuration =
     \<lparr>Optimizers = Map.empty, Override = [], UseCommonTable = False, QueryTarget = [], IngestTarget = [],
      SchemaOverrides = None\<rparr>"

definition overrideToOriginal :: "(string \<times> schema_index_configuration) list \<Rightarrow> (string \<rightharpoonup> string)" where
  "overrideToOriginal cfg =
     foldl (\<lambda>m (indexName, c). if length (Override c) > 0 then m(Override c \<mapsto> indexName) else m) Map.empty cfg"

definition config_or_zero :: "(string \<times> schema_index_configuration) list \<Rightarrow> string \<Rightarrow> schema_index_configuration" where
  "config_or_zero cfg n = (case map_of cfg n of Some c \<Rightarrow> c | None \<Rightarrow> no_index_configuration)"

text \<open>The configuration by which a table is handled, none for a table that is not configured or disabled.\<close>

definition configured :: "(string \<times> schema_index_configuration) list \<Rightarrow> string \<Rightarrow> schema_index_configuration option" where
  "configured cfg table =
     (let isCommonTable = (table = CommonTable);
          original = overrideToOriginal cfg table
      in if map_of cfg table = None \<and> \<not> isCommonTable \<and> original = None then None
         else let c = (case original of
                         Some indexName \<Rightarrow> config_or_zero cfg indexName
                       | None \<Rightarrow> if isCommonTable then no_index_configuration else config_or_zero cfg table)
              in if \<not> isCommonTable \<and> \<not> IsClickhouseQueryEnabled (index_configuration.truncate c)
                    \<and> \<not> IsClickhouseIngestEnabled (index_configuration.truncate c)
                 then None else Some c)"

type_synonym database_columns = "(string \<times> (string \<times> column_metadata) list) list"

definition configureTables :: "discovery \<Rightarrow> database_columns \<Rightarrow> string \<Rightarrow> (string \<times> discovered_table) list" where
  "configureTables td tables databaseName =
     concat (map (\<lambda>(table, columns).
       case configured (indexes_of_config td) table of
         None \<Rightarrow> []
       | Some c \<Rightarrow>
           [(table, \<lparr>discovered_name = table, discovered_database = databaseName, columnTypes = columns,
                     discovered_config = c, discovered_comment = ask_comment td table, discovered_ddl = ask_ddl td table,
                     discovered_timestamp = [], discovered_virtual = False\<rparr>)]) tables)"

definition autoConfigureTables :: "discovery \<Rightarrow> database_columns \<Rightarrow> string \<Rightarrow> (string \<times> discovered_table) list" where
  "autoConfigureTables td tables databaseName =
     map (\<lambda>(table, columns).
       (table, \<lparr>discovered_name = table, discovered_database = databaseName, columnTypes = columns,
                discovered_config = no_index_configuration, discovered_comment = ask_comment td table,
                discovered_ddl = ask_ddl td table, discovered_timestamp = ask_timestamp td table, discovered_virtual = False\<rparr>))
       tables"

text \<open>
  The virtual tables of the storage, with the structure that decoding leaves, \<open>None\<close> for one that
  cannot be read.  Their columns are those of the common table with the same names.
\<close>

definition virtual_columns :: "(string \<times> column_metadata) list \<Rightarrow> string list \<Rightarrow> (string \<times> column_metadata) list" where
  "virtual_columns common cols =
     foldl (\<lambda>m n. case map_of common n of Some c \<Rightarrow> AList.update n c m | None \<Rightarrow> m) [] cols"

definition read_virtual_table ::
  "(string \<times> column_metadata) list \<Rightarrow> (string \<times> discovered_table) list \<Rightarrow> string \<times> virtual_table option \<Rightarrow> (string \<times> discovered_table) list" where
  "read_virtual_table common tables vt =
     (case vt of
        (name, Some t) \<Rightarrow>
          if vt_Version t \<noteq> VirtualTableStructVersion then tables
          else AList.update name
                 \<lparr>discovered_name = name, discovered_database = [], columnTypes = virtual_columns common (vt_Columns t),
                  discovered_config = no_index_configuration,
                  discovered_comment = ''Virtual table. Version: '' @ vt_StoredAt t, discovered_ddl = ''n/a'',
                  discovered_timestamp = [], discovered_virtual = True\<rparr> tables
      | (name, None) \<Rightarrow> tables)"

definition readVirtualTables ::
  "(string \<times> virtual_table option) list option \<Rightarrow> (string \<times> discovered_table) list \<Rightarrow> (string \<times> discovered_table) list" where
  "readVirtualTables storage tables =
     (case map_of tables CommonTable of
        None \<Rightarrow> tables
      | Some common \<Rightarrow>
          (case storage of
             None \<Rightarrow> tables
           | Some virtualTables \<Rightarrow> foldl (read_virtual_table (columnTypes common)) tables virtualTables))"

section \<open>Definitions of tables\<close>

text \<open>A column whose type is not resolved leaves out the table.\<close>

definition resolved_columns ::
  "schema_index_configuration \<Rightarrow> (string \<times> column_metadata) list \<Rightarrow> ((string \<times> click_column) list \<times> bool) option" where
  "resolved_columns c types =
     foldl (\<lambda>st (col, meta).
       do { (cols, partiallyResolved) \<leftarrow> st;
            if (case SchemaOverrides c of None \<Rightarrow> False
                | Some s \<Rightarrow> (case map_of (override_Fields s) col of Some f \<Rightarrow> Ignored f | None \<Rightarrow> False))
            then Some (cols, partiallyResolved)
            else do { column \<leftarrow> resolveColumn col (colType meta);
                      Some (case column of
                              Some (Column n t modifiers codec comment) \<Rightarrow>
                                (AList.update col (Column n t modifiers codec (metadata_comment meta)) cols, partiallyResolved)
                            | None \<Rightarrow> (cols, True)) } })
       (Some ([], False)) types"

definition containsAttributes :: "(string \<times> column_metadata) list \<Rightarrow> bool" where
  "containsAttributes cols \<longleftrightarrow>
     (\<exists>(col, meta) \<in> set cols. col = AttributesValuesColumn \<and> colType meta = ''Map(String, String)'') \<and>
     (\<exists>(col, meta) \<in> set cols. col = AttributesMetadataColumn \<and> colType meta = ''Map(String, String)'')"

definition ApplyIndexConfig :: "(string \<times> schema_index_configuration) list \<Rightarrow> click_table \<Rightarrow> click_table" where
  "ApplyIndexConfig cfg t =
     t\<lparr>click_aliases :=
         (case map_of cfg (click_Name t) of
            None \<Rightarrow> []
          | Some c \<Rightarrow>
              foldl (\<lambda>m (fieldName, f). if FieldType f = TypeAlias then AList.update fieldName (TargetColumnName f) m else m)
                [] (overrides c))\<rparr>"

definition discovered_table_config :: "attribute list \<Rightarrow> table_config" where
  "discovered_table_config attributes =
     \<lparr>HasTimestamp = False, TimestampDefaultsNow = False, Engine = [], config_OrderBy = [], PartitionBy = [],
      PrimaryKey = [], Settings = [], Ttl = [], config_Cluster = [], Attributes = attributes,
      CastUnsupportedAttrValueTypesToString = True, PreferCastingToOthers = True\<rparr>"

definition table_definition :: "discovery \<Rightarrow> string \<Rightarrow> string \<times> discovered_table \<Rightarrow> table_map option" where
  "table_definition td databaseName nt =
     (case nt of
        (tableName, resTable) \<Rightarrow>
          do { (cols, partiallyResolved) \<leftarrow> resolved_columns (discovered_config resTable) (columnTypes resTable);
               Some (if partiallyResolved then []
                     else [(tableName, ApplyIndexConfig (indexes_of_config td)
                       \<lparr>click_Name = tableName, click_Database = databaseName, click_Cluster = cluster_of_config td, Cols = cols,
                        click_Config = discovered_table_config
                          (if containsAttributes (columnTypes resTable) then [NewDefaultStringAttribute] else []),
                        click_Created = True, click_Indexes = [], click_aliases = [], click_Comment = discovered_comment resTable,
                        CreateTableQuery = discovered_ddl resTable,
                        DiscoveredTimestampFieldName =
                          (if discovered_timestamp resTable \<noteq> [] then Some (discovered_timestamp resTable) else None),
                        VirtualTable = discovered_virtual resTable\<rparr>)]) })"

definition populateTableDefinitions :: "discovery \<Rightarrow> (string \<times> discovered_table) list \<Rightarrow> string \<Rightarrow> table_map option" where
  "populateTableDefinitions td configuredTables databaseName =
     map_option concat (opt_mapM (table_definition td databaseName) configuredTables)"

text \<open>\<open>None\<close> for the tables is the error of the database; then no table is left.\<close>

definition ReloadTableDefinitions ::
  "discovery \<Rightarrow> database_columns option \<Rightarrow> (string \<times> virtual_table option) list option \<Rightarrow> table_map option" where
  "ReloadTableDefinitions td database storage =
     (let databaseName = (if database_of_config td \<noteq> [] then database_of_config td else ''default'')
      in case database of
           None \<Rightarrow> Some []
         | Some tables \<Rightarrow>
             populateTableDefinitions td
               (readVirtualTables storage
                 (if autodiscovery td then autoConfigureTables td tables databaseName
                  else configureTables td tables databaseName)) databaseName)"

definition AddTable :: "string \<Rightarrow> click_table \<Rightarrow> table_map \<Rightarrow> table_map" where
  "AddTable tableName t tables = AList.update tableName t tables"

text \<open>The tables as the schema registry sees them: without the columns of attributes.\<close>

definition internalColumn :: "string \<Rightarrow> bool" where
  "internalColumn n \<longleftrightarrow> n \<in> {AttributesValuesColumn, AttributesMetadataColumn, DeprecatedAttributesKeyColumn,
      DeprecatedAttributesValueColumn, DeprecatedAttributesValueType}"

definition schema_table :: "click_table \<Rightarrow> table" where
  "schema_table t =
     \<lparr>table_Columns =
        foldl (\<lambda>m (_, c). if internalColumn (col_Name c) then m
                 else AList.update (col_Name c)
                        \<lparr>column_Name = col_Name c, column_Type = type_String (col_Type c), column_Comment = col_Comment c\<rparr> m)
          [] (Cols t),
      table_DatabaseName = click_Database t\<rparr>"

definition schema_tables :: "table_map \<Rightarrow> (string \<times> table) list" where
  "schema_tables tables = map (\<lambda>(n, t). (n, schema_table t)) tables"

end
