(* ===== verification/Document_Columns.thy ===== *)
theory Document_Columns
  imports Ingest_Documents "HOL-Library.Multiset"
begin

text \<open>
  The columns of a document: renaming the fields of its objects (\<open>transformFieldName\<close>) and then
  flattening it gives exactly the columns registered as the encodings of its dotted names.  A
  document is described by its leaves, each with the path of names to it; both steps are maps
  over these as long as no names clash.
\<close>


section \<open>Paths\<close>

text \<open>The leaves of a document, each with the names on the way to it.\<close>

function paths :: "json_map \<Rightarrow> (string list \<times> json) list" where
  "paths [] = []"
| "paths ((k, v) # m) = (case v of JObject n \<Rightarrow> map (apfst (Cons k)) (paths n) | _ \<Rightarrow> [([k], v)]) @ paths m"
  by pat_completeness auto
termination by (relation "measure (\<lambda>m. size (JObject m))") auto

lemma paths_nonempty: "(p, v) \<in> set (paths m) \<Longrightarrow> p \<noteq> []"
  by (induction m rule: paths.induct) (auto split: json.splits)

definition leaves :: "string \<Rightarrow> json_map \<Rightarrow> json_map" where
  "leaves sep m = map (apfst (join sep)) (paths m)"

lemma update_new: "k \<notin> set (map fst m) \<Longrightarrow> AList.update k v m = m @ [(k, v)]"
  by (induction m) auto

lemma fold_update_new:
  "distinct (map fst (acc @ xs)) \<Longrightarrow> foldl (\<lambda>m (k, x). AList.update k x m) acc xs = acc @ xs"
proof (induction xs arbitrary: acc)
  case (Cons kx xs)
  then show ?case using Cons.IH [of "acc @ [kx]"] by (cases kx) (simp add: update_new)
qed simp

lemma leaves_Cons:
  "leaves sep ((k, v) # m) =
     (case v of JObject n \<Rightarrow> map (\<lambda>(k', x). (k @ sep @ k', x)) (leaves sep n) | _ \<Rightarrow> [(k, v)]) @ leaves sep m"
  using paths_nonempty
  by (auto simp: leaves_def apfst_def join_Cons split: json.splits) 

text \<open>Without clashes a flat document is the list of the leaves.\<close>

lemma flatten_leaves_into:
  "distinct (map fst (acc @ leaves sep m)) \<Longrightarrow> flatten_into sep m acc = acc @ leaves sep m"
proof (induction sep m acc rule: flatten_into.induct)
  case (1 sep flattened)
  then show ?case by (simp add: leaves_def)
next
  case (2 sep key v data flattened)
  show ?case
  proof (cases "\<exists>n. v = JObject n")
    case True
    then obtain n where v: "v = JObject n" by blast
    define f where "f = (\<lambda>(k, x :: json). (key @ sep @ k, x))"
    define xs where "xs = map f (leaves sep n)"
    have l: "leaves sep ((key, v) # data) = xs @ leaves sep data" using v by (simp add: leaves_Cons xs_def f_def)
    have "map fst xs = map (\<lambda>k. key @ sep @ k) (map fst (leaves sep n))"
      by (simp add: xs_def f_def case_prod_unfold comp_def)
    moreover have "distinct (map fst xs)" using 2(3) l by simp
    ultimately have "distinct (map fst ([] @ leaves sep n))"
      unfolding append_Nil by (metis distinct_map)
    then have n: "flatten_into sep n [] = leaves sep n" using 2(1) [OF v] by simp
    have "foldl (\<lambda>m (k, x). AList.update (key @ sep @ k) x m) acc ys = foldl (\<lambda>m (k, x). AList.update k x m) acc (map f ys)"
      for acc ys by (simp add: foldl_map f_def case_prod_unfold)
    moreover have "distinct (map fst (flattened @ xs))" using 2(3) l by auto
    ultimately have "foldl (\<lambda>m (k, x). AList.update (key @ sep @ k) x m) flattened (leaves sep n) = flattened @ xs"
      using fold_update_new [of flattened xs] by (simp only: xs_def)
    then show ?thesis using 2(2) 2(3) v l n by (simp add: image_Un)
  next
    case False
    then have "leaves sep ((key, v) # data) = (key, v) # leaves sep data" by (simp add: leaves_Cons split: json.splits)
    moreover have "flatten_into sep ((key, v) # data) flattened = flatten_into sep data (AList.update key v flattened)"
      using False by (simp split: json.splits)
    ultimately show ?thesis
      using 2(2) 2(3) False update_new [of key flattened v] by (simp split: json.splits)
  qed
qed

lemma FlattenMap_leaves: "distinct (map fst (leaves sep m)) \<Longrightarrow> FlattenMap m sep = leaves sep m"
  using flatten_leaves_into [of "[]" sep m] by (simp add: FlattenMap_def)


section \<open>Encoded names\<close>

definition encode_name :: "nat \<Rightarrow> string \<Rightarrow> string" where
  "encode_name level k = (case field_encoder level k of Some e \<Rightarrow> e | None \<Rightarrow> [])"

lemma lower_char_idem [simp]: "lower_char (lower_char c) = lower_char c"
proof (cases "65 \<le> (of_char c :: nat) \<and> (of_char c :: nat) \<le> 90")
  case True
  then have "(of_char (char_of ((of_char c :: nat) + 32)) :: nat) = of_char c + 32" by simp
  then show ?thesis using True by (simp add: lower_char_def Let_def)
qed (auto simp: lower_char_def Let_def)

definition encode_char :: "char \<Rightarrow> char" where
  "encode_char c = (if \<not> isLetter (lower_char c) \<and> \<not> isDigit (lower_char c) then CHR ''_'' else lower_char c)"

lemma encode_underscore: "encode_char CHR ''_'' = CHR ''_''"
  by (simp add: encode_char_def isLetter_def isDigit_def lower_char_def)

lemma encode_char_idem [simp]: "encode_char (encode_char c) = encode_char c"
proof (cases "\<not> isLetter (lower_char c) \<and> \<not> isDigit (lower_char c)")
  case True
  then have "encode_char c = CHR ''_''" by (simp add: encode_char_def)
  then show ?thesis by (simp only: encode_underscore)
next
  case False
  then have "encode_char c = lower_char c" by (auto simp: encode_char_def)
  moreover have "encode_char (lower_char c) = lower_char c" using False by (auto simp: encode_char_def)
  ultimately show ?thesis by simp
qed

lemma encoded_part: "k \<noteq> timestampFieldName \<Longrightarrow> FieldPartToColumnEncoder k = map encode_char k"
  by (simp add: FieldPartToColumnEncoder_def replaceNonAlphabetic_def to_lower_def encode_char_def)

lemma encode_at: "CHR ''@'' \<notin> set (map encode_char s)"
proof -
  have "encode_char c \<noteq> CHR ''@''" for c by (auto simp: encode_char_def isLetter_def isDigit_def dest!: sym [of _ "lower_char c"])
  then show ?thesis by (auto dest: sym)
qed

lemma encoded_part_no_timestamp: "FieldPartToColumnEncoder k = timestampFieldName \<longleftrightarrow> k = timestampFieldName"
  using encode_at [of k] encoded_part [of k]
  by (auto simp: timestampFieldName_def FieldPartToColumnEncoder_def)

lemma encode_part_idem: "FieldPartToColumnEncoder (FieldPartToColumnEncoder k) = FieldPartToColumnEncoder k"
proof (cases "k = timestampFieldName")
  case False
  then show ?thesis using encoded_part_no_timestamp [of k]
    by (simp add: encoded_part comp_def)
qed (simp add: FieldPartToColumnEncoder_def)

lemma not_digit_underscore: "\<not> isDigit CHR ''_''"
  by (simp add: isDigit_def)

lemma encode_name_idem: "encode_name level (encode_name level k) = encode_name level k"
proof (cases "level = 0 \<and> k \<noteq> []")
  case True
  obtain c s where e: "FieldPartToColumnEncoder k = c # s"
    using True by (cases "FieldPartToColumnEncoder k")
      (auto simp: FieldPartToColumnEncoder_def replaceNonAlphabetic_def to_lower_def split: if_splits)
  then have i: "FieldPartToColumnEncoder (c # s) = c # s" using encode_part_idem [of k] by simp
  show ?thesis
  proof (cases "isDigit c")
    case d: True
    then have "c # s \<noteq> timestampFieldName" by (auto simp: timestampFieldName_def isDigit_def)
    then have "map encode_char (c # s) = c # s" using i by (simp add: encoded_part)
    then have "FieldPartToColumnEncoder (CHR ''_'' # c # s) = CHR ''_'' # c # s"
      by (simp add: encoded_part timestampFieldName_def encode_underscore)
    then show ?thesis using True e d not_digit_underscore
      by (simp add: encode_name_def field_encoder_def FieldToColumnEncoder_def)
  next
    case False
    then show ?thesis using True e i
      by (simp add: encode_name_def field_encoder_def FieldToColumnEncoder_def)
  qed
qed (auto simp: encode_name_def field_encoder_def encode_part_idem)

text \<open>The column of a path is made from the columns of its parts.\<close>

fun encode_path :: "nat \<Rightarrow> string list \<Rightarrow> string list" where
  "encode_path level [] = []"
| "encode_path level (k # p) = encode_name level k # encode_path (level + 1) p"

definition plain_path :: "string list \<Rightarrow> bool" where
  "plain_path p \<longleftrightarrow> p = [timestampFieldName] \<or> timestampFieldName \<notin> set p"

lemma map_join: "map f (join sep ps) = join (map f sep) (map (map f) ps)"
  by (induction sep ps rule: join.induct) auto

lemma encode_path_inner:
  "level \<noteq> 0 \<Longrightarrow> timestampFieldName \<notin> set p \<Longrightarrow> encode_path level p = map (map encode_char) p"
  by (induction level p rule: encode_path.induct) (auto simp: encode_name_def field_encoder_def encoded_part)

lemma join_not_timestamp: "timestampFieldName \<notin> set p \<Longrightarrow> join ''.'' p \<noteq> timestampFieldName"
proof (cases p)
  case (Cons k q)
  assume "timestampFieldName \<notin> set p"
  moreover have "q \<noteq> [] \<Longrightarrow> CHR ''.'' \<in> set (join ''.'' p)" using Cons by (simp add: join_Cons)
  moreover have "CHR ''.'' \<notin> set timestampFieldName" by (simp add: timestampFieldName_def)
  ultimately show ?thesis using Cons by (cases "q = []") (force, metis)
qed (simp add: timestampFieldName_def)

lemma encode_joined:
  assumes "plain_path (k # p)" "k \<noteq> []"
  shows "FieldToColumnEncoder (join ''.'' (k # p)) = Some (join ''_'' (encode_path 0 (k # p)))"
proof (cases "timestampFieldName \<in> set (k # p)")
  case True
  then have "k # p = [timestampFieldName]" using assms by (auto simp: plain_path_def)
  then show ?thesis
    by (auto simp: encode_name_def field_encoder_def FieldToColumnEncoder_def FieldPartToColumnEncoder_def timestampFieldName_def)
next
  case False
  obtain c s where k: "k = c # s" using assms(2) by (cases k) auto
  have dot: "map encode_char ''.'' = ''_''" by (simp add: encode_char_def isLetter_def isDigit_def lower_char_def)
  have "FieldPartToColumnEncoder (join ''.'' (k # p)) = join ''_'' (map (map encode_char) (k # p))"
    using join_not_timestamp [OF False] by (simp only: encoded_part map_join dot simp_thms)
  moreover have "encode_path 1 p = map (map encode_char) p" using False by (simp add: encode_path_inner)
  moreover have "FieldPartToColumnEncoder k = encode_char c # map encode_char s"
    using False k encoded_part [of k] by auto
  ultimately show ?thesis using k
    by (cases p) (auto simp: encode_name_def field_encoder_def FieldToColumnEncoder_def join_Cons)
qed


section \<open>Renaming\<close>

text \<open>No two fields of an object have the same encoded name, at any level.\<close>

function unclashing :: "nat \<Rightarrow> json_map \<Rightarrow> bool"
  and unclashing_inside :: "nat \<Rightarrow> json_map \<Rightarrow> bool" where
  "unclashing level m =
     (distinct (map (encode_name level) (map fst m)) \<and> (level = 0 \<longrightarrow> [] \<notin> set (map fst m)) \<and> unclashing_inside level m)"
| "unclashing_inside level [] = True"
| "unclashing_inside level ((k, v) # m) =
     ((case v of JObject n \<Rightarrow> unclashing (level + 1) n | _ \<Rightarrow> True) \<and> unclashing_inside level m)"
  by pat_completeness auto
termination
  by (relation "measure (\<lambda>x. case x of Inl (l, m) \<Rightarrow> 2 * size (JObject m) + 1 | Inr (l, m) \<Rightarrow> 2 * size (JObject m))") auto

lemma delete_new: "k \<notin> set (map fst m) \<Longrightarrow> AList.delete k m = m"
  by (induction m) auto

lemma delete_append: "AList.delete k (m @ n) = AList.delete k m @ AList.delete k n"
  by (simp add: AList.delete_eq)

lemma rename_step:
  assumes cur: "mset cur = mset (map (apfst e) xs @ (k, v) # ys)"
    and e: "\<And>k. e (e k) = e k" "encoder k = Some (e k)"
    and d: "distinct (map e (map fst (xs @ (k, v) # ys)))"
  shows "\<exists>cur'. rename_key encoder (Some cur) k = Some cur' \<and> mset cur' = mset (map (apfst e) (xs @ [(k, v)]) @ ys)"
proof (cases "k = e k")
  case True
  then show ?thesis using cur e(2) by (simp add: rename_key_def apfst_def map_prod_def)
next
  case False
  let ?rest = "map (apfst e) xs @ ys"
  have names: "mset (map fst cur) = mset (map fst (?rest @ [(k, v)]))"
    using arg_cong [OF cur, of "image_mset fst"] by (simp add: image_mset.compositionality comp_def)
  have ks: "set (map fst cur) = insert k (e ` fst ` set xs \<union> fst ` set ys)"
    using arg_cong [OF names, of set_mset] by (auto simp: image_image)
  have out: "e k \<notin> e ` fst ` set xs \<union> e ` fst ` set ys" using d by auto
  have k1: "k \<notin> e ` fst ` set xs \<union> fst ` set ys" using out e(1) by (auto simp: image_image)
  have k2: "e k \<notin> e ` fst ` set xs" using out by blast
  have k3: "e k \<notin> fst ` set ys"
  proof
    assume "e k \<in> fst ` set ys"
    then have "e (e k) \<in> e ` fst ` set ys" by (rule imageI)
    then show False using out e(1) by simp
  qed
  have k4: "e k \<notin> set (map fst cur)" unfolding ks using k2 k3 False by auto
  obtain as bs where split: "cur = as @ (k, v) # bs"
    using arg_cong [OF cur, of "\<lambda>M. (k, v) \<in># M"] by (auto dest: split_list)
  have rest: "mset (as @ bs) = mset ?rest" using cur split by simp
  have "set (map fst (as @ bs)) = e ` fst ` set xs \<union> fst ` set ys"
    using arg_cong [OF rest, of "\<lambda>M. set_mset (image_mset fst M)"] by (auto simp: image_image)
  then have "k \<notin> set (map fst (as @ bs))" using k1 by metis
  then have n: "k \<notin> set (map fst as)" "k \<notin> set (map fst bs)" by auto
  have "map_of cur k = Some v"
    using split n by (auto simp: map_add_def split: option.splits dest!: map_of_SomeD) force
  then have "rename_key encoder (Some cur) k = Some (as @ bs @ [(e k, v)])"
    using False e(2) k4 n by (simp add: rename_key_def update_new split delete_new delete_append)
  moreover have "mset (as @ bs @ [(e k, v)]) = mset (map (apfst e) (xs @ [(k, v)]) @ ys)" using rest by simp
  ultimately show ?thesis by blast
qed

lemma rename_all:
  assumes e: "\<And>k. e (e k) = e k"
  shows "mset cur = mset (map (apfst e) xs @ ys) \<Longrightarrow> \<forall>k \<in> set (map fst ys). encoder k = Some (e k) \<Longrightarrow>
    distinct (map e (map fst (xs @ ys))) \<Longrightarrow>
    \<exists>cur'. foldl (rename_key encoder) (Some cur) (map fst ys) = Some cur' \<and> mset cur' = mset (map (apfst e) (xs @ ys))"
proof (induction ys arbitrary: xs cur)
  case (Cons kv ys)
  obtain k v where kv: "kv = (k, v)" by fastforce
  obtain c where c: "rename_key encoder (Some cur) k = Some c" "mset c = mset (map (apfst e) (xs @ [(k, v)]) @ ys)"
    using rename_step [of cur e xs k v ys encoder] Cons.prems e kv by auto
  then show ?case using Cons.IH [of c "xs @ [(k, v)]"] Cons.prems(2, 3) kv by (simp add: apfst_def map_prod_def)
qed simp

section \<open>The columns of a document\<close>

lemma paths_concat:
  "paths m = concat (map (\<lambda>(k, v). case v of JObject n \<Rightarrow> map (apfst (Cons k)) (paths n) | _ \<Rightarrow> [([k], v)]) m)"
  by (induction m) auto

lemma mset_concat_map: "mset m = mset m' \<Longrightarrow> mset (concat (map f m)) = mset (concat (map f m'))"
proof -
  have "mset (concat (map f m)) = (\<Sum>x\<in>#mset m. mset (f x))" for m
    by (induction m) auto
  then show "mset m = mset m' \<Longrightarrow> ?thesis" by simp
qed

lemma paths_mset: "mset m = mset m' \<Longrightarrow> mset (paths m) = mset (paths m')"
  unfolding paths_concat [of m] paths_concat [of m'] by (rule mset_concat_map)

definition encode_rest :: "nat \<Rightarrow> string list \<Rightarrow> string list" where
  "encode_rest level p = (case p of [] \<Rightarrow> [] | k # p \<Rightarrow> k # encode_path (level + 1) p)"

lemma encode_rest_single: "encode_rest level [k] = [k]"
  by (simp add: encode_rest_def)

lemma paths_renamed:
  "paths (map (apfst e) m) = map (apfst (\<lambda>p. case p of [] \<Rightarrow> [] | k # p \<Rightarrow> e k # p)) (paths m)"
  by (induction m rule: paths.induct) (auto simp: apfst_def map_prod_def split: json.splits)

lemma transformed_paths:
  "unclashing level m \<Longrightarrow>
    \<exists>m'. transformFieldNameInternal level m = Some m' \<and> mset (paths m') = mset (map (apfst (encode_path level)) (paths m))"
  "unclashing_inside level m \<Longrightarrow>
    \<exists>m'. transform_nested level m = Some m' \<and> map fst m' = map fst m \<and>
      mset (paths m') = mset (map (apfst (encode_rest level)) (paths m))"
proof (induction level m and level m rule: transformFieldNameInternal_transform_nested.induct)
  case (1 level m)
  then obtain n where n: "transform_nested level m = Some n" "map fst n = map fst m"
    "mset (paths n) = mset (map (apfst (encode_rest level)) (paths m))" by auto
  have "\<forall>k \<in> set (map fst n). field_encoder level k = Some (encode_name level k)"
    using 1(2) n(2) by (force simp: encode_name_def field_encoder_def split: option.splits)
  then obtain m' where m': "foldl (rename_key (field_encoder level)) (Some n) (map fst n) = Some m'"
    "mset m' = mset (map (apfst (encode_name level)) n)"
    using rename_all [of "encode_name level" n "[]" n "field_encoder level"] 1(2) n(2) encode_name_idem by auto
  let ?f = "\<lambda>p. case p of [] \<Rightarrow> [] | k # p \<Rightarrow> encode_name level k # p"
  have "mset (paths m') = mset (map (apfst ?f) (paths n))"
    using paths_mset [OF m'(2)] by (simp only: paths_renamed)
  also have "\<dots> = mset (map (apfst ?f) (map (apfst (encode_rest level)) (paths m)))"
    by (simp only: mset_map n(3))
  also have "map (apfst ?f) (map (apfst (encode_rest level)) (paths m)) = map (apfst (encode_path level)) (paths m)"
    by (auto simp: encode_rest_def apfst_def map_prod_def split: list.splits)
  finally show ?case using n m'(1) by simp
next
  case (2 level)
  then show ?case by simp
next
  case (3 level k v m)
  note inside = 3(2) and rest = 3(1)
  have after: "\<exists>m'. transform_nested level m = Some m' \<and> map fst m' = map fst m \<and>
      mset (paths m') = mset (map (apfst (encode_rest level)) (paths m))"
    if "(case v of JObject n \<Rightarrow> map_option JObject (transformFieldNameInternal (level + 1) n) | _ \<Rightarrow> Some v) = Some a" for a
    using 3(2) [OF that] 3(3) by simp
  show ?case
  proof (cases "\<exists>n. v = JObject n")
    case True
    then obtain n where v: "v = JObject n" by blast
    then obtain n' where n': "transformFieldNameInternal (level + 1) n = Some n'"
      "mset (paths n') = mset (map (apfst (encode_path (level + 1))) (paths n))" using 3(1) [OF v] 3(3) by auto
    obtain m' where m': "transform_nested level m = Some m'" "map fst m' = map fst m"
      "mset (paths m') = mset (map (apfst (encode_rest level)) (paths m))" using after [of "JObject n'"] v n'(1) by auto
    have "mset (map (apfst (Cons k)) (paths n')) = mset (map (apfst (Cons k)) (map (apfst (encode_path (level + 1))) (paths n)))"
      by (simp only: mset_map n'(2))
    moreover have "map (apfst (Cons k)) (map (apfst (encode_path (level + 1))) (paths n)) = map (apfst (encode_rest level)) (map (apfst (Cons k)) (paths n))"
      by (auto simp: encode_rest_def apfst_def map_prod_def)
    ultimately have "mset (map (apfst (Cons k)) (paths n')) = mset (map (apfst (encode_rest level)) (map (apfst (Cons k)) (paths n)))"
      by (simp only:)
    then show ?thesis using v n'(1) m' by simp
  next
    case False
    then have "(case v of JObject n \<Rightarrow> map_option JObject (transformFieldNameInternal (level + 1) n) | _ \<Rightarrow> Some v) = Some v"
      by (simp split: json.splits)
    then obtain m' where "transform_nested level m = Some m'" "map fst m' = map fst m"
      "mset (paths m') = mset (map (apfst (encode_rest level)) (paths m))" using after [of v] by blast
    then show ?thesis using False by (cases v) (auto simp: encode_rest_single)
  qed
qed


lemma paths_head: "(p, v) \<in> set (paths m) \<Longrightarrow> \<exists>k q. p = k # q \<and> k \<in> fst ` set m"
proof (induction m rule: paths.induct)
  case (2 k x m)
  then show ?case by (cases x) auto
qed simp

lemma encodings_listed:
  assumes "\<And>f. f \<in> set fs \<Longrightarrow> FieldToColumnEncoder f = Some (e f)" "distinct fs"
    "\<And>f. f \<in> set fs \<Longrightarrow> (tbl, f) \<notin> set (map fst acc)"
  shows "foldl (\<lambda>es field. do { es \<leftarrow> es; e \<leftarrow> FieldToColumnEncoder field; Some (AList.update (tbl, field) e es) }) (Some acc) fs
    = Some (acc @ map (\<lambda>f. ((tbl, f), e f)) fs)"
  using assms
proof (induction fs arbitrary: acc)
  case (Cons f fs)
  have "AList.update (tbl, f) (e f) acc = acc @ [((tbl, f), e f)]"
    using Cons.prems(3) by (intro update_new) simp
  then show ?case using Cons.IH [of "acc @ [((tbl, f), e f)]"] Cons.prems by auto
qed simp

text \<open>
  C37: For a document in which no two fields of an object, and no two leaves, have the same encoded
  name, and where no inner field is called \<open>@timestamp\<close>: renaming the fields of the objects and
  then flattening gives exactly one column for every field of the document, with its value, and
  the column is the one registered as the encoding of the field's dotted name.
\<close>

theorem columns_are_encoded_fields:
  assumes "unclashing 0 m" "\<forall>(p, v) \<in> set (paths m). plain_path p"
    and d: "distinct (map (FieldToColumnEncoder \<circ> fst) (leaves ''.'' m))"
  shows "\<exists>m'. transformFieldName m = Some m' \<and>
    mset (map (apfst Some) (FlattenMap m' ''_'')) =
      mset (map (apfst FieldToColumnEncoder) (FlattenMap m ''.'')) \<and>
    map_option (map (apsnd Some)) (populateFieldEncodings [m] tbl) =
      Some (map (\<lambda>(f, v). ((tbl, f), FieldToColumnEncoder f)) (FlattenMap m ''.''))"
proof -
  obtain m' where m': "transformFieldName m = Some m'"
    "mset (paths m') = mset (map (apfst (encode_path 0)) (paths m))"
    using transformed_paths(1) [OF assms(1)] by (auto simp: transformFieldName_def)
  have enc: "FieldToColumnEncoder (join ''.'' p) = Some (join ''_'' (encode_path 0 p))" if "(p, v) \<in> set (paths m)" for p v
  proof -
    obtain k q where p: "p = k # q" "k \<in> fst ` set m" using paths_head [OF \<open>(p, v) \<in> set (paths m)\<close>] by blast
    then have "k \<noteq> []" using assms(1) by (metis list.set_map unclashing.simps)
    then show ?thesis using encode_joined [of k q] assms(2) that p(1) by auto
  qed
  have l: "mset (leaves ''_'' m') = mset (map (apfst (join ''_'' \<circ> encode_path 0)) (paths m))"
    using arg_cong [OF m'(2), of "image_mset (apfst (join ''_''))"]
    by (simp add: leaves_def apfst_def map_prod_def multiset.map_comp comp_def case_prod_unfold)
  have flat: "FlattenMap m ''.'' = leaves ''.'' m"
    by (rule FlattenMap_leaves) (metis d distinct_map map_map)
  have names: "map (apfst FieldToColumnEncoder) (leaves ''.'' m) = map (apfst (Some \<circ> join ''_'' \<circ> encode_path 0)) (paths m)"
    using enc by (auto simp: leaves_def apfst_def map_prod_def)
  have "distinct (map fst (leaves ''_'' m'))"
  proof -
    have "mset (map (Some \<circ> fst) (leaves ''_'' m')) = mset (map (FieldToColumnEncoder \<circ> fst) (leaves ''.'' m))"
      using arg_cong [OF l, of "image_mset (Some \<circ> fst)"] arg_cong [OF names, of "\<lambda>xs. mset (map fst xs)"]
      by (simp add: multiset.map_comp comp_def)
    then have "distinct (map (Some \<circ> fst) (leaves ''_'' m'))" using d by (metis mset_eq_imp_distinct_iff)
    then show ?thesis by (metis distinct_map map_map)
  qed
  then have flat': "FlattenMap m' ''_'' = leaves ''_'' m'" by (rule FlattenMap_leaves)
  have "mset (map (apfst Some) (leaves ''_'' m')) = mset (map (apfst FieldToColumnEncoder) (leaves ''.'' m))"
    using arg_cong [OF l, of "image_mset (apfst Some)"] unfolding names
    by (simp add: multiset.map_comp comp_def apfst_def map_prod_def case_prod_unfold)
  moreover have "map_option (map (apsnd Some)) (populateFieldEncodings [m] tbl) =
      Some (map (\<lambda>(f, v). ((tbl, f), FieldToColumnEncoder f)) (leaves ''.'' m))"
  proof -
    let ?fs = "map fst (leaves ''.'' m)"
    let ?e = "\<lambda>f. the (FieldToColumnEncoder f)"
    have "FieldToColumnEncoder f = Some (?e f)" if "f \<in> set ?fs" for f
      using that enc by (auto simp: leaves_def)
    moreover have "distinct ?fs" by (metis d distinct_map map_map)
    ultimately show ?thesis
      using encodings_listed [of ?fs ?e tbl "[]"] flat by (auto simp: populateFieldEncodings_def comp_def case_prod_unfold)
  qed
  ultimately show ?thesis using m'(1) flat flat' by simp
qed


definition nested_document :: json_map where
  "nested_document =
     [(''@timestamp'', JString ''2024''),
      (''User'', JObject [(''First-Name'', JString ''a''), (''geo'', JObject [(''9lat'', JBool True)])]),
      (''7days'', JNull)]"

theorem columns_are_encoded_fields_witness:
  "\<exists>m'. transformFieldName nested_document = Some m' \<and>
    mset (map (apfst Some) (FlattenMap m' ''_'')) =
      mset (map (apfst FieldToColumnEncoder) (FlattenMap nested_document ''.'')) \<and>
    map_option (map (apsnd Some)) (populateFieldEncodings [nested_document] ''t'') =
      Some (map (\<lambda>(f, v). ((''t'', f), FieldToColumnEncoder f)) (FlattenMap nested_document ''.''))"
proof (rule columns_are_encoded_fields)
  show "unclashing 0 nested_document" by code_simp
  show "\<forall>(p, v) \<in> set (paths nested_document). plain_path p" by code_simp
  show "distinct (map (FieldToColumnEncoder \<circ> fst) (leaves ''.'' nested_document))" by code_simp
qed

text \<open>Objects whose names differ by case overwrite each other: the fields of one are lost.\<close>

lemma clashing_objects_are_lost:
  "map_option (\<lambda>m. FlattenMap m ''_'')
     (transformFieldName [(''A'', JObject [(''x'', JNull)]), (''a'', JObject [(''y'', JNull)])])
   = Some [(''a_x'', JNull)]"
  by code_simp

end
