(* ===== verification/Ingest_Rows.thy ===== *)
theory Ingest_Rows
  imports Ingest_Attributes Document_Columns
begin

text \<open>
  What becomes of the fields of a document: the attributes are described by one list of fields,
  promotion takes some of them out and makes columns of them, and the rest goes into the row.
\<close>


section \<open>Flat documents\<close>

definition flat :: "json_map \<Rightarrow> bool" where
  "flat m \<longleftrightarrow> distinct (map fst m) \<and> (\<forall>(k, v) \<in> set m. \<forall>n. v \<noteq> JObject n)"

abbreviation names :: "(string \<times> click_column) list \<Rightarrow> string set" where
  "names cols \<equiv> fst ` set cols"

lemma map_of_names: "map_of cols k = None \<longleftrightarrow> k \<notin> names cols"
  by (simp add: map_of_eq_None_iff)

lemma flat_step:
  "flat ((k, v) # m) \<Longrightarrow>
    (case v of JObject n \<Rightarrow> f n | _ \<Rightarrow> x) = x"
  by (auto simp: flat_def split: json.splits)

lemma difference_flat_into:
  "flat (acc @ m) \<Longrightarrow> foldl (\<lambda>st (name, v).
       do { (mDiff, sm) \<leftarrow> st;
            case map_of cols name of
              None \<Rightarrow> Some (AList.update name v mDiff, sm)
            | Some col \<Rightarrow>
                (case v of
                   JObject n \<Rightarrow>
                     do { (mDiff, n) \<leftarrow> diff_rec [name] (col_Type col) (col_Name col) n mDiff;
                          Some (mDiff, AList.update name (JObject n) sm) }
                 | _ \<Rightarrow> Some (mDiff, sm)) })
     (Some (filter (\<lambda>(k, v). k \<notin> names cols) acc, sm)) m
   = Some (filter (\<lambda>(k, v). k \<notin> names cols) (acc @ m), sm)"
proof (induction m arbitrary: acc)
  case (Cons kv m)
  obtain k v where kv: "kv = (k, v)" by fastforce
  have new: "k \<notin> set (map fst (filter (\<lambda>(k, v). k \<notin> names cols) acc))"
    using Cons.prems kv by (auto simp: flat_def)
  have v: "\<not> (\<exists>n. v = JObject n)" using Cons.prems kv by (auto simp: flat_def)
  show ?case
  proof (cases "map_of cols k")
    case None
    have "k \<notin> names cols" using None map_of_names [of cols k] by blast
    then show ?thesis using Cons.IH [of "acc @ [kv]"] Cons.prems kv new
      by (simp add: update_new None)
  next
    case (Some c)
    then have "k \<in> names cols" by (metis map_of_names option.distinct(1))
    then show ?thesis using Cons.IH [of "acc @ [kv]"] Cons.prems kv Some v
      by (cases v) (simp_all del: diff_rec.simps)
  qed
qed simp

lemma DifferenceMap_flat:
  "flat m \<Longrightarrow> DifferenceMap m cols = Some (filter (\<lambda>(k, v). k \<notin> names cols) m, m)"
  using difference_flat_into [of "[]" m cols m] unfolding DifferenceMap_def by simp

lemma RemoveNonSchemaFields_flat:
  "flat m \<Longrightarrow> RemoveNonSchemaFields m cols = Some (filter (\<lambda>(k, v). k \<in> names cols) m)"
proof (induction m)
  case Nil
  then show ?case by (simp add: RemoveNonSchemaFields_def)
next
  case (Cons kv m)
  obtain k v where kv: "kv = (k, v)" by fastforce
  have v: "\<not> (\<exists>n. v = JObject n)" using Cons.prems kv by (auto simp: flat_def)
  have rest: "RemoveNonSchemaFields m cols = Some (filter (\<lambda>(k, v). k \<in> names cols) m)"
    using Cons by (simp add: flat_def)
  show ?case
  proof (cases "map_of cols k")
    case None
    then show ?thesis using rest kv map_of_names [of cols k] by (auto simp: RemoveNonSchemaFields_def)
  next
    case (Some c)
    then have "k \<in> names cols" by (metis map_of_names option.distinct(1))
    then show ?thesis using rest kv Some v by (cases v) (auto simp: RemoveNonSchemaFields_def)
  qed
qed

section \<open>Attributes\<close>

text \<open>The three arrays describe fields: name, text of the value and type.\<close>

definition attr_array :: "string \<Rightarrow> attrs_map \<Rightarrow> json list" where
  "attr_array name m = (case map_of m name of Some vs \<Rightarrow> vs | None \<Rightarrow> [])"

lemma attr_array_append: "attr_array n (append_attr n' v m) = attr_array n m @ (if n = n' then [v] else [])"
  by (simp add: attr_array_def append_attr_def update_conv)

lemma attribute_names [simp]:
  "DeprecatedAttributesKeyColumn \<noteq> DeprecatedAttributesValueColumn" "DeprecatedAttributesValueColumn \<noteq> DeprecatedAttributesKeyColumn"
  "DeprecatedAttributesKeyColumn \<noteq> DeprecatedAttributesValueType" "DeprecatedAttributesValueType \<noteq> DeprecatedAttributesKeyColumn"
  "DeprecatedAttributesValueType \<noteq> DeprecatedAttributesValueColumn" "DeprecatedAttributesValueColumn \<noteq> DeprecatedAttributesValueType"
  by (simp_all add: DeprecatedAttributesKeyColumn_def DeprecatedAttributesValueColumn_def DeprecatedAttributesValueType_def)

definition describes :: "attrs_map \<Rightarrow> (string \<times> json \<times> string) list \<Rightarrow> bool" where
  "describes m xs \<longleftrightarrow>
     attr_array DeprecatedAttributesKeyColumn m = map (\<lambda>(k, v, t). JString k) xs \<and>
     attr_array DeprecatedAttributesValueColumn m = map (\<lambda>(k, v, t). v) xs \<and>
     attr_array DeprecatedAttributesValueType m = map (\<lambda>(k, v, t). JString t) xs"

lemma describes_append:
  "describes m xs \<Longrightarrow> describes
     (append_attr DeprecatedAttributesValueType (JString t)
       (append_attr DeprecatedAttributesValueColumn v
         (append_attr DeprecatedAttributesKeyColumn (JString k) m))) (xs @ [(k, v, t)])"
  by (simp add: describes_def attr_array_append)

lemma describes_arrays:
  assumes "describes m xs"
  shows "getAttributesByArrayName DeprecatedAttributesKeyColumn m = map fst xs"
    "getAttributesByArrayName DeprecatedAttributesValueColumn m = map (Stringify \<circ> fst \<circ> snd) xs"
    "getAttributesByArrayName DeprecatedAttributesValueType m = map (snd \<circ> snd) xs"
proof -
  have a: "getAttributesByArrayName n m = map Stringify (attr_array n m)" for n
    by (simp add: getAttributesByArrayName_def attr_array_def split: option.splits)
  show "getAttributesByArrayName DeprecatedAttributesKeyColumn m = map fst xs"
    "getAttributesByArrayName DeprecatedAttributesValueColumn m = map (Stringify \<circ> fst \<circ> snd) xs"
    "getAttributesByArrayName DeprecatedAttributesValueType m = map (snd \<circ> snd) xs"
    using assms by (simp_all add: a describes_def Stringify_def case_prod_unfold)
qed

definition described :: "json_map \<Rightarrow> string \<Rightarrow> string \<times> json \<times> string" where
  "described m k = (case map_of m k of
     Some v \<Rightarrow> (k, JString (print_json v), inferred_type v k) | None \<Rightarrow> (k, JNull, []))"

lemma string_attribute:
  "KeysArrayName NewDefaultStringAttribute = DeprecatedAttributesKeyColumn"
  "ValuesArrayName NewDefaultStringAttribute = DeprecatedAttributesValueColumn"
  "TypesArrayName NewDefaultStringAttribute = DeprecatedAttributesValueType"
  "CanConvert (attribute_Type NewDefaultStringAttribute) v = Some True"
  by (simp_all add: NewDefaultStringAttribute_def default_attribute_def DeprecatedAttributesKeyColumn_def
      DeprecatedAttributesValueColumn_def DeprecatedAttributesValueType_def CanConvert_def NewBaseType_def)

lemma attrs_of_keys_described:
  assumes "Attributes config = [NewDefaultStringAttribute]"
  shows "set ks \<subseteq> set (map fst m) \<Longrightarrow> describes r xs \<Longrightarrow>
    \<exists>r'. attrs_of_keys config m ks r = Some (Inr r') \<and> describes r' (xs @ map (described m) ks)"
proof (induction ks arbitrary: r xs)
  case (Cons k ks)
  then obtain v where v: "map_of m k = Some v" by (force simp: map_of_eq_None_iff dest: not_None_eq [THEN iffD1])
  have "describes (add_attribute NewDefaultStringAttribute k v r) (xs @ [described m k])"
    using describes_append [OF Cons.prems(2)] v by (simp add: add_attribute_def string_attribute described_def)
  then show ?case using Cons.IH [of "add_attribute NewDefaultStringAttribute k v r"] Cons.prems(1) v assms
    by (fastforce simp: string_attribute)
qed simp

lemma BuildAttrsMap_described:
  assumes "Attributes config = [NewDefaultStringAttribute]"
  shows "\<exists>r. BuildAttrsMap m config = Some (Inr r) \<and> describes r (map (described m) (sortedKeys m))"
  using attrs_of_keys_described [OF assms, of "sortedKeys m" m "[]" "[]"]
  by (simp add: BuildAttrsMap_def sortedKeys_def describes_def attr_array_def)


section \<open>Promotion\<close>

text \<open>The fields at the first \<open>n\<close> positions become columns unless their type is unknown.\<close>

definition promoted :: "nat \<Rightarrow> (string \<times> json \<times> string) list \<Rightarrow> nat \<Rightarrow> bool" where
  "promoted n xs i \<longleftrightarrow> i < n \<and> snd (snd (xs ! i)) \<noteq> UndefinedType"

definition kept_items :: "(nat \<Rightarrow> bool) \<Rightarrow> nat \<Rightarrow> 'a list \<Rightarrow> 'a list" where
  "kept_items P n xs = map ((!) xs) (filter (\<lambda>i. \<not> P i) [0..<n]) @ drop n xs"

lemma kept_items_delete:
  "n < length xs \<Longrightarrow> P n \<Longrightarrow> kept_items P n (take n xs @ drop (n + 1) xs) = kept_items P (Suc n) xs"
  by (auto simp: kept_items_def nth_append)

lemma kept_items_keep: "n < length xs \<Longrightarrow> \<not> P n \<Longrightarrow> kept_items P n xs = kept_items P (Suc n) xs"
  by (simp add: kept_items_def Cons_nth_drop_Suc)

lemma kept_items_map: "n \<le> length xs \<Longrightarrow> kept_items P n (map f xs) = map f (kept_items P n xs)"
  by (simp add: kept_items_def drop_map)

lemma attr_array_update: "attr_array n (AList.update n' vs m) = (if n = n' then vs else attr_array n m)"
  by (simp add: attr_array_def update_conv)

lemma delete_attribute_described:
  assumes "describes m xs" "i < length xs"
  shows "\<exists>m'. delete_attribute i m = Some m' \<and> describes m' (take i xs @ drop (i + 1) xs)"
proof -
  have d: "delete_attr n i r = Some (AList.update n (take i (attr_array n r) @ drop (i + 1) (attr_array n r)) r)"
    if "i < length (attr_array n r)" for n r
    using that by (simp add: delete_attr_def delete_at_def attr_array_def)
  show ?thesis using assms
    by (simp add: describes_def delete_attribute_def d attr_array_update take_map drop_map)
qed

lemma delete_promoted:
  "describes m xs \<Longrightarrow> n \<le> length xs \<Longrightarrow>
    \<exists>m'. foldl (\<lambda>m i. do { m \<leftarrow> m; delete_attribute i m }) (Some m) (rev (filter P [0..<n])) = Some m' \<and>
      describes m' (kept_items P n xs)"
proof (induction n arbitrary: m xs)
  case 0
  then show ?case by (simp add: kept_items_def)
next
  case (Suc n)
  show ?case
  proof (cases "P n")
    case True
    obtain r where r: "delete_attribute n m = Some r" "describes r (take n xs @ drop (n + 1) xs)"
      using delete_attribute_described [of m xs n] Suc.prems by auto
    then show ?thesis using Suc.IH [of r "take n xs @ drop (n + 1) xs"] Suc.prems True kept_items_delete [of n xs P]
      by auto
  next
    case False
    then show ?thesis using Suc.IH [of m xs] Suc.prems kept_items_keep [of n xs P] by auto
  qed
qed

lemma new_column_promoted:
  assumes "i < length xs"
  shows "\<exists>st'. new_column t reverseMap (map fst xs) (map (snd \<circ> snd) xs) st i = Some st' \<and>
    deleteIndexes st' = deleteIndexes st @ filter (promoted (Suc i) xs) [i] \<and>
    names (newColumns st') = names (newColumns st) \<union> {fst (xs ! j) |j. j = i \<and> promoted (Suc i) xs j}"
proof -
  have "item (map fst xs) i = Some (fst (xs ! i))" "item (map (snd \<circ> snd) xs) i = Some (snd (snd (xs ! i)))"
    using assms by (simp_all add: item_def)
  moreover have "names (AList.update k c cols) = insert k (names cols)" for k c and cols :: "(string \<times> click_column) list"
    using dom_update [of k c cols] by (simp add: dom_map_of_conv_image_fst)
  ultimately show ?thesis
    by (cases "snd (snd (xs ! i)) = UndefinedType") (simp_all add: new_column_def promoted_def Let_def split: prod.splits)
qed

lemma promoted_Suc: "promoted (Suc n) xs i \<longleftrightarrow> promoted n xs i \<or> i = n \<and> promoted (Suc n) xs i"
  by (auto simp: promoted_def less_Suc_eq)

lemma new_columns_loop:
  "n \<le> length xs \<Longrightarrow> \<exists>st.
    foldl (\<lambda>st i. do { st \<leftarrow> st; new_column t reverseMap (map fst xs) (map (snd \<circ> snd) xs) st i })
      (Some \<lparr>newColumns = cols, alterCmd = [], deleteIndexes = []\<rparr>) [0..<n] = Some st \<and>
    deleteIndexes st = filter (promoted n xs) [0..<n] \<and>
    names (newColumns st) = names cols \<union> {fst (xs ! i) |i. promoted n xs i}"
proof (induction n)
  case 0
  then show ?case by (simp add: promoted_def)
next
  case (Suc n)
  define L where "L n = foldl (\<lambda>st i. do { st \<leftarrow> st; new_column t reverseMap (map fst xs) (map (snd \<circ> snd) xs) st i })
      (Some \<lparr>newColumns = cols, alterCmd = [], deleteIndexes = []\<rparr>) [0..<n]" for n
  have step: "L (Suc n) = do { st \<leftarrow> L n; new_column t reverseMap (map fst xs) (map (snd \<circ> snd) xs) st n }"
    by (simp add: L_def)
  obtain st where st: "L n = Some st" "deleteIndexes st = filter (promoted n xs) [0..<n]"
    "names (newColumns st) = names cols \<union> {fst (xs ! i) |i. promoted n xs i}"
    using Suc.IH [OF Suc_leD [OF Suc.prems]] unfolding L_def [symmetric] by blast
  obtain st' where st': "new_column t reverseMap (map fst xs) (map (snd \<circ> snd) xs) st n = Some st'"
    "deleteIndexes st' = deleteIndexes st @ filter (promoted (Suc n) xs) [n]"
    "names (newColumns st') = names (newColumns st) \<union> {fst (xs ! j) |j. j = n \<and> promoted (Suc n) xs j}"
    using new_column_promoted [of n xs t reverseMap st] Suc.prems by auto
  have "filter (promoted n xs) [0..<n] = filter (promoted (Suc n) xs) [0..<n]"
    by (intro filter_cong) (auto simp: promoted_def)
  then have "deleteIndexes st' = filter (promoted (Suc n) xs) [0..<Suc n]" by (simp add: st' st)
  moreover have "names (newColumns st') = names cols \<union> {fst (xs ! i) |i. promoted (Suc n) xs i}"
    unfolding st'(3) st(3) using promoted_Suc [of n xs] by blast
  ultimately show ?case using step st(1) st'(1) unfolding L_def [symmetric] by simp
qed

lemma generateNewColumns_described:
  assumes "describes m xs" "length indexes \<le> length xs"
  shows "\<exists>alter m' t' ip'. generateNewColumns now m t indexes es ip = Some (alter, m', t', ip') \<and>
    describes m' (kept_items (promoted (length indexes) xs) (length indexes) xs) \<and>
    names (Cols t') = names (Cols t) \<union> {fst (xs ! i) |i. promoted (length indexes) xs i}"
proof -
  obtain st where st: "foldl (\<lambda>st i. do { st \<leftarrow> st; new_column t (reverseFieldEncoding es (click_Name t)) (map fst xs) (map (snd \<circ> snd) xs) st i })
      (Some \<lparr>newColumns = Cols t, alterCmd = [], deleteIndexes = []\<rparr>) [0..<length indexes] = Some st"
    "deleteIndexes st = filter (promoted (length indexes) xs) [0..<length indexes]"
    "names (newColumns st) = names (Cols t) \<union> {fst (xs ! i) |i. promoted (length indexes) xs i}"
    using new_columns_loop [OF assms(2)] by blast
  obtain m' where m': "foldl (\<lambda>m i. do { m \<leftarrow> m; delete_attribute i m }) (Some m)
      (rev (filter (promoted (length indexes) xs) [0..<length indexes])) = Some m'"
    "describes m' (kept_items (promoted (length indexes) xs) (length indexes) xs)"
    using delete_promoted [OF assms] by blast
  show ?thesis
    unfolding generateNewColumns_def describes_arrays [OF assms(1)] Let_def st(1) bind.bind_lunit st(2) m'(1)
    using m'(2) st(3) by (simp add: storeVirtualTable_def)
qed


lemma kept_items_filter:
  assumes "distinct (map fst xs)" "n \<le> length xs" "\<And>i. P i \<Longrightarrow> i < n"
  shows "kept_items P n xs = filter (\<lambda>x. fst x \<notin> {fst (xs ! i) |i. P i}) xs"
proof -
  have split: "[0..<length xs] = [0..<n] @ [n..<length xs]" using assms(2) by (metis le_add_diff_inverse upt_add_eq_append zero_le)
  have "drop n xs = map ((!) xs) [n..<length xs]"
    by (rule nth_equalityI) simp_all
  moreover have "filter (\<lambda>i. \<not> P i) [n..<length xs] = [n..<length xs]"
    using assms(3) by (auto simp: filter_id_conv) (meson leD)
  ultimately have "kept_items P n xs = map ((!) xs) (filter (\<lambda>i. \<not> P i) [0..<length xs])"
    by (simp add: kept_items_def split)
  also have "filter (\<lambda>i. \<not> P i) [0..<length xs] = filter (\<lambda>i. fst (xs ! i) \<notin> {fst (xs ! i) |i. P i}) [0..<length xs]"
  proof (intro filter_cong refl)
    fix i
    assume "i \<in> set [0..<length xs]"
    moreover have "i = j" if "fst (xs ! i) = fst (xs ! j)" "P j" "i < length xs" for j
      using nth_eq_iff_index_eq [OF assms(1), of i j] that assms(2) assms(3) [OF that(2)] by simp
    ultimately show "(\<not> P i) = (fst (xs ! i) \<notin> {fst (xs ! i) |i. P i})" by auto
  qed
  also have "map ((!) xs) \<dots> = filter (\<lambda>x. fst x \<notin> {fst (xs ! i) |i. P i}) (map ((!) xs) [0..<length xs])"
    by (simp add: filter_map comp_def)
  finally show ?thesis by (simp add: map_nth)
qed

section \<open>The row\<close>

definition row_attribute :: "string \<times> json \<times> string \<Rightarrow> non_schema_field" where
  "row_attribute x = (case x of (k, v, t) \<Rightarrow> \<lparr>field_Key = k, field_Value = Stringify v, field_Type = ''v1;'' @ t\<rparr>)"

lemma generateNonSchemaFields_described:
  assumes "describes m xs"
  shows "generateNonSchemaFields m = Some (map row_attribute xs)"
proof (cases "m = []")
  case True
  then have "xs = []" using assms by (simp add: describes_def attr_array_def)
  then show ?thesis using True by (simp add: generateNonSchemaFields_def)
next
  case False
  have "opt_mapM (\<lambda>(i, key). do { v \<leftarrow> item (map (Stringify \<circ> fst \<circ> snd) xs) i; t \<leftarrow> item (map (snd \<circ> snd) xs) i;
          Some \<lparr>field_Key = key, field_Value = v, field_Type = ''v1;'' @ t\<rparr> }) (enumerate 0 (map fst xs))
      = Some (map (\<lambda>(i, key). row_attribute (xs ! i)) (enumerate 0 (map fst xs)))"
    by (rule opt_mapM_map) (auto simp: in_set_enumerate_eq item_def row_attribute_def case_prod_unfold)
  moreover have "map (\<lambda>(i, key). row_attribute (xs ! i)) (enumerate 0 (map fst xs)) = map row_attribute xs"
    by (rule nth_equalityI) (simp_all add: nth_enumerate_eq)
  ultimately show ?thesis using False
    by (simp add: generateNonSchemaFields_def describes_arrays [OF assms])
qed

lemma addInvalid_described:
  "describes m xs \<Longrightarrow> describes (addInvalidJsonFieldsToAttributes m invalid) (xs @ map (\<lambda>(k, v). (k, v, inferred_type v k)) invalid)"
proof (induction invalid arbitrary: m xs)
  case (Cons kv invalid)
  obtain k v where kv: "kv = (k, v)" by fastforce
  show ?case using Cons.IH [OF describes_append [OF Cons.prems, of "inferred_type v k" v k]] kv
    by (simp add: addInvalidJsonFieldsToAttributes_def)
qed (simp add: addInvalidJsonFieldsToAttributes_def)

lemma shouldAlterColumns_indexes:
  assumes "describes m xs" "shouldAlterColumns t m ip = ((ok, indexes), ip')"
  shows "length indexes \<le> length xs"
proof -
  have "length (snd (foldl (count_field n) (ip, ks) es)) \<le> length ks + length es" for n ip ks and es :: "(nat \<times> string) list"
  proof (induction es arbitrary: ip ks)
    case (Cons e es)
    obtain ip1 ks1 where c: "count_field n (ip, ks) e = (ip1, ks1)" by fastforce
    then have "length ks1 \<le> length ks + 1"
      by (auto simp: count_field_def Let_def split: prod.splits if_splits)
    then show ?case using Cons.IH [of ip1 ks1] c by simp
  qed simp
  from this [of "click_Name t" ip "[]" "enumerate 0 (map fst xs)"] show ?thesis using assms(2)
    by (auto simp: shouldAlterColumns_def describes_arrays [OF assms(1)] Let_def split: if_splits prod.splits)
qed

lemma fst_described [simp]: "fst (described m k) = k"
  by (simp add: described_def split: option.splits)

lemma row_of_described:
  "map_of m k = Some v \<Longrightarrow> (field_Key (row_attribute (described m k)), field_Value (row_attribute (described m k))) = (k, print_json v)"
  by (simp add: described_def row_attribute_def Stringify_def)

text \<open>The fields without a column are described in the order of their names; new columns take some out.\<close>

lemma attributes_left:
  fixes N :: "string set"
  assumes "distinct (map fst data)" "names cols \<subseteq> N"
  defines "diff \<equiv> filter (\<lambda>(k, v). k \<notin> names cols) data"
  shows "map (\<lambda>f. (field_Key f, field_Value f))
      (map row_attribute (filter (\<lambda>x. fst x \<notin> N - names cols) (map (described diff) (sortedKeys diff)))) =
    map (\<lambda>k. (k, print_json (the (map_of data k)))) (sort (filter (\<lambda>k. k \<notin> N) (map fst data)))"
proof -
  have keys: "sortedKeys diff = sort (filter (\<lambda>k. k \<notin> names cols) (map fst data))"
    by (simp add: sortedKeys_def diff_def filter_map comp_def case_prod_unfold)
  have "filter (\<lambda>x. fst x \<notin> N - names cols) (map (described diff) (sortedKeys diff))
      = map (described diff) (filter (\<lambda>k. k \<notin> N - names cols) (sortedKeys diff))"
    by (simp add: filter_map comp_def)
  also have "filter (\<lambda>k. k \<notin> N - names cols) (sortedKeys diff) = filter (\<lambda>k. k \<notin> N) (sortedKeys diff)"
    by (rule filter_cong) (auto simp: keys)
  also have "\<dots> = sort (filter (\<lambda>k. k \<notin> N) (filter (\<lambda>k. k \<notin> names cols) (map fst data)))"
    unfolding keys by (simp only: filter_sort)
  also have "filter (\<lambda>k. k \<notin> N) (filter (\<lambda>k. k \<notin> names cols) (map fst data)) = filter (\<lambda>k. k \<notin> N) (map fst data)"
    using assms(2) unfolding filter_filter by (intro filter_cong) auto
  finally have left: "filter (\<lambda>x. fst x \<notin> N - names cols) (map (described diff) (sortedKeys diff))
      = map (described diff) (sort (filter (\<lambda>k. k \<notin> N) (map fst data)))" .
  show ?thesis
    unfolding left map_map
  proof (rule map_cong [OF refl])
    fix k
    assume "k \<in> set (sort (filter (\<lambda>k. k \<notin> N) (map fst data)))"
    then obtain v where v: "(k, v) \<in> set data" "k \<notin> N" by auto
    then have "k \<notin> names cols" using assms(2) by blast
    then have "map_of data k = Some v" "map_of diff k = Some v"
      using assms(1) v(1) by (auto simp: diff_def distinct_map_filter intro!: map_of_is_SomeI)
    then show "((\<lambda>f. (field_Key f, field_Value f)) \<circ> (row_attribute \<circ> described diff)) k = (k, print_json (the (map_of data k)))"
      using row_of_described [of diff k v] by simp
  qed
qed

text \<open>What altering the table leaves of the fields described by \<open>xs\<close>.\<close>

lemma altered:
  assumes d: "describes m xs" "distinct (map fst xs)" and s: "shouldAlterColumns t m ip = ((ok, indexes), ip')"
    and new: "set (map fst xs) \<inter> names (Cols t) = {}"
  obtains alter m' t' ip'' where
    "(if ok then generateNewColumns now m t indexes es ip' else Some ([], m, t, ip')) = Some (alter, m', t', ip'')"
    "describes m' (filter (\<lambda>x. fst x \<notin> names (Cols t') - names (Cols t)) xs)"
    "names (Cols t) \<subseteq> names (Cols t')" "names (Cols t') \<subseteq> names (Cols t) \<union> set (map fst xs)"
proof (cases ok)
  case False
  show ?thesis by (rule that [of "[]" m t ip']) (use False d in simp_all)
next
  case True
  let ?S = "{fst (xs ! i) |i. promoted (length indexes) xs i}"
  have l: "length indexes \<le> length xs" using shouldAlterColumns_indexes [OF d(1) s] .
  then have S: "?S \<subseteq> set (map fst xs)" by (auto simp: promoted_def)
  obtain alter m' t' ip'' where g: "generateNewColumns now m t indexes es ip' = Some (alter, m', t', ip'')"
    "describes m' (kept_items (promoted (length indexes) xs) (length indexes) xs)" "names (Cols t') = names (Cols t) \<union> ?S"
    using generateNewColumns_described [OF d(1) l] by blast
  have "names (Cols t') - names (Cols t) = ?S" unfolding g(3) using S new by blast
  moreover have "kept_items (promoted (length indexes) xs) (length indexes) xs = filter (\<lambda>x. fst x \<notin> ?S) xs"
    by (rule kept_items_filter [OF d(2) l]) (simp add: promoted_def)
  ultimately have "describes m' (filter (\<lambda>x. fst x \<notin> names (Cols t') - names (Cols t)) xs)"
    using g(2) by (simp only:)
  then show ?thesis
  proof (rule that [rotated])
    show "(if ok then generateNewColumns now m t indexes es ip' else Some ([], m, t, ip')) = Some (alter, m', t', ip'')"
      using g(1) True by simp
    show "names (Cols t) \<subseteq> names (Cols t')" "names (Cols t') \<subseteq> names (Cols t) \<union> set (map fst xs)"
      unfolding g(3) using S by blast+
  qed
qed

lemma content_of_flat:
  assumes "flat data" "Attributes config = [NewDefaultStringAttribute]"
  shows "\<exists>c t' ip'. GenerateIngestContent now t data invalid config es ip = Some (c, t', ip') \<and>
    content_fields c = filter (\<lambda>(k, v). k \<in> fst ` set (Cols t')) data \<and>
    map (\<lambda>f. (field_Key f, field_Value f)) (content_attributes c) =
      map (\<lambda>k. (k, print_json (the (map_of data k)))) (sort (filter (\<lambda>k. k \<notin> fst ` set (Cols t')) (map fst data)))
      @ map (\<lambda>(k, v). (k, Stringify v)) invalid \<and>
    fst ` set (Cols t) \<subseteq> fst ` set (Cols t')"
proof -
  define diff where "diff = filter (\<lambda>(k, v). k \<notin> names (Cols t)) data"
  define xs where "xs = map (described diff) (sortedKeys diff)"
  note D = DifferenceMap_flat [OF assms(1), of "Cols t", folded diff_def]
  have dist: "distinct (map fst data)" using assms(1) by (simp add: flat_def)
  show ?thesis
  proof (cases "diff = [] \<and> invalid = []")
    case True
    then have all: "\<forall>(k, v) \<in> set data. k \<in> names (Cols t)" by (auto simp: diff_def filter_empty_conv)
    then have "filter (\<lambda>(k, v). k \<in> names (Cols t)) data = data" by (simp add: filter_id_conv)
    moreover have "filter (\<lambda>k. k \<notin> names (Cols t)) (map fst data) = []" using all by (auto simp: filter_empty_conv)
    ultimately show ?thesis using True D assms(2) by (simp add: GenerateIngestContent_def)
  next
    case False
    obtain m where m: "BuildAttrsMap diff config = Some (Inr m)" "describes m xs"
      using BuildAttrsMap_described [OF assms(2), of diff] unfolding xs_def by blast
    have xs: "map fst xs = sortedKeys diff" by (simp add: xs_def comp_def)
    have keys: "sortedKeys diff = sort (filter (\<lambda>k. k \<notin> names (Cols t)) (map fst data))"
      by (simp add: sortedKeys_def diff_def filter_map comp_def case_prod_unfold)
    obtain ok indexes ip1 where s: "shouldAlterColumns t m (ip\<lparr>ingestCounter := ingestCounter ip + 1\<rparr>) = ((ok, indexes), ip1)"
      by (metis prod.collapse)
    have "distinct (map fst xs)" "set (map fst xs) \<inter> names (Cols t) = {}" unfolding xs keys using dist by auto
    then obtain alter m' t' ip' where a:
      "(if ok then generateNewColumns now m t indexes es ip1 else Some ([], m, t, ip1)) = Some (alter, m', t', ip')"
      "describes m' (filter (\<lambda>x. fst x \<notin> names (Cols t') - names (Cols t)) xs)"
      "names (Cols t) \<subseteq> names (Cols t')" "names (Cols t') \<subseteq> names (Cols t) \<union> set (map fst xs)"
      by (rule altered [OF m(2) _ s])
    let ?left = "filter (\<lambda>x. fst x \<notin> names (Cols t') - names (Cols t)) xs"
    note vals = attributes_left [OF dist a(3), folded diff_def xs_def]
    note nsf = generateNonSchemaFields_described [OF addInvalid_described [OF a(2), of invalid]]
    define c where "c = \<lparr>content_alter = alter, content_fields = filter (\<lambda>(k, v). k \<in> names (Cols t')) data,
        content_attributes = map row_attribute (?left @ map (\<lambda>(k, v). (k, v, inferred_type v k)) invalid)\<rparr>"
    have "GenerateIngestContent now t data invalid config es ip = Some (c, t', ip')"
      using False assms(2)
      by (simp only: GenerateIngestContent_def D m(1) s a(1) nsf RemoveNonSchemaFields_flat [OF assms(1)]
          attributes_or_nil_def sum.case bind.bind_lunit prod.case Let_def list.size if_False) (simp add: c_def)
    moreover have "map (\<lambda>f. (field_Key f, field_Value f)) (map row_attribute (map (\<lambda>(k, v). (k, v, inferred_type v k)) invalid))
        = map (\<lambda>(k, v). (k, Stringify v)) invalid"
      by (auto simp: row_attribute_def)
    then have "map (\<lambda>f. (field_Key f, field_Value f)) (content_attributes c) =
      map (\<lambda>k. (k, print_json (the (map_of data k)))) (sort (filter (\<lambda>k. k \<notin> fst ` set (Cols t')) (map fst data)))
      @ map (\<lambda>(k, v). (k, Stringify v)) invalid"
      unfolding c_def using vals by (simp only: map_append ingest_content.simps)
    moreover have "content_fields c = filter (\<lambda>(k, v). k \<in> fst ` set (Cols t')) data" by (simp add: c_def)
    ultimately show ?thesis using a(3) by (intro exI conjI)
  qed
qed


text \<open>
  C5: No field of a document is lost.  For a table with attributes and a flat document, the content
  generated for its row has the fields whose name is a column of the table afterwards, with their
  values, and the attributes of the row are the other fields in the order of their names, with
  their values printed, followed by the invalid fields.  No column disappears, and nothing panics.
\<close>

theorem no_field_is_lost:
  assumes "flat data" "Attributes config = [NewDefaultStringAttribute]"
  shows "\<exists>c t' ip'. GenerateIngestContent now t data invalid config es ip = Some (c, t', ip') \<and>
    content_fields c = filter (\<lambda>(k, v). k \<in> fst ` set (Cols t')) data \<and>
    map (\<lambda>f. (field_Key f, field_Value f)) (content_attributes c) =
      map (\<lambda>k. (k, print_json (the (map_of data k)))) (sort (filter (\<lambda>k. k \<notin> fst ` set (Cols t')) (map fst data)))
      @ map (\<lambda>(k, v). (k, Stringify v)) invalid \<and>
    fst ` set (Cols t) \<subseteq> fst ` set (Cols t')"
  by (rule content_of_flat [OF assms])

section \<open>Examples\<close>

definition small_table :: click_table where
  "small_table =
     \<lparr>click_Name = ''logs'', click_Database = [], click_Cluster = [],
      Cols = [(''message'', Column ''message'' (NewBaseType ''String'') [] [] [])],
      click_Config = NewOnlySchemaFieldsCHConfig [], click_Created = True, click_Indexes = [],
      click_aliases = [], click_Comment = [], CreateTableQuery = [], DiscoveredTimestampFieldName = None, VirtualTable = False\<rparr>"

definition no_counters :: ingest_counters where
  "no_counters = \<lparr>ingestCounter = 0, ingestFieldStatistics = Map.empty, stored_tables = []\<rparr>"

definition flat_document :: json_map where
  "flat_document = [(''user'', JString ''ann''), (''message'', JString ''hi''), (''tags'', JArray [])]"

theorem no_field_is_lost_witness:
  "\<exists>c t' ip'. GenerateIngestContent ''now'' small_table flat_document [(''code'', JBool True)] (NewOnlySchemaFieldsCHConfig []) [] no_counters = Some (c, t', ip') \<and>
    content_fields c = filter (\<lambda>(k, v). k \<in> fst ` set (Cols t')) flat_document \<and>
    map (\<lambda>f. (field_Key f, field_Value f)) (content_attributes c) =
      map (\<lambda>k. (k, print_json (the (map_of flat_document k)))) (sort (filter (\<lambda>k. k \<notin> fst ` set (Cols t')) (map fst flat_document)))
      @ map (\<lambda>(k, v). (k, Stringify v)) [(''code'', JBool True)] \<and>
    fst ` set (Cols small_table) \<subseteq> fst ` set (Cols t')"
proof (rule no_field_is_lost)
  show "flat flat_document" by (simp add: flat_def flat_document_def)
  show "Attributes (NewOnlySchemaFieldsCHConfig []) = [NewDefaultStringAttribute]"
    by (simp add: NewOnlySchemaFieldsCHConfig_def)
qed

text \<open>The field that was seen often is at position 1; the field at position 0 becomes a column.\<close>

definition two_attributes :: attrs_map where
  "two_attributes =
     [(DeprecatedAttributesKeyColumn, [JString ''a'', JString ''b'']),
      (DeprecatedAttributesValueColumn, [JString ''1'', JString ''2'']),
      (DeprecatedAttributesValueType, [JString ''String'', JString ''String''])]"

lemma other_field_is_promoted:
  "map_option (\<lambda>(alter, m, t, ip). (map fst (Cols t), getAttributesByArrayName DeprecatedAttributesKeyColumn m))
     (generateNewColumns ''now'' two_attributes small_table [1] [] no_counters)
   = Some ([''message'', ''a''], [''b''])"
  by code_simp

text \<open>Without attributes in the configuration of the table the invalid fields are dropped.\<close>

lemma invalid_fields_are_dropped:
  "Attributes config = [] \<Longrightarrow>
    GenerateIngestContent now t data invalid config es ip =
      Some (\<lparr>content_alter = [], content_fields = data, content_attributes = []\<rparr>, t, ip)"
  by (simp add: GenerateIngestContent_def)

text \<open>A quote in a value ends the text in the statement.\<close>

lemma attributes_are_not_escaped:
  "convertNonSchemaFieldsToString [\<lparr>field_Key = ''k'', field_Value = [CHR ''a'', CHR 0x22], field_Type = ''v1;String''\<rparr>]
   = [CHR 0x22] @ ''attributes_values'' @ [CHR 0x22] @ '':{'' @ [CHR 0x22] @ ''k'' @ [CHR 0x22] @ '':'' @ [CHR 0x22] @ ''a''
       @ [CHR 0x22, CHR 0x22] @ ''},'' @ [CHR 0x22] @ ''attributes_metadata'' @ [CHR 0x22] @ '':{'' @ [CHR 0x22] @ ''k''
       @ [CHR 0x22] @ '':'' @ [CHR 0x22] @ ''v1;String'' @ [CHR 0x22] @ ''}''"
  by code_simp

end
