(* ===== verification/Discovered_Tables.thy ===== *)
theory Discovered_Tables
  imports Table_Discovery Ingest_Rows
begin

text \<open>
  What discovery finds of what the gateway has written: types of columns are read back from their
  text, virtual tables from the storage; but a nested array hides its table.
\<close>


section \<open>Types are read back\<close>

definition known_types :: "string list" where
  "known_types =
     [''String'', ''LowCardinality(String)'', ''UUID'', ''FixedString'', ''DateTime64'', ''DateTime'', ''Date'',
      ''UInt8'', ''UInt16'', ''UInt32'', ''UInt64'', ''Int8'', ''Int16'', ''Int32'', ''Int64'', ''Float32'', ''Float64'',
      ''Point'', ''Bool'', ''JSON'', ''Map(String, Nullable(String))'', ''Map(String, String)'']"

lemma trim_suffix_append [simp]: "trim_suffix (s @ t) t = s"
  by (simp add: trim_suffix_def has_suffix_def)

lemma trim_prefix_append [simp]: "trim_prefix (t @ s) t = s"
  by (simp add: trim_prefix_def has_prefix_def)

lemma has_affix [simp]: "has_prefix (t @ s) t" "has_suffix (s @ t) t"
  by (simp_all add: has_prefix_def has_suffix_def)


lemma known:
  assumes "b \<in> set known_types"
  shows "ResolveType b \<noteq> None" "\<not> isNullableType b" "\<not> is_array_text b" "\<not> isTupleType b" "\<not> isEnumType b"
    "has_prefix b ''DateTime'' \<Longrightarrow> removePrecision b = b"
proof -
  have "\<forall>b \<in> set known_types. ResolveType b \<noteq> None \<and> \<not> isNullableType b \<and> \<not> is_array_text b \<and> \<not> isTupleType b \<and>
      \<not> isEnumType b \<and> (has_prefix b ''DateTime'' \<longrightarrow> removePrecision b = b)"
    by code_simp
  then show "ResolveType b \<noteq> None" "\<not> isNullableType b" "\<not> is_array_text b" "\<not> isTupleType b" "\<not> isEnumType b"
    "has_prefix b ''DateTime'' \<Longrightarrow> removePrecision b = b"
    using assms by auto
qed

lemma strip_array: "trim_suffix (trim_prefix (''Array('' @ s @ '')'') ''Array('') '')'' = s"
  by (simp only: trim_prefix_append trim_suffix_append)

lemma array_text: "is_array_text (''Array('' @ s @ '')'')"
  using has_affix(1) [of "''Array(''" "s @ '')''"] has_affix(2) [of "''Array('' @ s" "'')''"]
  by (simp only: is_array_text_def append_assoc simp_thms)

lemma array_not_nullable: "\<not> isNullableType (''Array('' @ s)"
  by (simp add: isNullableType_def has_prefix_def)

lemma strip_nullable_text: "strip_nullable (''Nullable('' @ b @ '')'') = (b, True)"
proof -
  have "isNullableType (''Nullable('' @ b @ '')'')" unfolding isNullableType_def by (rule has_affix)
  then show ?thesis unfolding strip_nullable_def by (simp only: trim_prefix_append trim_suffix_append if_True)
qed

lemma strip_known:
  "b \<in> set known_types \<Longrightarrow> strip_nullable (StringWithNullable (BaseType b g nul)) = (b, nul)"
  using strip_nullable_text [of b] known(2) [of b] by (cases nul) (simp_all add: StringWithNullable_def strip_nullable_def)

text \<open>
  The text of a base type the gateway knows, nullable or not, is discovered as that type, alone
  and as the type of the elements of an array.
\<close>

lemma base_types_are_discovered:
  assumes "b \<in> set known_types" "ResolveType b = Some g"
  shows "resolveColumn n (StringWithNullable (BaseType b g nul)) = Some (Some (Column n (BaseType b g nul) [] [] [])) \<and>
    resolveColumn n (''Array('' @ StringWithNullable (BaseType b g nul) @ '')'') =
      Some (Some (Column n (CompoundType ''Array'' (BaseType b g nul)) [] [] []))"
proof
  note k = known [OF assms(1)] and s = strip_known [OF assms(1), of g nul]
  show "resolveColumn n (StringWithNullable (BaseType b g nul)) = Some (Some (Column n (BaseType b g nul) [] [] []))"
    using k assms(2) by (simp add: resolveColumn_def s resolve_base_def Let_def)
  let ?t = "''Array('' @ StringWithNullable (BaseType b g nul) @ '')''"
  have "strip_nullable ?t = (?t, False)"
    unfolding strip_nullable_def using array_not_nullable [of "StringWithNullable (BaseType b g nul) @ '')''"] by (simp only: if_False)
  then have "resolveColumn n ?t = resolve_array n ?t False"
    unfolding resolveColumn_def Let_def by (simp only: prod.case array_text if_True)
  also have "\<dots> = Some (Some (Column n (CompoundType ''Array'' (BaseType b g nul)) [] [] []))"
    unfolding resolve_array_def strip_array s Let_def by (simp add: assms(2))
  finally show "resolveColumn n ?t = Some (Some (Column n (CompoundType ''Array'' (BaseType b g nul)) [] [] []))" .
qed

lemma base_types_are_discovered_example:
  "resolveColumn ''n'' ''Nullable(Int64)'' = Some (Some (Column ''n'' (BaseType ''Int64'' GoInt64 True) [] [] []))"
proof -
  have "''Int64'' \<in> set known_types" "ResolveType ''Int64'' = Some GoInt64" by code_simp+
  from base_types_are_discovered [OF this, of "''n''" True] show ?thesis by (simp add: StringWithNullable_def)
qed

text \<open>Arrays of arrays are not resolved, whatever is in them.\<close>

lemma nested_array_unresolved: "resolveColumn n (''Array('' @ (''Array('' @ s @ '')'') @ '')'') = Some None"
proof -
  let ?i = "''Array('' @ s @ '')''"
  let ?t = "''Array('' @ ?i @ '')''"
  have "strip_nullable ?t = (?t, False)" "strip_nullable ?i = (?i, False)"
    unfolding strip_nullable_def using array_not_nullable [of "s @ '')''"] array_not_nullable [of "?i @ '')''"] by (simp_all only: if_False)
  moreover have "ResolveType ?i = None" by (simp add: ResolveType_def)
  moreover have "\<not> isTupleType ?i" by (simp add: isTupleType_def has_prefix_def)
  ultimately show ?thesis
    unfolding resolveColumn_def Let_def
    by (simp only: prod.case array_text if_True resolve_array_def strip_array Let_def option.case if_False)
qed


definition ignored_column :: "schema_index_configuration \<Rightarrow> string \<Rightarrow> bool" where
  "ignored_column c col =
     (case SchemaOverrides c of None \<Rightarrow> False
      | Some s \<Rightarrow> (case map_of (override_Fields s) col of Some f \<Rightarrow> Ignored f | None \<Rightarrow> False))"

lemma resolved_columns_step:
  "resolved_columns c types = foldl (\<lambda>st (col, meta).
       do { (cols, partiallyResolved) \<leftarrow> st;
            if ignored_column c col then Some (cols, partiallyResolved)
            else do { column \<leftarrow> resolveColumn col (colType meta);
                      Some (case column of
                              Some (Column n t modifiers codec comment) \<Rightarrow>
                                (AList.update col (Column n t modifiers codec (metadata_comment meta)) cols, partiallyResolved)
                            | None \<Rightarrow> (cols, True)) } })
       (Some ([], False)) types"
  by (simp add: resolved_columns_def ignored_column_def)

lemma unresolved_stays:
  assumes "(col, meta) \<in> set types" "\<not> ignored_column c col" "resolveColumn col (colType meta) = Some None"
  shows "resolved_columns c types = Some (cols, p) \<Longrightarrow> p"
  using assms(1)
proof (induction types arbitrary: cols p rule: rev_induct)
  case (snoc ty types)
  obtain col' meta' where ty: "ty = (col', meta')" by fastforce
  obtain cols' p' where b: "resolved_columns c types = Some (cols', p')"
    and r: "(if ignored_column c col' then Some (cols', p')
            else do { column \<leftarrow> resolveColumn col' (colType meta');
                      Some (case column of
                              Some (Column n t modifiers codec comment) \<Rightarrow>
                                (AList.update col' (Column n t modifiers codec (metadata_comment meta')) cols', p')
                            | None \<Rightarrow> (cols', True)) }) = Some (cols, p)"
    using snoc.prems(1) ty by (auto simp: resolved_columns_step bind_eq_Some_conv)
  show ?case
  proof (cases "(col, meta) \<in> set types")
    case True
    then have p' using snoc.IH [OF b] by blast
    then show ?thesis using r
      by (auto simp: bind_eq_Some_conv split: if_splits option.split_asm click_column.split_asm) (metis click_column.exhaust)
  next
    case False
    then have "col' = col" "meta' = meta" using snoc.prems(2) ty by auto
    then show ?thesis using r assms(2, 3) by simp
  qed
qed simp

text \<open>
  C39: When the value of a field is an array of arrays, the column made for it has a type that
  discovery does not resolve, so that after the next reload the whole table is not defined any more.
\<close>

theorem nested_arrays_hide_tables:
  assumes "NewType (JArray (JArray xs # ys)) name = Inr t"
    and "(col, meta) \<in> set (columnTypes d)" "colType meta = nullable_text (type_String t)"
    and "\<not> ignored_column (discovered_config d) col" "table_definition td databaseName (n, d) = Some defined"
  shows "defined = []"
proof -
  obtain u where "t = CompoundType ''Array'' (CompoundType ''Array'' u)"
    using assms(1) by (auto split: sum.splits list.splits)
  then have "colType meta = ''Array('' @ (''Array('' @ type_String u @ '')'') @ '')''"
    using assms(3) by (simp add: nullable_text_def has_prefix_def)
  then have "resolveColumn col (colType meta) = Some None" by (simp only: nested_array_unresolved)
  then show ?thesis using assms(5) unresolved_stays [OF assms(2, 4)]
    by (auto simp: table_definition_def bind_eq_Some_conv)
qed

definition nested_array_table :: discovered_table where
  "nested_array_table =
     \<lparr>discovered_name = ''logs'', discovered_database = ''default'',
      columnTypes = [(''m'', \<lparr>colType = ''Array(Array(Int64))'', metadata_comment = []\<rparr>)],
      discovered_config = no_index_configuration, discovered_comment = [], discovered_ddl = [],
      discovered_timestamp = [], discovered_virtual = False\<rparr>"

definition quiet_discovery :: discovery where
  "quiet_discovery =
     \<lparr>ask_comment = \<lambda>t. [], ask_ddl = \<lambda>t. [], ask_timestamp = \<lambda>t. [], indexes_of_config = [],
      cluster_of_config = [], database_of_config = [], autodiscovery = True\<rparr>"

theorem nested_arrays_hide_tables_witness:
  "NewType (JArray [JArray [JNumber (Finite False 1 0)]]) ''m'' = Inr (CompoundType ''Array'' (CompoundType ''Array'' (BaseType ''Int64'' GoInt64 False))) \<and>
   table_definition quiet_discovery ''default'' (''logs'', nested_array_table) = Some []"
proof -
  let ?t = "CompoundType ''Array'' (CompoundType ''Array'' (BaseType ''Int64'' GoInt64 False))"
  have t: "NewType (JArray [JArray [JNumber (Finite False 1 0)]]) ''m'' = Inr ?t" by (simp add: is_integral_def)
  have "\<not> Option.is_none (table_definition quiet_discovery ''default'' (''logs'', nested_array_table))" by code_simp
  then obtain defined where d: "table_definition quiet_discovery ''default'' (''logs'', nested_array_table) = Some defined"
    by (auto simp: Option.is_none_def)
  have "defined = []"
  proof (rule nested_arrays_hide_tables [OF t _ _ _ d])
    show "(''m'', \<lparr>colType = ''Array(Array(Int64))'', metadata_comment = []\<rparr>) \<in> set (columnTypes nested_array_table)"
      by (simp add: nested_array_table_def)
    show "colType \<lparr>colType = ''Array(Array(Int64))'', metadata_comment = []\<rparr> = nullable_text (type_String ?t)" by code_simp
    show "\<not> ignored_column (discovered_config nested_array_table) ''m''" by code_simp
  qed
  then show ?thesis using t d by simp
qed


section \<open>Virtual tables are read back\<close>

lemma virtual_columns_lookup:
  "map_of (foldl (\<lambda>m n. case map_of common n of Some c \<Rightarrow> AList.update n c m | None \<Rightarrow> m) acc cols) x
   = (if x \<in> set cols \<and> map_of common x \<noteq> None then map_of common x else map_of acc x)"
proof (induction cols arbitrary: acc)
  case (Cons n cols)
  show ?case
  proof (cases "map_of common n")
    case None
    then show ?thesis using Cons by auto
  next
    case (Some c)
    then show ?thesis using Cons [of "AList.update n c acc"] by (auto simp: update_conv)
  qed
qed simp

lemma read_virtual_table_other:
  "n \<notin> set (map fst vts) \<Longrightarrow> map_of (foldl (read_virtual_table common) tables vts) n = map_of tables n"
proof (induction vts arbitrary: tables)
  case (Cons vt vts)
  then show ?case by (cases vt) (auto simp: read_virtual_table_def update_conv split: option.splits)
qed simp

text \<open>
  C16: A virtual table that ingest has stored is discovered again at the next reload: marked as
  virtual, with the comment it was given, and with exactly those of its columns, the timestamp
  included, that the common table has, with the types and comments they have there.
\<close>

theorem virtual_tables_are_read_back:
  assumes "storeVirtualTable now t ip = (t', ip')" "stored_tables ip' = stored_tables ip @ [(name, vt)]"
    and "map_of tables CommonTable = Some common" "distinct (map fst storage)" "(name, Some vt) \<in> set storage"
  shows "\<exists>d. map_of (readVirtualTables (Some storage) tables) name = Some d \<and>
    discovered_virtual d \<and> discovered_comment d = click_Comment t' \<and>
    map_of (columnTypes d) = map_of (columnTypes common) |`
      (insert clickhouse_timestamp (set (map (col_Name \<circ> snd) (Cols t)) - {AttributesValuesColumn, AttributesMetadataColumn}))"
proof -
  have vt: "vt = \<lparr>vt_Version = VirtualTableStructVersion, vt_StoredAt = now, vt_Columns = stored_columns t\<rparr>"
    "click_Comment t' = ''Virtual table. Version: '' @ now"
    using assms(1, 2) by (auto simp: storeVirtualTable_def)
  obtain as bs where st: "storage = as @ (name, Some vt) # bs" using split_list [OF assms(5)] by blast
  then have b: "name \<notin> set (map fst bs)" using assms(4) by auto
  define before where "before = foldl (read_virtual_table (columnTypes common)) tables as"
  have "map_of (readVirtualTables (Some storage) tables) name =
    map_of (read_virtual_table (columnTypes common) before (name, Some vt)) name"
    using read_virtual_table_other [OF b] by (simp add: readVirtualTables_def assms(3) st before_def)
  moreover have "set (stored_columns t) =
    insert clickhouse_timestamp (set (map (col_Name \<circ> snd) (Cols t)) - {AttributesValuesColumn, AttributesMetadataColumn})"
    by (auto simp: stored_columns_def Let_def clickhouse_timestamp_def AttributesValuesColumn_def AttributesMetadataColumn_def)
  ultimately show ?thesis
    using vt by (auto simp: read_virtual_table_def update_conv virtual_columns_def virtual_columns_lookup restrict_map_def fun_eq_iff)
qed


definition common_discovered :: discovered_table where
  "common_discovered =
     nested_array_table\<lparr>columnTypes :=
       [(''message'', \<lparr>colType = ''Nullable(String)'', metadata_comment = []\<rparr>),
        (''@timestamp'', \<lparr>colType = ''DateTime64(3)'', metadata_comment = []\<rparr>)]\<rparr>"

definition stored_small_table :: virtual_table where
  "stored_small_table =
     \<lparr>vt_Version = VirtualTableStructVersion, vt_StoredAt = ''2025'', vt_Columns = stored_columns small_table\<rparr>"

theorem virtual_tables_are_read_back_witness:
  "\<exists>d. map_of (readVirtualTables (Some [(''logs'', Some stored_small_table)]) [(CommonTable, common_discovered)]) ''logs'' = Some d \<and>
    discovered_virtual d \<and>
    map_of (columnTypes d) = map_of (columnTypes common_discovered) |` {clickhouse_timestamp, ''message''}"
proof -
  obtain t' ip' where st: "storeVirtualTable ''2025'' small_table no_counters = (t', ip')" by fastforce
  moreover have "stored_tables ip' = stored_tables no_counters @ [(''logs'', stored_small_table)]"
    using st by (auto simp: storeVirtualTable_def stored_small_table_def small_table_def)
  moreover have "map_of [(CommonTable, common_discovered)] CommonTable = Some common_discovered" by simp
  ultimately have "\<exists>d. map_of (readVirtualTables (Some [(''logs'', Some stored_small_table)]) [(CommonTable, common_discovered)]) ''logs'' = Some d \<and>
    discovered_virtual d \<and> discovered_comment d = click_Comment t' \<and>
    map_of (columnTypes d) = map_of (columnTypes common_discovered) |`
      (insert clickhouse_timestamp (set (map (col_Name \<circ> snd) (Cols small_table)) - {AttributesValuesColumn, AttributesMetadataColumn}))"
    by (rule virtual_tables_are_read_back) simp_all
  moreover have "insert clickhouse_timestamp (set (map (col_Name \<circ> snd) (Cols small_table)) - {AttributesValuesColumn, AttributesMetadataColumn})
      = {clickhouse_timestamp, ''message''}"
    by (auto simp: small_table_def AttributesValuesColumn_def AttributesMetadataColumn_def)
  ultimately show ?thesis by metis
qed

end
