(* ===== verification/Ingest_Processor.thy ===== *)
theory Ingest_Processor
  imports Table_Discovery Table_Resolver
begin

text \<open>
  Ingest of documents: \<open>processor.go\<close> of \<open>quesma/ingest\<close>.  The state is what the processor shares
  with the rest of the gateway: the definitions of tables, the schema registry, and its own
  counters.  A table that is found is a pointer into the definitions, so changes of it are written
  back.  The clock, the marshalling of documents by \<open>goccy/go-json\<close> and the database are arguments.
  \<open>None\<close> is a panic.
\<close>

section \<open>State\<close>

record ingest_config =
  ingest_indexes :: "(string \<times> schema_index_configuration) list"
  ingest_cluster :: string
  ingest_autodiscovery :: bool
  DefaultIngestOptimizers :: "string \<rightharpoonup> optimizer_configuration"

record ingest_state =
  ip_tables :: table_map
  ip_counters :: ingest_counters
  ip_registry :: schema_registry

datatype 'e ingest_error =
    RewriteFailed nat
  | CreateFailed new_table_error
  | TableAlreadyExists string
  | TableNotFound string
  | ValidationFailed validate_error
  | MarshalFailed 'e
  | ExecFailed string
  | InvalidIndexName index_name_error
  | ResolverFailed resolver_error
  | EmptyDecision string
  | ClosedDecision string
  | CommonTableFailed "'e ingest_error"
  | InsertFailed "'e ingest_error"

definition put_table :: "string \<Rightarrow> click_table \<Rightarrow> ingest_state \<Rightarrow> ingest_state" where
  "put_table key t st = st\<lparr>ip_tables := AList.update key t (ip_tables st)\<rparr>"

section \<open>Creation of tables\<close>

text \<open>Whether the table has to be created, the table, and whether it is now among the definitions.\<close>

definition AddTableIfDoesntExist ::
  "ingest_config \<Rightarrow> string \<Rightarrow> click_table \<Rightarrow> ingest_state \<Rightarrow> (bool \<times> click_table \<times> bool) \<times> ingest_state" where
  "AddTableIfDoesntExist cfg now t st =
     (case FindTable (click_Name t) (ip_tables st) of
        None \<Rightarrow>
          (let t = ApplyIndexConfig (ingest_indexes cfg) (t\<lparr>click_Created := True\<rparr>);
               (t, ip) = (if VirtualTable t then storeVirtualTable now t (ip_counters st) else (t, ip_counters st))
           in ((True, t, True), st\<lparr>ip_tables := AddTable (click_Name t) t (ip_tables st), ip_counters := ip\<rparr>))
      | Some (key, old) \<Rightarrow>
          ((\<not> click_Created old, t, False), put_table key (old\<lparr>click_Created := True\<rparr>) st))"

text \<open>The new columns go into the table that was added, not into one that was there.\<close>

definition createTableObjectAndAttributes ::
  "ingest_config \<Rightarrow> string \<Rightarrow> string \<Rightarrow> table_config \<Rightarrow> string \<Rightarrow> bool \<Rightarrow> ingest_state \<Rightarrow>
   (('e ingest_error + string) \<times> ingest_state) option" where
  "createTableObjectAndAttributes cfg now query config name tableDefinitionChangeOnly st =
     do { r \<leftarrow> NewTable query config;
          case r of
            Inl err \<Rightarrow> Some (Inl (CreateFailed err), st)
          | Inr t \<Rightarrow>
              (let t = (if tableDefinitionChangeOnly
                        then t\<lparr>click_Name := name, click_Database := [],
                               click_Comment := ''Definition only. This is not a real table.'', VirtualTable := True\<rparr>
                        else t);
                   ((noSuchTable, t, added), st) = AddTableIfDoesntExist cfg now t st
               in if \<not> noSuchTable then Some (Inl (TableAlreadyExists (click_Name t)), st)
                  else do { (q, t) \<leftarrow> addOurFieldsToCreateTableQuery query config t;
                            Some (Inr q, if added then put_table (click_Name t) t st else st) }) }"

definition table_provider_of :: "ingest_config \<Rightarrow> ingest_state \<Rightarrow> table_provider" where
  "table_provider_of cfg st =
     \<lparr>provider_tables = schema_tables (ip_tables st), provider_autodiscovery = ingest_autodiscovery cfg\<rparr>"

text \<open>The statement that creates the table of the first of the documents.\<close>

definition create_statement ::
  "ingest_config \<Rightarrow> string \<Rightarrow> string \<Rightarrow> json_map list \<Rightarrow> bool \<Rightarrow> ingest_state \<Rightarrow>
   (('e ingest_error + string) \<times> ingest_state) option" where
  "create_statement cfg now tableName docs tableDefinitionChangeOnly st =
     (case docs of
        [] \<Rightarrow> None
      | doc # _ \<Rightarrow>
          do { let config = NewOnlySchemaFieldsCHConfig (ingest_cluster cfg);
               let columnsFromJson = JsonToColumns doc config;
               let origins = (\<lambda>n. if n \<in> set (map ClickHouseColumnName columnsFromJson) then Some FieldSourceIngest else None);
               let registry = UpdateFieldsOrigins tableName origins (ip_registry st);
               (found, registry) \<leftarrow> FindSchema (table_provider_of cfg st) tableName registry;
               let es = GetFieldEncodings registry;
               let columns = columnsWithIndexes
                     (columnsToString columnsFromJson (SchemaToColumns found tableName es) es tableName) (Indexes_text doc);
               createTableObjectAndAttributes cfg now (createTableQuery tableName columns config) config tableName
                 tableDefinitionChangeOnly (st\<lparr>ip_registry := registry\<rparr>) })"

section \<open>Statements\<close>

text \<open>The rows of the documents; the table changes from one to the next.\<close>

fun ingest_rows ::
  "(json_map \<Rightarrow> 'e + string) \<Rightarrow> string \<Rightarrow> string \<Rightarrow> encodings \<Rightarrow> (json_map \<times> json_map) list \<Rightarrow> click_table \<Rightarrow> ingest_state \<Rightarrow>
   (('e ingest_error + string list \<times> string list) \<times> ingest_state) option" where
  "ingest_rows marshal now key es [] t st = Some (Inr ([], []), st)"
| "ingest_rows marshal now key es ((doc, invalid) # docs) t st =
     do { (c, t, ip) \<leftarrow> GenerateIngestContent now t doc invalid (click_Config t) es (ip_counters st);
          let st = put_table key t (st\<lparr>ip_counters := ip\<rparr>);
          row \<leftarrow> generateInsertJson marshal (content_attributes c) (content_fields c);
          case row of
            Inl err \<Rightarrow> Some (Inl (MarshalFailed err), st)
          | Inr insertJson \<Rightarrow>
              do { (r, st) \<leftarrow> ingest_rows marshal now key es docs t st;
                   Some (case r of
                           Inl err \<Rightarrow> (Inl err, st)
                         | Inr (alter, rows) \<Rightarrow> (Inr (content_alter c @ alter, insertJson # rows), st)) } }"

definition generateSqlStatements :: "string \<Rightarrow> string list \<Rightarrow> string \<Rightarrow> string list" where
  "generateSqlStatements createTableCmd alter insertCmd =
     (if createTableCmd \<noteq> [] then [createTableCmd] else []) @ alter @ [insertCmd]"

definition insert_statement :: "string \<Rightarrow> string list \<Rightarrow> string" where
  "insert_statement tableName rows =
     ''INSERT INTO '' @ [CHR 0x22] @ tableName @ [CHR 0x22] @ '' FORMAT JSONEachRow '' @ join '', '' rows"

fun rewrite_documents :: "json_map list \<Rightarrow> nat + json_map list" where
  "rewrite_documents [] = Inr []"
| "rewrite_documents (d # ds) =
     (case Transform_arrays d of Inl i \<Rightarrow> Inl i | Inr d' \<Rightarrow> map_sum id (Cons d') (rewrite_documents ds))"

text \<open>The statement that has to be executed first, if the table is not there or was not created yet.\<close>

definition prepare_table ::
  "ingest_config \<Rightarrow> string \<Rightarrow> string \<Rightarrow> json_map list \<Rightarrow> bool \<Rightarrow> ingest_state \<Rightarrow>
   (('e ingest_error + string) \<times> ingest_state) option" where
  "prepare_table cfg now tableName docs tableDefinitionChangeOnly st =
     (case FindTable tableName (ip_tables st) of
        None \<Rightarrow> create_statement cfg now tableName docs tableDefinitionChangeOnly st
      | Some (key, t) \<Rightarrow>
          if \<not> click_Created t then map_option (\<lambda>q. (Inr q, st)) (CreateTableString t) else Some (Inr [], st))"

definition processInsertQuery ::
  "(json_map \<Rightarrow> 'e + string) \<Rightarrow> ingest_config \<Rightarrow> string \<Rightarrow> string \<Rightarrow> json_map list \<Rightarrow> ingest_transformer \<Rightarrow> bool \<Rightarrow> ingest_state \<Rightarrow>
   (('e ingest_error + string list) \<times> ingest_state) option" where
  "processInsertQuery marshal cfg now tableName jsonData transformer tableDefinitionChangeOnly st =
     (case rewrite_documents jsonData of
        Inl i \<Rightarrow> Some (Inl (RewriteFailed i), st)
      | Inr docs \<Rightarrow>
          do { es \<leftarrow> populateFieldEncodings docs tableName;
               let st = st\<lparr>ip_registry := UpdateFieldEncodings es (ip_registry st)\<rparr>;
               docs \<leftarrow> opt_mapM transformFieldName docs;
               let docs = map (apply_transformer transformer) docs;
               (prepared, st) \<leftarrow> prepare_table cfg now tableName docs tableDefinitionChangeOnly st;
               case prepared of
                 Inl err \<Rightarrow> Some (Inl err, st)
               | Inr createTableCmd \<Rightarrow>
                   (case FindTable tableName (ip_tables st) of
                      None \<Rightarrow> Some (Inl (TableNotFound tableName), st)
                    | Some (key, t) \<Rightarrow>
                        do { checked \<leftarrow> preprocessJsons (click_Name t) docs (ip_tables st);
                             case checked of
                               Inl err \<Rightarrow> Some (Inl (ValidationFailed err), st)
                             | Inr checkedDocs \<Rightarrow>
                                 do { (r, st) \<leftarrow> ingest_rows marshal now key es checkedDocs t st;
                                      Some (case r of
                                              Inl err \<Rightarrow> (Inl err, st)
                                            | Inr (alter, rows) \<Rightarrow>
                                                (Inr (generateSqlStatements createTableCmd alter
                                                   (insert_statement (click_Name t) rows)), st)) } }) })"

section \<open>Execution\<close>

datatype setting = NumberSetting int | TextSetting string

text \<open>The optimizer of the index decides over the one for all indexes.\<close>

definition async_insert :: "ingest_config \<Rightarrow> string \<Rightarrow> bool \<times> (string \<rightharpoonup> string)" where
  "async_insert cfg tableName =
     (let chosen = (\<lambda>opt. (\<not> Disabled opt, Properties opt));
          all = (case DefaultIngestOptimizers cfg ''async_insert'' of Some opt \<Rightarrow> chosen opt | None \<Rightarrow> (True, Map.empty))
      in case map_of (ingest_indexes cfg) tableName of
           None \<Rightarrow> all
         | Some c \<Rightarrow> (case Optimizers c ''async_insert'' of Some opt \<Rightarrow> chosen opt | None \<Rightarrow> all))"

definition applyAsyncInsertOptimizer :: "ingest_config \<Rightarrow> string \<Rightarrow> (string \<rightharpoonup> setting) \<Rightarrow> (string \<rightharpoonup> setting)" where
  "applyAsyncInsertOptimizer cfg tableName settings =
     (let (enableAsyncInsert, asyncInsertProps) = async_insert cfg tableName
      in if enableAsyncInsert
         then settings(''async_insert'' \<mapsto> NumberSetting 1, ''wait_for_async_insert'' \<mapsto> NumberSetting 1,
                ''async_insert_busy_timeout_ms'' \<mapsto> NumberSetting 100, ''async_insert_max_data_size'' \<mapsto> NumberSetting 50000000,
                ''async_insert_max_query_number'' \<mapsto> NumberSetting 10000)
              ++ (\<lambda>k. map_option TextSetting (asyncInsertProps k))
         else settings)"

text \<open>\<open>exec\<close> is the database: an error, or the database afterwards.\<close>

type_synonym 'db executor = "(string \<rightharpoonup> setting) \<Rightarrow> string \<Rightarrow> 'db \<Rightarrow> string option \<times> 'db"

fun executeStatements :: "'db executor \<Rightarrow> (string \<rightharpoonup> setting) \<Rightarrow> string list \<Rightarrow> 'db \<Rightarrow> string option \<times> 'db" where
  "executeStatements exec settings [] db = (None, db)"
| "executeStatements exec settings (q # qs) db =
     (case exec settings q db of
        (Some err, db) \<Rightarrow> (Some err, db)
      | (None, db) \<Rightarrow> executeStatements exec settings qs db)"

definition processInsertQueryInternal ::
  "'db executor \<Rightarrow> (json_map \<Rightarrow> 'e + string) \<Rightarrow> ingest_config \<Rightarrow> string \<Rightarrow> string \<Rightarrow> json_map list \<Rightarrow> ingest_transformer \<Rightarrow> bool \<Rightarrow>
   ingest_state \<times> 'db \<Rightarrow> ('e ingest_error option \<times> ingest_state \<times> 'db) option" where
  "processInsertQueryInternal exec marshal cfg now tableName jsonData transformer isVirtualTable w =
     (case w of
        (st, db) \<Rightarrow>
          do { (r, st) \<leftarrow> processInsertQuery marshal cfg now tableName jsonData transformer isVirtualTable st;
               Some (case r of
                       Inl err \<Rightarrow> (Some err, st, db)
                     | Inr statements \<Rightarrow>
                         if isVirtualTable then (None, st, db)
                         else (let settings = applyAsyncInsertOptimizer cfg tableName [''date_time_input_format'' \<mapsto> TextSetting ''best_effort''];
                                   (failed, db) = executeStatements exec settings statements db
                               in (map_option ExecFailed failed, st, db))) })"

text \<open>
  What is left of the documents of the caller after an insert: arrays are rewritten and fields are
  renamed in place, and so work the transformers before the one that flattens into a new map.
\<close>

function in_place :: "ingest_transformer \<Rightarrow> json_map \<Rightarrow> json_map \<times> bool" where
  "in_place (FlattenMapTransformer sep) m = (m, False)"
| "in_place (IngestTransformerPipeline ts) m =
     foldl (\<lambda>acc t. case acc of (m, same) \<Rightarrow> if same then in_place t m else (m, False)) (m, True) ts"
| "in_place (RemoveFieldsTransformer removed) m = (apply_transformer (RemoveFieldsTransformer removed) m, True)"
| "in_place (IngestAddIndexNameTransformer idx) m = (apply_transformer (IngestAddIndexNameTransformer idx) m, True)"
  by pat_completeness auto
termination
  by (relation "measure (\<lambda>(t, m). size t)") (auto simp: less_Suc_eq_le intro: size_list_estimation' [OF _ order_refl])

definition documents_after :: "ingest_transformer \<Rightarrow> json_map list \<Rightarrow> json_map list option" where
  "documents_after transformer jsonData =
     (case rewrite_documents jsonData of
        Inl i \<Rightarrow> Some jsonData
      | Inr docs \<Rightarrow> map_option (map (fst \<circ> in_place transformer)) (opt_mapM transformFieldName docs))"

definition common_pipeline :: "string \<Rightarrow> ingest_transformer \<Rightarrow> ingest_transformer" where
  "common_pipeline tableName transformer =
     IngestTransformerPipeline [IngestAddIndexNameTransformer tableName, transformer]"

text \<open>
  The common table is fed twice: a copy of the documents goes to the virtual table, an error of
  which is only logged, and the documents with the name of their index to the common table.
\<close>

fun insert_all ::
  "'db executor \<Rightarrow> (json_map \<Rightarrow> 'e + string) \<Rightarrow> ingest_config \<Rightarrow> string \<Rightarrow> string \<Rightarrow> ingest_transformer \<Rightarrow> connector_decision list \<Rightarrow> json_map list \<Rightarrow>
   ingest_state \<times> 'db \<Rightarrow> ('e ingest_error option \<times> ingest_state \<times> 'db) option" where
  "insert_all exec marshal cfg now tableName transformer [] jsonData w = Some (None, w)"
| "insert_all exec marshal cfg now tableName transformer (ConnectorDecisionElastic m # ds) jsonData w =
     insert_all exec marshal cfg now tableName transformer ds jsonData w"
| "insert_all exec marshal cfg now tableName transformer (ConnectorDecisionClickhouse d # ds) jsonData w =
     (if IsCommonTable d
      then do { (_, w) \<leftarrow> processInsertQueryInternal exec marshal cfg now tableName jsonData transformer True w;
                let pipeline = common_pipeline tableName transformer;
                (r, w) \<leftarrow> processInsertQueryInternal exec marshal cfg now CommonTable jsonData pipeline False w;
                case r of
                  Some err \<Rightarrow> Some (Some (CommonTableFailed err), w)
                | None \<Rightarrow> do { docs \<leftarrow> documents_after pipeline jsonData;
                               insert_all exec marshal cfg now tableName transformer ds docs w } }
      else do { (r, w) \<leftarrow> processInsertQueryInternal exec marshal cfg now (ClickhouseTableName d) jsonData transformer False w;
                case r of
                  Some err \<Rightarrow> Some (Some (InsertFailed err), w)
                | None \<Rightarrow> do { docs \<leftarrow> documents_after transformer jsonData;
                               insert_all exec marshal cfg now tableName transformer ds docs w } })"

definition ProcessInsertQuery ::
  "'db executor \<Rightarrow> (json_map \<Rightarrow> 'e + string) \<Rightarrow> ingest_config \<Rightarrow> string \<Rightarrow> decision \<Rightarrow> string \<Rightarrow> json_map list \<Rightarrow> ingest_transformer \<Rightarrow>
   ingest_state \<times> 'db \<Rightarrow> ('e ingest_error option \<times> ingest_state \<times> 'db) option" where
  "ProcessInsertQuery exec marshal cfg now decision tableName jsonData transformer w =
     (case Err decision of
        Some err \<Rightarrow> Some (Some (ResolverFailed err), w)
      | None \<Rightarrow>
          if IsEmpty decision then Some (Some (EmptyDecision tableName), w)
          else if IsClosed decision then Some (Some (ClosedDecision tableName), w)
          else insert_all exec marshal cfg now tableName transformer (UseConnectors decision) jsonData w)"

definition Ingest ::
  "'db executor \<Rightarrow> (json_map \<Rightarrow> 'e + string) \<Rightarrow> ingest_config \<Rightarrow> string \<Rightarrow> decision \<Rightarrow> string \<Rightarrow> json_map list \<Rightarrow>
   ingest_state \<times> 'db \<Rightarrow> ('e ingest_error option \<times> ingest_state \<times> 'db) option" where
  "Ingest exec marshal cfg now decision indexName jsonData w =
     (case IsValidIndexName indexName of
        Some err \<Rightarrow> Some (Some (InvalidIndexName err), w)
      | None \<Rightarrow> ProcessInsertQuery exec marshal cfg now decision indexName jsonData
                  (IngestTransformerFor indexName (ingest_indexes cfg)) w)"

end
