(* ===== verification/Common_Rows.thy ===== *)
theory Common_Rows
  imports Ingest_Processor Ingest_Rows
begin

text \<open>
  What is inserted into the common table: every row carries the name of its index.
\<close>

section \<open>Rows of the common table\<close>

lemma path_values: "(p, v) \<in> set (paths m) \<Longrightarrow> \<forall>n. v \<noteq> JObject n"
proof (induction m arbitrary: p v rule: paths.induct)
  case (2 k x m)
  show ?case
  proof (cases "(p, v) \<in> set (paths m)")
    case True
    then show ?thesis by (rule 2)
  next
    case False
    show ?thesis
    proof (cases x)
      case (JObject n)
      then obtain q where "(q, v) \<in> set (paths n)" using False 2(3) by auto
      with JObject show ?thesis by (rule 2(1))
    qed (use False 2(3) in auto)
  qed
qed simp

lemma flat_leaves: "distinct (map fst (leaves sep m)) \<Longrightarrow> flat (leaves sep m)"
  using path_values by (fastforce simp: flat_def leaves_def)

lemma leaf_of_entry: "(k, v) \<in> set m \<Longrightarrow> \<forall>n. v \<noteq> JObject n \<Longrightarrow> (k, v) \<in> set (leaves sep m)"
proof (induction m)
  case (Cons kx m)
  obtain k' x where kx: "kx = (k', x)" by fastforce
  show ?case
  proof (cases "(k, v) \<in> set m")
    case True
    then show ?thesis using Cons kx by (simp add: leaves_Cons)
  next
    case False
    then show ?thesis using Cons.prems kx by (cases v) (auto simp: leaves_Cons)
  qed
qed simp

lemma delete_member: "(k, v) \<in> set (AList.delete f m) \<longleftrightarrow> k \<noteq> f \<and> (k, v) \<in> set m"
  by (auto simp: AList.delete_eq)

lemma flat_delete: "flat m \<Longrightarrow> flat (AList.delete f m)"
  by (auto simp: flat_def AList.delete_eq distinct_map_filter)

lemma flat_removed: "flat m \<Longrightarrow> flat (foldl (\<lambda>m f. AList.delete (g f) (AList.delete f m)) m fs)"
  by (induction fs arbitrary: m) (auto simp: flat_delete)

lemma removed_member:
  "\<forall>f \<in> set fs. k \<noteq> f \<and> k \<noteq> g f \<Longrightarrow>
    (k, v) \<in> set (foldl (\<lambda>m f. AList.delete (g f) (AList.delete f m)) m fs) \<longleftrightarrow> (k, v) \<in> set m"
  by (induction fs arbitrary: m) (auto simp: delete_member)

text \<open>The document that goes to the common table.\<close>

definition common_document :: "string \<Rightarrow> (string \<times> schema_index_configuration) list \<Rightarrow> json_map \<Rightarrow> json_map" where
  "common_document idx cfg m =
     apply_transformer (IngestTransformerPipeline [IngestAddIndexNameTransformer idx, IngestTransformerFor idx cfg]) m"

definition ignored_of :: "string \<Rightarrow> (string \<times> schema_index_configuration) list \<Rightarrow> string list" where
  "ignored_of idx cfg =
     (case map_of cfg idx of Some c \<Rightarrow> if SchemaOverrides c \<noteq> None then ignored_names c else [] | None \<Rightarrow> [])"

lemma common_document_removed:
  "common_document idx cfg m =
     foldl (\<lambda>m f. AList.delete (replace_char (CHR ''.'') ''_'' f) (AList.delete f m))
       (FlattenMap (AList.update IndexNameColumn (JString idx) m) ''_'') (ignored_of idx cfg)"
  by (simp add: common_document_def IngestTransformerFor_def ignored_of_def split: option.splits)

lemma common_document_index:
  assumes "distinct (map fst (leaves ''_'' (AList.update IndexNameColumn (JString idx) m)))"
    and "\<forall>f \<in> set (ignored_of idx cfg). IndexNameColumn \<noteq> f \<and> IndexNameColumn \<noteq> replace_char (CHR ''.'') ''_'' f"
  shows "flat (common_document idx cfg m)" "(IndexNameColumn, JString idx) \<in> set (common_document idx cfg m)"
proof -
  define m' where "m' = AList.update IndexNameColumn (JString idx) m"
  have l: "FlattenMap m' ''_'' = leaves ''_'' m'" by (rule FlattenMap_leaves) (use assms(1) m'_def in simp)
  have f: "flat (leaves ''_'' m')" by (rule flat_leaves) (use assms(1) m'_def in simp)
  have "map_of m' IndexNameColumn = Some (JString idx)" by (simp add: m'_def update_conv)
  then have i: "(IndexNameColumn, JString idx) \<in> set (leaves ''_'' m')"
    by (intro leaf_of_entry map_of_SomeD) simp_all
  show "flat (common_document idx cfg m)"
    unfolding common_document_removed m'_def [symmetric] l by (rule flat_removed [OF f])
  show "(IndexNameColumn, JString idx) \<in> set (common_document idx cfg m)"
    unfolding common_document_removed m'_def [symmetric] l removed_member [OF assms(2)] by (rule i)
qed

lemma subtract_member:
  "(k, v) \<in> set (subtractInputJson d invalid) \<longleftrightarrow> k \<notin> fst ` set invalid \<and> (k, v) \<in> set d"
proof -
  have "(k, v) \<in> set (foldl (\<lambda>m f. AList.delete f m) d fs) \<longleftrightarrow> k \<notin> set fs \<and> (k, v) \<in> set d" for fs
    by (induction fs arbitrary: d) (auto simp: delete_member)
  then show ?thesis by (simp add: subtractInputJson_def)
qed

lemma flat_subtract: "flat d \<Longrightarrow> flat (subtractInputJson d invalid)"
proof -
  have "flat d \<Longrightarrow> flat (foldl (\<lambda>m f. AList.delete f m) d fs)" for fs
    by (induction fs arbitrary: d) (auto simp: flat_delete)
  then show "flat d \<Longrightarrow> ?thesis" by (simp add: subtractInputJson_def)
qed

lemma opt_mapM_member: "opt_mapM f xs = Some ys \<Longrightarrow> y \<in> set ys \<Longrightarrow> \<exists>x \<in> set xs. f x = Some y"
  by (induction xs arbitrary: ys) (auto split: Option.bind_splits)

text \<open>The fields that validation takes out do not fit their columns.\<close>

lemma invalid_fields:
  assumes "validateIngest tn d tables = Some (Inr invalid)" "FindTable tn tables = Some (key, t)" "(k, v) \<in> set invalid"
  shows "\<exists>c. (k, c) \<in> set (Cols t) \<and> map_of d k = Some v \<and> v \<noteq> JNull \<and>
    validateValueAgainstType k v (col_Type c) = Some False"
proof -
  obtain xs where xs: "opt_mapM (invalid_field d) (Cols t) = Some xs" "invalid = concat xs"
    using assms(1, 2) by (auto simp: validateIngest_def)
  then obtain x where "x \<in> set xs" "(k, v) \<in> set x" using assms(3) by auto
  then obtain kc where "kc \<in> set (Cols t)" "invalid_field d kc = Some x"
    using opt_mapM_member [OF xs(1)] by blast
  moreover from this(2) \<open>(k, v) \<in> set x\<close> have "k = fst kc \<and> map_of d k = Some v \<and> v \<noteq> JNull \<and>
      validateValueAgainstType k v (col_Type (snd kc)) = Some False"
    by (auto simp: invalid_field_def simp del: validateValueAgainstType.simps split: option.splits if_splits)
  ultimately show ?thesis by (metis prod.collapse)
qed

text \<open>A text that is no date fits a column of type \<open>String\<close>.\<close>

lemma text_fits:
  assumes "n \<in> {''String'', ''LowCardinality(String)''}" "parse_RFC3339 s = None" "parse_layout 6 no_zone s = None"
  shows "validateValueAgainstType k (JString s) (BaseType n g nul) = Some True"
proof -
  have "\<not> isNumericType ''String''" by code_simp
  moreover have "removeLowCardinality n = ''String''" using assms(1) by (auto simp: removeLowCardinality_def)
  ultimately show ?thesis using assms(2, 3) by (simp add: base_matches_def)
qed


lemma index_is_valid:
  assumes "validateIngest tn d tables = Some (Inr invalid)" "FindTable tn tables = Some (key, t)"
    and "distinct (map fst (Cols t))" "map_of (Cols t) k = Some c" "col_Type c = BaseType n g nul"
    and "n \<in> {''String'', ''LowCardinality(String)''}" "parse_RFC3339 s = None" "parse_layout 6 no_zone s = None"
    and "flat d" "(k, JString s) \<in> set d"
  shows "(k, JString s) \<in> set (subtractInputJson d invalid)"
proof -
  have False if member: "(k, v) \<in> set invalid" for v
  proof -
    obtain c' where c': "(k, c') \<in> set (Cols t)" "map_of d k = Some v" "validateValueAgainstType k v (col_Type c') = Some False"
      using invalid_fields [OF assms(1, 2) member] by blast
    have "c' = c" using map_of_is_SomeI [OF assms(3) c'(1)] assms(4) by simp
    moreover have "map_of d k = Some (JString s)" using assms(9, 10) by (intro map_of_is_SomeI) (auto simp: flat_def)
    ultimately show False using c'(2, 3) text_fits [OF assms(6-8)] assms(5) by (simp del: validateValueAgainstType.simps)
  qed
  then show ?thesis using assms(10) by (force simp: subtract_member)
qed


text \<open>A table keeps its configuration when it gets new columns.\<close>

lemma generateNewColumns_config:
  "generateNewColumns now m t indexes es ip = Some (alter, m', t', ip') \<Longrightarrow> click_Config t' = click_Config t"
  by (auto simp: generateNewColumns_def storeVirtualTable_def Let_def split: Option.bind_splits if_splits)

lemma GenerateIngestContent_config:
  "GenerateIngestContent now t d invalid config es ip = Some (con, t', ip') \<Longrightarrow> click_Config t' = click_Config t"
  by (auto simp: GenerateIngestContent_def Let_def dest: generateNewColumns_config
      split: Option.bind_splits if_splits prod.splits)

lemma content_keeps:
  assumes "flat d" "(k, v) \<in> set d" "k \<in> names (Cols t)" "Attributes config \<in> {[], [NewDefaultStringAttribute]}"
    and "GenerateIngestContent now t d invalid config es ip = Some (con, t', ip')"
  shows "(k, v) \<in> set (content_fields con)" "k \<in> names (Cols t')"
proof -
  have "(k, v) \<in> set (content_fields con) \<and> k \<in> names (Cols t')"
  proof (cases "Attributes config = []")
    case True
    then show ?thesis using assms by (auto simp: GenerateIngestContent_def)
  next
    case False
    then have "Attributes config = [NewDefaultStringAttribute]" using assms(4) by simp
    then obtain c t'' ip'' where "GenerateIngestContent now t d invalid config es ip = Some (c, t'', ip'')"
      "content_fields c = filter (\<lambda>(k, v). k \<in> names (Cols t'')) d" "names (Cols t) \<subseteq> names (Cols t'')"
      using content_of_flat [OF assms(1), of config now t invalid es ip] by blast
    then show ?thesis using assms(2, 3, 5) by auto
  qed
  then show "(k, v) \<in> set (content_fields con)" "k \<in> names (Cols t')" by simp_all
qed

text \<open>A field that every document has and that has a column is in every row.\<close>

lemma rows_keep:
  assumes "ingest_rows marshal now key es docs t st = Some (Inr (alter, rows), st')"
    and "\<forall>(d, invalid) \<in> set docs. flat d \<and> (k, v) \<in> set d"
    and "k \<in> names (Cols t)" "Attributes (click_Config t) \<in> {[], [NewDefaultStringAttribute]}"
  shows "list_all2 (\<lambda>d row. \<exists>attributes m. (k, v) \<in> set m \<and> generateInsertJson marshal attributes m = Some (Inr row)) docs rows"
  using assms
proof (induction docs arbitrary: t st st' alter rows)
  case (Cons di docs)
  obtain d invalid where di: "di = (d, invalid)" by fastforce
  from Cons.prems(1) obtain con t1 ip1 row st2 alter2 rows2 where
    g: "GenerateIngestContent now t d invalid (click_Config t) es (ip_counters st) = Some (con, t1, ip1)"
    and j: "generateInsertJson marshal (content_attributes con) (content_fields con) = Some (Inr row)"
    and r: "ingest_rows marshal now key es docs t1 (put_table key t1 (st\<lparr>ip_counters := ip1\<rparr>)) = Some (Inr (alter2, rows2), st2)"
    and rows: "rows = row # rows2"
    unfolding di by (auto simp: Let_def split: Option.bind_splits sum.splits prod.splits)
  have d: "flat d" "(k, v) \<in> set d" using Cons.prems(2) di by auto
  note c = content_keeps [OF d Cons.prems(3, 4) g]
  have "list_all2 (\<lambda>d row. \<exists>attributes m. (k, v) \<in> set m \<and> generateInsertJson marshal attributes m = Some (Inr row)) docs rows2"
    using Cons.IH [OF r _ c(2)] Cons.prems(2, 4) GenerateIngestContent_config [OF g] by simp
  then show ?case unfolding rows using c(1) j by auto
qed simp

lemma map_sum_Inr: "map_sum id f r = Inr y \<longleftrightarrow> (\<exists>x. r = Inr x \<and> y = f x)"
  by (cases r) auto

lemma preprocess_documents:
  "preprocessJsons tn docs tables = Some (Inr checked) \<Longrightarrow>
    list_all2 (\<lambda>d (d', invalid). validateIngest tn d tables = Some (Inr invalid) \<and> d' = subtractInputJson d invalid) docs checked"
proof (induction docs arbitrary: checked)
  case (Cons d docs)
  from Cons.prems obtain invalid checked' where "validateIngest tn d tables = Some (Inr invalid)"
    "preprocessJsons tn docs tables = Some (Inr checked')" "checked = (subtractInputJson d invalid, invalid) # checked'"
    by (auto split: Option.bind_splits sum.split_asm simp: map_sum_Inr)
  then show ?case using Cons.IH by simp
qed simp

lemma opt_mapM_length: "opt_mapM f xs = Some ys \<Longrightarrow> length ys = length xs"
  by (induction xs arbitrary: ys) (auto split: Option.bind_splits)

lemma rewrite_documents_length: "rewrite_documents ds = Inr rs \<Longrightarrow> length rs = length ds"
  by (induction ds arbitrary: rs) (auto split: sum.split_asm simp: map_sum_Inr)

text \<open>The documents of an index that are inserted into the common table, once renamed.\<close>

definition renamed_documents :: "json_map list \<Rightarrow> json_map list option" where
  "renamed_documents ds =
     (case rewrite_documents ds of Inl i \<Rightarrow> None | Inr rs \<Rightarrow> opt_mapM transformFieldName rs)"

text \<open>The transformer that \<open>Ingest\<close> and \<open>ProcessInsertQuery\<close> make for the documents that go to the common table.\<close>

definition common_transformer :: "string \<Rightarrow> (string \<times> schema_index_configuration) list \<Rightarrow> ingest_transformer" where
  "common_transformer idx cfg = common_pipeline idx (IngestTransformerFor idx cfg)"

text \<open>
  C10: Every row that an insert of the documents of an index adds to the common table carries the
  name of the index: the last statement inserts as many rows as there are documents, and each of
  them is made from the fields of a document with the name of the index among them.  The common
  table is there and has a text column for it, no field of a document is flattened into the same
  name as another, no ignored field stands for the column, and the name of the index is no date.
\<close>

theorem common_rows_carry_index_name:
  assumes insert: "processInsertQuery marshal cfg now CommonTable ds (common_transformer idx (ingest_indexes cfg)) False st = Some (Inr statements, st')"
    and renamed: "renamed_documents ds = Some rs"
      "\<forall>m \<in> set rs. distinct (map fst (leaves ''_'' (AList.update IndexNameColumn (JString idx) m)))"
    and ignored: "\<forall>f \<in> set (ignored_of idx (ingest_indexes cfg)).
      IndexNameColumn \<noteq> f \<and> IndexNameColumn \<noteq> replace_char (CHR ''.'') ''_'' f"
    and no_date: "parse_RFC3339 idx = None" "parse_layout 6 no_zone idx = None"
    and table: "FindTable CommonTable (ip_tables st) = Some (key, t)" "click_Created t" "click_Name t = CommonTable"
      "Attributes (click_Config t) \<in> {[], [NewDefaultStringAttribute]}"
    and column: "distinct (map fst (Cols t))" "map_of (Cols t) IndexNameColumn = Some c"
      "col_Type c = BaseType n g nul" "n \<in> {''String'', ''LowCardinality(String)''}"
  shows "\<exists>alter rows. statements = alter @ [insert_statement CommonTable rows] \<and> length rows = length ds \<and>
    (\<forall>row \<in> set rows. \<exists>attributes m. (IndexNameColumn, JString idx) \<in> set m \<and>
      generateInsertJson marshal attributes m = Some (Inr row))"
proof -
  let ?docs = "map (common_document idx (ingest_indexes cfg)) rs"
  obtain ws where ws: "rewrite_documents ds = Inr ws" "opt_mapM transformFieldName ws = Some rs"
    using renamed(1) by (auto simp: renamed_documents_def split: sum.splits)
  have docs: "map (apply_transformer (common_transformer idx (ingest_indexes cfg))) rs = ?docs"
    by (simp add: common_transformer_def common_pipeline_def common_document_def)
  obtain es checked alter rows st2 where
    c: "preprocessJsons CommonTable ?docs (ip_tables st) = Some (Inr checked)"
    and r: "ingest_rows marshal now key es checked t (st\<lparr>ip_registry := UpdateFieldEncodings es (ip_registry st)\<rparr>) = Some (Inr (alter, rows), st2)"
    and s: "statements = alter @ [insert_statement CommonTable rows]"
    using insert unfolding processInsertQuery_def
    by (auto simp: ws docs prepare_table_def table generateSqlStatements_def Let_def simp del: preprocessJsons.simps ingest_rows.simps
        split: Option.bind_splits sum.splits)
  have checked: "list_all2 (\<lambda>d (d', invalid). validateIngest CommonTable d (ip_tables st) = Some (Inr invalid) \<and>
      d' = subtractInputJson d invalid) ?docs checked"
    by (rule preprocess_documents [OF c])
  have fine: "\<forall>(d, invalid) \<in> set checked. flat d \<and> (IndexNameColumn, JString idx) \<in> set d"
  proof clarify
    fix d' invalid
    assume "(d', invalid) \<in> set checked"
    then obtain m where m: "m \<in> set rs"
      "validateIngest CommonTable (common_document idx (ingest_indexes cfg) m) (ip_tables st) = Some (Inr invalid)"
      "d' = subtractInputJson (common_document idx (ingest_indexes cfg) m) invalid"
      using list_all2_member [OF checked] by auto
    note i = common_document_index [OF renamed(2) [rule_format, OF m(1)] ignored]
    show "flat d' \<and> (IndexNameColumn, JString idx) \<in> set d'"
      unfolding m(3) using flat_subtract [OF i(1)] index_is_valid [OF m(2) table(1) column no_date i] by simp
  qed
  have "IndexNameColumn \<in> names (Cols t)" using map_of_SomeD [OF column(2)] by force
  note k = rows_keep [OF r fine this table(4)]
  have "length rows = length ds"
    using list_all2_lengthD [OF k] list_all2_lengthD [OF checked] ws
    by (simp add: opt_mapM_length rewrite_documents_length)
  then show ?thesis using s k list_all2_member [OF k] by blast
qed


definition a_common_table :: click_table where
  "a_common_table = small_table\<lparr>click_Name := CommonTable,
     Cols := [(IndexNameColumn, Column IndexNameColumn (NewBaseType ''String'') [] [] []),
              (''message'', Column ''message'' (NewBaseType ''String'') [] [] [])]\<rparr>"

definition common_state :: ingest_state where
  "common_state =
     \<lparr>ip_tables = [(CommonTable, a_common_table)], ip_counters = no_counters,
      ip_registry = \<lparr>indexConfiguration = [], dataSourceTypeAdapter = Map.empty, dynamicConfiguration = Map.empty,
        fieldEncodings = [], fieldOrigins = Map.empty, cachedSchemas = None\<rparr>\<rparr>"

definition common_config :: ingest_config where
  "common_config =
     \<lparr>ingest_indexes = [], ingest_cluster = [], ingest_autodiscovery = False, DefaultIngestOptimizers = Map.empty\<rparr>"

definition marshal_keys :: "json_map \<Rightarrow> unit + string" where
  "marshal_keys m = Inr (''{'' @ join '','' (map (\<lambda>(k, v). k @ '':'' @ print_json v) m) @ ''}'')"

definition common_documents :: "json_map list" where
  "common_documents = [[(''User'', JObject [(''Name'', JString ''ann'')])], [(''message'', JString ''hi'')]]"

lemma common_insert:
  "(case processInsertQuery marshal_keys common_config ''now'' CommonTable common_documents
      (common_transformer ''logs'' (ingest_indexes common_config)) False common_state of
     Some (Inr statements, st) \<Rightarrow> length statements = 3 | _ \<Rightarrow> False)"
  by code_simp

theorem common_rows_carry_index_name_witness:
  "\<exists>statements st' alter rows.
    processInsertQuery marshal_keys common_config ''now'' CommonTable common_documents
      (common_transformer ''logs'' (ingest_indexes common_config)) False common_state = Some (Inr statements, st') \<and>
    statements = alter @ [insert_statement CommonTable rows] \<and> length rows = length common_documents \<and>
    (\<forall>row \<in> set rows. \<exists>attributes m. (IndexNameColumn, JString ''logs'') \<in> set m \<and>
      generateInsertJson marshal_keys attributes m = Some (Inr row))"
proof -
  obtain statements st' where insert: "processInsertQuery marshal_keys common_config ''now'' CommonTable common_documents
      (common_transformer ''logs'' (ingest_indexes common_config)) False common_state = Some (Inr statements, st')"
    using common_insert by (auto split: option.splits sum.splits prod.splits)
  define rs where "rs = [[(''user'', JObject [(''name'', JString ''ann'')])], [(''message'', JString ''hi'')]]"
  have "renamed_documents common_documents = Some rs" unfolding rs_def by code_simp
  moreover have "\<forall>m \<in> set rs. distinct (map fst (leaves ''_'' (AList.update IndexNameColumn (JString ''logs'') m)))"
    unfolding rs_def by code_simp
  moreover have "ignored_of ''logs'' (ingest_indexes common_config) = []" by code_simp
  moreover have "parse_RFC3339 ''logs'' = None" "parse_layout 6 no_zone ''logs'' = None" by code_simp+
  moreover have "FindTable CommonTable (ip_tables common_state) = Some (CommonTable, a_common_table)" by code_simp
  moreover have "click_Created a_common_table" "click_Name a_common_table = CommonTable"
    "Attributes (click_Config a_common_table) \<in> {[], [NewDefaultStringAttribute]}" "distinct (map fst (Cols a_common_table))"
    "map_of (Cols a_common_table) IndexNameColumn = Some (Column IndexNameColumn (NewBaseType ''String'') [] [] [])"
    by code_simp+
  moreover have "col_Type (Column IndexNameColumn (NewBaseType ''String'') [] [] []) = BaseType ''String'' GoString False"
    by code_simp
  ultimately have "\<exists>alter rows. statements = alter @ [insert_statement CommonTable rows] \<and> length rows = length common_documents \<and>
    (\<forall>row \<in> set rows. \<exists>attributes m. (IndexNameColumn, JString ''logs'') \<in> set m \<and>
      generateInsertJson marshal_keys attributes m = Some (Inr row))"
    using common_rows_carry_index_name [OF insert, of rs CommonTable a_common_table _ "''String''" GoString False] by simp
  then show ?thesis using insert by blast
qed

text \<open>A nested field that is flattened into the name of the column may replace the name of the index.\<close>

lemma nested_field_replaces_index_name:
  "map_of (common_document ''logs'' []
      [(IndexNameColumn, JString ''x''), (''_'', JObject [(''quesma_index_name'', JString ''other'')])]) IndexNameColumn
    = Some (JString ''other'')"
  by code_simp

end
