(* ===== verification/Ingest_Invariants.thy ===== *)
theory Ingest_Invariants
  imports Common_Rows
begin

text \<open>
  What an ingest does to the definitions of tables that the gateway keeps: they grow, and the
  statements say by what.
\<close>

section \<open>The definitions of tables\<close>

text \<open>Every table is there once, under its name.\<close>

definition tables_ok :: "table_map \<Rightarrow> bool" where
  "tables_ok tables \<longleftrightarrow> distinct (map fst tables) \<and> (\<forall>(key, t) \<in> set tables. click_Name t = key)"

definition extends :: "click_table \<Rightarrow> click_table \<Rightarrow> bool" where
  "extends t t' \<longleftrightarrow>
     click_Name t' = click_Name t \<and> click_Cluster t' = click_Cluster t \<and> click_Config t' = click_Config t \<and>
     VirtualTable t' = VirtualTable t \<and> (click_Created t \<longrightarrow> click_Created t') \<and>
     fst ` set (Cols t) \<subseteq> fst ` set (Cols t')"

definition keeps_tables :: "table_map \<Rightarrow> table_map \<Rightarrow> bool" where
  "keeps_tables tables tables' \<longleftrightarrow>
     (\<forall>(key, t) \<in> set tables. case map_of tables' key of None \<Rightarrow> False | Some t' \<Rightarrow> extends t t')"

text \<open>What one step of an ingest does to the tables.\<close>

definition grows :: "ingest_state \<Rightarrow> ingest_state \<Rightarrow> bool" where
  "grows st st' \<longleftrightarrow> (tables_ok (ip_tables st) \<longrightarrow> tables_ok (ip_tables st') \<and> keeps_tables (ip_tables st) (ip_tables st'))"

lemma extends_refl [simp]: "extends t t"
  by (simp add: extends_def)

lemma extends_trans: "extends t t' \<Longrightarrow> extends t' t'' \<Longrightarrow> extends t t''"
  by (auto simp: extends_def)

lemma keeps_tablesD: "keeps_tables tables tables' \<Longrightarrow> map_of tables key = Some t \<Longrightarrow> \<exists>t'. map_of tables' key = Some t' \<and> extends t t'"
  unfolding keeps_tables_def by (drule map_of_SomeD) (auto split: option.splits dest!: bspec)

lemma keeps_tablesI:
  "distinct (map fst tables) \<Longrightarrow> (\<And>key t. map_of tables key = Some t \<Longrightarrow> \<exists>t'. map_of tables' key = Some t' \<and> extends t t') \<Longrightarrow>
    keeps_tables tables tables'"
  by (force simp: keeps_tables_def split: option.splits)

lemma grows_refl [simp]: "grows st st"
  by (auto simp: grows_def tables_ok_def intro: keeps_tablesI)

lemma grows_trans [trans]: "grows st st' \<Longrightarrow> grows st' st'' \<Longrightarrow> grows st st''"
  unfolding grows_def
proof (intro impI)
  assume a: "tables_ok (ip_tables st) \<longrightarrow> tables_ok (ip_tables st') \<and> keeps_tables (ip_tables st) (ip_tables st')"
    "tables_ok (ip_tables st') \<longrightarrow> tables_ok (ip_tables st'') \<and> keeps_tables (ip_tables st') (ip_tables st'')"
    "tables_ok (ip_tables st)"
  then have k: "keeps_tables (ip_tables st) (ip_tables st')" "keeps_tables (ip_tables st') (ip_tables st'')"
    "tables_ok (ip_tables st'')" by simp_all
  have "keeps_tables (ip_tables st) (ip_tables st'')"
  proof (rule keeps_tablesI)
    show "distinct (map fst (ip_tables st))" using a(3) by (simp add: tables_ok_def)
    fix key t
    assume "map_of (ip_tables st) key = Some t"
    then obtain t' where t': "map_of (ip_tables st') key = Some t'" "extends t t'" using keeps_tablesD [OF k(1)] by blast
    then obtain t'' where "map_of (ip_tables st'') key = Some t''" "extends t' t''" using keeps_tablesD [OF k(2)] by blast
    then show "\<exists>t''. map_of (ip_tables st'') key = Some t'' \<and> extends t t''" using t' extends_trans by blast
  qed
  then show "tables_ok (ip_tables st'') \<and> keeps_tables (ip_tables st) (ip_tables st'')" using k by simp
qed

lemma grows_same_tables: "ip_tables st' = ip_tables st \<Longrightarrow> grows st st'"
  using grows_refl [of st] unfolding grows_def by metis

lemma update_grows:
  assumes "map_of (ip_tables st) key = Some t \<and> extends t t' \<or> key \<notin> fst ` set (ip_tables st) \<and> click_Name t' = key"
    and "ip_tables st' = AList.update key t' (ip_tables st)"
  shows "grows st st'"
  unfolding grows_def
proof (intro impI conjI)
  assume ok: "tables_ok (ip_tables st)"
  have "click_Name t' = key"
  proof (cases "key \<in> fst ` set (ip_tables st)")
    case True
    then have "(key, t) \<in> set (ip_tables st)" "extends t t'" using assms(1) by (auto dest: map_of_SomeD)
    then show ?thesis using ok by (auto simp: tables_ok_def extends_def)
  qed (use assms(1) map_of_SomeD [of "ip_tables st" key t] in force)
  moreover have d: "distinct (map fst (ip_tables st'))" using ok by (simp add: assms(2) tables_ok_def distinct_update)
  moreover have "click_Name t0 = k" if "(k, t0) \<in> set (ip_tables st')" for k t0
  proof -
    have "map_of (ip_tables st') k = Some t0" using d that by simp
    then show ?thesis using ok \<open>click_Name t' = key\<close>
      by (auto simp: assms(2) update_conv tables_ok_def dest!: map_of_SomeD split: if_splits)
  qed
  ultimately show "tables_ok (ip_tables st')" by (auto simp: tables_ok_def)
  show "keeps_tables (ip_tables st) (ip_tables st')"
  proof (rule keeps_tablesI)
    show "distinct (map fst (ip_tables st))" using ok by (simp add: tables_ok_def)
    fix k t0
    assume "map_of (ip_tables st) k = Some t0"
    then show "\<exists>t'. map_of (ip_tables st') k = Some t' \<and> extends t0 t'"
      using assms by (cases "k = key") (force simp: update_conv dest: map_of_SomeD)+
  qed
qed

lemma put_table_grows: "map_of (ip_tables st) key = Some t \<Longrightarrow> extends t t' \<Longrightarrow> grows st (put_table key t' st)"
  by (rule update_grows) (auto simp: put_table_def)


lemma FindTable_key: "FindTable tableName tables = Some (key, t) \<Longrightarrow> (key, t) \<in> set tables"
  by (auto simp: FindTable_def find_Some_iff) (metis nth_mem)

lemma FindTable_map_of:
  "distinct (map fst tables) \<Longrightarrow> FindTable tableName tables = Some (key, t) \<Longrightarrow> map_of tables key = Some t"
  by (auto dest: FindTable_key)

lemma matches_star: "table_name_matches p n \<Longrightarrow> table_name_matches (CHR ''*'' # p) n"
  by (cases n) auto

lemma matches_itself: "table_name_matches n n"
  by (induction n) (auto intro: matches_star)

lemma FindTable_fresh: "FindTable n tables = None \<Longrightarrow> n \<notin> fst ` set tables"
  using matches_itself by (fastforce simp: FindTable_def find_None_iff)

section \<open>New columns\<close>

lemma names_update: "fst ` set (AList.update k c cols) = insert k (fst ` set cols)"
  using dom_update [of k c cols] by (simp add: dom_map_of_conv_image_fst)

text \<open>The statement that adds a column.\<close>

definition announces :: "string list \<Rightarrow> click_table \<Rightarrow> string \<Rightarrow> bool" where
  "announces alter t n \<longleftrightarrow>
     list_ex (\<lambda>q. has_prefix q (alter_statement t ('' ADD COLUMN IF NOT EXISTS '' @ [CHR 0x22] @ n @ [CHR 0x22] @ '' ''))) alter"

definition new_announced :: "(string \<times> click_column) list \<Rightarrow> click_table \<Rightarrow> new_columns_state \<Rightarrow> bool" where
  "new_announced cols t st \<longleftrightarrow> fst ` set cols \<subseteq> fst ` set (newColumns st) \<and>
     (\<forall>n \<in> fst ` set (newColumns st) - fst ` set cols. announces (alterCmd st) t n)"

lemma announces_append: "announces (a @ b) t n \<longleftrightarrow> announces a t n \<or> announces b t n"
  by (simp add: announces_def)

lemma announces_same: "click_Name t' = click_Name t \<Longrightarrow> click_Cluster t' = click_Cluster t \<Longrightarrow> announces a t' n = announces a t n"
  by (simp add: announces_def alter_statement_def)

lemma new_column_announced:
  assumes "new_column t r ks ts st i = Some st'" "new_announced cols t st"
  shows "new_announced cols t st'"
proof -
  have "announces [alter_statement t ('' ADD COLUMN IF NOT EXISTS '' @ ([CHR 0x22] @ key @ [CHR 0x22]) @ '' '' @ columnType), c] t key"
    for key columnType c
  proof -
    have "alter_statement t (x @ ([CHR 0x22] @ key @ [CHR 0x22]) @ y @ columnType)
        = alter_statement t (x @ [CHR 0x22] @ key @ [CHR 0x22] @ y) @ columnType" for x y
      by (simp add: alter_statement_def)
    moreover have "has_prefix (p @ q) p" for p q by (simp add: has_prefix_def)
    ultimately show ?thesis by (simp only: announces_def list.pred_inject list_ex_iff list.set insert_iff bex_simps simp_thms)
  qed
  note added = this
  show ?thesis
  proof (cases "st' = st")
    case False
    then obtain key columnType c col where "newColumns st' = AList.update key col (newColumns st)"
      "alterCmd st' = alterCmd st @
         [alter_statement t ('' ADD COLUMN IF NOT EXISTS '' @ ([CHR 0x22] @ key @ [CHR 0x22]) @ '' '' @ columnType), c]"
      using assms(1) unfolding new_column_def Let_def
      by (auto simp del: append_Cons append_Nil append_assoc split: Option.bind_splits if_splits)
    then show ?thesis using assms(2) added
      by (auto simp: new_announced_def announces_append names_update simp del: append_Cons append_Nil append_assoc)
  qed (use assms in simp)
qed

text \<open>A table that got new columns, all of which are announced.\<close>

definition announced :: "string list \<Rightarrow> click_table \<Rightarrow> click_table \<Rightarrow> bool" where
  "announced alter t t' \<longleftrightarrow>
     extends t t' \<and> (\<forall>n \<in> fst ` set (Cols t') - fst ` set (Cols t). announces alter t n)"

lemma announced_refl [simp]: "announced [] t t"
  by (simp add: announced_def)

lemma generateNewColumns_announced:
  assumes "generateNewColumns now m t indexes es ip = Some (alter, m', t', ip')"
  shows "announced alter t t'"
proof -
  have loop: "new_announced (Cols t) t st \<Longrightarrow>
      foldl (\<lambda>st i. do { st \<leftarrow> st; new_column t r ks ts st i }) (Some st) is = Some st' \<Longrightarrow> new_announced (Cols t) t st'"
    for r ks ts st "is" st'
  proof (induction "is" arbitrary: st)
    case (Cons i "is")
    show ?case
    proof (cases "new_column t r ks ts st i")
      case None
      have "foldl (\<lambda>st i. do { st \<leftarrow> st; new_column t r ks ts st i }) None is = None" by (induction "is") auto
      then show ?thesis using Cons.prems(2) None by simp
    next
      case (Some st1)
      then show ?thesis using Cons.IH [of st1] Cons.prems new_column_announced [OF Some Cons.prems(1)] by simp
    qed
  qed simp
  have start: "new_announced (Cols t) t \<lparr>newColumns = Cols t, alterCmd = [], deleteIndexes = []\<rparr>"
    by (simp add: new_announced_def)
  obtain st where st: "new_announced (Cols t) t st" "alter = alterCmd st" "Cols t' = newColumns st"
    "click_Name t' = click_Name t" "click_Cluster t' = click_Cluster t" "click_Config t' = click_Config t"
    "VirtualTable t' = VirtualTable t" "click_Created t' = click_Created t"
    using assms unfolding generateNewColumns_def Let_def
    by (auto simp: storeVirtualTable_def split: Option.bind_splits if_splits prod.splits dest!: loop [OF start])
  then show ?thesis by (simp add: announced_def extends_def new_announced_def)
qed

lemma content_announced:
  assumes "GenerateIngestContent now t d invalid config es ip = Some (con, t', ip')"
  shows "announced (content_alter con) t t'"
  using assms
  by (auto simp: GenerateIngestContent_def Let_def dest!: generateNewColumns_announced
      split: Option.bind_splits if_splits prod.splits)


lemma announced_trans: "announced a t t' \<Longrightarrow> announced b t' t'' \<Longrightarrow> announced (a @ b) t t''"
proof -
  assume a: "announced a t t'" "announced b t' t''"
  then have "extends t t''" using extends_trans by (auto simp: announced_def)
  moreover have "announces (a @ b) t n" if "n \<in> fst ` set (Cols t'')" "n \<notin> fst ` set (Cols t)" for n
    using that a announces_same [of t' t b n]
    by (cases "n \<in> fst ` set (Cols t')") (simp_all add: announced_def announces_append extends_def)
  ultimately show ?thesis by (simp add: announced_def)
qed

section \<open>An insert\<close>

lemma ingest_rows_grows:
  assumes "ingest_rows marshal now key es docs t st = Some (r, st')" "map_of (ip_tables st) key = Some t"
  shows "grows st st' \<and> (\<forall>alter rows. r = Inr (alter, rows) \<longrightarrow>
    (\<exists>t'. map_of (ip_tables st') key = Some t' \<and> announced alter t t'))"
  using assms
proof (induction docs arbitrary: t st st' r)
  case Nil
  then show ?case by auto
next
  case (Cons di docs)
  obtain d invalid where di: "di = (d, invalid)" by fastforce
  from Cons.prems(1) obtain con t1 ip1 row where
    g: "GenerateIngestContent now t d invalid (click_Config t) es (ip_counters st) = Some (con, t1, ip1)"
    and j: "generateInsertJson marshal (content_attributes con) (content_fields con) = Some row"
    unfolding di by (auto simp: Let_def split: Option.bind_splits prod.splits)
  define st1 where "st1 = put_table key t1 (st\<lparr>ip_counters := ip1\<rparr>)"
  have a: "announced (content_alter con) t t1" using content_announced [OF g] .
  have "grows st (st\<lparr>ip_counters := ip1\<rparr>)" by (simp add: grows_same_tables)
  also have "grows \<dots> st1" unfolding st1_def
    by (rule put_table_grows [of _ _ t]) (use Cons.prems(2) a in \<open>simp_all add: announced_def\<close>)
  finally have g1: "grows st st1" .
  show ?case
  proof (cases row)
    case (Inl err)
    then show ?thesis using Cons.prems(1) g j g1 unfolding di st1_def by (auto simp: Let_def)
  next
    case (Inr json)
    then obtain r2 where r2: "ingest_rows marshal now key es docs t1 st1 = Some (r2, st')"
      and r: "r = (case r2 of Inl err \<Rightarrow> Inl err | Inr (alter, rows) \<Rightarrow> Inr (content_alter con @ alter, json # rows))"
      using Cons.prems(1) g j unfolding di st1_def
      by (auto simp: Let_def split: Option.bind_splits sum.splits)
    have "map_of (ip_tables st1) key = Some t1" by (simp add: st1_def put_table_def update_conv)
    note ih = Cons.IH [OF r2 this]
    then have "grows st st'" using grows_trans [OF g1] by blast
    moreover have "\<exists>t'. map_of (ip_tables st') key = Some t' \<and> announced alter t t'" if r': "r = Inr (alter, rows)" for alter rows
    proof -
      obtain alter2 rows2 where "r2 = Inr (alter2, rows2)" "alter = content_alter con @ alter2"
        using r' unfolding r by (auto split: sum.splits)
      then show ?thesis using ih announced_trans [OF a] by blast
    qed
    ultimately show ?thesis by blast
  qed
qed


lemma AddTableIfDoesntExist_grows:
  assumes "AddTableIfDoesntExist cfg now t st = ((fresh, t', added), st')" "distinct (map fst (ip_tables st))"
  shows "grows st st'" "click_Name t' = click_Name t" "fresh \<Longrightarrow> added \<Longrightarrow> click_Name t \<notin> fst ` set (ip_tables st)"
    "added \<Longrightarrow> map_of (ip_tables st') (click_Name t) = Some t'"
proof -
  show "grows st st'"
  proof (cases "FindTable (click_Name t) (ip_tables st)")
    case None
    then obtain t1 where "ip_tables st' = AList.update (click_Name t) t1 (ip_tables st)" "click_Name t1 = click_Name t"
      using assms(1) by (auto simp: AddTableIfDoesntExist_def AddTable_def ApplyIndexConfig_def storeVirtualTable_def Let_def
          split: if_splits prod.splits)
    then show ?thesis using FindTable_fresh [OF None] by (intro update_grows) auto
  next
    case (Some kt)
    obtain key old where kt: "kt = (key, old)" by fastforce
    have "map_of (ip_tables st) key = Some old" using FindTable_map_of [OF assms(2)] Some kt by blast
    then have "grows st (put_table key (old\<lparr>click_Created := True\<rparr>) st)"
      by (rule put_table_grows) (simp add: extends_def)
    then show ?thesis using assms(1) Some kt by (simp add: AddTableIfDoesntExist_def)
  qed
  show "click_Name t' = click_Name t" "fresh \<Longrightarrow> added \<Longrightarrow> click_Name t \<notin> fst ` set (ip_tables st)"
    "added \<Longrightarrow> map_of (ip_tables st') (click_Name t) = Some t'"
    using assms(1) FindTable_fresh [of "click_Name t" "ip_tables st"]
    by (auto simp: AddTableIfDoesntExist_def AddTable_def ApplyIndexConfig_def storeVirtualTable_def update_conv Let_def
        split: if_splits prod.splits option.splits)
qed

lemma our_fields_extends:
  "addOurFieldsToCreateTableQuery q config t = Some (q', t') \<Longrightarrow> extends t t'"
proof -
  have add: "extends t (snd st) \<Longrightarrow> extends t (snd (add_map_column n st))" for n st t
    by (cases st) (auto simp: add_map_column_def our_column_def extends_def names_update)
  have "extends t (snd st) \<Longrightarrow> extends t (snd (foldl (\<lambda>st a. add_map_column (MapMetadataName a) (add_map_column (MapValueName a) st)) st as))"
    for st "as"
    by (induction "as" arbitrary: st) (simp_all add: add)
  moreover have "extends t (snd (add_timestamp config t))"
    by (auto simp: add_timestamp_def our_column_def extends_def names_update)
  ultimately have "extends t (snd (our_fields config t))" by (simp add: our_fields_def)
  then show "addOurFieldsToCreateTableQuery q config t = Some (q', t') \<Longrightarrow> ?thesis"
    by (auto simp: addOurFieldsToCreateTableQuery_def Let_def split: Option.bind_splits if_splits prod.splits)
qed

lemma createTableObjectAndAttributes_grows:
  assumes "createTableObjectAndAttributes cfg now q config name only st = Some (r, st')" "distinct (map fst (ip_tables st))"
  shows "grows st st'"
proof -
  obtain n where n: "NewTable q config = Some n"
    using assms(1) by (auto simp: createTableObjectAndAttributes_def split: Option.bind_splits)
  show ?thesis
  proof (cases n)
    case (Inl err)
    then show ?thesis using assms(1) n by (simp add: createTableObjectAndAttributes_def)
  next
    case (Inr t)
    define t1 where "t1 = (if only
      then t\<lparr>click_Name := name, click_Database := [], click_Comment := ''Definition only. This is not a real table.'', VirtualTable := True\<rparr>
      else t)"
    obtain fresh t2 added st2 where a: "AddTableIfDoesntExist cfg now t1 st = ((fresh, t2, added), st2)"
      by (metis prod.collapse)
    note g = AddTableIfDoesntExist_grows [OF a assms(2)]
    have run: "(if \<not> fresh then Some (Inl (TableAlreadyExists (click_Name t2)), st2)
        else do { (q', t3) \<leftarrow> addOurFieldsToCreateTableQuery q config t2;
                  Some (Inr q', if added then put_table (click_Name t3) t3 st2 else st2) }) = Some (r, st')"
      using assms(1) unfolding createTableObjectAndAttributes_def n Inr bind.bind_lunit sum.case t1_def [symmetric] Let_def a prod.case .
    show ?thesis
    proof (cases "fresh \<and> added")
      case False
      then have "st' = st2" using run by (auto split: Option.bind_splits if_splits)
      then show ?thesis using g(1) by simp
    next
      case True
      then obtain q' t3 where f: "addOurFieldsToCreateTableQuery q config t2 = Some (q', t3)" "st' = put_table (click_Name t3) t3 st2"
        using run by (auto split: Option.bind_splits)
      have e: "extends t2 t3" by (rule our_fields_extends [OF f(1)])
      then have "map_of (ip_tables st2) (click_Name t3) = Some t2" using g(2, 4) True by (simp add: extends_def)
      then show ?thesis using grows_trans [OF g(1) put_table_grows [OF _ e]] f(2) by simp
    qed
  qed
qed


lemma prepare_table_grows:
  assumes "prepare_table cfg now tableName docs only st = Some (r, st')" "distinct (map fst (ip_tables st))"
  shows "grows st st'"
proof (cases "FindTable tableName (ip_tables st)")
  case None
  then have c: "create_statement cfg now tableName docs only st = Some (r, st')"
    using assms(1) by (simp add: prepare_table_def)
  then obtain d ds where "docs = d # ds" by (cases docs) (auto simp: create_statement_def)
  with c obtain registry q where "createTableObjectAndAttributes cfg now q
      (NewOnlySchemaFieldsCHConfig (ingest_cluster cfg)) tableName only (st\<lparr>ip_registry := registry\<rparr>) = Some (r, st')"
    unfolding create_statement_def Let_def by (auto split: Option.bind_splits)
  then have "grows (st\<lparr>ip_registry := registry\<rparr>) st'"
    by (rule createTableObjectAndAttributes_grows) (use assms(2) in simp)
  moreover have "grows st (st\<lparr>ip_registry := registry\<rparr>)" by (simp add: grows_same_tables)
  ultimately show ?thesis using grows_trans by blast
next
  case (Some kt)
  then show ?thesis using assms(1) by (auto simp: prepare_table_def split: if_splits prod.splits)
qed

text \<open>Within an insert the keys of the tables stay distinct.\<close>

lemma grows_ok: "grows st st' \<Longrightarrow> tables_ok (ip_tables st) \<Longrightarrow> tables_ok (ip_tables st')"
  by (simp add: grows_def)

lemma okD: "tables_ok tables \<Longrightarrow> distinct (map fst tables)"
  by (simp add: tables_ok_def)

lemma growsI: "(tables_ok (ip_tables st) \<Longrightarrow> grows st st') \<Longrightarrow> grows st st'"
  by (auto simp: grows_def)

text \<open>The steps of an insert after the documents are prepared.\<close>

lemma insert_steps:
  fixes r :: "'e ingest_error + string list"
  assumes "processInsertQuery marshal cfg now tableName ds transformer only st = Some (r, st')" "tables_ok (ip_tables st)"
  obtains (early) "grows st st'" "\<exists>e. r = Inl e"
    | (rows) create st1 key t es docs r1 where "grows st st1" "FindTable tableName (ip_tables st) \<noteq> None \<Longrightarrow> ip_tables st1 = ip_tables st" "FindTable tableName (ip_tables st1) = Some (key, t)"
      "map_of (ip_tables st1) key = Some t" "ingest_rows marshal now key es docs t st1 = Some (r1, st')"
      "r = map_sum id (\<lambda>(alter, rows). generateSqlStatements create alter (insert_statement (click_Name t) rows)) r1"
proof (cases "rewrite_documents ds")
  case (Inl i)
  then show ?thesis using assms(1) by (intro early) (auto simp: processInsertQuery_def)
next
  case (Inr rs)
  then obtain es ts where es: "populateFieldEncodings rs tableName = Some es" "opt_mapM transformFieldName rs = Some ts"
    using assms(1) by (auto simp: processInsertQuery_def split: Option.bind_splits)
  define st0 where "st0 = st\<lparr>ip_registry := UpdateFieldEncodings es (ip_registry st)\<rparr>"
  obtain prepared :: "'e ingest_error + string" and st1 where p: "prepare_table cfg now tableName (map (apply_transformer transformer) ts) only st0 = Some (prepared, st1)"
    using assms(1) Inr es by (auto simp: processInsertQuery_def st0_def Let_def split: Option.bind_split_asm)
  note run = assms(1) [unfolded processInsertQuery_def Inr sum.case es bind.bind_lunit Let_def st0_def [symmetric] p prod.case]
  have ok0: "distinct (map fst (ip_tables st0))" using okD [OF assms(2)] by (simp add: st0_def)
  have "grows st st0" by (simp add: st0_def grows_same_tables)
  also have "grows \<dots> st1" using prepare_table_grows [OF p ok0] .
  finally have g: "grows st st1" .
  have same: "FindTable tableName (ip_tables st) \<noteq> None \<Longrightarrow> ip_tables st1 = ip_tables st"
    using p by (auto simp: st0_def prepare_table_def split: option.splits if_splits)
  show ?thesis
  proof (cases "\<exists>create key t checked. prepared = Inr create \<and> FindTable tableName (ip_tables st1) = Some (key, t) \<and>
      preprocessJsons (click_Name t) (map (apply_transformer transformer) ts) (ip_tables st1) = Some (Inr checked)")
    case False
    then have "st' = st1 \<and> (\<exists>e. r = Inl e)" using run
      by (auto split: sum.splits option.splits prod.splits Option.bind_splits)
    then show ?thesis using early g by blast
  next
    case True
    then obtain create key t checked where c: "prepared = Inr create" "FindTable tableName (ip_tables st1) = Some (key, t)"
      "preprocessJsons (click_Name t) (map (apply_transformer transformer) ts) (ip_tables st1) = Some (Inr checked)" by blast
    obtain r1 where r1: "ingest_rows marshal now key es checked t st1 = Some (r1, st')"
      "r = map_sum id (\<lambda>(alter, rows). generateSqlStatements create alter (insert_statement (click_Name t) rows)) r1"
    proof -
      obtain r1 where "ingest_rows marshal now key es checked t st1 = Some (r1, st')" "r = (case r1 of Inl err \<Rightarrow> Inl err
          | Inr (alter, rows) \<Rightarrow> Inr (generateSqlStatements create alter (insert_statement (click_Name t) rows)))"
        using run by (auto simp: c split: Option.bind_split_asm sum.splits)
      then show thesis using that by (cases r1) auto
    qed
    show ?thesis by (rule rows [OF g same c(2) FindTable_map_of [OF okD [OF grows_ok [OF g assms(2)]] c(2)] r1])
  qed
qed

lemma processInsertQuery_grows:
  assumes "processInsertQuery marshal cfg now tableName ds transformer only st = Some (r, st')"
  shows "grows st st'"
proof (rule growsI)
  assume ok: "tables_ok (ip_tables st)"
  show ?thesis using assms ok
  proof (cases rule: insert_steps)
    case (rows create st1 key t es docs r1)
    then show ?thesis using ingest_rows_grows grows_trans by blast
  qed simp
qed


lemma insert_internal_grows:
  assumes "processInsertQueryInternal exec marshal cfg now tableName ds transformer only w = Some (r, w')"
  shows "grows (fst w) (fst w')"
  using assms processInsertQuery_grows
  by (cases w) (fastforce simp: processInsertQueryInternal_def Let_def split: Option.bind_splits sum.splits if_splits prod.splits)

lemma insert_all_grows:
  "insert_all exec marshal cfg now tableName transformer decisions ds w = Some (r, w') \<Longrightarrow> grows (fst w) (fst w')"
proof (induction exec marshal cfg now tableName transformer decisions ds w arbitrary: r w' rule: insert_all.induct)
  case (3 exec marshal cfg now tableName transformer d decisions ds w)
  show ?case
  proof (cases "IsCommonTable d")
    case True
    let ?p = "common_pipeline tableName transformer"
    obtain r1 w1 r2 w2 where w1: "processInsertQueryInternal exec marshal cfg now tableName ds transformer True w = Some (r1, w1)"
      and w2: "processInsertQueryInternal exec marshal cfg now CommonTable ds ?p False w1 = Some (r2, w2)"
      using "3.prems" True by (auto simp: Let_def split: Option.bind_splits)
    have g: "grows (fst w) (fst w2)"
      using grows_trans [OF insert_internal_grows [OF w1] insert_internal_grows [OF w2]] .
    show ?thesis
    proof (cases r2)
      case None
      then obtain docs where "documents_after ?p ds = Some docs"
        "insert_all exec marshal cfg now tableName transformer decisions docs w2 = Some (r, w')"
        using "3.prems" True w1 w2 by (auto simp: Let_def split: Option.bind_splits)
      then show ?thesis
        using "3.IH"(1) [OF True w1 refl refl w2 refl None] grows_trans [OF g] by blast
    qed (use "3.prems" True w1 w2 g in \<open>auto simp: Let_def\<close>)
  next
    case False
    obtain r1 w1 where w1: "processInsertQueryInternal exec marshal cfg now (ClickhouseTableName d) ds transformer False w = Some (r1, w1)"
      using "3.prems" False by (auto split: Option.bind_splits)
    note g = insert_internal_grows [OF w1]
    show ?thesis
    proof (cases r1)
      case None
      then obtain docs where "documents_after transformer ds = Some docs"
        "insert_all exec marshal cfg now tableName transformer decisions docs w1 = Some (r, w')"
        using "3.prems" False w1 by (auto split: Option.bind_splits)
      then show ?thesis using "3.IH"(2) [OF False w1 refl None] grows_trans [OF g] by blast
    qed (use "3.prems" False w1 g in auto)
  qed
qed auto

text \<open>
  C2: An ingest, whatever comes of it, keeps the definitions of the tables sound: each table stays
  there once, under its name, and what was known of it is kept.  No table disappears, none loses a column,
  its cluster or its configuration, and one that was created stays so.
\<close>

theorem ingest_keeps_tables:
  assumes "Ingest exec marshal cfg now decision indexName ds (st, db) = Some (r, (st', db'))" "tables_ok (ip_tables st)"
  shows "tables_ok (ip_tables st') \<and> keeps_tables (ip_tables st) (ip_tables st')"
proof -
  have "grows (fst (st, db)) (fst (st', db'))"
    using assms(1) grows_refl [of st] unfolding Ingest_def ProcessInsertQuery_def
    by (auto split: option.splits if_splits dest: insert_all_grows)
  then show ?thesis using assms(2) by (simp add: grows_def)
qed

definition keep_statements :: "string list executor" where
  "keep_statements settings q db = (None, db @ [q])"

definition common_decision :: decision where
  "common_decision =
     \<lparr>IndexPattern = ''logs'', IsClosed = False, Err = None, IsEmpty = False, EnableABTesting = False,
      UseConnectors = [ConnectorDecisionClickhouse \<lparr>ClickhouseTableName = ''logs'', ClickhouseIndexes = [''logs''], IsCommonTable = True\<rparr>],
      Reason = [], ResolverName = []\<rparr>"

lemma common_ingest:
  "(case Ingest keep_statements marshal_keys common_config ''now'' common_decision ''logs'' common_documents (common_state, []) of
     Some (r, (st, db)) \<Rightarrow> Option.is_none r \<and> length (ip_tables st) = 2 \<and> length db = 3 | None \<Rightarrow> False)"
  by code_simp

lemma common_state_ok: "tables_ok (ip_tables common_state)"
  by code_simp

theorem ingest_keeps_tables_witness:
  "\<exists>r st' db'. Ingest keep_statements marshal_keys common_config ''now'' common_decision ''logs'' common_documents (common_state, [])
      = Some (r, (st', db')) \<and> tables_ok (ip_tables st') \<and> keeps_tables (ip_tables common_state) (ip_tables st')"
proof -
  obtain r st' db' where i: "Ingest keep_statements marshal_keys common_config ''now'' common_decision ''logs'' common_documents (common_state, [])
      = Some (r, (st', db'))"
    using common_ingest by (auto split: option.splits prod.splits)
  show ?thesis using ingest_keeps_tables [OF i common_state_ok] i by blast
qed

text \<open>
  C36: The statements of an insert bring the table of the database to what the gateway knows of it:
  for every column that an insert added to the definition of a table there is, among its statements,
  one that adds that column to the table.
\<close>

theorem new_columns_are_announced:
  assumes "processInsertQuery marshal cfg now tableName ds transformer only st = Some (Inr statements, st')"
    and "tables_ok (ip_tables st)" "FindTable tableName (ip_tables st) = Some (key, t)"
  shows "\<exists>t'. map_of (ip_tables st') key = Some t' \<and> (\<forall>n \<in> fst ` set (Cols t') - fst ` set (Cols t).
    \<exists>q \<in> set statements. has_prefix q (alter_statement t ('' ADD COLUMN IF NOT EXISTS '' @ [CHR 0x22] @ n @ [CHR 0x22] @ '' '')))"
  using assms(1, 2)
proof (cases rule: insert_steps)
  case (rows create st1 key1 t1 es docs r1)
  have "ip_tables st1 = ip_tables st" using rows(2) assms(3) by simp
  then have t1: "key1 = key" "t1 = t" using rows(3) assms(3) by simp_all
  obtain alter inserted where r1: "r1 = Inr (alter, inserted)" "statements = generateSqlStatements create alter (insert_statement (click_Name t1) inserted)"
    using rows(6) by (cases r1) auto
  obtain t' where t': "map_of (ip_tables st') key = Some t'" "announced alter t t'"
    using ingest_rows_grows [OF rows(5, 4)] r1(1) t1 by blast
  moreover have "set alter \<subseteq> set statements" by (auto simp: r1(2) generateSqlStatements_def)
  moreover have "\<forall>n \<in> fst ` set (Cols t') - fst ` set (Cols t). announces alter t n" using t'(2) by (simp add: announced_def)
  ultimately show ?thesis unfolding announces_def list_ex_iff by (intro exI [of _ t'] conjI) (assumption, blast)
qed simp


theorem new_columns_are_announced_witness:
  "\<exists>statements st' t'. processInsertQuery marshal_keys common_config ''now'' CommonTable common_documents
      (common_transformer ''logs'' (ingest_indexes common_config)) False common_state = Some (Inr statements, st') \<and>
    map_of (ip_tables st') CommonTable = Some t' \<and> (\<forall>n \<in> fst ` set (Cols t') - fst ` set (Cols a_common_table).
    \<exists>q \<in> set statements. has_prefix q (alter_statement a_common_table ('' ADD COLUMN IF NOT EXISTS '' @ [CHR 0x22] @ n @ [CHR 0x22] @ '' '')))"
proof -
  obtain statements st' where insert: "processInsertQuery marshal_keys common_config ''now'' CommonTable common_documents
      (common_transformer ''logs'' (ingest_indexes common_config)) False common_state = Some (Inr statements, st')"
    using common_insert by (auto split: option.splits sum.splits prod.splits)
  moreover have "FindTable CommonTable (ip_tables common_state) = Some (CommonTable, a_common_table)" by code_simp
  ultimately show ?thesis using new_columns_are_announced [OF insert common_state_ok] by blast
qed

text \<open>The definition keeps a new column when the statement that adds it to the table fails.\<close>

lemma failed_columns_stay:
  "(case Ingest (\<lambda>settings q db. (Some ''failed'', db)) marshal_keys common_config ''now'' common_decision ''logs''
        common_documents (common_state, [] :: string list) of
     Some (r, (st, db)) \<Rightarrow> \<not> Option.is_none r \<and> db = [] \<and>
       (case map_of (ip_tables st) CommonTable of Some t \<Rightarrow> ''user_name'' \<in> fst ` set (Cols t) | None \<Rightarrow> False)
   | None \<Rightarrow> False)"
  by code_simp

end
