(* ===== verification/Ip_Addresses.thy ===== *)
theory Ip_Addresses
  imports Prelude "HOL-Library.Word"
begin

unbundle bit_operations_syntax

text \<open>
  Addresses in aggregations: \<open>ip_prefix.go\<close> and \<open>ip_range.go\<close> of
  \<open>quesma/model/bucket_aggregations\<close> and \<open>quesma/util/ip.go\<close>, with what they use of the package \<open>netip\<close>:
  reading an address and printing one of 128 bits.
\<close>

section \<open>Reading\<close>

definition octet :: "string \<Rightarrow> nat option" where
  "octet s =
     (if s = [] \<or> \<not> list_all (\<lambda>c. c \<in> set ''0123456789'') s then None
      else let n = foldl (\<lambda>n c. 10 * n + (of_char c - 48)) 0 s
           in if length s > 1 \<and> hd s = CHR ''0'' \<or> n > 255 then None else Some n)"

definition parse_ipv4 :: "string \<Rightarrow> nat list option" where
  "parse_ipv4 s = (let parts = split_on (CHR ''.'') s in if length parts = 4 then opt_mapM octet parts else None)"

definition hex_value :: "char \<Rightarrow> nat option" where
  "hex_value c =
     (if c \<in> set ''0123456789'' then Some (of_char c - 48)
      else if c \<in> set ''abcdef'' then Some (of_char c - 87)
      else if c \<in> set ''ABCDEF'' then Some (of_char c - 55)
      else None)"

definition hex_group :: "string \<Rightarrow> nat list" where
  "hex_group h =
     (let n = foldl (\<lambda>n c. 16 * n + the (hex_value c)) 0 h in [n div 256, n mod 256])"

text \<open>
  One group of an address of 128 bits, from the bytes read so far and the place of the double
  colon: the end of the loop on the left, what to go on with on the right.
\<close>

definition ipv6_step ::
  "nat list \<Rightarrow> nat option \<Rightarrow> string
     \<Rightarrow> (nat list \<times> nat option) option + nat list \<times> nat option \<times> string" where
  "ipv6_step bs ellipsis s =
     (if length bs \<ge> 16 then Inl (if s = [] then Some (bs, ellipsis) else None)
      else let h = takeWhile (\<lambda>c. hex_value c \<noteq> None) s
           in if h = [] \<or> length h > 4 then Inl None
              else case drop (length h) s of
                     [] \<Rightarrow> Inl (Some (bs @ hex_group h, ellipsis))
                   | c # s1 \<Rightarrow>
                       if c = CHR ''.''
                       then Inl (if ellipsis = None \<and> length bs \<noteq> 12 \<or> length bs + 4 > 16 then None
                                 else map_option (\<lambda>q. (bs @ q, ellipsis)) (parse_ipv4 s))
                       else if c \<noteq> CHR '':'' then Inl None
                       else case s1 of
                              [] \<Rightarrow> Inl None
                            | d # s2 \<Rightarrow>
                                if d \<noteq> CHR '':'' then Inr (bs @ hex_group h, ellipsis, s1)
                                else if ellipsis \<noteq> None then Inl None
                                else if s2 = [] then Inl (Some (bs @ hex_group h, Some (length bs + 2)))
                                else Inr (bs @ hex_group h, Some (length bs + 2), s2))"

lemma drop_shorter: "drop n s = c # t \<Longrightarrow> length t < length s"
  by (drule arg_cong [where f = length]) simp

lemma ipv6_step_shorter:
  assumes "ipv6_step bs ellipsis s = Inr (bs', ellipsis', s')"
  shows "length s' < length s"
  using assms by (auto simp: ipv6_step_def Let_def split: list.splits if_splits dest!: drop_shorter)

function ipv6_loop :: "nat list \<Rightarrow> nat option \<Rightarrow> string \<Rightarrow> (nat list \<times> nat option) option" where
  "ipv6_loop bs ellipsis s =
     (case ipv6_step bs ellipsis s of
        Inl r \<Rightarrow> r
      | Inr (bs', ellipsis', s') \<Rightarrow> ipv6_loop bs' ellipsis' s')"
  by pat_completeness auto
termination
  by (relation "measure (\<lambda>(bs, e, s). length s)") (auto dest: ipv6_step_shorter)

declare ipv6_loop.simps [simp del]

text \<open>The address without its zone, and the zone.\<close>

definition split_zone :: "string \<Rightarrow> (string \<times> string) option" where
  "split_zone s =
     (let a = takeWhile (\<lambda>c. c \<noteq> CHR ''%'') s
      in if a = s then Some (s, [])
         else let z = drop (length a + 1) s in if z = [] then None else Some (a, z))"

definition parse_ipv6 :: "string \<Rightarrow> (nat list \<times> string) option" where
  "parse_ipv6 input =
     do { (s, z) \<leftarrow> split_zone input;
          let leading = has_prefix s ''::'';
          let s = (if leading then drop 2 s else s);
          if leading \<and> s = [] then Some (replicate 16 0, z)
          else do { (bs, ellipsis) \<leftarrow> ipv6_loop [] (if leading then Some 0 else None) s;
                    if length bs < 16
                    then (case ellipsis of
                            None \<Rightarrow> None
                          | Some k \<Rightarrow> Some (take k bs @ replicate (16 - length bs) 0 @ drop k bs, z))
                    else if ellipsis \<noteq> None then None else Some (bs, z) } }"

text \<open>The first of a dot, a colon and a percent sign decides; \<open>None\<close> is an error.\<close>

datatype ip_addr = Addr4 "nat list" | Addr6 "nat list" string

definition ParseAddr :: "string \<Rightarrow> ip_addr option" where
  "ParseAddr s =
     (case dropWhile (\<lambda>c. c \<notin> set ''.:%'') s of
        [] \<Rightarrow> None
      | c # _ \<Rightarrow>
          if c = CHR ''.'' then map_option Addr4 (parse_ipv4 s)
          else if c = CHR '':'' then map_option (\<lambda>(bs, z). Addr6 bs z) (parse_ipv6 s)
          else None)"

section \<open>Printing\<close>

definition hex_char :: "nat \<Rightarrow> char" where
  "hex_char n = (if n < 10 then char_of (48 + n) else char_of (87 + n))"

function hex_text :: "nat \<Rightarrow> string" where
  "hex_text n = (if n < 16 then [hex_char n] else hex_text (n div 16) @ [hex_char (n mod 16)])"
  by pat_completeness auto
termination by (relation "measure id") auto

definition dotted :: "nat list \<Rightarrow> string" where
  "dotted bs = join ''.'' (map (\<lambda>b. itoa (int b)) bs)"

fun groups_of :: "nat list \<Rightarrow> nat list" where
  "groups_of (a # b # bs) = (256 * a + b) # groups_of bs"
| "groups_of _ = []"

text \<open>The first of the longest runs of zero groups, of two at least: where it begins and ends.\<close>

definition zero_run :: "nat list \<Rightarrow> (nat \<times> nat) option" where
  "zero_run gs =
     foldl (\<lambda>best i.
        let j = i + length (takeWhile (\<lambda>g. g = 0) (drop i gs))
        in if j - i \<ge> 2 \<and> (case best of None \<Rightarrow> True | Some (a, b) \<Rightarrow> j - i > b - a) then Some (i, j) else best)
       None [0..<length gs]"

definition string6 :: "nat list \<Rightarrow> string" where
  "string6 bs =
     (let gs = groups_of bs
      in case zero_run gs of
           None \<Rightarrow> join '':'' (map hex_text gs)
         | Some (a, b) \<Rightarrow> join '':'' (map hex_text (take a gs)) @ ''::'' @ join '':'' (map hex_text (drop b gs)))"

definition addr_string :: "nat list \<Rightarrow> string" where
  "addr_string bs =
     (if take 12 bs = replicate 10 0 @ [255, 255] then ''::ffff:'' @ dotted (drop 12 bs) else string6 bs)"

text \<open>The bytes of a number, without leading zeros; more than 16 do not fit.\<close>

function bytes_of :: "nat \<Rightarrow> nat list" where
  "bytes_of n = (if n = 0 then [] else bytes_of (n div 256) @ [n mod 256])"
  by pat_completeness auto
termination by (relation "measure id") auto

definition BigIntToIpv6 :: "int \<Rightarrow> string option" where
  "BigIntToIpv6 ip =
     (let bs = bytes_of (nat \<bar>ip\<bar>)
      in if length bs > 16 then None else Some (addr_string (replicate (16 - length bs) 0 @ bs)))"

section \<open>Prefixes\<close>

text \<open>The key of a group of addresses is the number of their first bits.\<close>

definition divideByToGroupByIpv4 :: "int \<Rightarrow> 32 word" where
  "divideByToGroupByIpv4 n = push_bit (nat (32 - n)) 1"

definition calcKeyIPv4 :: "int \<Rightarrow> 32 word \<Rightarrow> string" where
  "calcKeyIPv4 n originalKey =
     (if n = 0 then ''0.0.0.0''
      else let ip = originalKey * divideByToGroupByIpv4 n;
               part4 = ip mod 256;
               ip = ip div 256;
               part3 = ip mod 256;
               ip = ip div 256;
               part2 = ip mod 256;
               ip = ip div 256;
               part1 = ip mod 256
           in dotted [unat part1, unat part2, unat part3, unat part4])"

definition calcKeyIPv6 :: "int \<Rightarrow> int \<Rightarrow> string option" where
  "calcKeyIPv6 n originalKey = BigIntToIpv6 (originalKey * 2 ^ nat (128 - n))"

definition calcNetMask :: "int \<Rightarrow> string" where
  "calcNetMask n = (if n = 0 then ''0.0.0.0'' else calcKeyIPv4 n (push_bit (nat n) 1 - 1))"

definition IntToIpv4 :: "32 word \<Rightarrow> string" where
  "IntToIpv4 ip =
     dotted (map unat [drop_bit 24 ip, drop_bit 16 ip AND 255, drop_bit 8 ip AND 255, ip AND 255])"

section \<open>Groups are networks\<close>

lemma octets_of_word:
  fixes w :: "32 word"
  shows "IntToIpv4 w = dotted (map unat [w div 256 div 256 div 256 mod 256, w div 256 div 256 mod 256, w div 256 mod 256, w mod 256])"
proof -
  have div: "v div 256 = drop_bit 8 v" and mod: "v mod 256 = take_bit 8 v" for v :: "32 word"
    by (simp_all add: drop_bit_eq_div take_bit_eq_mod)
  have and_255: "v AND 255 = take_bit 8 v" for v :: "32 word"
    using take_bit_eq_mask [of 8 v] by (simp add: mask_eq_exp_minus_1)
  have top: "take_bit 8 (drop_bit 24 w) = drop_bit 24 w"
    by (rule bit_word_eqI) (auto simp: bit_simps dest: bit_imp_le_length)
  show ?thesis
    by (simp add: IntToIpv4_def div mod and_255 top)
qed

lemma calcKeyIPv4_word: "n \<noteq> 0 \<Longrightarrow> calcKeyIPv4 n key = IntToIpv4 (key * divideByToGroupByIpv4 n)"
  by (simp add: calcKeyIPv4_def Let_def octets_of_word)

text \<open>The mask of the first \<open>n\<close> bits.\<close>

definition network_mask :: "int \<Rightarrow> 32 word" where
  "network_mask n = NOT (mask (nat (32 - n)))"

lemma divide_power: "divideByToGroupByIpv4 n = 2 ^ nat (32 - n)"
  by (simp add: divideByToGroupByIpv4_def push_bit_eq_mult)

lemma group_key_shift:
  fixes ip :: "32 word"
  assumes "1 \<le> n" 
  shows "ip div divideByToGroupByIpv4 n * divideByToGroupByIpv4 n = ip AND network_mask n"
proof -
  have "ip div 2 ^ k * 2 ^ k = push_bit k (drop_bit k ip)" for k
    by (simp add: drop_bit_eq_div push_bit_eq_mult)
  moreover have "push_bit k (drop_bit k ip) = ip AND NOT (mask k)" for k
    by (rule bit_word_eqI) (auto simp: bit_simps)
  ultimately show ?thesis by (simp add: divide_power network_mask_def)
qed

lemma mask_key_shift:
  assumes "1 \<le> n" "n \<le> 32"
  shows "(push_bit (nat n) 1 - 1) * divideByToGroupByIpv4 n = network_mask n"
proof -
  have "(push_bit (nat n) 1 - 1 :: 32 word) = mask (nat n)"
    by (simp add: mask_eq_exp_minus_1 push_bit_eq_mult)
  then have "(push_bit (nat n) 1 - 1) * divideByToGroupByIpv4 n = push_bit (nat (32 - n)) (mask (nat n) :: 32 word)"
    by (simp add: divide_power push_bit_eq_mult)
  also have "\<dots> = network_mask n"
    using assms by (intro bit_word_eqI) (auto simp: bit_simps network_mask_def)
  finally show ?thesis .
qed

text \<open>
  C40: An address whose number is divided by the divisor of its prefix length in the query, and whose key
  is multiplied back in the response, is shown as its network: the first bits of the address, then
  zeros.  The netmask of the response is the mask of these bits.
\<close>

theorem ipv4_group_key_is_its_network:
  assumes "1 \<le> n" "n \<le> 32"
  shows "calcKeyIPv4 n (ip div divideByToGroupByIpv4 n) = IntToIpv4 (ip AND network_mask n)
     \<and> calcNetMask n = IntToIpv4 (network_mask n)"
  unfolding calcNetMask_def using assms
  by (simp add: calcKeyIPv4_word group_key_shift mask_key_shift [OF assms] del: push_bit_of_1)

theorem ipv4_group_key_is_its_network_witness: "calcKeyIPv4 12 (0xC0A80143 div divideByToGroupByIpv4 12) = ''192.160.0.0'' \<and> calcNetMask 12 = ''255.240.0.0''"
proof -
  have "IntToIpv4 (0xC0A80143 AND network_mask 12) = ''192.160.0.0''" and "IntToIpv4 (network_mask 12) = ''255.240.0.0''"
    by code_simp+
  with ipv4_group_key_is_its_network [where n = 12 and ip = "0xC0A80143"] show ?thesis by simp
qed

end
