(* ===== verification/Agg_Model.thy ===== *)
theory Agg_Model
  imports Click_Types Ip_Addresses "HOL-Library.AList"
begin

text \<open>
  Aggregations between the request and the response: rows of a result, the kinds of aggregations
  (\<open>quesma/model/bucket_aggregations\<close>, \<open>metrics_aggregations\<close> and \<open>pipeline_aggregations\<close>), the tree of
  a request (\<open>pancake_aggregation_tree.go\<close>) and its layers (\<open>pancake_model.go\<close>).

  An aggregation of the request is a node of a tree; a pancake is a path of bucket aggregations of
  that tree, one per layer, with the metrics and pipelines beside them.
\<close>

section \<open>Errors\<close>

text \<open>An early return on an error, the left of a sum.\<close>

fun and_then :: "'e + 'a \<Rightarrow> ('a \<Rightarrow> 'e + 'b) \<Rightarrow> 'e + 'b" where
  "and_then (Inl e) f = Inl e"
| "and_then (Inr x) f = f x"

lemma and_then_Inr: "and_then r f = Inr y \<longleftrightarrow> (\<exists>x. r = Inr x \<and> f x = Inr y)"
  by (cases r) auto

lemma and_then_cong [fundef_cong]:
  "r = r' \<Longrightarrow> (\<And>x. r' = Inr x \<Longrightarrow> f x = g x) \<Longrightarrow> and_then r f = and_then r' g"
  by (cases r') auto

section \<open>Values and rows\<close>

text \<open>
  What a column of a result or a field of a response holds.  \<open>DPtr a v\<close> is a pointer to \<open>v\<close> at the
  address \<open>a\<close>, \<open>DMap\<close> is a \<open>JsonMap\<close> and \<open>DMaps\<close> a \<open>[]JsonMap\<close>.
\<close>

datatype db_value =
    DNil
  | DString string
  | DInt int_kind int
  | DFloat float64
  | DBool bool
  | DTime gotime
  | DBigInt int
  | DArray "db_value list"
  | DMap "(string \<times> db_value) list"
  | DMaps "(string \<times> db_value) list list"
  | DPtr nat db_value
  | DNilPtr

type_synonym json_response = "(string \<times> db_value) list"

record result_col =
  ColName :: string
  col_Value :: db_value

record result_row =
  row_Index :: string
  row_Cols :: "result_col list"

definition NewQueryResultCol :: "string \<Rightarrow> db_value \<Rightarrow> result_col" where
  "NewQueryResultCol n v = \<lparr>ColName = n, col_Value = v\<rparr>"

text \<open>Only a pointer is followed, and a nil pointer is nil.\<close>

definition ExtractValue :: "result_col \<Rightarrow> db_value" where
  "ExtractValue c = (case col_Value c of DPtr a v \<Rightarrow> v | DNilPtr \<Rightarrow> DNil | v \<Rightarrow> v)"

definition float_zero :: "float64 \<Rightarrow> bool" where
  "float_zero f = (case f of Finite neg m e \<Rightarrow> m = 0 | _ \<Rightarrow> False)"

definition float_equal :: "float64 \<Rightarrow> float64 \<Rightarrow> bool" where
  "float_equal f g \<longleftrightarrow> f \<noteq> NaN \<and> f = g \<or> float_zero f \<and> float_zero g"

text \<open>
  The operator \<open>==\<close> on values of type \<open>any\<close>: values of different types differ, and the comparison of
  two slices, maps or structs with slices panics.
\<close>

fun go_equal :: "db_value \<Rightarrow> db_value \<Rightarrow> bool option" where
  "go_equal (DFloat f) (DFloat g) = Some (float_equal f g)"
| "go_equal (DPtr a v) (DPtr b w) = Some (a = b)"
| "go_equal (DBigInt i) (DBigInt j) = None"
| "go_equal (DArray xs) (DArray ys) = None"
| "go_equal (DMap m) (DMap m') = None"
| "go_equal (DMaps ms) (DMaps ms') = None"
| "go_equal v w = Some (v = w)"

definition last_value :: "result_row \<Rightarrow> db_value option" where
  "last_value row = (if row_Cols row = [] then None else Some (col_Value (last (row_Cols row))))"

text \<open>The value of the \<open>n\<close>-th column from the end, the last being the first.\<close>

definition value_from_end :: "nat \<Rightarrow> result_row \<Rightarrow> db_value option" where
  "value_from_end n row =
     (if n \<le> length (row_Cols row) \<and> n > 0 then Some (col_Value (row_Cols row ! (length (row_Cols row) - n))) else None)"

text \<open>\<open>ExtractInt64Maybe\<close> and \<open>ExtractFloat64Maybe\<close>; a nil pointer panics, which is left out.\<close>

fun extract_int64 :: "db_value \<Rightarrow> int option" where
  "extract_int64 (DInt k n) = Some (wrap64 n)"
| "extract_int64 (DPtr a (DInt k n)) = Some (wrap64 n)"
| "extract_int64 v = None"

fun extract_float64 :: "db_value \<Rightarrow> float64 option" where
  "extract_float64 (DFloat f) = Some f"
| "extract_float64 (DPtr a (DFloat f)) = Some f"
| "extract_float64 v = None"

section \<open>Kinds of aggregations\<close>

record date_histogram =
  dh_field :: expr
  dh_interval :: string
  dh_timezone :: string
  extendedBoundsMin :: int
  extendedBoundsMax :: int
  dh_minDocCount :: int
  is_fixed_interval :: bool
  fieldDateTimeType :: date_time_type

datatype ip_interval = IpInterval (ip_begin: string) (ip_end: string) (ip_key: "string option")

record ip_prefix =
  ip_field :: expr
  prefixLength :: int
  isIpv6 :: bool
  appendPrefixLength :: bool
  ip_keyed :: bool
  ip_minDocCount :: int

datatype bucket_type =
    Terms bool "json option" "json option"
  | MultiTerms nat
  | Histogram float64 int
  | DateHistogram date_histogram
  | AutoDateHistogram column_ref int int
  | GeoTileGrid
  | Composite int "(string \<times> bucket_type) list"
  | Filters "(string \<times> simple_query) list"
  | FilterAgg expr
  | RangeAgg expr "(float64 \<times> float64) list" bool
  | DateRange expr string "(string \<times> string) list" int
  | IpRange expr "ip_interval list" bool
  | IpPrefix ip_prefix
  | Sampler int
  | RandomSampler float64 int

datatype metric_type =
    SumAgg date_time_type
  | MinAgg date_time_type
  | MaxAgg date_time_type
  | AvgAgg date_time_type
  | Stats
  | ExtendedStats float64
  | Cardinality
  | ValueCount
  | Quantile "string list" bool date_time_type
  | PercentileRanks "string list" bool
  | GeoCentroid
  | TopMetrics int string order_by_direction
  | TopHits int "order_by_expr list"
  | TotalCount

datatype pipeline_kind =
    AverageBucket
  | MinBucket
  | MaxBucket
  | SumBucket
  | CumulativeSum
  | Derivative
  | SerialDiff int
  | BucketScript string

record pipeline_type =
  pipeline_kind :: pipeline_kind
  Parent :: string
  PathToParent :: "string list"
  parentBucketAggregation :: "bucket_type option"
  isCount :: bool

datatype query_type = BucketQT bucket_type | MetricQT metric_type | PipelineQT pipeline_type

datatype aggregation_type =
    BucketAggregation
  | MetricsAggregation
  | PipelineMetricsAggregation
  | PipelineBucketAggregation
  | TypicalAggregation
  | UnknownAggregation

definition pipeline_AggregationType :: "pipeline_kind \<Rightarrow> aggregation_type" where
  "pipeline_AggregationType k =
     (case k of
        CumulativeSum \<Rightarrow> PipelineBucketAggregation
      | Derivative \<Rightarrow> PipelineBucketAggregation
      | SerialDiff lag \<Rightarrow> PipelineBucketAggregation
      | _ \<Rightarrow> PipelineMetricsAggregation)"

definition is_parent_pipeline :: "pipeline_kind \<Rightarrow> bool" where
  "is_parent_pipeline k =
     (case k of CumulativeSum \<Rightarrow> True | Derivative \<Rightarrow> True | SerialDiff lag \<Rightarrow> True | BucketScript s \<Rightarrow> True | _ \<Rightarrow> False)"

definition AggregationType :: "query_type \<Rightarrow> aggregation_type" where
  "AggregationType q =
     (case q of
        BucketQT b \<Rightarrow> BucketAggregation
      | MetricQT TotalCount \<Rightarrow> TypicalAggregation
      | MetricQT m \<Rightarrow> MetricsAggregation
      | PipelineQT p \<Rightarrow> pipeline_AggregationType (pipeline_kind p))"

section \<open>The tree of a request\<close>

record node_info =
  node_name :: string
  node_queryType :: "query_type option"
  node_selectedColumns :: "expr list"
  node_orderBy :: "order_by_expr list"
  node_limit :: int
  node_isKeyed :: bool
  filterOutEmptyKeyBucket :: bool
  node_metadata :: "json option"

text \<open>A child may be a nil pointer.\<close>

datatype agg_node = AggNode (node_of: node_info) (node_children: "agg_node option list")

record agg_tree =
  tree_children :: "agg_node option list"
  tree_whereClause :: expr

section \<open>Layers\<close>

record metric_aggregation =
  metric_name :: string
  metric_internalName :: string
  metric_queryType :: query_type
  metric_selectedColumns :: "expr list"
  metric_metadata :: "json option"

record bucket_aggregation =
  bucket_name :: string
  bucket_internalName :: string
  bucket_queryType :: bucket_type
  bucket_selectedColumns :: "expr list"
  bucket_orderBy :: "order_by_expr list"
  bucket_limit :: int
  bucket_isKeyed :: bool
  bucket_metadata :: "json option"
  filterOurEmptyKeyBucket :: bool

record pipeline_aggregation =
  pipeline_name :: string
  pipeline_internalName :: string
  parentInternalName :: string
  pipeline_queryType :: pipeline_type
  pipeline_metadata :: "json option"

text \<open>
  A layer holds a pointer to its bucket aggregation: pancakes share these, and change them.  The
  parameter is what stands for it, an address or the aggregation itself.
\<close>

record 'b pancake_layer =
  nextBucketAggregation :: "'b option"
  currentMetricAggregations :: "metric_aggregation list"
  currentPipelineAggregations :: "pipeline_aggregation list"
  childrenPipelineAggregations :: "pipeline_aggregation list"

record 'b pancake =
  layers :: "'b pancake_layer list"
  pancake_whereClause :: expr
  pancake_sampleLimit :: int

definition newPancakeModelLayer :: "'b option \<Rightarrow> 'b pancake_layer" where
  "newPancakeModelLayer b =
     \<lparr>nextBucketAggregation = b, currentMetricAggregations = [], currentPipelineAggregations = [],
      childrenPipelineAggregations = []\<rparr>"

definition map_layer :: "('b \<Rightarrow> 'c) \<Rightarrow> 'b pancake_layer \<Rightarrow> 'c pancake_layer" where
  "map_layer f l =
     \<lparr>nextBucketAggregation = map_option f (nextBucketAggregation l),
      currentMetricAggregations = currentMetricAggregations l,
      currentPipelineAggregations = currentPipelineAggregations l,
      childrenPipelineAggregations = childrenPipelineAggregations l\<rparr>"

definition noLimit :: int where "noLimit = 0"
definition noSampleLimit :: int where "noSampleLimit = 0"

definition newPancakeModelPipelineAggregation ::
  "string \<Rightarrow> string list \<Rightarrow> pipeline_type \<Rightarrow> json option \<Rightarrow> pipeline_aggregation" where
  "newPancakeModelPipelineAggregation name previousAggrNames q metadata =
     (let internalNamePrefix = join ''__'' previousAggrNames
      in \<lparr>pipeline_name = name,
          pipeline_internalName = internalNamePrefix @ ''__'' @ name,
          parentInternalName =
            ''metric__'' @ internalNamePrefix @ ''__'' @ join ''__'' (PathToParent q @ [Parent q]) @ ''_col_0'',
          pipeline_queryType = q,
          pipeline_metadata = metadata\<rparr>)"

subsection \<open>Names of columns\<close>

definition InternalNamePrefix :: "metric_aggregation \<Rightarrow> string" where
  "InternalNamePrefix m = metric_internalName m @ ''_col_''"

definition InternalNameForCol :: "metric_aggregation \<Rightarrow> int \<Rightarrow> string" where
  "InternalNameForCol m i = InternalNamePrefix m @ itoa i"

definition InternalNameForKeyPrefix :: "bucket_aggregation \<Rightarrow> string" where
  "InternalNameForKeyPrefix b = bucket_internalName b @ ''key''"

definition InternalNameForKey :: "bucket_aggregation \<Rightarrow> int \<Rightarrow> string" where
  "InternalNameForKey b i = InternalNameForKeyPrefix b @ ''_'' @ itoa i"

definition InternalNameForOrderBy :: "bucket_aggregation \<Rightarrow> int \<Rightarrow> string" where
  "InternalNameForOrderBy b i = bucket_internalName b @ ''order_'' @ itoa i"

definition InternalNameForCount :: "bucket_aggregation \<Rightarrow> string" where
  "InternalNameForCount b = bucket_internalName b @ ''count''"

definition InternalNameForParentCount :: "bucket_aggregation \<Rightarrow> string" where
  "InternalNameForParentCount b = bucket_internalName b @ ''parent_count''"

text \<open>The pattern \<open>.*order_[0-9]+\<close>, found anywhere in a line.\<close>

fun isInternalNameOrderByColumn :: "string \<Rightarrow> bool" where
  "isInternalNameOrderByColumn [] = False"
| "isInternalNameOrderByColumn (c # s) =
     (has_prefix (c # s) ''order_''
        \<and> (case drop 6 (c # s) of d # _ \<Rightarrow> d \<in> set ''0123456789'' | [] \<Rightarrow> False)
      \<or> isInternalNameOrderByColumn s)"

definition isInternalNameCountColumn :: "string \<Rightarrow> bool" where
  "isInternalNameCountColumn n = has_suffix n ''count''"

definition no_group_by :: "bucket_type \<Rightarrow> bool" where
  "no_group_by q =
     (case q of
        Filters fs \<Rightarrow> True
      | FilterAgg w \<Rightarrow> True
      | RangeAgg e is k \<Rightarrow> True
      | DateRange e f is n \<Rightarrow> True
      | IpRange e is k \<Rightarrow> True
      | Sampler n \<Rightarrow> True
      | RandomSampler p s \<Rightarrow> True
      | _ \<Rightarrow> False)"

definition DoesHaveGroupBy :: "bucket_aggregation \<Rightarrow> bool" where
  "DoesHaveGroupBy b \<longleftrightarrow> \<not> no_group_by (bucket_queryType b)"

definition findPipelineChildren :: "'b pancake_layer \<Rightarrow> pipeline_aggregation \<Rightarrow> pipeline_aggregation list" where
  "findPipelineChildren l p =
     filter (\<lambda>c. Parent (pipeline_queryType c) = pipeline_name p) (childrenPipelineAggregations l)"

text \<open>The sample limit of a sampler.\<close>

definition GetSampleLimit :: "bucket_type \<Rightarrow> int option" where
  "GetSampleLimit q = (case q of Sampler n \<Rightarrow> Some (4 * n) | RandomSampler p s \<Rightarrow> Some 20000 | _ \<Rightarrow> None)"

section \<open>Combinators\<close>

text \<open>
  Aggregations of a fixed number of groups, each given by a condition.  The name of an interval
  prints its bounds; \<open>fmt.Sprintf\<close> rounds to six decimals.
\<close>

record combinator_group =
  group_idx :: nat
  group_Prefix :: string
  group_Key :: string
  group_WhereClause :: expr

definition UnboundedInterval :: string where "UnboundedInterval = ''*''"

text \<open>\<open>%f\<close> and \<open>FormatFloat\<close> without exponent.\<close>

definition print_fixed :: "float64 \<Rightarrow> string" where
  "print_fixed f =
     (case f of
        Finite neg m e \<Rightarrow>
          (let q = times_power 10 6 (float_fraction m e);
               n = round_half_even (fst q) (snd q);
               digits = itoa (n mod 10 ^ 6)
           in (if neg then ''-'' else []) @ itoa (n div 10 ^ 6) @ ''.'' @ replicate (6 - length digits) (CHR ''0'') @ digits)
      | _ \<Rightarrow> print_float f)"

definition FormatFloat :: "float64 \<Rightarrow> string" where
  "FormatFloat f =
     (case f of
        Finite neg m e \<Rightarrow>
          (let (d, dp) = shortest m e;
               ds = (if d = 0 then ''0'' else trim_zeros (itoa d))
           in (if neg then ''-'' else []) @ layout_f ds dp)
      | _ \<Rightarrow> print_float f)"

definition floatToString :: "float64 \<Rightarrow> string" where
  "floatToString f =
     (if f = NaN then ''*''
      else let s = print_fixed f
           in case index_of s ''.'' of
                None \<Rightarrow> s @ ''.0''
              | Some i \<Rightarrow> (let t = trim_zeros s in if i = length t - 1 then t @ ''0'' else t))"

definition interval_String :: "float64 \<times> float64 \<Rightarrow> string" where
  "interval_String i = floatToString (fst i) @ ''-'' @ floatToString (snd i)"

definition string_literal :: "string \<Rightarrow> expr" where
  "string_literal s = LiteralExpr (NewLiteral (VString s))"

text \<open>A condition with a lower and an upper bound, when they are there.\<close>

definition between :: "expr option \<Rightarrow> expr option \<Rightarrow> expr \<Rightarrow> expr" where
  "between lower upper always =
     (case (lower, upper) of
        (Some l, Some u) \<Rightarrow> InfixExpr l ''AND'' u
      | (Some l, None) \<Rightarrow> l
      | (None, Some u) \<Rightarrow> u
      | (None, None) \<Rightarrow> always)"

definition interval_ToWhereClause :: "expr \<Rightarrow> float64 \<times> float64 \<Rightarrow> expr" where
  "interval_ToWhereClause field i =
     between
       (if fst i = NaN then None else Some (InfixExpr field ''>='' (string_literal (FormatFloat (fst i)))))
       (if snd i = NaN then None else Some (InfixExpr field ''<'' (string_literal (FormatFloat (snd i)))))
       (InfixExpr field ''IS'' (string_literal ''NOT NULL''))"

definition TrueLiteral :: expr where "TrueLiteral = LiteralExpr (NewLiteral (VBool True))"

definition TimestampToSQL :: "string \<Rightarrow> expr option" where
  "TimestampToSQL bound =
     (if bound = UnboundedInterval then None
      else Some (FunctionExpr ''toInt64'' [FunctionExpr ''toUnixTimestamp'' [string_literal bound]]))"

definition date_interval_ToWhereClause :: "expr \<Rightarrow> string \<times> string \<Rightarrow> expr" where
  "date_interval_ToWhereClause field i =
     between (map_option (InfixExpr field ''>='') (TimestampToSQL (fst i)))
       (map_option (InfixExpr field ''<'') (TimestampToSQL (snd i))) TrueLiteral"

text \<open>The lower bound of an interval of addresses has to be an address; \<open>None\<close> is the panic of \<open>MustParseAddr\<close>.\<close>

definition hasBeginInResponse :: "ip_interval \<Rightarrow> bool option" where
  "hasBeginInResponse i =
     (if ip_begin i = UnboundedInterval then Some False
      else map_option (\<lambda>a. a \<noteq> Addr6 (replicate 16 0) []) (ParseAddr (ip_begin i)))"

definition hasEndInResponse :: "ip_interval \<Rightarrow> bool" where
  "hasEndInResponse i \<longleftrightarrow> ip_end i \<noteq> UnboundedInterval"

definition ip_interval_ToWhereClause :: "expr \<Rightarrow> ip_interval \<Rightarrow> expr option" where
  "ip_interval_ToWhereClause field i =
     map_option (\<lambda>begins.
       between
         (if begins then Some (InfixExpr field ''>='' (LiteralExpr (NewLiteralSingleQuoteString (VString (ip_begin i))))) else None)
         (if hasEndInResponse i
          then Some (InfixExpr field ''<'' (LiteralExpr (NewLiteralSingleQuoteString (VString (ip_end i))))) else None)
         TrueLiteral) (hasBeginInResponse i)"

definition ip_interval_String :: "ip_interval \<Rightarrow> string" where
  "ip_interval_String i = (case ip_key i of Some k \<Rightarrow> k | None \<Rightarrow> ip_begin i @ ''-'' @ ip_end i)"

definition numbered_prefix :: "string \<Rightarrow> nat \<Rightarrow> nat \<Rightarrow> string" where
  "numbered_prefix kind n i = (if n = 1 then [] else kind @ ''_'' @ itoa (int i) @ ''__'')"

definition combinator_groups :: "string \<Rightarrow> ('a \<Rightarrow> string \<Rightarrow> string) \<Rightarrow> ('a \<Rightarrow> expr option) \<Rightarrow> 'a list \<Rightarrow> combinator_group list option" where
  "combinator_groups kind key cond xs =
     opt_mapM (\<lambda>(i, x).
       map_option (\<lambda>w.
         let prefix = numbered_prefix kind (length xs) i
         in \<lparr>group_idx = i, group_Prefix = prefix, group_Key = key x prefix, group_WhereClause = w\<rparr>) (cond x))
       (enumerate 0 xs)"

text \<open>The groups of each aggregation by conditions, and the aggregations it is split into, one for each group.\<close>

definition filter_groups :: "expr \<Rightarrow> combinator_group list" where
  "filter_groups w = [\<lparr>group_idx = 0, group_Prefix = [], group_Key = [], group_WhereClause = w\<rparr>]"

definition filters_groups :: "(string \<times> simple_query) list \<Rightarrow> combinator_group list option" where
  "filters_groups fs = combinator_groups ''filter'' (\<lambda>f prefix. fst f) (\<lambda>f. Some (sq_WhereClause (snd f))) fs"

definition range_groups :: "expr \<Rightarrow> (float64 \<times> float64) list \<Rightarrow> combinator_group list option" where
  "range_groups e is =
     combinator_groups ''range'' (\<lambda>i prefix. interval_String i) (\<lambda>i. Some (interval_ToWhereClause e i)) is"

definition date_range_groups :: "expr \<Rightarrow> (string \<times> string) list \<Rightarrow> combinator_group list option" where
  "date_range_groups e is =
     combinator_groups ''range'' (\<lambda>i prefix. prefix) (\<lambda>i. Some (date_interval_ToWhereClause e i)) is"

definition ip_range_groups :: "expr \<Rightarrow> ip_interval list \<Rightarrow> combinator_group list option" where
  "ip_range_groups e is =
     combinator_groups ''range'' (\<lambda>i prefix. ip_interval_String i) (ip_interval_ToWhereClause e) is"

definition filter_split :: "expr \<Rightarrow> bucket_type list" where
  "filter_split w = [FilterAgg w]"

definition filters_split :: "(string \<times> simple_query) list \<Rightarrow> bucket_type list" where
  "filters_split fs = map (\<lambda>f. Filters [f]) fs"

definition range_split :: "expr \<Rightarrow> (float64 \<times> float64) list \<Rightarrow> bool \<Rightarrow> bucket_type list" where
  "range_split e is keyed = map (\<lambda>i. RangeAgg e [i] keyed) is"

definition date_range_split :: "expr \<Rightarrow> string \<Rightarrow> (string \<times> string) list \<Rightarrow> int \<Rightarrow> bucket_type list" where
  "date_range_split e f is n = map (\<lambda>i. DateRange e f [i] n) is"

definition ip_range_split :: "expr \<Rightarrow> ip_interval list \<Rightarrow> bool \<Rightarrow> bucket_type list" where
  "ip_range_split e is keyed = map (\<lambda>i. IpRange e [i] keyed) is"

text \<open>The methods of the interface; no groups (\<open>None\<close>) for an aggregation that is no combinator.\<close>

fun CombinatorGroups :: "bucket_type \<Rightarrow> combinator_group list option option" where
  "CombinatorGroups (FilterAgg w) = Some (Some (filter_groups w))"
| "CombinatorGroups (Filters fs) = Some (filters_groups fs)"
| "CombinatorGroups (RangeAgg e is keyed) = Some (range_groups e is)"
| "CombinatorGroups (DateRange e f is n) = Some (date_range_groups e is)"
| "CombinatorGroups (IpRange e is keyed) = Some (ip_range_groups e is)"
| "CombinatorGroups q = None"

fun CombinatorSplit :: "bucket_type \<Rightarrow> bucket_type list" where
  "CombinatorSplit (FilterAgg w) = filter_split w"
| "CombinatorSplit (Filters fs) = filters_split fs"
| "CombinatorSplit (RangeAgg e is keyed) = range_split e is keyed"
| "CombinatorSplit (DateRange e f is n) = date_range_split e f is n"
| "CombinatorSplit (IpRange e is keyed) = ip_range_split e is keyed"
| "CombinatorSplit q = []"

definition is_combinator :: "bucket_type \<Rightarrow> bool" where
  "is_combinator q \<longleftrightarrow> CombinatorGroups q \<noteq> None"

subsection \<open>The parts of a combinator\<close>

lemma opt_mapM_all2: "opt_mapM f xs = Some ys \<Longrightarrow> list_all2 (\<lambda>x y. f x = Some y) xs ys"
  by (induction xs arbitrary: ys) (auto split: Option.bind_split_asm)

text \<open>
  Each group again, alone: the condition is the same, there is no prefix any more, and the key is
  that of the group under the empty prefix.
\<close>

lemma combinator_groups_alone:
  assumes "combinator_groups kind key cond xs = Some gs"
  shows "list_all2 (\<lambda>x g. \<exists>g'. combinator_groups kind key cond [x] = Some [g']
           \<and> group_WhereClause g' = group_WhereClause g \<and> group_Prefix g' = []
           \<and> group_Key g' = key x [] \<and> group_Key g = key x (group_Prefix g)) xs gs"
proof -
  have all: "list_all2 (\<lambda>(i, x) g. \<exists>w. cond x = Some w \<and> g = \<lparr>group_idx = i,
      group_Prefix = numbered_prefix kind (length xs) i, group_Key = key x (numbered_prefix kind (length xs) i),
      group_WhereClause = w\<rparr>) (enumerate 0 xs) gs"
    using opt_mapM_all2 [OF assms [unfolded combinator_groups_def]]
    by (rule list_all2_mono) (auto simp: Let_def)
  have len: "length gs = length xs" using list_all2_lengthD [OF all] by simp
  show ?thesis
  proof (rule list_all2_all_nthI)
    fix i assume i: "i < length xs"
    from list_all2_nthD [OF all, of i] i obtain w where "cond (xs ! i) = Some w"
      and "gs ! i = \<lparr>group_idx = i, group_Prefix = numbered_prefix kind (length xs) i,
        group_Key = key (xs ! i) (numbered_prefix kind (length xs) i), group_WhereClause = w\<rparr>"
      by (auto simp: nth_enumerate_eq)
    then show "\<exists>g'. combinator_groups kind key cond [xs ! i] = Some [g']
        \<and> group_WhereClause g' = group_WhereClause (gs ! i) \<and> group_Prefix g' = []
        \<and> group_Key g' = key (xs ! i) [] \<and> group_Key (gs ! i) = key (xs ! i) (group_Prefix (gs ! i))"
      by (simp add: combinator_groups_def numbered_prefix_def)
  qed (simp add: len)
qed

definition is_DateRange :: "bucket_type \<Rightarrow> bool" where
  "is_DateRange q = (case q of DateRange e f is n \<Rightarrow> True | _ \<Rightarrow> False)"

text \<open>An aggregation with the group \<open>g\<close> only.\<close>

definition only_group :: "bool \<Rightarrow> bucket_type \<Rightarrow> combinator_group \<Rightarrow> bool" where
  "only_group same_key q g \<longleftrightarrow>
     (\<exists>g'. CombinatorGroups q = Some (Some [g']) \<and> group_WhereClause g' = group_WhereClause g
        \<and> group_Prefix g' = [] \<and> (same_key \<longrightarrow> group_Key g' = group_Key g))"

lemma split_has_one_group_each:
  assumes "CombinatorGroups q = Some (Some gs)"
  shows "list_all2 (only_group (\<not> is_DateRange q)) (CombinatorSplit q) gs"
proof (cases q)
  case (FilterAgg w)
  with assms show ?thesis by (auto simp: only_group_def filter_split_def filter_groups_def)
next
  case (Filters fs)
  with assms have "filters_groups fs = Some gs" by simp
  from combinator_groups_alone [OF this [unfolded filters_groups_def]] show ?thesis
    by (auto simp: Filters filters_split_def only_group_def filters_groups_def list_all2_map1 elim: list_all2_mono)
next
  case (RangeAgg e "is" keyed)
  with assms have "range_groups e is = Some gs" by simp
  from combinator_groups_alone [OF this [unfolded range_groups_def]] show ?thesis
    by (auto simp: RangeAgg range_split_def only_group_def range_groups_def list_all2_map1 elim: list_all2_mono)
next
  case (DateRange e f "is" n)
  with assms have "date_range_groups e is = Some gs" by simp
  from combinator_groups_alone [OF this [unfolded date_range_groups_def]] show ?thesis
    by (auto simp: DateRange date_range_split_def only_group_def date_range_groups_def is_DateRange_def list_all2_map1
        elim: list_all2_mono)
next
  case (IpRange e "is" keyed)
  with assms have "ip_range_groups e is = Some gs" by simp
  from combinator_groups_alone [OF this [unfolded ip_range_groups_def]] show ?thesis
    by (auto simp: IpRange ip_range_split_def only_group_def ip_range_groups_def list_all2_map1 elim: list_all2_mono)
qed (use assms in simp_all)

text \<open>
  The key of a date range is the prefix of its columns: \<open>range_0__\<close> for the first of several, and empty
  for one alone.
\<close>

lemma date_range_keys_are_prefixes:
  "map_option (map group_Key) (date_range_groups TrueLiteral [(''now-1d'', ''now'')]) = Some [[]]"
  "map_option (map group_Key) (date_range_groups TrueLiteral [(''now-1d'', ''now''), (''now-2d'', ''now-1d'')])
     = Some [''range_0__'', ''range_1__'']"
  by code_simp+

end
