(* ===== verification/Pancake_Layers.thy ===== *)
theory Pancake_Layers
  imports Agg_Model "HOL-Library.Multiset"
begin

text \<open>
  From the tree of aggregations to the layers of pancakes: the first half of
  \<open>pancake_transformer.go\<close>.

  Every node of the tree becomes a metric, a bucket or a pipeline of a layer, under an internal
  name made of the names on the path from the root.  A layer has one bucket aggregation, so a node
  with several bucket aggregations below gives several pancakes, which share their first layers'
  buckets; these are addresses of the transformer's store.

  A slice of names is an address of an array and a length.  The paths of the children of a node are
  made by appending to the slice of the node, which writes into its array where there is room: from
  the fourth name on the paths of siblings share an array, and the path kept in \<open>usedNames\<close> changes
  with each of them.
\<close>

section \<open>State\<close>

record slice =
  sl_array :: nat
  sl_len :: nat

text \<open>
  The arrays of names, each as long as its capacity, and the bucket aggregations, by address.  The
  first array is the empty one, of the slice without names.
\<close>

record transformer =
  usedNames :: "(string \<times> slice) list"
  name_arrays :: "string list list"
  bucket_store :: "bucket_aggregation list"

definition newPancakeTransformer :: transformer where
  "newPancakeTransformer = \<lparr>usedNames = [], name_arrays = [[]], bucket_store = []\<rparr>"

definition no_names :: slice where
  "no_names = \<lparr>sl_array = 0, sl_len = 0\<rparr>"

definition slice_names :: "string list list \<Rightarrow> slice \<Rightarrow> string list" where
  "slice_names arrays s = take (sl_len s) (arrays ! sl_array s)"

text \<open>
  Appending: in place when there is room, else in a new array of twice the capacity, which is how Go
  grows slices below 256 elements.
\<close>

definition grown_capacity :: "nat \<Rightarrow> nat" where
  "grown_capacity n = (if n = 0 then 1 else 2 * n)"

definition append_name :: "slice \<Rightarrow> string \<Rightarrow> transformer \<Rightarrow> slice \<times> transformer" where
  "append_name s x st =
     (let array = name_arrays st ! sl_array s; n = sl_len s
      in if n < length array
         then (\<lparr>sl_array = sl_array s, sl_len = Suc n\<rparr>,
               st\<lparr>name_arrays := (name_arrays st)[sl_array s := array[n := x]]\<rparr>)
         else (\<lparr>sl_array = length (name_arrays st), sl_len = Suc n\<rparr>,
               st\<lparr>name_arrays := name_arrays st @ [array @ x # replicate (grown_capacity n - Suc n) '''']\<rparr>))"

datatype tr_failure = TrError string | TrPanic

section \<open>Internal names\<close>

text \<open>The names tried for a path: the joined names, then with a number from 2 on.\<close>

definition candidate_name :: "string \<Rightarrow> nat \<Rightarrow> string" where
  "candidate_name origName c = (if c \<le> 1 then origName else origName @ itoa (int c))"

lemma nat_digits_inj: "nat_digits m = nat_digits n \<Longrightarrow> m = n"
proof (induction m arbitrary: n rule: nat_digits.induct)
  case (1 m)
  have len: "length (nat_digits k) = 1 \<longleftrightarrow> k < 10" for k
    by (subst nat_digits.simps) (auto, subst (asm) nat_digits.simps, auto split: if_splits)
  have one: "nat_digits k = [digit_char k]" if "k < 10" for k
    using that by (subst nat_digits.simps) simp
  have others: "nat_digits k = nat_digits (k div 10) @ [digit_char (k mod 10)]" if "\<not> k < 10" for k
    using that by (subst nat_digits.simps) simp
  have digit: "j = k" if "digit_char j = digit_char k" "j < 10" "k < 10" for j k
    using arg_cong [OF that(1), of "of_char :: char \<Rightarrow> nat"] that(2,3) by (simp add: digit_char_def)
  show ?case
  proof (cases "m < 10")
    case True
    with 1(2) len [of m] len [of n] have "n < 10" by simp
    with True 1(2) one digit show ?thesis by simp
  next
    case False
    with 1(2) len [of m] len [of n] have n: "\<not> n < 10" by simp
    with False 1(2) have "nat_digits (m div 10) = nat_digits (n div 10)"
      and "digit_char (m mod 10) = digit_char (n mod 10)"
      by (simp_all add: others)
    with 1(1) [OF False] digit [of "m mod 10" "n mod 10"] have "m div 10 = n div 10" "m mod 10 = n mod 10" by auto
    then show ?thesis by (metis mult_div_mod_eq)
  qed
qed

lemma candidate_name_inj:
  assumes "candidate_name s c = candidate_name s d" "c \<ge> 1" "d \<ge> 1"
  shows "c = d"
proof -
  have "nat_digits k \<noteq> []" for k by (subst nat_digits.simps) simp
  with assms show ?thesis
    by (auto simp: candidate_name_def itoa_def split: if_splits dest: nat_digits_inj)
qed

text \<open>The numbers left to try that are in use; the loop ends because each number tried is.\<close>

definition tries_left :: "(string \<times> slice) list \<Rightarrow> string \<Rightarrow> nat \<Rightarrow> nat set" where
  "tries_left used origName c = {d. Suc c \<le> d \<and> candidate_name origName d \<in> fst ` set used}"

lemma finite_tries_left: "finite (tries_left used origName c)"
proof -
  have "inj_on (candidate_name origName) (tries_left used origName c)"
    by (auto simp: inj_on_def tries_left_def intro: candidate_name_inj)
  moreover have "finite (candidate_name origName ` tries_left used origName c)"
    by (rule finite_subset [of _ "fst ` set used"]) (auto simp: tries_left_def)
  ultimately show ?thesis by (rule finite_imageD [rotated])
qed

function unique_name_loop ::
  "string list list \<Rightarrow> (string \<times> slice) list \<Rightarrow> string \<Rightarrow> slice \<Rightarrow> nat \<Rightarrow> string \<times> (string \<times> slice) list" where
  "unique_name_loop arrays used origName aggrNames c =
     (let proposedName = candidate_name origName (Suc c)
      in case map_of used proposedName of
           None \<Rightarrow> (proposedName, (proposedName, aggrNames) # used)
         | Some prevAggr \<Rightarrow>
             if slice_names arrays prevAggr = slice_names arrays aggrNames then (proposedName, used)
             else unique_name_loop arrays used origName aggrNames (Suc c))"
  by pat_completeness auto
termination
proof (relation "measure (\<lambda>(arrays, used, origName, aggrNames, c). card (tries_left used origName c))", goal_cases)
  case (2 arrays used origName aggrNames c proposedName prevAggr)
  then have "candidate_name origName (Suc c) \<in> fst ` set used"
    by (metis domI dom_map_of_conv_image_fst)
  then have "Suc c \<in> tries_left used origName c" by (simp add: tries_left_def)
  moreover have "Suc c \<notin> tries_left used origName (Suc c)"
    and "tries_left used origName (Suc c) \<subseteq> tries_left used origName c"
    by (auto simp: tries_left_def)
  ultimately have "tries_left used origName (Suc c) \<subset> tries_left used origName c" by blast
  with finite_tries_left show ?case by (simp add: psubset_card_mono)
qed simp

declare unique_name_loop.simps [simp del]

text \<open>The path is kept as a slice, and compared by what its array holds by then.\<close>

definition generateUniqueInternalName :: "string \<Rightarrow> slice \<Rightarrow> transformer \<Rightarrow> string \<times> transformer" where
  "generateUniqueInternalName origName aggrNames st =
     (let (name, used) = unique_name_loop (name_arrays st) (usedNames st) origName aggrNames 0
      in (name, st\<lparr>usedNames := used\<rparr>))"

definition generateMetricInternalName :: "slice \<Rightarrow> query_type \<Rightarrow> transformer \<Rightarrow> string \<times> transformer" where
  "generateMetricInternalName aggrNames queryType st =
     (let kind = (case queryType of
                    MetricQT (TopMetrics n s d) \<Rightarrow> ''top_metrics''
                  | MetricQT (TopHits n os) \<Rightarrow> ''top_hits''
                  | _ \<Rightarrow> ''metric'')
      in generateUniqueInternalName (kind @ ''__'' @ join ''__'' (slice_names (name_arrays st) aggrNames)) aggrNames st)"

definition generateBucketInternalName :: "slice \<Rightarrow> transformer \<Rightarrow> string \<times> transformer" where
  "generateBucketInternalName aggrNames st =
     generateUniqueInternalName (''aggr__'' @ join ''__'' (slice_names (name_arrays st) aggrNames) @ ''__'') aggrNames st"

section \<open>Nodes\<close>

definition AggregationType_String :: "aggregation_type \<Rightarrow> string" where
  "AggregationType_String t =
     (case t of
        BucketAggregation \<Rightarrow> ''BucketAggregation''
      | MetricsAggregation \<Rightarrow> ''MetricsAggregation''
      | PipelineMetricsAggregation \<Rightarrow> ''PipelineMetricsAggregation''
      | PipelineBucketAggregation \<Rightarrow> ''PipelineBucketAggregation''
      | TypicalAggregation \<Rightarrow> ''TypicalAggregation''
      | UnknownAggregation \<Rightarrow> ''UnknownAggregation'')"

definition is_FilterAgg :: "query_type \<Rightarrow> bool" where
  "is_FilterAgg q = (case q of BucketQT (FilterAgg w) \<Rightarrow> True | _ \<Rightarrow> False)"

text \<open>The type of a node is nil in a request the parser left incomplete; its methods then panic.\<close>

definition metricAggregationTreeNodeToModel ::
  "slice \<Rightarrow> agg_node option \<Rightarrow> transformer \<Rightarrow> tr_failure + metric_aggregation \<times> transformer" where
  "metricAggregationTreeNodeToModel previousAggrNames metric st =
     (case metric of
        None \<Rightarrow> Inl (TrError ''metric aggregation is nil'')
      | Some node \<Rightarrow>
          let i = node_of node
          in case node_queryType i of
               None \<Rightarrow> Inl TrPanic
             | Some q \<Rightarrow>
                 if AggregationType q \<noteq> MetricsAggregation \<and> \<not> is_FilterAgg q
                 then Inl (TrError (''metric '' @ node_name i @ '' aggregation is not metrics aggregation, type: ''
                              @ AggregationType_String (AggregationType q)))
                 else let (aggrNames, st1) = append_name previousAggrNames (node_name i) st;
                          (name, st') = generateMetricInternalName aggrNames q st1
                      in Inr (\<lparr>metric_name = node_name i, metric_internalName = name, metric_queryType = q,
                               metric_selectedColumns = node_selectedColumns i, metric_metadata = node_metadata i\<rparr>, st'))"

definition pipelineAggregationToLayer ::
  "string list \<Rightarrow> agg_node option \<Rightarrow> tr_failure + pipeline_aggregation" where
  "pipelineAggregationToLayer previousAggrNames pipeline =
     (case pipeline of
        None \<Rightarrow> Inl (TrError ''pipeline aggregation is nil'')
      | Some node \<Rightarrow>
          let i = node_of node
          in case node_queryType i of
               None \<Rightarrow> Inl TrPanic
             | Some (PipelineQT p) \<Rightarrow>
                 Inr (newPancakeModelPipelineAggregation (node_name i) previousAggrNames p (node_metadata i))
             | Some q \<Rightarrow>
                 Inl (TrError (''pipeline aggregation '' @ node_name i @ '' is not pipeline aggregation, type: ''
                        @ AggregationType_String (AggregationType q))))"

text \<open>The bucket aggregation made of a node is put into the store; its address is the layer's pointer.\<close>

definition bucketAggregationToLayer ::
  "slice \<Rightarrow> agg_node option \<Rightarrow> transformer \<Rightarrow> tr_failure + nat \<times> transformer" where
  "bucketAggregationToLayer previousAggrNames bucket st =
     (case bucket of
        None \<Rightarrow> Inl (TrError ''bucket aggregation is nil'')
      | Some node \<Rightarrow>
          let i = node_of node
          in case node_queryType i of
               None \<Rightarrow> Inl TrPanic
             | Some (BucketQT q) \<Rightarrow>
                 (let (aggrNames, st1) = append_name previousAggrNames (node_name i) st;
                      (name, st') = generateBucketInternalName aggrNames st1;
                      b = \<lparr>bucket_name = node_name i, bucket_internalName = name, bucket_queryType = q,
                           bucket_selectedColumns = node_selectedColumns i, bucket_orderBy = node_orderBy i,
                           bucket_limit = node_limit i, bucket_isKeyed = node_isKeyed i, bucket_metadata = node_metadata i,
                           filterOurEmptyKeyBucket = filterOutEmptyKeyBucket i\<rparr>
                  in Inr (length (bucket_store st'), st'\<lparr>bucket_store := bucket_store st' @ [b]\<rparr>))
             | Some q \<Rightarrow>
                 Inl (TrError (''bucket aggregation '' @ node_name i @ '' is not bucket aggregation, type: ''
                        @ AggregationType_String (AggregationType q))))"

section \<open>Layers\<close>

record layer_and_next =
  lan_layer :: "nat pancake_layer"
  lan_next :: "agg_node option"

definition add_metric :: "metric_aggregation \<Rightarrow> layer_and_next \<Rightarrow> layer_and_next" where
  "add_metric m r =
     r\<lparr>lan_layer := (lan_layer r)\<lparr>currentMetricAggregations := currentMetricAggregations (lan_layer r) @ [m]\<rparr>\<rparr>"

definition add_pipeline :: "pipeline_aggregation \<Rightarrow> layer_and_next \<Rightarrow> layer_and_next" where
  "add_pipeline p r =
     r\<lparr>lan_layer := (lan_layer r)\<lparr>currentPipelineAggregations := currentPipelineAggregations (lan_layer r) @ [p]\<rparr>\<rparr>"

lemma add_metric_sel [simp]:
  "lan_next (add_metric m r) = lan_next r"
  "nextBucketAggregation (lan_layer (add_metric m r)) = nextBucketAggregation (lan_layer r)"
  "currentMetricAggregations (lan_layer (add_metric m r)) = currentMetricAggregations (lan_layer r) @ [m]"
  by (simp_all add: add_metric_def)

lemma add_pipeline_sel [simp]:
  "lan_next (add_pipeline p r) = lan_next r"
  "nextBucketAggregation (lan_layer (add_pipeline p r)) = nextBucketAggregation (lan_layer r)"
  "currentMetricAggregations (lan_layer (add_pipeline p r)) = currentMetricAggregations (lan_layer r)"
  by (simp_all add: add_pipeline_def)

text \<open>
  A second filter without aggregations below is counted as a metric of the first result; \<open>None\<close>
  when it is not.
\<close>

definition optimizeSimpleFilter ::
  "slice \<Rightarrow> layer_and_next \<Rightarrow> agg_node \<Rightarrow> transformer \<Rightarrow> (layer_and_next \<times> transformer) option" where
  "optimizeSimpleFilter previousAggrNames result childAgg st =
     (case (map_option (node_queryType \<circ> node_of) (lan_next result), node_queryType (node_of childAgg)) of
        (Some (Some (BucketQT (FilterAgg w1))), Some (BucketQT (FilterAgg w))) \<Rightarrow>
          if node_children childAgg = []
          then (case metricAggregationTreeNodeToModel previousAggrNames (Some childAgg) st of
                  Inl e \<Rightarrow> None
                | Inr (m, st') \<Rightarrow>
                    Some (add_metric (m\<lparr>metric_selectedColumns := [FunctionExpr ''countIf'' [w]]\<rparr>) result, st'))
          else None
      | _ \<Rightarrow> None)"

text \<open>One child: the first result, those after it and the state.\<close>

type_synonym layer_state = "layer_and_next \<times> layer_and_next list \<times> transformer"

definition create_layer_step :: "slice \<Rightarrow> agg_node \<Rightarrow> layer_state \<Rightarrow> tr_failure + layer_state" where
  "create_layer_step previousAggrNames childAgg acc =
     (case acc of (first, others, st) \<Rightarrow>
        case node_queryType (node_of childAgg) of
          None \<Rightarrow> Inl (TrError ''query type is nil in createLayer'')
        | Some q \<Rightarrow>
            (case AggregationType q of
               MetricsAggregation \<Rightarrow>
                 and_then (metricAggregationTreeNodeToModel previousAggrNames (Some childAgg) st)
                   (\<lambda>(m, st'). Inr (add_metric m first, others, st'))
             | BucketAggregation \<Rightarrow>
                 and_then (bucketAggregationToLayer previousAggrNames (Some childAgg) st)
                   (\<lambda>(bucket, st').
                      if lan_next first = None
                      then Inr (\<lparr>lan_layer = (lan_layer first)\<lparr>nextBucketAggregation := Some bucket\<rparr>,
                                 lan_next = Some childAgg\<rparr>, others, st')
                      else (case optimizeSimpleFilter previousAggrNames first childAgg st' of
                              Some (first', st'') \<Rightarrow> Inr (first', others, st'')
                            | None \<Rightarrow>
                                Inr (first, others @ [\<lparr>lan_layer = newPancakeModelLayer (Some bucket), lan_next = Some childAgg\<rparr>], st')))
             | PipelineMetricsAggregation \<Rightarrow>
                 and_then (pipelineAggregationToLayer (slice_names (name_arrays st) previousAggrNames) (Some childAgg))
                   (\<lambda>p. Inr (add_pipeline p first, others, st))
             | PipelineBucketAggregation \<Rightarrow>
                 and_then (pipelineAggregationToLayer (slice_names (name_arrays st) previousAggrNames) (Some childAgg))
                   (\<lambda>p. Inr (add_pipeline p first, others, st))
             | t \<Rightarrow>
                 Inl (TrError (''unsupported aggregation type in pancake, name: '' @ node_name (node_of childAgg)
                        @ '', type: '' @ AggregationType_String t))))"

fun create_layer_loop :: "slice \<Rightarrow> agg_node list \<Rightarrow> layer_state \<Rightarrow> tr_failure + layer_state" where
  "create_layer_loop previousAggrNames [] acc = Inr acc"
| "create_layer_loop previousAggrNames (c # cs) acc =
     and_then (create_layer_step previousAggrNames c acc) (create_layer_loop previousAggrNames cs)"

text \<open>
  The children are visited in the order of their names.  A nil child panics, in the comparison of
  the sort or in the loop.
\<close>

definition createLayer ::
  "slice \<Rightarrow> agg_node option list \<Rightarrow> transformer \<Rightarrow> tr_failure + layer_and_next list \<times> transformer" where
  "createLayer previousAggrNames childAggregations st =
     (if childAggregations = [] then Inr ([], st)
      else if None \<in> set childAggregations then Inl TrPanic
      else and_then
             (create_layer_loop previousAggrNames
               (sort_key (\<lambda>n. node_name (node_of n)) (map the childAggregations))
               (\<lparr>lan_layer = newPancakeModelLayer None, lan_next = None\<rparr>, [], st))
             (\<lambda>(first, others, st'). Inr (first # others, st')))"

subsection \<open>The results are among the children\<close>

definition next_sizes :: "layer_and_next list \<Rightarrow> nat" where
  "next_sizes rs = sum_list (map (\<lambda>r. case lan_next r of None \<Rightarrow> 0 | Some n \<Rightarrow> size n) rs)"

lemma optimizeSimpleFilter_Some:
  assumes "optimizeSimpleFilter names first c st = Some (first', st')"
  obtains m w where "metricAggregationTreeNodeToModel names (Some c) st = Inr (m, st')"
    and "node_queryType (node_of c) = Some (BucketQT (FilterAgg w))" and "node_children c = []"
    and "first' = add_metric (m\<lparr>metric_selectedColumns := [FunctionExpr ''countIf'' [w]]\<rparr>) first"
  using assms unfolding optimizeSimpleFilter_def
  by (auto split: option.split_asm query_type.split_asm bucket_type.split_asm if_split_asm sum.split_asm)

lemma create_layer_step_Inr:
  assumes "create_layer_step names c (first, others, st) = Inr (first', others', st')"
  obtains
    (metric) q m where "node_queryType (node_of c) = Some q" and "AggregationType q = MetricsAggregation"
      and "metricAggregationTreeNodeToModel names (Some c) st = Inr (m, st')"
      and "first' = add_metric m first" and "others' = others"
  | (bucket) b where "bucketAggregationToLayer names (Some c) st = Inr (b, st')" and "lan_next first = None"
      and "first' = \<lparr>lan_layer = (lan_layer first)\<lparr>nextBucketAggregation := Some b\<rparr>, lan_next = Some c\<rparr>"
      and "others' = others"
  | (filter) b st1 where "bucketAggregationToLayer names (Some c) st = Inr (b, st1)" and "lan_next first \<noteq> None"
      and "optimizeSimpleFilter names first c st1 = Some (first', st')" and "others' = others"
  | (another) b where "bucketAggregationToLayer names (Some c) st = Inr (b, st')" and "lan_next first \<noteq> None"
      and "optimizeSimpleFilter names first c st' = None" and "first' = first"
      and "others' = others @ [\<lparr>lan_layer = newPancakeModelLayer (Some b), lan_next = Some c\<rparr>]"
  | (pipeline) p where "pipelineAggregationToLayer (slice_names (name_arrays st) names) (Some c) = Inr p"
      and "first' = add_pipeline p first" and "others' = others" and "st' = st"
proof -
  from assms obtain q where q: "node_queryType (node_of c) = Some q"
    by (cases "node_queryType (node_of c)") (simp_all add: create_layer_step_def)
  show thesis
  proof (cases "AggregationType q")
    case BucketAggregation
    with assms q obtain b st1 where b: "bucketAggregationToLayer names (Some c) st = Inr (b, st1)"
      and rest: "(if lan_next first = None
                  then Inr (\<lparr>lan_layer = (lan_layer first)\<lparr>nextBucketAggregation := Some b\<rparr>,
                             lan_next = Some c\<rparr>, others, st1)
                  else (case optimizeSimpleFilter names first c st1 of
                          Some (first', st'') \<Rightarrow> Inr (first', others, st'')
                        | None \<Rightarrow>
                            Inr (first, others @ [\<lparr>lan_layer = newPancakeModelLayer (Some b), lan_next = Some c\<rparr>], st1)))
               = (Inr (first', others', st') :: tr_failure + layer_state)"
      by (auto simp: create_layer_step_def and_then_Inr)
    show thesis
    proof (cases "lan_next first = None")
      case True
      with rest have "first' = \<lparr>lan_layer = (lan_layer first)\<lparr>nextBucketAggregation := Some b\<rparr>, lan_next = Some c\<rparr>"
        and "others' = others" and "st' = st1" by simp_all
      with b True show thesis by (intro bucket [of b]) simp_all
    next
      case False
      show thesis
      proof (cases "optimizeSimpleFilter names first c st1")
        case None
        with rest False have "first' = first" "st' = st1"
          and "others' = others @ [\<lparr>lan_layer = newPancakeModelLayer (Some b), lan_next = Some c\<rparr>]" by simp_all
        with b False None show thesis by (intro another [of b]) simp_all
      next
        case (Some r)
        with rest False have "r = (first', st')" "others' = others" by (auto split: prod.splits)
        with b False Some show thesis by (intro filter [of b st1]) simp_all
      qed
    qed
  next
    case MetricsAggregation
    with assms q obtain m where "metricAggregationTreeNodeToModel names (Some c) st = Inr (m, st')"
      and "first' = add_metric m first" "others' = others"
      by (auto simp: create_layer_step_def and_then_Inr)
    with q MetricsAggregation show thesis by (intro metric [of q m]) simp_all
  next
    case PipelineMetricsAggregation
    with assms q obtain p where "pipelineAggregationToLayer (slice_names (name_arrays st) names) (Some c) = Inr p"
      and "first' = add_pipeline p first" "others' = others" "st' = st"
      by (auto simp: create_layer_step_def and_then_Inr)
    then show thesis by (intro pipeline [of p]) simp_all
  next
    case PipelineBucketAggregation
    with assms q obtain p where "pipelineAggregationToLayer (slice_names (name_arrays st) names) (Some c) = Inr p"
      and "first' = add_pipeline p first" "others' = others" "st' = st"
      by (auto simp: create_layer_step_def and_then_Inr)
    then show thesis by (intro pipeline [of p]) simp_all
  qed (use assms q in \<open>simp_all add: create_layer_step_def\<close>)
qed

lemma create_layer_step_sizes:
  assumes "create_layer_step names c (first, others, st) = Inr (first', others', st')"
  shows "next_sizes (first' # others') \<le> size c + next_sizes (first # others)"
  using assms
  by (cases rule: create_layer_step_Inr)
    (auto simp: next_sizes_def elim!: optimizeSimpleFilter_Some)

lemma create_layer_loop_sizes:
  assumes "create_layer_loop names cs (first, others, st) = Inr (first', others', st')"
  shows "next_sizes (first' # others') \<le> sum_list (map size cs) + next_sizes (first # others)"
  using assms
proof (induction cs arbitrary: first others st)
  case (Cons c cs)
  from Cons.prems obtain f m s where "create_layer_step names c (first, others, st) = Inr (f, m, s)"
    and "create_layer_loop names cs (f, m, s) = Inr (first', others', st')"
    by (auto simp: and_then_Inr)
  with Cons.IH create_layer_step_sizes show ?case by fastforce
qed simp

definition children_size :: "agg_node option list \<Rightarrow> nat" where
  "children_size cs = sum_list (map (size_option size) cs)"

lemma children_size_below: "children_size (node_children n) < size n"
proof -
  have "children_size cs \<le> size_list (size_option size) cs" for cs
    by (induction cs) (auto simp: children_size_def)
  then show ?thesis by (cases n) (simp add: less_Suc_eq_le)
qed

lemma createLayer_sizes:
  assumes "createLayer names cs st = Inr (rs, st')"
  shows "next_sizes rs \<le> children_size cs"
proof (cases "cs = []")
  case False
  define f where "f = (\<lambda>n. node_name (node_of n))"
  from assms False have none: "None \<notin> set cs" by (auto simp: createLayer_def split: if_splits)
  have "mset (map size (sort_key f (map the cs))) = mset (map size (map the cs))"
    unfolding mset_map mset_sort ..
  then have "sum_list (map size (sort_key f (map the cs))) = sum_list (map size (map the cs))"
    by (metis sum_mset_sum_list)
  also have "\<dots> \<le> children_size cs"
    using none
  proof (induction cs)
    case (Cons c cs)
    then obtain n where "c = Some n" by (cases c) auto
    with Cons show ?case by (simp add: children_size_def)
  qed (simp add: children_size_def)
  finally have sorted: "sum_list (map size (sort_key f (map the cs))) \<le> children_size cs" .
  from assms False none obtain first others where "rs = first # others"
    and "create_layer_loop names (sort_key f (map the cs))
           (\<lparr>lan_layer = newPancakeModelLayer None, lan_next = None\<rparr>, [], st) = Inr (first, others, st')"
    by (auto simp: createLayer_def and_then_Inr f_def)
  with create_layer_loop_sizes sorted show ?thesis by (fastforce simp: next_sizes_def)
qed (use assms in \<open>simp add: createLayer_def next_sizes_def\<close>)

lemma create_layer_step_length:
  assumes "create_layer_step names c (first, others, st) = Inr (first', others', st')"
  shows "length others' \<le> length others + 1"
  using assms by (cases rule: create_layer_step_Inr) auto

lemma create_layer_loop_length:
  assumes "create_layer_loop names cs (first, others, st) = Inr (first', others', st')"
  shows "length others' \<le> length others + length cs"
  using assms
proof (induction cs arbitrary: first others st)
  case (Cons c cs)
  from Cons.prems obtain f m s where "create_layer_step names c (first, others, st) = Inr (f, m, s)"
    and "create_layer_loop names cs (f, m, s) = Inr (first', others', st')"
    by (auto simp: and_then_Inr)
  with Cons.IH create_layer_step_length show ?case by fastforce
qed simp

lemma createLayer_length:
  assumes "createLayer names cs st = Inr (rs, st')"
  shows "length rs \<le> length cs + 1"
  using assms
  by (auto simp: createLayer_def and_then_Inr split: if_splits dest: create_layer_loop_length)

section \<open>Paths of layers\<close>

text \<open>
  The layers below a list of children, one list for each pancake.  Only the first pancake through
  a bucket aggregation gets the metrics and pipelines beside it.
\<close>

definition below_layer :: "nat pancake_layer \<Rightarrow> nat pancake_layer list list \<Rightarrow> nat pancake_layer list list" where
  "below_layer l childLayers =
     (case childLayers of
        [] \<Rightarrow> [[l]]
      | c # cs \<Rightarrow> (l # c) # map ((#) (newPancakeModelLayer (nextBucketAggregation l))) cs)"

function aggregationChildrenToLayers ::
    "slice \<Rightarrow> agg_node option list \<Rightarrow> transformer
       \<Rightarrow> tr_failure + nat pancake_layer list list \<times> transformer"
  and results_to_layers ::
    "slice \<Rightarrow> layer_and_next list \<Rightarrow> transformer
       \<Rightarrow> tr_failure + nat pancake_layer list list \<times> transformer" where
  "aggregationChildrenToLayers aggrNames cs st =
     (case createLayer aggrNames cs st of
        Inl e \<Rightarrow> Inl e
      | Inr (results, st') \<Rightarrow> results_to_layers aggrNames results st')"
| "results_to_layers aggrNames [] st = Inr ([], st)"
| "results_to_layers aggrNames (r # rs) st =
     and_then
       (case lan_next r of
          None \<Rightarrow> Inr ([[lan_layer r]], st)
        | Some n \<Rightarrow>
            (case append_name aggrNames (node_name (node_of n)) st of
               (path, st0) \<Rightarrow>
                 (case aggregationChildrenToLayers path (node_children n) st0 of
                    Inl e \<Rightarrow> Inl e
                  | Inr (childLayers, st') \<Rightarrow> Inr (below_layer (lan_layer r) childLayers, st'))))
       (\<lambda>(ls, st1). and_then (results_to_layers aggrNames rs st1) (\<lambda>(ls', st2). Inr (ls @ ls', st2)))"
  by pat_completeness auto
termination
proof (relation "measures [\<lambda>x. case x of Inl (names, cs, st) \<Rightarrow> children_size cs | Inr (names, rs, st) \<Rightarrow> next_sizes rs,
                           \<lambda>x. case x of Inl (names, cs, st) \<Rightarrow> length cs + 2 | Inr (names, rs, st) \<Rightarrow> length rs]", goal_cases)
  case (2 aggrNames cs st y results st')
  then have "next_sizes results \<le> children_size cs" "length results \<le> length cs + 1"
    using createLayer_sizes createLayer_length by blast+
  then show ?case by auto
next
  case (3 aggrNames r rs st n)
  then show ?case using children_size_below [of n] by (simp add: next_sizes_def)
next
  case (4 aggrNames r rs st)
  then show ?case by (auto simp: next_sizes_def)
qed simp

section \<open>Names and paths\<close>

subsection \<open>Slices\<close>

text \<open>
  A state that has grown keeps the names it had, the buckets at their addresses, and of its arrays the
  capacity and the first three names.
\<close>

definition store_grows :: "transformer \<Rightarrow> transformer \<Rightarrow> bool" where
  "store_grows st st' \<longleftrightarrow> map_of (usedNames st) \<subseteq>\<^sub>m map_of (usedNames st')
     \<and> (\<exists>more. bucket_store st' = bucket_store st @ more)
     \<and> length (name_arrays st) \<le> length (name_arrays st')
     \<and> (\<forall>a < length (name_arrays st). length (name_arrays st' ! a) = length (name_arrays st ! a)
          \<and> take 3 (name_arrays st' ! a) = take 3 (name_arrays st ! a))"

lemma store_grows_refl [simp, intro]: "store_grows st st"
  by (simp add: store_grows_def)

lemma store_grows_trans [trans]: "store_grows a b \<Longrightarrow> store_grows b c \<Longrightarrow> store_grows a c"
  unfolding store_grows_def by (fastforce intro: map_le_trans)

lemma store_grows_bucket: "store_grows st st' \<Longrightarrow> b < length (bucket_store st) \<Longrightarrow>
    b < length (bucket_store st') \<and> bucket_store st' ! b = bucket_store st ! b"
  by (auto simp: store_grows_def nth_append)

text \<open>
  What a node does with the slice \<open>s\<close> of its path: it writes behind the slice, into its array, and
  into new arrays.
\<close>

definition written_behind :: "slice \<Rightarrow> string list list \<Rightarrow> string list list \<Rightarrow> bool" where
  "written_behind s arrays arrays' \<longleftrightarrow> length arrays \<le> length arrays'
     \<and> (\<forall>a < length arrays. length (arrays' ! a) = length (arrays ! a)
          \<and> (if a = sl_array s then slice_names arrays' s = slice_names arrays s else arrays' ! a = arrays ! a))"

definition recorded :: "transformer \<Rightarrow> bool" where
  "recorded st \<longleftrightarrow> (\<forall>(n, r) \<in> set (usedNames st). sl_array r < length (name_arrays st))"

definition moves :: "slice \<Rightarrow> transformer \<Rightarrow> transformer \<Rightarrow> bool" where
  "moves s st st' \<longleftrightarrow> store_grows st st' \<and> written_behind s (name_arrays st) (name_arrays st')
     \<and> (recorded st \<longrightarrow> recorded st')"

text \<open>The slice holds the path \<open>names\<close>; it is full, or has three names at least.\<close>

definition at_path :: "transformer \<Rightarrow> slice \<Rightarrow> string list \<Rightarrow> bool" where
  "at_path st s names \<longleftrightarrow> recorded st \<and> sl_array s < length (name_arrays st)
     \<and> sl_len s \<le> length (name_arrays st ! sl_array s)
     \<and> (sl_len s = length (name_arrays st ! sl_array s) \<or> 3 \<le> sl_len s)
     \<and> slice_names (name_arrays st) s = names"

lemma written_behind_trans:
  "written_behind s a b \<Longrightarrow> written_behind s b c \<Longrightarrow> written_behind s a c"
  unfolding written_behind_def by (smt (verit) order_less_le_trans order_trans)

lemma moves_refl [simp, intro]: "moves s st st"
  by (simp add: moves_def written_behind_def)

lemma moves_trans [trans]: "moves s a b \<Longrightarrow> moves s b c \<Longrightarrow> moves s a c"
  unfolding moves_def by (blast intro: store_grows_trans written_behind_trans)

lemma moves_grows: "moves s st st' \<Longrightarrow> store_grows st st'"
  by (simp add: moves_def)

lemma at_path_moves: "moves s st st' \<Longrightarrow> at_path st s names \<Longrightarrow> at_path st' s names"
  unfolding at_path_def moves_def written_behind_def by auto

lemma at_path_start: "at_path newPancakeTransformer no_names []"
  by (simp add: at_path_def newPancakeTransformer_def no_names_def slice_names_def recorded_def)

text \<open>Appending makes the path of a child; what the child does with it leaves the parent's slice as it is.\<close>

lemma append_name_path:
  assumes "at_path st s names" and "append_name s x st = (s', st')"
  shows "at_path st' s' (names @ [x])" "moves s st st'" "usedNames st' = usedNames st"
    "bucket_store st' = bucket_store st" "moves s' st' st'' \<Longrightarrow> moves s st st''"
proof -
  let ?arrays = "name_arrays st" and ?a = "sl_array s" and ?n = "sl_len s"
  let ?array = "?arrays ! ?a"
  from assms(1) have a: "?a < length ?arrays" "?n \<le> length ?array" "?n = length ?array \<or> 3 \<le> ?n"
    and names: "names = take ?n ?array" and rec: "recorded st"
    by (auto simp: at_path_def slice_names_def)
  have all: "at_path st' s' (names @ [x]) \<and> moves s st st' \<and> usedNames st' = usedNames st
      \<and> bucket_store st' = bucket_store st \<and> (moves s' st' st'' \<longrightarrow> moves s st st'')"
  proof (cases "?n < length ?array")
    case True
    then have s': "s' = \<lparr>sl_array = ?a, sl_len = Suc ?n\<rparr>"
      and st': "st' = st\<lparr>name_arrays := ?arrays[?a := ?array[?n := x]]\<rparr>"
      using assms(2) by (auto simp: append_name_def Let_def)
    from True a have three: "3 \<le> ?n" by simp
    have path: "at_path st' s' (names @ [x])"
      using True a three rec
      by (simp add: at_path_def s' st' slice_names_def names recorded_def take_Suc_conv_app_nth)
    have mv: "moves s st st'"
      using True a three by (auto simp: moves_def store_grows_def written_behind_def slice_names_def st' nth_list_update recorded_def)
    have "moves s st st''" if m: "moves s' st' st''"
    proof (rule moves_trans [OF mv])
      have "take ?n (name_arrays st'' ! ?a) = take ?n (name_arrays st' ! ?a)"
        if "take (Suc ?n) (name_arrays st'' ! ?a) = take (Suc ?n) (name_arrays st' ! ?a)"
        using arg_cong [OF that, of "take ?n"] by (simp add: min_def)
      with m show "moves s st' st''"
        unfolding moves_def written_behind_def s' slice_names_def by auto
    qed
    with path mv show ?thesis by (simp add: st')
  next
    case False
    with a have n: "?n = length ?array" by simp
    then have s': "s' = \<lparr>sl_array = length ?arrays, sl_len = Suc ?n\<rparr>"
      and st': "st' = st\<lparr>name_arrays := ?arrays @ [?array @ x # replicate (grown_capacity ?n - Suc ?n) '''']\<rparr>"
      using assms(2) by (auto simp: append_name_def Let_def)
    have path: "at_path st' s' (names @ [x])"
      using rec n by (auto simp: at_path_def s' st' slice_names_def names recorded_def grown_capacity_def)
    have mv: "moves s st st'"
      using a by (auto simp: moves_def store_grows_def written_behind_def slice_names_def st' nth_append recorded_def)
    have "moves s st st''" if m: "moves s' st' st''"
    proof -
      from m have w: "written_behind s' (name_arrays st') (name_arrays st'')" by (simp add: moves_def)
      have "written_behind s ?arrays (name_arrays st'')"
        unfolding written_behind_def
      proof (intro conjI allI impI)
        show "length ?arrays \<le> length (name_arrays st'')" using w by (simp add: written_behind_def st')
        fix i assume i: "i < length ?arrays"
        then have "name_arrays st'' ! i = name_arrays st' ! i"
          using w unfolding written_behind_def by (simp add: st' s')
        then have "name_arrays st'' ! i = ?arrays ! i" using i by (simp add: st' nth_append)
        then show "length (name_arrays st'' ! i) = length (?arrays ! i)"
          "if i = ?a then slice_names (name_arrays st'') s = slice_names ?arrays s else name_arrays st'' ! i = ?arrays ! i"
          by (auto simp: slice_names_def)
      qed
      with mv m show ?thesis unfolding moves_def using store_grows_trans by blast
    qed
    with path mv show ?thesis by (simp add: st')
  qed
  then show "at_path st' s' (names @ [x])" "moves s st st'" "usedNames st' = usedNames st"
    "bucket_store st' = bucket_store st" "moves s' st' st'' \<Longrightarrow> moves s st st''" by blast+
qed

subsection \<open>Recorded names\<close>

text \<open>
  The internal name \<open>n\<close> is recorded with a path as long as \<open>p\<close> and with the same first three names;
  those behind the third may have been overwritten since.
\<close>

definition named :: "transformer \<Rightarrow> string \<Rightarrow> string list \<Rightarrow> bool" where
  "named st n p \<longleftrightarrow> (\<exists>r. map_of (usedNames st) n = Some r \<and> sl_array r < length (name_arrays st)
     \<and> length (slice_names (name_arrays st) r) = length p
     \<and> take 3 (slice_names (name_arrays st) r) = take 3 p)"

lemma named_grows:
  assumes "store_grows st st'" "named st n p"
  shows "named st' n p"
proof -
  from assms(2) obtain r where r: "map_of (usedNames st) n = Some r" "sl_array r < length (name_arrays st)"
    "length (slice_names (name_arrays st) r) = length p" "take 3 (slice_names (name_arrays st) r) = take 3 p"
    by (auto simp: named_def)
  from assms(1) r(1,2) have "map_of (usedNames st') n = Some r" "sl_array r < length (name_arrays st')"
    and l: "length (name_arrays st' ! sl_array r) = length (name_arrays st ! sl_array r)"
    and t: "take 3 (name_arrays st' ! sl_array r) = take 3 (name_arrays st ! sl_array r)"
    unfolding store_grows_def map_le_def by (metis domI, auto)
  moreover from l r(3) have "length (slice_names (name_arrays st') r) = length p"
    by (simp add: slice_names_def)
  moreover from arg_cong [OF t, of "take (sl_len r)"] r(4) have "take 3 (slice_names (name_arrays st') r) = take 3 p"
    by (simp add: slice_names_def min.commute)
  ultimately show ?thesis by (auto simp: named_def)
qed

lemma unique_name_loop_used:
  assumes "unique_name_loop arrays used origName s c = (name, used')"
  shows "(\<exists>r. map_of used' name = Some r \<and> slice_names arrays r = slice_names arrays s)
     \<and> map_of used \<subseteq>\<^sub>m map_of used' \<and> set used' \<subseteq> insert (name, s) (set used)"
  using assms
proof (induction arrays used origName s c rule: unique_name_loop.induct)
  case (1 arrays used origName s c)
  show ?case
  proof (cases "map_of used (candidate_name origName (Suc c))")
    case None
    with 1(2) have "name = candidate_name origName (Suc c)" "used' = (name, s) # used"
      by (auto simp: unique_name_loop.simps [of arrays used] Let_def)
    with None show ?thesis by (auto simp: map_le_def)
  next
    case (Some prev)
    show ?thesis
    proof (cases "slice_names arrays prev = slice_names arrays s")
      case True
      with Some 1(2) show ?thesis by (auto simp: unique_name_loop.simps [of arrays used] Let_def)
    next
      case False
      with Some 1(2) have "unique_name_loop arrays used origName s (Suc c) = (name, used')"
        by (simp add: unique_name_loop.simps [of arrays used origName s c] Let_def)
      with 1(1) [OF refl Some False] show ?thesis by blast
    qed
  qed
qed

lemma generateUniqueInternalName_used:
  assumes "generateUniqueInternalName origName s st = (name, st')" and "at_path st s names"
  shows "named st' name names \<and> moves t st st' \<and> bucket_store st' = bucket_store st"
proof -
  obtain used' where loop: "unique_name_loop (name_arrays st) (usedNames st) origName s 0 = (name, used')"
    and st': "st' = st\<lparr>usedNames := used'\<rparr>"
    using assms(1) by (auto simp: generateUniqueInternalName_def split: prod.splits)
  note used = unique_name_loop_used [OF loop]
  from assms(2) have s: "recorded st" "sl_array s < length (name_arrays st)" "slice_names (name_arrays st) s = names"
    by (auto simp: at_path_def)
  with used have rec: "recorded st'" unfolding recorded_def st' by fastforce
  from used obtain r where r: "map_of used' name = Some r" "slice_names (name_arrays st) r = names"
    using s(3) by blast
  from map_of_SomeD [OF r(1)] rec have "sl_array r < length (name_arrays st)"
    unfolding recorded_def st' by fastforce
  with r have "named st' name names" by (auto simp: named_def st')
  moreover have "moves t st st'"
    using used rec by (simp add: moves_def store_grows_def written_behind_def st')
  ultimately show ?thesis by (simp add: st')
qed

lemma metric_used:
  assumes "metricAggregationTreeNodeToModel s (Some c) st = Inr (m, st')" and "at_path st s names"
  shows "named st' (metric_internalName m) (names @ [metric_name m])"
    and "metric_name m = node_name (node_of c)" and "moves s st st'"
proof -
  obtain q path st1 name where append: "append_name s (node_name (node_of c)) st = (path, st1)"
    and name: "generateMetricInternalName path q st1 = (name, st')"
    and m: "metric_internalName m = name" "metric_name m = node_name (node_of c)"
    using assms(1)
    by (auto simp: metricAggregationTreeNodeToModel_def Let_def split: option.splits prod.splits if_splits)
  note path = append_name_path [OF assms(2) append]
  from name generateUniqueInternalName_used [OF _ path(1)]
  have "named st' name (names @ [node_name (node_of c)]) \<and> moves s st1 st'"
    by (auto simp: generateMetricInternalName_def)
  with path(2) m moves_trans show "named st' (metric_internalName m) (names @ [metric_name m])"
    "metric_name m = node_name (node_of c)" "moves s st st'" by auto
qed

lemma bucket_used:
  assumes "bucketAggregationToLayer s (Some c) st = Inr (b, st')" and "at_path st s names"
  shows "b < length (bucket_store st')"
    and "bucket_name (bucket_store st' ! b) = node_name (node_of c)"
    and "named st' (bucket_internalName (bucket_store st' ! b)) (names @ [node_name (node_of c)])"
    and "moves s st st'" and "\<exists>q. node_queryType (node_of c) = Some (BucketQT q)"
proof -
  from assms(1) obtain q where q: "node_queryType (node_of c) = Some (BucketQT q)"
    by (auto simp: bucketAggregationToLayer_def Let_def split: option.splits query_type.splits)
  obtain path st1 where append: "append_name s (node_name (node_of c)) st = (path, st1)" by fastforce
  obtain name st2 where n: "generateBucketInternalName path st1 = (name, st2)" by fastforce
  from assms(1) q append n have b: "b = length (bucket_store st2)"
    and st': "\<exists>bk. st' = st2\<lparr>bucket_store := bucket_store st2 @ [bk]\<rparr>
      \<and> bucket_name bk = node_name (node_of c) \<and> bucket_internalName bk = name"
    by (auto simp: bucketAggregationToLayer_def Let_def intro!: exI)
  note path = append_name_path [OF assms(2) append]
  from n generateUniqueInternalName_used [OF _ path(1)]
  have u: "named st2 name (names @ [node_name (node_of c)])" "moves s st1 st2"
    by (auto simp: generateBucketInternalName_def)
  from st' have st2: "moves s st2 st'"
    by (auto simp: moves_def store_grows_def written_behind_def recorded_def)
  from st' b named_grows [OF moves_grows [OF st2] u(1)]
  show "b < length (bucket_store st')" "bucket_name (bucket_store st' ! b) = node_name (node_of c)"
    "named st' (bucket_internalName (bucket_store st' ! b)) (names @ [node_name (node_of c)])"
    by auto
  show "moves s st st'" using moves_trans path(2) u(2) st2 by blast
  from q show "\<exists>q. node_queryType (node_of c) = Some (BucketQT q)" ..
qed

subsection \<open>Paths of the tree\<close>

text \<open>The path of a node and of those below it; a pipeline has no column of its own.\<close>

fun node_paths :: "string list \<Rightarrow> agg_node \<Rightarrow> string list list" where
  "node_paths names (AggNode i cs) =
     (case node_queryType i of
        Some (BucketQT q) \<Rightarrow>
          (names @ [node_name i])
            # concat (map (\<lambda>c. case c of None \<Rightarrow> [] | Some n \<Rightarrow> node_paths (names @ [node_name i]) n) cs)
      | Some (MetricQT q) \<Rightarrow> [names @ [node_name i]]
      | _ \<Rightarrow> [])"

definition tree_paths :: "string list \<Rightarrow> agg_node option list \<Rightarrow> string list set" where
  "tree_paths names cs = (\<Union>c \<in> set cs. case c of None \<Rightarrow> {} | Some n \<Rightarrow> set (node_paths names n))"

lemma node_paths_bucket:
  "node_queryType (node_of n) = Some (BucketQT q) \<Longrightarrow>
   set (node_paths names n)
     = insert (names @ [node_name (node_of n)]) (tree_paths (names @ [node_name (node_of n)]) (node_children n))"
  by (cases n) (auto simp: tree_paths_def split: option.splits)

lemma node_paths_metric:
  "node_queryType (node_of n) = Some q \<Longrightarrow> AggregationType q = MetricsAggregation \<Longrightarrow>
   set (node_paths names n) = {names @ [node_name (node_of n)]}"
  by (cases n; cases q) (auto simp: AggregationType_def pipeline_AggregationType_def split: pipeline_kind.splits)

lemma node_paths_pipeline:
  "pipelineAggregationToLayer ns (Some n) = Inr p \<Longrightarrow> node_paths path n = []"
  by (cases n) (auto simp: pipelineAggregationToLayer_def Let_def split: option.splits query_type.splits)

subsection \<open>Paths of a pancake\<close>

text \<open>The internal names of the metrics and buckets of layers, with the paths they stand for.\<close>

fun named_paths :: "transformer \<Rightarrow> string list \<Rightarrow> nat pancake_layer list \<Rightarrow> (string \<times> string list) list" where
  "named_paths st names [] = []"
| "named_paths st names (l # ls) =
     map (\<lambda>m. (metric_internalName m, names @ [metric_name m])) (currentMetricAggregations l)
     @ (case nextBucketAggregation l of
          None \<Rightarrow> []
        | Some b \<Rightarrow>
            let bucket = bucket_store st ! b; path = names @ [bucket_name bucket]
            in (bucket_internalName bucket, path) # named_paths st path ls)"

text \<open>Every layer but the last has a bucket aggregation, and all are in the store.\<close>

definition chained :: "transformer \<Rightarrow> nat pancake_layer list \<Rightarrow> bool" where
  "chained st ls \<longleftrightarrow> ls \<noteq> [] \<and> (\<forall>l \<in> set (butlast ls). nextBucketAggregation l \<noteq> None)
     \<and> (\<forall>l \<in> set ls. \<forall>b. nextBucketAggregation l = Some b \<longrightarrow> b < length (bucket_store st))"

definition names_used :: "transformer \<Rightarrow> string list \<Rightarrow> nat pancake_layer list \<Rightarrow> bool" where
  "names_used st names ls \<longleftrightarrow> (\<forall>(n, p) \<in> set (named_paths st names ls). named st n p)"

lemma named_paths_grows:
  assumes "store_grows st st'" and "\<forall>l \<in> set ls. \<forall>b. nextBucketAggregation l = Some b \<longrightarrow> b < length (bucket_store st)"
  shows "named_paths st' names ls = named_paths st names ls"
  using assms(2)
proof (induction ls arbitrary: names)
  case (Cons l ls)
  then show ?case
    using store_grows_bucket [OF assms(1)] by (auto simp: Let_def split: option.splits)
qed simp

lemma layers_grow:
  assumes "store_grows st st'" "chained st ls" "names_used st names ls"
  shows "chained st' ls" "names_used st' names ls" "named_paths st' names ls = named_paths st names ls"
proof -
  show paths: "named_paths st' names ls = named_paths st names ls"
    using named_paths_grows assms(1,2) by (auto simp: chained_def)
  show "chained st' ls" using assms(1,2) store_grows_bucket by (fastforce simp: chained_def)
  show "names_used st' names ls"
    using assms(3) named_grows [OF assms(1)] by (auto simp: names_used_def paths)
qed

subsection \<open>What a list of children gives\<close>

text \<open>A result knows the names of its layer and the node of its bucket.\<close>

definition result_ok :: "transformer \<Rightarrow> string list \<Rightarrow> layer_and_next \<Rightarrow> bool" where
  "result_ok st names r \<longleftrightarrow>
     (\<forall>m \<in> set (currentMetricAggregations (lan_layer r)).
        named st (metric_internalName m) (names @ [metric_name m]))
     \<and> (case lan_next r of
          None \<Rightarrow> nextBucketAggregation (lan_layer r) = None
        | Some n \<Rightarrow>
            (\<exists>b q. nextBucketAggregation (lan_layer r) = Some b \<and> b < length (bucket_store st)
               \<and> node_queryType (node_of n) = Some (BucketQT q)
               \<and> bucket_name (bucket_store st ! b) = node_name (node_of n)
               \<and> named st (bucket_internalName (bucket_store st ! b)) (names @ [node_name (node_of n)])))"

lemma result_ok_grows: "store_grows st st' \<Longrightarrow> result_ok st names r \<Longrightarrow> result_ok st' names r"
  using store_grows_bucket named_grows unfolding result_ok_def by (fastforce split: option.splits)

lemma result_ok_moves: "moves s st st' \<Longrightarrow> result_ok st names r \<Longrightarrow> result_ok st' names r"
  by (rule result_ok_grows [OF moves_grows])

definition result_paths :: "string list \<Rightarrow> layer_and_next \<Rightarrow> string list set" where
  "result_paths names r =
     (\<lambda>m. names @ [metric_name m]) ` set (currentMetricAggregations (lan_layer r))
     \<union> (case lan_next r of None \<Rightarrow> {} | Some n \<Rightarrow> set (node_paths names n))"

lemma result_ok_add_metric:
  "result_ok st names r \<Longrightarrow> named st (metric_internalName m) (names @ [metric_name m]) \<Longrightarrow>
   result_ok st names (add_metric m r)"
  by (auto simp: result_ok_def split: option.splits)

lemma result_ok_add_pipeline: "result_ok st names (add_pipeline p r) = result_ok st names r"
  by (auto simp: result_ok_def split: option.splits)

lemma result_paths_add_metric:
  "result_paths names (add_metric m r) = insert (names @ [metric_name m]) (result_paths names r)"
  by (auto simp: result_paths_def)

lemma result_paths_add_pipeline: "result_paths names (add_pipeline p r) = result_paths names r"
  by (auto simp: result_paths_def)

lemma result_ok_bucket:
  assumes "bucketAggregationToLayer s (Some c) st = Inr (b, st')" and "at_path st s names"
    and "nextBucketAggregation l = Some b" and "\<forall>m \<in> set (currentMetricAggregations l).
        named st' (metric_internalName m) (names @ [metric_name m])"
  shows "result_ok st' names \<lparr>lan_layer = l, lan_next = Some c\<rparr>"
  using bucket_used [OF assms(1,2)] assms(3,4) by (auto simp: result_ok_def)

lemma create_layer_step_paths:
  assumes step: "create_layer_step s c (first, others, st) = Inr (first', others', st')"
    and path: "at_path st s names" and ok: "\<forall>r \<in> set (first # others). result_ok st names r"
  shows "moves s st st' \<and> (\<forall>r \<in> set (first' # others'). result_ok st' names r)
     \<and> (\<Union>r \<in> set (first' # others'). result_paths names r)
         = (\<Union>r \<in> set (first # others). result_paths names r) \<union> set (node_paths names c)"
  using step
proof (cases rule: create_layer_step_Inr)
  case (metric q m)
  note used = metric_used [OF metric(3) path]
  with ok result_ok_moves have "result_ok st' names first" "\<forall>r \<in> set others. result_ok st' names r" by auto
  with used metric(4,5) show ?thesis
    by (simp add: result_ok_add_metric result_paths_add_metric node_paths_metric [OF metric(1,2)] Un_commute)
next
  case (bucket b)
  note g = bucket_used(4) [OF bucket(1) path]
  with ok result_ok_moves have first: "result_ok st' names first" and "\<forall>r \<in> set others. result_ok st' names r" by auto
  moreover have "result_ok st' names first'"
    unfolding bucket(3) by (rule result_ok_bucket [OF bucket(1) path]) (use first in \<open>simp_all add: result_ok_def\<close>)
  moreover have "result_paths names first' = result_paths names first \<union> set (node_paths names c)"
    using bucket(2) by (simp add: bucket(3) result_paths_def)
  ultimately show ?thesis using g bucket(4) by auto
next
  case (filter b st1)
  from filter(3) obtain m w where m: "metricAggregationTreeNodeToModel s (Some c) st1 = Inr (m, st')"
    "node_queryType (node_of c) = Some (BucketQT (FilterAgg w))" "node_children c = []"
    "first' = add_metric (m\<lparr>metric_selectedColumns := [FunctionExpr ''countIf'' [w]]\<rparr>) first"
    by (rule optimizeSimpleFilter_Some)
  note b = bucket_used(4) [OF filter(1) path]
  note used = metric_used [OF m(1) at_path_moves [OF b path]]
  have g: "moves s st st'" using moves_trans [OF b used(3)] .
  with ok result_ok_moves have "result_ok st' names first" "\<forall>r \<in> set others. result_ok st' names r" by auto
  moreover have "set (node_paths names c) = {names @ [metric_name m]}"
    using m(3) used(2) by (simp add: node_paths_bucket [OF m(2)] tree_paths_def)
  ultimately show ?thesis
    using g filter(4) m(4) used(1) by (simp add: result_ok_add_metric result_paths_add_metric Un_commute)
next
  case (another b)
  let ?r = "\<lparr>lan_layer = newPancakeModelLayer (Some b), lan_next = Some c\<rparr>"
  note g = bucket_used(4) [OF another(1) path]
  with ok result_ok_moves have "\<forall>r \<in> set (first # others). result_ok st' names r" by auto
  moreover have "result_ok st' names ?r"
    by (rule result_ok_bucket [OF another(1) path]) (simp_all add: newPancakeModelLayer_def)
  moreover have "result_paths names ?r = set (node_paths names c)"
    by (simp add: result_paths_def newPancakeModelLayer_def)
  ultimately show ?thesis using g another(4,5) by auto
next
  case (pipeline p)
  with ok node_paths_pipeline [OF pipeline(1), of names] show ?thesis
    by (simp add: result_ok_add_pipeline result_paths_add_pipeline)
qed

lemma create_layer_loop_paths:
  assumes "create_layer_loop s cs (first, others, st) = Inr (first', others', st')"
    and "at_path st s names" and "\<forall>r \<in> set (first # others). result_ok st names r"
  shows "moves s st st' \<and> (\<forall>r \<in> set (first' # others'). result_ok st' names r)
     \<and> (\<Union>r \<in> set (first' # others'). result_paths names r)
         = (\<Union>r \<in> set (first # others). result_paths names r) \<union> (\<Union>c \<in> set cs. set (node_paths names c))"
  using assms
proof (induction cs arbitrary: first others st)
  case (Cons c cs)
  from Cons.prems(1) obtain f m st1 where step: "create_layer_step s c (first, others, st) = Inr (f, m, st1)"
    and loop: "create_layer_loop s cs (f, m, st1) = Inr (first', others', st')"
    by (auto simp: and_then_Inr)
  note one = create_layer_step_paths [OF step Cons.prems(2,3)]
  have "\<forall>r \<in> set (f # m). result_ok st1 names r" using conjunct1 [OF conjunct2 [OF one]] .
  note rest = Cons.IH [OF loop at_path_moves [OF conjunct1 [OF one] Cons.prems(2)] this]
  have "(\<Union>r \<in> set (first' # others'). result_paths names r)
      = (\<Union>r \<in> set (f # m). result_paths names r) \<union> (\<Union>c \<in> set cs. set (node_paths names c))"
    using rest by blast
  also have "\<dots> = (\<Union>r \<in> set (first # others). result_paths names r) \<union> set (node_paths names c)
      \<union> (\<Union>c \<in> set cs. set (node_paths names c))"
    using one by argo
  also have "\<dots> = (\<Union>r \<in> set (first # others). result_paths names r) \<union> (\<Union>c \<in> set (c # cs). set (node_paths names c))"
    by (simp only: list.set UN_insert Un_assoc)
  finally have "(\<Union>r \<in> set (first' # others'). result_paths names r)
      = (\<Union>r \<in> set (first # others). result_paths names r) \<union> (\<Union>c \<in> set (c # cs). set (node_paths names c))" .
  moreover have "moves s st st'" using moves_trans [OF conjunct1 [OF one] conjunct1 [OF rest]] .
  ultimately show ?case using conjunct1 [OF conjunct2 [OF rest]] by (intro conjI)
qed simp

lemma createLayer_paths:
  assumes "createLayer s cs st = Inr (rs, st')" and path: "at_path st s names"
  shows "moves s st st'" "\<forall>r \<in> set rs. result_ok st' names r"
    "(\<Union>r \<in> set rs. result_paths names r) = tree_paths names cs"
proof -
  define first where "first = \<lparr>lan_layer = newPancakeModelLayer None :: nat pancake_layer, lan_next = None\<rparr>"
  define f where "f = (\<lambda>n. node_name (node_of n))"
  have ok: "\<forall>r \<in> set [first]. result_ok st names r" and none: "result_paths names first = {}"
    by (simp_all add: first_def result_ok_def result_paths_def newPancakeModelLayer_def)
  have "moves s st st' \<and> (\<forall>r \<in> set rs. result_ok st' names r) \<and> (\<Union>r \<in> set rs. result_paths names r) = tree_paths names cs"
  proof (cases "cs = []")
    case False
    with assms(1) obtain f' o' where n: "None \<notin> set cs" and rs: "rs = f' # o'"
      and loop: "create_layer_loop s (sort_key f (map the cs)) (first, [], st) = Inr (f', o', st')"
      by (auto simp: createLayer_def and_then_Inr first_def f_def split: if_splits)
    have "(case c of None \<Rightarrow> {} | Some n \<Rightarrow> set (node_paths names n)) = set (node_paths names (the c))" if "c \<in> set cs" for c
      using n that by (cases c) auto
    then have "tree_paths names cs = (\<Union>c \<in> set (map the cs). set (node_paths names c))"
      by (simp add: tree_paths_def)
    also have "\<dots> = (\<Union>c \<in> set (sort_key f (map the cs)). set (node_paths names c))"
      by (simp only: set_sort)
    finally have paths: "tree_paths names cs = (\<Union>r \<in> set [first]. result_paths names r)
        \<union> (\<Union>c \<in> set (sort_key f (map the cs)). set (node_paths names c))"
      by (simp add: none)
    show ?thesis unfolding rs paths by (rule create_layer_loop_paths [OF loop path ok])
  qed (use assms in \<open>simp add: createLayer_def tree_paths_def\<close>)
  then show "moves s st st'" "\<forall>r \<in> set rs. result_ok st' names r"
    "(\<Union>r \<in> set rs. result_paths names r) = tree_paths names cs" by blast+
qed

subsection \<open>All layers\<close>

definition layers_cover :: "transformer \<Rightarrow> string list \<Rightarrow> nat pancake_layer list list \<Rightarrow> string list set \<Rightarrow> bool" where
  "layers_cover st names ls paths \<longleftrightarrow>
     (\<forall>l \<in> set ls. chained st l \<and> names_used st names l)
     \<and> (\<Union>l \<in> set ls. snd ` set (named_paths st names l)) = paths"

lemma layers_cover_grows:
  assumes "store_grows st st'" "layers_cover st names ls paths"
  shows "layers_cover st' names ls paths"
  using layers_grow [OF assms(1)] assms(2) by (auto simp: layers_cover_def)

lemma layers_cover_append:
  "layers_cover st names ls p \<Longrightarrow> layers_cover st names ls' p' \<Longrightarrow> layers_cover st names (ls @ ls') (p \<union> p')"
  by (auto simp: layers_cover_def)

lemma layers_cover_single:
  assumes "result_ok st names r" "lan_next r = None"
  shows "layers_cover st names [[lan_layer r]] (result_paths names r)"
  using assms by (auto simp: layers_cover_def chained_def names_used_def result_ok_def result_paths_def image_image)

text \<open>A bucket on top of layers.\<close>

lemma bucket_on_top:
  assumes l: "nextBucketAggregation l = Some b" "b < length (bucket_store st)"
    and used: "named st (bucket_internalName (bucket_store st ! b)) (names @ [bucket_name (bucket_store st ! b)])"
      "\<forall>m \<in> set (currentMetricAggregations l). named st (metric_internalName m) (names @ [metric_name m])"
    and c: "c = [] \<or> chained st c" "names_used st (names @ [bucket_name (bucket_store st ! b)]) c"
  shows "chained st (l # c)" "names_used st names (l # c)"
    "snd ` set (named_paths st names (l # c))
       = (\<lambda>m. names @ [metric_name m]) ` set (currentMetricAggregations l)
         \<union> insert (names @ [bucket_name (bucket_store st ! b)])
             (snd ` set (named_paths st (names @ [bucket_name (bucket_store st ! b)]) c))"
  using assms by (auto simp: chained_def names_used_def image_image image_Un Let_def)

lemma below_layer_cover:
  assumes ok: "result_ok st names r" and n: "lan_next r = Some n"
    and below: "layers_cover st (names @ [node_name (node_of n)]) childLayers
                  (tree_paths (names @ [node_name (node_of n)]) (node_children n))"
  shows "layers_cover st names (below_layer (lan_layer r) childLayers) (result_paths names r)"
proof -
  let ?l = "lan_layer r" and ?path = "names @ [node_name (node_of n)]"
  from ok n obtain b q where b: "nextBucketAggregation ?l = Some b" "b < length (bucket_store st)"
    and q: "node_queryType (node_of n) = Some (BucketQT q)"
    and name: "bucket_name (bucket_store st ! b) = node_name (node_of n)"
    and used: "named st (bucket_internalName (bucket_store st ! b)) ?path"
      "\<forall>m \<in> set (currentMetricAggregations ?l). named st (metric_internalName m) (names @ [metric_name m])"
    by (auto simp: result_ok_def)
  let ?metrics = "(\<lambda>m. names @ [metric_name m]) ` set (currentMetricAggregations ?l)"
  have paths: "result_paths names r = ?metrics \<union> insert ?path (tree_paths ?path (node_children n))"
    using n q by (simp add: result_paths_def node_paths_bucket)
  have top: "chained st (?l # c) \<and> names_used st names (?l # c)
      \<and> snd ` set (named_paths st names (?l # c)) = ?metrics \<union> insert ?path (snd ` set (named_paths st ?path c))"
    if "c = [] \<or> chained st c" "names_used st ?path c" for c
    using bucket_on_top [OF b, of names c] used that by (simp only: name simp_thms)
  let ?new = "newPancakeModelLayer (nextBucketAggregation ?l)"
  have copy: "chained st (?new # c) \<and> names_used st names (?new # c)
      \<and> snd ` set (named_paths st names (?new # c)) = insert ?path (snd ` set (named_paths st ?path c))"
    if "c = [] \<or> chained st c" "names_used st ?path c" for c
    using bucket_on_top [of ?new b st names c] b used(1) that by (simp add: newPancakeModelLayer_def name)
  show ?thesis
  proof (cases childLayers)
    case Nil
    with below have "tree_paths ?path (node_children n) = {}" by (simp add: layers_cover_def)
    with top [of "[]"] paths Nil show ?thesis
      by (simp add: layers_cover_def below_layer_def names_used_def)
  next
    case (Cons c cs)
    from below have cover: "\<forall>x \<in> set (c # cs). chained st x \<and> names_used st ?path x"
      "(\<Union>x \<in> set (c # cs). snd ` set (named_paths st ?path x)) = tree_paths ?path (node_children n)"
      by (simp_all add: layers_cover_def Cons)
    have good: "\<forall>x \<in> set (below_layer ?l (c # cs)). chained st x \<and> names_used st names x"
      using cover(1) top copy by (auto simp: below_layer_def)
    have "(\<Union>x \<in> set (below_layer ?l (c # cs)). snd ` set (named_paths st names x))
        = ?metrics \<union> insert ?path (snd ` set (named_paths st ?path c))
          \<union> (\<Union>x \<in> set cs. insert ?path (snd ` set (named_paths st ?path x)))"
      using cover(1) top copy by (simp add: below_layer_def)
    also have "\<dots> = result_paths names r"
      unfolding paths cover(2) [symmetric] by auto
    finally show ?thesis using good by (simp add: layers_cover_def Cons)
  qed
qed

lemma layers_of_children:
  "aggregationChildrenToLayers s cs st = Inr (ls, st') \<Longrightarrow> at_path st s names \<Longrightarrow>
     moves s st st' \<and> layers_cover st' names ls (tree_paths names cs)"
  "results_to_layers s rs st = Inr (ls, st') \<Longrightarrow> at_path st s names \<Longrightarrow> \<forall>r \<in> set rs. result_ok st names r \<Longrightarrow>
     moves s st st' \<and> layers_cover st' names ls (\<Union>r \<in> set rs. result_paths names r)"
proof (induction s cs st and s rs st arbitrary: ls st' names and ls st' names
    rule: aggregationChildrenToLayers_results_to_layers.induct)
  case (1 s cs st)
  from 1(2) obtain rs st1 where created: "createLayer s cs st = Inr (rs, st1)"
    and results: "results_to_layers s rs st1 = Inr (ls, st')"
    by (auto split: sum.split_asm prod.split_asm)
  note made = createLayer_paths [OF created 1(3)]
  from 1(1) [OF created refl results at_path_moves [OF made(1) 1(3)] made(2)] have "moves s st1 st'"
    and "layers_cover st' names ls (\<Union>r \<in> set rs. result_paths names r)" by blast+
  with made(1,3) show ?case using moves_trans by simp
next
  case (2 s st)
  then show ?case by (simp add: layers_cover_def)
next
  case (3 s r rs st)
  from 3(3) obtain l1 st1 l2 where head: "(case lan_next r of
          None \<Rightarrow> Inr ([[lan_layer r]], st)
        | Some n \<Rightarrow>
            (case append_name s (node_name (node_of n)) st of
               (path, st0) \<Rightarrow>
                 (case aggregationChildrenToLayers path (node_children n) st0 of
                    Inl e \<Rightarrow> Inl e
                  | Inr (childLayers, st') \<Rightarrow> Inr (below_layer (lan_layer r) childLayers, st')))) = (Inr (l1, st1) :: tr_failure + _)"
    and rest: "results_to_layers s rs st1 = Inr (l2, st')" and ls: "ls = l1 @ l2"
    by (auto simp: and_then_Inr)
  from 3(5) have ok: "result_ok st names r" by simp
  have "moves s st st1 \<and> layers_cover st1 names l1 (result_paths names r)"
  proof (cases "lan_next r")
    case None
    with head layers_cover_single [OF ok None] show ?thesis by simp
  next
    case (Some n)
    obtain path st0 where append: "append_name s (node_name (node_of n)) st = (path, st0)" by fastforce
    note path = append_name_path [OF 3(4) append]
    from Some head append obtain cl where "aggregationChildrenToLayers path (node_children n) st0 = Inr (cl, st1)"
      and l1: "l1 = below_layer (lan_layer r) cl"
      by (auto split: sum.split_asm)
    with 3(1) [OF Some append [symmetric] _ path(1)] have below: "moves path st0 st1"
      and cover: "layers_cover st1 (names @ [node_name (node_of n)]) cl
             (tree_paths (names @ [node_name (node_of n)]) (node_children n))" by blast+
    from path(5) [OF below] have mv: "moves s st st1" .
    with below_layer_cover [OF result_ok_moves [OF mv ok] Some cover] l1 show ?thesis by blast
  qed
  then have one: "moves s st st1" "layers_cover st1 names l1 (result_paths names r)" by blast+
  with 3(5) result_ok_moves have "\<forall>r \<in> set rs. result_ok st1 names r" by simp
  from 3(2) [OF head refl rest at_path_moves [OF one(1) 3(4)] this] have two: "moves s st1 st'"
    "layers_cover st' names l2 (\<Union>r \<in> set rs. result_paths names r)" by blast+
  show ?case
    using moves_trans [OF one(1) two(1)]
      layers_cover_append [OF layers_cover_grows [OF moves_grows [OF two(1)] one(2)] two(2)]
    by (simp add: ls)
qed

section \<open>Properties\<close>

text \<open>
  A tree whose joined names collide: a terms aggregation \<open>1\<close> with a metric \<open>2__3\<close>, and one \<open>1__2\<close>
  with a metric \<open>3\<close>, beside a metric and a pipeline.
\<close>

definition leaf_info :: "string \<Rightarrow> query_type \<Rightarrow> node_info" where
  "leaf_info name q =
     \<lparr>node_name = name, node_queryType = Some q, node_selectedColumns = [], node_orderBy = [], node_limit = 0,
      node_isKeyed = False, filterOutEmptyKeyBucket = False, node_metadata = None\<rparr>"

definition colliding_tree :: "agg_node option list" where
  "colliding_tree =
     [Some (AggNode (leaf_info ''1__2'' (BucketQT (Terms False None None)))
        [Some (AggNode (leaf_info ''3'' (MetricQT Cardinality)) [])]),
      Some (AggNode (leaf_info ''m'' (MetricQT ValueCount)) []),
      Some (AggNode (leaf_info ''p'' (PipelineQT
        \<lparr>pipeline_kind = Derivative, Parent = [], PathToParent = [], parentBucketAggregation = None, isCount = True\<rparr>)) []),
      Some (AggNode (leaf_info ''1'' (BucketQT (Terms False None None)))
        [Some (AggNode (leaf_info ''2__3'' (MetricQT Cardinality)) [])])]"

definition paths_of_run :: "tr_failure + nat pancake_layer list list \<times> transformer \<Rightarrow> (string \<times> string list) list list" where
  "paths_of_run r = (case r of Inl e \<Rightarrow> [] | Inr (ls, st) \<Rightarrow> map (named_paths st []) ls)"

lemma colliding_paths:
  "paths_of_run (aggregationChildrenToLayers no_names colliding_tree newPancakeTransformer) =
     [[(''metric__m'', [''m'']), (''aggr__1__'', [''1'']), (''metric__1__2__3'', [''1'', ''2__3''])],
      [(''aggr__1__2__'', [''1__2'']), (''metric__1__2__32'', [''1__2'', ''3''])]]"
  by code_simp

lemma colliding_run:
  obtains ls st where "aggregationChildrenToLayers no_names colliding_tree newPancakeTransformer = Inr (ls, st)"
    and "map (named_paths st []) ls =
     [[(''metric__m'', [''m'']), (''aggr__1__'', [''1'']), (''metric__1__2__3'', [''1'', ''2__3''])],
      [(''aggr__1__2__'', [''1__2'']), (''metric__1__2__32'', [''1__2'', ''3''])]]"
  using colliding_paths by (auto simp: paths_of_run_def split: sum.split_asm)

text \<open>
  C7: No aggregation is lost or made up when a request is cut into pancakes: the paths of the metrics and
  buckets of the pancakes are those of the metric and bucket aggregations of the tree.
\<close>

theorem pancakes_cover_the_tree:
  assumes "aggregationChildrenToLayers no_names cs newPancakeTransformer = Inr (ls, st)"
  shows "(\<Union>l \<in> set ls. snd ` set (named_paths st [] l)) = tree_paths [] cs"
  using layers_of_children(1) [OF assms at_path_start] by (simp add: layers_cover_def)

theorem pancakes_cover_the_tree_witness:
  "\<exists>ls st. aggregationChildrenToLayers no_names colliding_tree newPancakeTransformer = Inr (ls, st)
     \<and> tree_paths [] colliding_tree = {[''m''], [''1''], [''1'', ''2__3''], [''1__2''], [''1__2'', ''3'']}"
proof -
  obtain ls st where run: "aggregationChildrenToLayers no_names colliding_tree newPancakeTransformer = Inr (ls, st)"
    and paths: "map (named_paths st []) ls =
     [[(''metric__m'', [''m'']), (''aggr__1__'', [''1'']), (''metric__1__2__3'', [''1'', ''2__3''])],
      [(''aggr__1__2__'', [''1__2'']), (''metric__1__2__32'', [''1__2'', ''3''])]]"
    by (rule colliding_run)
  have "(\<Union>l \<in> set ls. snd ` set (named_paths st [] l)) = (\<Union>x \<in> set (map (named_paths st []) ls). snd ` set x)"
    by simp
  also have "\<dots> = {[''m''], [''1''], [''1'', ''2__3''], [''1__2''], [''1__2'', ''3'']}"
    unfolding paths by code_simp
  finally show ?thesis using pancakes_cover_the_tree [OF run] run by simp
qed

text \<open>
  C12: Two metrics or buckets of the pancakes of a request that have the same internal name are at the
  same depth and below the same first three names, also when joined names collide; down to the third
  level an internal name stands for one path.
\<close>

theorem internal_names_identify_paths:
  assumes "aggregationChildrenToLayers no_names cs newPancakeTransformer = Inr (ls, st)"
    and "(n, p) \<in> (\<Union>l \<in> set ls. set (named_paths st [] l))" "(n, p') \<in> (\<Union>l \<in> set ls. set (named_paths st [] l))"
  shows "length p = length p' \<and> take 3 p = take 3 p' \<and> (length p \<le> 3 \<longrightarrow> p = p')"
proof -
  have "named st n x" if "(n, x) \<in> (\<Union>l \<in> set ls. set (named_paths st [] l))" for x
    using layers_of_children(1) [OF assms(1) at_path_start] that unfolding layers_cover_def names_used_def by blast
  from assms(2,3) [THEN this] have "length p = length p'" "take 3 p = take 3 p'"
    by (auto simp: named_def)
  then show ?thesis by (metis take_all)
qed

theorem internal_names_identify_paths_witness:
  "\<exists>ls st. aggregationChildrenToLayers no_names colliding_tree newPancakeTransformer = Inr (ls, st)
     \<and> (''metric__1__2__32'', [''1__2'', ''3'']) \<in> (\<Union>l \<in> set ls. set (named_paths st [] l))
     \<and> (\<forall>p. (''metric__1__2__32'', p) \<in> (\<Union>l \<in> set ls. set (named_paths st [] l)) \<longrightarrow> p = [''1__2'', ''3''])"
proof -
  obtain ls st where run: "aggregationChildrenToLayers no_names colliding_tree newPancakeTransformer = Inr (ls, st)"
    and paths: "map (named_paths st []) ls =
     [[(''metric__m'', [''m'']), (''aggr__1__'', [''1'']), (''metric__1__2__3'', [''1'', ''2__3''])],
      [(''aggr__1__2__'', [''1__2'']), (''metric__1__2__32'', [''1__2'', ''3''])]]"
    by (rule colliding_run)
  have "(\<Union>l \<in> set ls. set (named_paths st [] l)) = (\<Union>x \<in> set (map (named_paths st []) ls). set x)"
    by simp
  then have "(''metric__1__2__32'', [''1__2'', ''3'']) \<in> (\<Union>l \<in> set ls. set (named_paths st [] l))"
    unfolding paths by simp
  note name = this
  have "p = [''1__2'', ''3'']" if "(''metric__1__2__32'', p) \<in> (\<Union>l \<in> set ls. set (named_paths st [] l))" for p
    using internal_names_identify_paths [OF run name that] by simp
  with run name show ?thesis by blast
qed

text \<open>
  On the fourth level it does not: the path of the metric \<open>m\<close> is kept in an array that \<open>m2\<close> then
  writes to, so the name given to \<open>m\<close>, made different from that of \<open>c__m\<close>, is taken to be that of \<open>m2\<close>.
\<close>

definition count_node :: "string \<Rightarrow> agg_node option" where
  "count_node name = Some (AggNode (leaf_info name (MetricQT ValueCount)) [])"

definition group_node :: "string \<Rightarrow> agg_node option list \<Rightarrow> agg_node option" where
  "group_node name cs = Some (AggNode (leaf_info name (BucketQT (Terms False None None))) cs)"

lemma fourth_level_names_collide:
  "paths_of_run (aggregationChildrenToLayers no_names
       [group_node ''a'' [group_node ''b'' [group_node ''c'' [count_node ''m'', count_node ''m2''], count_node ''c__m'']]]
       newPancakeTransformer) =
     [[(''aggr__a__'', [''a'']), (''aggr__a__b__'', [''a'', ''b'']),
       (''metric__a__b__c__m'', [''a'', ''b'', ''c__m'']), (''aggr__a__b__c__'', [''a'', ''b'', ''c'']),
       (''metric__a__b__c__m2'', [''a'', ''b'', ''c'', ''m'']),
       (''metric__a__b__c__m2'', [''a'', ''b'', ''c'', ''m2''])]]"
  by code_simp

text \<open>
  The layers of a pancake are chained by buckets: there is a layer, every layer but the last has a
  bucket aggregation, and it is in the store.
\<close>

theorem layers_are_chained:
  assumes "aggregationChildrenToLayers no_names cs newPancakeTransformer = Inr (ls, st)" and "l \<in> set ls"
  shows "chained st l"
  using layers_of_children(1) [OF assms(1) at_path_start] assms(2) by (simp add: layers_cover_def)

text \<open>
  The comment on \<open>pancakeModel.layers\<close> also wants the last layer to have none, which fails for a
  bucket aggregation without aggregations below.
\<close>

lemma last_layer_may_have_a_bucket:
  "(case aggregationChildrenToLayers no_names [Some (AggNode (leaf_info ''t'' (BucketQT (Terms False None None))) [])]
           newPancakeTransformer of
      Inr ([[l]], st) \<Rightarrow> nextBucketAggregation l = Some 0
    | _ \<Rightarrow> False)"
  by code_simp

text \<open>An empty aggregation is parsed as a nil node, on which the transformation panics.\<close>

lemma empty_aggregation_panics: "createLayer names [None] st = Inl TrPanic"
  by (simp add: createLayer_def)

end
