(* ===== verification/Pancake_Transformer.thy ===== *)
theory Pancake_Transformer
  imports Pancake_Layers
begin

text \<open>
  From layers to pancakes: the second half of \<open>pancake_transformer.go\<close>, and the start of
  \<open>PancakeParseAggregationJson\<close>.

  Pipelines are connected with the layers of the aggregations they read, the key of an automatic
  date histogram is found in the where clause, and a pancake is split where one query cannot
  compute it: for each group of a first aggregation by conditions, and for each metric that takes
  rows (top hits and top metrics).
\<close>

section \<open>Pipelines\<close>

text \<open>
  The layer at the end of a path of buckets, as an offset from the first layer, and the length of
  the path.  \<open>None\<close> is an index out of range, \<open>Some None\<close> an error that is only logged.
\<close>

fun find_along :: "transformer \<Rightarrow> nat pancake_layer list \<Rightarrow> nat \<Rightarrow> string list \<Rightarrow> nat \<Rightarrow> nat option option" where
  "find_along st ls i [] found = Some (Some found)"
| "find_along st ls i (aggrName # path) found =
     (if i \<ge> length ls then None
      else case nextBucketAggregation (ls ! i) of
             None \<Rightarrow> Some None
           | Some b \<Rightarrow>
               if bucket_name (bucket_store st ! b) \<noteq> aggrName then Some None
               else find_along st ls (Suc i) path i)"

definition findParentBucketLayer ::
  "transformer \<Rightarrow> nat pancake_layer list \<Rightarrow> pipeline_type \<Rightarrow> (nat \<times> nat) option option" where
  "findParentBucketLayer st ls p =
     map_option (map_option (\<lambda>found. (found, length (PathToParent p)))) (find_along st ls 0 (PathToParent p) 0)"

text \<open>
  One pipeline of layer \<open>i\<close>: it is added to the layer found.  The pipeline is a pointer, so the
  bucket aggregation set in it is also seen from the layer it came from, at position \<open>k\<close>.
\<close>

definition connect_pipeline ::
  "transformer \<Rightarrow> nat \<Rightarrow> nat \<Rightarrow> nat pancake_layer list \<Rightarrow> nat pancake_layer list option" where
  "connect_pipeline st i k ls =
     (let p = currentPipelineAggregations (ls ! i) ! k
      in case findParentBucketLayer st (drop i ls) (pipeline_queryType p) of
           None \<Rightarrow> None
         | Some None \<Rightarrow> Some ls
         | Some (Some (found, layerIdx)) \<Rightarrow>
             let parentBucketLayerIdx = i + layerIdx
             in case (if parentBucketLayerIdx > 0
                      then (case nextBucketAggregation (ls ! (parentBucketLayerIdx - 1)) of
                              None \<Rightarrow> None
                            | Some b \<Rightarrow>
                                Some (p\<lparr>pipeline_queryType := (pipeline_queryType p)
                                  \<lparr>parentBucketAggregation := Some (bucket_queryType (bucket_store st ! b))\<rparr>\<rparr>))
                      else Some p) of
                  None \<Rightarrow> None
                | Some p' \<Rightarrow>
                    let own = (ls ! i)\<lparr>currentPipelineAggregations := (currentPipelineAggregations (ls ! i))[k := p']\<rparr>;
                        ls = ls[i := own];
                        parent = (ls ! (i + found))
                          \<lparr>childrenPipelineAggregations := childrenPipelineAggregations (ls ! (i + found)) @ [p']\<rparr>
                    in Some (ls[i + found := parent]))"

text \<open>The pipelines in order, by the layer and the position in it.\<close>

definition pipeline_places :: "nat pancake_layer list \<Rightarrow> (nat \<times> nat) list" where
  "pipeline_places ls =
     concat (map (\<lambda>i. map (Pair i) [0..<length (currentPipelineAggregations (ls ! i))]) [0..<length ls])"

fun connect_all :: "transformer \<Rightarrow> (nat \<times> nat) list \<Rightarrow> nat pancake_layer list \<Rightarrow> nat pancake_layer list option" where
  "connect_all st [] ls = Some ls"
| "connect_all st ((i, k) # places) ls =
     (case connect_pipeline st i k ls of None \<Rightarrow> None | Some ls' \<Rightarrow> connect_all st places ls')"

definition connectPipelineAggregations :: "transformer \<Rightarrow> nat pancake_layer list \<Rightarrow> nat pancake_layer list option" where
  "connectPipelineAggregations st ls = connect_all st (pipeline_places ls) ls"

section \<open>Automatic date histograms\<close>

text \<open>The key is set in the aggregation of the store; without a where clause the search panics.\<close>

definition set_bucket_type :: "nat \<Rightarrow> bucket_type \<Rightarrow> transformer \<Rightarrow> transformer" where
  "set_bucket_type b q st =
     st\<lparr>bucket_store := (bucket_store st)[b := (bucket_store st ! b)\<lparr>bucket_queryType := q\<rparr>]\<rparr>"

fun transformAutoDateHistogram :: "nat pancake_layer list \<Rightarrow> expr \<Rightarrow> transformer \<Rightarrow> transformer option" where
  "transformAutoDateHistogram [] whereClause st = Some st"
| "transformAutoDateHistogram (layer # ls) whereClause st =
     (case nextBucketAggregation layer of
        None \<Rightarrow> transformAutoDateHistogram ls whereClause st
      | Some b \<Rightarrow>
          (case bucket_queryType (bucket_store st ! b) of
             AutoDateHistogram field bucketsNr key \<Rightarrow>
               (case FindTimestampLowerBound field whereClause of
                  None \<Rightarrow> None
                | Some (tsLowerBound, found) \<Rightarrow>
                    transformAutoDateHistogram ls whereClause
                      (if found then set_bucket_type b (AutoDateHistogram field bucketsNr tsLowerBound) st else st))
           | _ \<Rightarrow> transformAutoDateHistogram ls whereClause st))"

section \<open>Splitting by groups\<close>

definition alloc_bucket :: "bucket_aggregation \<Rightarrow> transformer \<Rightarrow> nat \<times> transformer" where
  "alloc_bucket b st = (length (bucket_store st), st\<lparr>bucket_store := bucket_store st @ [b]\<rparr>)"

definition first_bucket :: "'b pancake \<Rightarrow> 'b option" where
  "first_bucket p = (case layers p of [] \<Rightarrow> None | l # ls \<Rightarrow> nextBucketAggregation l)"

definition noMoreBucket :: "'b pancake \<Rightarrow> bool" where
  "noMoreBucket p \<longleftrightarrow> length (layers p) \<le> 1
     \<or> length (layers p) = 2 \<and> nextBucketAggregation (layers p ! 1) = None"

definition canSimplyAddCombinatorToWhereClause :: "'b pancake \<Rightarrow> bool" where
  "canSimplyAddCombinatorToWhereClause p \<longleftrightarrow> noMoreBucket p
     \<and> currentMetricAggregations (hd (layers p)) = [] \<and> currentPipelineAggregations (hd (layers p)) = []"

text \<open>The pancake of one group: its bucket is a copy that has this group only.\<close>

definition group_pancake :: "nat \<Rightarrow> nat pancake \<Rightarrow> bucket_type \<times> combinator_group \<Rightarrow> transformer \<Rightarrow> nat pancake \<times> transformer" where
  "group_pancake b p g st =
     (let (b', st') = alloc_bucket ((bucket_store st ! b)\<lparr>bucket_queryType := fst g\<rparr>) st
      in (p\<lparr>layers := newPancakeModelLayer (Some b') # tl (layers p),
             pancake_whereClause := And [pancake_whereClause p, group_WhereClause (snd g)]\<rparr>, st'))"

fun group_pancakes ::
  "nat \<Rightarrow> nat pancake \<Rightarrow> (bucket_type \<times> combinator_group) list \<Rightarrow> transformer \<Rightarrow> nat pancake list \<times> transformer" where
  "group_pancakes b p [] st = ([], st)"
| "group_pancakes b p (g # gs) st =
     (let (p1, st1) = group_pancake b p g st;
          (ps, st2) = group_pancakes b p gs st1
      in (p1 # ps, st2))"

text \<open>
  The new pancakes, and the pancake with its first group only.  The bucket of the first layer is
  changed where it is, for every pancake that has it.
\<close>

definition createCombinatorPancakes ::
  "nat pancake \<Rightarrow> transformer \<Rightarrow> (nat pancake list \<times> nat pancake \<times> transformer) option" where
  "createCombinatorPancakes p st =
     (case first_bucket p of
        None \<Rightarrow> Some ([], p, st)
      | Some b \<Rightarrow>
          (let q = bucket_queryType (bucket_store st ! b)
           in case CombinatorGroups q of
                None \<Rightarrow> Some ([], p, st)
              | Some None \<Rightarrow>
                  if canSimplyAddCombinatorToWhereClause p then Some ([], p, st) else None
              | Some (Some gs) \<Rightarrow>
                  if canSimplyAddCombinatorToWhereClause p \<or> length (layers p) \<le> 1 \<or> gs = [] then Some ([], p, st)
                  else let split = CombinatorSplit q;
                           (ps, st1) = group_pancakes b p (tl (zip split gs)) st
                       in Some (ps, p\<lparr>pancake_whereClause := And [pancake_whereClause p, group_WhereClause (hd gs)]\<rparr>,
                                set_bucket_type b (hd split) st1)))"

section \<open>Metrics that take rows\<close>

definition takes_rows :: "metric_aggregation \<Rightarrow> bool" where
  "takes_rows m =
     (case metric_queryType m of MetricQT (TopMetrics n s d) \<Rightarrow> True | MetricQT (TopHits n os) \<Rightarrow> True | _ \<Rightarrow> False)"

text \<open>
  Appending to a slice of \<open>n\<close> elements that was built one by one writes into its array when there
  is room, which is when \<open>n\<close> is no power of two: Go doubles the capacity.
\<close>

function power_of_two :: "nat \<Rightarrow> bool" where
  "power_of_two n = (if n \<le> 1 then n = 1 else n mod 2 = 0 \<and> power_of_two (n div 2))"
  by pat_completeness auto
termination by (relation "measure id") auto

definition append_shares :: "nat \<Rightarrow> bool" where
  "append_shares n \<longleftrightarrow> n \<noteq> 0 \<and> \<not> power_of_two n"

text \<open>
  The copies of a bucket aggregation by conditions, one with each group, put behind all the layers
  so far.  When the slices have room, all results share the array that was written last.
\<close>

fun split_layers ::
  "bucket_aggregation \<Rightarrow> bucket_type list \<Rightarrow> nat pancake_layer list list \<Rightarrow> transformer
     \<Rightarrow> nat pancake_layer list list \<times> transformer" where
  "split_layers b [] ls st = ([], st)"
| "split_layers b (q # qs) ls st =
     (let (st1, here) = foldl (\<lambda>acc l. case acc of (st, ls) \<Rightarrow>
             (case alloc_bucket (b\<lparr>bucket_queryType := q\<rparr>) st of
                (a, st') \<Rightarrow> (st', ls @ [l @ [newPancakeModelLayer (Some a)]]))) (st, []) ls;
          (others, st2) = split_layers b qs ls st1
      in (here @ others, st2))"

definition shared_arrays :: "nat \<Rightarrow> nat \<Rightarrow> 'a list \<Rightarrow> 'a list" where
  "shared_arrays n k xs = (if append_shares n \<and> xs \<noteq> [] then concat (replicate (length xs div k) (drop (length xs - k) xs)) else xs)"

definition add_layer_below ::
  "nat \<Rightarrow> nat \<Rightarrow> nat pancake_layer list list \<Rightarrow> transformer \<Rightarrow> nat pancake_layer list list \<times> transformer" where
  "add_layer_below idx b ls st =
     (let bucket = bucket_store st ! b;
          q = bucket_queryType bucket
      in if is_combinator q
         then let (new, st') = split_layers bucket (CombinatorSplit q) ls st
              in (shared_arrays idx (length ls) new, st')
         else (map (\<lambda>l. l @ [newPancakeModelLayer (Some b)]) ls, st))"

text \<open>The layers above the metric, without their metrics and pipelines.\<close>

fun layers_above ::
  "nat \<Rightarrow> nat pancake_layer list \<Rightarrow> nat pancake_layer list list \<Rightarrow> transformer
     \<Rightarrow> (nat pancake_layer list list \<times> transformer) option" where
  "layers_above idx [] ls st = Some (ls, st)"
| "layers_above idx (layer # rest) ls st =
     (case nextBucketAggregation layer of
        None \<Rightarrow> None
      | Some b \<Rightarrow> (let (ls', st') = add_layer_below idx b ls st in layers_above (Suc idx) rest ls' st'))"

definition row_pancakes ::
  "nat pancake \<Rightarrow> nat \<Rightarrow> metric_aggregation \<Rightarrow> transformer \<Rightarrow> (nat pancake list \<times> transformer) option" where
  "row_pancakes p layerIdx metric st =
     map_option (\<lambda>(ls, st').
       (map (\<lambda>l. \<lparr>layers = l @ [(newPancakeModelLayer None)\<lparr>currentMetricAggregations := [metric]\<rparr>],
                    pancake_whereClause = pancake_whereClause p, pancake_sampleLimit = pancake_sampleLimit p\<rparr>) ls, st'))
       (layers_above 0 (take layerIdx (layers p)) [[]] st)"

text \<open>The query of the pancake can take the rows itself, for the last metric of the last layer.\<close>

definition canOptimize :: "transformer \<Rightarrow> nat pancake \<Rightarrow> nat \<Rightarrow> nat \<Rightarrow> metric_aggregation list \<Rightarrow> bool" where
  "canOptimize st p layerIdx metricIdx metricsWithoutTopHits \<longleftrightarrow>
     (let metrics = currentMetricAggregations (layers p ! layerIdx)
      in layerIdx = length (layers p) - 1
         \<and> (length metrics = 1 \<or> length metrics - 1 = metricIdx \<and> metricsWithoutTopHits = [])
         \<and> list_all (\<lambda>layer2. currentMetricAggregations layer2 = []
              \<and> (case nextBucketAggregation layer2 of
                   None \<Rightarrow> True | Some b \<Rightarrow> \<not> is_combinator (bucket_queryType (bucket_store st ! b))))
             (take layerIdx (layers p)))"

text \<open>The metrics of a layer: those that stay, the new pancakes and the state.\<close>

fun row_metrics ::
  "nat pancake \<Rightarrow> nat \<Rightarrow> nat \<Rightarrow> metric_aggregation list \<Rightarrow> metric_aggregation list \<Rightarrow> nat pancake list \<Rightarrow> transformer
     \<Rightarrow> (metric_aggregation list \<times> nat pancake list \<times> transformer) option" where
  "row_metrics p layerIdx metricIdx [] kept result st = Some (kept, result, st)"
| "row_metrics p layerIdx metricIdx (metric # metrics) kept result st =
     (if \<not> takes_rows metric \<or> canOptimize st p layerIdx metricIdx kept
      then row_metrics p layerIdx (Suc metricIdx) metrics (kept @ [metric]) result st
      else case row_pancakes p layerIdx metric st of
             None \<Rightarrow> None
           | Some (new, st') \<Rightarrow> row_metrics p layerIdx (Suc metricIdx) metrics kept (result @ new) st')"

fun row_layers ::
  "nat list \<Rightarrow> nat pancake \<Rightarrow> nat pancake list \<Rightarrow> transformer
     \<Rightarrow> (nat pancake list \<times> nat pancake \<times> transformer) option" where
  "row_layers [] p result st = Some (result, p, st)"
| "row_layers (i # is) p result st =
     (case row_metrics p i 0 (currentMetricAggregations (layers p ! i)) [] result st of
        None \<Rightarrow> None
      | Some (kept, result', st') \<Rightarrow>
          row_layers is (p\<lparr>layers := (layers p)[i := (layers p ! i)\<lparr>currentMetricAggregations := kept\<rparr>]\<rparr>) result' st')"

definition createTopHitAndTopMetricsPancakes ::
  "nat pancake \<Rightarrow> transformer \<Rightarrow> (nat pancake list \<times> nat pancake \<times> transformer) option" where
  "createTopHitAndTopMetricsPancakes p st = row_layers [0..<length (layers p)] p [] st"

section \<open>Pancakes\<close>

definition sample_limit :: "transformer \<Rightarrow> nat pancake_layer list \<Rightarrow> int" where
  "sample_limit st ls =
     (case nextBucketAggregation (hd ls) of
        None \<Rightarrow> noSampleLimit
      | Some b \<Rightarrow> (case GetSampleLimit (bucket_queryType (bucket_store st ! b)) of None \<Rightarrow> noSampleLimit | Some n \<Rightarrow> n))"

text \<open>The pancakes of one list of layers: itself, those for the metrics that take rows, then those of the groups.\<close>

definition layers_to_pancakes ::
  "expr \<Rightarrow> nat pancake_layer list \<Rightarrow> transformer \<Rightarrow> (nat pancake list \<times> transformer) option" where
  "layers_to_pancakes whereClause ls st =
     do { ls' \<leftarrow> connectPipelineAggregations st ls;
          st1 \<leftarrow> transformAutoDateHistogram ls' whereClause st;
          (newCombinatorPancakes, p, st2) \<leftarrow>
            createCombinatorPancakes
              \<lparr>layers = ls', pancake_whereClause = whereClause, pancake_sampleLimit = sample_limit st ls\<rparr> st1;
          (additionalTopHitPancakes, p', st3) \<leftarrow> createTopHitAndTopMetricsPancakes p st2;
          Some (p' # additionalTopHitPancakes @ newCombinatorPancakes, st3) }"

fun all_pancakes ::
  "expr \<Rightarrow> nat pancake_layer list list \<Rightarrow> transformer \<Rightarrow> (nat pancake list \<times> transformer) option" where
  "all_pancakes whereClause [] st = Some ([], st)"
| "all_pancakes whereClause (ls # lss) st =
     do { (ps, st1) \<leftarrow> layers_to_pancakes whereClause ls st;
          (ps', st2) \<leftarrow> all_pancakes whereClause lss st1;
          Some (ps @ ps', st2) }"

definition aggregationTreeToPancakes :: "agg_tree \<Rightarrow> transformer \<Rightarrow> tr_failure + nat pancake list \<times> transformer" where
  "aggregationTreeToPancakes topLevel st =
     (if tree_children topLevel = [] then Inl (TrError ''no top level aggregations found'')
      else and_then (aggregationChildrenToLayers no_names (tree_children topLevel) st)
             (\<lambda>(resultLayers, st'). case all_pancakes (tree_whereClause topLevel) resultLayers st' of
                None \<Rightarrow> Inl TrPanic | Some r \<Rightarrow> Inr r))"

text \<open>The pancake as the generators of queries and responses see it, when nothing changes any more.\<close>

definition resolve_pancake :: "transformer \<Rightarrow> nat pancake \<Rightarrow> bucket_aggregation pancake" where
  "resolve_pancake st p =
     \<lparr>layers = map (map_layer (\<lambda>b. bucket_store st ! b)) (layers p), pancake_whereClause = pancake_whereClause p,
      pancake_sampleLimit = pancake_sampleLimit p\<rparr>"

text \<open>The metric of the total count, in the first layer of the first pancake.\<close>

definition PancakeTotalCountMetricName :: string where
  "PancakeTotalCountMetricName = ''__quesma_total_count''"

definition augmentedCountAggregation :: metric_aggregation where
  "augmentedCountAggregation =
     \<lparr>metric_name = PancakeTotalCountMetricName, metric_internalName = ''metric__'' @ PancakeTotalCountMetricName,
      metric_queryType = MetricQT TotalCount, metric_selectedColumns = [NewCountFunc []], metric_metadata = None\<rparr>"

definition add_total_count :: "'b pancake list \<Rightarrow> 'b pancake list" where
  "add_total_count ps =
     (case ps of
        [] \<Rightarrow> []
      | p # ps' \<Rightarrow>
          p\<lparr>layers := (case layers p of
               [] \<Rightarrow> []
             | l # ls \<Rightarrow> l\<lparr>currentMetricAggregations := currentMetricAggregations l @ [augmentedCountAggregation]\<rparr> # ls)\<rparr> # ps')"

section \<open>Groups\<close>

lemma group_pancakes_props:
  assumes "group_pancakes b p gs st = (ps, st')" "b < length (bucket_store st)"
  shows "bucket_store st' = bucket_store st @ map (\<lambda>g. (bucket_store st ! b)\<lparr>bucket_queryType := fst g\<rparr>) gs
     \<and> map pancake_whereClause ps = map (\<lambda>g. And [pancake_whereClause p, group_WhereClause (snd g)]) gs
     \<and> map first_bucket ps = map Some [length (bucket_store st)..<length (bucket_store st) + length gs]
     \<and> map (tl \<circ> layers) ps = replicate (length gs) (tl (layers p))"
  using assms
proof (induction gs arbitrary: st ps)
  case (Cons g gs)
  obtain p1 st1 where one: "group_pancake b p g st = (p1, st1)" by (cases "group_pancake b p g st")
  obtain ps2 where rest: "group_pancakes b p gs st1 = (ps2, st')" and ps: "ps = p1 # ps2"
    using Cons.prems(1) one by (auto split: prod.splits)
  have st1: "bucket_store st1 = bucket_store st @ [(bucket_store st ! b)\<lparr>bucket_queryType := fst g\<rparr>]"
    and p1: "pancake_whereClause p1 = And [pancake_whereClause p, group_WhereClause (snd g)]"
      "first_bucket p1 = Some (length (bucket_store st))" "tl (layers p1) = tl (layers p)"
    using one by (auto simp: group_pancake_def alloc_bucket_def first_bucket_def newPancakeModelLayer_def)
  have b: "b < length (bucket_store st1)" "bucket_store st1 ! b = bucket_store st ! b"
    using Cons.prems(2) by (simp_all add: st1 nth_append)
  show ?case using Cons.IH [OF rest b(1)] b(2) by (simp add: st1 p1 ps upt_conv_Cons del: upt_Suc)
qed simp

text \<open>The pancake \<open>x\<close> is the pancake \<open>p\<close> with its first bucket at \<open>b\<close>, for the group \<open>g\<close> only.\<close>

definition pancake_of_group ::
  "transformer \<Rightarrow> nat pancake \<Rightarrow> bucket_aggregation \<Rightarrow> transformer \<Rightarrow> nat pancake \<Rightarrow> combinator_group \<Rightarrow> bool" where
  "pancake_of_group st p b st' x g \<longleftrightarrow>
     pancake_whereClause x = And [pancake_whereClause p, group_WhereClause g] \<and> tl (layers x) = tl (layers p)
     \<and> (\<exists>a q. first_bucket x = Some a \<and> bucket_store st' ! a = b\<lparr>bucket_queryType := q\<rparr>
          \<and> only_group (\<not> is_DateRange (bucket_queryType b)) q g)"

text \<open>Without groups, or when one query computes all groups, the pancake stays as it is.\<close>

lemma pancake_stays_whole:
  assumes "case first_bucket p of
      None \<Rightarrow> True
    | Some b \<Rightarrow>
        (case CombinatorGroups (bucket_queryType (bucket_store st ! b)) of
           None \<Rightarrow> True
         | Some gs \<Rightarrow> canSimplyAddCombinatorToWhereClause p \<or> gs \<noteq> None \<and> length (layers p) \<le> 1 \<or> gs = Some [])"
  shows "createCombinatorPancakes p st = Some ([], p, st)"
  using assms by (auto simp: createCombinatorPancakes_def Let_def split: option.splits)

text \<open>
  C13: A pancake of several layers whose first aggregation is by conditions, unless there are only
  metrics below that aggregation and none beside it, is split into one pancake for each group, in the
  order of the groups.  The pancake of a group has the condition of the group beside the where clause
  of the request and the same layers below; its first aggregation is the same but for its groups, of
  which it has this one only, with the same condition, without a prefix, and with the same key except
  in a date range.
\<close>

theorem one_pancake_per_group:
  assumes "first_bucket p = Some b" "b < length (bucket_store st)"
    and "CombinatorGroups (bucket_queryType (bucket_store st ! b)) = Some (Some gs)" "gs \<noteq> []"
    and "length (layers p) > 1" "\<not> canSimplyAddCombinatorToWhereClause p"
  shows "\<exists>ps p' st'. createCombinatorPancakes p st = Some (ps, p', st')
     \<and> list_all2 (pancake_of_group st p (bucket_store st ! b) st') (p' # ps) gs"
proof -
  let ?q = "bucket_queryType (bucket_store st ! b)"
  note only = split_has_one_group_each [OF assms(3)]
  obtain g gs' s ss where gs: "gs = g # gs'" and split: "CombinatorSplit ?q = s # ss" and len: "length ss = length gs'"
    using assms(4) list_all2_lengthD [OF only] by (cases gs; cases "CombinatorSplit ?q") auto
  obtain ps st1 where run: "group_pancakes b p (zip ss gs') st = (ps, st1)" by fastforce
  note props = group_pancakes_props [OF run assms(2)]
  let ?p = "p\<lparr>pancake_whereClause := And [pancake_whereClause p, group_WhereClause g]\<rparr>"
  let ?st = "set_bucket_type b s st1"
  have res: "createCombinatorPancakes p st = Some (ps, ?p, ?st)"
    using assms run by (simp add: createCombinatorPancakes_def split gs Let_def)
  let ?bucket = "bucket_store st ! b" and ?n = "length (bucket_store st)"
  have new: "bucket_store ?st ! (?n + i) = ?bucket\<lparr>bucket_queryType := ss ! i\<rparr>" if "i < length ss" for i
    using props len assms(2) that by (simp add: set_bucket_type_def nth_append)
  have "length ps = length gs'"
    using arg_cong [OF conjunct1 [OF conjunct2 [OF props]], of length] len by simp
  have "list_all2 (pancake_of_group st p ?bucket ?st) ps gs'"
  proof (rule list_all2_all_nthI)
    fix i assume i: "i < length ps"
    with \<open>length ps = length gs'\<close> len have i': "i < length gs'" "i < length ss" by simp_all
    have "pancake_whereClause (ps ! i) = And [pancake_whereClause p, group_WhereClause (gs' ! i)]"
      using arg_cong [OF conjunct1 [OF conjunct2 [OF props]], of "\<lambda>xs. xs ! i"] i i' by simp
    moreover have "first_bucket (ps ! i) = Some (?n + i)"
      using arg_cong [OF conjunct1 [OF conjunct2 [OF conjunct2 [OF props]]], of "\<lambda>xs. xs ! i"] i i' by simp
    moreover have "tl (layers (ps ! i)) = tl (layers p)"
      using arg_cong [OF conjunct2 [OF conjunct2 [OF conjunct2 [OF props]]], of "\<lambda>xs. xs ! i"] i i' by simp
    moreover have "only_group (\<not> is_DateRange ?q) (ss ! i) (gs' ! i)"
      using only i' unfolding gs split by (simp add: list_all2_nthD)
    ultimately show "pancake_of_group st p ?bucket ?st (ps ! i) (gs' ! i)"
      using new [OF i'(2)] by (auto simp: pancake_of_group_def)
  qed (simp add: \<open>length ps = length gs'\<close>)
  moreover have "bucket_store ?st ! b = ?bucket\<lparr>bucket_queryType := s\<rparr>"
    using props assms(2) by (simp add: set_bucket_type_def nth_append)
  with assms(1) only have "pancake_of_group st p ?bucket ?st ?p g"
    unfolding gs split by (auto simp: pancake_of_group_def first_bucket_def)
  ultimately show ?thesis using res unfolding gs by auto
qed

text \<open>Filters \<open>a\<close> and \<open>b\<close>, and terms aggregations.\<close>

definition a_condition :: "string \<Rightarrow> simple_query" where
  "a_condition name = NewSimpleQuery (ColumnRef (NewColumnRef name)) True"

definition two_filters :: query_type where
  "two_filters = BucketQT (Filters [(''a'', a_condition ''a''), (''b'', a_condition ''b'')])"

definition terms_node :: "string \<Rightarrow> agg_node option list \<Rightarrow> agg_node option" where
  "terms_node name cs = Some (AggNode (leaf_info name (BucketQT (Terms False None None))) cs)"

text \<open>The buckets of a pancake: the names, and the groups of those with groups.\<close>

definition buckets_of :: "transformer \<Rightarrow> nat pancake \<Rightarrow> (string \<times> string list) list" where
  "buckets_of st p =
     concat (map (\<lambda>l. case nextBucketAggregation l of
                        None \<Rightarrow> []
                      | Some b \<Rightarrow>
                          let bucket = bucket_store st ! b
                          in [(bucket_name bucket, case bucket_queryType bucket of Filters fs \<Rightarrow> map fst fs | _ \<Rightarrow> [])])
       (layers p))"

definition pancake_buckets :: "agg_node option list \<Rightarrow> expr \<Rightarrow> (string \<times> string list) list list option" where
  "pancake_buckets cs whereClause =
     (case aggregationTreeToPancakes \<lparr>tree_children = cs, tree_whereClause = whereClause\<rparr> newPancakeTransformer of
        Inl e \<Rightarrow> None
      | Inr (ps, st) \<Rightarrow> Some (map (buckets_of st) ps))"

definition sample_bucket :: "string \<Rightarrow> bucket_type \<Rightarrow> bucket_aggregation" where
  "sample_bucket name q =
     \<lparr>bucket_name = name, bucket_internalName = ''aggr__'' @ name @ ''__'', bucket_queryType = q,
      bucket_selectedColumns = [], bucket_orderBy = [], bucket_limit = 0, bucket_isKeyed = False, bucket_metadata = None,
      filterOurEmptyKeyBucket = False\<rparr>"

definition filters_state :: transformer where
  "filters_state =
     \<lparr>usedNames = [], name_arrays = [[]],
      bucket_store = [sample_bucket ''f'' (Filters [(''a'', a_condition ''a''), (''b'', a_condition ''b'')]),
                      sample_bucket ''t'' (Terms False None None)]\<rparr>"

definition filters_pancake :: "nat pancake" where
  "filters_pancake =
     \<lparr>layers = [newPancakeModelLayer (Some 0), newPancakeModelLayer (Some 1)], pancake_whereClause = NilExpr,
      pancake_sampleLimit = 0\<rparr>"

theorem one_pancake_per_group_witness:
  "\<exists>ps p' st' gs. createCombinatorPancakes filters_pancake filters_state = Some (ps, p', st')
     \<and> list_all2 (pancake_of_group filters_state filters_pancake (bucket_store filters_state ! 0) st') (p' # ps) gs
     \<and> map group_WhereClause gs = [ColumnRef (NewColumnRef ''a''), ColumnRef (NewColumnRef ''b'')]"
proof -
  let ?q = "bucket_queryType (bucket_store filters_state ! 0)"
  define gs where "gs = the (the (CombinatorGroups ?q))"
  have gs: "CombinatorGroups ?q = Some (Some gs)" and ne: "gs \<noteq> []"
    and wheres: "map group_WhereClause gs = [ColumnRef (NewColumnRef ''a''), ColumnRef (NewColumnRef ''b'')]"
    unfolding gs_def by code_simp+
  have "first_bucket filters_pancake = Some 0" "0 < length (bucket_store filters_state)"
    "length (layers filters_pancake) > 1" "\<not> canSimplyAddCombinatorToWhereClause filters_pancake"
    by code_simp+
  from one_pancake_per_group [OF this(1,2) gs ne this(3,4)] wheres show ?thesis
    by (elim exE conjE) (intro exI conjI)
qed

section \<open>What is lost\<close>

text \<open>
  The bucket of the first layer is shared by the pancakes of its children, and changed to its first
  group when the first of them is split: the second child is only computed in that group.
\<close>

lemma second_child_loses_groups:
  "pancake_buckets
     [Some (AggNode (leaf_info ''f'' two_filters) [terms_node ''x'' [], terms_node ''y'' []])] NilExpr
   = Some [[(''f'', [''a'']), (''x'', [])], [(''f'', [''b'']), (''x'', [])], [(''f'', [''a'']), (''y'', [])]]"
  by code_simp

text \<open>
  Top hits below three terms aggregations and two filters: both pancakes for them have the second
  filter, because the slices of their layers share an array.
\<close>

definition top_hits_below_filters :: "agg_node option list" where
  "top_hits_below_filters =
     [terms_node ''1'' [terms_node ''2'' [terms_node ''3''
        [Some (AggNode (leaf_info ''f'' two_filters)
           [Some (AggNode (leaf_info ''top'' (MetricQT (TopHits 1 []))) [])])]]]]"

lemma top_hits_lose_first_filter:
  "pancake_buckets top_hits_below_filters NilExpr
   = Some [[(''1'', []), (''2'', []), (''3'', []), (''f'', [''a'', ''b''])],
           [(''1'', []), (''2'', []), (''3'', []), (''f'', [''b''])],
           [(''1'', []), (''2'', []), (''3'', []), (''f'', [''b''])]]"
  by code_simp

text \<open>An automatic date histogram in a request without a query panics.\<close>

lemma auto_date_histogram_needs_a_query:
  "aggregationTreeToPancakes
     \<lparr>tree_children = [Some (AggNode (leaf_info ''h'' (BucketQT (AutoDateHistogram (NewColumnRef ''t'') 1 0))) [])],
      tree_whereClause = NilExpr\<rparr> newPancakeTransformer = Inl TrPanic"
  by code_simp

text \<open>So does a pipeline whose path goes on below the last layer.\<close>

definition deep_pipeline :: query_type where
  "deep_pipeline = PipelineQT
     \<lparr>pipeline_kind = SumBucket, Parent = ''m'', PathToParent = [''t'', ''u''], parentBucketAggregation = None, isCount = False\<rparr>"

lemma long_path_panics:
  "aggregationTreeToPancakes
     \<lparr>tree_children = [terms_node ''t'' [], Some (AggNode (leaf_info ''p'' deep_pipeline) [])],
      tree_whereClause = NilExpr\<rparr> newPancakeTransformer = Inl TrPanic"
  by code_simp

end
