(* ===== verification/Spec2Isabelle.thy ===== *)
theory Spec2Isabelle
  imports Optimize_Trunc Resolver_State Literal_Passes Query_Request Table_Statements Discovered_Tables Ingest_Invariants
    Pancake_Transformer
begin

text \<open>
  A model of Quesma, a gateway that answers Elasticsearch requests from ClickHouse: it decides
  which backend answers for an index, keeps the schemas of the indexes, translates queries into
  SQL expressions, optimises and renders them, and highlights the matches in the rows that come
  back.

  \<^bold>\<open>Conventions\<close> (\<open>Prelude\<close>).  A Go string is a list of bytes.  A function that may panic returns
  an \<open>option\<close>, \<open>None\<close> being the panic; errors that are returned are values of their own.  A Go map
  that is only looked up is a map; one that is walked is an association list, whose order stands
  for the order of one walk, and theorems about it hold for every order.  Operations under a mutex
  are single steps.  Logging is left out.

  \<^bold>\<open>Expressions\<close> (\<open>Expr_Model\<close>, \<open>Expr_Render\<close>): \<open>quesma/model\<close>, files \<open>expr.go\<close>, \<open>base_visitor.go\<close>,
  \<open>expr_string_renderer.go\<close> and the visitors beside them.  The tree of SQL expressions, the
  visitor with overrides, equality, combination of conditions, and rendering to text.  The lemmas
  show that plain visitors copy, that searches are exact, that rendering terminates without panic
  on well-formed trees, and that literals and identifiers are read back as written.

  \<^bold>\<open>Routing\<close> (\<open>Config\<close>, \<open>Table_Resolver\<close>, \<open>Resolver_State\<close>): \<open>quesma/config/index_config.go\<close>,
  \<open>quesma/elasticsearch/index.go\<close> and \<open>quesma/table_resolver\<close>.  A pattern is split into names, a
  ladder of rules decides on each, and the decisions are merged; the registry caches decisions and
  reloads its snapshot of tables.  The lemmas show what a decision covers, that connectors follow
  the configuration, and, by induction over the steps of the registry, that caches are transparent.
  The locale \<open>table_resolver\<close> states what the cache needs of a resolver.

  \<^bold>\<open>Schemas\<close> (\<open>Schema\<close>, \<open>Comment_Metadata\<close>, \<open>Schema_Registry\<close>): \<open>quesma/schema\<close>,
  \<open>quesma/comment_metadata\<close>, \<open>quesma/config/schema_config.go\<close> and the column names of
  \<open>quesma/util/utils.go\<close>.  Schemas are put together from tables, mappings, encodings and overrides,
  and cached.  The locale \<open>loader_cache\<close> is the contract of the cache; the step relation
  \<open>registry_step\<close> interleaves lookups, updates, changes of the tables and reloads.  The table
  provider and the type adapter are arguments.

  \<^bold>\<open>Lucene queries\<close> (\<open>Go_Float\<close>, \<open>Lucene_Lexer\<close>, \<open>Lucene_Value\<close>, \<open>Lucene_Query\<close>):
  \<open>quesma/parsers/elastic_query_dsl/lucene\<close>.  Lexer, values of a field, statements and their
  translation, with the truth of translations on a row.  Lexer and translation recurse on the text
  and on the token list; both terminate, and the only panic is characterised.

  \<^bold>\<open>Optimisation\<close> (\<open>Go_Time\<close>, \<open>Optimize_Rules\<close>, \<open>Optimize_Split\<close>, \<open>Optimize_Trunc\<close>):
  \<open>quesma/optimize\<close>.  Cache hints, materialised views, splitting of time ranges, truncation of
  dates and the pipeline.  The lemmas compare the rows selected before and after.

  \<^bold>\<open>Highlighting\<close> (\<open>Highlight\<close>): \<open>quesma/model/highlighter.go\<close>.  The intervals highlighted are
  compared with a declarative description of the matches.

  \<^bold>\<open>Schema passes\<close> (\<open>Rewriting\<close>, \<open>Schema_Passes\<close>, \<open>Schema_Visitors\<close>, \<open>Schema_Arrays\<close>,
  \<open>Search_After\<close>, \<open>Schema_Transform\<close>, \<open>Physical_Table\<close>, \<open>Literal_Passes\<close>):
  \<open>schema_transformer.go\<close> and the files beside it in \<open>quesma/frontend_connectors\<close>.  The chain of
  passes that bind a query to the schema of its table.  Most passes replace some nodes and copy the
  others: the locale \<open>rewriting_visitor\<close> states that contract, and its lemmas describe the result
  as one recursive replacement.  The lemmas show what the columns of a query become, that a SELECT
  from the common table keeps the rows of the indexes of its query (and of their configured groups)
  while a join with it is not filtered, how comparisons are lowered, and which rows follow the values
  of \<open>search_after\<close> when every sort direction is given.

  \<^bold>\<open>Query DSL\<close> (\<open>Go_Json\<close>, \<open>Click_Types\<close>, \<open>Date_Math\<close>, \<open>Query_Parser\<close>, \<open>Query_Semantics\<close>,
  \<open>Query_Request\<close>): \<open>quesma/parsers/elastic_query_dsl\<close>, files \<open>query_parser.go\<close>, \<open>dates.go\<close> and
  \<open>date_math_expr_renderer.go\<close> among others, with the column types of \<open>quesma/clickhouse\<close> they ask for.
  A request is a JSON tree; every parser of a query, of a sort, of a size and of a highlighter is a
  function of it.  \<open>Query_Semantics\<close> gives a fragment of the query language a meaning of its own on
  rows and proves that the translation selects the same rows; other lemmas show how regular
  expressions become LIKE, what ill-formed objects match, and that expressions of date arithmetic
  are read back as printed.

  \<^bold>\<open>Tables\<close> (\<open>Click_Types\<close>, \<open>Click_Parser\<close>, \<open>Table_Discovery\<close>, \<open>Discovered_Tables\<close>):
  \<open>quesma/clickhouse\<close>, files \<open>schema.go\<close>, \<open>table.go\<close>, \<open>parserCreateTable.go\<close>, \<open>table_discovery.go\<close> and
  \<open>type_adapter.go\<close>.  The parser of CREATE TABLE statements works on positions, with \<open>-1\<close> for not
  found as in the sources; it terminates because every parser that succeeds has advanced.  Discovery
  turns the columns of the database, and the virtual tables of the storage, into the definitions
  that ingest and the schema registry share.

  \<^bold>\<open>Ingest\<close> (\<open>Ingest_Columns\<close>, \<open>Table_Statements\<close>, \<open>Ingest_Documents\<close>, \<open>Document_Columns\<close>,
  \<open>Ingest_Validator\<close>, \<open>Ingest_Attributes\<close>, \<open>Ingest_Rows\<close>, \<open>Ingest_Processor\<close>, \<open>Common_Rows\<close>,
  \<open>Ingest_Invariants\<close>): \<open>quesma/ingest\<close> with
  \<open>quesma/util/json_processor.go\<close> and \<open>quesma/common_table\<close>.  A document is rewritten, its fields are
  renamed to columns and flattened; its table is created or found, the document is validated against
  it, fields without a column become columns or attributes, and the statements are executed in order.
  \<open>Ingest_Processor\<close> threads the state of the processor, tables, registry and counters, through
  these steps.  The lemmas show that the statement that creates a table is read back as the columns
  of the document, that the columns of a document are the registered encodings of its fields, which
  values a column takes, and that no field is lost; that every row of the common table carries the
  name of its index; and, over a whole ingest with all its ways to fail, that the definitions of
  tables only grow and that the statements add to the database what was added to them.

  \<^bold>\<open>Aggregations\<close> (\<open>Ip_Addresses\<close>, \<open>Agg_Model\<close>, \<open>Pancake_Layers\<close>, \<open>Pancake_Transformer\<close>):
  \<open>quesma/model/bucket_aggregations\<close> and its neighbours, and \<open>pancake_transformer.go\<close> with
  \<open>pancake_model.go\<close> of \<open>quesma/parsers/elastic_query_dsl\<close>.  The tree of aggregations of a request is cut
  into pancakes, lists of layers with one bucket aggregation each, that one query can compute.  The
  bucket aggregations are pointers that pancakes share and change, so layers hold addresses of a
  store that the steps thread through; the slices of names on a path share arrays from the fourth name
  on, so these are in the store too.  The lemmas show that the pancakes have the aggregations of
  the tree, which paths an internal name stands for, that groups are split one by one, and where
  sharing loses groups and names; and that the keys of address aggregations are the networks of the
  addresses.

  \<^bold>\<open>Bounds\<close>.  No definition uses fuel: recursion is structural or has a measure.  \<open>int64\<close> times and
  durations wrap where the sources compute on them; the counters of ingest are integers that are not
  expected to reach the end of \<open>int64\<close>.  Slices double their capacity when they are full, as Go's do
  below 256 elements.  White space that is cut off a query is that of ASCII.

  \<^bold>\<open>Not modelled\<close>: HTTP handlers, clients of the backends, loading of the configuration file, the
  administration console and telemetry, which are input and output; the parsing of
  aggregations and the building of their responses; the painless interpreter, whose parser is generated; the lexers of SQL, which are tables
  of regular expressions.  Of ingest, the goroutine that reloads tables and the text of stored virtual
  tables, which a package of others writes.
\<close>

end
